(* ===== verification/Prelude.thy ===== *)
theory Prelude
  imports Complex_Main "HOL-Library.Char_ord" "HOL-Library.List_Lexorder"
    "HOL-Library.Product_Lexorder" "HOL-Library.Sublist"
begin

text \<open>
  The shared vocabulary of the development.

  A Go method of the store that returns \<open>(T, error)\<close> and talks to the database is a function
  \<open>'s \<Rightarrow> ('e + 'a) \<times> 's\<close>: \<open>Inl e\<close> is the error return, \<open>Inr x\<close> the value, and the state is
  returned in both cases, because an error return may leave effects behind. \<open>ret\<close>, \<open>throw\<close>,
  \<open>bnd\<close>, \<open>for_each\<close> are the statement combinators; \<open>keeps P m\<close> says that the operation \<open>m\<close>
  preserves \<open>P\<close>, on its error paths too, and its rules in \<open>keeps_intros\<close> carry an invariant
  through a whole method body.

  A SQL table is a list of rows in insertion order. \<open>upsert\<close>, \<open>update_where\<close> and
  \<open>delete_where\<close> are the three writing statements, and the locale \<open>keyed\<close> states what they
  promise about a table whose rows are identified by a primary key.
\<close>

named_theorems keeps_intros "preservation rules for operations"
named_theorems sem_simps "unfolding rules for operations"

section \<open>Operations with errors and state\<close>

type_synonym ('s, 'e, 'a) sem = "'s \<Rightarrow> ('e + 'a) \<times> 's"

definition ret :: "'a \<Rightarrow> ('s, 'e, 'a) sem" where
  "ret x = (\<lambda>s. (Inr x, s))"

definition throw :: "'e \<Rightarrow> ('s, 'e, 'a) sem" where
  "throw e = (\<lambda>s. (Inl e, s))"

definition gets :: "('s \<Rightarrow> 'a) \<Rightarrow> ('s, 'e, 'a) sem" where
  "gets f = (\<lambda>s. (Inr (f s), s))"

definition modify :: "('s \<Rightarrow> 's) \<Rightarrow> ('s, 'e, unit) sem" where
  "modify f = (\<lambda>s. (Inr (), f s))"

definition bnd :: "('s, 'e, 'a) sem \<Rightarrow> ('a \<Rightarrow> ('s, 'e, 'b) sem) \<Rightarrow> ('s, 'e, 'b) sem" where
  "bnd m f = (\<lambda>s. case m s of (Inl e, t) \<Rightarrow> (Inl e, t) | (Inr x, t) \<Rightarrow> f x t)"

text \<open>\<open>if err != nil { return mapErr(err) }\<close>: rewrite the error of a statement.\<close>

definition map_err :: "('e \<Rightarrow> 'e) \<Rightarrow> ('s, 'e, 'a) sem \<Rightarrow> ('s, 'e, 'a) sem" where
  "map_err g m = (\<lambda>s. case m s of (Inl e, t) \<Rightarrow> (Inl (g e), t) | r \<Rightarrow> r)"

text \<open>Code that looks at the error of a statement and goes on.\<close>

definition catch :: "('s, 'e, 'a) sem \<Rightarrow> ('e \<Rightarrow> ('s, 'e, 'a) sem) \<Rightarrow> ('s, 'e, 'a) sem" where
  "catch m h = (\<lambda>s. case m s of (Inl e, t) \<Rightarrow> h e t | r \<Rightarrow> r)"

text \<open>A guard that returns early with an error.\<close>

definition require :: "bool \<Rightarrow> 'e \<Rightarrow> ('s, 'e, unit) sem" where
  "require b e = (if b then ret () else throw e)"

text \<open>A value computed by a fallible pure function.\<close>

definition lift_sum :: "'e + 'a \<Rightarrow> ('s, 'e, 'a) sem" where
  "lift_sum r = (\<lambda>s. (r, s))"

text \<open>\<open>for _, x := range xs { if err := f(x); err != nil { return err } }\<close>\<close>

fun for_each :: "('b \<Rightarrow> ('s, 'e, unit) sem) \<Rightarrow> 'b list \<Rightarrow> ('s, 'e, unit) sem" where
  "for_each f [] = ret ()"
| "for_each f (x # xs) = bnd (f x) (\<lambda>_. for_each f xs)"

lemma ret_apply [sem_simps]: "ret x s = (Inr x, s)"
  by (simp add: ret_def)

lemma throw_apply [sem_simps]: "throw e s = (Inl e, s)"
  by (simp add: throw_def)

lemma gets_apply [sem_simps]: "gets f s = (Inr (f s), s)"
  by (simp add: gets_def)

lemma modify_apply [sem_simps]: "modify f s = (Inr (), f s)"
  by (simp add: modify_def)

lemma lift_sum_apply [sem_simps]: "lift_sum r s = (r, s)"
  by (simp add: lift_sum_def)

lemma require_apply [sem_simps]: "require b e s = (if b then (Inr (), s) else (Inl e, s))"
  by (simp add: require_def ret_def throw_def)

lemma bnd_apply [sem_simps]:
  "bnd m f s = (case m s of (Inl e, t) \<Rightarrow> (Inl e, t) | (Inr x, t) \<Rightarrow> f x t)"
  by (simp add: bnd_def)

lemma map_err_apply [sem_simps]:
  "map_err g m s = (case m s of (Inl e, t) \<Rightarrow> (Inl (g e), t) | r \<Rightarrow> r)"
  by (simp add: map_err_def)

lemma catch_apply [sem_simps]:
  "catch m h s = (case m s of (Inl e, t) \<Rightarrow> h e t | r \<Rightarrow> r)"
  by (simp add: catch_def)

lemma bnd_ok: "m s = (Inr x, t) \<Longrightarrow> bnd m f s = f x t"
  by (simp add: bnd_def)

lemma bnd_err: "m s = (Inl e, t) \<Longrightarrow> bnd m f s = (Inl e, t)"
  by (simp add: bnd_def)

lemma bnd_okE:
  assumes "bnd m f s = (Inr y, u)"
  obtains x t where "m s = (Inr x, t)" and "f x t = (Inr y, u)"
  using assms by (auto simp: bnd_def split: prod.splits sum.splits)

text \<open>A final check on the number of rows does not change the state.\<close>

lemma snd_bnd_require: "snd (bnd m (\<lambda>x. require (b x) e) s) = snd (m s)"
  by (simp add: bnd_def require_apply split: prod.split sum.split)

text \<open>A loop over an appended list runs its halves one after the other.\<close>

lemma for_each_append:
  "for_each f (xs @ ys) s = bnd (for_each f xs) (\<lambda>_. for_each f ys) s"
proof (induction xs arbitrary: s)
  case Nil
  then show ?case by (simp add: sem_simps)
next
  case (Cons x xs)
  then show ?case by (simp add: sem_simps split: prod.split sum.split)
qed

text \<open>A loop of checks that all pass.\<close>

lemma for_each_same: "(\<And>x. x \<in> set xs \<Longrightarrow> f x s = (Inr (), s)) \<Longrightarrow> for_each f xs s = (Inr (), s)"
  by (induction xs) (simp_all add: sem_simps)

section \<open>Preservation\<close>

definition keeps :: "('s \<Rightarrow> bool) \<Rightarrow> ('s, 'e, 'a) sem \<Rightarrow> bool" where
  "keeps P m \<longleftrightarrow> (\<forall>s. P s \<longrightarrow> P (snd (m s)))"

lemma keepsI: "(\<And>s. P s \<Longrightarrow> P (snd (m s))) \<Longrightarrow> keeps P m"
  by (simp add: keeps_def)

lemma keepsD: "keeps P m \<Longrightarrow> P s \<Longrightarrow> P (snd (m s))"
  by (simp add: keeps_def)

lemma keepsD2: "keeps P m \<Longrightarrow> P s \<Longrightarrow> m s = (r, t) \<Longrightarrow> P t"
  by (metis keeps_def snd_conv)

lemma keeps_ret [keeps_intros]: "keeps P (ret x)"
  by (simp add: keeps_def ret_def)

lemma keeps_throw [keeps_intros]: "keeps P (throw e)"
  by (simp add: keeps_def throw_def)

lemma keeps_gets [keeps_intros]: "keeps P (gets f)"
  by (simp add: keeps_def gets_def)

lemma keeps_lift_sum [keeps_intros]: "keeps P (lift_sum r)"
  by (simp add: keeps_def lift_sum_def)

lemma keeps_require [keeps_intros]: "keeps P (require b e)"
  by (simp add: keeps_def require_apply)

lemma keeps_map_err [keeps_intros]: "keeps P m \<Longrightarrow> keeps P (map_err g m)"
  by (fastforce simp: keeps_def map_err_def split: prod.split sum.split)

lemma keeps_catch [keeps_intros]:
  "keeps P m \<Longrightarrow> (\<And>e. keeps P (h e)) \<Longrightarrow> keeps P (catch m h)"
  by (fastforce simp: keeps_def catch_def split: prod.split sum.split)

lemma keeps_bnd [keeps_intros]:
  "keeps P m \<Longrightarrow> (\<And>x. keeps P (f x)) \<Longrightarrow> keeps P (bnd m f)"
  by (fastforce simp: keeps_def bnd_def split: prod.split sum.split)

lemma keeps_if [keeps_intros]:
  "(b \<Longrightarrow> keeps P m) \<Longrightarrow> (\<not> b \<Longrightarrow> keeps P n) \<Longrightarrow> keeps P (if b then m else n)"
  by simp

lemma keeps_case_option [keeps_intros]:
  "(x = None \<Longrightarrow> keeps P m) \<Longrightarrow> (\<And>y. x = Some y \<Longrightarrow> keeps P (f y)) \<Longrightarrow>
    keeps P (case x of None \<Rightarrow> m | Some y \<Rightarrow> f y)"
  by (cases x) simp_all

lemma keeps_case_list [keeps_intros]:
  "(x = [] \<Longrightarrow> keeps P m) \<Longrightarrow> (\<And>y ys. x = y # ys \<Longrightarrow> keeps P (f y ys)) \<Longrightarrow>
    keeps P (case x of [] \<Rightarrow> m | y # ys \<Rightarrow> f y ys)"
  by (cases x) simp_all

lemma keeps_Let [keeps_intros]: "(\<And>x. x = e \<Longrightarrow> keeps P (f x)) \<Longrightarrow> keeps P (Let e f)"
  by (simp add: Let_def)

lemma keeps_for_each [keeps_intros]:
  assumes "\<And>x. keeps P (f x)"
  shows "keeps P (for_each f xs)"
  by (induction xs) (auto intro!: keeps_ret keeps_bnd assms)

lemma keeps_modify: "(\<And>s. P s \<Longrightarrow> P (f s)) \<Longrightarrow> keeps P (modify f)"
  by (simp add: keeps_def modify_def)

section \<open>Tables as lists of rows\<close>

definition update_where :: "('r \<Rightarrow> bool) \<Rightarrow> ('r \<Rightarrow> 'r) \<Rightarrow> 'r list \<Rightarrow> 'r list" where
  "update_where p f rs = map (\<lambda>r. if p r then f r else r) rs"

definition delete_where :: "('r \<Rightarrow> bool) \<Rightarrow> 'r list \<Rightarrow> 'r list" where
  "delete_where p rs = filter (\<lambda>r. \<not> p r) rs"

definition count_where :: "('r \<Rightarrow> bool) \<Rightarrow> 'r list \<Rightarrow> nat" where
  "count_where p rs = length (filter p rs)"

text \<open>\<open>QueryRow(...).Scan\<close>: the first matching row, if any.\<close>

definition first_row :: "('r \<Rightarrow> bool) \<Rightarrow> 'r list \<Rightarrow> 'r option" where
  "first_row p rs = find p rs"

text \<open>\<open>INSERT ... ON CONFLICT(key) DO UPDATE\<close>: \<open>upd old new\<close> is the row the update leaves.\<close>

definition upsert :: "('r \<Rightarrow> 'k) \<Rightarrow> ('r \<Rightarrow> 'r \<Rightarrow> 'r) \<Rightarrow> 'r \<Rightarrow> 'r list \<Rightarrow> 'r list" where
  "upsert key upd r rs =
     (if list_ex (\<lambda>y. key y = key r) rs
      then map (\<lambda>y. if key y = key r then upd y r else y) rs
      else rs @ [r])"

text \<open>\<open>SELECT COALESCE(MAX(f), 0)\<close>\<close>

definition max_or_0 :: "int list \<Rightarrow> int" where
  "max_or_0 vs = (case vs of [] \<Rightarrow> 0 | v # us \<Rightarrow> foldr max us v)"

lemma set_update_where:
  "set (update_where p f rs) = {r \<in> set rs. \<not> p r} \<union> f ` {r \<in> set rs. p r}"
  by (auto simp: update_where_def)

lemma update_where_id: "\<forall>r\<in>set rs. \<not> p r \<Longrightarrow> update_where p f rs = rs"
  by (simp add: update_where_def map_idI)

lemma set_delete_where [simp]: "set (delete_where p rs) = {r \<in> set rs. \<not> p r}"
  by (auto simp: delete_where_def)

lemma length_update_where [simp]: "length (update_where p f rs) = length rs"
  by (simp add: update_where_def)

lemma map_update_where_key:
  "(\<And>r. r \<in> set rs \<Longrightarrow> p r \<Longrightarrow> k (f r) = k r) \<Longrightarrow> map k (update_where p f rs) = map k rs"
  by (auto simp: update_where_def)

lemma distinct_map_delete_where: "distinct (map k rs) \<Longrightarrow> distinct (map k (delete_where p rs))"
  by (simp add: delete_where_def distinct_map_filter)

lemma first_row_Some: "first_row p rs = Some r \<Longrightarrow> r \<in> set rs \<and> p r"
  by (auto simp: first_row_def find_Some_iff)

lemma first_row_None: "first_row p rs = None \<longleftrightarrow> (\<forall>r\<in>set rs. \<not> p r)"
  by (auto simp: first_row_def find_None_iff)

lemma first_row_append:
  "first_row p (xs @ ys) = (case first_row p xs of Some r \<Rightarrow> Some r | None \<Rightarrow> first_row p ys)"
  unfolding first_row_def by (induction xs) auto

lemma first_row_Cons:
  "first_row p [] = None" "first_row p (r # rs) = (if p r then Some r else first_row p rs)"
  by (simp_all add: first_row_def)

lemma first_row_unique:
  assumes "distinct (map k rs)" and "r \<in> set rs" and "p r" and "\<And>y. y \<in> set rs \<Longrightarrow> p y \<Longrightarrow> k y = k r"
  shows "first_row p rs = Some r"
proof (cases "first_row p rs")
  case None
  with assms(2,3) show ?thesis by (auto simp: first_row_None)
next
  case (Some y)
  then have "y \<in> set rs" "p y" by (auto dest: first_row_Some)
  with assms have "k y = k r" by blast
  with \<open>y \<in> set rs\<close> assms(1,2) have "y = r" by (auto simp: distinct_map inj_on_def)
  with Some show ?thesis by simp
qed

lemma count_where_0: "count_where p rs = 0 \<longleftrightarrow> (\<forall>r\<in>set rs. \<not> p r)"
  by (auto simp: count_where_def filter_empty_conv)

lemma max_or_0_ge: "v \<in> set vs \<Longrightarrow> v \<le> max_or_0 vs"
proof (cases vs)
  case (Cons w us)
  have "\<And>x. x \<in> set us \<Longrightarrow> x \<le> foldr max us w" and "w \<le> foldr max us w"
    by (induction us) (auto simp: le_max_iff_disj)
  moreover assume "v \<in> set vs"
  ultimately show ?thesis using Cons by (auto simp: max_or_0_def)
qed simp

lemma max_or_0_mem: "max_or_0 vs = 0 \<or> max_or_0 vs \<in> set vs"
proof (cases vs)
  case (Cons w us)
  have "foldr max us w \<in> insert w (set us)" by (induction us) (auto simp: max_def)
  then show ?thesis using Cons by (auto simp: max_or_0_def)
qed (simp add: max_or_0_def)

lemma max_or_0_in: "vs \<noteq> [] \<Longrightarrow> max_or_0 vs \<in> set vs"
proof -
  assume "vs \<noteq> []"
  then obtain w us where vs: "vs = w # us" by (cases vs) auto
  have "foldr max us w \<in> insert w (set us)" by (induction us) (auto simp: max_def)
  then show ?thesis by (simp add: vs max_or_0_def)
qed

lemma max_or_0_Max: "vs \<noteq> [] \<Longrightarrow> max_or_0 vs = Max (set vs)"
  by (intro Max_eqI [symmetric]) (auto intro: max_or_0_ge max_or_0_in)

lemma find_map: "find p (map f xs) = map_option f (find (p \<circ> f) xs)"
  by (induction xs) auto

text \<open>Rows that agree with a predicate before and after a statement.\<close>

lemma filter_update_where_other:
  "(\<And>r. r \<in> set rs \<Longrightarrow> p r \<Longrightarrow> \<not> q r \<and> \<not> q (f r)) \<Longrightarrow> filter q (update_where p f rs) = filter q rs"
  by (induction rs) (auto simp: update_where_def)

lemma filter_upsert_other:
  "\<not> q r \<Longrightarrow> (\<And>y. key y = key r \<Longrightarrow> \<not> q y \<and> \<not> q (upd y r)) \<Longrightarrow>
    filter q (upsert key upd r rs) = filter q rs"
proof -
  assume *: "\<not> q r" "\<And>y. key y = key r \<Longrightarrow> \<not> q y \<and> \<not> q (upd y r)"
  then have "filter q (map (\<lambda>y. if key y = key r then upd y r else y) rs) = filter q rs"
    by (induction rs) auto
  with * show ?thesis by (simp add: upsert_def)
qed

lemma filter_delete_where_other:
  "(\<And>r. r \<in> set rs \<Longrightarrow> p r \<Longrightarrow> \<not> q r) \<Longrightarrow> filter q (delete_where p rs) = filter q rs"
  by (induction rs) (auto simp: delete_where_def)

section \<open>Ordered association lists\<close>

lemma strict_sorted_map_of_inject:
  fixes a b :: "('k::linorder \<times> 'v) list"
  assumes s: "sorted_wrt (<) (map fst a)" "sorted_wrt (<) (map fst b)" and "map_of a = map_of b"
  shows "a = b"
proof -
  from s have d: "distinct (map fst a)" "distinct (map fst b)"
    using strict_sorted_iff by blast+
  with assms(3) have e: "set a = set b" by (simp add: map_of_inject_set)
  then have "set (map fst a) = set (map fst b)" by simp
  with s have "map fst a = map fst b" by (simp add: strict_sorted_equal)
  moreover have "inj_on fst (set a \<union> set b)" using d(1) e by (simp add: distinct_map)
  ultimately show ?thesis by (simp add: map_inj_on)
qed

lemma sort_key_sorted: "sorted (map f xs) \<Longrightarrow> sort_key f xs = xs"
  by (induction xs) (simp_all add: insort_is_Cons)

lemma sort_key_map:
  assumes "\<And>x. k (f x) = j x"
  shows "sort_key k (map f xs) = map f (sort_key j xs)"
proof (induction xs)
  case (Cons a xs)
  have "insort_key k (f a) (map f ys) = map f (insort_key j a ys)" for ys
    by (induction ys) (simp_all add: assms)
  with Cons show ?case by simp
qed simp

lemma sort_key_snoc: "\<forall>y\<in>set xs. k y \<le> k x \<Longrightarrow> sort_key k (xs @ [x]) = sort_key k xs @ [x]"
proof (induction xs)
  case (Cons a xs)
  have "k a \<le> k x \<Longrightarrow> insort_key k a (ys @ [x]) = insort_key k a ys @ [x]" for ys by (induction ys) auto
  with Cons show ?case by simp
qed simp

text \<open>Elements that contribute nothing need not be sorted.\<close>

lemma concat_sort_key_filter:
  "concat (map f (sort_key k xs)) = concat (map f (sort_key k (filter (\<lambda>x. f x \<noteq> []) xs)))"
proof -
  have "concat (map f ys) = concat (map f (filter (\<lambda>x. f x \<noteq> []) ys))" for ys by (induction ys) auto
  from this [of "sort_key k xs"] show ?thesis by (simp add: filter_sort)
qed

lemma concat_sort_key_append:
  assumes "\<forall>z\<in>set zs. f z = []"
  shows "concat (map f (sort_key k (xs @ zs))) = concat (map f (sort_key k xs))"
proof -
  have "filter (\<lambda>x. f x \<noteq> []) zs = []" using assms by (simp add: filter_empty_conv)
  then show ?thesis
    using concat_sort_key_filter [of f k "xs @ zs"] concat_sort_key_filter [of f k xs] by simp
qed

lemma sort_key_unique:
  assumes "set xs = set ys" and "distinct (map f xs)" and "distinct (map f ys)"
  shows "sort_key f xs = sort_key f ys"
proof -
  have d: "sorted_wrt (<) (map f (sort_key f xs))" "sorted_wrt (<) (map f (sort_key f ys))"
    using assms(2,3) by (simp_all add: strict_sorted_iff distinct_map)
  moreover have "set (map f (sort_key f xs)) = set (map f (sort_key f ys))" by (simp add: assms(1))
  ultimately have "map f (sort_key f xs) = map f (sort_key f ys)" by (simp only: strict_sorted_equal)
  moreover have "inj_on f (set (sort_key f xs) \<union> set (sort_key f ys))"
    using assms by (simp add: distinct_map)
  ultimately show ?thesis by (rule map_inj_on)
qed

section \<open>The contract of a keyed table\<close>

text \<open>
  What a client of a table with a primary key relies on: \<open>key\<close> is the primary key of a row,
  \<open>upd\<close> the row an upsert leaves, and the update keeps the key. The lemmas are the lookup laws
  the store methods use.
\<close>

locale keyed =
  fixes key :: "'r \<Rightarrow> 'k"
    and upd :: "'r \<Rightarrow> 'r \<Rightarrow> 'r"
  assumes key_upd: "key (upd old new) = key old"
begin

definition look :: "'k \<Rightarrow> 'r list \<Rightarrow> 'r option" where
  "look k rs = first_row (\<lambda>r. key r = k) rs"

lemma look_Nil [simp]: "look k [] = None"
  by (simp add: look_def first_row_def)

lemma look_Cons [simp]: "look k (r # rs) = (if key r = k then Some r else look k rs)"
  by (simp add: look_def first_row_def)

lemma look_None: "look k rs = None \<longleftrightarrow> k \<notin> key ` set rs"
  by (auto simp: look_def first_row_None)

lemma look_append:
  "look k (rs @ qs) = (case look k rs of Some r \<Rightarrow> Some r | None \<Rightarrow> look k qs)"
  unfolding look_def by (rule first_row_append)

lemma keys_update: "map key (map (\<lambda>y. if key y = key r then upd y r else y) rs) = map key rs"
  by (auto simp: key_upd)

lemma distinct_upsert:
  "distinct (map key rs) \<Longrightarrow> distinct (map key (upsert key upd r rs))"
  unfolding upsert_def using keys_update [of r rs]
  by (auto simp: list_ex_iff simp del: map_map)

lemma keys_upsert: "key ` set (upsert key upd r rs) = insert (key r) (key ` set rs)"
proof (cases "list_ex (\<lambda>y. key y = key r) rs")
  case True
  have "key ` set (map (\<lambda>y. if key y = key r then upd y r else y) rs) = key ` set rs"
    using arg_cong [OF keys_update, of set] by (simp only: set_map)
  moreover from True obtain y where "y \<in> set rs" "key r = key y" by (auto simp: list_ex_iff)
  then have "key r \<in> key ` set rs" by (rule rev_image_eqI)
  ultimately show ?thesis using True by (auto simp: upsert_def)
qed (simp add: upsert_def)

lemma look_upsert_other: "k \<noteq> key r \<Longrightarrow> look k (upsert key upd r rs) = look k rs"
proof -
  assume "k \<noteq> key r"
  then have "look k (map (\<lambda>y. if key y = key r then upd y r else y) rs) = look k rs"
    by (induction rs) (auto simp: key_upd)
  with \<open>k \<noteq> key r\<close> show ?thesis by (simp add: upsert_def look_append split: option.split)
qed

lemma look_upsert_same:
  "look (key r) (upsert key upd r rs) =
    Some (case look (key r) rs of None \<Rightarrow> r | Some y \<Rightarrow> upd y r)"
proof (cases "list_ex (\<lambda>y. key y = key r) rs")
  case True
  then have "look (key r) (map (\<lambda>y. if key y = key r then upd y r else y) rs) =
      Some (case look (key r) rs of None \<Rightarrow> r | Some y \<Rightarrow> upd y r)"
    by (induction rs) (auto simp: key_upd)
  with True show ?thesis by (simp add: upsert_def)
next
  case False
  then have "look (key r) rs = None" by (auto simp: look_None list_ex_iff)
  with False show ?thesis by (simp add: upsert_def look_append)
qed

lemma look_delete:
  "look k (delete_where (\<lambda>r. key r = k') rs) = (if k = k' then None else look k rs)"
  by (induction rs) (auto simp: delete_where_def)

lemma look_mem: "distinct (map key rs) \<Longrightarrow> r \<in> set rs \<Longrightarrow> look (key r) rs = Some r"
  by (induction rs) (auto simp: image_iff)

end

text \<open>
  A key-value table that belongs to an owner (the tags of a run, the aliases of a model): the key
  is the owner with a name, and an upsert sets the value. \<open>get\<close> is the table as a function, and
  \<open>listing\<close> the values of one owner ordered by name, as \<open>SELECT ... WHERE owner = ? ORDER BY name\<close>
  returns them.
\<close>

locale kv_table =
  fixes owner :: "'r \<Rightarrow> 'o"
    and sub :: "'r \<Rightarrow> ('k::linorder)"
    and val :: "'r \<Rightarrow> 'v"
    and upd :: "'r \<Rightarrow> 'r \<Rightarrow> 'r"
  assumes owner_upd: "owner (upd old new) = owner old"
    and sub_upd: "sub (upd old new) = sub old"
    and val_upd: "val (upd old new) = val new"

sublocale kv_table \<subseteq> keyed "\<lambda>r. (owner r, sub r)" upd
  by unfold_locales (simp add: owner_upd sub_upd)

context kv_table
begin

definition "get" :: "'r list \<Rightarrow> 'o \<Rightarrow> 'k \<Rightarrow> 'v option" where
  "get rs x k = map_option val (look (x, k) rs)"

definition listing :: "'r list \<Rightarrow> 'o \<Rightarrow> ('k \<times> 'v) list" where
  "listing rs x = map (\<lambda>r. (sub r, val r)) (sort_key sub (filter (\<lambda>r. owner r = x) rs))"

lemma get_upsert:
  "get (upsert (\<lambda>r. (owner r, sub r)) upd r rs) x k =
    (if x = owner r \<and> k = sub r then Some (val r) else get rs x k)"
proof (cases "(x, k) = (owner r, sub r)")
  case True
  then show ?thesis using look_upsert_same [of r rs] by (auto simp: get_def val_upd split: option.split)
next
  case False
  then show ?thesis using look_upsert_other [of "(x, k)" r rs] by (auto simp: get_def)
qed

lemma get_delete:
  "get (delete_where (\<lambda>r. owner r = y \<and> sub r = j) rs) x k = (if x = y \<and> k = j then None else get rs x k)"
  using look_delete [of "(x, k)" "(y, j)" rs] by (simp add: get_def)

lemma get_upserts:
  "get (foldl (\<lambda>qs r. upsert (\<lambda>r. (owner r, sub r)) upd r qs) rs us) x k =
    (case map_of (rev (map (\<lambda>r. ((owner r, sub r), val r)) us)) (x, k) of Some v \<Rightarrow> Some v | None \<Rightarrow> get rs x k)"
  by (induction us arbitrary: rs) (auto simp: get_upsert map_add_def split: option.split)

lemma distinct_upserts:
  "distinct (map (\<lambda>r. (owner r, sub r)) rs) \<Longrightarrow>
    distinct (map (\<lambda>r. (owner r, sub r)) (foldl (\<lambda>qs r. upsert (\<lambda>r. (owner r, sub r)) upd r qs) rs us))"
  by (induction us arbitrary: rs) (auto intro: distinct_upsert)

lemma listing_sorted:
  assumes "distinct (map (\<lambda>r. (owner r, sub r)) rs)"
  shows "sorted_wrt (<) (map fst (listing rs x))"
proof -
  from assms have "inj_on sub {r \<in> set rs. owner r = x}" and "distinct rs"
    by (auto simp: inj_on_def distinct_map)
  then have "distinct (map sub (sort_key sub (filter (\<lambda>r. owner r = x) rs)))"
    by (simp add: distinct_map)
  moreover have "map fst (listing rs x) = map sub (sort_key sub (filter (\<lambda>r. owner r = x) rs))"
    by (simp add: listing_def)
  ultimately show ?thesis by (simp add: strict_sorted_iff)
qed

lemma map_of_listing:
  assumes "distinct (map (\<lambda>r. (owner r, sub r)) rs)"
  shows "map_of (listing rs x) k = get rs x k"
proof -
  have d: "distinct (map fst (listing rs x))"
    using listing_sorted [OF assms] strict_sorted_iff by blast
  show ?thesis
  proof (cases "look (x, k) rs")
    case None
    then have "k \<notin> fst ` set (listing rs x)"
      by (auto simp: listing_def look_None image_iff)
    with None show ?thesis by (simp add: get_def map_of_eq_None_iff)
  next
    case (Some r)
    then have "r \<in> set rs" "owner r = x" "sub r = k"
      unfolding look_def by (auto dest: first_row_Some)
    then have "(k, val r) \<in> set (listing rs x)"
      by (force simp: listing_def)
    with d Some show ?thesis by (simp add: get_def)
  qed
qed

text \<open>Two tables with the same contents list the same.\<close>

lemma listing_eqI:
  assumes "distinct (map (\<lambda>r. (owner r, sub r)) rs)" and "distinct (map (\<lambda>r. (owner r, sub r)) qs)"
    and "\<And>k. get rs x k = get qs x k"
  shows "listing rs x = listing qs x"
  by (rule strict_sorted_map_of_inject) (use assms in \<open>auto simp: map_of_listing fun_eq_iff intro: listing_sorted\<close>)

end

end
