(* ===== verification/GoStd.thy ===== *)
theory GoStd
  imports Prelude "HOL-Library.Log_Nat"
begin

text \<open>
  The parts of Go's standard library that the modelled code calls, on Go strings: a \<open>string\<close> is a
  list of bytes (\<open>char\<close>), and a range loop over it decodes UTF-8 with the replacement rune for
  invalid bytes (\<open>unicode/utf8\<close>). Then \<open>strings.TrimSpace\<close>, \<open>Fields\<close>, \<open>Split\<close>, \<open>Index\<close>,
  \<open>Trim\<close>, \<open>strconv.FormatInt\<close> and \<open>ParseInt\<close>, the coercions of \<open>encoding/json\<close> (invalid UTF-8 is
  replaced, a number decoded into \<open>any\<close> is a \<open>float64\<close>), and the conversion of an \<open>int64\<close> to
  \<open>float64\<close> with rounding to nearest, ties to even.
\<close>

section \<open>UTF-8\<close>

abbreviation byte :: "char \<Rightarrow> nat" where
  "byte c \<equiv> of_char c"

definition rune_error :: nat where
  "rune_error = 0xFFFD"

definition cont :: "char \<Rightarrow> bool" where
  "cont c \<longleftrightarrow> 0x80 \<le> byte c \<and> byte c \<le> 0xBF"

text \<open>The range of the second byte after a leading byte of three or four byte sequences.\<close>

definition second_ok :: "nat \<Rightarrow> char \<Rightarrow> bool" where
  "second_ok p c \<longleftrightarrow>
     (if p = 0xE0 then 0xA0 \<le> byte c \<and> byte c \<le> 0xBF
      else if p = 0xED then 0x80 \<le> byte c \<and> byte c \<le> 0x9F
      else if p = 0xF0 then 0x90 \<le> byte c \<and> byte c \<le> 0xBF
      else if p = 0xF4 then 0x80 \<le> byte c \<and> byte c \<le> 0x8F
      else cont c)"

text \<open>\<open>utf8.DecodeRuneInString\<close>: the first rune and its width in bytes.\<close>

definition decode_rune :: "string \<Rightarrow> nat \<times> nat" where
  "decode_rune s =
     (case s of [] \<Rightarrow> (rune_error, 0)
      | c # cs \<Rightarrow>
        (let p = byte c in
         if p < 0x80 then (p, 1)
         else if p < 0xC2 \<or> 0xF4 < p then (rune_error, 1)
         else if p \<le> 0xDF then
           (case cs of
              c1 # _ \<Rightarrow> (if cont c1 then ((p - 0xC0) * 64 + (byte c1 - 0x80), 2) else (rune_error, 1))
            | _ \<Rightarrow> (rune_error, 1))
         else if p \<le> 0xEF then
           (case cs of
              c1 # c2 # _ \<Rightarrow>
                (if second_ok p c1 \<and> cont c2
                 then (((p - 0xE0) * 64 + (byte c1 - 0x80)) * 64 + (byte c2 - 0x80), 3)
                 else (rune_error, 1))
            | _ \<Rightarrow> (rune_error, 1))
         else
           (case cs of
              c1 # c2 # c3 # _ \<Rightarrow>
                (if second_ok p c1 \<and> cont c2 \<and> cont c3
                 then ((((p - 0xF0) * 64 + (byte c1 - 0x80)) * 64 + (byte c2 - 0x80)) * 64
                        + (byte c3 - 0x80), 4)
                 else (rune_error, 1))
            | _ \<Rightarrow> (rune_error, 1))))"

lemma decode_rune_pos: "s \<noteq> [] \<Longrightarrow> 0 < snd (decode_rune s)"
  by (auto simp: decode_rune_def Let_def split: list.split)

text \<open>The runes of a string with the bytes each was decoded from.\<close>

function rune_chunks :: "string \<Rightarrow> (nat \<times> string) list" where
  "rune_chunks s =
     (if s = [] then []
      else (fst (decode_rune s), take (snd (decode_rune s)) s) #
           rune_chunks (drop (snd (decode_rune s)) s))"
  by pat_completeness auto
termination
  by (relation "measure length") (auto simp: decode_rune_pos)

declare rune_chunks.simps [simp del]

lemma rune_chunks_Nil [simp]: "rune_chunks [] = []"
  by (simp add: rune_chunks.simps)

lemma rune_chunks_ascii_Cons [simp]:
  "byte c < 0x80 \<Longrightarrow> rune_chunks (c # cs) = (byte c, [c]) # rune_chunks cs"
  by (simp add: rune_chunks.simps [of "c # cs"] decode_rune_def)

lemma concat_rune_chunks [simp]: "concat (map snd (rune_chunks s)) = s"
proof (induction s rule: rune_chunks.induct)
  case (1 s)
  then show ?case by (cases "s = []") (simp_all add: rune_chunks.simps [of s])
qed

lemma rune_chunks_nonempty: "(r, b) \<in> set (rune_chunks s) \<Longrightarrow> b \<noteq> []"
proof (induction s rule: rune_chunks.induct)
  case (1 s)
  show ?case
  proof (cases "s = []")
    case False
    with 1 decode_rune_pos [OF False] show ?thesis by (auto simp: rune_chunks.simps [of s])
  qed (use 1 in simp)
qed

definition runes :: "string \<Rightarrow> nat list" where
  "runes s = map fst (rune_chunks s)"

text \<open>\<open>unicode.IsControl\<close> (category Cc) and \<open>unicode.IsSpace\<close> (White\_Space).\<close>

definition is_control :: "nat \<Rightarrow> bool" where
  "is_control r \<longleftrightarrow> r \<le> 0x1F \<or> (0x7F \<le> r \<and> r \<le> 0x9F)"

definition is_space :: "nat \<Rightarrow> bool" where
  "is_space r \<longleftrightarrow>
     (9 \<le> r \<and> r \<le> 13) \<or> r = 0x20 \<or> r = 0x85 \<or> r = 0xA0 \<or> r = 0x1680 \<or>
     (0x2000 \<le> r \<and> r \<le> 0x200A) \<or> r = 0x2028 \<or> r = 0x2029 \<or> r = 0x202F \<or> r = 0x205F \<or> r = 0x3000"

section \<open>Package strings\<close>

definition TrimSpace :: "string \<Rightarrow> string" where
  "TrimSpace s =
     concat (map snd (rev (dropWhile (is_space \<circ> fst)
       (rev (dropWhile (is_space \<circ> fst) (rune_chunks s))))))"

text \<open>\<open>strings.Trim(s, cutset)\<close> for an ASCII cutset.\<close>

definition trim_set :: "char list \<Rightarrow> string \<Rightarrow> string" where
  "trim_set cs s = rev (dropWhile (\<lambda>c. c \<in> set cs) (rev (dropWhile (\<lambda>c. c \<in> set cs) s)))"

fun fields_aux :: "string \<Rightarrow> (nat \<times> string) list \<Rightarrow> string list" where
  "fields_aux cur [] = (if cur = [] then [] else [cur])"
| "fields_aux cur ((r, b) # cs) =
     (if is_space r then (if cur = [] then fields_aux [] cs else cur # fields_aux [] cs)
      else fields_aux (cur @ b) cs)"

definition Fields :: "string \<Rightarrow> string list" where
  "Fields s = fields_aux [] (rune_chunks s)"

text \<open>\<open>strings.Index\<close> and \<open>strings.LastIndex\<close>; \<open>None\<close> is the result -1.\<close>

fun Index :: "string \<Rightarrow> string \<Rightarrow> nat option" where
  "Index [] p = (if p = [] then Some 0 else None)"
| "Index (c # cs) p = (if prefix p (c # cs) then Some 0 else map_option Suc (Index cs p))"

fun LastIndex :: "string \<Rightarrow> string \<Rightarrow> nat option" where
  "LastIndex [] p = (if p = [] then Some 0 else None)"
| "LastIndex (c # cs) p =
     (case LastIndex cs p of Some i \<Rightarrow> Some (Suc i)
      | None \<Rightarrow> if prefix p (c # cs) then Some 0 else None)"

definition Contains :: "string \<Rightarrow> string \<Rightarrow> bool" where
  "Contains s p \<longleftrightarrow> Index s p \<noteq> None"

definition HasPrefix :: "string \<Rightarrow> string \<Rightarrow> bool" where
  "HasPrefix s p \<longleftrightarrow> prefix p s"

definition HasSuffix :: "string \<Rightarrow> string \<Rightarrow> bool" where
  "HasSuffix s p \<longleftrightarrow> suffix p s"

definition TrimPrefix :: "string \<Rightarrow> string \<Rightarrow> string" where
  "TrimPrefix s p = (if prefix p s then drop (length p) s else s)"

text \<open>\<open>strings.Split(s, sep)\<close> for a one-byte separator, and \<open>strings.Join\<close>.\<close>

fun split_on :: "char \<Rightarrow> string \<Rightarrow> string list" where
  "split_on sep [] = [[]]"
| "split_on sep (c # cs) =
     (if c = sep then [] # split_on sep cs
      else case split_on sep cs of [] \<Rightarrow> [[c]] | w # ws \<Rightarrow> (c # w) # ws)"

fun join :: "string \<Rightarrow> string list \<Rightarrow> string" where
  "join sep [] = []"
| "join sep [w] = w"
| "join sep (w # v # ws) = w @ sep @ join sep (v # ws)"

text \<open>The ASCII part of \<open>strings.ToUpper\<close> and \<open>strings.ToLower\<close>.\<close>

definition ascii_up :: "char \<Rightarrow> char" where
  "ascii_up c = (if 0x61 \<le> byte c \<and> byte c \<le> 0x7A then char_of (byte c - 0x20) else c)"

definition ascii_down :: "char \<Rightarrow> char" where
  "ascii_down c = (if 0x41 \<le> byte c \<and> byte c \<le> 0x5A then char_of (byte c + 0x20) else c)"

definition is_ascii :: "string \<Rightarrow> bool" where
  "is_ascii s \<longleftrightarrow> list_all (\<lambda>c. byte c < 0x80) s"

text \<open>
  \<open>strings.ToUpper\<close>: ASCII strings byte by byte, others rune by rune. \<open>up\<close> is the Unicode case table
  above ASCII (\<open>unicode.ToUpper\<close>); a rune and its upper case may differ in encoded length.
\<close>

definition encode_rune :: "nat \<Rightarrow> string" where
  "encode_rune r =
     (if r < 0x80 then [char_of r]
      else if r < 0x800 then [char_of (0xC0 + r div 64), char_of (0x80 + r mod 64)]
      else if 0x110000 \<le> r \<or> (0xD800 \<le> r \<and> r < 0xE000) then map char_of [0xEF, 0xBF, 0xBD :: nat]
      else if r < 0x10000 then
        [char_of (0xE0 + r div 4096), char_of (0x80 + r div 64 mod 64), char_of (0x80 + r mod 64)]
      else
        [char_of (0xF0 + r div 262144), char_of (0x80 + r div 4096 mod 64),
         char_of (0x80 + r div 64 mod 64), char_of (0x80 + r mod 64)])"

definition ToUpper :: "(nat \<Rightarrow> nat) \<Rightarrow> string \<Rightarrow> string" where
  "ToUpper up s =
     (if is_ascii s then map ascii_up s
      else concat (map (\<lambda>r. if r < 0x80 then [ascii_up (char_of r)] else encode_rune (up r)) (runes s)))"

definition ToLower :: "(nat \<Rightarrow> nat) \<Rightarrow> string \<Rightarrow> string" where
  "ToLower low s =
     (if is_ascii s then map ascii_down s
      else concat (map (\<lambda>r. if r < 0x80 then [ascii_down (char_of r)] else encode_rune (low r)) (runes s)))"

lemma ToLower_ascii: "is_ascii s \<Longrightarrow> ToLower low s = map ascii_down s"
  by (simp add: ToLower_def)

lemma ToUpper_ascii: "is_ascii s \<Longrightarrow> ToUpper up s = map ascii_up s"
  by (simp add: ToUpper_def)

lemma split_on_nonempty [simp]: "split_on sep s \<noteq> []"
  by (cases s) (auto split: list.split)

lemma join_split_on: "join [sep] (split_on sep s) = s"
proof (induction s)
  case (Cons c cs)
  obtain w ws where sp: "split_on sep cs = w # ws" by (cases "split_on sep cs") auto
  with Cons show ?case by (cases ws) auto
qed simp

lemma split_on_append: "split_on c (a @ c # b) = split_on c a @ split_on c b"
proof (induction a)
  case (Cons x xs)
  then show ?case by (cases "split_on c xs") auto
qed simp

lemma split_on_fresh: "c \<notin> set w \<Longrightarrow> split_on c w = [w]"
  by (induction w) auto

lemma split_on_join: "ws \<noteq> [] \<Longrightarrow> \<forall>w\<in>set ws. c \<notin> set w \<Longrightarrow> split_on c (join [c] ws) = ws"
  by (induction ws rule: induct_list012) (auto simp: split_on_fresh split_on_append)

lemma Index_Some: "Index s p = Some i \<Longrightarrow> i \<le> length s \<and> prefix p (drop i s)"
proof (induction s arbitrary: i)
  case (Cons c cs)
  then show ?case by (cases "prefix p (c # cs)") auto
qed (auto split: if_splits)

lemma Index_len: "Index s p = Some i \<Longrightarrow> i + length p \<le> length s"
  using Index_Some [of s p i] prefix_length_le [of p "drop i s"] by auto

section \<open>Package strconv\<close>

fun digits_of :: "nat \<Rightarrow> string" where
  "digits_of n = (if n < 10 then [char_of (48 + n)] else digits_of (n div 10) @ [char_of (48 + n mod 10)])"

declare digits_of.simps [simp del]

definition FormatInt :: "int \<Rightarrow> string" where
  "FormatInt n = (if n < 0 then CHR ''-'' # digits_of (nat (- n)) else digits_of (nat n))"

definition is_digit :: "char \<Rightarrow> bool" where
  "is_digit c \<longleftrightarrow> 48 \<le> byte c \<and> byte c \<le> 57"

definition nat_of_digits :: "string \<Rightarrow> nat" where
  "nat_of_digits = foldl (\<lambda>a c. 10 * a + (byte c - 48)) 0"

text \<open>\<open>strconv.ParseInt(s, 10, 64)\<close>; \<open>None\<close> is a syntax or range error.\<close>

definition ParseInt :: "string \<Rightarrow> int option" where
  "ParseInt s =
     (let (neg, ds) = (case s of [] \<Rightarrow> (False, [])
                       | c # cs \<Rightarrow> if c = CHR ''-'' then (True, cs)
                                   else if c = CHR ''+'' then (False, cs) else (False, s));
          v = int (nat_of_digits ds)
      in if ds = [] \<or> \<not> list_all is_digit ds then None
         else if neg then (if v \<le> 2 ^ 63 then Some (- v) else None)
         else (if v < 2 ^ 63 then Some v else None))"

abbreviation int64_range :: "int \<Rightarrow> bool" where
  "int64_range n \<equiv> - (2 ^ 63) \<le> n \<and> n < 2 ^ 63"

lemma digit_char: "n < 10 \<Longrightarrow> byte (char_of (48 + n)) = 48 + n"
  by (simp add: of_char_of)

lemma digits_of_digits: "list_all is_digit (digits_of n)"
proof (induction n rule: digits_of.induct)
  case (1 n)
  have "n mod 10 \<le> 9" using mod_less_divisor [of 10 n] by linarith
  with 1 show ?case
    by (subst digits_of.simps) (simp add: is_digit_def [of "char_of _"] of_char_of)
qed

lemma digits_of_nonempty [simp]: "digits_of n \<noteq> []"
  by (subst digits_of.simps) simp

lemma nat_of_digits_of: "nat_of_digits (digits_of n) = n"
proof (induction n rule: digits_of.induct)
  case (1 n)
  show ?case
  proof (cases "n < 10")
    case True
    then show ?thesis by (subst digits_of.simps) (simp add: nat_of_digits_def of_char_of)
  next
    case False
    with 1 have "nat_of_digits (digits_of (n div 10)) = n div 10" by simp
    with False show ?thesis
      by (subst digits_of.simps) (simp add: nat_of_digits_def of_char_of)
  qed
qed

lemma digits_of_hd_not_sign: "digits_of n = c # cs \<Longrightarrow> c \<noteq> CHR ''-'' \<and> c \<noteq> CHR ''+''"
  using digits_of_digits [of n] by (auto simp: is_digit_def)

text \<open>The decimal printer and parser of \<open>strconv\<close> are inverse on the range of \<open>int64\<close>.\<close>

lemma ParseInt_FormatInt:
  assumes "int64_range n"
  shows "ParseInt (FormatInt n) = Some n"
proof (cases "n < 0")
  case True
  then show ?thesis using assms digits_of_digits [of "nat (- n)"]
    by (simp add: FormatInt_def ParseInt_def nat_of_digits_of)
next
  case False
  obtain c cs where d: "digits_of (nat n) = c # cs" by (cases "digits_of (nat n)") auto
  with digits_of_hd_not_sign have "c \<noteq> CHR ''-''" "c \<noteq> CHR ''+''" by blast+
  with False d show ?thesis using assms digits_of_digits [of "nat n"] nat_of_digits_of [of "nat n"]
    by (simp add: FormatInt_def ParseInt_def)
qed

lemma FormatInt_no_colon: "CHR '':'' \<notin> set (FormatInt n)"
  using digits_of_digits [of "nat n"] digits_of_digits [of "nat (- n)"]
  by (auto simp: FormatInt_def list_all_iff is_digit_def)

section \<open>Floating point and JSON\<close>

text \<open>
  A \<open>float64\<close> that the store only keeps and compares: a finite double is a rational number.
\<close>

datatype f64 = NaN | PosInf | NegInf | Fin rat

definition is_finite :: "f64 \<Rightarrow> bool" where
  "is_finite v = (case v of Fin _ \<Rightarrow> True | _ \<Rightarrow> False)"

text \<open>\<open>float64(n)\<close> of an integer: 53 significant bits, round to nearest, ties to even.\<close>

definition round53 :: "nat \<Rightarrow> nat" where
  "round53 a =
     (if a \<le> 2 ^ 53 then a
      else let k = floorlog 2 a - 53; q = a div 2 ^ k; r = a mod 2 ^ k; h = 2 ^ (k - 1);
               q' = (if h < r \<or> (r = h \<and> odd q) then q + 1 else q)
           in q' * 2 ^ k)"

definition f64_of_int :: "int \<Rightarrow> int" where
  "f64_of_int n = (if n < 0 then - int (round53 (nat (- n))) else int (round53 (nat n)))"

text \<open>
  \<open>int64(f)\<close> of an integral \<open>float64\<close>. Outside the range of \<open>int64\<close> the language leaves the result
  to the implementation; amd64 yields the smallest \<open>int64\<close>.
\<close>

definition int64_of_f64 :: "int \<Rightarrow> int" where
  "int64_of_f64 f = (if int64_range f then f else - (2 ^ 63))"

lemma f64_of_int_exact: "\<bar>n\<bar> \<le> 2 ^ 53 \<Longrightarrow> f64_of_int n = n"
  by (auto simp: f64_of_int_def round53_def)

lemma int64_f64_exact: "\<bar>n\<bar> \<le> 2 ^ 53 \<Longrightarrow> int64_of_f64 (f64_of_int n) = n"
  by (auto simp: f64_of_int_exact int64_of_f64_def)

text \<open>
  Values handed to \<open>json.Marshal\<close>, and the value \<open>json.Unmarshal\<close> produces for the same text when it
  decodes into \<open>any\<close>: integers come back as \<open>float64\<close>, invalid UTF-8 as U+FFFD.
\<close>

datatype jval = JNull | JStr string | JInt int | JFloat int | JObj "(string \<times> jval) list"

definition utf8_coerce :: "string \<Rightarrow> string" where
  "utf8_coerce s =
     concat (map (\<lambda>(r, b). if r = rune_error \<and> length b = 1 then [CHR 0xEF, CHR 0xBF, CHR 0xBD] else b)
       (rune_chunks s))"

definition utf8_valid :: "string \<Rightarrow> bool" where
  "utf8_valid s \<longleftrightarrow> list_all (\<lambda>(r, b). \<not> (r = rune_error \<and> length b = 1)) (rune_chunks s)"

fun json_any :: "jval \<Rightarrow> jval" where
  "json_any JNull = JNull"
| "json_any (JStr s) = JStr (utf8_coerce s)"
| "json_any (JInt n) = JFloat (f64_of_int n)"
| "json_any (JFloat f) = JFloat f"
| "json_any (JObj kvs) = JObj (map (\<lambda>(k, v). (utf8_coerce k, json_any v)) kvs)"

lemma utf8_coerce_valid [simp]: "utf8_valid s \<Longrightarrow> utf8_coerce s = s"
proof -
  assume v: "utf8_valid s"
  have "map (\<lambda>(r, b). if r = rune_error \<and> length b = 1 then [CHR 0xEF, CHR 0xBF, CHR 0xBD] else b)
          (rune_chunks s) = map snd (rune_chunks s)"
    using v by (auto simp: utf8_valid_def list_all_iff)
  then show ?thesis unfolding utf8_coerce_def by (simp only: concat_rune_chunks)
qed

lemma utf8_valid_ascii: "is_ascii s \<Longrightarrow> utf8_valid s"
  by (induction s) (auto simp: is_ascii_def utf8_valid_def rune_error_def)

end
