(* ===== verification/Model.thy ===== *)
theory Model
  imports GoStd "HOL-Library.Word"
begin

unbundle bit_operations_syntax

text \<open>
  \<open>internal/model/types.go\<close>: the domain types, their enumerations, the validation of names and keys,
  and the generators of run, span and trace identifiers (with the clock reading and the random bytes
  they consume as arguments). A Go pointer field (\<open>*int64\<close>) is an \<open>option\<close>.
\<close>

section \<open>Enumerations\<close>

definition LifecycleActive :: string where "LifecycleActive = ''active''"
definition LifecycleDeleted :: string where "LifecycleDeleted = ''deleted''"

definition StatusRunning :: string where "StatusRunning = ''RUNNING''"
definition StatusScheduled :: string where "StatusScheduled = ''SCHEDULED''"
definition StatusFinished :: string where "StatusFinished = ''FINISHED''"
definition StatusFailed :: string where "StatusFailed = ''FAILED''"
definition StatusKilled :: string where "StatusKilled = ''KILLED''"

definition KindClassic :: string where "KindClassic = ''classic''"
definition KindTrace :: string where "KindTrace = ''trace''"
definition KindEval :: string where "KindEval = ''eval''"

definition StageNone :: string where "StageNone = ''None''"
definition StageStaging :: string where "StageStaging = ''Staging''"
definition StageProduction :: string where "StageProduction = ''Production''"
definition StageArchived :: string where "StageArchived = ''Archived''"

lemmas lifecycle_defs = LifecycleActive_def LifecycleDeleted_def
lemmas status_defs = StatusRunning_def StatusScheduled_def StatusFinished_def StatusFailed_def
  StatusKilled_def
lemmas kind_defs = KindClassic_def KindTrace_def KindEval_def
lemmas stage_defs = StageNone_def StageStaging_def StageProduction_def StageArchived_def

definition ValidStage :: "string \<Rightarrow> bool" where
  "ValidStage s \<longleftrightarrow> s \<in> {StageNone, StageStaging, StageProduction, StageArchived}"

section \<open>Entities\<close>

record KV =
  kv_Key :: string
  kv_Value :: string

definition kv_pairs :: "KV list \<Rightarrow> (string \<times> string) list" where
  "kv_pairs ts = map (\<lambda>t. (kv_Key t, kv_Value t)) ts"

record Workspace =
  ws_ID :: string
  ws_Name :: string
  ws_Description :: string
  ws_CreationTime :: int
  ws_LastUpdateTime :: int

record WorkspaceMember =
  mem_WorkspaceID :: string
  mem_UserID :: string
  mem_Role :: string

record Experiment =
  exp_ID :: int
  exp_Name :: string
  exp_ArtifactLocation :: string
  exp_LifecycleStage :: string
  exp_CreationTime :: int
  exp_LastUpdateTime :: int
  exp_WorkspaceID :: string
  exp_Tags :: "KV list"

record Run =
  run_ID :: string
  run_ExperimentID :: int
  run_Name :: string
  run_Status :: string
  run_StartTime :: int
  run_EndTime :: "int option"
  run_ArtifactURI :: string
  run_LifecycleStage :: string
  run_UserID :: string
  run_SourceType :: string
  run_SourceName :: string
  run_Kind :: string
  run_ParentRunID :: string

record Metric =
  met_Key :: string
  met_Value :: f64
  met_Timestamp :: int
  met_Step :: int

record Param =
  par_Key :: string
  par_Value :: string

record Span =
  sp_ID :: string
  sp_TraceID :: string
  sp_ParentID :: string
  sp_RunID :: string
  sp_Name :: string
  sp_Kind :: string
  sp_StartTimeNS :: int
  sp_EndTimeNS :: "int option"
  sp_AttributesJSON :: string
  sp_EventsJSON :: string
  sp_StatusCode :: string
  sp_StatusMessage :: string

record Prompt =
  pr_WorkspaceID :: string
  pr_Name :: string
  pr_Version :: int
  pr_Content :: string
  pr_ContentHash :: string
  pr_CreatedAt :: int
  pr_CreatedBy :: string
  pr_Description :: string

record Session =
  ses_ID :: string
  ses_UserID :: string
  ses_UserEmail :: string
  ses_UserName :: string
  ses_AuthMethod :: string
  ses_CreatedAt :: int
  ses_ExpiresAt :: int
  ses_LastSeen :: int

record ModelAlias =
  ma_Alias :: string
  ma_Version :: int

record RegisteredModel =
  rm_WorkspaceID :: string
  rm_Name :: string
  rm_Description :: string
  rm_CreationTime :: int
  rm_LastUpdateTime :: int
  rm_Tags :: "KV list"
  rm_Aliases :: "ModelAlias list"

record ModelVersion =
  mv_WorkspaceID :: string
  mv_Name :: string
  mv_Version :: int
  mv_Description :: string
  mv_UserID :: string
  mv_CurrentStage :: string
  mv_Source :: string
  mv_RunID :: string
  mv_Status :: string
  mv_StatusMessage :: string
  mv_CreationTime :: int
  mv_LastUpdateTime :: int
  mv_Tags :: "KV list"
  mv_Aliases :: "string list"

section \<open>Validation\<close>

text \<open>\<open>ValidName\<close> returns the first problem it finds; \<open>None\<close> is \<open>nil\<close>.\<close>

datatype name_error = NameEmpty | NameTooLong | NameControl | KeyWhitespace

definition ValidName :: "string \<Rightarrow> nat \<Rightarrow> name_error option" where
  "ValidName s maxLen =
     (if s = [] then Some NameEmpty
      else if 0 < maxLen \<and> maxLen < length s then Some NameTooLong
      else if list_ex is_control (runes s) then Some NameControl
      else None)"

definition ValidKey :: "string \<Rightarrow> name_error option" where
  "ValidKey s =
     (case ValidName s 250 of Some e \<Rightarrow> Some e
      | None \<Rightarrow> if TrimSpace s \<noteq> s then Some KeyWhitespace else None)"

lemma ValidKey_nonempty: "ValidKey s = None \<Longrightarrow> s \<noteq> [] \<and> length s \<le> 250"
  by (auto simp: ValidKey_def ValidName_def split: option.splits if_splits)

section \<open>Identifiers\<close>

text \<open>\<open>hex.EncodeToString\<close>\<close>

definition hex_digit :: "nat \<Rightarrow> char" where
  "hex_digit n = (if n < 10 then char_of (48 + n) else char_of (87 + n))"

definition hex_byte :: "8 word \<Rightarrow> string" where
  "hex_byte b = [hex_digit (unat b div 16), hex_digit (unat b mod 16)]"

definition EncodeToString :: "8 word list \<Rightarrow> string" where
  "EncodeToString bs = concat (map hex_byte bs)"

text \<open>\<open>byte(t >> (8 * i))\<close> for \<open>i\<close> from 0 to 7.\<close>

definition le_bytes :: "64 word \<Rightarrow> 8 word list" where
  "le_bytes t = map (\<lambda>i. ucast (drop_bit (8 * i) t)) [0..<8]"

text \<open>
  \<open>NewRunID\<close>: \<open>t\<close> is the first clock reading, \<open>rnd\<close> the eight random bytes (\<open>None\<close> when
  \<open>readRand\<close> fails) and \<open>extra\<close> the second clock reading used as fallback.
\<close>

definition NewRunID :: "64 word \<Rightarrow> 8 word list option \<Rightarrow> 64 word \<Rightarrow> string" where
  "NewRunID t rnd extra =
     (let b = le_bytes t @ (case rnd of Some r \<Rightarrow> r | None \<Rightarrow> le_bytes extra);
          b = b[6 := (b ! 6 AND 0x0f) OR 0x40];
          b = b[8 := (b ! 8 AND 0x3f) OR 0x80]
      in EncodeToString b)"

definition NewSpanID :: "8 word list option \<Rightarrow> 64 word \<Rightarrow> string" where
  "NewSpanID rnd t = EncodeToString (case rnd of Some r \<Rightarrow> r | None \<Rightarrow> le_bytes t)"

definition NewTraceID :: "8 word list option \<Rightarrow> 64 word \<Rightarrow> string" where
  "NewTraceID rnd t =
     EncodeToString (case rnd of Some r \<Rightarrow> r
       | None \<Rightarrow> map (\<lambda>i. ucast (drop_bit (8 * (i mod 8)) t)) [0..<16])"

definition lower_hex :: "string \<Rightarrow> bool" where
  "lower_hex s \<longleftrightarrow> list_all (\<lambda>c. (48 \<le> byte c \<and> byte c \<le> 57) \<or> (97 \<le> byte c \<and> byte c \<le> 102)) s"

lemma lower_hex_digit: "n < 16 \<Longrightarrow> lower_hex [hex_digit n]"
  by (auto simp: lower_hex_def hex_digit_def of_char_of)

lemma lower_hex_append [simp]: "lower_hex (a @ b) \<longleftrightarrow> lower_hex a \<and> lower_hex b"
  by (simp add: lower_hex_def)

lemma lower_hex_byte: "lower_hex (hex_byte b)"
proof -
  have "unat b < 256" using unsigned_less [of b] by simp
  then have "unat b div 16 < 16" "unat b mod 16 < 16" by auto
  then show ?thesis
    using lower_hex_digit [of "unat b div 16"] lower_hex_digit [of "unat b mod 16"]
    by (simp add: hex_byte_def lower_hex_def)
qed

lemma lower_hex_Encode: "lower_hex (EncodeToString bs)"
  by (induction bs) (auto simp: EncodeToString_def lower_hex_byte, simp add: lower_hex_def)

lemma length_Encode: "length (EncodeToString bs) = 2 * length bs"
  by (induction bs) (auto simp: EncodeToString_def hex_byte_def)

lemma length_le_bytes [simp]: "length (le_bytes t) = 8"
  by (simp add: le_bytes_def)

lemma EncodeToString_nth:
  "i < length bs \<Longrightarrow> EncodeToString bs ! (2 * i) = hex_digit (unat (bs ! i) div 16)"
proof (induction bs arbitrary: i)
  case (Cons b bs)
  then show ?case
    by (cases i) (auto simp: EncodeToString_def hex_byte_def)
qed simp

end
