(* ===== verification/Tables.thy ===== *)
theory Tables
  imports Model
begin

text \<open>
  The database behind \<open>internal/store\<close>: one list of rows per table of the schema the migrations
  build (\<open>internal/migrations\<close>), with nullable columns as options, and the readings of the clock
  (\<open>clock n\<close> is what the \<open>n\<close>-th call of \<open>time.Now().UnixMilli()\<close> returns). Then the sentinel errors
  of \<open>store.go\<close> with the constraint violations SQLite reports, transactions, and the small helpers
  the store methods share. An id of an AUTOINCREMENT table is an \<open>int\<close>: the point where SQLite runs
  out of 63-bit row ids is not reached.
\<close>

section \<open>Errors\<close>

datatype err =
    ErrNotFound | ErrAlreadyExists | ErrConflict
  | ErrInvalidFilter | ErrInvalidStage | ErrInvalidValue
  | ErrReplayLimitExceeded
  | ErrUnique | ErrForeignKey | ErrCheck | ErrBusy
  | ErrOther string

definition isUniqueViolation :: "err \<Rightarrow> bool" where
  "isUniqueViolation e \<longleftrightarrow> e = ErrUnique"

definition isFKViolation :: "err \<Rightarrow> bool" where
  "isFKViolation e \<longleftrightarrow> e = ErrForeignKey"

definition isSnapshotRaceErr :: "err \<Rightarrow> bool" where
  "isSnapshotRaceErr e \<longleftrightarrow> e = ErrBusy"

section \<open>Rows\<close>

record workspace_row =
  w_id :: string
  w_name :: string
  w_description :: "string option"
  w_creation_time :: int
  w_last_update_time :: int

record member_row =
  wm_workspace_id :: string
  wm_user_id :: string
  wm_role :: string

record experiment_row =
  e_id :: int
  e_name :: string
  e_artifact_location :: string
  e_lifecycle_stage :: string
  e_creation_time :: int
  e_last_update_time :: int
  e_workspace_id :: string

record experiment_tag_row =
  et_experiment_id :: int
  et_key :: string
  et_value :: string

record run_row =
  r_id :: string
  r_experiment_id :: int
  r_name :: "string option"
  r_status :: string
  r_start_time :: int
  r_end_time :: "int option"
  r_artifact_uri :: string
  r_lifecycle_stage :: string
  r_user_id :: "string option"
  r_source_type :: "string option"
  r_source_name :: "string option"
  r_run_kind :: string
  r_parent_run_id :: "string option"

record metric_row =
  m_run_id :: string
  m_key :: string
  m_value :: f64
  m_timestamp :: int
  m_step :: int

record param_row =
  p_run_id :: string
  p_key :: string
  p_value :: string

record tag_row =
  t_run_id :: string
  t_key :: string
  t_value :: string

record event_row =
  ev_id :: int
  ev_ts_ms :: int
  ev_kind :: string
  ev_entity_id :: string
  ev_payload :: jval

record note_row =
  n_run_id :: string
  n_content :: string
  n_updated_at :: int
  n_updated_by :: "string option"

record eval_row =
  el_run_id :: string
  el_target_run_ids :: "string list"
  el_dataset_ref :: "string option"
  el_score :: "f64 option"
  el_metrics_json :: "string option"

record span_row =
  s_id :: string
  s_trace_id :: string
  s_parent_id :: "string option"
  s_run_id :: "string option"
  s_name :: string
  s_span_kind :: "string option"
  s_start_time :: int
  s_end_time :: "int option"
  s_attributes_json :: "string option"
  s_events_json :: "string option"
  s_status_code :: "string option"
  s_status_message :: "string option"

record session_row =
  se_id :: string
  se_user_id :: string
  se_user_email :: "string option"
  se_user_name :: "string option"
  se_auth_method :: string
  se_created_at :: int
  se_expires_at :: int
  se_last_seen :: int

record prompt_row =
  pt_workspace_id :: string
  pt_name :: string
  pt_version :: int
  pt_content :: string
  pt_content_hash :: string
  pt_created_at :: int
  pt_created_by :: "string option"
  pt_description :: "string option"

record prompt_alias_row =
  pa_workspace_id :: string
  pa_name :: string
  pa_alias :: string
  pa_version :: int

record model_row =
  rg_workspace_id :: string
  rg_name :: string
  rg_description :: "string option"
  rg_creation_time :: int
  rg_last_update_time :: int

record version_row =
  v_workspace_id :: string
  v_name :: string
  v_version :: int
  v_description :: "string option"
  v_user_id :: "string option"
  v_current_stage :: string
  v_source :: string
  v_run_id :: "string option"
  v_status :: string
  v_status_message :: "string option"
  v_creation_time :: int
  v_last_update_time :: int

record model_tag_row =
  gt_workspace_id :: string
  gt_name :: string
  gt_key :: string
  gt_value :: string

record version_tag_row =
  vt_workspace_id :: string
  vt_name :: string
  vt_version :: int
  vt_key :: string
  vt_value :: string

record model_alias_row =
  al_workspace_id :: string
  al_name :: string
  al_alias :: string
  al_version :: int

record dataset_row =
  d_id :: int
  d_name :: string
  d_version :: int
  d_content_hash :: string
  d_size_bytes :: int
  d_schema_json :: "string option"
  d_description :: "string option"
  d_workspace_id :: string
  d_created_at :: int
  d_created_by :: "string option"
  d_lifecycle_stage :: string

record dataset_meta_row =
  dm_name :: string
  dm_digest :: string
  dm_source_type :: "string option"
  dm_source :: "string option"
  dm_schema :: "string option"
  dm_profile :: "string option"

record dataset_input_row =
  di_id :: int
  di_run_id :: string
  di_name :: string
  di_digest :: string

record dataset_input_tag_row =
  dt_input_id :: int
  dt_key :: string
  dt_value :: string

text \<open>The column \<open>tags_json\<close> is kept decoded.\<close>

record dataset_input_v2_row =
  d2_id :: int
  d2_run_id :: string
  d2_dataset_id :: int
  d2_tags :: "KV list"

record webhook_row =
  wh_id :: int
  wh_name :: string
  wh_url :: string
  wh_events :: string
  wh_experiment_id :: "int option"
  wh_workspace_id :: string
  wh_secret :: "string option"
  wh_created_at :: int
  wh_last_status :: "int option"
  wh_last_attempt :: "int option"
  wh_enabled :: bool

record peer_row =
  pe_id :: int
  pe_name :: string
  pe_url :: string
  pe_secret :: string
  pe_workspace_id :: string
  pe_added_at :: int
  pe_last_seen :: "int option"
  pe_status :: string
  pe_last_error :: "string option"

record dashboard_row =
  da_id :: int
  da_workspace_id :: string
  da_project :: string
  da_widgets :: string
  da_created_at :: int
  da_updated_at :: int

record db =
  clock :: "nat \<Rightarrow> int"
  clock_pos :: nat
  workspaces :: "workspace_row list"
  workspace_members :: "member_row list"
  experiments :: "experiment_row list"
  experiments_seq :: int
  experiment_tags :: "experiment_tag_row list"
  runs :: "run_row list"
  metrics :: "metric_row list"
  metrics_latest :: "metric_row list"
  params :: "param_row list"
  tags :: "tag_row list"
  events :: "event_row list"
  events_seq :: int
  run_notes :: "note_row list"
  evals :: "eval_row list"
  traces :: "span_row list"
  sessions :: "session_row list"
  prompts :: "prompt_row list"
  prompt_aliases :: "prompt_alias_row list"
  registered_models :: "model_row list"
  model_versions :: "version_row list"
  registered_model_tags :: "model_tag_row list"
  model_version_tags :: "version_tag_row list"
  model_aliases :: "model_alias_row list"
  datasets_v2 :: "dataset_row list"
  datasets_v2_seq :: int
  dataset_lineage :: "(int \<times> int) list"
  datasets :: "dataset_meta_row list"
  dataset_inputs :: "dataset_input_row list"
  dataset_inputs_seq :: int
  dataset_input_tags :: "dataset_input_tag_row list"
  dataset_inputs_v2 :: "dataset_input_v2_row list"
  dataset_inputs_v2_seq :: int
  webhooks :: "webhook_row list"
  webhooks_seq :: int
  peers :: "peer_row list"
  peers_seq :: int
  dashboards :: "dashboard_row list"
  dashboards_seq :: int

type_synonym 'a op = "(db, err, 'a) sem"

section \<open>Clock, transactions, helpers\<close>

definition now :: "int op" where
  "now = (\<lambda>s. (Inr (clock s (clock_pos s)), s\<lparr>clock_pos := Suc (clock_pos s)\<rparr>))"

text \<open>
  \<open>BeginTx ... defer Rollback ... Commit\<close>: an error return undoes every write of the body. The clock
  is not part of the database, so its readings stay consumed.
\<close>

definition tx :: "'a op \<Rightarrow> 'a op" where
  "tx body = (\<lambda>s. case body s of
      (Inl e, t) \<Rightarrow> (Inl e, s\<lparr>clock_pos := clock_pos t\<rparr>)
    | (Inr x, t) \<Rightarrow> (Inr x, t))"

text \<open>
  One SQL statement: the constraint check it fails, if any, and otherwise its result and effect. A
  statement that fails leaves the database as it was.
\<close>

definition stmt :: "(db \<Rightarrow> err option) \<Rightarrow> (db \<Rightarrow> 'a \<times> db) \<Rightarrow> 'a op" where
  "stmt chk eff = (\<lambda>s. case chk s of Some e \<Rightarrow> (Inl e, s) | None \<Rightarrow> (Inr (fst (eff s)), snd (eff s)))"

definition nilIfEmpty :: "string \<Rightarrow> string option" where
  "nilIfEmpty s = (if s = [] then None else Some s)"

text \<open>\<open>COALESCE(col, '')\<close>\<close>

definition coalesce :: "string option \<Rightarrow> string" where
  "coalesce c = (case c of None \<Rightarrow> [] | Some s \<Rightarrow> s)"

definition invalidValue :: "name_error option \<Rightarrow> unit op" where
  "invalidValue e = require (e = None) ErrInvalidValue"

definition default_ws :: "string \<Rightarrow> string" where
  "default_ws w = (if w = [] then ''default'' else w)"

lemma now_apply [sem_simps]: "now s = (Inr (clock s (clock_pos s)), s\<lparr>clock_pos := Suc (clock_pos s)\<rparr>)"
  by (simp add: now_def)

lemma tx_apply [sem_simps]:
  "tx body s = (case body s of (Inl e, t) \<Rightarrow> (Inl e, s\<lparr>clock_pos := clock_pos t\<rparr>) | (Inr x, t) \<Rightarrow> (Inr x, t))"
  by (simp add: tx_def)

lemma invalidValue_apply [sem_simps]:
  "invalidValue e s = (if e = None then (Inr (), s) else (Inl ErrInvalidValue, s))"
  by (simp add: invalidValue_def require_apply)

lemma coalesce_nilIfEmpty [simp]: "coalesce (nilIfEmpty s) = s"
  by (simp add: coalesce_def nilIfEmpty_def)

lemma coalesce_simps [simp]: "coalesce None = []" "coalesce (Some s) = s"
  by (simp_all add: coalesce_def)

lemma nilIfEmpty_coalesce: "coalesce (nilIfEmpty s) = s"
  by simp

lemma default_ws_nonempty [simp]: "default_ws w \<noteq> []"
  by (simp add: default_ws_def)

lemma stmt_apply [sem_simps]:
  "stmt chk eff s = (case chk s of Some e \<Rightarrow> (Inl e, s) | None \<Rightarrow> (Inr (fst (eff s)), snd (eff s)))"
  by (simp add: stmt_def)

lemma stmt_cases: "stmt chk eff s = (Inr (fst (eff s)), snd (eff s)) \<or> (\<exists>e. stmt chk eff s = (Inl e, s))"
  by (cases "chk s") (simp_all add: stmt_def)

lemma keeps_stmt:
  "(\<And>s. P s \<Longrightarrow> chk s = None \<Longrightarrow> P (snd (eff s))) \<Longrightarrow> keeps P (stmt chk eff)"
  by (simp add: keeps_def stmt_def split: option.split)

text \<open>
  \<open>retryWriteRace\<close>: up to six attempts while the transaction fails on a write race. The back-off and
  the cancellation of the request are left out.
\<close>

fun retry_loop :: "nat \<Rightarrow> 'a op \<Rightarrow> 'a op" where
  "retry_loop 0 fn = fn"
| "retry_loop (Suc n) fn =
     catch fn (\<lambda>e. if isUniqueViolation e \<or> isSnapshotRaceErr e then retry_loop n fn else throw e)"

definition retryWriteRace :: "'a op \<Rightarrow> 'a op" where
  "retryWriteRace fn = retry_loop 5 fn"

lemma keeps_retry_loop: "keeps P fn \<Longrightarrow> keeps P (retry_loop n fn)"
  by (induction n) (auto intro!: keeps_intros)

lemma keeps_retryWriteRace [keeps_intros]: "keeps P fn \<Longrightarrow> keeps P (retryWriteRace fn)"
  unfolding retryWriteRace_def by (rule keeps_retry_loop)

lemma retryWriteRace_ok: "fn s = (Inr x, t) \<Longrightarrow> retryWriteRace fn s = (Inr x, t)"
  unfolding retryWriteRace_def by (simp add: numeral_eq_Suc sem_simps)

text \<open>A deterministic failure that leaves the state as it was is the outcome of every attempt.\<close>

lemma retryWriteRace_err: "fn s = (Inl e, s) \<Longrightarrow> retryWriteRace fn s = (Inl e, s)"
proof -
  assume "fn s = (Inl e, s)"
  then have "retry_loop n fn s = (Inl e, s)" for n by (induction n) (simp_all add: sem_simps)
  then show ?thesis by (simp add: retryWriteRace_def)
qed

text \<open>A predicate on the tables only does not see the clock.\<close>

definition clockless :: "(db \<Rightarrow> bool) \<Rightarrow> bool" where
  "clockless P \<longleftrightarrow> (\<forall>s n. P (s\<lparr>clock_pos := n\<rparr>) = P s)"

lemma keeps_now: "clockless P \<Longrightarrow> keeps P now"
  by (simp add: keeps_def now_def clockless_def)

lemma keeps_tx: "clockless P \<Longrightarrow> keeps P m \<Longrightarrow> keeps P (tx m)"
  by (fastforce simp: keeps_def tx_def clockless_def split: prod.split sum.split)

lemma keeps_invalidValue [keeps_intros]: "keeps P (invalidValue e)"
  by (simp add: invalidValue_def keeps_require)

end
