(* ===== verification/Schema.thy ===== *)
theory Schema
  imports Tables
begin

text \<open>
  The integrity of the database: the PRIMARY KEY, UNIQUE, FOREIGN KEY and CHECK constraints that the
  migrations declare (\<open>internal/migrations/*.sql\<close>), one predicate per table, and \<open>db_ok\<close>, their
  conjunction. AUTOINCREMENT tables also keep every id at or below the last id they gave out. The
  predicates of a child table take the keys of its parent table, so a statement on one table leaves
  the predicates of the others as they are. The rules in \<open>schema_rules\<close> say how a constraint
  reacts to an insert, an update and a delete; the component theories use them to show that each
  statement keeps \<open>db_ok\<close>.
\<close>

named_theorems schema_rules "how constraints react to the writing statements"

section \<open>Constraints\<close>

definition pk :: "('r \<Rightarrow> 'k) \<Rightarrow> 'r list \<Rightarrow> bool" where
  "pk k rs \<longleftrightarrow> distinct (map k rs)"

definition keys :: "('r \<Rightarrow> 'k) \<Rightarrow> 'r list \<Rightarrow> 'k set" where
  "keys k rs = k ` set rs"

definition fk :: "('r \<Rightarrow> 'k) \<Rightarrow> 'r list \<Rightarrow> 'k set \<Rightarrow> bool" where
  "fk f rs A \<longleftrightarrow> (\<forall>r\<in>set rs. f r \<in> A)"

text \<open>A nullable foreign key: NULL refers to nothing.\<close>

definition fk_null :: "('r \<Rightarrow> 'k option) \<Rightarrow> 'r list \<Rightarrow> 'k set \<Rightarrow> bool" where
  "fk_null f rs A \<longleftrightarrow> (\<forall>r\<in>set rs. case f r of None \<Rightarrow> True | Some x \<Rightarrow> x \<in> A)"

definition chk :: "('r \<Rightarrow> bool) \<Rightarrow> 'r list \<Rightarrow> bool" where
  "chk p rs \<longleftrightarrow> (\<forall>r\<in>set rs. p r)"

definition below :: "('r \<Rightarrow> int) \<Rightarrow> int \<Rightarrow> 'r list \<Rightarrow> bool" where
  "below k n rs \<longleftrightarrow> (\<forall>r\<in>set rs. k r \<le> n)"

text \<open>The checks SQLite makes before it inserts a row.\<close>

definition has_key :: "('r \<Rightarrow> 'k) \<Rightarrow> 'k \<Rightarrow> 'r list \<Rightarrow> bool" where
  "has_key k x rs \<longleftrightarrow> list_ex (\<lambda>r. k r = x) rs"

lemma has_key_iff: "has_key k x rs \<longleftrightarrow> x \<in> keys k rs"
  by (auto simp: has_key_def keys_def list_ex_iff)

lemma keys_Nil [simp]: "keys k [] = {}"
  by (simp add: keys_def)

lemma keys_append [simp]: "keys k (rs @ qs) = keys k rs \<union> keys k qs"
  by (auto simp: keys_def)

lemma keys_Cons [simp]: "keys k (r # rs) = insert (k r) (keys k rs)"
  by (simp add: keys_def)

lemma keys_update_where:
  "(\<And>r. p r \<Longrightarrow> k (f r) = k r) \<Longrightarrow> keys k (update_where p f rs) = keys k rs"
  unfolding keys_def by (metis map_update_where_key set_map)

lemma ball_update_where:
  "(\<And>r. p r \<Longrightarrow> f (g r) = f r) \<Longrightarrow> (\<forall>r\<in>set (update_where p g rs). Q (f r)) = (\<forall>r\<in>set rs. Q (f r))"
  by (induction rs) (auto simp: update_where_def)

lemma pk_Nil [simp]: "pk k []"
  by (simp add: pk_def)

lemma pk_insert [schema_rules]: "pk k (rs @ [r]) \<longleftrightarrow> pk k rs \<and> k r \<notin> keys k rs"
  by (auto simp: pk_def keys_def)

lemma pk_update_where: "(\<And>r. p r \<Longrightarrow> k (f r) = k r) \<Longrightarrow> pk k (update_where p f rs) = pk k rs"
  unfolding pk_def by (simp add: map_update_where_key)

lemma pk_delete_where [schema_rules]: "pk k rs \<Longrightarrow> pk k (delete_where p rs)"
  unfolding pk_def by (rule distinct_map_delete_where)

lemma fk_Nil [simp]: "fk f [] A"
  by (simp add: fk_def)

lemma fk_insert [schema_rules]: "fk f (rs @ [r]) A \<longleftrightarrow> fk f rs A \<and> f r \<in> A"
  by (auto simp: fk_def)

lemma fk_mono [schema_rules]: "fk f rs A \<Longrightarrow> A \<subseteq> B \<Longrightarrow> fk f rs B"
  by (auto simp: fk_def)

lemma fk_update_where: "(\<And>r. p r \<Longrightarrow> f (g r) = f r) \<Longrightarrow> fk f (update_where p g rs) A = fk f rs A"
  unfolding fk_def by (rule ball_update_where)

lemma fk_delete_where [schema_rules]: "fk f rs A \<Longrightarrow> fk f (delete_where p rs) A"
  by (auto simp: fk_def)

lemma fk_null_Nil [simp]: "fk_null f [] A"
  by (simp add: fk_null_def)

lemma fk_null_insert [schema_rules]:
  "fk_null f (rs @ [r]) A \<longleftrightarrow> fk_null f rs A \<and> (\<forall>x. f r = Some x \<longrightarrow> x \<in> A)"
  by (auto simp: fk_null_def split: option.split)

lemma fk_null_mono [schema_rules]: "fk_null f rs A \<Longrightarrow> A \<subseteq> B \<Longrightarrow> fk_null f rs B"
  by (fastforce simp: fk_null_def split: option.splits)

lemma fk_null_update_where:
  "(\<And>r. p r \<Longrightarrow> f (g r) = f r) \<Longrightarrow> fk_null f (update_where p g rs) A = fk_null f rs A"
  unfolding fk_null_def by (rule ball_update_where)

lemma fk_null_delete_where [schema_rules]: "fk_null f rs A \<Longrightarrow> fk_null f (delete_where p rs) A"
  by (auto simp: fk_null_def)

lemma chk_Nil [simp]: "chk p []"
  by (simp add: chk_def)

lemma chk_insert [schema_rules]: "chk q (rs @ [r]) \<longleftrightarrow> chk q rs \<and> q r"
  by (auto simp: chk_def)

lemma chk_update_where:
  "chk q rs \<Longrightarrow> (\<And>r. q r \<Longrightarrow> p r \<Longrightarrow> q (f r)) \<Longrightarrow> chk q (update_where p f rs)"
  by (auto simp: chk_def update_where_def)

lemma chk_delete_where [schema_rules]: "chk q rs \<Longrightarrow> chk q (delete_where p rs)"
  by (auto simp: chk_def)

lemma below_Nil [simp]: "below k n []"
  by (simp add: below_def)

lemma below_insert [schema_rules]: "below k n (rs @ [r]) \<longleftrightarrow> below k n rs \<and> k r \<le> n"
  by (auto simp: below_def)

lemma below_mono [schema_rules]: "below k n rs \<Longrightarrow> n \<le> m \<Longrightarrow> below k m rs"
  by (auto simp: below_def)

lemma below_fresh: "below k n rs \<Longrightarrow> n < m \<Longrightarrow> m \<notin> keys k rs"
  by (auto simp: below_def keys_def)

lemma below_update_where:
  "(\<And>r. p r \<Longrightarrow> k (f r) = k r) \<Longrightarrow> below k n (update_where p f rs) = below k n rs"
  unfolding below_def by (rule ball_update_where)

lemma below_delete_where [schema_rules]: "below k n rs \<Longrightarrow> below k n (delete_where p rs)"
  by (auto simp: below_def)

lemma first_row_keys: "first_row (\<lambda>r. k r = x) rs = None \<longleftrightarrow> x \<notin> keys k rs"
  by (auto simp: first_row_None keys_def)

text \<open>ON DELETE CASCADE: the children of the deleted parents go with them.\<close>

lemma fk_cascade:
  "fk f rs (keys k ps) \<Longrightarrow>
    fk f (delete_where (\<lambda>r. has_key k (f r) (filter p ps)) rs) (keys k (delete_where p ps))"
  by (auto simp: fk_def has_key_iff keys_def)

lemmas update_where_rules = keys_update_where pk_update_where fk_update_where fk_null_update_where
  below_update_where

text \<open>An upsert that rewrites no constrained column.\<close>

lemma keys_upsert_mem:
  "(\<And>x n. k (upd x n) = k x) \<Longrightarrow> keys k (upsert k upd r rs) = insert (k r) (keys k rs)"
  unfolding keys_def by (rule keyed.keys_upsert) (unfold_locales, simp)

lemma pk_upsert: "(\<And>x n. k (upd x n) = k x) \<Longrightarrow> pk k rs \<Longrightarrow> pk k (upsert k upd r rs)"
  unfolding pk_def by (rule keyed.distinct_upsert) (unfold_locales, simp)

lemma fk_upsert:
  "(\<And>x n. f (upd x n) = f x) \<Longrightarrow> fk f rs A \<Longrightarrow> f r \<in> A \<Longrightarrow> fk f (upsert k upd r rs) A"
  by (auto simp: fk_def upsert_def)

lemma chk_upsert:
  "chk q rs \<Longrightarrow> q r \<Longrightarrow> (\<And>x. q x \<Longrightarrow> q (upd x r)) \<Longrightarrow> chk q (upsert k upd r rs)"
  by (auto simp: chk_def upsert_def)

section \<open>The tables\<close>

definition run_stages :: "string set" where
  "run_stages = {LifecycleActive, LifecycleDeleted}"

definition run_statuses :: "string set" where
  "run_statuses = {StatusRunning, StatusScheduled, StatusFinished, StatusFailed, StatusKilled}"

definition run_kinds :: "string set" where
  "run_kinds = {KindClassic, KindTrace, KindEval}"

definition event_kinds :: "string set" where
  "event_kinds = {''run_update'', ''run_lifecycle'', ''run_parent'', ''tag_set'', ''tag_delete''}"

definition run_check :: "run_row \<Rightarrow> bool" where
  "run_check r \<longleftrightarrow> r_status r \<in> run_statuses \<and> r_lifecycle_stage r \<in> run_stages \<and> r_run_kind r \<in> run_kinds"

definition version_check :: "version_row \<Rightarrow> bool" where
  "version_check v \<longleftrightarrow> ValidStage (v_current_stage v) \<and> v_status v \<in> {''READY'', ''PENDING'', ''FAILED''}"

abbreviation wm_key :: "member_row \<Rightarrow> string \<times> string" where
  "wm_key m \<equiv> (wm_workspace_id m, wm_user_id m)"
abbreviation e_key :: "experiment_row \<Rightarrow> string \<times> string" where
  "e_key e \<equiv> (e_workspace_id e, e_name e)"
abbreviation et_pk :: "experiment_tag_row \<Rightarrow> int \<times> string" where
  "et_pk t \<equiv> (et_experiment_id t, et_key t)"
abbreviation m_pk :: "metric_row \<Rightarrow> string \<times> string \<times> int \<times> int" where
  "m_pk m \<equiv> (m_run_id m, m_key m, m_timestamp m, m_step m)"
abbreviation ml_pk :: "metric_row \<Rightarrow> string \<times> string" where
  "ml_pk m \<equiv> (m_run_id m, m_key m)"
abbreviation p_pk :: "param_row \<Rightarrow> string \<times> string" where
  "p_pk p \<equiv> (p_run_id p, p_key p)"
abbreviation t_pk :: "tag_row \<Rightarrow> string \<times> string" where
  "t_pk t \<equiv> (t_run_id t, t_key t)"
abbreviation pt_pk :: "prompt_row \<Rightarrow> string \<times> string \<times> int" where
  "pt_pk p \<equiv> (pt_workspace_id p, pt_name p, pt_version p)"
abbreviation pa_pk :: "prompt_alias_row \<Rightarrow> (string \<times> string) \<times> string" where
  "pa_pk a \<equiv> ((pa_workspace_id a, pa_name a), pa_alias a)"
abbreviation pa_ref :: "prompt_alias_row \<Rightarrow> string \<times> string \<times> int" where
  "pa_ref a \<equiv> (pa_workspace_id a, pa_name a, pa_version a)"
abbreviation rg_pk :: "model_row \<Rightarrow> string \<times> string" where
  "rg_pk m \<equiv> (rg_workspace_id m, rg_name m)"
abbreviation v_pk :: "version_row \<Rightarrow> string \<times> string \<times> int" where
  "v_pk v \<equiv> (v_workspace_id v, v_name v, v_version v)"
abbreviation v_ref :: "version_row \<Rightarrow> string \<times> string" where
  "v_ref v \<equiv> (v_workspace_id v, v_name v)"
abbreviation gt_pk :: "model_tag_row \<Rightarrow> (string \<times> string) \<times> string" where
  "gt_pk t \<equiv> ((gt_workspace_id t, gt_name t), gt_key t)"
abbreviation gt_ref :: "model_tag_row \<Rightarrow> string \<times> string" where
  "gt_ref t \<equiv> (gt_workspace_id t, gt_name t)"
abbreviation vt_pk :: "version_tag_row \<Rightarrow> (string \<times> string \<times> int) \<times> string" where
  "vt_pk t \<equiv> ((vt_workspace_id t, vt_name t, vt_version t), vt_key t)"
abbreviation vt_ref :: "version_tag_row \<Rightarrow> string \<times> string \<times> int" where
  "vt_ref t \<equiv> (vt_workspace_id t, vt_name t, vt_version t)"
abbreviation al_pk :: "model_alias_row \<Rightarrow> (string \<times> string) \<times> string" where
  "al_pk a \<equiv> ((al_workspace_id a, al_name a), al_alias a)"
abbreviation al_ref :: "model_alias_row \<Rightarrow> string \<times> string \<times> int" where
  "al_ref a \<equiv> (al_workspace_id a, al_name a, al_version a)"
abbreviation d_key :: "dataset_row \<Rightarrow> string \<times> string \<times> int" where
  "d_key d \<equiv> (d_workspace_id d, d_name d, d_version d)"
abbreviation dm_pk :: "dataset_meta_row \<Rightarrow> string \<times> string" where
  "dm_pk m \<equiv> (dm_name m, dm_digest m)"
abbreviation di_ref :: "dataset_input_row \<Rightarrow> string \<times> string" where
  "di_ref i \<equiv> (di_name i, di_digest i)"
abbreviation dt_pk :: "dataset_input_tag_row \<Rightarrow> int \<times> string" where
  "dt_pk t \<equiv> (dt_input_id t, dt_key t)"
abbreviation pe_key :: "peer_row \<Rightarrow> string \<times> string" where
  "pe_key p \<equiv> (pe_workspace_id p, pe_name p)"
abbreviation da_key :: "dashboard_row \<Rightarrow> string \<times> string" where
  "da_key d \<equiv> (da_workspace_id d, da_project d)"

definition members_ok :: "string set \<Rightarrow> member_row list \<Rightarrow> bool" where
  "members_ok ws ms \<longleftrightarrow> pk wm_key ms \<and> fk wm_workspace_id ms ws \<and>
     chk (\<lambda>m. wm_role m \<in> {''viewer'', ''editor'', ''admin''}) ms"

definition experiments_ok :: "string set \<Rightarrow> int \<Rightarrow> experiment_row list \<Rightarrow> bool" where
  "experiments_ok ws n es \<longleftrightarrow> pk e_id es \<and> pk e_key es \<and> below e_id n es \<and>
     fk e_workspace_id es ws \<and> chk (\<lambda>e. e_lifecycle_stage e \<in> run_stages) es"

definition experiment_tags_ok :: "int set \<Rightarrow> experiment_tag_row list \<Rightarrow> bool" where
  "experiment_tags_ok es ts \<longleftrightarrow> pk et_pk ts \<and> fk et_experiment_id ts es"

definition runs_ok :: "int set \<Rightarrow> run_row list \<Rightarrow> bool" where
  "runs_ok es rs \<longleftrightarrow> pk r_id rs \<and> fk r_experiment_id rs es \<and>
     fk_null r_parent_run_id rs (keys r_id rs) \<and> chk run_check rs"

definition metrics_ok :: "string set \<Rightarrow> metric_row list \<Rightarrow> metric_row list \<Rightarrow> bool" where
  "metrics_ok rs ms ls \<longleftrightarrow> pk m_pk ms \<and> fk m_run_id ms rs \<and> pk ml_pk ls \<and> fk m_run_id ls rs"

definition params_ok :: "string set \<Rightarrow> param_row list \<Rightarrow> bool" where
  "params_ok rs ps \<longleftrightarrow> pk p_pk ps \<and> fk p_run_id ps rs"

definition tags_ok :: "string set \<Rightarrow> tag_row list \<Rightarrow> bool" where
  "tags_ok rs ts \<longleftrightarrow> pk t_pk ts \<and> fk t_run_id ts rs"

definition events_ok :: "int \<Rightarrow> event_row list \<Rightarrow> bool" where
  "events_ok n es \<longleftrightarrow> pk ev_id es \<and> below ev_id n es \<and> chk (\<lambda>e. ev_kind e \<in> event_kinds) es"

definition notes_ok :: "string set \<Rightarrow> note_row list \<Rightarrow> bool" where
  "notes_ok rs ns \<longleftrightarrow> pk n_run_id ns \<and> fk n_run_id ns rs"

definition evals_ok :: "string set \<Rightarrow> eval_row list \<Rightarrow> bool" where
  "evals_ok rs es \<longleftrightarrow> pk el_run_id es \<and> fk el_run_id es rs"

definition traces_ok :: "string set \<Rightarrow> span_row list \<Rightarrow> bool" where
  "traces_ok rs ss \<longleftrightarrow> pk s_id ss \<and> fk_null s_run_id ss rs \<and> fk_null s_parent_id ss (keys s_id ss)"

definition prompts_ok :: "string set \<Rightarrow> prompt_row list \<Rightarrow> prompt_alias_row list \<Rightarrow> bool" where
  "prompts_ok ws ps as \<longleftrightarrow> pk pt_pk ps \<and> fk pt_workspace_id ps ws \<and> pk pa_pk as \<and>
     fk pa_ref as (keys pt_pk ps)"

definition models_ok :: "string set \<Rightarrow> model_row list \<Rightarrow> bool" where
  "models_ok ws ms \<longleftrightarrow> pk rg_pk ms \<and> fk rg_workspace_id ms ws"

definition versions_ok :: "(string \<times> string) set \<Rightarrow> version_row list \<Rightarrow> bool" where
  "versions_ok ms vs \<longleftrightarrow> pk v_pk vs \<and> fk v_ref vs ms \<and> chk version_check vs"

definition model_tags_ok :: "(string \<times> string) set \<Rightarrow> model_tag_row list \<Rightarrow> bool" where
  "model_tags_ok ms ts \<longleftrightarrow> pk gt_pk ts \<and> fk gt_ref ts ms"

definition version_tags_ok :: "(string \<times> string \<times> int) set \<Rightarrow> version_tag_row list \<Rightarrow> bool" where
  "version_tags_ok vs ts \<longleftrightarrow> pk vt_pk ts \<and> fk vt_ref ts vs"

definition model_aliases_ok :: "(string \<times> string \<times> int) set \<Rightarrow> model_alias_row list \<Rightarrow> bool" where
  "model_aliases_ok vs as \<longleftrightarrow> pk al_pk as \<and> fk al_ref as vs"

definition datasets_ok :: "int \<Rightarrow> dataset_row list \<Rightarrow> (int \<times> int) list \<Rightarrow> bool" where
  "datasets_ok n ds ls \<longleftrightarrow> pk d_id ds \<and> pk d_key ds \<and> below d_id n ds \<and>
     chk (\<lambda>d. d_lifecycle_stage d \<in> run_stages) ds \<and>
     distinct ls \<and> fk fst ls (keys d_id ds) \<and> fk snd ls (keys d_id ds)"

definition inputs_ok :: "string set \<Rightarrow> dataset_meta_row list \<Rightarrow> int \<Rightarrow> dataset_input_row list \<Rightarrow> dataset_input_tag_row list \<Rightarrow> bool" where
  "inputs_ok rs ms n is ts \<longleftrightarrow> pk dm_pk ms \<and> pk di_id is \<and> below di_id n is \<and> fk di_run_id is rs \<and>
     fk di_ref is (keys dm_pk ms) \<and> pk dt_pk ts \<and> fk dt_input_id ts (keys di_id is)"

definition inputs_v2_ok :: "string set \<Rightarrow> int set \<Rightarrow> int \<Rightarrow> dataset_input_v2_row list \<Rightarrow> bool" where
  "inputs_v2_ok rs ds n is \<longleftrightarrow> pk d2_id is \<and> below d2_id n is \<and> fk d2_run_id is rs \<and> fk d2_dataset_id is ds"

definition peers_ok :: "int \<Rightarrow> peer_row list \<Rightarrow> bool" where
  "peers_ok n ps \<longleftrightarrow> pk pe_id ps \<and> pk pe_key ps \<and> below pe_id n ps \<and>
     chk (\<lambda>p. pe_status p \<in> {''pending'', ''connected'', ''error''}) ps"

definition dashboards_ok :: "int \<Rightarrow> dashboard_row list \<Rightarrow> bool" where
  "dashboards_ok n ds \<longleftrightarrow> pk da_id ds \<and> pk da_key ds \<and> below da_id n ds"

definition webhooks_ok :: "int \<Rightarrow> webhook_row list \<Rightarrow> bool" where
  "webhooks_ok n ws \<longleftrightarrow> pk wh_id ws \<and> below wh_id n ws"

definition db_ok :: "db \<Rightarrow> bool" where
  "db_ok s \<longleftrightarrow>
     pk w_id (workspaces s) \<and>
     members_ok (keys w_id (workspaces s)) (workspace_members s) \<and>
     experiments_ok (keys w_id (workspaces s)) (experiments_seq s) (experiments s) \<and>
     experiment_tags_ok (keys e_id (experiments s)) (experiment_tags s) \<and>
     runs_ok (keys e_id (experiments s)) (runs s) \<and>
     metrics_ok (keys r_id (runs s)) (metrics s) (metrics_latest s) \<and>
     params_ok (keys r_id (runs s)) (params s) \<and>
     tags_ok (keys r_id (runs s)) (tags s) \<and>
     events_ok (events_seq s) (events s) \<and>
     notes_ok (keys r_id (runs s)) (run_notes s) \<and>
     evals_ok (keys r_id (runs s)) (evals s) \<and>
     traces_ok (keys r_id (runs s)) (traces s) \<and>
     pk se_id (sessions s) \<and>
     prompts_ok (keys w_id (workspaces s)) (prompts s) (prompt_aliases s) \<and>
     models_ok (keys w_id (workspaces s)) (registered_models s) \<and>
     versions_ok (keys rg_pk (registered_models s)) (model_versions s) \<and>
     model_tags_ok (keys rg_pk (registered_models s)) (registered_model_tags s) \<and>
     version_tags_ok (keys v_pk (model_versions s)) (model_version_tags s) \<and>
     model_aliases_ok (keys v_pk (model_versions s)) (model_aliases s) \<and>
     datasets_ok (datasets_v2_seq s) (datasets_v2 s) (dataset_lineage s) \<and>
     webhooks_ok (webhooks_seq s) (webhooks s) \<and>
     peers_ok (peers_seq s) (peers s) \<and>
     dashboards_ok (dashboards_seq s) (dashboards s) \<and>
     inputs_ok (keys r_id (runs s)) (datasets s) (dataset_inputs_seq s) (dataset_inputs s) (dataset_input_tags s) \<and>
     inputs_v2_ok (keys r_id (runs s)) (keys d_id (datasets_v2 s)) (dataset_inputs_v2_seq s) (dataset_inputs_v2 s)"

text \<open>The constraints of one table, taken out of \<open>db_ok\<close>.\<close>

lemma db_okD:
  assumes "db_ok s"
  shows "pk w_id (workspaces s)"
    and "members_ok (keys w_id (workspaces s)) (workspace_members s)"
    and "experiments_ok (keys w_id (workspaces s)) (experiments_seq s) (experiments s)"
    and "experiment_tags_ok (keys e_id (experiments s)) (experiment_tags s)"
    and "runs_ok (keys e_id (experiments s)) (runs s)"
    and "metrics_ok (keys r_id (runs s)) (metrics s) (metrics_latest s)"
    and "params_ok (keys r_id (runs s)) (params s)"
    and "tags_ok (keys r_id (runs s)) (tags s)"
    and "events_ok (events_seq s) (events s)"
    and "notes_ok (keys r_id (runs s)) (run_notes s)"
    and "evals_ok (keys r_id (runs s)) (evals s)"
    and "traces_ok (keys r_id (runs s)) (traces s)"
    and "pk se_id (sessions s)"
    and "prompts_ok (keys w_id (workspaces s)) (prompts s) (prompt_aliases s)"
    and "models_ok (keys w_id (workspaces s)) (registered_models s)"
    and "versions_ok (keys rg_pk (registered_models s)) (model_versions s)"
    and "model_tags_ok (keys rg_pk (registered_models s)) (registered_model_tags s)"
    and "version_tags_ok (keys v_pk (model_versions s)) (model_version_tags s)"
    and "model_aliases_ok (keys v_pk (model_versions s)) (model_aliases s)"
    and "datasets_ok (datasets_v2_seq s) (datasets_v2 s) (dataset_lineage s)"
    and "webhooks_ok (webhooks_seq s) (webhooks s)"
    and "peers_ok (peers_seq s) (peers s)"
    and "dashboards_ok (dashboards_seq s) (dashboards s)"
    and "inputs_ok (keys r_id (runs s)) (datasets s) (dataset_inputs_seq s) (dataset_inputs s) (dataset_input_tags s)"
    and "inputs_v2_ok (keys r_id (runs s)) (keys d_id (datasets_v2 s)) (dataset_inputs_v2_seq s) (dataset_inputs_v2 s)"
  using assms by (simp_all add: db_ok_def)

text \<open>The predicates that grow with the parent's keys.\<close>

lemma ok_monos:
  "metrics_ok A ms ls \<Longrightarrow> A \<subseteq> B \<Longrightarrow> metrics_ok B ms ls"
  "params_ok A ps \<Longrightarrow> A \<subseteq> B \<Longrightarrow> params_ok B ps"
  "tags_ok A ts \<Longrightarrow> A \<subseteq> B \<Longrightarrow> tags_ok B ts"
  "notes_ok A ns \<Longrightarrow> A \<subseteq> B \<Longrightarrow> notes_ok B ns"
  "evals_ok A els \<Longrightarrow> A \<subseteq> B \<Longrightarrow> evals_ok B els"
  "traces_ok A ss \<Longrightarrow> A \<subseteq> B \<Longrightarrow> traces_ok B ss"
  "experiment_tags_ok E ets \<Longrightarrow> E \<subseteq> F \<Longrightarrow> experiment_tags_ok F ets"
  "runs_ok E rs \<Longrightarrow> E \<subseteq> F \<Longrightarrow> runs_ok F rs"
  "inputs_ok A dm n is dt \<Longrightarrow> A \<subseteq> B \<Longrightarrow> inputs_ok B dm n is dt"
  "inputs_v2_ok A D k js \<Longrightarrow> A \<subseteq> B \<Longrightarrow> inputs_v2_ok B D k js"
  by (auto simp: metrics_ok_def params_ok_def tags_ok_def notes_ok_def evals_ok_def traces_ok_def
      experiment_tags_ok_def runs_ok_def inputs_ok_def inputs_v2_ok_def intro: fk_mono fk_null_mono)

lemma workspace_ok_monos:
  "members_ok A ms \<Longrightarrow> A \<subseteq> B \<Longrightarrow> members_ok B ms"
  "experiments_ok A n es \<Longrightarrow> A \<subseteq> B \<Longrightarrow> experiments_ok B n es"
  "prompts_ok A ps as \<Longrightarrow> A \<subseteq> B \<Longrightarrow> prompts_ok B ps as"
  "models_ok A gs \<Longrightarrow> A \<subseteq> B \<Longrightarrow> models_ok B gs"
  by (auto simp: members_ok_def experiments_ok_def prompts_ok_def models_ok_def intro: fk_mono)

lemma registry_ok_monos:
  "versions_ok M vs \<Longrightarrow> M \<subseteq> N \<Longrightarrow> versions_ok N vs"
  "model_tags_ok M gts \<Longrightarrow> M \<subseteq> N \<Longrightarrow> model_tags_ok N gts"
  "version_tags_ok V vts \<Longrightarrow> V \<subseteq> W \<Longrightarrow> version_tags_ok W vts"
  "model_aliases_ok V als \<Longrightarrow> V \<subseteq> W \<Longrightarrow> model_aliases_ok W als"
  by (auto simp: versions_ok_def model_tags_ok_def version_tags_ok_def model_aliases_ok_def
      intro: fk_mono)

text \<open>The database the migrations leave: empty, with the workspace "default".\<close>

definition fresh_db :: "(nat \<Rightarrow> int) \<Rightarrow> int \<Rightarrow> db" where
  "fresh_db clk n = \<lparr>
     clock = clk, clock_pos = 0,
     workspaces = [\<lparr>w_id = ''default'', w_name = ''Default'', w_description = None,
                    w_creation_time = n, w_last_update_time = n\<rparr>],
     workspace_members = [], experiments = [], experiments_seq = 0, experiment_tags = [], runs = [],
     metrics = [], metrics_latest = [], params = [], tags = [], events = [], events_seq = 0,
     run_notes = [], evals = [], traces = [], sessions = [], prompts = [], prompt_aliases = [],
     registered_models = [], model_versions = [], registered_model_tags = [],
     model_version_tags = [], model_aliases = [], datasets_v2 = [], datasets_v2_seq = 0,
     dataset_lineage = [], datasets = [], dataset_inputs = [], dataset_inputs_seq = 0, dataset_input_tags = [],
     dataset_inputs_v2 = [], dataset_inputs_v2_seq = 0, webhooks = [], webhooks_seq = 0, peers = [], peers_seq = 0,
     dashboards = [], dashboards_seq = 0\<rparr>"

lemmas table_ok_defs = members_ok_def experiments_ok_def experiment_tags_ok_def runs_ok_def
  metrics_ok_def params_ok_def tags_ok_def events_ok_def notes_ok_def evals_ok_def traces_ok_def
  prompts_ok_def models_ok_def versions_ok_def model_tags_ok_def version_tags_ok_def
  model_aliases_ok_def datasets_ok_def webhooks_ok_def peers_ok_def dashboards_ok_def
  inputs_ok_def inputs_v2_ok_def

lemma db_ok_fresh: "db_ok (fresh_db clk n)"
  by (simp add: db_ok_def fresh_db_def table_ok_defs pk_def)

lemma clockless_db_ok: "clockless db_ok"
  by (simp add: clockless_def db_ok_def)

lemma keeps_ok_now [keeps_intros]: "keeps db_ok now"
  by (rule keeps_now [OF clockless_db_ok])

lemma keeps_ok_tx [keeps_intros]: "keeps db_ok m \<Longrightarrow> keeps db_ok (tx m)"
  by (rule keeps_tx [OF clockless_db_ok])

section \<open>A sample database\<close>

text \<open>
  One experiment with the runs "r1" (running) and "r2" (its child), the tag "team" on "r1"; five readings
  of the clock are used up. The clock shows 100 up to there and 200 afterwards.
\<close>

definition sample_run :: "string \<Rightarrow> string option \<Rightarrow> run_row" where
  "sample_run i parent = \<lparr>
     r_id = i, r_experiment_id = 1, r_name = Some ''trial'', r_status = ''RUNNING'', r_start_time = 90,
     r_end_time = None, r_artifact_uri = ''mlflow-artifacts:/x'', r_lifecycle_stage = ''active'',
     r_user_id = None, r_source_type = None, r_source_name = None, r_run_kind = ''classic'',
     r_parent_run_id = parent\<rparr>"

definition sample_db :: db where
  "sample_db = (fresh_db (\<lambda>n. if n < 5 then 100 else 200) 50)\<lparr>
     clock_pos := 5,
     experiments := [\<lparr>e_id = 1, e_name = ''exp'', e_artifact_location = ''mlflow-artifacts:/1'',
       e_lifecycle_stage = ''active'', e_creation_time = 60, e_last_update_time = 60,
       e_workspace_id = ''default''\<rparr>],
     experiments_seq := 1,
     runs := [sample_run ''r1'' None, sample_run ''r2'' (Some ''r1'')],
     tags := [\<lparr>t_run_id = ''r1'', t_key = ''team'', t_value = ''a''\<rparr>]\<rparr>"

lemmas sample_defs = sample_db_def sample_run_def fresh_db_def

lemma sample_simps [simp]:
  "runs sample_db = [sample_run ''r1'' None, sample_run ''r2'' (Some ''r1'')]"
  "tags sample_db = [\<lparr>t_run_id = ''r1'', t_key = ''team'', t_value = ''a''\<rparr>]"
  "events sample_db = []" "events_seq sample_db = 0" "clock_pos sample_db = 5"
  "clock sample_db = (\<lambda>n. if n < 5 then 100 else 200)"
  "keys w_id (workspaces sample_db) = {''default''}"
  "experiments_seq sample_db = 1" "keys e_key (experiments sample_db) = {(''default'', ''exp'')}"
  by (simp_all add: sample_db_def fresh_db_def)

lemma db_ok_sample: "db_ok sample_db"
  by (simp add: db_ok_def table_ok_defs sample_defs pk_def fk_def fk_null_def below_def chk_def keys_def
      run_check_def run_statuses_def run_stages_def run_kinds_def status_defs lifecycle_defs kind_defs)

end
