(* ===== verification/Experiments.thy ===== *)
theory Experiments
  imports Schema
begin

text \<open>
  Experiments and their tags (\<open>internal/store/sqlite.go\<close>, experiments section, and
  \<open>CloneExperiment\<close> of \<open>sqlite_lineage.go\<close>): the statements on the tables \<open>experiments\<close> and
  \<open>experiment_tags\<close>, the store methods that create, read, rename, tag and clone an experiment, and
  \<open>ListProjects\<close>. Every method keeps the integrity of the database; a created experiment reads
  back as it was given, with its defaults filled in.
\<close>

section \<open>Statements\<close>

text \<open>\<open>INSERT INTO experiments\<close>; the result is \<open>LastInsertId\<close>.\<close>

definition insert_experiments :: "(int \<Rightarrow> experiment_row) \<Rightarrow> int op" where
  "insert_experiments mk = stmt
     (\<lambda>s. let r = mk (experiments_seq s + 1) in
       if e_lifecycle_stage r \<notin> run_stages then Some ErrCheck
       else if has_key e_key (e_key r) (experiments s) then Some ErrUnique
       else if \<not> has_key w_id (e_workspace_id r) (workspaces s) then Some ErrForeignKey
       else None)
     (\<lambda>s. let i = experiments_seq s + 1 in
       (i, s\<lparr>experiments_seq := i, experiments := experiments s @ [(mk i)\<lparr>e_id := i\<rparr>]\<rparr>))"

text \<open>
  \<open>UPDATE experiments SET ... WHERE id = ?\<close>, with the number of rows it touched. The columns it may set are the name,
  the artifact location, the lifecycle stage and the update time.
\<close>

record experiment_set =
  es_name :: "string option"
  es_artifact_location :: "string option"
  es_lifecycle_stage :: "string option"
  es_last_update_time :: "int option"

definition no_set :: experiment_set where
  "no_set = \<lparr>es_name = None, es_artifact_location = None, es_lifecycle_stage = None, es_last_update_time = None\<rparr>"

definition set_col :: "'a option \<Rightarrow> 'a \<Rightarrow> 'a" where
  "set_col new old = (case new of None \<Rightarrow> old | Some x \<Rightarrow> x)"

lemma set_col_simps [simp]: "set_col None x = x" "set_col (Some y) x = y"
  by (simp_all add: set_col_def)

definition apply_experiment_set :: "experiment_set \<Rightarrow> experiment_row \<Rightarrow> experiment_row" where
  "apply_experiment_set u e = e\<lparr>
     e_name := set_col (es_name u) (e_name e),
     e_artifact_location := set_col (es_artifact_location u) (e_artifact_location e),
     e_lifecycle_stage := set_col (es_lifecycle_stage u) (e_lifecycle_stage e),
     e_last_update_time := set_col (es_last_update_time u) (e_last_update_time e)\<rparr>"

definition update_experiments :: "int \<Rightarrow> experiment_set \<Rightarrow> nat op" where
  "update_experiments eid u = stmt
     (\<lambda>s. let es = update_where (\<lambda>e. e_id e = eid) (apply_experiment_set u) (experiments s) in
       if list_ex (\<lambda>e. e_lifecycle_stage e \<notin> run_stages) es then Some ErrCheck
       else if \<not> distinct (map e_key es) then Some ErrUnique
       else None)
     (\<lambda>s. (count_where (\<lambda>e. e_id e = eid) (experiments s),
       s\<lparr>experiments := update_where (\<lambda>e. e_id e = eid) (apply_experiment_set u) (experiments s)\<rparr>))"

definition et_upd :: "experiment_tag_row \<Rightarrow> experiment_tag_row \<Rightarrow> experiment_tag_row" where
  "et_upd old new = old\<lparr>et_value := et_value new\<rparr>"

definition upsert_experiment_tags :: "experiment_tag_row \<Rightarrow> unit op" where
  "upsert_experiment_tags t = stmt
     (\<lambda>s. if has_key e_id (et_experiment_id t) (experiments s) then None else Some ErrForeignKey)
     (\<lambda>s. ((), s\<lparr>experiment_tags := upsert et_pk et_upd t (experiment_tags s)\<rparr>))"

interpretation experiment_tag: kv_table et_experiment_id et_key et_value et_upd
  by unfold_locales (simp_all add: et_upd_def)

section \<open>Methods\<close>

definition SetExperimentTag :: "int \<Rightarrow> string \<Rightarrow> string \<Rightarrow> unit op" where
  "SetExperimentTag eid key value =
     bnd (invalidValue (ValidKey key)) (\<lambda>_.
     upsert_experiment_tags \<lparr>et_experiment_id = eid, et_key = key, et_value = value\<rparr>)"

definition or_default :: "'a \<Rightarrow> 'a \<Rightarrow> 'a \<Rightarrow> 'a" where
  "or_default zero d x = (if x = zero then d else x)"

text \<open>\<open>CreateExperiment\<close>: the defaults it fills in, the row it inserts, and the default location it writes back.\<close>

definition CreateExperiment :: "Experiment \<Rightarrow> int op" where
  "CreateExperiment e =
     bnd (invalidValue (ValidName (exp_Name e) 250)) (\<lambda>_.
     bnd now (\<lambda>n.
     bnd (map_err (\<lambda>er. if isUniqueViolation er then ErrAlreadyExists else er)
           (insert_experiments (\<lambda>i. \<lparr>
              e_id = i,
              e_name = exp_Name e,
              e_artifact_location = exp_ArtifactLocation e,
              e_lifecycle_stage = or_default [] LifecycleActive (exp_LifecycleStage e),
              e_creation_time = or_default 0 n (exp_CreationTime e),
              e_last_update_time = or_default 0 n (exp_LastUpdateTime e),
              e_workspace_id = default_ws (exp_WorkspaceID e)\<rparr>))) (\<lambda>eid.
     bnd (if exp_ArtifactLocation e = []
          then bnd (update_experiments eid
                     (no_set\<lparr>es_artifact_location := Some (''mlflow-artifacts:/'' @ FormatInt eid)\<rparr>)) (\<lambda>_. ret ())
          else ret ()) (\<lambda>_.
     bnd (for_each (\<lambda>t. SetExperimentTag eid (kv_Key t) (kv_Value t)) (exp_Tags e)) (\<lambda>_.
     ret eid)))))"

definition getExperimentTags :: "int \<Rightarrow> db \<Rightarrow> KV list" where
  "getExperimentTags eid s =
     map (\<lambda>t. \<lparr>kv_Key = et_key t, kv_Value = et_value t\<rparr>)
       (sort_key et_key (filter (\<lambda>t. et_experiment_id t = eid) (experiment_tags s)))"

definition scanExperiment :: "experiment_row option \<Rightarrow> bool \<Rightarrow> Experiment op" where
  "scanExperiment row withTags =
     (case row of None \<Rightarrow> throw ErrNotFound
      | Some e \<Rightarrow> gets (\<lambda>s. \<lparr>
          exp_ID = e_id e, exp_Name = e_name e, exp_ArtifactLocation = e_artifact_location e,
          exp_LifecycleStage = e_lifecycle_stage e, exp_CreationTime = e_creation_time e,
          exp_LastUpdateTime = e_last_update_time e, exp_WorkspaceID = e_workspace_id e,
          exp_Tags = (if withTags then getExperimentTags (e_id e) s else [])\<rparr>))"

definition GetExperiment :: "int \<Rightarrow> Experiment op" where
  "GetExperiment eid =
     bnd (gets (\<lambda>s. first_row (\<lambda>e. e_id e = eid) (experiments s))) (\<lambda>row. scanExperiment row True)"

definition GetExperimentByNameInWorkspace :: "string \<Rightarrow> string \<Rightarrow> Experiment op" where
  "GetExperimentByNameInWorkspace ws name =
     bnd (gets (\<lambda>s. first_row (\<lambda>e. e_name e = name \<and> e_workspace_id e = default_ws ws) (experiments s)))
       (\<lambda>row. scanExperiment row True)"

definition GetExperimentByName :: "string \<Rightarrow> Experiment op" where
  "GetExperimentByName name = GetExperimentByNameInWorkspace ''default'' name"

definition UpdateExperiment :: "int \<Rightarrow> string option \<Rightarrow> unit op" where
  "UpdateExperiment eid newName =
     (case newName of None \<Rightarrow> ret ()
      | Some nm \<Rightarrow>
        bnd (invalidValue (ValidName nm 250)) (\<lambda>_.
        bnd now (\<lambda>n.
        bnd (map_err (\<lambda>er. if isUniqueViolation er then ErrAlreadyExists else er)
              (update_experiments eid (no_set\<lparr>es_name := Some nm, es_last_update_time := Some n\<rparr>))) (\<lambda>cnt.
        require (cnt \<noteq> 0) ErrNotFound))))"

definition SetExperimentLifecycle :: "int \<Rightarrow> string \<Rightarrow> unit op" where
  "SetExperimentLifecycle eid stage =
     bnd (require (stage = LifecycleActive \<or> stage = LifecycleDeleted) ErrInvalidValue) (\<lambda>_.
     bnd now (\<lambda>n.
     bnd (update_experiments eid (no_set\<lparr>es_lifecycle_stage := Some stage, es_last_update_time := Some n\<rparr>)) (\<lambda>cnt.
     require (cnt \<noteq> 0) ErrNotFound)))"

definition CloneExperiment :: "int \<Rightarrow> string \<Rightarrow> string \<Rightarrow> Experiment op" where
  "CloneExperiment srcID newName workspaceID =
     bnd (GetExperiment srcID) (\<lambda>src.
     let ws = (if workspaceID = [] then exp_WorkspaceID src else workspaceID) in
     bnd (require (exp_WorkspaceID src = ws) ErrNotFound) (\<lambda>_.
     bnd (CreateExperiment \<lparr>
            exp_ID = 0, exp_Name = newName, exp_ArtifactLocation = [], exp_LifecycleStage = [],
            exp_CreationTime = 0, exp_LastUpdateTime = 0, exp_WorkspaceID = ws,
            exp_Tags = exp_Tags src\<rparr>) (\<lambda>eid.
     GetExperiment eid)))"

text \<open>\<open>ListProjects\<close>: the values of the tag \<open>lmf.project\<close> with their number of active experiments.\<close>

definition ProjectTagKey :: string where
  "ProjectTagKey = ''lmf.project''"

definition project_of :: "db \<Rightarrow> experiment_row \<Rightarrow> string" where
  "project_of s e =
     (case first_row (\<lambda>t. et_experiment_id t = e_id e \<and> et_key t = ProjectTagKey) (experiment_tags s) of
        None \<Rightarrow> [] | Some t \<Rightarrow> et_value t)"

definition ListProjects :: "string \<Rightarrow> db \<Rightarrow> (string \<times> nat) list" where
  "ListProjects ws s =
     (let ps = map (project_of s)
                 (filter (\<lambda>e. e_workspace_id e = default_ws ws \<and> e_lifecycle_stage e = LifecycleActive) (experiments s))
      in map (\<lambda>p. (p, length (filter (\<lambda>q. q = p) ps))) (sort_key (\<lambda>p. (p = [], p)) (remdups ps)))"

section \<open>Integrity\<close>

lemma keeps_insert_experiments [keeps_intros]: "keeps db_ok (insert_experiments mk)"
  unfolding insert_experiments_def
proof (rule keeps_stmt, goal_cases)
  case (1 s)
  let ?i = "experiments_seq s + 1"
  from 1(1) have "experiments_ok (keys w_id (workspaces s)) (experiments_seq s) (experiments s)"
    by (simp add: db_ok_def)
  then have "experiments_ok (keys w_id (workspaces s)) ?i (experiments s @ [(mk ?i)\<lparr>e_id := ?i\<rparr>])"
    using 1(2) by (auto simp: experiments_ok_def Let_def has_key_iff schema_rules split: if_splits
        dest: below_fresh [where m = ?i] intro: below_mono)
  with 1(1) show ?case
    by (auto simp: db_ok_def Let_def intro: ok_monos)
qed

lemma keeps_update_experiments [keeps_intros]: "keeps db_ok (update_experiments eid u)"
  unfolding update_experiments_def
proof (rule keeps_stmt, goal_cases)
  case (1 s)
  let ?es = "update_where (\<lambda>e. e_id e = eid) (apply_experiment_set u) (experiments s)"
  have k: "keys e_id ?es = keys e_id (experiments s)"
    by (simp add: keys_update_where apply_experiment_set_def)
  from 1 have "experiments_ok (keys w_id (workspaces s)) (experiments_seq s) ?es"
    by (auto simp: db_ok_def experiments_ok_def Let_def list_ex_iff update_where_rules
        apply_experiment_set_def pk_def [of e_key] chk_def split: if_splits)
  with 1(1) k show ?case by (simp add: db_ok_def)
qed

lemma keeps_upsert_experiment_tags [keeps_intros]: "keeps db_ok (upsert_experiment_tags t)"
  unfolding upsert_experiment_tags_def
  by (rule keeps_stmt) (auto simp: db_ok_def experiment_tags_ok_def has_key_iff et_upd_def
      intro!: pk_upsert fk_upsert split: if_splits)

lemma keeps_scanExperiment [keeps_intros]: "keeps P (scanExperiment row b)"
  unfolding scanExperiment_def by (intro keeps_intros)

lemma keeps_GetExperiment [keeps_intros]: "keeps P (GetExperiment eid)"
  unfolding GetExperiment_def by (intro keeps_intros)

lemma keeps_SetExperimentTag [keeps_intros]: "keeps db_ok (SetExperimentTag eid k v)"
  unfolding SetExperimentTag_def by (intro keeps_intros)

lemma keeps_CreateExperiment [keeps_intros]: "keeps db_ok (CreateExperiment e)"
  unfolding CreateExperiment_def by (intro keeps_intros)

lemma keeps_UpdateExperiment [keeps_intros]: "keeps db_ok (UpdateExperiment eid nm)"
  unfolding UpdateExperiment_def by (intro keeps_intros)

lemma keeps_SetExperimentLifecycle [keeps_intros]: "keeps db_ok (SetExperimentLifecycle eid st)"
  unfolding SetExperimentLifecycle_def by (intro keeps_intros)

lemma keeps_CloneExperiment [keeps_intros]: "keeps db_ok (CloneExperiment eid nm ws)"
  unfolding CloneExperiment_def by (intro keeps_intros)

section \<open>Behaviour\<close>

lemma kv_pairs_getExperimentTags:
  "kv_pairs (getExperimentTags i s) = experiment_tag.listing (experiment_tags s) i"
  by (simp add: kv_pairs_def getExperimentTags_def experiment_tag.listing_def)

text \<open>The tag loop of \<open>CreateExperiment\<close> succeeds on valid keys and upserts them in order.\<close>

definition et_rows :: "int \<Rightarrow> KV list \<Rightarrow> experiment_tag_row list" where
  "et_rows i ts = map (\<lambda>t. \<lparr>et_experiment_id = i, et_key = kv_Key t, et_value = kv_Value t\<rparr>) ts"

lemma experiment_tag_loop:
  assumes "\<forall>t\<in>set ts. ValidKey (kv_Key t) = None" and "i \<in> keys e_id (experiments s)"
  shows "for_each (\<lambda>t. SetExperimentTag i (kv_Key t) (kv_Value t)) ts s =
    (Inr (), s\<lparr>experiment_tags := foldl (\<lambda>qs r. upsert et_pk et_upd r qs) (experiment_tags s) (et_rows i ts)\<rparr>)"
  using assms
proof (induction ts arbitrary: s)
  case Nil
  then show ?case by (simp add: sem_simps et_rows_def)
next
  case (Cons t ts)
  let ?s = "s\<lparr>experiment_tags := upsert et_pk et_upd
      \<lparr>et_experiment_id = i, et_key = kv_Key t, et_value = kv_Value t\<rparr> (experiment_tags s)\<rparr>"
  from Cons.prems have "SetExperimentTag i (kv_Key t) (kv_Value t) s = (Inr (), ?s)"
    by (simp add: SetExperimentTag_def upsert_experiment_tags_def sem_simps has_key_iff)
  with Cons.IH [of ?s] Cons.prems show ?case by (simp add: bnd_ok et_rows_def)
qed

lemma map_of_et_rows:
  "map_of (rev (map (\<lambda>r. ((et_experiment_id r, et_key r), et_value r)) (et_rows i ts))) (i, k) =
    map_of (rev (kv_pairs ts)) k"
  by (induction ts) (auto simp: et_rows_def kv_pairs_def map_add_def split: option.split)

lemma fresh_experiment_id: "db_ok s \<Longrightarrow> experiments_seq s + 1 \<notin> keys e_id (experiments s)"
  using db_okD(3) [of s] below_fresh [of e_id "experiments_seq s" "experiments s"]
  by (simp add: experiments_ok_def)

lemma fresh_experiment_tags:
  "db_ok s \<Longrightarrow> experiment_tag.get (experiment_tags s) (experiments_seq s + 1) k = None"
  by (fastforce simp: db_ok_def experiments_ok_def experiment_tags_ok_def fk_def keys_def below_def
      experiment_tag.get_def experiment_tag.look_None)

text \<open>The row \<open>CreateExperiment\<close> leaves for the experiment \<open>e\<close> with id \<open>i\<close> at time \<open>n\<close>.\<close>

definition created_row :: "Experiment \<Rightarrow> int \<Rightarrow> int \<Rightarrow> experiment_row" where
  "created_row e i n = \<lparr>
     e_id = i, e_name = exp_Name e,
     e_artifact_location = (if exp_ArtifactLocation e = [] then ''mlflow-artifacts:/'' @ FormatInt i
                            else exp_ArtifactLocation e),
     e_lifecycle_stage = or_default [] LifecycleActive (exp_LifecycleStage e),
     e_creation_time = or_default 0 n (exp_CreationTime e),
     e_last_update_time = or_default 0 n (exp_LastUpdateTime e),
     e_workspace_id = default_ws (exp_WorkspaceID e)\<rparr>"

lemma CreateExperiment_ok:
  assumes ok: "db_ok s"
    and "ValidName (exp_Name e) 250 = None"
    and "exp_LifecycleStage e \<in> {[], LifecycleActive, LifecycleDeleted}"
    and "default_ws (exp_WorkspaceID e) \<in> keys w_id (workspaces s)"
    and "(default_ws (exp_WorkspaceID e), exp_Name e) \<notin> keys e_key (experiments s)"
    and tags: "\<forall>t\<in>set (exp_Tags e). ValidKey (kv_Key t) = None"
  defines "i \<equiv> experiments_seq s + 1"
  shows "CreateExperiment e s = (Inr i, s\<lparr>
    clock_pos := Suc (clock_pos s), experiments_seq := i,
    experiments := experiments s @ [created_row e i (clock s (clock_pos s))],
    experiment_tags := foldl (\<lambda>qs r. upsert et_pk et_upd r qs) (experiment_tags s) (et_rows i (exp_Tags e))\<rparr>)"
proof -
  let ?n = "clock s (clock_pos s)"
  let ?u = "s\<lparr>clock_pos := Suc (clock_pos s), experiments_seq := i,
    experiments := experiments s @ [created_row e i ?n]\<rparr>"
  have fresh: "i \<notin> keys e_id (experiments s)"
    using ok by (simp add: i_def fresh_experiment_id)
  have upd: "update_where (\<lambda>r. e_id r = i) f (experiments s) = experiments s" for f
    using fresh by (auto intro!: update_where_id simp: keys_def)
  have pk: "pk e_key (experiments s)" and st: "chk (\<lambda>r. e_lifecycle_stage r \<in> run_stages) (experiments s)"
    using ok by (auto simp: db_ok_def experiments_ok_def)
  have stage: "or_default [] LifecycleActive (exp_LifecycleStage e) \<in> run_stages"
    using assms(3) by (auto simp: or_default_def run_stages_def)
  have loop: "for_each (\<lambda>t. SetExperimentTag i (kv_Key t) (kv_Value t)) (exp_Tags e) ?u =
      (Inr (), ?u\<lparr>experiment_tags := foldl (\<lambda>qs r. upsert et_pk et_upd r qs) (experiment_tags s)
        (et_rows i (exp_Tags e))\<rparr>)"
    using experiment_tag_loop [OF tags, of i ?u] by (simp add: created_row_def)
  have split: "update_where p f (rs @ [r]) = update_where p f rs @ [if p r then f r else r]" for p f r and rs :: "experiment_row list"
    by (simp add: update_where_def)
  show ?thesis
    using assms(2,4,5) stage pk st fresh loop
    by (cases "exp_ArtifactLocation e = []")
      (simp_all add: CreateExperiment_def sem_simps insert_experiments_def has_key_iff Let_def i_def [symmetric]
        update_experiments_def split upd no_set_def apply_experiment_set_def created_row_def
        pk_def keys_def chk_def list_ex_iff)
qed

text \<open>
  A created experiment reads back with the fields it was given, its defaults filled in (stage
  active, the current time, the workspace "default", the location \<open>mlflow-artifacts:/id\<close>), and of
  its tags, for each key, the last value given. Its id is new.
\<close>

theorem CreateExperiment_GetExperiment:
  assumes "db_ok s"
    and "ValidName (exp_Name e) 250 = None"
    and "exp_LifecycleStage e \<in> {[], LifecycleActive, LifecycleDeleted}"
    and "default_ws (exp_WorkspaceID e) \<in> keys w_id (workspaces s)"
    and "(default_ws (exp_WorkspaceID e), exp_Name e) \<notin> keys e_key (experiments s)"
    and "\<forall>t\<in>set (exp_Tags e). ValidKey (kv_Key t) = None"
  shows "\<exists>i t x. CreateExperiment e s = (Inr i, t) \<and> i \<notin> keys e_id (experiments s) \<and>
    GetExperiment i t = (Inr x, t) \<and>
    exp_ID x = i \<and> exp_Name x = exp_Name e \<and>
    exp_ArtifactLocation x = (if exp_ArtifactLocation e = [] then ''mlflow-artifacts:/'' @ FormatInt i
                              else exp_ArtifactLocation e) \<and>
    exp_LifecycleStage x = or_default [] LifecycleActive (exp_LifecycleStage e) \<and>
    exp_CreationTime x = or_default 0 (clock s (clock_pos s)) (exp_CreationTime e) \<and>
    exp_LastUpdateTime x = or_default 0 (clock s (clock_pos s)) (exp_LastUpdateTime e) \<and>
    exp_WorkspaceID x = default_ws (exp_WorkspaceID e) \<and>
    map_of (kv_pairs (exp_Tags x)) = map_of (rev (kv_pairs (exp_Tags e))) \<and>
    sorted_wrt (<) (map kv_Key (exp_Tags x))"
proof -
  let ?i = "experiments_seq s + 1"
  let ?ts = "foldl (\<lambda>qs r. upsert et_pk et_upd r qs) (experiment_tags s) (et_rows ?i (exp_Tags e))"
  let ?r = "created_row e ?i (clock s (clock_pos s))"
  let ?t = "s\<lparr>clock_pos := Suc (clock_pos s), experiments_seq := ?i,
    experiments := experiments s @ [?r], experiment_tags := ?ts\<rparr>"
  have fresh: "?i \<notin> keys e_id (experiments s)"
    by (rule fresh_experiment_id [OF assms(1)])
  then have row: "first_row (\<lambda>r. e_id r = ?i) (experiments ?t) = Some ?r"
    by (simp add: first_row_append first_row_keys [symmetric]) (simp add: first_row_def created_row_def)
  have "pk et_pk (experiment_tags s)" using assms(1) by (simp add: db_ok_def experiment_tags_ok_def)
  then have d: "distinct (map et_pk ?ts)" unfolding pk_def by (rule experiment_tag.distinct_upserts)
  have "map_of (experiment_tag.listing ?ts ?i) k = map_of (rev (kv_pairs (exp_Tags e))) k" for k
    by (subst experiment_tag.map_of_listing [OF d], subst experiment_tag.get_upserts, subst map_of_et_rows)
      (simp add: fresh_experiment_tags [OF assms(1)] split: option.split)
  moreover have "map fst (experiment_tag.listing ?ts ?i) = map kv_Key (getExperimentTags ?i ?t)"
    by (simp add: experiment_tag.listing_def getExperimentTags_def)
  ultimately show ?thesis
    using fresh CreateExperiment_ok [OF assms] row experiment_tag.listing_sorted [OF d, of ?i]
    by (simp add: GetExperiment_def scanExperiment_def sem_simps created_row_def kv_pairs_getExperimentTags fun_eq_iff)
qed

theorem CreateExperiment_GetExperiment_witness:
  "\<exists>i t x. CreateExperiment \<lparr>exp_ID = 0, exp_Name = ''mnist'', exp_ArtifactLocation = [], exp_LifecycleStage = [],
      exp_CreationTime = 0, exp_LastUpdateTime = 0, exp_WorkspaceID = [],
      exp_Tags = [\<lparr>kv_Key = ''a'', kv_Value = ''1''\<rparr>, \<lparr>kv_Key = ''a'', kv_Value = ''2''\<rparr>]\<rparr> sample_db = (Inr i, t) \<and>
    GetExperiment i t = (Inr x, t) \<and> exp_Name x = ''mnist'' \<and> exp_WorkspaceID x = ''default'' \<and>
    exp_CreationTime x = 200 \<and> map_of (kv_pairs (exp_Tags x)) ''a'' = Some ''2''"
proof -
  let ?e = "\<lparr>exp_ID = 0, exp_Name = ''mnist'', exp_ArtifactLocation = [], exp_LifecycleStage = [],
      exp_CreationTime = 0, exp_LastUpdateTime = 0, exp_WorkspaceID = [],
      exp_Tags = [\<lparr>kv_Key = ''a'', kv_Value = ''1''\<rparr>, \<lparr>kv_Key = ''a'', kv_Value = ''2''\<rparr>]\<rparr>"
  have "ValidName (exp_Name ?e) 250 = None" "\<forall>t\<in>set (exp_Tags ?e). ValidKey (kv_Key t) = None"
    by (simp_all add: ValidName_def ValidKey_def runes_def is_control_def TrimSpace_def is_space_def)
  then show ?thesis
    using CreateExperiment_GetExperiment [OF db_ok_sample, of ?e]
    by (auto simp: default_ws_def or_default_def kv_pairs_def)
qed

end
