(* ===== verification/Runs.thy ===== *)
theory Runs
  imports Experiments
begin

text \<open>
  Runs, their tags and the time-travel event log (\<open>internal/store/sqlite.go\<close>, \<open>sqlite_events.go\<close>,
  \<open>sqlite_lineage.go\<close>): the statements on the tables \<open>runs\<close>, \<open>tags\<close> and \<open>events\<close>, and the methods
  that create, read and change a run. A method that changes a run writes the event that undoes the
  change in the same transaction. \<open>NewRunID()\<close> is random: its result is the argument \<open>newID\<close>.
\<close>

section \<open>Statements\<close>

text \<open>\<open>INSERT INTO runs\<close> without the column \<open>parent_run_id\<close>, which is NULL.\<close>

definition insert_runs :: "run_row \<Rightarrow> unit op" where
  "insert_runs r = stmt
     (\<lambda>s. if \<not> run_check r then Some ErrCheck
       else if has_key r_id (r_id r) (runs s) then Some ErrUnique
       else if \<not> has_key e_id (r_experiment_id r) (experiments s) then Some ErrForeignKey
       else None)
     (\<lambda>s. ((), s\<lparr>runs := runs s @ [r\<lparr>r_parent_run_id := None\<rparr>]\<rparr>))"

text \<open>\<open>UPDATE runs SET ... WHERE p\<close> on the columns the store changes.\<close>

record run_set =
  rs_status :: "string option"
  rs_end_time :: "int option"
  rs_name :: "string option"
  rs_lifecycle_stage :: "string option"
  rs_parent_run_id :: "string option"

definition no_run_set :: run_set where
  "no_run_set = \<lparr>rs_status = None, rs_end_time = None, rs_name = None, rs_lifecycle_stage = None,
     rs_parent_run_id = None\<rparr>"

definition set_null :: "'a option \<Rightarrow> 'a option \<Rightarrow> 'a option" where
  "set_null new old = (case new of None \<Rightarrow> old | Some x \<Rightarrow> Some x)"

lemma set_null_simps [simp]: "set_null None x = x" "set_null (Some y) x = Some y"
  by (simp_all add: set_null_def)

definition apply_run_set :: "run_set \<Rightarrow> run_row \<Rightarrow> run_row" where
  "apply_run_set u r = r\<lparr>
     r_status := set_col (rs_status u) (r_status r),
     r_end_time := set_null (rs_end_time u) (r_end_time r),
     r_name := set_null (rs_name u) (r_name r),
     r_lifecycle_stage := set_col (rs_lifecycle_stage u) (r_lifecycle_stage r),
     r_parent_run_id := set_null (rs_parent_run_id u) (r_parent_run_id r)\<rparr>"

definition update_runs :: "(run_row \<Rightarrow> bool) \<Rightarrow> run_set \<Rightarrow> nat op" where
  "update_runs p u = stmt
     (\<lambda>s. if list_ex (\<lambda>r. p r \<and> \<not> run_check (apply_run_set u r)) (runs s) then Some ErrCheck
       else (case rs_parent_run_id u of None \<Rightarrow> None
             | Some q \<Rightarrow> if list_ex p (runs s) \<and> \<not> has_key r_id q (runs s) then Some ErrForeignKey else None))
     (\<lambda>s. (count_where p (runs s), s\<lparr>runs := update_where p (apply_run_set u) (runs s)\<rparr>))"

definition t_upd :: "tag_row \<Rightarrow> tag_row \<Rightarrow> tag_row" where
  "t_upd old new = old\<lparr>t_value := t_value new\<rparr>"

interpretation tag: kv_table t_run_id t_key t_value t_upd
  by unfold_locales (simp_all add: t_upd_def)

definition upsert_tags :: "string \<Rightarrow> string \<Rightarrow> string \<Rightarrow> unit op" where
  "upsert_tags rid k v = stmt
     (\<lambda>s. if has_key r_id rid (runs s) then None else Some ErrForeignKey)
     (\<lambda>s. ((), s\<lparr>tags := upsert t_pk t_upd \<lparr>t_run_id = rid, t_key = k, t_value = v\<rparr> (tags s)\<rparr>))"

definition delete_tags :: "string \<Rightarrow> string \<Rightarrow> nat op" where
  "delete_tags rid k = stmt (\<lambda>s. None)
     (\<lambda>s. (count_where (\<lambda>t. t_run_id t = rid \<and> t_key t = k) (tags s),
       s\<lparr>tags := delete_where (\<lambda>t. t_run_id t = rid \<and> t_key t = k) (tags s)\<rparr>))"

definition insert_events :: "int \<Rightarrow> string \<Rightarrow> string \<Rightarrow> jval \<Rightarrow> unit op" where
  "insert_events ts kind rid payload = stmt
     (\<lambda>s. if kind \<in> event_kinds then None else Some ErrCheck)
     (\<lambda>s. ((), s\<lparr>events_seq := events_seq s + 1,
       events := events s @ [\<lparr>ev_id = events_seq s + 1, ev_ts_ms = ts, ev_kind = kind,
                              ev_entity_id = rid, ev_payload = payload\<rparr>]\<rparr>))"

section \<open>The event log\<close>

definition EventRunUpdate :: string where "EventRunUpdate = ''run_update''"
definition EventRunLifecycle :: string where "EventRunLifecycle = ''run_lifecycle''"
definition EventRunParent :: string where "EventRunParent = ''run_parent''"
definition EventTagSet :: string where "EventTagSet = ''tag_set''"
definition EventTagDelete :: string where "EventTagDelete = ''tag_delete''"

lemmas event_defs = EventRunUpdate_def EventRunLifecycle_def EventRunParent_def EventTagSet_def
  EventTagDelete_def

definition writeRunEvent :: "string \<Rightarrow> string \<Rightarrow> jval \<Rightarrow> unit op" where
  "writeRunEvent kind rid payload = bnd now (\<lambda>n. insert_events n kind rid payload)"

text \<open>The captured pre-state; \<open>None\<close> when the run does not exist.\<close>

definition before_of :: "run_row \<Rightarrow> jval" where
  "before_of r = JObj [
     (''status'', JStr (r_status r)),
     (''name'', JStr (coalesce (r_name r))),
     (''lifecycle_stage'', JStr (r_lifecycle_stage r)),
     (''parent_run_id'', JStr (coalesce (r_parent_run_id r))),
     (''end_time'', case r_end_time r of None \<Rightarrow> JNull | Some v \<Rightarrow> JInt v)]"

definition captureRunBefore :: "string \<Rightarrow> db \<Rightarrow> jval option" where
  "captureRunBefore rid s = map_option before_of (first_row (\<lambda>r. r_id r = rid) (runs s))"

definition readTagValue :: "string \<Rightarrow> string \<Rightarrow> db \<Rightarrow> string option" where
  "readTagValue rid k s =
     map_option t_value (first_row (\<lambda>t. t_run_id t = rid \<and> t_key t = k) (tags s))"

definition tag_payload :: "string \<Rightarrow> string \<Rightarrow> string option \<Rightarrow> jval" where
  "tag_payload k v before = JObj ([(''key'', JStr k), (''value'', JStr v)] @
     (case before of None \<Rightarrow> [] | Some b \<Rightarrow> [(''before'', JStr b)]))"

text \<open>\<open>if before != nil { writeRunEvent(... {"before": before}) }\<close>\<close>

definition write_before :: "string \<Rightarrow> string \<Rightarrow> jval option \<Rightarrow> unit op" where
  "write_before kind rid before =
     (case before of None \<Rightarrow> ret () | Some b \<Rightarrow> writeRunEvent kind rid (JObj [(''before'', b)]))"

section \<open>Methods\<close>

definition assertRunExists :: "string \<Rightarrow> unit op" where
  "assertRunExists rid =
     bnd (gets (\<lambda>s. first_row (\<lambda>r. r_id r = rid) (runs s))) (\<lambda>r. require (r \<noteq> None) ErrNotFound)"

definition parentTag :: string where
  "parentTag = ''mlflow.parentRunId''"

definition setParentRunID :: "string \<Rightarrow> string \<Rightarrow> unit op" where
  "setParentRunID rid parentID =
     (if parentID = [] then ret () else
      bnd (gets (captureRunBefore rid)) (\<lambda>before.
      bnd (update_runs (\<lambda>r. r_id r = rid) (no_run_set\<lparr>rs_parent_run_id := Some parentID\<rparr>)) (\<lambda>_.
      bnd (write_before EventRunParent rid before) (\<lambda>_.
      bnd (gets (readTagValue rid parentTag)) (\<lambda>tagBefore.
      bnd (upsert_tags rid parentTag parentID) (\<lambda>_.
      writeRunEvent EventTagSet rid (tag_payload parentTag parentID tagBefore)))))))"

definition syncParentRunIDFromTag :: "string \<Rightarrow> string \<Rightarrow> unit op" where
  "syncParentRunIDFromTag rid tagValue =
     bnd (gets (captureRunBefore rid)) (\<lambda>before.
     bnd (update_runs (\<lambda>r. r_id r = rid) (no_run_set\<lparr>rs_parent_run_id := Some tagValue\<rparr>)) (\<lambda>_.
     write_before EventRunParent rid before))"

text \<open>
  \<open>CreateRun\<close>. The result is the struct \<open>r\<close> points to after the call, with the defaults the method
  fills in.
\<close>

definition fill_run :: "string \<Rightarrow> Run \<Rightarrow> Run op" where
  "fill_run newID r0 =
     (let r1 = r0\<lparr>run_ID := or_default [] newID (run_ID r0),
                  run_Status := or_default [] StatusRunning (run_Status r0),
                  run_Kind := or_default [] KindClassic (run_Kind r0),
                  run_LifecycleStage := or_default [] LifecycleActive (run_LifecycleStage r0)\<rparr>
      in bnd (if run_StartTime r1 = 0 then bnd now (\<lambda>n. ret (r1\<lparr>run_StartTime := n\<rparr>)) else ret r1) (\<lambda>r2.
         ret (r2\<lparr>run_ArtifactURI := or_default [] (''mlflow-artifacts:/'' @ run_ID r2) (run_ArtifactURI r2)\<rparr>)))"

definition row_of_run :: "Run \<Rightarrow> run_row" where
  "row_of_run r = \<lparr>
     r_id = run_ID r, r_experiment_id = run_ExperimentID r, r_name = nilIfEmpty (run_Name r),
     r_status = run_Status r, r_start_time = run_StartTime r, r_end_time = run_EndTime r,
     r_artifact_uri = run_ArtifactURI r, r_lifecycle_stage = run_LifecycleStage r,
     r_user_id = nilIfEmpty (run_UserID r), r_source_type = nilIfEmpty (run_SourceType r),
     r_source_name = nilIfEmpty (run_SourceName r), r_run_kind = run_Kind r,
     r_parent_run_id = None\<rparr>"

definition mapInsertErr :: "err \<Rightarrow> err" where
  "mapInsertErr e =
     (if isUniqueViolation e then ErrAlreadyExists else if isFKViolation e then ErrNotFound else e)"

definition CreateRun :: "string \<Rightarrow> Run \<Rightarrow> Run op" where
  "CreateRun newID r0 =
     bnd (fill_run newID r0) (\<lambda>r.
     if run_ParentRunID r = []
     then bnd (map_err mapInsertErr (insert_runs (row_of_run r))) (\<lambda>_. ret r)
     else tx (
       bnd (map_err mapInsertErr (insert_runs (row_of_run r))) (\<lambda>_.
       bnd (map_err mapInsertErr (setParentRunID (run_ID r) (run_ParentRunID r))) (\<lambda>_.
       ret r))))"

definition run_of_row :: "run_row \<Rightarrow> Run" where
  "run_of_row r = \<lparr>
     run_ID = r_id r, run_ExperimentID = r_experiment_id r, run_Name = coalesce (r_name r),
     run_Status = r_status r, run_StartTime = r_start_time r, run_EndTime = r_end_time r,
     run_ArtifactURI = r_artifact_uri r, run_LifecycleStage = r_lifecycle_stage r,
     run_UserID = coalesce (r_user_id r), run_SourceType = coalesce (r_source_type r),
     run_SourceName = coalesce (r_source_name r), run_Kind = r_run_kind r,
     run_ParentRunID = coalesce (r_parent_run_id r)\<rparr>"

definition GetRun :: "string \<Rightarrow> Run op" where
  "GetRun rid =
     bnd (gets (\<lambda>s. first_row (\<lambda>r. r_id r = rid) (runs s))) (\<lambda>row.
     case row of None \<Rightarrow> throw ErrNotFound | Some r \<Rightarrow> ret (run_of_row r))"

text \<open>The join of a run with its experiment, restricted to one workspace.\<close>

definition in_workspace :: "string \<Rightarrow> db \<Rightarrow> run_row \<Rightarrow> bool" where
  "in_workspace ws s r \<longleftrightarrow>
     list_ex (\<lambda>e. e_id e = r_experiment_id r \<and> e_workspace_id e = ws) (experiments s)"

definition getRunInWorkspace :: "string \<Rightarrow> string \<Rightarrow> Run op" where
  "getRunInWorkspace rid ws =
     bnd (gets (\<lambda>s. first_row (\<lambda>r. r_id r = rid \<and> in_workspace ws s r) (runs s))) (\<lambda>row.
     case row of None \<Rightarrow> throw ErrNotFound | Some r \<Rightarrow> ret (run_of_row r))"

definition GetRunInWorkspace :: "string \<Rightarrow> string \<Rightarrow> Run op" where
  "GetRunInWorkspace rid ws = getRunInWorkspace rid (default_ws ws)"

definition UpdateRun :: "string \<Rightarrow> string option \<Rightarrow> int option \<Rightarrow> string option \<Rightarrow> unit op" where
  "UpdateRun rid status endTime name =
     bnd (require (case status of None \<Rightarrow> True | Some x \<Rightarrow> x \<in> run_statuses) ErrInvalidValue) (\<lambda>_.
     if status = None \<and> endTime = None \<and> name = None then ret () else
     bnd (gets (captureRunBefore rid)) (\<lambda>before.
     tx (
       bnd (update_runs (\<lambda>r. r_id r = rid)
             (no_run_set\<lparr>rs_status := status, rs_end_time := endTime, rs_name := name\<rparr>)) (\<lambda>n.
       bnd (require (n \<noteq> 0) ErrNotFound) (\<lambda>_.
       write_before EventRunUpdate rid before)))))"

definition SetRunLifecycle :: "string \<Rightarrow> string \<Rightarrow> unit op" where
  "SetRunLifecycle rid stage =
     bnd (require (stage = LifecycleActive \<or> stage = LifecycleDeleted) ErrInvalidValue) (\<lambda>_.
     bnd (gets (captureRunBefore rid)) (\<lambda>before.
     tx (
       bnd (update_runs (\<lambda>r. r_id r = rid) (no_run_set\<lparr>rs_lifecycle_stage := Some stage\<rparr>)) (\<lambda>n.
       bnd (require (n \<noteq> 0) ErrNotFound) (\<lambda>_.
       write_before EventRunLifecycle rid before)))))"

text \<open>An unknown parent is a foreign key violation, reported as not found.\<close>

definition parent_not_found :: "err \<Rightarrow> err" where
  "parent_not_found e = (if isFKViolation e then ErrNotFound else e)"

definition SetTag :: "string \<Rightarrow> KV \<Rightarrow> unit op" where
  "SetTag rid t =
     bnd (invalidValue (ValidKey (kv_Key t))) (\<lambda>_.
     bnd (assertRunExists rid) (\<lambda>_.
     bnd (gets (readTagValue rid (kv_Key t))) (\<lambda>before.
     tx (
       bnd (upsert_tags rid (kv_Key t) (kv_Value t)) (\<lambda>_.
       bnd (writeRunEvent EventTagSet rid (tag_payload (kv_Key t) (kv_Value t) before)) (\<lambda>_.
       if kv_Key t = parentTag \<and> kv_Value t \<noteq> []
       then map_err parent_not_found (syncParentRunIDFromTag rid (kv_Value t))
       else ret ()))))))"

text \<open>The last \<open>mlflow.parentRunId\<close> of the batch.\<close>

definition last_parent :: "KV list \<Rightarrow> string" where
  "last_parent ts = foldl (\<lambda>p t. if kv_Key t = parentTag then kv_Value t else p) [] ts"

definition SetTags :: "string \<Rightarrow> KV list \<Rightarrow> unit op" where
  "SetTags rid ts =
     bnd (assertRunExists rid) (\<lambda>_.
     bnd (gets (\<lambda>s. List.map_filter (\<lambda>t. map_option (Pair (kv_Key t)) (readTagValue rid (kv_Key t) s)) ts)) (\<lambda>beforeVals.
     tx (
       bnd (for_each (\<lambda>t.
              bnd (invalidValue (ValidKey (kv_Key t))) (\<lambda>_.
              upsert_tags rid (kv_Key t) (kv_Value t))) ts) (\<lambda>_.
       bnd (for_each (\<lambda>t.
              writeRunEvent EventTagSet rid
                (tag_payload (kv_Key t) (kv_Value t) (map_of beforeVals (kv_Key t)))) ts) (\<lambda>_.
       if last_parent ts \<noteq> []
       then map_err parent_not_found (syncParentRunIDFromTag rid (last_parent ts))
       else ret ())))))"

definition DeleteTag :: "string \<Rightarrow> string \<Rightarrow> unit op" where
  "DeleteTag rid k =
     bnd (gets (readTagValue rid k)) (\<lambda>before.
     tx (
       bnd (delete_tags rid k) (\<lambda>n.
       bnd (require (n \<noteq> 0) ErrNotFound) (\<lambda>_.
       case before of None \<Rightarrow> ret ()
       | Some v \<Rightarrow> writeRunEvent EventTagDelete rid (JObj [(''key'', JStr k), (''before'', JStr v)])))))"

definition GetTags :: "string \<Rightarrow> db \<Rightarrow> KV list" where
  "GetTags rid s =
     map (\<lambda>t. \<lparr>kv_Key = t_key t, kv_Value = t_value t\<rparr>)
       (sort_key t_key (filter (\<lambda>t. t_run_id t = rid) (tags s)))"

text \<open>
  \<open>ArchiveStaleRuns\<close>. \<open>archive_loop\<close> is the loop over the stale ids; its result is the ids whose
  update still matched.
\<close>

definition is_stale :: "int \<Rightarrow> run_row \<Rightarrow> bool" where
  "is_stale staleBefore r \<longleftrightarrow>
     r_status r = StatusRunning \<and> r_start_time r < staleBefore \<and> r_lifecycle_stage r = LifecycleActive"

definition archivedTag :: string where
  "archivedTag = ''lmf.auto_archived''"

definition staleValue :: string where
  "staleValue = ''stale''"

fun archive_loop :: "int \<Rightarrow> string list \<Rightarrow> string list op" where
  "archive_loop n [] = ret []"
| "archive_loop n (i # ids) =
     bnd (update_runs (\<lambda>r. r_id r = i \<and> r_status r = StatusRunning \<and> r_lifecycle_stage r = LifecycleActive)
           (no_run_set\<lparr>rs_status := Some StatusFailed, rs_end_time := Some n\<rparr>)) (\<lambda>cnt.
     if cnt = 0 then archive_loop n ids
     else bnd (upsert_tags i archivedTag staleValue) (\<lambda>_.
          bnd (archive_loop n ids) (\<lambda>rest. ret (i # rest))))"

definition ArchiveStaleRuns :: "int \<Rightarrow> nat op" where
  "ArchiveStaleRuns staleBefore =
     bnd now (\<lambda>n.
     bnd (gets (\<lambda>s. map r_id (filter (is_stale staleBefore) (runs s)))) (\<lambda>ids.
     if ids = [] then ret 0 else
     bnd (gets (\<lambda>s. (map (\<lambda>i. (i, captureRunBefore i s)) ids,
                     map (\<lambda>i. (i, readTagValue i archivedTag s)) ids))) (\<lambda>(beforeState, beforeTag).
     tx (
       bnd (archive_loop n ids) (\<lambda>archived.
       bnd (for_each (\<lambda>i.
              bnd (write_before EventRunUpdate i (Option.bind (map_of beforeState i) (\<lambda>b. b))) (\<lambda>_.
              writeRunEvent EventTagSet i
                (tag_payload archivedTag staleValue (Option.bind (map_of beforeTag i) (\<lambda>v. v))))) archived) (\<lambda>_.
       ret (length archived)))))))"

definition PruneEventsBefore :: "int \<Rightarrow> nat op" where
  "PruneEventsBefore beforeMs = stmt (\<lambda>s. None)
     (\<lambda>s. (count_where (\<lambda>e. ev_ts_ms e < beforeMs) (events s),
       s\<lparr>events := delete_where (\<lambda>e. ev_ts_ms e < beforeMs) (events s)\<rparr>))"

section \<open>Integrity\<close>

lemma run_ids_update [simp]: "keys r_id (update_where p (apply_run_set u) rs) = keys r_id rs"
  by (rule keys_update_where) (simp add: apply_run_set_def)

lemma keeps_insert_runs [keeps_intros]: "keeps db_ok (insert_runs r)"
  unfolding insert_runs_def
proof (rule keeps_stmt, goal_cases)
  case (1 s)
  let ?rs = "runs s @ [r\<lparr>r_parent_run_id := None\<rparr>]"
  from db_okD(5) [OF 1(1)] 1(2) have "runs_ok (keys e_id (experiments s)) ?rs"
    by (auto simp: runs_ok_def has_key_iff schema_rules run_check_def intro: fk_null_mono split: if_splits)
  moreover from db_okD(6-11) [OF 1(1)]
  have "metrics_ok (keys r_id ?rs) (metrics s) (metrics_latest s)" "params_ok (keys r_id ?rs) (params s)"
    "tags_ok (keys r_id ?rs) (tags s)" "notes_ok (keys r_id ?rs) (run_notes s)"
    "evals_ok (keys r_id ?rs) (evals s)" by (auto intro: ok_monos)
  moreover have "traces_ok (keys r_id ?rs) (traces s)"
    by (rule ok_monos(6) [OF db_okD(12) [OF 1(1)]]) auto
  moreover have "inputs_ok (keys r_id ?rs) (datasets s) (dataset_inputs_seq s) (dataset_inputs s) (dataset_input_tags s)"
    by (rule ok_monos(9) [OF db_okD(24) [OF 1(1)]]) auto
  moreover have "inputs_v2_ok (keys r_id ?rs) (keys d_id (datasets_v2 s)) (dataset_inputs_v2_seq s) (dataset_inputs_v2 s)"
    by (rule ok_monos(10) [OF db_okD(25) [OF 1(1)]]) auto
  ultimately show ?case using 1(1) by (simp add: db_ok_def)
qed

lemma keeps_update_runs [keeps_intros]: "keeps db_ok (update_runs p u)"
  unfolding update_runs_def
proof (rule keeps_stmt, goal_cases)
  case (1 s)
  let ?rs = "update_where p (apply_run_set u) (runs s)"
  note ok = db_okD(5) [OF 1(1)]
  from ok 1(2) have "chk run_check ?rs"
    by (auto simp: runs_ok_def chk_def update_where_def list_ex_iff split: if_splits)
  moreover from ok 1(2) have "fk_null r_parent_run_id ?rs (keys r_id (runs s))"
    by (fastforce simp: runs_ok_def fk_null_def set_update_where apply_run_set_def has_key_iff list_ex_iff
        split: if_splits option.splits)
  moreover from ok have "pk r_id ?rs" "fk r_experiment_id ?rs (keys e_id (experiments s))"
    by (simp_all add: runs_ok_def update_where_rules apply_run_set_def)
  ultimately have "runs_ok (keys e_id (experiments s)) ?rs" by (simp add: runs_ok_def)
  with 1(1) show ?case by (simp add: db_ok_def)
qed

lemma keeps_upsert_tags [keeps_intros]: "keeps db_ok (upsert_tags rid k v)"
  unfolding upsert_tags_def
  by (rule keeps_stmt) (auto simp: db_ok_def tags_ok_def has_key_iff t_upd_def
      intro!: pk_upsert fk_upsert split: if_splits)

lemma keeps_delete_tags [keeps_intros]: "keeps db_ok (delete_tags rid k)"
  unfolding delete_tags_def
  by (rule keeps_stmt) (simp add: db_ok_def tags_ok_def pk_delete_where fk_delete_where)

lemma keeps_insert_events [keeps_intros]: "keeps db_ok (insert_events ts kind rid pl)"
  unfolding insert_events_def
proof (rule keeps_stmt, goal_cases)
  case (1 s)
  from db_okD(9) [OF 1(1)] 1(2) below_fresh [of ev_id "events_seq s" "events s" "events_seq s + 1"]
  have "events_ok (events_seq s + 1) (events s @ [\<lparr>ev_id = events_seq s + 1, ev_ts_ms = ts, ev_kind = kind,
      ev_entity_id = rid, ev_payload = pl\<rparr>])"
    by (auto simp: events_ok_def schema_rules intro: below_mono split: if_splits)
  with 1(1) show ?case by (simp add: db_ok_def)
qed

lemma keeps_PruneEventsBefore [keeps_intros]: "keeps db_ok (PruneEventsBefore b)"
  unfolding PruneEventsBefore_def
  by (rule keeps_stmt) (simp add: db_ok_def events_ok_def pk_delete_where below_delete_where chk_delete_where)

lemma keeps_writeRunEvent [keeps_intros]: "keeps db_ok (writeRunEvent kind rid pl)"
  unfolding writeRunEvent_def by (intro keeps_intros)

lemma keeps_write_before [keeps_intros]: "keeps db_ok (write_before kind rid b)"
  unfolding write_before_def by (intro keeps_intros)

lemma keeps_assertRunExists [keeps_intros]: "keeps P (assertRunExists rid)"
  unfolding assertRunExists_def by (intro keeps_intros)

lemma keeps_setParentRunID [keeps_intros]: "keeps db_ok (setParentRunID rid p)"
  unfolding setParentRunID_def by (intro keeps_intros)

lemma keeps_syncParentRunIDFromTag [keeps_intros]: "keeps db_ok (syncParentRunIDFromTag rid v)"
  unfolding syncParentRunIDFromTag_def by (intro keeps_intros)

lemma keeps_CreateRun [keeps_intros]: "keeps db_ok (CreateRun newID r)"
  unfolding CreateRun_def fill_run_def by (intro keeps_intros)

lemma keeps_UpdateRun [keeps_intros]: "keeps db_ok (UpdateRun rid st et nm)"
  unfolding UpdateRun_def by (intro keeps_intros)

lemma keeps_SetRunLifecycle [keeps_intros]: "keeps db_ok (SetRunLifecycle rid st)"
  unfolding SetRunLifecycle_def by (intro keeps_intros)

lemma keeps_SetTag [keeps_intros]: "keeps db_ok (SetTag rid t)"
  unfolding SetTag_def by (intro keeps_intros)

lemma keeps_SetTags [keeps_intros]: "keeps db_ok (SetTags rid ts)"
  unfolding SetTags_def by (intro keeps_intros)

lemma keeps_DeleteTag [keeps_intros]: "keeps db_ok (DeleteTag rid k)"
  unfolding DeleteTag_def by (intro keeps_intros)

lemma keeps_archive_loop [keeps_intros]: "keeps db_ok (archive_loop n ids)"
  by (induction ids) (auto intro!: keeps_intros)

lemma keeps_ArchiveStaleRuns [keeps_intros]: "keeps db_ok (ArchiveStaleRuns b)"
  unfolding ArchiveStaleRuns_def by (auto intro!: keeps_intros)

end
