(* ===== verification/RunBehaviour.thy ===== *)
theory RunBehaviour
  imports Runs
begin

text \<open>
  What the run methods do, branch by branch: the state each one leaves when it succeeds, and that
  it leaves the tables as they were when it returns an error. The transactions make this hold
  also where an error arises after the first write.
\<close>

section \<open>Lookups after the statements\<close>

lemma first_row_update_where:
  "(\<And>r. r_id (f r) = r_id r) \<Longrightarrow>
    first_row (\<lambda>r. r_id r = x) (update_where p f rs) =
      map_option (\<lambda>r. if p r then f r else r) (first_row (\<lambda>r. r_id r = x) rs)"
  by (induction rs) (auto simp: first_row_def update_where_def)

lemma r_id_apply_run_set [simp]: "r_id (apply_run_set u r) = r_id r"
  by (simp add: apply_run_set_def)

lemma count_where_pos: "0 < count_where p rs \<longleftrightarrow> list_ex p rs"
  by (metis count_where_0 list_ex_iff not_gr_zero)

lemma run_present: "first_row (\<lambda>r. r_id r = x) (runs s) = Some r \<Longrightarrow> list_ex (\<lambda>r. r_id r = x) (runs s)"
  by (auto simp: list_ex_iff dest: first_row_Some)

lemma run_absent: "first_row (\<lambda>r. r_id r = x) (runs s) = None \<Longrightarrow> \<not> list_ex (\<lambda>r. r_id r = x) (runs s)"
  by (auto simp: list_ex_iff first_row_None)

lemma db_ok_run_check: "db_ok s \<Longrightarrow> r \<in> set (runs s) \<Longrightarrow> run_check r"
  using db_okD(5) [of s] by (simp add: runs_ok_def chk_def)

lemma unique_run:
  "db_ok s \<Longrightarrow> r \<in> set (runs s) \<Longrightarrow> first_row (\<lambda>y. r_id y = r_id r) (runs s) = Some r"
  using db_okD(5) [of s] by (intro first_row_unique [where k = r_id]) (auto simp: runs_ok_def pk_def)

lemma readTagValue_get: "readTagValue rid k s = tag.get (tags s) rid k"
  by (simp add: readTagValue_def tag.get_def tag.look_def)

lemma kv_pairs_GetTags: "kv_pairs (GetTags rid s) = tag.listing (tags s) rid"
  by (simp add: kv_pairs_def GetTags_def tag.listing_def)

lemma assertRunExists_apply [sem_simps]:
  "assertRunExists rid s = (if rid \<in> keys r_id (runs s) then (Inr (), s) else (Inl ErrNotFound, s))"
  using first_row_keys [of r_id rid "runs s"] by (auto simp: assertRunExists_def sem_simps)

lemma writeRunEvent_apply:
  "kind \<in> event_kinds \<Longrightarrow> writeRunEvent kind rid pl s =
    (Inr (), s\<lparr>clock_pos := Suc (clock_pos s), events_seq := events_seq s + 1,
      events := events s @ [\<lparr>ev_id = events_seq s + 1, ev_ts_ms = clock s (clock_pos s), ev_kind = kind,
                            ev_entity_id = rid, ev_payload = pl\<rparr>]\<rparr>)"
  by (simp add: writeRunEvent_def insert_events_def sem_simps)

lemma event_kinds_mem [simp]:
  "EventRunUpdate \<in> event_kinds" "EventRunLifecycle \<in> event_kinds" "EventRunParent \<in> event_kinds"
  "EventTagSet \<in> event_kinds" "EventTagDelete \<in> event_kinds"
  by (simp_all add: event_kinds_def event_defs)

text \<open>An update of one run by id that keeps the CHECK constraints.\<close>

definition run_updated :: "db \<Rightarrow> string \<Rightarrow> run_set \<Rightarrow> db" where
  "run_updated s rid u = s\<lparr>runs := update_where (\<lambda>r. r_id r = rid) (apply_run_set u) (runs s)\<rparr>"

lemma update_runs_by_id:
  assumes "db_ok s" and row: "first_row (\<lambda>r. r_id r = rid) (runs s) = Some r"
    and "run_check (apply_run_set u r)"
    and "\<And>q. rs_parent_run_id u = Some q \<Longrightarrow> q \<in> keys r_id (runs s)"
  shows "\<exists>n. update_runs (\<lambda>r. r_id r = rid) u s = (Inr (Suc n), run_updated s rid u)"
proof -
  have "\<not> list_ex (\<lambda>r. r_id r = rid \<and> \<not> run_check (apply_run_set u r)) (runs s)"
    using assms(2,3) unique_run [OF assms(1)] by (force simp: list_ex_iff)
  with assms(4) have "update_runs (\<lambda>r. r_id r = rid) u s =
      (Inr (count_where (\<lambda>r. r_id r = rid) (runs s)), run_updated s rid u)"
    by (auto simp: update_runs_def sem_simps has_key_iff run_updated_def split: option.split)
  moreover have "count_where (\<lambda>r. r_id r = rid) (runs s) \<noteq> 0"
    using row run_present count_where_pos by (metis gr_implies_not0)
  ultimately show ?thesis using not0_implies_Suc by fastforce
qed

lemma update_runs_absent:
  "first_row (\<lambda>r. r_id r = rid) (runs s) = None \<Longrightarrow> update_runs (\<lambda>r. r_id r = rid) u s = (Inr 0, s)"
  by (simp add: update_runs_def sem_simps list_ex_iff first_row_None count_where_def update_where_id
      split: option.split)

section \<open>Update and lifecycle\<close>

definition logged :: "db \<Rightarrow> string \<Rightarrow> string \<Rightarrow> jval \<Rightarrow> db" where
  "logged s kind rid pl = s\<lparr>clock_pos := Suc (clock_pos s), events_seq := events_seq s + 1,
      events := events s @ [\<lparr>ev_id = events_seq s + 1, ev_ts_ms = clock s (clock_pos s), ev_kind = kind,
                            ev_entity_id = rid, ev_payload = pl\<rparr>]\<rparr>"

lemma writeRunEvent_logged: "kind \<in> event_kinds \<Longrightarrow> writeRunEvent kind rid pl s = (Inr (), logged s kind rid pl)"
  by (simp add: writeRunEvent_apply logged_def)

lemma logged_simps [simp]:
  "runs (logged s kind rid pl) = runs s" "tags (logged s kind rid pl) = tags s"
  "clock (logged s kind rid pl) = clock s" "clock_pos (logged s kind rid pl) = Suc (clock_pos s)"
  "events_seq (logged s kind rid pl) = events_seq s + 1"
  by (simp_all add: logged_def)

abbreviation undo_payload :: "run_row \<Rightarrow> jval" where
  "undo_payload r \<equiv> JObj [(''before'', before_of r)]"

lemma UpdateRun_invalid:
  "status = Some x \<Longrightarrow> x \<notin> run_statuses \<Longrightarrow> UpdateRun rid status et nm s = (Inl ErrInvalidValue, s)"
  by (simp add: UpdateRun_def sem_simps)

lemma UpdateRun_nothing: "UpdateRun rid None None None s = (Inr (), s)"
  by (simp add: UpdateRun_def sem_simps)

lemma UpdateRun_missing:
  assumes "first_row (\<lambda>r. r_id r = rid) (runs s) = None"
    and "\<And>x. status = Some x \<Longrightarrow> x \<in> run_statuses" and "\<not> (status = None \<and> et = None \<and> nm = None)"
  shows "UpdateRun rid status et nm s = (Inl ErrNotFound, s)"
  using assms by (auto simp: UpdateRun_def sem_simps update_runs_absent split: option.split)

lemma UpdateRun_ok:
  assumes "db_ok s" and row: "first_row (\<lambda>r. r_id r = rid) (runs s) = Some r"
    and st: "\<And>x. status = Some x \<Longrightarrow> x \<in> run_statuses" and "\<not> (status = None \<and> et = None \<and> nm = None)"
  defines "u \<equiv> no_run_set\<lparr>rs_status := status, rs_end_time := et, rs_name := nm\<rparr>"
  shows "UpdateRun rid status et nm s = (Inr (), logged (run_updated s rid u) EventRunUpdate rid (undo_payload r))"
proof -
  have "run_check r" using assms(1) row by (auto dest: first_row_Some intro: db_ok_run_check)
  with st have "run_check (apply_run_set u r)"
    by (auto simp: run_check_def apply_run_set_def u_def no_run_set_def set_col_def split: option.split)
  moreover have "rs_parent_run_id u = None" by (simp add: u_def no_run_set_def)
  ultimately obtain n where "update_runs (\<lambda>r. r_id r = rid) u s = (Inr (Suc n), run_updated s rid u)"
    using update_runs_by_id [OF assms(1) row, of u] by auto
  moreover have "case status of None \<Rightarrow> True | Some x \<Rightarrow> x \<in> run_statuses"
    using st by (simp split: option.split)
  ultimately show ?thesis
    using assms(4) row unfolding u_def
    by (auto simp: UpdateRun_def sem_simps captureRunBefore_def write_before_def writeRunEvent_logged)
qed

lemma SetRunLifecycle_invalid:
  "stage \<noteq> LifecycleActive \<Longrightarrow> stage \<noteq> LifecycleDeleted \<Longrightarrow> SetRunLifecycle rid stage s = (Inl ErrInvalidValue, s)"
  by (simp add: SetRunLifecycle_def sem_simps)

lemma SetRunLifecycle_missing:
  assumes "first_row (\<lambda>r. r_id r = rid) (runs s) = None"
    and "stage = LifecycleActive \<or> stage = LifecycleDeleted"
  shows "SetRunLifecycle rid stage s = (Inl ErrNotFound, s)"
  using assms by (auto simp: SetRunLifecycle_def sem_simps update_runs_absent)

lemma SetRunLifecycle_ok:
  assumes "db_ok s" and row: "first_row (\<lambda>r. r_id r = rid) (runs s) = Some r"
    and st: "stage = LifecycleActive \<or> stage = LifecycleDeleted"
  defines "u \<equiv> no_run_set\<lparr>rs_lifecycle_stage := Some stage\<rparr>"
  shows "SetRunLifecycle rid stage s = (Inr (), logged (run_updated s rid u) EventRunLifecycle rid (undo_payload r))"
proof -
  have "run_check r" using assms(1) row by (auto dest: first_row_Some intro: db_ok_run_check)
  with st have "run_check (apply_run_set u r)"
    by (auto simp: run_check_def apply_run_set_def u_def no_run_set_def run_stages_def)
  moreover have "rs_parent_run_id u = None" by (simp add: u_def no_run_set_def)
  ultimately obtain n where "update_runs (\<lambda>r. r_id r = rid) u s = (Inr (Suc n), run_updated s rid u)"
    using update_runs_by_id [OF assms(1) row, of u] by auto
  then show ?thesis
    using st row unfolding u_def
    by (auto simp: SetRunLifecycle_def sem_simps captureRunBefore_def write_before_def writeRunEvent_logged)
qed

section \<open>Tags and the parent column\<close>

definition parent_set :: "string \<Rightarrow> run_set" where
  "parent_set p = no_run_set\<lparr>rs_parent_run_id := Some p\<rparr>"

lemma syncParentRunIDFromTag_ok:
  assumes "db_ok s" and row: "first_row (\<lambda>r. r_id r = rid) (runs s) = Some r" and "p \<in> keys r_id (runs s)"
  shows "syncParentRunIDFromTag rid p s =
    (Inr (), logged (run_updated s rid (parent_set p)) EventRunParent rid (undo_payload r))"
proof -
  have "run_check r" using assms(1) row by (auto dest: first_row_Some intro: db_ok_run_check)
  then have "run_check (apply_run_set (parent_set p) r)"
    by (simp add: run_check_def apply_run_set_def parent_set_def no_run_set_def)
  then obtain n where "update_runs (\<lambda>r. r_id r = rid) (parent_set p) s =
      (Inr (Suc n), run_updated s rid (parent_set p))"
    using update_runs_by_id [OF assms(1) row, of "parent_set p"] assms(3)
    by (auto simp: parent_set_def no_run_set_def)
  with row show ?thesis
    by (simp add: syncParentRunIDFromTag_def sem_simps captureRunBefore_def write_before_def
        writeRunEvent_logged parent_set_def)
qed

lemma syncParentRunIDFromTag_unknown:
  assumes "db_ok s" and row: "first_row (\<lambda>r. r_id r = rid) (runs s) = Some r" and "p \<notin> keys r_id (runs s)"
  shows "syncParentRunIDFromTag rid p s = (Inl ErrForeignKey, s)"
proof -
  have "run_check (apply_run_set (parent_set p) y)" if "y \<in> set (runs s)" for y
    using db_ok_run_check [OF assms(1) that]
    by (simp add: run_check_def apply_run_set_def parent_set_def no_run_set_def)
  then have "update_runs (\<lambda>r. r_id r = rid) (parent_set p) s = (Inl ErrForeignKey, s)"
    using run_present [OF row] assms(3)
    by (auto simp: update_runs_def sem_simps has_key_iff list_ex_iff parent_set_def no_run_set_def)
  then show ?thesis
    by (simp add: syncParentRunIDFromTag_def sem_simps parent_set_def)
qed

definition tag_upserted :: "db \<Rightarrow> string \<Rightarrow> string \<Rightarrow> string \<Rightarrow> db" where
  "tag_upserted s rid k v = s\<lparr>tags := upsert t_pk t_upd \<lparr>t_run_id = rid, t_key = k, t_value = v\<rparr> (tags s)\<rparr>"

lemma upsert_tags_apply:
  "rid \<in> keys r_id (runs s) \<Longrightarrow> upsert_tags rid k v s = (Inr (), tag_upserted s rid k v)"
  by (simp add: upsert_tags_def sem_simps has_key_iff tag_upserted_def)

lemma tag_upserted_simps [simp]:
  "runs (tag_upserted s rid k v) = runs s" "events (tag_upserted s rid k v) = events s"
  "clock (tag_upserted s rid k v) = clock s" "clock_pos (tag_upserted s rid k v) = clock_pos s"
  "events_seq (tag_upserted s rid k v) = events_seq s"
  by (simp_all add: tag_upserted_def)

lemma get_tag_upserted:
  "tag.get (tags (tag_upserted s rid k v)) x j = (if x = rid \<and> j = k then Some v else tag.get (tags s) x j)"
  using tag.get_upsert [of "\<lparr>t_run_id = rid, t_key = k, t_value = v\<rparr>" "tags s" x j]
  by (simp add: tag_upserted_def)

lemma db_ok_tag_upserted: "db_ok s \<Longrightarrow> rid \<in> keys r_id (runs s) \<Longrightarrow> db_ok (tag_upserted s rid k v)"
  using keepsD2 [OF keeps_upsert_tags _ upsert_tags_apply] by blast

lemma db_ok_logged: "db_ok s \<Longrightarrow> kind \<in> event_kinds \<Longrightarrow> db_ok (logged s kind rid pl)"
  using keepsD2 [OF keeps_writeRunEvent _ writeRunEvent_logged] by blast

definition tag_set_state :: "db \<Rightarrow> string \<Rightarrow> string \<Rightarrow> string \<Rightarrow> db" where
  "tag_set_state s rid k v =
     logged (tag_upserted s rid k v) EventTagSet rid (tag_payload k v (readTagValue rid k s))"

text \<open>\<open>SetTag\<close> on a run that exists, with a valid key.\<close>

lemma SetTag_plain:
  assumes "ValidKey (kv_Key t) = None" and "rid \<in> keys r_id (runs s)"
    and "\<not> (kv_Key t = parentTag \<and> kv_Value t \<noteq> [])"
  shows "SetTag rid t s = (Inr (), tag_set_state s rid (kv_Key t) (kv_Value t))"
  using assms
  by (auto simp: SetTag_def sem_simps upsert_tags_apply writeRunEvent_logged tag_set_state_def)

lemma SetTag_parent:
  assumes "db_ok s" and "ValidKey (kv_Key t) = None"
    and row: "first_row (\<lambda>r. r_id r = rid) (runs s) = Some r"
    and "kv_Key t = parentTag" and "kv_Value t \<noteq> []" and p: "kv_Value t \<in> keys r_id (runs s)"
  shows "SetTag rid t s = (Inr (), logged
    (run_updated (tag_set_state s rid (kv_Key t) (kv_Value t)) rid (parent_set (kv_Value t)))
    EventRunParent rid (undo_payload r))"
proof -
  let ?t = "tag_set_state s rid (kv_Key t) (kv_Value t)"
  have rid: "rid \<in> keys r_id (runs s)" using row first_row_keys [of r_id rid "runs s"] by auto
  have "db_ok ?t"
    unfolding tag_set_state_def by (intro db_ok_logged db_ok_tag_upserted assms(1) rid event_kinds_mem)
  then have "syncParentRunIDFromTag rid (kv_Value t) ?t =
      (Inr (), logged (run_updated ?t rid (parent_set (kv_Value t))) EventRunParent rid (undo_payload r))"
    by (rule syncParentRunIDFromTag_ok) (use row p in \<open>simp_all add: tag_set_state_def\<close>)
  with assms(2,4,5) rid show ?thesis
    by (simp add: SetTag_def sem_simps upsert_tags_apply writeRunEvent_logged tag_set_state_def)
qed

lemma SetTag_parent_unknown:
  assumes "db_ok s" and "ValidKey (kv_Key t) = None" and rid: "rid \<in> keys r_id (runs s)"
    and "kv_Key t = parentTag" and "kv_Value t \<noteq> []" and p: "kv_Value t \<notin> keys r_id (runs s)"
  shows "SetTag rid t s = (Inl ErrNotFound, s\<lparr>clock_pos := Suc (clock_pos s)\<rparr>)"
proof -
  let ?t = "tag_set_state s rid (kv_Key t) (kv_Value t)"
  obtain r where row: "first_row (\<lambda>r. r_id r = rid) (runs s) = Some r"
    using rid first_row_keys [of r_id rid "runs s"] by auto
  have "db_ok ?t"
    unfolding tag_set_state_def by (intro db_ok_logged db_ok_tag_upserted assms(1) rid event_kinds_mem)
  then have "syncParentRunIDFromTag rid (kv_Value t) ?t = (Inl ErrForeignKey, ?t)"
    by (rule syncParentRunIDFromTag_unknown) (use row p in \<open>simp_all add: tag_set_state_def\<close>)
  with assms(2,4,5) rid show ?thesis
    by (simp add: SetTag_def sem_simps upsert_tags_apply writeRunEvent_logged tag_set_state_def
        parent_not_found_def isFKViolation_def)
qed

lemma DeleteTag_ok:
  assumes "readTagValue rid k s = Some v"
  shows "DeleteTag rid k s = (Inr (), logged
    (s\<lparr>tags := delete_where (\<lambda>t. t_run_id t = rid \<and> t_key t = k) (tags s)\<rparr>)
    EventTagDelete rid (JObj [(''key'', JStr k), (''before'', JStr v)]))"
proof -
  from assms have "list_ex (\<lambda>t. t_run_id t = rid \<and> t_key t = k) (tags s)"
    by (auto simp: readTagValue_def list_ex_iff dest: first_row_Some)
  then have "count_where (\<lambda>t. t_run_id t = rid \<and> t_key t = k) (tags s) \<noteq> 0"
    using count_where_pos by (metis gr_implies_not0)
  with assms show ?thesis
    by (simp add: DeleteTag_def delete_tags_def sem_simps writeRunEvent_logged)
qed

lemma DeleteTag_missing:
  assumes "readTagValue rid k s = None"
  shows "DeleteTag rid k s = (Inl ErrNotFound, s)"
proof -
  from assms have "count_where (\<lambda>t. t_run_id t = rid \<and> t_key t = k) (tags s) = 0"
    by (simp add: readTagValue_def first_row_None count_where_0)
  with assms show ?thesis
    by (simp add: DeleteTag_def delete_tags_def sem_simps)
qed

section \<open>Batches\<close>

lemma tag_loop:
  assumes "\<forall>t\<in>set ts. ValidKey (kv_Key t) = None" and "rid \<in> keys r_id (runs s)"
  shows "for_each (\<lambda>t. bnd (invalidValue (ValidKey (kv_Key t))) (\<lambda>_. upsert_tags rid (kv_Key t) (kv_Value t))) ts s =
    (Inr (), foldl (\<lambda>u t. tag_upserted u rid (kv_Key t) (kv_Value t)) s ts)"
  using assms by (induction ts arbitrary: s) (simp_all add: sem_simps upsert_tags_apply)

lemma event_loop:
  "kind \<in> event_kinds \<Longrightarrow> for_each (\<lambda>t. writeRunEvent kind rid (f t)) ts s =
    (Inr (), foldl (\<lambda>u t. logged u kind rid (f t)) s ts)"
  by (induction ts arbitrary: s) (simp_all add: sem_simps writeRunEvent_logged)

lemma foldl_tag_upserted_simps [simp]:
  "runs (foldl (\<lambda>u t. tag_upserted u rid (f t) (g t)) s ts) = runs s"
  "events (foldl (\<lambda>u t. tag_upserted u rid (f t) (g t)) s ts) = events s"
  "events_seq (foldl (\<lambda>u t. tag_upserted u rid (f t) (g t)) s ts) = events_seq s"
  "clock (foldl (\<lambda>u t. tag_upserted u rid (f t) (g t)) s ts) = clock s"
  "clock_pos (foldl (\<lambda>u t. tag_upserted u rid (f t) (g t)) s ts) = clock_pos s"
  by (induction ts arbitrary: s) simp_all

lemma foldl_logged_simps [simp]:
  "runs (foldl (\<lambda>u t. logged u kind rid (f t)) s ts) = runs s"
  "tags (foldl (\<lambda>u t. logged u kind rid (f t)) s ts) = tags s"
  "clock (foldl (\<lambda>u t. logged u kind rid (f t)) s ts) = clock s"
  by (induction ts arbitrary: s) simp_all

lemma get_foldl_tag_upserted:
  "tag.get (tags (foldl (\<lambda>u t. tag_upserted u rid (kv_Key t) (kv_Value t)) s ts)) x k =
    (if x = rid then (case map_of (rev (kv_pairs ts)) k of Some v \<Rightarrow> Some v | None \<Rightarrow> tag.get (tags s) x k)
     else tag.get (tags s) x k)"
  by (induction ts arbitrary: s) (auto simp: get_tag_upserted kv_pairs_def map_add_def split: option.split)

lemma db_ok_foldl_tag_upserted:
  "db_ok s \<Longrightarrow> rid \<in> keys r_id (runs s) \<Longrightarrow> db_ok (foldl (\<lambda>u t. tag_upserted u rid (f t) (g t)) s ts)"
  by (induction ts arbitrary: s) (simp_all add: db_ok_tag_upserted)

lemma db_ok_foldl_logged:
  "db_ok s \<Longrightarrow> kind \<in> event_kinds \<Longrightarrow> db_ok (foldl (\<lambda>u t. logged u kind rid (f t)) s ts)"
  by (induction ts arbitrary: s) (simp_all add: db_ok_logged)

text \<open>The pre-values \<open>SetTags\<close> collects are the values of the tags before the batch.\<close>

lemma map_of_before:
  "map_of (List.map_filter (\<lambda>t. map_option (Pair (kv_Key t)) (f (kv_Key t))) ts) k =
    (if k \<in> kv_Key ` set ts then f k else None)"
  by (induction ts) (auto simp: List.map_filter_simps split: option.split)

definition tags_set_state :: "db \<Rightarrow> string \<Rightarrow> KV list \<Rightarrow> db" where
  "tags_set_state s rid ts =
     foldl (\<lambda>u t. logged u EventTagSet rid (tag_payload (kv_Key t) (kv_Value t) (readTagValue rid (kv_Key t) s)))
       (foldl (\<lambda>u t. tag_upserted u rid (kv_Key t) (kv_Value t)) s ts) ts"

lemma foldl_event_cong:
  "(\<And>t. t \<in> set ts \<Longrightarrow> f t = g t) \<Longrightarrow>
    foldl (\<lambda>u t. logged u kind rid (f t)) s ts = foldl (\<lambda>u t. logged u kind rid (g t)) s ts"
  by (rule foldl_cong) auto

lemma SetTags_body:
  assumes "\<forall>t\<in>set ts. ValidKey (kv_Key t) = None" and "rid \<in> keys r_id (runs s)"
  shows "SetTags rid ts s = tx (\<lambda>_.
    (if last_parent ts \<noteq> [] then map_err parent_not_found (syncParentRunIDFromTag rid (last_parent ts)) else ret ())
      (tags_set_state s rid ts)) s"
proof -
  let ?b = "List.map_filter (\<lambda>t. map_option (Pair (kv_Key t)) (readTagValue rid (kv_Key t) s)) ts"
  have "foldl (\<lambda>u t. logged u EventTagSet rid (tag_payload (kv_Key t) (kv_Value t) (map_of ?b (kv_Key t)))) u ts =
      foldl (\<lambda>u t. logged u EventTagSet rid (tag_payload (kv_Key t) (kv_Value t) (readTagValue rid (kv_Key t) s))) u ts" for u
    by (rule foldl_event_cong) (simp add: map_of_before [of "\<lambda>k. readTagValue rid k s" ts])
  with assms show ?thesis
    by (simp add: SetTags_def sem_simps tag_loop event_loop tags_set_state_def)
qed

lemma SetTags_plain:
  assumes "\<forall>t\<in>set ts. ValidKey (kv_Key t) = None" and "rid \<in> keys r_id (runs s)" and "last_parent ts = []"
  shows "SetTags rid ts s = (Inr (), tags_set_state s rid ts)"
  using SetTags_body [OF assms(1,2)] assms(3) by (simp add: sem_simps)

lemma SetTags_parent:
  assumes "db_ok s" and "\<forall>t\<in>set ts. ValidKey (kv_Key t) = None"
    and row: "first_row (\<lambda>r. r_id r = rid) (runs s) = Some r"
    and p: "last_parent ts \<noteq> []" "last_parent ts \<in> keys r_id (runs s)"
  shows "SetTags rid ts s = (Inr (), logged
    (run_updated (tags_set_state s rid ts) rid (parent_set (last_parent ts))) EventRunParent rid (undo_payload r))"
proof -
  let ?t = "tags_set_state s rid ts"
  have rid: "rid \<in> keys r_id (runs s)" using row first_row_keys [of r_id rid "runs s"] by auto
  have "db_ok ?t" unfolding tags_set_state_def
    by (intro db_ok_foldl_logged db_ok_foldl_tag_upserted assms(1) rid event_kinds_mem)
  then have "syncParentRunIDFromTag rid (last_parent ts) ?t =
      (Inr (), logged (run_updated ?t rid (parent_set (last_parent ts))) EventRunParent rid (undo_payload r))"
    by (rule syncParentRunIDFromTag_ok) (use row p in \<open>simp_all add: tags_set_state_def\<close>)
  with SetTags_body [OF assms(2) rid] p(1) show ?thesis by (simp add: sem_simps)
qed

lemma SetTags_parent_unknown:
  assumes "db_ok s" and "\<forall>t\<in>set ts. ValidKey (kv_Key t) = None"
    and row: "first_row (\<lambda>r. r_id r = rid) (runs s) = Some r"
    and p: "last_parent ts \<noteq> []" "last_parent ts \<notin> keys r_id (runs s)"
  shows "\<exists>t. SetTags rid ts s = (Inl ErrNotFound, t)"
proof -
  let ?t = "tags_set_state s rid ts"
  have rid: "rid \<in> keys r_id (runs s)" using row first_row_keys [of r_id rid "runs s"] by auto
  have "db_ok ?t" unfolding tags_set_state_def
    by (intro db_ok_foldl_logged db_ok_foldl_tag_upserted assms(1) rid event_kinds_mem)
  then have "syncParentRunIDFromTag rid (last_parent ts) ?t = (Inl ErrForeignKey, ?t)"
    by (rule syncParentRunIDFromTag_unknown) (use row p in \<open>simp_all add: tags_set_state_def\<close>)
  with SetTags_body [OF assms(2) rid] p(1) show ?thesis
    by (simp add: sem_simps parent_not_found_def isFKViolation_def)
qed

lemma tag_loop_invalid:
  assumes "rid \<in> keys r_id (runs s)" and "t \<in> set ts" and "ValidKey (kv_Key t) \<noteq> None"
  shows "\<exists>u. for_each (\<lambda>t. bnd (invalidValue (ValidKey (kv_Key t))) (\<lambda>_. upsert_tags rid (kv_Key t) (kv_Value t))) ts s =
    (Inl ErrInvalidValue, u)"
  using assms by (induction ts arbitrary: s) (auto simp: sem_simps upsert_tags_apply)

lemma SetTags_invalid_key:
  assumes "rid \<in> keys r_id (runs s)" and "t \<in> set ts" and "ValidKey (kv_Key t) \<noteq> None"
  shows "\<exists>u. SetTags rid ts s = (Inl ErrInvalidValue, u)"
  using tag_loop_invalid [OF assms] assms(1) by (auto simp: SetTags_def sem_simps)

lemma setParentRunID_ok:
  assumes "db_ok s" and row: "first_row (\<lambda>r. r_id r = rid) (runs s) = Some r"
    and p: "p \<noteq> []" "p \<in> keys r_id (runs s)"
  shows "setParentRunID rid p s = (Inr (),
    tag_set_state (logged (run_updated s rid (parent_set p)) EventRunParent rid (undo_payload r)) rid parentTag p)"
proof -
  let ?u = "logged (run_updated s rid (parent_set p)) EventRunParent rid (undo_payload r)"
  have "setParentRunID rid p s = bnd (syncParentRunIDFromTag rid p) (\<lambda>_.
      bnd (gets (readTagValue rid parentTag)) (\<lambda>tagBefore.
      bnd (upsert_tags rid parentTag p) (\<lambda>_.
      writeRunEvent EventTagSet rid (tag_payload parentTag p tagBefore)))) s"
    using p(1) by (auto simp: setParentRunID_def syncParentRunIDFromTag_def sem_simps split: prod.split sum.split)
  moreover have "rid \<in> keys r_id (runs ?u)"
    using row first_row_keys [of r_id rid "runs s"] by (auto simp: run_updated_def)
  ultimately show ?thesis
    using syncParentRunIDFromTag_ok [OF assms(1) row p(2)]
    by (simp add: sem_simps upsert_tags_apply writeRunEvent_logged tag_set_state_def)
qed

lemma fill_run_apply: "\<exists>n\<ge>clock_pos s. \<exists>r. fill_run newID r0 s = (Inr r, s\<lparr>clock_pos := n\<rparr>)"
proof (cases "run_StartTime r0 = 0")
  case True
  then show ?thesis by (intro exI [of _ "Suc (clock_pos s)"]) (simp add: fill_run_def Let_def sem_simps)
next
  case False
  then show ?thesis by (intro exI [of _ "clock_pos s"]) (simp add: fill_run_def Let_def sem_simps)
qed

lemma insert_runs_success:
  "insert_runs r s = (Inr x, t) \<Longrightarrow>
    t = s\<lparr>runs := runs s @ [r\<lparr>r_parent_run_id := None\<rparr>]\<rparr> \<and> r_id r \<notin> keys r_id (runs s)"
  by (simp add: insert_runs_def sem_simps has_key_iff split: if_splits)

lemma setParentRunID_unknown:
  assumes "db_ok s" and "first_row (\<lambda>r. r_id r = rid) (runs s) = Some r" and "p \<noteq> []" and "p \<notin> keys r_id (runs s)"
  shows "setParentRunID rid p s = (Inl ErrForeignKey, s)"
proof -
  have "setParentRunID rid p s = bnd (syncParentRunIDFromTag rid p) (\<lambda>_.
      bnd (gets (readTagValue rid parentTag)) (\<lambda>tagBefore.
      bnd (upsert_tags rid parentTag p) (\<lambda>_.
      writeRunEvent EventTagSet rid (tag_payload parentTag p tagBefore)))) s"
    using assms(3) by (auto simp: setParentRunID_def syncParentRunIDFromTag_def sem_simps split: prod.split sum.split)
  then show ?thesis using syncParentRunIDFromTag_unknown [OF assms(1,2,4)] by (simp add: bnd_err)
qed

text \<open>The state after the insert of a run, and after its parent is recorded.\<close>

definition run_inserted :: "db \<Rightarrow> nat \<Rightarrow> Run \<Rightarrow> db" where
  "run_inserted s n r = s\<lparr>clock_pos := n, runs := runs s @ [row_of_run r]\<rparr>"

definition parent_recorded :: "db \<Rightarrow> Run \<Rightarrow> db" where
  "parent_recorded u r =
     tag_set_state (logged (run_updated u (run_ID r) (parent_set (run_ParentRunID r))) EventRunParent (run_ID r)
       (undo_payload (row_of_run r))) (run_ID r) parentTag (run_ParentRunID r)"

text \<open>A successful \<open>CreateRun\<close> appends one run and, with a parent, records it for that run.\<close>

lemma CreateRun_success:
  assumes "db_ok s" and c: "CreateRun newID r0 s = (Inr r, t)"
  shows "\<exists>n\<ge>clock_pos s. db_ok (run_inserted s n r) \<and> run_ID r \<notin> keys r_id (runs s) \<and>
    (if run_ParentRunID r = [] then t = run_inserted s n r
     else run_ParentRunID r \<in> keys r_id (runs (run_inserted s n r)) \<and> t = parent_recorded (run_inserted s n r) r)"
proof -
  obtain n r1 where n: "clock_pos s \<le> n" and fill: "fill_run newID r0 s = (Inr r1, s\<lparr>clock_pos := n\<rparr>)"
    using fill_run_apply by blast
  let ?s1 = "s\<lparr>clock_pos := n\<rparr>" and ?u = "run_inserted s n r1"
  have ok1: "db_ok ?s1" using assms(1) clockless_db_ok by (simp add: clockless_def)
  obtain w where ins: "insert_runs (row_of_run r1) ?s1 = (Inr (), w)"
    using c by (cases "insert_runs (row_of_run r1) ?s1"; cases "fst (insert_runs (row_of_run r1) ?s1)")
      (auto simp: CreateRun_def sem_simps fill split: if_splits)
  have w: "w = ?u" and fresh: "run_ID r1 \<notin> keys r_id (runs s)"
    using insert_runs_success [OF ins] by (simp_all add: run_inserted_def row_of_run_def)
  have ok: "db_ok ?u" using keepsD2 [OF keeps_insert_runs ok1 ins] w by simp
  have row: "first_row (\<lambda>y. r_id y = run_ID r1) (runs ?u) = Some (row_of_run r1)"
    using fresh first_row_keys [of r_id "run_ID r1" "runs s"]
    by (simp add: first_row_append run_inserted_def) (simp add: first_row_def row_of_run_def)
  show ?thesis
  proof (cases "run_ParentRunID r1 = []")
    case True
    with c have "r = r1" "t = ?u" by (auto simp: CreateRun_def sem_simps fill ins w)
    with True n ok fresh show ?thesis by auto
  next
    case False
    have par: "run_ParentRunID r1 \<in> keys r_id (runs ?u)"
    proof (rule ccontr)
      assume "run_ParentRunID r1 \<notin> keys r_id (runs ?u)"
      with c False show False
        by (simp add: CreateRun_def sem_simps fill ins w setParentRunID_unknown [OF ok row False])
    qed
    with False c have "r = r1" "t = parent_recorded ?u r1"
      using setParentRunID_ok [OF ok row False par]
      by (auto simp: CreateRun_def sem_simps fill ins w parent_recorded_def)
    with False n ok fresh par show ?thesis by auto
  qed
qed

section \<open>Errors leave the data alone\<close>

text \<open>Two states with the same tables; only the clock may have advanced.\<close>

definition same_data :: "db \<Rightarrow> db \<Rightarrow> bool" where
  "same_data s t \<longleftrightarrow> t = s\<lparr>clock_pos := clock_pos t\<rparr>"

definition atomic :: "'a op \<Rightarrow> bool" where
  "atomic m \<longleftrightarrow> (\<forall>s e t. m s = (Inl e, t) \<longrightarrow> same_data s t)"

definition readonly :: "'a op \<Rightarrow> bool" where
  "readonly m \<longleftrightarrow> (\<forall>s. same_data s (snd (m s)))"

named_theorems atomic_intros "rules for atomic and readonly"

lemma same_data_refl [simp]: "same_data s s"
  by (simp add: same_data_def)

lemma same_data_trans: "same_data s t \<Longrightarrow> same_data t u \<Longrightarrow> same_data s u"
  unfolding same_data_def by (cases s, cases t, cases u) simp

lemma atomic_tx [atomic_intros]: "atomic (tx m)"
  by (auto simp: atomic_def sem_simps same_data_def split: prod.splits sum.splits)

lemma atomic_stmt [atomic_intros]: "atomic (stmt c f)"
  by (auto simp: atomic_def sem_simps split: option.splits)

lemma atomic_map_err [atomic_intros]: "atomic m \<Longrightarrow> atomic (map_err g m)"
  by (force simp: atomic_def sem_simps split: prod.splits sum.splits)

text \<open>Reads in front of an atomic step, and total steps after one.\<close>

lemma atomic_bnd [atomic_intros]: "readonly m \<Longrightarrow> (\<And>x. atomic (f x)) \<Longrightarrow> atomic (bnd m f)"
  unfolding atomic_def
proof (intro allI impI, goal_cases)
  case (1 s e t)
  obtain r u where m: "m s = (r, u)" by fastforce
  with 1(1) have "same_data s u" unfolding readonly_def by (metis snd_conv)
  with 1 m show ?case by (cases r) (auto simp: sem_simps intro: same_data_trans)
qed

lemma atomic_bnd_ret [atomic_intros]: "atomic m \<Longrightarrow> atomic (bnd m (\<lambda>x. ret (f x)))"
  by (auto simp: atomic_def sem_simps split: prod.splits sum.splits)

lemma readonly_gets [atomic_intros]: "readonly (gets f)"
  by (simp add: readonly_def sem_simps)

lemma readonly_ret [atomic_intros]: "readonly (ret x)"
  by (simp add: readonly_def sem_simps)

lemma readonly_now [atomic_intros]: "readonly now"
  by (simp add: readonly_def sem_simps same_data_def)

lemma readonly_require [atomic_intros]: "readonly (require b e)"
  by (simp add: readonly_def sem_simps)

lemma readonly_invalidValue [atomic_intros]: "readonly (invalidValue v)"
  by (simp add: readonly_def sem_simps)

lemma readonly_assertRunExists [atomic_intros]: "readonly (assertRunExists rid)"
  by (simp add: readonly_def sem_simps)

lemma readonly_bnd [atomic_intros]: "readonly m \<Longrightarrow> (\<And>x. readonly (f x)) \<Longrightarrow> readonly (bnd m f)"
  unfolding readonly_def
proof (intro allI, goal_cases)
  case (1 s)
  obtain r u where m: "m s = (r, u)" by fastforce
  with 1(1) have "same_data s u" by (metis snd_conv)
  with 1(2) m show ?case by (cases r) (auto simp: sem_simps intro: same_data_trans)
qed

lemma readonly_if [atomic_intros]: "readonly m \<Longrightarrow> readonly n \<Longrightarrow> readonly (if b then m else n)"
  by simp

lemma readonly_atomic: "readonly m \<Longrightarrow> atomic m"
  unfolding readonly_def atomic_def by (metis snd_conv)

lemma atomic_if [atomic_intros]: "atomic m \<Longrightarrow> atomic n \<Longrightarrow> atomic (if b then m else n)"
  by simp

lemma atomic_ret [atomic_intros]: "atomic (ret x)"
  by (simp add: atomic_def sem_simps)

lemma atomic_UpdateRun: "atomic (UpdateRun rid st et nm)"
  unfolding UpdateRun_def by (intro atomic_intros)

lemma atomic_SetRunLifecycle: "atomic (SetRunLifecycle rid st)"
  unfolding SetRunLifecycle_def by (intro atomic_intros)

lemma atomic_SetTag: "atomic (SetTag rid t)"
  unfolding SetTag_def by (intro atomic_intros)

lemma atomic_SetTags: "atomic (SetTags rid ts)"
  unfolding SetTags_def by (intro atomic_intros)

lemma atomic_DeleteTag: "atomic (DeleteTag rid k)"
  unfolding DeleteTag_def by (intro atomic_intros)

lemma readonly_fill_run [atomic_intros]: "readonly (fill_run newID r)"
  unfolding fill_run_def Let_def by (intro atomic_intros)

lemma atomic_CreateRun: "atomic (CreateRun newID r)"
  unfolding CreateRun_def insert_runs_def by (intro atomic_intros)

lemma atomic_ArchiveStaleRuns: "atomic (ArchiveStaleRuns b)"
  unfolding ArchiveStaleRuns_def split_def by (intro atomic_intros)

section \<open>Properties of single calls\<close>

lemma GetRun_apply:
  "GetRun rid s = (case first_row (\<lambda>r. r_id r = rid) (runs s) of None \<Rightarrow> Inl ErrNotFound | Some r \<Rightarrow> Inr (run_of_row r), s)"
  by (simp add: GetRun_def sem_simps split: option.split)

text \<open>
  An update of a run that exists sets the given fields, leaves the others, the other runs
  and all tags as they were, and appends one event.
\<close>

theorem UpdateRun_GetRun:
  assumes "db_ok s" and "GetRun rid s = (Inr r, s)" and "\<forall>x. status = Some x \<longrightarrow> x \<in> run_statuses"
    and "status \<noteq> None \<or> et \<noteq> None \<or> nm \<noteq> None"
  shows "\<exists>t. UpdateRun rid status et nm s = (Inr (), t) \<and>
    GetRun rid t = (Inr (r\<lparr>run_Status := set_col status (run_Status r), run_EndTime := set_null et (run_EndTime r),
                          run_Name := set_col nm (run_Name r)\<rparr>), t) \<and>
    (\<forall>x. x \<noteq> rid \<longrightarrow> fst (GetRun x t) = fst (GetRun x s)) \<and> tags t = tags s \<and> length (events t) = length (events s) + 1"
proof -
  obtain q where q: "first_row (\<lambda>r. r_id r = rid) (runs s) = Some q" "r = run_of_row q"
    using assms(2) by (auto simp: GetRun_apply split: option.splits)
  have id: "r_id q = rid" using first_row_Some [OF q(1)] by simp
  let ?u = "no_run_set\<lparr>rs_status := status, rs_end_time := et, rs_name := nm\<rparr>"
  have other: "map_option (\<lambda>r. if r_id r = rid then apply_run_set ?u r else r) (first_row (\<lambda>r. r_id r = x) (runs s)) =
      first_row (\<lambda>r. r_id r = x) (runs s)" if "x \<noteq> rid" for x
    using that by (cases "first_row (\<lambda>r. r_id r = x) (runs s)") (auto dest: first_row_Some)
  have row: "run_of_row (apply_run_set ?u q) = r\<lparr>run_Status := set_col status (run_Status r),
      run_EndTime := set_null et (run_EndTime r), run_Name := set_col nm (run_Name r)\<rparr>"
    unfolding q(2) by (cases nm) (simp_all add: run_of_row_def apply_run_set_def no_run_set_def)
  show ?thesis
    using UpdateRun_ok [OF assms(1) q(1), of status et nm] assms(3,4) q(1) id row other
    by (auto simp: GetRun_apply run_updated_def first_row_update_where logged_def)
qed

theorem UpdateRun_GetRun_witness:
  "\<exists>t. UpdateRun ''r1'' (Some ''FINISHED'') (Some 200) None sample_db = (Inr (), t) \<and>
    GetRun ''r1'' t = (Inr ((run_of_row (sample_run ''r1'' None))\<lparr>run_Status := ''FINISHED'', run_EndTime := Some 200\<rparr>), t)"
proof -
  have "GetRun ''r1'' sample_db = (Inr (run_of_row (sample_run ''r1'' None)), sample_db)"
    by (simp add: GetRun_apply first_row_def sample_run_def)
  from UpdateRun_GetRun [OF db_ok_sample this, of "Some ''FINISHED''" "Some 200" None] show ?thesis
    by (auto simp: run_statuses_def status_defs)
qed

text \<open>
  After a successful \<open>SetTag\<close>, \<open>GetTags\<close> of the run shows the value under its key, in key order;
  every other tag of every run is as before.
\<close>

theorem SetTag_GetTags:
  assumes "db_ok s" and "SetTag rid t s = (Inr (), u)"
  shows "map_of (kv_pairs (GetTags x u)) k =
      (if x = rid \<and> k = kv_Key t then Some (kv_Value t) else map_of (kv_pairs (GetTags x s)) k) \<and>
    sorted_wrt (<) (map kv_Key (GetTags x u))"
proof -
  have valid: "ValidKey (kv_Key t) = None" and rid: "rid \<in> keys r_id (runs s)"
    using assms(2) by (auto simp: SetTag_def sem_simps split: if_splits)
  then obtain q where row: "first_row (\<lambda>r. r_id r = rid) (runs s) = Some q"
    using first_row_keys [of r_id rid "runs s"] by auto
  have "tags u = tags (tag_upserted s rid (kv_Key t) (kv_Value t))"
  proof (cases "kv_Key t = parentTag \<and> kv_Value t \<noteq> []")
    case False
    from SetTag_plain [OF valid rid False] assms(2) show ?thesis by (auto simp: tag_set_state_def)
  next
    case True
    then have "kv_Value t \<in> keys r_id (runs s)"
      using SetTag_parent_unknown [OF assms(1) valid rid] assms(2) by auto
    from SetTag_parent [OF assms(1) valid row _ _ this] True assms(2) show ?thesis
      by (auto simp: tag_set_state_def run_updated_def)
  qed
  then have get: "tag.get (tags u) x k = (if x = rid \<and> k = kv_Key t then Some (kv_Value t) else tag.get (tags s) x k)"
    by (simp add: get_tag_upserted)
  have "db_ok u" by (rule keepsD2 [OF keeps_SetTag assms])
  then have d: "distinct (map t_pk (tags u))" "distinct (map t_pk (tags s))"
    using db_okD(8) [of u] db_okD(8) [OF assms(1)] by (simp_all add: tags_ok_def pk_def)
  have "map kv_Key (GetTags x u) = map fst (tag.listing (tags u) x)"
    by (simp add: GetTags_def tag.listing_def)
  then show ?thesis
    using get tag.listing_sorted [OF d(1), of x] by (simp add: kv_pairs_GetTags tag.map_of_listing d)
qed

theorem SetTag_GetTags_witness:
  "\<exists>u. SetTag ''r1'' \<lparr>kv_Key = ''owner'', kv_Value = ''bo''\<rparr> sample_db = (Inr (), u) \<and>
    map_of (kv_pairs (GetTags ''r1'' u)) ''owner'' = Some ''bo'' \<and> map_of (kv_pairs (GetTags ''r1'' u)) ''team'' = Some ''a''"
proof -
  have "ValidKey ''owner'' = None"
    by (simp add: ValidName_def ValidKey_def runes_def is_control_def TrimSpace_def is_space_def)
  then obtain u where u: "SetTag ''r1'' \<lparr>kv_Key = ''owner'', kv_Value = ''bo''\<rparr> sample_db = (Inr (), u)"
    using SetTag_plain [of "\<lparr>kv_Key = ''owner'', kv_Value = ''bo''\<rparr>" "''r1''" sample_db]
    by (auto simp: sample_run_def parentTag_def)
  have "map_of (kv_pairs (GetTags ''r1'' sample_db)) ''team'' = Some ''a''"
    by (simp add: GetTags_def kv_pairs_def)
  with u SetTag_GetTags [OF db_ok_sample u, of "''r1''" "''owner''"] SetTag_GetTags [OF db_ok_sample u, of "''r1''" "''team''"]
  show ?thesis by auto
qed

end
