(* ===== verification/Janitor.thy ===== *)
theory Janitor
  imports RunBehaviour
begin

text \<open>
  \<open>ArchiveStaleRuns\<close> (\<open>internal/store/sqlite_lineage.go\<close>), the job of the janitor
  (\<open>internal/server/janitor.go\<close>): exactly the active running runs that started before the bound
  become FAILED with the current time as their end, carry the tag \<open>lmf.auto_archived\<close>, and have
  one event for each of the two changes; the other runs stay as they were.
\<close>

definition archive_set :: "int \<Rightarrow> run_set" where
  "archive_set n = no_run_set\<lparr>rs_status := Some StatusFailed, rs_end_time := Some n\<rparr>"

definition archived_one :: "int \<Rightarrow> db \<Rightarrow> string \<Rightarrow> db" where
  "archived_one n s i = tag_upserted (run_updated s i (archive_set n)) i archivedTag staleValue"

definition archived_all :: "int \<Rightarrow> db \<Rightarrow> string list \<Rightarrow> db" where
  "archived_all n s ids = foldl (archived_one n) s ids"

definition stale_row :: "run_row \<Rightarrow> bool" where
  "stale_row r \<longleftrightarrow> r_status r = StatusRunning \<and> r_lifecycle_stage r = LifecycleActive"

lemma apply_archive_set: "apply_run_set (archive_set n) r = r\<lparr>r_status := StatusFailed, r_end_time := Some n\<rparr>"
  by (simp add: apply_run_set_def archive_set_def no_run_set_def)

lemma run_check_archived: "run_check r \<Longrightarrow> run_check (apply_run_set (archive_set n) r)"
  by (simp add: apply_archive_set run_check_def run_statuses_def)

text \<open>The guarded update of one stale run.\<close>

lemma archive_update:
  assumes "db_ok s" and row: "first_row (\<lambda>r. r_id r = i) (runs s) = Some r" and "stale_row r"
  shows "\<exists>c. update_runs (\<lambda>r. r_id r = i \<and> r_status r = StatusRunning \<and> r_lifecycle_stage r = LifecycleActive)
      (archive_set n) s = (Inr (Suc c), run_updated s i (archive_set n))"
proof -
  let ?p = "\<lambda>r. r_id r = i \<and> r_status r = StatusRunning \<and> r_lifecycle_stage r = LifecycleActive"
  have uniq: "y = r" if "y \<in> set (runs s)" "r_id y = i" for y
    using unique_run [OF assms(1) that(1)] that(2) row by simp
  have eq: "update_where ?p f (runs s) = update_where (\<lambda>r. r_id r = i) f (runs s)" for f
    using assms(3) uniq unfolding update_where_def stale_row_def by (intro map_cong) auto
  have "\<not> list_ex (\<lambda>r. ?p r \<and> \<not> run_check (apply_run_set (archive_set n) r)) (runs s)"
    using db_ok_run_check [OF assms(1)] run_check_archived by (auto simp: list_ex_iff)
  moreover have "rs_parent_run_id (archive_set n) = None" by (simp add: archive_set_def no_run_set_def)
  moreover have "list_ex ?p (runs s)"
    using first_row_Some [OF row] assms(3) by (auto simp: list_ex_iff stale_row_def)
  then have "count_where ?p (runs s) \<noteq> 0" using count_where_pos by (metis gr_implies_not0)
  ultimately show ?thesis
    by (auto simp: update_runs_def sem_simps eq run_updated_def intro: not0_implies_Suc)
qed

lemma run_ids_run_updated [simp]: "keys r_id (runs (run_updated s i u)) = keys r_id (runs s)"
  by (simp add: run_updated_def)

lemma row_run_updated:
  "first_row (\<lambda>r. r_id r = x) (runs (run_updated s i u)) =
    map_option (\<lambda>r. if r_id r = i then apply_run_set u r else r) (first_row (\<lambda>r. r_id r = x) (runs s))"
  unfolding run_updated_def by (simp add: first_row_update_where)

lemma db_ok_archived_one:
  assumes "db_ok s" and "first_row (\<lambda>r. r_id r = i) (runs s) = Some r"
  shows "db_ok (archived_one n s i)"
proof -
  have "run_check (apply_run_set (archive_set n) r)"
    using assms by (auto dest: first_row_Some intro: run_check_archived db_ok_run_check)
  then have "\<exists>c. update_runs (\<lambda>r. r_id r = i) (archive_set n) s = (Inr (Suc c), run_updated s i (archive_set n))"
    using update_runs_by_id [OF assms, of "archive_set n"] by (simp add: archive_set_def no_run_set_def)
  then have "db_ok (run_updated s i (archive_set n))"
    using keepsD2 [OF keeps_update_runs assms(1)] by blast
  moreover have "i \<in> keys r_id (runs s)" using assms(2) first_row_keys [of r_id i "runs s"] by auto
  ultimately show ?thesis unfolding archived_one_def by (simp add: db_ok_tag_upserted)
qed

lemma archive_loop_ok:
  assumes "db_ok s" and "distinct ids"
    and "\<forall>i\<in>set ids. \<exists>r. first_row (\<lambda>r. r_id r = i) (runs s) = Some r \<and> stale_row r"
  shows "archive_loop n ids s = (Inr ids, archived_all n s ids)"
  using assms
proof (induction ids arbitrary: s)
  case Nil
  then show ?case by (simp add: sem_simps archived_all_def)
next
  case (Cons i ids)
  from Cons.prems(3) obtain r where row: "first_row (\<lambda>r. r_id r = i) (runs s) = Some r" "stale_row r" by auto
  then obtain c where u: "update_runs (\<lambda>r. r_id r = i \<and> r_status r = StatusRunning \<and> r_lifecycle_stage r = LifecycleActive)
      (archive_set n) s = (Inr (Suc c), run_updated s i (archive_set n))"
    using archive_update [OF Cons.prems(1)] by blast
  have i: "i \<in> keys r_id (runs s)" using row(1) first_row_keys [of r_id i "runs s"] by auto
  have "archive_loop n ids (archived_one n s i) = (Inr ids, archived_all n (archived_one n s i) ids)"
  proof (rule Cons.IH)
    show "db_ok (archived_one n s i)" by (rule db_ok_archived_one [OF Cons.prems(1) row(1)])
    show "\<forall>j\<in>set ids. \<exists>r. first_row (\<lambda>r. r_id r = j) (runs (archived_one n s i)) = Some r \<and> stale_row r"
    proof
      fix j assume "j \<in> set ids"
      with Cons.prems(2,3) obtain q where q: "first_row (\<lambda>r. r_id r = j) (runs s) = Some q" "stale_row q" and "j \<noteq> i"
        by auto
      with first_row_Some [OF q(1)]
      show "\<exists>r. first_row (\<lambda>r. r_id r = j) (runs (archived_one n s i)) = Some r \<and> stale_row r"
        by (simp add: archived_one_def row_run_updated)
    qed
  qed (use Cons.prems(2) in simp)
  with u i show ?case
    by (simp add: sem_simps archive_set_def [symmetric] upsert_tags_apply archived_one_def [symmetric] archived_all_def)
qed

text \<open>The states after the loop and after the events.\<close>

definition archive_events :: "db \<Rightarrow> string \<Rightarrow> (string \<times> jval) list" where
  "archive_events s i =
     [(EventRunUpdate, JObj [(''before'', the (captureRunBefore i s))]),
      (EventTagSet, tag_payload archivedTag staleValue (readTagValue i archivedTag s))]"

definition archive_logged :: "db \<Rightarrow> db \<Rightarrow> string \<Rightarrow> db" where
  "archive_logged s u i = foldl (\<lambda>w (k, pl). logged w k i pl) u (archive_events s i)"

lemma map_of_tabulate: "i \<in> set ids \<Longrightarrow> map_of (map (\<lambda>j. (j, f j)) ids) i = Some (f i)"
  by (induction ids) auto

lemma archive_event_loop:
  assumes "\<forall>i\<in>set js. i \<in> set ids \<and> i \<in> keys r_id (runs s)"
  shows "for_each (\<lambda>i.
      bnd (write_before EventRunUpdate i (Option.bind (map_of (map (\<lambda>i. (i, captureRunBefore i s)) ids) i) (\<lambda>b. b))) (\<lambda>_.
      writeRunEvent EventTagSet i (tag_payload archivedTag staleValue
        (Option.bind (map_of (map (\<lambda>i. (i, readTagValue i archivedTag s)) ids) i) (\<lambda>v. v))))) js u =
    (Inr (), foldl (archive_logged s) u js)"
  using assms
proof (induction js arbitrary: u)
  case Nil
  then show ?case by (simp add: sem_simps)
next
  case (Cons i js)
  then have i: "i \<in> set ids" "i \<in> keys r_id (runs s)" by auto
  then obtain b where "captureRunBefore i s = Some b"
    using first_row_keys [of r_id i "runs s"] by (cases "first_row (\<lambda>r. r_id r = i) (runs s)") (auto simp: captureRunBefore_def)
  with i(1) Cons.IH Cons.prems show ?case
    by (simp add: sem_simps map_of_tabulate write_before_def writeRunEvent_logged archive_logged_def archive_events_def)
qed

definition stale_ids :: "int \<Rightarrow> db \<Rightarrow> string list" where
  "stale_ids b s = map r_id (filter (is_stale b) (runs s))"

lemma stale_ids_props:
  assumes "db_ok s"
  shows "distinct (stale_ids b s)"
    and "i \<in> set (stale_ids b s) \<Longrightarrow> \<exists>r. first_row (\<lambda>r. r_id r = i) (runs s) = Some r \<and> is_stale b r"
    and "i \<in> set (stale_ids b s) \<Longrightarrow> i \<in> keys r_id (runs s)"
    and "first_row (\<lambda>r. r_id r = x) (runs s) = Some r \<Longrightarrow> x \<in> set (stale_ids b s) \<longleftrightarrow> is_stale b r"
proof -
  from db_okD(5) [OF assms] show "distinct (stale_ids b s)"
    by (simp add: stale_ids_def runs_ok_def pk_def distinct_map_filter)
  show "\<exists>r. first_row (\<lambda>r. r_id r = i) (runs s) = Some r \<and> is_stale b r" if "i \<in> set (stale_ids b s)"
    using that unique_run [OF assms] by (auto simp: stale_ids_def)
  show "i \<in> keys r_id (runs s)" if "i \<in> set (stale_ids b s)"
    using that by (auto simp: stale_ids_def keys_def)
  show "x \<in> set (stale_ids b s) \<longleftrightarrow> is_stale b r" if "first_row (\<lambda>r. r_id r = x) (runs s) = Some r"
  proof -
    have "r \<in> set (runs s)" "r_id r = x" using first_row_Some [OF that] by auto
    moreover have "y = r" if "y \<in> set (runs s)" "r_id y = x" for y
      using unique_run [OF assms that(1)] that(2) \<open>first_row _ _ = Some r\<close> by simp
    ultimately show ?thesis unfolding stale_ids_def set_map set_filter by blast
  qed
qed

lemma ArchiveStaleRuns_ok:
  fixes b :: int
  assumes "db_ok s"
  defines "n \<equiv> clock s (clock_pos s)" and "u \<equiv> s\<lparr>clock_pos := Suc (clock_pos s)\<rparr>" and "ids \<equiv> stale_ids b s"
  shows "ArchiveStaleRuns b s =
    (Inr (length ids), if ids = [] then u else foldl (archive_logged u) (archived_all n u ids) ids)"
proof (cases "ids = []")
  case True
  then show ?thesis
    by (simp add: ArchiveStaleRuns_def sem_simps u_def ids_def stale_ids_def)
next
  case False
  have ok: "db_ok u" using assms(1) keepsD [OF keeps_ok_now, of s] by (simp add: u_def sem_simps)
  have ids: "ids = stale_ids b u" by (simp add: ids_def u_def stale_ids_def)
  have ex: "\<forall>i\<in>set ids. \<exists>r. first_row (\<lambda>r. r_id r = i) (runs u) = Some r \<and> stale_row r"
    using stale_ids_props(2) [OF ok, of _ b] unfolding ids by (fastforce simp: is_stale_def stale_row_def)
  have "archive_loop n ids u = (Inr ids, archived_all n u ids)"
    by (rule archive_loop_ok [OF ok _ ex]) (simp add: ids stale_ids_props(1) [OF ok])
  moreover have "\<forall>i\<in>set ids. i \<in> set ids \<and> i \<in> keys r_id (runs u)"
    using stale_ids_props(3) [OF ok, of _ b] by (simp add: ids)
  note archive_event_loop [OF this, of "archived_all n u ids"]
  moreover have "map r_id (filter (is_stale b) (runs u)) = ids" by (simp add: ids stale_ids_def)
  moreover have "now s = (Inr n, u)" by (simp add: sem_simps n_def u_def)
  moreover have "filter (is_stale b) (runs u) \<noteq> []" using False by (auto simp: ids stale_ids_def)
  ultimately show ?thesis using False
    by (simp add: ArchiveStaleRuns_def sem_simps)
qed

section \<open>Exactness\<close>

lemma archived_all_runs:
  "runs (archived_all n s ids) = update_where (\<lambda>r. r_id r \<in> set ids) (apply_run_set (archive_set n)) (runs s)"
proof (induction ids arbitrary: s)
  case Nil
  then show ?case by (simp add: archived_all_def update_where_def)
next
  case (Cons i ids)
  from Cons.IH [of "archived_one n s i"] show ?case
    by (auto simp: archived_all_def archived_one_def run_updated_def update_where_def apply_archive_set)
qed

lemma archived_all_tags:
  "tag.get (tags (archived_all n s ids)) x k =
    (if x \<in> set ids \<and> k = archivedTag then Some staleValue else tag.get (tags s) x k)"
proof (induction ids arbitrary: s)
  case Nil
  then show ?case by (simp add: archived_all_def)
next
  case (Cons i ids)
  from Cons.IH [of "archived_one n s i"] show ?case
    by (auto simp: archived_all_def archived_one_def get_tag_upserted run_updated_def)
qed

lemma archived_all_simps [simp]:
  "events (archived_all n s ids) = events s" "clock (archived_all n s ids) = clock s"
  "clock_pos (archived_all n s ids) = clock_pos s" "events_seq (archived_all n s ids) = events_seq s"
  by (induction ids arbitrary: s) (simp_all add: archived_all_def archived_one_def run_updated_def)

lemma archive_logged_simps [simp]:
  "runs (foldl (archive_logged s) u ids) = runs u" "tags (foldl (archive_logged s) u ids) = tags u"
  "clock (foldl (archive_logged s) u ids) = clock u"
  by (induction ids arbitrary: u) (simp_all add: archive_logged_def archive_events_def)



end
