(* ===== verification/Replay.thy ===== *)
theory Replay
  imports Janitor "HOL-Library.AList"
begin

text \<open>
  The replay of the event log (\<open>internal/store/sqlite_events.go\<close>): \<open>GetRunAsOf\<close> takes the current
  run and its current tags and undoes the events newer than the given time, newest first. The
  lemmas show that the undo of each kind of event gives back the fields its payload captured.

  The event payload is JSON: a string that is not valid UTF-8 and an \<open>end_time\<close> beyond
  \<open>2^53\<close> do not survive it. \<open>safe_run\<close> excludes them for a run.
\<close>

section \<open>Replay\<close>

record runEvent =
  re_Kind :: string
  re_Payload :: "(string \<times> jval) list"

definition MaxEventsPerReplay :: nat where
  "MaxEventsPerReplay = 50000"

text \<open>\<open>json.Unmarshal(payload, &e.Payload)\<close> into a \<open>map[string]any\<close>.\<close>

definition decode_event :: "event_row \<Rightarrow> err + runEvent" where
  "decode_event e =
     (case json_any (ev_payload e) of
        JObj kvs \<Rightarrow> Inr \<lparr>re_Kind = ev_kind e, re_Payload = kvs\<rparr>
      | JNull \<Rightarrow> Inr \<lparr>re_Kind = ev_kind e, re_Payload = []\<rparr>
      | _ \<Rightarrow> Inl (ErrOther ''event decode''))"

definition undo_end_time :: "jval option \<Rightarrow> Run \<Rightarrow> Run" where
  "undo_end_time v run =
     (case v of Some JNull \<Rightarrow> run\<lparr>run_EndTime := None\<rparr>
      | Some (JFloat f) \<Rightarrow> run\<lparr>run_EndTime := Some (int64_of_f64 f)\<rparr>
      | _ \<Rightarrow> run)"

definition applyUndo :: "Run \<Rightarrow> runEvent \<Rightarrow> Run" where
  "applyUndo run e =
     (case map_of (re_Payload e) ''before'' of
        Some (JObj before) \<Rightarrow>
          (if re_Kind e = EventRunUpdate then
             (let run1 = (case map_of before ''status'' of Some (JStr v) \<Rightarrow> run\<lparr>run_Status := v\<rparr> | _ \<Rightarrow> run);
                  run2 = undo_end_time (map_of before ''end_time'') run1
              in (case map_of before ''name'' of Some (JStr v) \<Rightarrow> run2\<lparr>run_Name := v\<rparr> | _ \<Rightarrow> run2))
           else if re_Kind e = EventRunLifecycle then
             (case map_of before ''lifecycle_stage'' of Some (JStr v) \<Rightarrow> run\<lparr>run_LifecycleStage := v\<rparr> | _ \<Rightarrow> run)
           else if re_Kind e = EventRunParent then
             (case map_of before ''parent_run_id'' of Some (JStr v) \<Rightarrow> run\<lparr>run_ParentRunID := v\<rparr> | _ \<Rightarrow> run)
           else run)
      | _ \<Rightarrow> run)"

text \<open>\<open>key, _ := e.Payload["key"].(string)\<close>\<close>

definition payload_key :: "runEvent \<Rightarrow> string" where
  "payload_key e = (case map_of (re_Payload e) ''key'' of Some (JStr k) \<Rightarrow> k | _ \<Rightarrow> [])"

definition applyTagUndo :: "(string \<times> string) list \<Rightarrow> runEvent \<Rightarrow> (string \<times> string) list" where
  "applyTagUndo tagMap e =
     (if re_Kind e = EventTagSet then
        (if payload_key e = [] then tagMap
         else (case map_of (re_Payload e) ''before'' of
                 None \<Rightarrow> AList.delete (payload_key e) tagMap
               | Some JNull \<Rightarrow> AList.delete (payload_key e) tagMap
               | Some (JStr v) \<Rightarrow> AList.update (payload_key e) v tagMap
               | _ \<Rightarrow> tagMap))
      else if re_Kind e = EventTagDelete then
        (if payload_key e = [] then tagMap
         else (case map_of (re_Payload e) ''before'' of
                 Some (JStr v) \<Rightarrow> AList.update (payload_key e) v tagMap
               | _ \<Rightarrow> tagMap))
      else tagMap)"

text \<open>The scan of the event rows: at most \<open>MaxEventsPerReplay\<close> of them, the newer ones kept.\<close>

fun scan_events :: "int \<Rightarrow> nat \<Rightarrow> event_row list \<Rightarrow> err + runEvent list" where
  "scan_events asOf scanned [] = Inr []"
| "scan_events asOf scanned (e # es) =
     (if MaxEventsPerReplay < scanned + 1 then Inl ErrReplayLimitExceeded
      else case decode_event e of Inl er \<Rightarrow> Inl er
        | Inr d \<Rightarrow> (case scan_events asOf (scanned + 1) es of Inl er \<Rightarrow> Inl er
            | Inr ds \<Rightarrow> Inr (if asOf < ev_ts_ms e then d # ds else ds)))"

text \<open>\<open>for i := len(newer) - 1; i >= 0; i--\<close>: the last event is undone first.\<close>

definition replay_run :: "runEvent list \<Rightarrow> Run \<Rightarrow> Run" where
  "replay_run newer run = foldr (\<lambda>e r. applyUndo r e) newer run"

definition replay_tags :: "runEvent list \<Rightarrow> (string \<times> string) list \<Rightarrow> (string \<times> string) list" where
  "replay_tags newer m = foldr (\<lambda>e m. applyTagUndo m e) newer m"

definition getRunAsOfImpl :: "string \<Rightarrow> string \<Rightarrow> int \<Rightarrow> (Run \<times> KV list) op" where
  "getRunAsOfImpl rid ws asOf =
     bnd (if ws \<noteq> [] then getRunInWorkspace rid ws else GetRun rid) (\<lambda>run.
     bnd (require (run_StartTime run \<le> asOf) ErrNotFound) (\<lambda>_.
     bnd (gets (\<lambda>s. take (MaxEventsPerReplay + 1)
            (sort_key (\<lambda>e. (ev_ts_ms e, ev_id e)) (filter (\<lambda>e. ev_entity_id e = rid) (events s))))) (\<lambda>rows.
     bnd (lift_sum (scan_events asOf 0 rows)) (\<lambda>newer.
     bnd (gets (GetTags rid)) (\<lambda>currentTags.
     let tagMap = foldl (\<lambda>m t. AList.update (kv_Key t) (kv_Value t) m) [] currentTags;
         out = map (\<lambda>(k, v). \<lparr>kv_Key = k, kv_Value = v\<rparr>) (replay_tags newer tagMap)
     in ret (replay_run newer run, sort_key kv_Key out))))))"

definition GetRunAsOf :: "string \<Rightarrow> int \<Rightarrow> (Run \<times> KV list) op" where
  "GetRunAsOf rid asOf = getRunAsOfImpl rid [] asOf"

definition GetRunAsOfInWorkspace :: "string \<Rightarrow> string \<Rightarrow> int \<Rightarrow> (Run \<times> KV list) op" where
  "GetRunAsOfInWorkspace rid ws asOf = getRunAsOfImpl rid (default_ws ws) asOf"

section \<open>The undo of one event\<close>

text \<open>The literal keys of the payloads are ASCII, so JSON leaves them alone.\<close>

lemma utf8_coerce_ascii: "is_ascii s \<Longrightarrow> utf8_coerce s = s"
  by (simp add: utf8_valid_ascii)

lemma json_literals [simp]:
  "utf8_coerce ''before'' = ''before''" "utf8_coerce ''status'' = ''status''" "utf8_coerce ''name'' = ''name''"
  "utf8_coerce ''lifecycle_stage'' = ''lifecycle_stage''" "utf8_coerce ''parent_run_id'' = ''parent_run_id''"
  "utf8_coerce ''end_time'' = ''end_time''" "utf8_coerce ''key'' = ''key''" "utf8_coerce ''value'' = ''value''"
  by (rule utf8_coerce_ascii, simp add: is_ascii_def)+

definition safe_run :: "run_row \<Rightarrow> bool" where
  "safe_run r \<longleftrightarrow> utf8_valid (coalesce (r_name r)) \<and> utf8_valid (coalesce (r_parent_run_id r)) \<and>
     (case r_end_time r of None \<Rightarrow> True | Some v \<Rightarrow> \<bar>v\<bar> \<le> 2 ^ 53)"

lemma run_statuses_utf8: "x \<in> run_statuses \<Longrightarrow> utf8_valid x"
  by (rule utf8_valid_ascii) (auto simp: run_statuses_def status_defs is_ascii_def)

lemma run_stages_utf8: "x \<in> run_stages \<Longrightarrow> utf8_valid x"
  by (rule utf8_valid_ascii) (auto simp: run_stages_def lifecycle_defs is_ascii_def)

text \<open>What the decoded payload of a captured row says, for a safe row.\<close>

definition before_json :: "run_row \<Rightarrow> (string \<times> jval) list" where
  "before_json r = [
     (''status'', JStr (r_status r)), (''name'', JStr (coalesce (r_name r))),
     (''lifecycle_stage'', JStr (r_lifecycle_stage r)),
     (''parent_run_id'', JStr (coalesce (r_parent_run_id r))),
     (''end_time'', case r_end_time r of None \<Rightarrow> JNull | Some v \<Rightarrow> JFloat v)]"

lemma json_before_of:
  assumes "safe_run r" and "run_check r"
  shows "json_any (before_of r) = JObj (before_json r)"
  using assms
  by (auto simp: before_of_def before_json_def safe_run_def run_check_def run_statuses_utf8 run_stages_utf8
      f64_of_int_exact split: option.splits)

definition ev_of :: "string \<Rightarrow> (string \<times> jval) list \<Rightarrow> runEvent" where
  "ev_of kind kvs = \<lparr>re_Kind = kind, re_Payload = kvs\<rparr>"

lemma int64_of_f64_small: "\<bar>v\<bar> \<le> 2 ^ 53 \<Longrightarrow> int64_of_f64 v = v"
  using int64_f64_exact [of v] by (simp add: f64_of_int_exact)

lemma undo_run_update:
  assumes "safe_run r"
  shows "applyUndo (run_of_row (apply_run_set (no_run_set\<lparr>rs_status := st, rs_end_time := et, rs_name := nm\<rparr>) r))
    (ev_of EventRunUpdate [(''before'', JObj (before_json r))]) = run_of_row r"
  using assms
  by (auto simp: applyUndo_def ev_of_def before_json_def undo_end_time_def run_of_row_def apply_run_set_def no_run_set_def
      safe_run_def int64_of_f64_small split: option.splits)

lemma undo_run_lifecycle:
  "applyUndo (run_of_row (apply_run_set (no_run_set\<lparr>rs_lifecycle_stage := Some st\<rparr>) r))
    (ev_of EventRunLifecycle [(''before'', JObj (before_json r))]) = run_of_row r"
  by (simp add: applyUndo_def ev_of_def before_json_def run_of_row_def apply_run_set_def no_run_set_def event_defs)

lemma undo_run_parent:
  "applyUndo (run_of_row (apply_run_set (parent_set p) r))
    (ev_of EventRunParent [(''before'', JObj (before_json r))]) = run_of_row r"
  by (simp add: applyUndo_def ev_of_def before_json_def run_of_row_def apply_run_set_def parent_set_def
      no_run_set_def event_defs)

text \<open>The undo of a tag event on the tags as a function; \<open>applyTagUndo\<close> implements it.\<close>

definition tag_undo :: "runEvent \<Rightarrow> (string \<Rightarrow> string option) \<Rightarrow> string \<Rightarrow> string option" where
  "tag_undo e m =
     (if payload_key e = [] then m
      else if re_Kind e = EventTagSet then
        (case map_of (re_Payload e) ''before'' of
           None \<Rightarrow> m(payload_key e := None)
         | Some JNull \<Rightarrow> m(payload_key e := None)
         | Some (JStr v) \<Rightarrow> m(payload_key e := Some v)
         | _ \<Rightarrow> m)
      else if re_Kind e = EventTagDelete then
        (case map_of (re_Payload e) ''before'' of Some (JStr v) \<Rightarrow> m(payload_key e := Some v) | _ \<Rightarrow> m)
      else m)"

lemma applyTagUndo_refines: "map_of (applyTagUndo m e) = tag_undo e (map_of m)"
  by (auto simp: applyTagUndo_def tag_undo_def AList.update_conv' AList.delete_conv' event_defs
      split: option.split jval.split)

lemma distinct_applyTagUndo:
  "distinct (map fst m) \<Longrightarrow> distinct (map fst (applyTagUndo m e))"
  by (auto simp: applyTagUndo_def AList.distinct_update AList.distinct_delete split: option.split jval.split)

lemma replay_tags_refines: "map_of (replay_tags es m) = foldr tag_undo es (map_of m)"
  unfolding replay_tags_def by (induction es) (simp_all add: applyTagUndo_refines)

lemma distinct_replay_tags: "distinct (map fst m) \<Longrightarrow> distinct (map fst (replay_tags es m))"
  unfolding replay_tags_def by (induction es) (simp_all add: distinct_applyTagUndo)

definition tag_set_json :: "string \<Rightarrow> string \<Rightarrow> string option \<Rightarrow> (string \<times> jval) list" where
  "tag_set_json k v before = [(''key'', JStr k), (''value'', JStr v)] @
     (case before of None \<Rightarrow> [] | Some b \<Rightarrow> [(''before'', JStr b)])"

lemma json_tag_payload:
  assumes "utf8_valid k" and "\<And>b. before = Some b \<Longrightarrow> utf8_valid b"
  shows "json_any (tag_payload k v before) = JObj (tag_set_json k (utf8_coerce v) before)"
  using assms by (simp add: tag_payload_def tag_set_json_def split: option.split)

lemma undo_tag_set:
  "k \<noteq> [] \<Longrightarrow> tag_undo (ev_of EventTagSet (tag_set_json k v before)) m = m(k := before)"
  by (simp add: tag_undo_def ev_of_def payload_key_def tag_set_json_def split: option.split)

lemma undo_tag_delete:
  "k \<noteq> [] \<Longrightarrow> tag_undo (ev_of EventTagDelete [(''key'', JStr k), (''before'', JStr v)]) m = m(k := Some v)"
  by (simp add: tag_undo_def ev_of_def payload_key_def event_defs)

text \<open>Run events leave the tags alone and tag events the run.\<close>

lemma tag_undo_run_event [simp]:
  "tag_undo (ev_of kind [(''before'', b)]) m = m"
  by (simp add: tag_undo_def ev_of_def payload_key_def)

lemma applyUndo_tag_event [simp]:
  "applyUndo run (ev_of EventTagSet kvs) = run" "applyUndo run (ev_of EventTagDelete kvs) = run"
  by (auto simp: applyUndo_def ev_of_def event_defs split: option.split jval.split)

end
