(* ===== verification/RunHistory.thy ===== *)
theory RunHistory
  imports Replay
begin

text \<open>
  The event log as an undo log. The locale \<open>undo_log\<close> states what an undo log promises (a step
  appends events that undo it) and what follows for many steps; its interpretation \<open>run_history\<close>
  shows it for every store method that changes runs, tags or events, whether it succeeds or fails.
\<close>

section \<open>Undo logs\<close>

text \<open>
  The contract of an undo log: while the invariant holds, a step keeps it and appends to the log
  the entries that, undone newest first, give back the view before the step.
\<close>

locale undo_log =
  fixes inv :: "'s \<Rightarrow> bool"
    and step :: "'s \<Rightarrow> 's \<Rightarrow> bool"
    and view :: "'s \<Rightarrow> 'v"
    and log :: "'s \<Rightarrow> 'e list"
    and undo :: "'e \<Rightarrow> 'v \<Rightarrow> 'v"
  assumes step_inv: "inv s \<Longrightarrow> step s t \<Longrightarrow> inv t"
    and step_undo: "inv s \<Longrightarrow> step s t \<Longrightarrow> \<exists>new. log t = log s @ new \<and> foldr undo new (view t) = view s"
begin

lemma steps_inv: "step\<^sup>*\<^sup>* s t \<Longrightarrow> inv s \<Longrightarrow> inv t"
  by (induction rule: rtranclp_induct) (auto intro: step_inv)

lemma steps_undo:
  "step\<^sup>*\<^sup>* s t \<Longrightarrow> inv s \<Longrightarrow> \<exists>new. log t = log s @ new \<and> foldr undo new (view t) = view s"
proof (induction rule: rtranclp_induct)
  case base
  show ?case by simp
next
  case (step t u)
  then obtain new where 1: "log t = log s @ new" "foldr undo new (view t) = view s" by auto
  from step have "inv t" using steps_inv by blast
  with step.hyps(2) obtain more where 2: "log u = log t @ more" "foldr undo more (view u) = view t"
    using step_undo by blast
  from 1 2 have "log u = log s @ (new @ more)" "foldr undo (new @ more) (view u) = view s" by simp_all
  then show ?case by blast
qed

end

section \<open>View, log and invariant\<close>

type_synonym view = "Run option \<times> (string \<Rightarrow> string option)"

definition run_view :: "string \<Rightarrow> db \<Rightarrow> view" where
  "run_view rid s = (map_option run_of_row (first_row (\<lambda>r. r_id r = rid) (runs s)), tag.get (tags s) rid)"

definition run_log :: "string \<Rightarrow> db \<Rightarrow> event_row list" where
  "run_log rid s = filter (\<lambda>e. ev_entity_id e = rid) (events s)"

definition undo_d :: "runEvent \<Rightarrow> view \<Rightarrow> view" where
  "undo_d d v = (map_option (\<lambda>x. applyUndo x d) (fst v), tag_undo d (snd v))"

definition undo_event :: "event_row \<Rightarrow> view \<Rightarrow> view" where
  "undo_event e v = (case decode_event e of Inr d \<Rightarrow> undo_d d v | Inl _ \<Rightarrow> v)"

definition undoes :: "string \<Rightarrow> db \<Rightarrow> db \<Rightarrow> bool" where
  "undoes rid s t \<longleftrightarrow> (\<exists>new. run_log rid t = run_log rid s @ new \<and> foldr undo_event new (run_view rid t) = run_view rid s)"

text \<open>The log of a run grows by the events written for it.\<close>

lemma run_log_logged:
  "run_log rid (logged s kind x pl) = run_log rid s @
    (if x = rid then [\<lparr>ev_id = events_seq s + 1, ev_ts_ms = clock s (clock_pos s), ev_kind = kind,
                       ev_entity_id = x, ev_payload = pl\<rparr>] else [])"
  by (simp add: run_log_def logged_def)

lemma run_view_logged [simp]: "run_view rid (logged s kind x pl) = run_view rid s"
  by (simp add: run_view_def)

lemma run_log_frame [simp]:
  "run_log rid (tag_upserted s x k v) = run_log rid s" "run_log rid (run_updated s x u) = run_log rid s"
  "run_log rid (s\<lparr>clock_pos := n\<rparr>) = run_log rid s" "run_log rid (s\<lparr>tags := ts\<rparr>) = run_log rid s"
  by (simp_all add: run_log_def run_updated_def)

lemma run_view_clock [simp]: "run_view rid (s\<lparr>clock_pos := n\<rparr>) = run_view rid s"
  by (simp add: run_view_def)

lemma run_view_tag_upserted:
  "run_view rid (tag_upserted s x k v) =
    (fst (run_view rid s), if x = rid then (snd (run_view rid s))(k := Some v) else snd (run_view rid s))"
  by (auto simp: run_view_def get_tag_upserted fun_eq_iff)

lemma run_view_run_updated:
  "run_view rid (run_updated s x u) =
    (map_option (\<lambda>r. run_of_row (if r_id r = x then apply_run_set u r else r)) (first_row (\<lambda>r. r_id r = rid) (runs s)),
     snd (run_view rid s))"
  by (simp add: run_view_def row_run_updated option.map_comp comp_def) (simp add: run_updated_def)

lemma decode_row:
  "json_any pl = JObj kvs \<Longrightarrow>
    undo_event \<lparr>ev_id = i, ev_ts_ms = ts, ev_kind = kind, ev_entity_id = x, ev_payload = pl\<rparr> v = undo_d (ev_of kind kvs) v"
  by (simp add: undo_event_def decode_event_def ev_of_def)

lemma undoes_refl_frame:
  "run_log rid t = run_log rid s \<Longrightarrow> run_view rid t = run_view rid s \<Longrightarrow> undoes rid s t"
  by (simp add: undoes_def)

lemma undoes_trans: "undoes rid s t \<Longrightarrow> undoes rid t u \<Longrightarrow> undoes rid s u"
  unfolding undoes_def by (metis append.assoc comp_apply foldr_append)

text \<open>One change of the run row with its event.\<close>

lemma undoes_run_event:
  assumes "db_ok s" and row: "first_row (\<lambda>r. r_id r = x) (runs s) = Some r"
    and "rid = x \<Longrightarrow> safe_run r"
    and "rid = x \<Longrightarrow> applyUndo (run_of_row (apply_run_set u r)) (ev_of kind [(''before'', JObj (before_json r))]) = run_of_row r"
  shows "undoes rid s (logged (run_updated s x u) kind x (undo_payload r))"
proof (cases "rid = x")
  case True
  have r: "r \<in> set (runs s)" "r_id r = x" using first_row_Some [OF row] by auto
  from assms(3) True have "json_any (undo_payload r) = JObj [(''before'', JObj (before_json r))]"
    using json_before_of [of r] db_ok_run_check [OF assms(1) r(1)] by simp
  note dec = decode_row [OF this]
  from True row r(2) assms(4) show ?thesis
    by (simp add: undoes_def run_log_logged run_view_run_updated dec undo_d_def run_view_def [of x s])
next
  case False
  have "(if r_id y = x then apply_run_set u y else y) = y" if "first_row (\<lambda>r. r_id r = rid) (runs s) = Some y" for y
    using first_row_Some [OF that] False by auto
  then have "run_view rid (run_updated s x u) = run_view rid s"
    by (cases "first_row (\<lambda>r. r_id r = rid) (runs s)") (simp_all add: run_view_run_updated run_view_def [of rid s])
  with False show ?thesis by (intro undoes_refl_frame) (simp_all add: run_log_logged)
qed

lemma run_view_foldl_logged [simp]:
  "run_view rid (foldl (\<lambda>u t. logged u kind x (f t)) s ts) = run_view rid s"
  by (induction ts arbitrary: s) simp_all

lemma run_log_foldl_logged_other:
  "x \<noteq> rid \<Longrightarrow> run_log rid (foldl (\<lambda>u t. logged u kind x (f t)) s ts) = run_log rid s"
  by (induction ts arbitrary: s) (simp_all add: run_log_logged)

lemma run_log_foldl_logged:
  assumes "\<forall>t\<in>set ts. json_any (f t) = JObj (g t)"
  shows "\<exists>new. run_log rid (foldl (\<lambda>u t. logged u kind rid (f t)) s ts) = run_log rid s @ new \<and>
    foldr undo_event new = foldr (\<lambda>t. undo_d (ev_of kind (g t))) ts"
  using assms
proof (induction ts arbitrary: s)
  case Nil
  show ?case by (rule exI [of _ "[]"]) (simp add: id_def)
next
  case (Cons t ts)
  from Cons.IH [of "logged s kind rid (f t)"] Cons.prems obtain new where
    new: "run_log rid (foldl (\<lambda>u t. logged u kind rid (f t)) (logged s kind rid (f t)) ts) =
      run_log rid (logged s kind rid (f t)) @ new" "foldr undo_event new = foldr (\<lambda>t. undo_d (ev_of kind (g t))) ts"
    by auto
  let ?e = "\<lparr>ev_id = events_seq s + 1, ev_ts_ms = clock s (clock_pos s), ev_kind = kind,
             ev_entity_id = rid, ev_payload = f t\<rparr>"
  from Cons.prems have "undo_event ?e = undo_d (ev_of kind (g t))" by (intro ext decode_row) simp
  with new show ?case by (intro exI [of _ "?e # new"]) (simp add: run_log_logged)
qed

text \<open>A batch of tag upserts with their events.\<close>

lemma undo_tag_batch:
  "\<forall>t\<in>set ts. kv_Key t \<noteq> [] \<Longrightarrow>
    foldr (\<lambda>t. undo_d (ev_of EventTagSet (tag_set_json (kv_Key t) (h t) (m (kv_Key t))))) ts (r, m') =
      (r, \<lambda>k. if k \<in> kv_Key ` set ts then m k else m' k)"
  by (induction ts) (auto simp: undo_d_def undo_tag_set option.map_ident fun_eq_iff)

lemma snd_view_foldl_tag_upserted:
  "run_view rid (foldl (\<lambda>u t. tag_upserted u rid (kv_Key t) (kv_Value t)) s ts) =
    (fst (run_view rid s), \<lambda>k. case map_of (rev (kv_pairs ts)) k of Some v \<Rightarrow> Some v | None \<Rightarrow> snd (run_view rid s) k)"
  by (simp add: run_view_def get_foldl_tag_upserted fun_eq_iff split: option.split)

lemma map_of_rev_kv_pairs_None: "map_of (rev (kv_pairs ts)) k = None \<longleftrightarrow> k \<notin> kv_Key ` set ts"
  by (auto simp: map_of_eq_None_iff kv_pairs_def image_image)

definition safe_tags :: "string \<Rightarrow> db \<Rightarrow> bool" where
  "safe_tags rid s \<longleftrightarrow> (\<forall>k v. tag.get (tags s) rid k = Some v \<longrightarrow> k \<noteq> [] \<and> utf8_valid k \<and> utf8_valid v)"

lemma undoes_tags_set_state:
  assumes "rid = x \<Longrightarrow> \<forall>t\<in>set ts. kv_Key t \<noteq> [] \<and> utf8_valid (kv_Key t)" and "rid = x \<Longrightarrow> safe_tags rid s"
  shows "undoes rid s (tags_set_state s x ts)"
proof (cases "rid = x")
  case True
  let ?u = "foldl (\<lambda>u t. tag_upserted u x (kv_Key t) (kv_Value t)) s ts"
  let ?f = "\<lambda>t. tag_payload (kv_Key t) (kv_Value t) (readTagValue x (kv_Key t) s)"
  let ?g = "\<lambda>t. tag_set_json (kv_Key t) (utf8_coerce (kv_Value t)) (tag.get (tags s) x (kv_Key t))"
  have "\<forall>t\<in>set ts. json_any (?f t) = JObj (?g t)"
    using assms True by (auto simp: readTagValue_get safe_tags_def intro!: json_tag_payload)
  then obtain new where new: "run_log x (tags_set_state s x ts) = run_log x ?u @ new"
      "foldr undo_event new = foldr (\<lambda>t. undo_d (ev_of EventTagSet (?g t))) ts"
    using run_log_foldl_logged [of ts ?f ?g x EventTagSet ?u] by (auto simp: tags_set_state_def)
  have keys: "\<forall>t\<in>set ts. kv_Key t \<noteq> []" using assms(1) True by auto
  have rest: "(case map_of (rev (kv_pairs ts)) k of Some v \<Rightarrow> Some v | None \<Rightarrow> m k) = m k"
    if "k \<notin> kv_Key ` set ts" for k and m :: "string \<Rightarrow> string option"
    using that map_of_rev_kv_pairs_None [of ts k] by simp
  have "run_view x (tags_set_state s x ts) = run_view x ?u" by (simp add: tags_set_state_def)
  then have "foldr undo_event new (run_view x (tags_set_state s x ts)) = run_view x s"
    unfolding new(2) snd_view_foldl_tag_upserted
    using undo_tag_batch [OF keys, of "\<lambda>t. utf8_coerce (kv_Value t)" "tag.get (tags s) x"]
    by (simp add: rest run_view_def fun_eq_iff)
  moreover have "run_log x ?u = run_log x s" by (simp add: run_log_def)
  ultimately show ?thesis using True new(1) by (auto simp: undoes_def)
next
  case False
  have "run_view rid (foldl (\<lambda>u t. tag_upserted u x (kv_Key t) (kv_Value t)) s ts) = run_view rid s"
    using False by (simp add: run_view_def get_foldl_tag_upserted fun_eq_iff)
  moreover have "run_log rid (foldl (\<lambda>u t. tag_upserted u x (kv_Key t) (kv_Value t)) s ts) = run_log rid s"
    by (simp add: run_log_def)
  ultimately show ?thesis using False
    by (intro undoes_refl_frame) (simp_all add: tags_set_state_def run_log_foldl_logged_other)
qed

lemma tag_set_state_single:
  "tag_set_state s x k v = tags_set_state s x [\<lparr>kv_Key = k, kv_Value = v\<rparr>]"
  by (simp add: tag_set_state_def tags_set_state_def)

lemma undoes_delete_tag:
  assumes "readTagValue x k s = Some v" and "rid = x \<Longrightarrow> safe_tags rid s"
  shows "undoes rid s (logged (s\<lparr>tags := delete_where (\<lambda>t. t_run_id t = x \<and> t_key t = k) (tags s)\<rparr>)
    EventTagDelete x (JObj [(''key'', JStr k), (''before'', JStr v)]))"
proof (cases "rid = x")
  case True
  with assms have kv: "tag.get (tags s) x k = Some v" "k \<noteq> []" "utf8_valid k" "utf8_valid v"
    by (auto simp: readTagValue_get safe_tags_def)
  then have "json_any (JObj [(''key'', JStr k), (''before'', JStr v)]) = JObj [(''key'', JStr k), (''before'', JStr v)]"
    by simp
  note dec = decode_row [OF this]
  from True kv show ?thesis
    by (simp add: undoes_def run_log_logged dec undo_d_def undo_tag_delete)
      (simp add: run_view_def option.map_ident fun_eq_iff tag.get_delete)
next
  case False
  then show ?thesis
    by (intro undoes_refl_frame) (simp_all add: run_log_logged run_view_def tag.get_delete fun_eq_iff)
qed

section \<open>Clock and log in step\<close>

text \<open>
  The log of a store whose clock never goes back: ids and times increase along it, every time is an
  earlier clock reading, and what was written after the first \<open>k\<close> readings is the part behind \<open>E\<close>.
\<close>

definition timeline :: "nat \<Rightarrow> event_row list \<Rightarrow> db \<Rightarrow> bool" where
  "timeline k E s \<longleftrightarrow> mono (clock s) \<and> k \<le> clock_pos s \<and>
     sorted_wrt (\<lambda>a b. ev_ts_ms a \<le> ev_ts_ms b \<and> ev_id a < ev_id b) (events s) \<and>
     (\<forall>e\<in>set (events s). (\<exists>n<clock_pos s. ev_ts_ms e = clock s n) \<and> ev_id e \<le> events_seq s \<and>
        (\<exists>kvs. ev_payload e = JObj kvs)) \<and>
     (\<exists>rest. events s = E @ rest \<and> (\<forall>e\<in>set rest. \<exists>n\<ge>k. ev_ts_ms e = clock s n))"

lemma timeline_frame:
  assumes "timeline k E s" and "clock t = clock s" and "clock_pos s \<le> clock_pos t" and "events t = events s"
    and "events_seq t = events_seq s"
  shows "timeline k E t"
proof -
  have "\<exists>n<clock_pos t. ev_ts_ms e = clock s n" if "e \<in> set (events s)" for e
    using assms(1,3) that unfolding timeline_def by (meson order_less_le_trans)
  with assms show ?thesis unfolding timeline_def by simp
qed

lemma timeline_logged:
  assumes "timeline k E s"
  shows "timeline k E (logged s kind x (JObj kvs))"
proof -
  let ?e = "\<lparr>ev_id = events_seq s + 1, ev_ts_ms = clock s (clock_pos s), ev_kind = kind,
             ev_entity_id = x, ev_payload = JObj kvs\<rparr>"
  have ev: "events (logged s kind x (JObj kvs)) = events s @ [?e]" by (simp add: logged_def)
  from assms obtain rest where rest: "events s = E @ rest" "\<forall>e\<in>set rest. \<exists>n\<ge>k. ev_ts_ms e = clock s n"
    by (auto simp: timeline_def)
  have "ev_ts_ms e \<le> clock s (clock_pos s) \<and> ev_id e < events_seq s + 1" if "e \<in> set (events s)" for e
  proof -
    from assms that obtain n where "n < clock_pos s" "ev_ts_ms e = clock s n" "ev_id e \<le> events_seq s" "mono (clock s)"
      by (auto simp: timeline_def)
    then show ?thesis by (simp add: monoD)
  qed
  moreover have "\<exists>rest'. events s @ [?e] = E @ rest' \<and> (\<forall>e\<in>set rest'. \<exists>n\<ge>k. ev_ts_ms e = clock s n)"
    using rest assms by (intro exI [of _ "rest @ [?e]"]) (auto simp: timeline_def)
  ultimately show ?thesis
    using assms unfolding timeline_def ev by (auto simp: sorted_wrt_append less_Suc_eq intro: order_trans)
qed

lemma timeline_tag_upserted [simp]: "timeline k E s \<Longrightarrow> timeline k E (tag_upserted s x j v)"
  by (rule timeline_frame) simp_all

lemma timeline_run_updated [simp]: "timeline k E s \<Longrightarrow> timeline k E (run_updated s x u)"
  by (rule timeline_frame) (simp_all add: run_updated_def)

lemma timeline_foldl_tag_upserted:
  "timeline k E s \<Longrightarrow> timeline k E (foldl (\<lambda>u t. tag_upserted u x (f t) (g t)) s ts)"
  by (rule timeline_frame) simp_all

lemma timeline_foldl_logged:
  "timeline k E s \<Longrightarrow> timeline k E (foldl (\<lambda>u t. logged u kind x (JObj (f t))) s ts)"
  by (induction ts arbitrary: s) (simp_all add: timeline_logged)

lemma timeline_tags_set_state: "timeline k E s \<Longrightarrow> timeline k E (tags_set_state s x ts)"
  unfolding tags_set_state_def tag_payload_def
  by (intro timeline_foldl_logged timeline_foldl_tag_upserted)

lemma timeline_archived_all: "timeline k E s \<Longrightarrow> timeline k E (archived_all n s ids)"
  by (rule timeline_frame) simp_all

lemma timeline_archive_logged:
  "timeline k E u \<Longrightarrow> timeline k E (foldl (archive_logged s) u ids)"
  by (induction ids arbitrary: u) (simp_all add: archive_logged_def archive_events_def tag_payload_def timeline_logged)

section \<open>Steps\<close>

definition json_safe :: "string \<Rightarrow> db \<Rightarrow> bool" where
  "json_safe rid s \<longleftrightarrow> (\<forall>n. \<bar>clock s n\<bar> \<le> 2 ^ 53) \<and> safe_tags rid s \<and>
     (\<exists>r. first_row (\<lambda>r. r_id r = rid) (runs s) = Some r \<and> safe_run r)"

definition safe_kv :: "KV \<Rightarrow> bool" where
  "safe_kv t \<longleftrightarrow> utf8_valid (kv_Key t) \<and> utf8_valid (kv_Value t)"

text \<open>
  The calls that may follow: every method that changes runs, tags or the event log, with arguments
  that JSON can carry, whether it succeeds or fails, and any other change of the database, which
  leaves runs, tags and events as they are.
\<close>

inductive run_step :: "db \<Rightarrow> db \<Rightarrow> bool" where
  UpdateRun: "\<lbrakk>\<And>e. et = Some e \<Longrightarrow> \<bar>e\<bar> \<le> 2 ^ 53; \<And>n. nm = Some n \<Longrightarrow> utf8_valid n\<rbrakk> \<Longrightarrow>
    run_step s (snd (UpdateRun x st et nm s))"
| SetRunLifecycle: "run_step s (snd (SetRunLifecycle x st s))"
| SetTag: "safe_kv t \<Longrightarrow> run_step s (snd (SetTag x t s))"
| SetTags: "list_all safe_kv ts \<Longrightarrow> run_step s (snd (SetTags x ts s))"
| DeleteTag: "run_step s (snd (DeleteTag x k s))"
| CreateRun: "run_step s (snd (CreateRun newID r s))"
| ArchiveStaleRuns: "run_step s (snd (ArchiveStaleRuns b s))"
| other: "\<lbrakk>runs t = runs s; tags t = tags s; events t = events s; events_seq t = events_seq s;
    clock t = clock s; clock_pos s \<le> clock_pos t; db_ok t\<rbrakk> \<Longrightarrow> run_step s t"

definition log_inv :: "string \<Rightarrow> nat \<Rightarrow> event_row list \<Rightarrow> db \<Rightarrow> bool" where
  "log_inv rid k E s \<longleftrightarrow> db_ok s \<and> timeline k E s \<and> json_safe rid s"

text \<open>What a call has to show, next to \<open>db_ok\<close>, which every method keeps.\<close>

definition good_step :: "string \<Rightarrow> nat \<Rightarrow> event_row list \<Rightarrow> db \<Rightarrow> db \<Rightarrow> bool" where
  "good_step rid k E s t \<longleftrightarrow> timeline k E t \<and> json_safe rid t \<and> undoes rid s t"

lemma good_step_frame:
  assumes "log_inv rid k E s" and "runs t = runs s" and "tags t = tags s" and "events t = events s"
    and "events_seq t = events_seq s" and "clock t = clock s" and "clock_pos s \<le> clock_pos t"
  shows "good_step rid k E s t"
proof -
  have "timeline k E t" using assms by (auto simp: log_inv_def intro: timeline_frame)
  moreover have "json_safe rid t" using assms by (simp add: log_inv_def json_safe_def safe_tags_def)
  moreover have "undoes rid s t"
    using assms by (intro undoes_refl_frame) (simp_all add: run_log_def run_view_def)
  ultimately show ?thesis by (simp add: good_step_def)
qed

lemma json_safe_logged [simp]: "json_safe rid (logged s kind x pl) = json_safe rid s"
  by (simp add: json_safe_def safe_tags_def)

lemma json_safe_run_updated:
  assumes "json_safe rid s" and "first_row (\<lambda>r. r_id r = x) (runs s) = Some r"
    and "rid = x \<Longrightarrow> safe_run r \<Longrightarrow> safe_run (apply_run_set u r)"
  shows "json_safe rid (run_updated s x u)"
proof -
  from assms(1) obtain q where q: "first_row (\<lambda>r. r_id r = rid) (runs s) = Some q" "safe_run q"
    by (auto simp: json_safe_def)
  have "safe_run (if r_id q = x then apply_run_set u q else q)"
    using assms(2,3) q first_row_Some [OF q(1)] by auto
  with assms(1) q show ?thesis
    by (simp add: json_safe_def safe_tags_def row_run_updated) (simp add: run_updated_def)
qed

lemma good_run_event:
  assumes "log_inv rid k E s" and row: "first_row (\<lambda>r. r_id r = x) (runs s) = Some r"
    and safe: "rid = x \<Longrightarrow> safe_run r \<Longrightarrow> safe_run (apply_run_set u r)"
    and undo: "safe_run r \<Longrightarrow> applyUndo (run_of_row (apply_run_set u r)) (ev_of kind [(''before'', JObj (before_json r))]) = run_of_row r"
  shows "good_step rid k E s (logged (run_updated s x u) kind x (undo_payload r))"
proof -
  have sr: "safe_run r" if "rid = x" using assms(1) row that by (auto simp: log_inv_def json_safe_def)
  have "undoes rid s (logged (run_updated s x u) kind x (undo_payload r))"
    using assms(1) row sr undo by (intro undoes_run_event) (auto simp: log_inv_def)
  moreover have "json_safe rid (run_updated s x u)"
    using assms(1) row safe by (auto simp: log_inv_def intro: json_safe_run_updated)
  ultimately show ?thesis
    using assms(1) by (simp add: good_step_def log_inv_def timeline_logged)
qed

lemma json_safe_tags_set_state:
  assumes "json_safe rid s" and "rid = x \<Longrightarrow> \<forall>t\<in>set ts. safe_kv t \<and> kv_Key t \<noteq> []"
  shows "json_safe rid (tags_set_state s x ts)"
proof -
  have "k \<noteq> [] \<and> utf8_valid k \<and> utf8_valid v" if "map_of (rev (kv_pairs ts)) k = Some v" "rid = x" for k v
    using map_of_SomeD [OF that(1)] assms(2) that(2) by (auto simp: kv_pairs_def safe_kv_def)
  with assms(1) show ?thesis
    by (auto simp: json_safe_def safe_tags_def tags_set_state_def get_foldl_tag_upserted split: option.splits if_splits)
qed

lemma good_tags_set:
  assumes "log_inv rid k E s" and "rid = x \<Longrightarrow> \<forall>t\<in>set ts. safe_kv t \<and> kv_Key t \<noteq> []"
  shows "good_step rid k E s (tags_set_state s x ts)"
  using assms undoes_tags_set_state [of rid x ts s] json_safe_tags_set_state [of rid s x ts] timeline_tags_set_state [of k E s x ts]
  by (auto simp: good_step_def log_inv_def json_safe_def safe_kv_def)

lemma good_step_trans:
  "good_step rid k E s t \<Longrightarrow> good_step rid k E t u \<Longrightarrow> good_step rid k E s u"
  by (auto simp: good_step_def intro: undoes_trans)

lemma log_inv_tags_set_state:
  assumes "log_inv rid k E s" and "rid = x \<Longrightarrow> \<forall>t\<in>set ts. safe_kv t \<and> kv_Key t \<noteq> []" and "x \<in> keys r_id (runs s)"
  shows "log_inv rid k E (tags_set_state s x ts)"
proof -
  have "db_ok (tags_set_state s x ts)" unfolding tags_set_state_def
    by (intro db_ok_foldl_logged db_ok_foldl_tag_upserted event_kinds_mem)
      (use assms in \<open>auto simp: log_inv_def\<close>)
  with good_tags_set [OF assms(1,2)] show ?thesis by (simp add: log_inv_def good_step_def)
qed

text \<open>A set of tags followed by the new parent in the run row.\<close>

lemma good_tags_parent:
  assumes "log_inv rid k E s" and "rid = x \<Longrightarrow> \<forall>t\<in>set ts. safe_kv t \<and> kv_Key t \<noteq> []"
    and row: "first_row (\<lambda>r. r_id r = x) (runs s) = Some r" and "rid = x \<Longrightarrow> utf8_valid p"
  shows "good_step rid k E s (logged (run_updated (tags_set_state s x ts) x (parent_set p)) EventRunParent x (undo_payload r))"
proof (rule good_step_trans [OF good_tags_set [OF assms(1,2)]])
  have "x \<in> keys r_id (runs s)" using row first_row_keys [of r_id x "runs s"] by auto
  note inv = log_inv_tags_set_state [OF assms(1,2) this]
  show "good_step rid k E (tags_set_state s x ts)
      (logged (run_updated (tags_set_state s x ts) x (parent_set p)) EventRunParent x (undo_payload r))"
  proof (rule good_run_event [OF inv])
    show "first_row (\<lambda>r. r_id r = x) (runs (tags_set_state s x ts)) = Some r"
      using row by (simp add: tags_set_state_def)
    show "safe_run (apply_run_set (parent_set p) r)" if "rid = x" "safe_run r"
      using that assms(4) by (simp add: safe_run_def apply_run_set_def parent_set_def no_run_set_def)
  qed (assumption | rule undo_run_parent)+
qed

lemma good_error:
  assumes "log_inv rid k E s" and "atomic m" and "m s = (Inl e, t)" and "clock_pos s \<le> clock_pos t"
  shows "good_step rid k E s t"
proof -
  from assms(2,3) have t: "t = s\<lparr>clock_pos := clock_pos t\<rparr>" by (simp add: atomic_def same_data_def)
  have "runs t = runs s" "tags t = tags s" "events t = events s" "events_seq t = events_seq s" "clock t = clock s"
    by (subst t, simp)+
  with assms(1,4) show ?thesis by (intro good_step_frame)
qed

lemma foldl_last_parent:
  "list_all safe_kv ts \<Longrightarrow> utf8_valid p \<Longrightarrow>
    utf8_valid (foldl (\<lambda>p t. if kv_Key t = parentTag then kv_Value t else p) p ts)"
  by (induction ts arbitrary: p) (auto simp: safe_kv_def)

lemma utf8_last_parent: "list_all safe_kv ts \<Longrightarrow> utf8_valid (last_parent ts)"
  unfolding last_parent_def by (rule foldl_last_parent) (simp_all add: utf8_valid_def)

section \<open>The clock moves forward\<close>

definition clk :: "(nat \<Rightarrow> int) \<Rightarrow> nat \<Rightarrow> db \<Rightarrow> bool" where
  "clk c k s \<longleftrightarrow> clock s = c \<and> k \<le> clock_pos s"

lemma keeps_clk_now [keeps_intros]: "keeps (clk c k) now"
  by (simp add: keeps_def clk_def sem_simps)

lemma keeps_clk_tx [keeps_intros]:
  assumes "\<And>k. keeps (clk c k) m"
  shows "keeps (clk c k) (tx m)"
proof (rule keepsI)
  fix s assume s: "clk c k s"
  then have "clk c (clock_pos s) (snd (m s))" using keepsD [OF assms, of "clock_pos s" s] by (simp add: clk_def)
  with s show "clk c k (snd (tx m s))"
    by (auto simp: clk_def sem_simps split: prod.split sum.split)
qed

lemma keeps_clk_stmts [keeps_intros]:
  "keeps (clk c k) (insert_runs r)" "keeps (clk c k) (update_runs p u)" "keeps (clk c k) (upsert_tags x j v)"
  "keeps (clk c k) (delete_tags x j)" "keeps (clk c k) (insert_events ts kind x pl)"
  unfolding insert_runs_def update_runs_def upsert_tags_def delete_tags_def insert_events_def
  by (rule keeps_stmt, simp add: clk_def)+

lemma keeps_clk_methods:
  "keeps (clk c k) (UpdateRun x st et nm)" "keeps (clk c k) (SetRunLifecycle x stage)" "keeps (clk c k) (SetTag x t)"
  "keeps (clk c k) (SetTags x ts)" "keeps (clk c k) (DeleteTag x j)" "keeps (clk c k) (CreateRun newID r)"
  unfolding UpdateRun_def SetRunLifecycle_def SetTag_def SetTags_def DeleteTag_def CreateRun_def fill_run_def
    write_before_def writeRunEvent_def syncParentRunIDFromTag_def setParentRunID_def
  by (intro keeps_intros)+

lemma keeps_clk_archive_loop: "keeps (clk c k) (archive_loop n ids)"
  by (induction ids) (auto intro!: keeps_intros)

lemma keeps_clk_ArchiveStaleRuns: "keeps (clk c k) (ArchiveStaleRuns b)"
  unfolding ArchiveStaleRuns_def write_before_def writeRunEvent_def
  by (auto intro!: keeps_intros keeps_clk_archive_loop)

lemma forward: "(\<And>c k. keeps (clk c k) m) \<Longrightarrow> m s = (r, t) \<Longrightarrow> clock t = clock s \<and> clock_pos s \<le> clock_pos t"
  using keepsD2 [of "clk (clock s) (clock_pos s)" m s r t] by (simp add: clk_def)

lemma good_fail:
  assumes "log_inv rid k E s" and "atomic m" and "\<And>c k. keeps (clk c k) m" and "m s = (Inl e, t)"
  shows "good_step rid k E s t"
  using good_error [OF assms(1,2,4)] forward [OF assms(3,4)] by simp

section \<open>Every call is undone by its events\<close>

lemma good_UpdateRun:
  assumes inv: "log_inv rid k E s" and "\<And>e. et = Some e \<Longrightarrow> \<bar>e\<bar> \<le> 2 ^ 53" and "\<And>n. nm = Some n \<Longrightarrow> utf8_valid n"
  shows "good_step rid k E s (snd (UpdateRun x st et nm s))"
proof (cases "UpdateRun x st et nm s")
  case (Pair res t)
  show ?thesis
  proof (cases res)
    case (Inl e)
    with Pair inv show ?thesis by (auto intro!: good_fail [OF inv atomic_UpdateRun keeps_clk_methods(1)])
  next
    case (Inr a)
    have valid: "\<And>y. st = Some y \<Longrightarrow> y \<in> run_statuses"
      using Pair Inr UpdateRun_invalid [of st _ x et nm s] by auto
    show ?thesis
    proof (cases "st = None \<and> et = None \<and> nm = None")
      case True
      with inv show ?thesis by (simp add: UpdateRun_nothing good_step_frame)
    next
      case False
      with valid Pair Inr obtain r where row: "first_row (\<lambda>r. r_id r = x) (runs s) = Some r"
        using UpdateRun_missing [of x s st et nm] by (cases "first_row (\<lambda>r. r_id r = x) (runs s)") auto
      let ?u = "no_run_set\<lparr>rs_status := st, rs_end_time := et, rs_name := nm\<rparr>"
      have "db_ok s" using inv by (simp add: log_inv_def)
      note t = UpdateRun_ok [OF this row valid False]
      have "good_step rid k E s (logged (run_updated s x ?u) EventRunUpdate x (undo_payload r))"
      proof (rule good_run_event [OF inv row])
        show "safe_run (apply_run_set ?u r)" if "safe_run r"
          using that assms(2,3)
          by (auto simp: safe_run_def apply_run_set_def no_run_set_def set_null_def split: option.splits)
      qed (rule undo_run_update)
      then show ?thesis by (simp add: t)
    qed
  qed
qed

lemma good_SetRunLifecycle:
  assumes inv: "log_inv rid k E s"
  shows "good_step rid k E s (snd (SetRunLifecycle x st s))"
proof (cases "SetRunLifecycle x st s")
  case (Pair res t)
  show ?thesis
  proof (cases res)
    case (Inl e)
    with Pair inv show ?thesis by (auto intro!: good_fail [OF inv atomic_SetRunLifecycle keeps_clk_methods(2)])
  next
    case (Inr a)
    have valid: "st = LifecycleActive \<or> st = LifecycleDeleted"
      using Pair Inr SetRunLifecycle_invalid [of st x s] by auto
    with Pair Inr obtain r where row: "first_row (\<lambda>r. r_id r = x) (runs s) = Some r"
      using SetRunLifecycle_missing [of x s st] by (cases "first_row (\<lambda>r. r_id r = x) (runs s)") auto
    have "good_step rid k E s (logged (run_updated s x (no_run_set\<lparr>rs_lifecycle_stage := Some st\<rparr>))
        EventRunLifecycle x (undo_payload r))"
      by (rule good_run_event [OF inv row _ undo_run_lifecycle])
        (simp add: safe_run_def apply_run_set_def no_run_set_def)
    then show ?thesis using SetRunLifecycle_ok [OF _ row valid] inv by (simp add: log_inv_def)
  qed
qed

lemma good_SetTags:
  assumes inv: "log_inv rid k E s" and safe: "list_all safe_kv ts" and r: "SetTags x ts s = (res, t)"
  shows "good_step rid k E s t"
proof (cases res)
  case (Inl e)
  with r show ?thesis using good_fail [OF inv atomic_SetTags keeps_clk_methods(4)] by simp
next
  case (Inr a)
  have ok: "db_ok s" using inv by (simp add: log_inv_def)
  have x: "x \<in> keys r_id (runs s)" using r Inr by (auto simp: SetTags_def sem_simps split: if_splits)
  then obtain q where row: "first_row (\<lambda>r. r_id r = x) (runs s) = Some q"
    using first_row_keys [of r_id x "runs s"] by auto
  have valid: "\<forall>t\<in>set ts. ValidKey (kv_Key t) = None"
    using SetTags_invalid_key r Inr x by (metis Inl_Inr_False prod.inject)
  have kv: "\<forall>t\<in>set ts. safe_kv t \<and> kv_Key t \<noteq> []"
    using safe valid ValidKey_nonempty by (auto simp: list_all_iff)
  show ?thesis
  proof (cases "last_parent ts = []")
    case True
    with SetTags_plain [OF valid x] r good_tags_set [OF inv, of x ts] kv show ?thesis by simp
  next
    case False
    have p: "last_parent ts \<in> keys r_id (runs s)"
      using SetTags_parent_unknown [OF ok valid row False] r Inr by auto
    from SetTags_parent [OF ok valid row False p] r good_tags_parent [OF inv _ row utf8_last_parent [OF safe]] kv
    show ?thesis by simp
  qed
qed

lemma good_SetTag:
  assumes inv: "log_inv rid k E s" and safe: "safe_kv t" and r: "SetTag x t s = (res, u)"
  shows "good_step rid k E s u"
proof (cases res)
  case (Inl e)
  with r show ?thesis using good_fail [OF inv atomic_SetTag keeps_clk_methods(3)] by simp
next
  case (Inr a)
  have ok: "db_ok s" using inv by (simp add: log_inv_def)
  have valid: "ValidKey (kv_Key t) = None" and x: "x \<in> keys r_id (runs s)"
    using r Inr by (auto simp: SetTag_def sem_simps split: if_splits)
  then obtain q where row: "first_row (\<lambda>r. r_id r = x) (runs s) = Some q"
    using first_row_keys [of r_id x "runs s"] by auto
  have kv: "\<forall>y\<in>set [\<lparr>kv_Key = kv_Key t, kv_Value = kv_Value t\<rparr>]. safe_kv y \<and> kv_Key y \<noteq> []"
    using safe ValidKey_nonempty [OF valid] by (simp add: safe_kv_def)
  show ?thesis
  proof (cases "kv_Key t = parentTag \<and> kv_Value t \<noteq> []")
    case False
    with SetTag_plain [OF valid x False] r good_tags_set [OF inv kv, of x] show ?thesis
      by (simp add: tag_set_state_single)
  next
    case True
    then have p: "kv_Value t \<in> keys r_id (runs s)"
      using SetTag_parent_unknown [OF ok valid x] r Inr by auto
    from SetTag_parent [OF ok valid row _ _ p] True r good_tags_parent [OF inv kv row, of "kv_Value t"] safe
    show ?thesis by (simp add: tag_set_state_single safe_kv_def)
  qed
qed

lemma good_DeleteTag:
  assumes inv: "log_inv rid k E s"
  shows "good_step rid k E s (snd (DeleteTag x j s))"
proof (cases "readTagValue x j s")
  case None
  with inv show ?thesis by (simp add: DeleteTag_missing good_step_frame)
next
  case (Some v)
  let ?d = "s\<lparr>tags := delete_where (\<lambda>t. t_run_id t = x \<and> t_key t = j) (tags s)\<rparr>"
  have "json_safe rid ?d"
    using inv by (auto simp: log_inv_def json_safe_def safe_tags_def tag.get_delete split: if_splits)
  moreover have "timeline k E ?d" using inv by (auto simp: log_inv_def intro: timeline_frame)
  moreover have "safe_tags rid s" using inv by (simp add: log_inv_def json_safe_def)
  ultimately show ?thesis
    using undoes_delete_tag [OF Some, of rid, OF \<open>safe_tags rid s\<close>] by (simp add: DeleteTag_ok [OF Some] good_step_def timeline_logged)
qed

lemma good_CreateRun:
  assumes inv: "log_inv rid k E s" and r: "CreateRun newID r0 s = (res, t)"
  shows "good_step rid k E s t"
proof (cases res)
  case (Inl e)
  with r show ?thesis using good_fail [OF inv atomic_CreateRun keeps_clk_methods(6)] by simp
next
  case (Inr y)
  have "db_ok s" using inv by (simp add: log_inv_def)
  from CreateRun_success [OF this] r Inr obtain n where n: "clock_pos s \<le> n"
    and oku: "db_ok (run_inserted s n y)" and fresh: "run_ID y \<notin> keys r_id (runs s)"
    and all: "if run_ParentRunID y = [] then t = run_inserted s n y
       else run_ParentRunID y \<in> keys r_id (runs (run_inserted s n y)) \<and> t = parent_recorded (run_inserted s n y) y"
    by blast
  let ?u = "run_inserted s n y"
  from inv have rid: "rid \<in> keys r_id (runs s)"
    using first_row_keys [of r_id rid "runs s"] by (auto simp: log_inv_def json_safe_def)
  with fresh have ne: "rid \<noteq> run_ID y" by auto
  have row: "first_row (\<lambda>r. r_id r = rid) (runs ?u) = first_row (\<lambda>r. r_id r = rid) (runs s)"
    using ne by (simp add: run_inserted_def first_row_append split: option.split) (simp add: first_row_def row_of_run_def)
  have new: "first_row (\<lambda>r. r_id r = run_ID y) (runs ?u) = Some (row_of_run y)"
    using fresh first_row_keys [of r_id "run_ID y" "runs s"]
    by (simp add: run_inserted_def first_row_append) (simp add: first_row_def row_of_run_def)
  have sel: "tags ?u = tags s" "events ?u = events s" "events_seq ?u = events_seq s" "clock ?u = clock s" "clock_pos ?u = n"
    by (simp_all add: run_inserted_def)
  have "timeline k E ?u" by (rule timeline_frame [of k E s]) (use inv n in \<open>simp_all add: sel log_inv_def\<close>)
  moreover have "json_safe rid ?u" using inv row by (simp add: log_inv_def json_safe_def safe_tags_def sel)
  moreover have "undoes rid s ?u" by (rule undoes_refl_frame) (simp_all add: run_log_def run_view_def row sel)
  ultimately have g0: "good_step rid k E s ?u" and inv1: "log_inv rid k E ?u"
    using oku by (simp_all add: good_step_def log_inv_def)
  let ?v = "logged (run_updated ?u (run_ID y) (parent_set (run_ParentRunID y))) EventRunParent (run_ID y)
    (undo_payload (row_of_run y))"
  have g1: "good_step rid k E ?u ?v"
    by (rule good_run_event [OF inv1 new _ undo_run_parent]) (use ne in simp)
  show ?thesis
  proof (cases "run_ParentRunID y = []")
    case True
    with all g0 show ?thesis by simp
  next
    case False
    with all have p: "run_ParentRunID y \<in> keys r_id (runs ?u)" by simp
    have "db_ok ?v"
      using keepsD2 [OF keeps_syncParentRunIDFromTag oku syncParentRunIDFromTag_ok [OF oku new p]] .
    with g1 have "log_inv rid k E ?v" by (simp add: log_inv_def good_step_def)
    then have "good_step rid k E ?v (tag_set_state ?v (run_ID y) parentTag (run_ParentRunID y))"
      unfolding tag_set_state_single by (rule good_tags_set) (use ne in simp)
    with all False g0 g1 show ?thesis by (auto simp: parent_recorded_def intro: good_step_trans)
  qed
qed

text \<open>The janitor: two events for each archived run, written after all the changes.\<close>

lemma run_log_archive_other:
  "rid \<notin> set ids \<Longrightarrow> run_log rid (foldl (archive_logged s) u ids) = run_log rid u"
  by (induction ids arbitrary: u) (auto simp: archive_logged_def archive_events_def run_log_logged)

lemma run_log_archive:
  assumes "rid \<in> set ids" and "distinct ids" and row: "first_row (\<lambda>r. r_id r = rid) (runs s) = Some r"
    and ok: "db_ok s" "safe_run r" "safe_tags rid s"
  shows "\<exists>new. run_log rid (foldl (archive_logged s) u ids) = run_log rid u @ new \<and>
    foldr undo_event new v = undo_d (ev_of EventRunUpdate [(''before'', JObj (before_json r))])
      (undo_d (ev_of EventTagSet (tag_set_json archivedTag (utf8_coerce staleValue) (tag.get (tags s) rid archivedTag))) v)"
  using assms(1,2)
proof (induction ids arbitrary: u)
  case (Cons i ids)
  show ?case
  proof (cases "i = rid")
    case False
    then have "run_log rid (archive_logged s u i) = run_log rid u"
      by (simp add: archive_logged_def archive_events_def run_log_logged)
    with Cons.IH [of "archive_logged s u i"] Cons.prems False show ?thesis by simp
  next
    case True
    have "run_check r" using db_ok_run_check [OF ok(1)] first_row_Some [OF row] by blast
    then have 1: "json_any (undo_payload r) = JObj [(''before'', JObj (before_json r))]"
      using json_before_of [of r] ok(2) by simp
    have "utf8_valid archivedTag" by (rule utf8_valid_ascii) (simp add: archivedTag_def is_ascii_def)
    then have 2: "json_any (tag_payload archivedTag staleValue (tag.get (tags s) rid archivedTag)) =
        JObj (tag_set_json archivedTag (utf8_coerce staleValue) (tag.get (tags s) rid archivedTag))"
      using ok(3) by (intro json_tag_payload) (auto simp: safe_tags_def)
    have "\<exists>new. run_log rid (archive_logged s u rid) = run_log rid u @ new \<and>
        foldr undo_event new v = undo_d (ev_of EventRunUpdate [(''before'', JObj (before_json r))])
          (undo_d (ev_of EventTagSet (tag_set_json archivedTag (utf8_coerce staleValue) (tag.get (tags s) rid archivedTag))) v)"
      using row by (simp add: archive_logged_def archive_events_def run_log_logged captureRunBefore_def
          readTagValue_get decode_row [OF 1] decode_row [OF 2])
    moreover from True Cons.prems(2) have "rid \<notin> set ids" by simp
    ultimately show ?thesis using True by (simp add: run_log_archive_other)
  qed
qed simp

lemma archive_set_update: "archive_set n = no_run_set\<lparr>rs_status := Some StatusFailed, rs_end_time := Some n, rs_name := None\<rparr>"
  by (simp add: archive_set_def no_run_set_def)

lemma run_view_archived:
  assumes "first_row (\<lambda>r. r_id r = rid) (runs s) = Some r"
  shows "run_view rid (foldl (archive_logged s) (archived_all n s ids) ids) =
    (Some (run_of_row (if rid \<in> set ids then apply_run_set (archive_set n) r else r)),
     if rid \<in> set ids then (tag.get (tags s) rid)(archivedTag := Some staleValue) else tag.get (tags s) rid)"
  using assms first_row_Some [OF assms]
  by (auto simp: run_view_def archived_all_runs archived_all_tags first_row_update_where fun_eq_iff)

lemma json_safe_archived:
  assumes "json_safe rid s" and "\<bar>n\<bar> \<le> 2 ^ 53"
  shows "json_safe rid (foldl (archive_logged s) (archived_all n s ids) ids)"
proof -
  from assms(1) obtain r where r: "first_row (\<lambda>r. r_id r = rid) (runs s) = Some r" "safe_run r"
    by (auto simp: json_safe_def)
  have "safe_run (if r_id r \<in> set ids then apply_run_set (archive_set n) r else r)"
    using r(2) assms(2) by (simp add: safe_run_def apply_archive_set)
  moreover have "archivedTag \<noteq> []" "utf8_valid archivedTag" "utf8_valid staleValue"
    by (auto intro!: utf8_valid_ascii simp: archivedTag_def staleValue_def is_ascii_def)
  ultimately show ?thesis using assms(1) r(1)
    by (auto simp: json_safe_def safe_tags_def archived_all_runs archived_all_tags first_row_update_where)
qed

lemma good_ArchiveStaleRuns:
  assumes inv: "log_inv rid k E s"
  shows "good_step rid k E s (snd (ArchiveStaleRuns b s))"
proof -
  let ?n = "clock s (clock_pos s)" and ?u = "s\<lparr>clock_pos := Suc (clock_pos s)\<rparr>" and ?ids = "stale_ids b s"
  have ok: "db_ok s" using inv by (simp add: log_inv_def)
  have g0: "good_step rid k E s ?u" by (rule good_step_frame [OF inv]) simp_all
  then have inv1: "log_inv rid k E ?u"
    using ok clockless_db_ok by (simp add: log_inv_def good_step_def clockless_def)
  from inv1 obtain r where row: "first_row (\<lambda>r. r_id r = rid) (runs ?u) = Some r" "safe_run r"
    and tags: "safe_tags rid ?u" and n: "\<bar>?n\<bar> \<le> 2 ^ 53"
    by (auto simp: log_inv_def json_safe_def)
  let ?t = "foldl (archive_logged ?u) (archived_all ?n ?u ?ids) ?ids"
  have "undoes rid ?u ?t"
  proof (cases "rid \<in> set ?ids")
    case False
    have "run_log rid ?t = run_log rid (archived_all ?n ?u ?ids)" by (rule run_log_archive_other [OF False])
    moreover have "\<dots> = run_log rid ?u" by (simp add: run_log_def)
    moreover have "run_view rid ?t = run_view rid ?u"
      unfolding run_view_archived [OF row(1)] using False row(1) by (simp add: run_view_def)
    ultimately show ?thesis by (simp add: undoes_refl_frame)
  next
    case True
    have d: "distinct ?ids" by (rule stale_ids_props(1) [OF ok])
    have "archivedTag \<noteq> []" by (simp add: archivedTag_def)
    note undo = undo_run_update [OF row(2)] undo_tag_set [OF this]
    have "db_ok ?u" using inv1 by (simp add: log_inv_def)
    from run_log_archive [OF True d row(1) this row(2) tags, of "archived_all ?n ?u ?ids" "run_view rid ?t"]
    obtain new where new: "run_log rid ?t = run_log rid (archived_all ?n ?u ?ids) @ new"
      "foldr undo_event new (run_view rid ?t) = undo_d (ev_of EventRunUpdate [(''before'', JObj (before_json r))])
        (undo_d (ev_of EventTagSet (tag_set_json archivedTag (utf8_coerce staleValue) (tag.get (tags ?u) rid archivedTag)))
          (run_view rid ?t))"
      by blast
    have "foldr undo_event new (run_view rid ?t) = run_view rid ?u"
      unfolding new(2) using True row(1)
      by (simp add: run_view_archived [OF row(1)] undo_d_def undo archive_set_update) (simp add: run_view_def)
    moreover have "run_log rid (archived_all ?n ?u ?ids) = run_log rid ?u" by (simp add: run_log_def)
    ultimately show ?thesis using new(1) by (auto simp: undoes_def)
  qed
  moreover have "json_safe rid ?t"
    using inv1 n by (intro json_safe_archived) (simp_all add: log_inv_def)
  moreover have "timeline k E ?t"
    using inv1 by (intro timeline_archive_logged timeline_archived_all) (simp add: log_inv_def)
  ultimately have "good_step rid k E ?u ?t" by (simp add: good_step_def)
  with g0 have "good_step rid k E s ?t" by (rule good_step_trans)
  with g0 show ?thesis using ArchiveStaleRuns_ok [OF ok, of b] by auto
qed

section \<open>The interpretation\<close>

lemma run_step_good:
  assumes "log_inv rid k E s" and "run_step s t"
  shows "good_step rid k E s t \<and> db_ok t"
  using assms(2,1)
proof (induction rule: run_step.induct)
  case (SetTag t s x)
  then show ?case using good_SetTag [of rid k E s t x "fst (SetTag x t s)" "snd (SetTag x t s)"]
    by (auto simp: log_inv_def intro: keepsD [OF keeps_SetTag])
next
  case (SetTags ts s x)
  then show ?case using good_SetTags [of rid k E s ts x "fst (SetTags x ts s)" "snd (SetTags x ts s)"]
    by (auto simp: log_inv_def intro: keepsD [OF keeps_SetTags])
next
  case (CreateRun s newID r)
  then show ?case using good_CreateRun [of rid k E s newID r "fst (CreateRun newID r s)" "snd (CreateRun newID r s)"]
    by (auto simp: log_inv_def intro: keepsD [OF keeps_CreateRun])
next
  case (other t s)
  then show ?case by (auto intro: good_step_frame)
qed (auto simp: log_inv_def intro: keepsD keeps_intros
    good_UpdateRun [unfolded log_inv_def] good_SetRunLifecycle [unfolded log_inv_def]
    good_DeleteTag [unfolded log_inv_def] good_ArchiveStaleRuns [unfolded log_inv_def])

lemma clk_clock: "(\<And>c k. keeps (clk c k) m) \<Longrightarrow> clock (snd (m s)) = clock s"
  using forward [of m s "fst (m s)" "snd (m s)"] by simp

lemma run_step_clock: "run_step s t \<Longrightarrow> clock t = clock s"
  by (induction rule: run_step.induct) (simp_all add: clk_clock keeps_clk_methods keeps_clk_ArchiveStaleRuns)

lemma run_steps_clock: "run_step\<^sup>*\<^sup>* s t \<Longrightarrow> clock t = clock s"
  by (induction rule: rtranclp_induct) (simp_all add: run_step_clock)

interpretation run_history: undo_log "log_inv rid k E" run_step "run_view rid" "run_log rid" undo_event
  for rid k E
proof
  fix s t assume "log_inv rid k E s" "run_step s t"
  from run_step_good [OF this] show "log_inv rid k E t"
    and "\<exists>new. run_log rid t = run_log rid s @ new \<and> foldr undo_event new (run_view rid t) = run_view rid s"
    by (simp_all add: log_inv_def good_step_def undoes_def)
qed

end
