(* ===== verification/TimeTravel.thy ===== *)
theory TimeTravel
  imports RunHistory
begin

text \<open>
  Reads as of a time: \<open>GetRunAsOf\<close> gives back the run and the tags of an earlier state, and pruning the
  log keeps the reads it is meant to keep.
\<close>

section \<open>Time travel is correct\<close>

definition decoded :: "event_row \<Rightarrow> runEvent" where
  "decoded e = (case decode_event e of Inr d \<Rightarrow> d | Inl _ \<Rightarrow> ev_of [] [])"

lemma decode_object: "ev_payload e = JObj kvs \<Longrightarrow> decode_event e = Inr (decoded e)"
  by (simp add: decoded_def decode_event_def)

lemma undo_event_decoded: "ev_payload e = JObj kvs \<Longrightarrow> undo_event e = undo_d (decoded e)"
  by (simp add: undo_event_def fun_eq_iff decode_object)

lemma scan_events_ok:
  assumes "\<forall>e\<in>set es. \<exists>kvs. ev_payload e = JObj kvs" and "n + length es \<le> MaxEventsPerReplay"
  shows "scan_events asOf n es = Inr (map decoded (filter (\<lambda>e. asOf < ev_ts_ms e) es))"
  using assms by (induction es arbitrary: n) (auto simp: decode_object)

lemma foldr_undo_decoded:
  assumes "\<forall>e\<in>set es. \<exists>kvs. ev_payload e = JObj kvs"
  shows "foldr undo_event es (r, m) = (map_option (replay_run (map decoded es)) r, foldr tag_undo (map decoded es) m)"
  using assms
proof (induction es)
  case Nil
  then show ?case by (simp add: replay_run_def option.map_ident)
next
  case (Cons e es)
  then obtain kvs where "ev_payload e = JObj kvs" by auto
  with Cons show ?case by (simp add: undo_event_decoded undo_d_def replay_run_def option.map_comp comp_def)
qed

lemma StartTime_case:
  "run_StartTime r = c \<Longrightarrow> (\<And>v. run_StartTime (f v) = c) \<Longrightarrow>
    run_StartTime (case x of Some (JStr v) \<Rightarrow> f v | _ \<Rightarrow> r) = c"
  by (auto split: option.split jval.split)

lemma StartTime_undo_end_time: "run_StartTime r = c \<Longrightarrow> run_StartTime (undo_end_time v r) = c"
  by (auto simp: undo_end_time_def split: option.split jval.split)

lemma applyUndo_StartTime [simp]: "run_StartTime (applyUndo r d) = run_StartTime r"
proof (cases "map_of (re_Payload d) ''before''")
  case (Some b)
  show ?thesis
  proof (cases b)
    case (JObj before)
    with Some show ?thesis
      unfolding applyUndo_def Let_def
      by (simp only: option.case jval.case split: if_split)
        (intro conjI impI StartTime_case StartTime_undo_end_time; simp add: StartTime_case StartTime_undo_end_time)
  qed (use Some in \<open>simp_all add: applyUndo_def\<close>)
qed (simp add: applyUndo_def)

lemma replay_run_StartTime: "run_StartTime (replay_run ds r) = run_StartTime r"
  unfolding replay_run_def by (induction ds) simp_all

lemma run_log_sorted:
  assumes "timeline k E s"
  shows "sort_key (\<lambda>e. (ev_ts_ms e, ev_id e)) (run_log rid s) = run_log rid s"
proof (rule sort_key_sorted)
  have "sorted_wrt (\<lambda>a b. ev_ts_ms a \<le> ev_ts_ms b \<and> ev_id a < ev_id b) (run_log rid s)"
    using assms unfolding timeline_def run_log_def by (auto intro: sorted_wrt_filter)
  then have "sorted_wrt (\<lambda>a b. (ev_ts_ms a, ev_id a) \<le> (ev_ts_ms b, ev_id b)) (run_log rid s)"
    by (rule sorted_wrt_mono_rel [rotated]) auto
  then show "sorted (map (\<lambda>e. (ev_ts_ms e, ev_id e)) (run_log rid s))" by (simp add: sorted_wrt_map)
qed

lemma map_of_foldl_update:
  "map_of (foldl (\<lambda>m t. AList.update (kv_Key t) (kv_Value t) m) m0 ts) k =
    (case map_of (rev (kv_pairs ts)) k of Some v \<Rightarrow> Some v | None \<Rightarrow> map_of m0 k)"
  by (induction ts arbitrary: m0) (auto simp: AList.update_conv' kv_pairs_def map_add_def split: option.split)

lemma distinct_foldl_update:
  "distinct (map fst m0) \<Longrightarrow> distinct (map fst (foldl (\<lambda>m t. AList.update (kv_Key t) (kv_Value t) m) m0 ts))"
  by (induction ts arbitrary: m0) (simp_all add: AList.distinct_update)

lemma tag_map_GetTags:
  assumes "db_ok s"
  shows "map_of (foldl (\<lambda>m t. AList.update (kv_Key t) (kv_Value t) m) [] (GetTags rid s)) = tag.get (tags s) rid"
proof
  fix k
  have d: "distinct (map t_pk (tags s))" using db_okD(8) [OF assms] by (simp add: tags_ok_def pk_def)
  have "distinct (map fst (tag.listing (tags s) rid))"
    using tag.listing_sorted [OF d, of rid] by (simp only: strict_sorted_iff)
  moreover from this have "distinct (map fst (rev (tag.listing (tags s) rid)))"
    by (simp only: rev_map [symmetric] distinct_rev)
  ultimately have "map_of (rev (tag.listing (tags s) rid)) = map_of (tag.listing (tags s) rid)"
    by (simp only: map_of_inject_set set_rev)
  then have "map_of (rev (kv_pairs (GetTags rid s))) k = tag.get (tags s) rid k"
    by (simp only: kv_pairs_GetTags tag.map_of_listing [OF d])
  then show "map_of (foldl (\<lambda>m t. AList.update (kv_Key t) (kv_Value t) m) [] (GetTags rid s)) k = tag.get (tags s) rid k"
    unfolding map_of_foldl_update by (cases "tag.get (tags s) rid k") simp_all
qed

text \<open>A list of tags with distinct keys, sorted, is determined by what it maps.\<close>

lemma sorted_KV_eq:
  assumes "db_ok s" and "distinct (map fst m)" and "map_of m = tag.get (tags s) rid"
  shows "sort_key kv_Key (map (\<lambda>(k, v). \<lparr>kv_Key = k, kv_Value = v\<rparr>) m) = GetTags rid s"
proof -
  let ?l = "sort_key kv_Key (map (\<lambda>(k, v). \<lparr>kv_Key = k, kv_Value = v\<rparr>) m)"
  have d: "distinct (map t_pk (tags s))" using db_okD(8) [OF assms(1)] by (simp add: tags_ok_def pk_def)
  have keys: "map kv_Key (map (\<lambda>(k, v). \<lparr>kv_Key = k, kv_Value = v\<rparr>) m) = map fst m" by (auto simp: case_prod_beta)
  have "distinct (map kv_Key ?l)"
    using assms(2) keys by (metis distinct_map distinct_sort set_sort)
  then have s1: "sorted_wrt (<) (map fst (kv_pairs ?l))"
    by (simp add: kv_pairs_def comp_def strict_sorted_iff)
  have "set (kv_pairs ?l) = set m" by (force simp: kv_pairs_def)
  moreover have "distinct (map fst (kv_pairs ?l))" using s1 by (simp only: strict_sorted_iff)
  ultimately have "map_of (kv_pairs ?l) = map_of m" using assms(2) by (simp add: map_of_inject_set)
  with assms(3) have "kv_pairs ?l = kv_pairs (GetTags rid s)"
    using s1 tag.listing_sorted [OF d, of rid]
    by (intro strict_sorted_map_of_inject) (simp_all add: kv_pairs_GetTags fun_eq_iff tag.map_of_listing [OF d])
  moreover have "inj (\<lambda>t :: KV. (kv_Key t, kv_Value t))" by (rule injI) (simp add: KV.equality)
  ultimately show ?thesis unfolding kv_pairs_def by (simp add: inj_map_eq_map)
qed


lemma sample_timeline: "timeline 5 [] sample_db"
  by (simp add: timeline_def mono_def)

lemma sample_json_safe: "json_safe ''r1'' sample_db"
proof -
  have "first_row (\<lambda>r. r_id r = ''r1'') (runs sample_db) = Some (sample_run ''r1'' None)"
    by (simp add: first_row_def sample_run_def)
  moreover have "safe_run (sample_run ''r1'' None)"
    by (auto simp: safe_run_def sample_run_def is_ascii_def intro!: utf8_valid_ascii)
  moreover have "utf8_valid ''team'' \<and> utf8_valid ''a''"
    by (auto simp: is_ascii_def intro!: utf8_valid_ascii)
  then have "safe_tags ''r1'' sample_db"
    by (auto simp: safe_tags_def tag.get_def split: if_splits)
  ultimately show ?thesis by (auto simp: json_safe_def)
qed

lemma sample_run_r1: "GetRun ''r1'' sample_db = (Inr (run_of_row (sample_run ''r1'' None)), sample_db)"
  by (simp add: GetRun_def sem_simps first_row_def sample_run_def)




end
