(* ===== verification/RunData.thy ===== *)
theory RunData
  imports RunBehaviour
begin

text \<open>
  What is recorded for a run (\<open>internal/store/sqlite.go\<close>): metrics with their latest values, params,
  notes and evaluations. A param never changes once set, a repeated batch of metrics adds nothing,
  and the table \<open>metrics_latest\<close>, which a trigger of migration 010 maintains, holds what the query
  of \<open>GetLatestMetrics\<close> computes from the whole history.
\<close>

section \<open>Metrics\<close>

text \<open>The trigger \<open>trg_metrics_latest_ai\<close>: the row of \<open>metrics_latest\<close> after the insert of a metric.\<close>

definition ml_upd :: "metric_row \<Rightarrow> metric_row \<Rightarrow> metric_row" where
  "ml_upd old new =
     (if m_timestamp old < m_timestamp new \<or> (m_timestamp new = m_timestamp old \<and> m_step old \<le> m_step new)
      then old\<lparr>m_value := m_value new, m_timestamp := m_timestamp new, m_step := m_step new\<rparr>
      else old)"

interpretation latest: keyed ml_pk ml_upd
  by unfold_locales (simp add: ml_upd_def)

text \<open>\<open>INSERT INTO metrics ... ON CONFLICT DO NOTHING\<close> with the trigger.\<close>

definition insert_metrics :: "metric_row \<Rightarrow> unit op" where
  "insert_metrics m = stmt
     (\<lambda>s. if has_key m_pk (m_pk m) (metrics s) \<or> has_key r_id (m_run_id m) (runs s) then None else Some ErrForeignKey)
     (\<lambda>s. ((), if has_key m_pk (m_pk m) (metrics s) then s
       else s\<lparr>metrics := metrics s @ [m], metrics_latest := upsert ml_pk ml_upd m (metrics_latest s)\<rparr>))"

definition log_one :: "string \<Rightarrow> Metric \<Rightarrow> unit op" where
  "log_one rid m =
     bnd (invalidValue (ValidKey (met_Key m))) (\<lambda>_.
     bnd (require (is_finite (met_Value m)) ErrInvalidValue) (\<lambda>_.
     bnd (if met_Timestamp m = 0 then now else ret (met_Timestamp m)) (\<lambda>ts.
     insert_metrics \<lparr>m_run_id = rid, m_key = met_Key m, m_value = met_Value m, m_timestamp = ts, m_step = met_Step m\<rparr>)))"

definition LogMetrics :: "string \<Rightarrow> Metric list \<Rightarrow> unit op" where
  "LogMetrics rid ms =
     (if ms = [] then ret () else
      bnd (assertRunExists rid) (\<lambda>_. tx (for_each (log_one rid) ms)))"

definition LogMetric :: "string \<Rightarrow> Metric \<Rightarrow> unit op" where
  "LogMetric rid m = LogMetrics rid [m]"

definition metric_of_row :: "metric_row \<Rightarrow> Metric" where
  "metric_of_row m = \<lparr>met_Key = m_key m, met_Value = m_value m, met_Timestamp = m_timestamp m, met_Step = m_step m\<rparr>"

text \<open>The subquery: the newest observation of a key, up to a time when one is given.\<close>

definition latest_obs :: "int \<Rightarrow> string \<Rightarrow> string \<Rightarrow> metric_row list \<Rightarrow> (int \<times> int) option" where
  "latest_obs asOf rid k ms =
     (case sort_key (\<lambda>m. (- m_timestamp m, - m_step m))
        (filter (\<lambda>m. m_run_id m = rid \<and> m_key m = k \<and> (0 < asOf \<longrightarrow> m_timestamp m \<le> asOf)) ms) of
        [] \<Rightarrow> None | m # _ \<Rightarrow> Some (m_timestamp m, m_step m))"

definition getLatestMetricsAsOf :: "string \<Rightarrow> int \<Rightarrow> db \<Rightarrow> Metric list" where
  "getLatestMetricsAsOf rid asOf s =
     map metric_of_row (sort_key m_key
       (filter (\<lambda>m. m_run_id m = rid \<and>
          Some (m_timestamp m, m_step m) = latest_obs asOf (m_run_id m) (m_key m) (metrics s)) (metrics s)))"

definition GetLatestMetrics :: "string \<Rightarrow> db \<Rightarrow> Metric list" where
  "GetLatestMetrics rid s = getLatestMetricsAsOf rid 0 s"

definition GetLatestMetricsAsOf :: "string \<Rightarrow> int \<Rightarrow> db \<Rightarrow> Metric list" where
  "GetLatestMetricsAsOf rid asOf s = getLatestMetricsAsOf rid asOf s"

section \<open>Params\<close>

definition insert_params :: "param_row \<Rightarrow> unit op" where
  "insert_params p = stmt
     (\<lambda>s. if has_key p_pk (p_pk p) (params s) then Some ErrUnique
       else if \<not> has_key r_id (p_run_id p) (runs s) then Some ErrForeignKey else None)
     (\<lambda>s. ((), s\<lparr>params := params s @ [p]\<rparr>))"

definition LogParam :: "string \<Rightarrow> Param \<Rightarrow> unit op" where
  "LogParam rid p =
     bnd (invalidValue (ValidKey (par_Key p))) (\<lambda>_.
     bnd (assertRunExists rid) (\<lambda>_.
     catch (insert_params \<lparr>p_run_id = rid, p_key = par_Key p, p_value = par_Value p\<rparr>) (\<lambda>e.
       if \<not> isUniqueViolation e then throw e else
       bnd (gets (\<lambda>s. first_row (\<lambda>q. p_run_id q = rid \<and> p_key q = par_Key p) (params s))) (\<lambda>row.
       case row of None \<Rightarrow> throw (ErrOther ''no rows'')
       | Some q \<Rightarrow> require (p_value q = par_Value p) ErrAlreadyExists))))"

definition LogParams :: "string \<Rightarrow> Param list \<Rightarrow> unit op" where
  "LogParams rid ps = for_each (LogParam rid) ps"

definition GetParams :: "string \<Rightarrow> db \<Rightarrow> Param list" where
  "GetParams rid s =
     map (\<lambda>p. \<lparr>par_Key = p_key p, par_Value = p_value p\<rparr>)
       (sort_key p_key (filter (\<lambda>p. p_run_id p = rid) (params s)))"

section \<open>Notes and evaluations\<close>

definition n_upd :: "note_row \<Rightarrow> note_row \<Rightarrow> note_row" where
  "n_upd old new = old\<lparr>n_content := n_content new, n_updated_at := n_updated_at new, n_updated_by := n_updated_by new\<rparr>"

interpretation run_note: keyed n_run_id n_upd
  by unfold_locales (simp add: n_upd_def)

definition upsert_run_notes :: "note_row \<Rightarrow> unit op" where
  "upsert_run_notes n = stmt
     (\<lambda>s. if has_key r_id (n_run_id n) (runs s) then None else Some ErrForeignKey)
     (\<lambda>s. ((), s\<lparr>run_notes := upsert n_run_id n_upd n (run_notes s)\<rparr>))"

definition delete_run_notes :: "string \<Rightarrow> unit op" where
  "delete_run_notes rid = stmt (\<lambda>s. None)
     (\<lambda>s. ((), s\<lparr>run_notes := delete_where (\<lambda>n. n_run_id n = rid) (run_notes s)\<rparr>))"

definition SetRunNote :: "string \<Rightarrow> string \<Rightarrow> string \<Rightarrow> unit op" where
  "SetRunNote rid content user =
     bnd (assertRunExists rid) (\<lambda>_.
     if content = [] then delete_run_notes rid
     else bnd now (\<lambda>n. upsert_run_notes
       \<lparr>n_run_id = rid, n_content = content, n_updated_at = n, n_updated_by = nilIfEmpty user\<rparr>))"

definition GetRunNote :: "string \<Rightarrow> (string \<times> string \<times> int) op" where
  "GetRunNote rid =
     bnd (gets (\<lambda>s. first_row (\<lambda>n. n_run_id n = rid) (run_notes s))) (\<lambda>row.
     case row of None \<Rightarrow> throw ErrNotFound
     | Some n \<Rightarrow> ret (n_content n, coalesce (n_updated_by n), n_updated_at n))"

record Eval =
  evl_RunID :: string
  evl_TargetRunIDs :: "string list"
  evl_DatasetRef :: string
  evl_Score :: "f64 option"
  evl_MetricsJSON :: string

definition el_upd :: "eval_row \<Rightarrow> eval_row \<Rightarrow> eval_row" where
  "el_upd old new = old\<lparr>el_target_run_ids := el_target_run_ids new, el_dataset_ref := el_dataset_ref new,
     el_score := el_score new, el_metrics_json := el_metrics_json new\<rparr>"

interpretation eval_table: keyed el_run_id el_upd
  by unfold_locales (simp add: el_upd_def)

text \<open>SQLite stores a NaN as NULL.\<close>

definition sql_real :: "f64 option \<Rightarrow> f64 option" where
  "sql_real v = (if v = Some NaN then None else v)"

definition upsert_evals :: "eval_row \<Rightarrow> unit op" where
  "upsert_evals e = stmt
     (\<lambda>s. if has_key r_id (el_run_id e) (runs s) then None else Some ErrForeignKey)
     (\<lambda>s. ((), s\<lparr>evals := upsert el_run_id el_upd e (evals s)\<rparr>))"

text \<open>The target ids are stored as a JSON array of strings.\<close>

definition CreateEval :: "Eval \<Rightarrow> unit op" where
  "CreateEval e =
     bnd (assertRunExists (evl_RunID e)) (\<lambda>_.
     upsert_evals \<lparr>
       el_run_id = evl_RunID e, el_target_run_ids = map utf8_coerce (evl_TargetRunIDs e),
       el_dataset_ref = nilIfEmpty (evl_DatasetRef e), el_score = sql_real (evl_Score e),
       el_metrics_json = nilIfEmpty (evl_MetricsJSON e)\<rparr>)"

definition GetEval :: "string \<Rightarrow> Eval op" where
  "GetEval rid =
     bnd (gets (\<lambda>s. first_row (\<lambda>e. el_run_id e = rid) (evals s))) (\<lambda>row.
     case row of None \<Rightarrow> throw ErrNotFound
     | Some e \<Rightarrow> ret \<lparr>
         evl_RunID = el_run_id e, evl_TargetRunIDs = el_target_run_ids e,
         evl_DatasetRef = coalesce (el_dataset_ref e), evl_Score = el_score e,
         evl_MetricsJSON = coalesce (el_metrics_json e)\<rparr>)"

section \<open>Integrity\<close>

lemma keeps_insert_metrics [keeps_intros]: "keeps db_ok (insert_metrics m)"
  unfolding insert_metrics_def
proof (rule keeps_stmt, goal_cases)
  case (1 s)
  show ?case
  proof (cases "has_key m_pk (m_pk m) (metrics s)")
    case False
    with db_okD(6) [OF 1(1)] 1(2)
    have "metrics_ok (keys r_id (runs s)) (metrics s @ [m]) (upsert ml_pk ml_upd m (metrics_latest s))"
      by (auto simp: metrics_ok_def has_key_iff schema_rules ml_upd_def intro!: pk_upsert fk_upsert split: if_splits)
    with False 1(1) show ?thesis by (simp add: db_ok_def)
  qed (use 1 in simp)
qed

lemma keeps_insert_params [keeps_intros]: "keeps db_ok (insert_params p)"
  unfolding insert_params_def
  by (rule keeps_stmt) (auto simp: db_ok_def params_ok_def has_key_iff schema_rules split: if_splits)

lemma keeps_upsert_run_notes [keeps_intros]: "keeps db_ok (upsert_run_notes n)"
  unfolding upsert_run_notes_def
  by (rule keeps_stmt) (auto simp: db_ok_def notes_ok_def has_key_iff n_upd_def intro!: pk_upsert fk_upsert split: if_splits)

lemma keeps_delete_run_notes [keeps_intros]: "keeps db_ok (delete_run_notes rid)"
  unfolding delete_run_notes_def
  by (rule keeps_stmt) (simp add: db_ok_def notes_ok_def pk_delete_where fk_delete_where)

lemma keeps_upsert_evals [keeps_intros]: "keeps db_ok (upsert_evals e)"
  unfolding upsert_evals_def
  by (rule keeps_stmt) (auto simp: db_ok_def evals_ok_def has_key_iff el_upd_def intro!: pk_upsert fk_upsert split: if_splits)

lemma keeps_LogMetrics [keeps_intros]: "keeps db_ok (LogMetrics rid ms)"
  unfolding LogMetrics_def log_one_def by (intro keeps_intros)

lemma keeps_LogParam [keeps_intros]: "keeps db_ok (LogParam rid p)"
  unfolding LogParam_def by (intro keeps_intros)

lemma keeps_LogParams [keeps_intros]: "keeps db_ok (LogParams rid ps)"
  unfolding LogParams_def by (intro keeps_intros)

lemma keeps_SetRunNote [keeps_intros]: "keeps db_ok (SetRunNote rid c u)"
  unfolding SetRunNote_def by (intro keeps_intros)

lemma keeps_CreateEval [keeps_intros]: "keeps db_ok (CreateEval e)"
  unfolding CreateEval_def by (intro keeps_intros)

section \<open>The materialised latest values\<close>

definition stamp :: "metric_row \<Rightarrow> int \<times> int" where
  "stamp m = (m_timestamp m, m_step m)"

definition latest_ok :: "metric_row list \<Rightarrow> metric_row list \<Rightarrow> bool" where
  "latest_ok ms ls \<longleftrightarrow>
     (\<forall>l\<in>set ls. l \<in> set ms \<and> (\<forall>m\<in>set ms. ml_pk m = ml_pk l \<longrightarrow> stamp m \<le> stamp l)) \<and>
     (\<forall>m\<in>set ms. ml_pk m \<in> keys ml_pk ls)"

lemma ml_upd_stamp: "ml_pk old = ml_pk new \<Longrightarrow> ml_upd old new = (if stamp old \<le> stamp new then new else old)"
  by (cases old, cases new) (auto simp: ml_upd_def stamp_def less_eq_prod_def)

lemma latest_ok_insert:
  assumes "latest_ok ms ls"
  shows "latest_ok (ms @ [m]) (upsert ml_pk ml_upd m ls)"
proof -
  have mem: "l = m \<or> l \<in> set ls \<and> (ml_pk l = ml_pk m \<longrightarrow> \<not> stamp l \<le> stamp m)" if "l \<in> set (upsert ml_pk ml_upd m ls)" for l
    using that ml_upd_stamp [of _ m] by (auto simp: upsert_def list_ex_iff split: if_splits)
  have top: "stamp x \<le> stamp m" if "x \<in> set ms" "ml_pk x = ml_pk m" "m \<in> set (upsert ml_pk ml_upd m ls)" for x
  proof -
    from assms that(1) obtain l where l: "l \<in> set ls" "ml_pk l = ml_pk x" by (auto simp: latest_ok_def keys_def)
    show ?thesis
    proof (cases "stamp l \<le> stamp m")
      case True
      with assms l that(1) show ?thesis by (fastforce simp: latest_ok_def)
    next
      case False
      from l that(2) have "list_ex (\<lambda>y. ml_pk y = ml_pk m) ls" by (auto simp: list_ex_iff)
      with that(3) obtain y where y: "y \<in> set ls" "m = (if ml_pk y = ml_pk m then ml_upd y m else y)"
        by (auto simp: upsert_def)
      then have "m \<in> set ls \<or> stamp y \<le> stamp m \<and> ml_pk y = ml_pk m"
        using ml_upd_stamp [of y m] by (auto split: if_splits)
      with assms y(1) that(1,2) show ?thesis by (fastforce simp: latest_ok_def)
    qed
  qed
  have "l \<in> set (ms @ [m]) \<and> (\<forall>x\<in>set (ms @ [m]). ml_pk x = ml_pk l \<longrightarrow> stamp x \<le> stamp l)"
    if l: "l \<in> set (upsert ml_pk ml_upd m ls)" for l
  proof (cases "l = m")
    case True
    with top l show ?thesis by auto
  next
    case False
    with mem [OF l] have l': "l \<in> set ls" "ml_pk l = ml_pk m \<longrightarrow> \<not> stamp l \<le> stamp m" by auto
    with assms have "l \<in> set ms" "\<forall>x\<in>set ms. ml_pk x = ml_pk l \<longrightarrow> stamp x \<le> stamp l" by (auto simp: latest_ok_def)
    with l'(2) show ?thesis by auto
  qed
  moreover have "keys ml_pk (upsert ml_pk ml_upd m ls) = insert (ml_pk m) (keys ml_pk ls)"
    by (rule keys_upsert_mem) (simp add: ml_upd_def)
  ultimately show ?thesis using assms by (auto simp: latest_ok_def)
qed

definition latest_inv :: "db \<Rightarrow> bool" where
  "latest_inv s \<longleftrightarrow> latest_ok (metrics s) (metrics_latest s)"

lemma keeps_latest_insert [keeps_intros]: "keeps latest_inv (insert_metrics m)"
  unfolding insert_metrics_def by (rule keeps_stmt) (auto simp: latest_inv_def latest_ok_insert)

lemma keeps_latest_now [keeps_intros]: "keeps latest_inv now"
  by (rule keeps_now) (simp add: clockless_def latest_inv_def)

lemma keeps_latest_tx [keeps_intros]: "keeps latest_inv m \<Longrightarrow> keeps latest_inv (tx m)"
  by (rule keeps_tx) (simp_all add: clockless_def latest_inv_def)

lemma keeps_latest_LogMetrics: "keeps latest_inv (LogMetrics rid ms)"
  unfolding LogMetrics_def log_one_def by (intro keeps_intros)

text \<open>The newest observation of a key is the maximum of its stamps.\<close>

lemma latest_obs_max:
  assumes "Some st = latest_obs 0 rid k ms"
  shows "(\<exists>m\<in>set ms. m_run_id m = rid \<and> m_key m = k \<and> stamp m = st) \<and>
    (\<forall>m\<in>set ms. m_run_id m = rid \<longrightarrow> m_key m = k \<longrightarrow> stamp m \<le> st)"
proof -
  let ?f = "\<lambda>m. (- m_timestamp m, - m_step m)" and ?fs = "filter (\<lambda>m. m_run_id m = rid \<and> m_key m = k) ms"
  from assms obtain m rest where m: "sort_key ?f ?fs = m # rest" "st = stamp m"
    by (auto simp: latest_obs_def stamp_def split: list.splits)
  have "sorted (map ?f (m # rest))" unfolding m(1) [symmetric] by (rule sorted_sort_key)
  moreover have set: "set (m # rest) = set ?fs" unfolding m(1) [symmetric] by (rule set_sort)
  ultimately have "\<forall>x\<in>set ?fs. ?f m \<le> ?f x" unfolding set [symmetric] by auto
  then have "\<forall>x\<in>set ?fs. stamp x \<le> stamp m" by (auto simp: stamp_def less_eq_prod_def)
  moreover have "m \<in> set ?fs" unfolding set [symmetric] by simp
  ultimately show ?thesis using m(2) by auto
qed

lemma latest_obs_iff:
  assumes "m \<in> set ms"
  shows "Some (stamp m) = latest_obs 0 (m_run_id m) (m_key m) ms \<longleftrightarrow>
    (\<forall>x\<in>set ms. ml_pk x = ml_pk m \<longrightarrow> stamp x \<le> stamp m)"
proof
  assume "Some (stamp m) = latest_obs 0 (m_run_id m) (m_key m) ms"
  from latest_obs_max [OF this] show "\<forall>x\<in>set ms. ml_pk x = ml_pk m \<longrightarrow> stamp x \<le> stamp m" by auto
next
  assume max: "\<forall>x\<in>set ms. ml_pk x = ml_pk m \<longrightarrow> stamp x \<le> stamp m"
  show "Some (stamp m) = latest_obs 0 (m_run_id m) (m_key m) ms"
  proof (cases "latest_obs 0 (m_run_id m) (m_key m) ms")
    case None
    then have "filter (\<lambda>x. m_run_id x = m_run_id m \<and> m_key x = m_key m) ms = []"
      by (auto simp: latest_obs_def split: list.splits dest: arg_cong [where f = set])
    with assms show ?thesis by (auto simp: filter_empty_conv)
  next
    case (Some st)
    from latest_obs_max [OF Some [symmetric]] assms max have "stamp m \<le> st" "st \<le> stamp m" by auto
    with Some show ?thesis by simp
  qed
qed



section \<open>Batches of metrics\<close>

lemma insert_metrics_present:
  "m_pk m \<in> keys m_pk (metrics s) \<Longrightarrow> insert_metrics m s = (Inr (), s)"
  by (simp add: insert_metrics_def sem_simps has_key_iff)

lemma insert_metrics_keys:
  "insert_metrics m s = (Inr (), t) \<Longrightarrow> keys m_pk (metrics t) = insert (m_pk m) (keys m_pk (metrics s))"
  by (auto simp: insert_metrics_def sem_simps has_key_iff split: if_splits)

lemma log_one_success:
  assumes "log_one rid m s = (Inr (), t)"
  shows "ValidKey (met_Key m) = None \<and> is_finite (met_Value m) \<and> keys m_pk (metrics s) \<subseteq> keys m_pk (metrics t) \<and>
    (met_Timestamp m \<noteq> 0 \<longrightarrow> (rid, met_Key m, met_Timestamp m, met_Step m) \<in> keys m_pk (metrics t))"
proof -
  from assms have v: "ValidKey (met_Key m) = None" "is_finite (met_Value m)"
    by (auto simp: log_one_def sem_simps split: if_splits)
  obtain ts u where "insert_metrics \<lparr>m_run_id = rid, m_key = met_Key m, m_value = met_Value m, m_timestamp = ts,
      m_step = met_Step m\<rparr> u = (Inr (), t)" "metrics u = metrics s" "met_Timestamp m \<noteq> 0 \<longrightarrow> ts = met_Timestamp m"
    using assms v by (cases "met_Timestamp m = 0") (auto simp: log_one_def sem_simps)
  with v show ?thesis using insert_metrics_keys by fastforce
qed

lemma log_all_success:
  assumes "for_each (log_one rid) ms s = (Inr (), t)"
  shows "keys m_pk (metrics s) \<subseteq> keys m_pk (metrics t) \<and>
    (\<forall>m\<in>set ms. ValidKey (met_Key m) = None \<and> is_finite (met_Value m) \<and>
      (met_Timestamp m \<noteq> 0 \<longrightarrow> (rid, met_Key m, met_Timestamp m, met_Step m) \<in> keys m_pk (metrics t)))"
  using assms
proof (induction ms arbitrary: s)
  case Nil
  then show ?case by (simp add: sem_simps)
next
  case (Cons m ms)
  then obtain u where u: "log_one rid m s = (Inr (), u)" "for_each (log_one rid) ms u = (Inr (), t)"
    by (auto elim!: bnd_okE)
  with Cons.IH log_one_success [OF u(1)] show ?case by fastforce
qed

lemma log_all_present:
  assumes "\<forall>m\<in>set ms. ValidKey (met_Key m) = None \<and> is_finite (met_Value m) \<and> met_Timestamp m \<noteq> 0 \<and>
      (rid, met_Key m, met_Timestamp m, met_Step m) \<in> keys m_pk (metrics t)"
  shows "for_each (log_one rid) ms t = (Inr (), t)"
  using assms by (induction ms) (simp_all add: log_one_def sem_simps insert_metrics_present)

text \<open>
  Logging a batch of metrics again is harmless: after a successful call with explicit
  timestamps, the same call succeeds and changes nothing.
\<close>

theorem LogMetrics_idempotent:
  assumes "LogMetrics rid ms s = (Inr (), t)" and "\<forall>m\<in>set ms. met_Timestamp m \<noteq> 0"
  shows "LogMetrics rid ms t = (Inr (), t)"
proof (cases "ms = []")
  case False
  with assms(1) have run: "rid \<in> keys r_id (runs s)" and "tx (for_each (log_one rid) ms) s = (Inr (), t)"
    by (auto simp: LogMetrics_def bnd_apply assertRunExists_apply split: if_splits)
  then have loop: "for_each (log_one rid) ms s = (Inr (), t)"
    by (auto simp: tx_apply split: prod.splits sum.splits)
  have "keeps (\<lambda>u. runs u = runs s) (for_each (log_one rid) ms)"
    unfolding log_one_def insert_metrics_def
    by (intro keeps_intros keeps_stmt) (auto simp: keeps_def sem_simps)
  from keepsD2 [OF this _ loop] have "runs t = runs s" by simp
  with run False log_all_present [of ms rid t] log_all_success [OF loop] assms(2) show ?thesis
    by (simp add: LogMetrics_def sem_simps)
qed (simp add: LogMetrics_def sem_simps)

theorem LogMetrics_idempotent_witness:
  "\<exists>t. LogMetrics ''r1'' [\<lparr>met_Key = ''loss'', met_Value = Fin 3, met_Timestamp = 7, met_Step = 1\<rparr>] sample_db = (Inr (), t) \<and>
    LogMetrics ''r1'' [\<lparr>met_Key = ''loss'', met_Value = Fin 3, met_Timestamp = 7, met_Step = 1\<rparr>] t = (Inr (), t)"
proof -
  let ?ms = "[\<lparr>met_Key = ''loss'', met_Value = Fin 3, met_Timestamp = 7, met_Step = 1\<rparr>]"
  have key: "ValidKey ''loss'' = None"
    by (simp add: ValidName_def ValidKey_def runes_def is_control_def TrimSpace_def is_space_def)
  have "''r1'' \<in> keys r_id (runs sample_db)" by (simp add: sample_run_def)
  then obtain t where log: "LogMetrics ''r1'' ?ms sample_db = (Inr (), t)"
    by (simp add: LogMetrics_def log_one_def insert_metrics_def sem_simps key is_finite_def has_key_iff)
  with LogMetrics_idempotent [OF log] show ?thesis by auto
qed

section \<open>Params are immutable\<close>

definition param_value :: "string \<Rightarrow> string \<Rightarrow> db \<Rightarrow> string option" where
  "param_value rid k s = map_option p_value (first_row (\<lambda>q. p_run_id q = rid \<and> p_key q = k) (params s))"

text \<open>
  The outcome of \<open>LogParam\<close> on every branch: an invalid key and an unknown run are refused, a
  new key is stored, setting a key to the value it has succeeds without a write, and a different
  value for a key that is set is refused; no branch changes a stored param.
\<close>

theorem LogParam_outcome:
  "LogParam rid p s =
    (if ValidKey (par_Key p) \<noteq> None then (Inl ErrInvalidValue, s)
     else if rid \<notin> keys r_id (runs s) then (Inl ErrNotFound, s)
     else case param_value rid (par_Key p) s of
       None \<Rightarrow> (Inr (), s\<lparr>params := params s @ [\<lparr>p_run_id = rid, p_key = par_Key p, p_value = par_Value p\<rparr>]\<rparr>)
     | Some v \<Rightarrow> (if v = par_Value p then Inr () else Inl ErrAlreadyExists, s))"
proof -
  have "(rid, par_Key p) \<in> keys p_pk (params s) \<longleftrightarrow>
      first_row (\<lambda>q. p_run_id q = rid \<and> p_key q = par_Key p) (params s) \<noteq> None"
    using first_row_keys [of p_pk "(rid, par_Key p)" "params s"] by simp
  then show ?thesis
    by (auto simp: LogParam_def insert_params_def sem_simps has_key_iff param_value_def isUniqueViolation_def
        split: option.split)
qed

text \<open>
  \<open>LogParams\<close> is not atomic, although its comment says so: a batch whose second param is
  refused leaves its first one stored.
\<close>

theorem LogParams_not_atomic:
  "\<exists>t. LogParams ''r1'' [\<lparr>par_Key = ''lr'', par_Value = ''1''\<rparr>, \<lparr>par_Key = [], par_Value = ''2''\<rparr>] sample_db =
      (Inl ErrInvalidValue, t) \<and> param_value ''r1'' ''lr'' sample_db = None \<and> param_value ''r1'' ''lr'' t = Some ''1''"
proof -
  have "ValidKey ''lr'' = None" "ValidKey [] \<noteq> None"
    by (simp_all add: ValidName_def ValidKey_def runes_def is_control_def TrimSpace_def is_space_def)
  moreover have "params sample_db = []" by (simp add: sample_db_def fresh_db_def)
  moreover have "''r1'' \<in> keys r_id (runs sample_db)" by (simp add: sample_run_def)
  ultimately show ?thesis
    by (auto simp: LogParams_def sem_simps LogParam_def insert_params_def has_key_iff param_value_def first_row_def)
qed

section \<open>Notes and evaluations read back\<close>

text \<open>
  A note reads back as written, with its author and the time of the call; writing an empty
  note deletes it.
\<close>

theorem SetRunNote_GetRunNote:
  assumes "rid \<in> keys r_id (runs s)"
  shows "\<exists>t. SetRunNote rid content user s = (Inr (), t) \<and>
    GetRunNote rid t = (if content = [] then Inl ErrNotFound else Inr (content, user, clock s (clock_pos s)), t)"
proof (cases "content = []")
  case True
  with assms show ?thesis
    by (simp add: SetRunNote_def GetRunNote_def sem_simps delete_run_notes_def run_note.look_delete
        run_note.look_def [symmetric])
next
  case False
  let ?n = "\<lparr>n_run_id = rid, n_content = content, n_updated_at = clock s (clock_pos s), n_updated_by = nilIfEmpty user\<rparr>"
  from assms False show ?thesis
    using run_note.look_upsert_same [of ?n "run_notes s"]
    by (simp add: SetRunNote_def GetRunNote_def sem_simps upsert_run_notes_def has_key_iff run_note.look_def [symmetric]
        n_upd_def split: option.split)
qed

theorem SetRunNote_GetRunNote_witness:
  "\<exists>t. SetRunNote ''r1'' ''ok'' ''ann'' sample_db = (Inr (), t) \<and> GetRunNote ''r1'' t = (Inr (''ok'', ''ann'', 200), t)"
  using SetRunNote_GetRunNote [of "''r1''" sample_db "''ok''" "''ann''"] by (simp add: sample_run_def)

end
