(* ===== verification/BatchLoad.thy ===== *)
theory BatchLoad
  imports Prelude
begin

text \<open>
  The batched loaders of the store (\<open>loadExperimentTags\<close>, \<open>loadRegisteredModelTags\<close>,
  \<open>loadRegisteredModelAliases\<close>, \<open>loadModelVersionMeta\<close>) read the rows of up to a batch of owners with
  one query, ordered by owner and name, and append each row to its owner. The locale \<open>batch_loader\<close>
  shows that this loop gives every owner what a query for that owner alone would.
\<close>

text \<open>\<open>for start := 0; start < len(xs); start += n { xs[start:min(start+n, len(xs))] }\<close>\<close>

function chunks :: "nat \<Rightarrow> 'a list \<Rightarrow> 'a list list" where
  "chunks n xs = (if xs = [] \<or> n = 0 then [] else take n xs # chunks n (drop n xs))"
  by pat_completeness auto
termination
  by (relation "measure (length \<circ> snd)") auto

declare chunks.simps [simp del]

lemma concat_chunks: "0 < n \<Longrightarrow> concat (chunks n xs) = xs"
proof (induction n xs rule: chunks.induct)
  case (1 n xs)
  then show ?case by (subst chunks.simps) auto
qed

lemma sort_key_pair_const:
  "(\<And>x. x \<in> set xs \<Longrightarrow> f x = c) \<Longrightarrow> sort_key (\<lambda>x. (f x, g x)) xs = sort_key g xs"
proof (induction xs)
  case (Cons a xs)
  have "insort_key (\<lambda>x. (f x, g x)) a ys = insort_key g a ys" if "\<forall>y\<in>set ys. f y = f a" for ys
    using that by (induction ys) auto
  with Cons show ?case by simp
qed simp

text \<open>
  The loop: the rows of a batch, the append of each row to its owner (\<open>byKey\<close> finds it by key), and
  the batches one after the other. \<open>load_one\<close> is what one query for one owner gives.
\<close>

definition batch_rows ::
  "('m \<Rightarrow> 'k::linorder) \<Rightarrow> ('r \<Rightarrow> 'k) \<Rightarrow> ('r \<Rightarrow> 's::linorder) \<Rightarrow> 'r list \<Rightarrow> 'm list \<Rightarrow> 'r list" where
  "batch_rows key owner sub tbl batch =
     sort_key (\<lambda>r. (owner r, sub r)) (filter (\<lambda>r. owner r \<in> set (map key batch)) tbl)"

definition append_rows :: "('m \<Rightarrow> 'k) \<Rightarrow> ('r \<Rightarrow> 'k) \<Rightarrow> ('m \<Rightarrow> 'r \<Rightarrow> 'm) \<Rightarrow> 'm list \<Rightarrow> 'r list \<Rightarrow> 'm list" where
  "append_rows key owner add ms rows =
     foldl (\<lambda>ms r. map (\<lambda>m. if key m = owner r then add m r else m) ms) ms rows"

definition batch_load ::
  "('m \<Rightarrow> 'k::linorder) \<Rightarrow> ('r \<Rightarrow> 'k) \<Rightarrow> ('r \<Rightarrow> 's::linorder) \<Rightarrow> ('m \<Rightarrow> 'r \<Rightarrow> 'm) \<Rightarrow> nat \<Rightarrow> 'r list \<Rightarrow> 'm list \<Rightarrow> 'm list" where
  "batch_load key owner sub add n tbl ms =
     foldl (\<lambda>ms' b. append_rows key owner add ms' (batch_rows key owner sub tbl b)) ms (chunks n ms)"

definition load_one ::
  "('m \<Rightarrow> 'k) \<Rightarrow> ('r \<Rightarrow> 'k) \<Rightarrow> ('r \<Rightarrow> 's::linorder) \<Rightarrow> ('m \<Rightarrow> 'r \<Rightarrow> 'm) \<Rightarrow> 'r list \<Rightarrow> 'm \<Rightarrow> 'm" where
  "load_one key owner sub add tbl m = foldl add m (sort_key sub (filter (\<lambda>r. owner r = key m) tbl))"

locale batch_loader =
  fixes key :: "'m \<Rightarrow> ('k::linorder)"
    and owner :: "'r \<Rightarrow> 'k"
    and sub :: "'r \<Rightarrow> ('s::linorder)"
    and add :: "'m \<Rightarrow> 'r \<Rightarrow> 'm"
  assumes key_add: "key (add m r) = key m"
begin

lemma key_foldl_add: "key (foldl add m rs) = key m"
  by (induction rs arbitrary: m) (simp_all add: key_add)

lemma append_rows_map: "append_rows key owner add ms rows = map (\<lambda>m. foldl add m (filter (\<lambda>r. owner r = key m) rows)) ms"
proof (induction rows arbitrary: ms)
  case Nil
  then show ?case by (simp add: append_rows_def)
next
  case (Cons r rows)
  let ?ms = "map (\<lambda>m. if key m = owner r then add m r else m) ms"
  have "append_rows key owner add ms (r # rows) = append_rows key owner add ?ms rows" by (simp add: append_rows_def)
  with Cons.IH [of ?ms] show ?case by (auto simp: key_add)
qed

lemma load_map:
  "foldl (\<lambda>ms' b. append_rows key owner add ms' (batch_rows key owner sub tbl b)) ms bs =
    map (\<lambda>m. foldl add m (concat (map (\<lambda>b. filter (\<lambda>r. owner r = key m) (batch_rows key owner sub tbl b)) bs))) ms"
proof (induction bs arbitrary: ms)
  case Nil
  then show ?case by simp
next
  case (Cons b bs)
  then show ?case by (simp add: append_rows_map key_foldl_add)
qed

lemma own_rows:
  "filter (\<lambda>r. owner r = k) (batch_rows key owner sub tbl b) =
    (if k \<in> key ` set b then sort_key sub (filter (\<lambda>r. owner r = k) tbl) else [])"
proof (cases "k \<in> key ` set b")
  case True
  then have "filter (\<lambda>r. owner r = k) (filter (\<lambda>r. owner r \<in> set (map key b)) tbl) = filter (\<lambda>r. owner r = k) tbl"
    by (auto simp: filter_filter intro!: filter_cong)
  moreover have "sort_key (\<lambda>r. (owner r, sub r)) (filter (\<lambda>r. owner r = k) tbl) = sort_key sub (filter (\<lambda>r. owner r = k) tbl)"
    by (rule sort_key_pair_const [where c = k]) simp
  ultimately show ?thesis using True unfolding batch_rows_def filter_sort by simp
next
  case False
  then have "filter (\<lambda>r. owner r = k) (filter (\<lambda>r. owner r \<in> set (map key b)) tbl) = []"
    by (auto simp: filter_empty_conv)
  with False show ?thesis unfolding batch_rows_def filter_sort by simp
qed

lemma concat_once:
  "distinct (map key (concat bs)) \<Longrightarrow>
    concat (map (\<lambda>b. if k \<in> key ` set b then ys else []) bs) = (if k \<in> key ` set (concat bs) then ys else [])"
proof (induction bs)
  case (Cons b bs)
  have no: "concat (map (\<lambda>b. if k \<in> key ` set b then ys else []) bs) = []" if "k \<in> key ` set b"
    using that Cons.prems by (force simp: image_Un)
  with Cons show ?case by (auto simp: image_Un)
qed simp

lemma load_eq:
  assumes "0 < n" and "distinct (map key ms)"
  shows "batch_load key owner sub add n tbl ms = map (load_one key owner sub add tbl) ms"
proof -
  have c: "concat (chunks n ms) = ms" by (rule concat_chunks [OF assms(1)])
  have "concat (map (\<lambda>b. filter (\<lambda>r. owner r = key m) (batch_rows key owner sub tbl b)) (chunks n ms)) =
      sort_key sub (filter (\<lambda>r. owner r = key m) tbl)" if "m \<in> set ms" for m
    using concat_once [of "chunks n ms" "key m"] that assms(2) unfolding own_rows c by simp
  then show ?thesis unfolding batch_load_def load_map by (auto simp: load_one_def)
qed

end

end
