(* ===== verification/Registry.thy ===== *)
theory Registry
  imports Schema BatchLoad
begin

text \<open>
  The model registry (\<open>internal/store/registry.go\<close>): registered models, their versions with stages,
  tags and aliases, each scoped to a workspace. A new version gets the next number of its model, a
  transition to Production with archiving leaves one Production version, a rename moves everything
  that belongs to the model.
\<close>

section \<open>Statements\<close>

definition insert_registered_models :: "model_row \<Rightarrow> unit op" where
  "insert_registered_models m = stmt
     (\<lambda>s. if has_key rg_pk (rg_pk m) (registered_models s) then Some ErrUnique
       else if \<not> has_key w_id (rg_workspace_id m) (workspaces s) then Some ErrForeignKey else None)
     (\<lambda>s. ((), s\<lparr>registered_models := registered_models s @ [m]\<rparr>))"

text \<open>\<open>UPDATE registered_models SET description = ?, last_update_time = ? WHERE workspace_id = ? AND name = ?\<close>\<close>

definition update_model_description :: "string \<Rightarrow> string \<Rightarrow> string option \<Rightarrow> int \<Rightarrow> nat op" where
  "update_model_description ws nm d n = stmt (\<lambda>s. None)
     (\<lambda>s. (count_where (\<lambda>m. rg_pk m = (ws, nm)) (registered_models s),
       s\<lparr>registered_models := update_where (\<lambda>m. rg_pk m = (ws, nm))
           (\<lambda>m. m\<lparr>rg_description := d, rg_last_update_time := n\<rparr>) (registered_models s)\<rparr>))"

text \<open>\<open>DELETE FROM registered_models\<close> with its cascades to tags, versions, and their tags and aliases.\<close>

definition delete_registered_models :: "string \<Rightarrow> string \<Rightarrow> nat op" where
  "delete_registered_models ws nm = stmt (\<lambda>s. None)
     (\<lambda>s. let gone = filter (\<lambda>m. rg_pk m = (ws, nm)) (registered_models s);
              vgone = filter (\<lambda>v. has_key rg_pk (v_ref v) gone) (model_versions s)
       in (length gone, s\<lparr>
         registered_models := delete_where (\<lambda>m. rg_pk m = (ws, nm)) (registered_models s),
         registered_model_tags := delete_where (\<lambda>t. has_key rg_pk (gt_ref t) gone) (registered_model_tags s),
         model_versions := delete_where (\<lambda>v. has_key rg_pk (v_ref v) gone) (model_versions s),
         model_version_tags := delete_where (\<lambda>t. has_key v_pk (vt_ref t) vgone) (model_version_tags s),
         model_aliases := delete_where (\<lambda>a. has_key v_pk (al_ref a) vgone) (model_aliases s)\<rparr>))"

definition gt_upd :: "model_tag_row \<Rightarrow> model_tag_row \<Rightarrow> model_tag_row" where
  "gt_upd old new = old\<lparr>gt_value := gt_value new\<rparr>"

definition upsert_registered_model_tags :: "model_tag_row \<Rightarrow> unit op" where
  "upsert_registered_model_tags t = stmt
     (\<lambda>s. if has_key rg_pk (gt_ref t) (registered_models s) then None else Some ErrForeignKey)
     (\<lambda>s. ((), s\<lparr>registered_model_tags := upsert gt_pk gt_upd t (registered_model_tags s)\<rparr>))"

definition delete_registered_model_tags :: "string \<Rightarrow> string \<Rightarrow> string \<Rightarrow> nat op" where
  "delete_registered_model_tags ws nm k = stmt (\<lambda>s. None)
     (\<lambda>s. (count_where (\<lambda>t. gt_ref t = (ws, nm) \<and> gt_key t = k) (registered_model_tags s),
       s\<lparr>registered_model_tags := delete_where (\<lambda>t. gt_ref t = (ws, nm) \<and> gt_key t = k) (registered_model_tags s)\<rparr>))"

definition insert_model_versions :: "version_row \<Rightarrow> unit op" where
  "insert_model_versions v = stmt
     (\<lambda>s. if \<not> version_check v then Some ErrCheck
       else if has_key v_pk (v_pk v) (model_versions s) then Some ErrUnique
       else if \<not> has_key rg_pk (v_ref v) (registered_models s) then Some ErrForeignKey else None)
     (\<lambda>s. ((), s\<lparr>model_versions := model_versions s @ [v]\<rparr>))"

text \<open>\<open>UPDATE model_versions SET current_stage/description = ?, last_update_time = ? WHERE p\<close>\<close>

record version_set =
  vs_description :: "string option option"
  vs_current_stage :: "string option"
  vs_last_update_time :: int

definition apply_version_set :: "version_set \<Rightarrow> version_row \<Rightarrow> version_row" where
  "apply_version_set u v = v\<lparr>
     v_description := (case vs_description u of None \<Rightarrow> v_description v | Some d \<Rightarrow> d),
     v_current_stage := (case vs_current_stage u of None \<Rightarrow> v_current_stage v | Some st \<Rightarrow> st),
     v_last_update_time := vs_last_update_time u\<rparr>"

definition update_model_versions :: "(version_row \<Rightarrow> bool) \<Rightarrow> version_set \<Rightarrow> nat op" where
  "update_model_versions p u = stmt
     (\<lambda>s. if list_ex (\<lambda>v. p v \<and> \<not> version_check (apply_version_set u v)) (model_versions s) then Some ErrCheck else None)
     (\<lambda>s. (count_where p (model_versions s),
       s\<lparr>model_versions := update_where p (apply_version_set u) (model_versions s)\<rparr>))"

definition delete_model_versions :: "string \<times> string \<times> int \<Rightarrow> nat op" where
  "delete_model_versions k = stmt (\<lambda>s. None)
     (\<lambda>s. let gone = filter (\<lambda>v. v_pk v = k) (model_versions s)
       in (length gone, s\<lparr>
         model_versions := delete_where (\<lambda>v. v_pk v = k) (model_versions s),
         model_version_tags := delete_where (\<lambda>t. has_key v_pk (vt_ref t) gone) (model_version_tags s),
         model_aliases := delete_where (\<lambda>a. has_key v_pk (al_ref a) gone) (model_aliases s)\<rparr>))"

definition vt_upd :: "version_tag_row \<Rightarrow> version_tag_row \<Rightarrow> version_tag_row" where
  "vt_upd old new = old\<lparr>vt_value := vt_value new\<rparr>"

definition upsert_model_version_tags :: "version_tag_row \<Rightarrow> unit op" where
  "upsert_model_version_tags t = stmt
     (\<lambda>s. if has_key v_pk (vt_ref t) (model_versions s) then None else Some ErrForeignKey)
     (\<lambda>s. ((), s\<lparr>model_version_tags := upsert vt_pk vt_upd t (model_version_tags s)\<rparr>))"

definition delete_model_version_tags :: "string \<times> string \<times> int \<Rightarrow> string \<Rightarrow> nat op" where
  "delete_model_version_tags r k = stmt (\<lambda>s. None)
     (\<lambda>s. (count_where (\<lambda>t. vt_ref t = r \<and> vt_key t = k) (model_version_tags s),
       s\<lparr>model_version_tags := delete_where (\<lambda>t. vt_ref t = r \<and> vt_key t = k) (model_version_tags s)\<rparr>))"

definition al_upd :: "model_alias_row \<Rightarrow> model_alias_row \<Rightarrow> model_alias_row" where
  "al_upd old new = old\<lparr>al_version := al_version new\<rparr>"

definition upsert_model_aliases :: "model_alias_row \<Rightarrow> unit op" where
  "upsert_model_aliases a = stmt
     (\<lambda>s. if has_key v_pk (al_ref a) (model_versions s) then None else Some ErrForeignKey)
     (\<lambda>s. ((), s\<lparr>model_aliases := upsert al_pk al_upd a (model_aliases s)\<rparr>))"

definition delete_model_aliases :: "string \<Rightarrow> string \<Rightarrow> string \<Rightarrow> nat op" where
  "delete_model_aliases ws nm al = stmt (\<lambda>s. None)
     (\<lambda>s. (count_where (\<lambda>a. al_pk a = ((ws, nm), al)) (model_aliases s),
       s\<lparr>model_aliases := delete_where (\<lambda>a. al_pk a = ((ws, nm), al)) (model_aliases s)\<rparr>))"

interpretation model_tag: kv_table "\<lambda>t. (gt_workspace_id t, gt_name t)" gt_key gt_value gt_upd
  by unfold_locales (simp_all add: gt_upd_def)

interpretation version_tag: kv_table "\<lambda>t. (vt_workspace_id t, vt_name t, vt_version t)" vt_key vt_value vt_upd
  by unfold_locales (simp_all add: vt_upd_def)

interpretation model_alias: kv_table "\<lambda>a. (al_workspace_id a, al_name a)" al_alias al_version al_upd
  by unfold_locales (simp_all add: al_upd_def)

section \<open>Loaders\<close>

definition tagBatchSize :: nat where
  "tagBatchSize = 500"

definition mvBatchSize :: nat where
  "mvBatchSize = 250"

definition add_model_tag :: "RegisteredModel \<Rightarrow> model_tag_row \<Rightarrow> RegisteredModel" where
  "add_model_tag m t = m\<lparr>rm_Tags := rm_Tags m @ [\<lparr>kv_Key = gt_key t, kv_Value = gt_value t\<rparr>]\<rparr>"

definition add_model_alias :: "RegisteredModel \<Rightarrow> model_alias_row \<Rightarrow> RegisteredModel" where
  "add_model_alias m a = m\<lparr>rm_Aliases := rm_Aliases m @ [\<lparr>ma_Alias = al_alias a, ma_Version = al_version a\<rparr>]\<rparr>"

definition loadRegisteredModelTags :: "string \<Rightarrow> db \<Rightarrow> RegisteredModel list \<Rightarrow> RegisteredModel list" where
  "loadRegisteredModelTags ws s ms =
     batch_load rm_Name gt_name gt_key add_model_tag tagBatchSize
       (filter (\<lambda>t. gt_workspace_id t = ws) (registered_model_tags s)) ms"

definition loadRegisteredModelAliases :: "string \<Rightarrow> db \<Rightarrow> RegisteredModel list \<Rightarrow> RegisteredModel list" where
  "loadRegisteredModelAliases ws s ms =
     batch_load rm_Name al_name al_alias add_model_alias tagBatchSize
       (filter (\<lambda>a. al_workspace_id a = ws) (model_aliases s)) ms"

definition add_version_tag :: "ModelVersion \<Rightarrow> version_tag_row \<Rightarrow> ModelVersion" where
  "add_version_tag mv t = mv\<lparr>mv_Tags := mv_Tags mv @ [\<lparr>kv_Key = vt_key t, kv_Value = vt_value t\<rparr>]\<rparr>"

definition add_version_alias :: "ModelVersion \<Rightarrow> model_alias_row \<Rightarrow> ModelVersion" where
  "add_version_alias mv a = mv\<lparr>mv_Aliases := mv_Aliases mv @ [al_alias a]\<rparr>"

text \<open>The two queries of a batch touch different fields, so they are two loads.\<close>

definition loadModelVersionMeta :: "string \<Rightarrow> db \<Rightarrow> ModelVersion list \<Rightarrow> ModelVersion list" where
  "loadModelVersionMeta ws s mvs =
     batch_load (\<lambda>mv. (mv_Name mv, mv_Version mv)) (\<lambda>a. (al_name a, al_version a)) al_alias add_version_alias mvBatchSize
       (filter (\<lambda>a. al_workspace_id a = ws) (model_aliases s))
       (batch_load (\<lambda>mv. (mv_Name mv, mv_Version mv)) (\<lambda>t. (vt_name t, vt_version t)) vt_key add_version_tag mvBatchSize
         (filter (\<lambda>t. vt_workspace_id t = ws) (model_version_tags s)) mvs)"

interpretation model_tag_load: batch_loader rm_Name gt_name gt_key add_model_tag
  by unfold_locales (simp add: add_model_tag_def)

interpretation model_alias_load: batch_loader rm_Name al_name al_alias add_model_alias
  by unfold_locales (simp add: add_model_alias_def)

interpretation version_tag_load: batch_loader "\<lambda>mv. (mv_Name mv, mv_Version mv)" "\<lambda>t. (vt_name t, vt_version t)" vt_key add_version_tag
  by unfold_locales (simp add: add_version_tag_def)

interpretation version_alias_load: batch_loader "\<lambda>mv. (mv_Name mv, mv_Version mv)" "\<lambda>a. (al_name a, al_version a)" al_alias add_version_alias
  by unfold_locales (simp add: add_version_alias_def)

section \<open>Registered models\<close>

definition CreateRegisteredModel :: "string \<Rightarrow> RegisteredModel \<Rightarrow> unit op" where
  "CreateRegisteredModel ws m =
     bnd (invalidValue (ValidName (rm_Name m) 250)) (\<lambda>_.
     bnd now (\<lambda>n.
     map_err (\<lambda>e. if isUniqueViolation e then ErrAlreadyExists else e)
       (insert_registered_models \<lparr>
          rg_workspace_id = default_ws ws, rg_name = rm_Name m, rg_description = nilIfEmpty (rm_Description m),
          rg_creation_time = (if rm_CreationTime m = 0 then n else rm_CreationTime m),
          rg_last_update_time = (if rm_LastUpdateTime m = 0 then n else rm_LastUpdateTime m)\<rparr>)))"

definition scanRegisteredModel :: "model_row \<Rightarrow> RegisteredModel" where
  "scanRegisteredModel r = \<lparr>
     rm_WorkspaceID = rg_workspace_id r, rm_Name = rg_name r, rm_Description = coalesce (rg_description r),
     rm_CreationTime = rg_creation_time r, rm_LastUpdateTime = rg_last_update_time r, rm_Tags = [], rm_Aliases = []\<rparr>"

definition getRegisteredModelTags :: "string \<Rightarrow> string \<Rightarrow> db \<Rightarrow> KV list" where
  "getRegisteredModelTags ws nm s =
     map (\<lambda>t. \<lparr>kv_Key = gt_key t, kv_Value = gt_value t\<rparr>)
       (sort_key gt_key (filter (\<lambda>t. (gt_workspace_id t, gt_name t) = (ws, nm)) (registered_model_tags s)))"

definition GetRegisteredModel :: "string \<Rightarrow> string \<Rightarrow> RegisteredModel op" where
  "GetRegisteredModel ws0 nm =
     (let ws = default_ws ws0 in
      bnd (gets (\<lambda>s. first_row (\<lambda>m. rg_pk m = (ws, nm)) (registered_models s))) (\<lambda>row.
      case row of None \<Rightarrow> throw ErrNotFound
      | Some r \<Rightarrow> gets (\<lambda>s. hd (loadRegisteredModelAliases ws s
          [(scanRegisteredModel r)\<lparr>rm_Tags := getRegisteredModelTags ws nm s\<rparr>]))))"

definition UpdateRegisteredModel :: "string \<Rightarrow> string \<Rightarrow> string option \<Rightarrow> RegisteredModel op" where
  "UpdateRegisteredModel ws nm description =
     (case description of None \<Rightarrow> GetRegisteredModel ws nm
      | Some d \<Rightarrow>
        bnd now (\<lambda>n.
        bnd (update_model_description (default_ws ws) nm (nilIfEmpty d) n) (\<lambda>cnt.
        bnd (require (cnt \<noteq> 0) ErrNotFound) (\<lambda>_.
        GetRegisteredModel ws nm))))"

definition DeleteRegisteredModel :: "string \<Rightarrow> string \<Rightarrow> unit op" where
  "DeleteRegisteredModel ws nm =
     bnd (delete_registered_models (default_ws ws) nm) (\<lambda>cnt. require (cnt \<noteq> 0) ErrNotFound)"

definition SetRegisteredModelTag :: "string \<Rightarrow> string \<Rightarrow> string \<Rightarrow> string \<Rightarrow> unit op" where
  "SetRegisteredModelTag ws nm k v =
     bnd (GetRegisteredModel ws nm) (\<lambda>_.
     upsert_registered_model_tags \<lparr>gt_workspace_id = default_ws ws, gt_name = nm, gt_key = k, gt_value = v\<rparr>)"

definition DeleteRegisteredModelTag :: "string \<Rightarrow> string \<Rightarrow> string \<Rightarrow> unit op" where
  "DeleteRegisteredModelTag ws nm k =
     bnd (delete_registered_model_tags (default_ws ws) nm k) (\<lambda>cnt. require (cnt \<noteq> 0) ErrNotFound)"

text \<open>
  The rename runs with foreign keys off: child rows first, then the model row. Each statement still
  has its uniqueness check.
\<close>

definition rename_versions :: "string \<Rightarrow> string \<Rightarrow> string \<Rightarrow> unit op" where
  "rename_versions ws nm nw = stmt
     (\<lambda>s. if pk v_pk (update_where (\<lambda>v. v_ref v = (ws, nm)) (\<lambda>v. v\<lparr>v_name := nw\<rparr>) (model_versions s)) then None else Some ErrUnique)
     (\<lambda>s. ((), s\<lparr>model_versions := update_where (\<lambda>v. v_ref v = (ws, nm)) (\<lambda>v. v\<lparr>v_name := nw\<rparr>) (model_versions s)\<rparr>))"

definition rename_version_tags :: "string \<Rightarrow> string \<Rightarrow> string \<Rightarrow> unit op" where
  "rename_version_tags ws nm nw = stmt
     (\<lambda>s. if pk vt_pk (update_where (\<lambda>t. (vt_workspace_id t, vt_name t) = (ws, nm)) (\<lambda>t. t\<lparr>vt_name := nw\<rparr>) (model_version_tags s))
       then None else Some ErrUnique)
     (\<lambda>s. ((), s\<lparr>model_version_tags :=
       update_where (\<lambda>t. (vt_workspace_id t, vt_name t) = (ws, nm)) (\<lambda>t. t\<lparr>vt_name := nw\<rparr>) (model_version_tags s)\<rparr>))"

definition rename_model_tags :: "string \<Rightarrow> string \<Rightarrow> string \<Rightarrow> unit op" where
  "rename_model_tags ws nm nw = stmt
     (\<lambda>s. if pk gt_pk (update_where (\<lambda>t. gt_ref t = (ws, nm)) (\<lambda>t. t\<lparr>gt_name := nw\<rparr>) (registered_model_tags s))
       then None else Some ErrUnique)
     (\<lambda>s. ((), s\<lparr>registered_model_tags :=
       update_where (\<lambda>t. gt_ref t = (ws, nm)) (\<lambda>t. t\<lparr>gt_name := nw\<rparr>) (registered_model_tags s)\<rparr>))"

definition rename_aliases :: "string \<Rightarrow> string \<Rightarrow> string \<Rightarrow> unit op" where
  "rename_aliases ws nm nw = stmt
     (\<lambda>s. if pk al_pk (update_where (\<lambda>a. (al_workspace_id a, al_name a) = (ws, nm)) (\<lambda>a. a\<lparr>al_name := nw\<rparr>) (model_aliases s))
       then None else Some ErrUnique)
     (\<lambda>s. ((), s\<lparr>model_aliases :=
       update_where (\<lambda>a. (al_workspace_id a, al_name a) = (ws, nm)) (\<lambda>a. a\<lparr>al_name := nw\<rparr>) (model_aliases s)\<rparr>))"

definition rename_model :: "string \<Rightarrow> string \<Rightarrow> string \<Rightarrow> int \<Rightarrow> unit op" where
  "rename_model ws nm nw n = stmt
     (\<lambda>s. if pk rg_pk (update_where (\<lambda>m. rg_pk m = (ws, nm)) (\<lambda>m. m\<lparr>rg_name := nw, rg_last_update_time := n\<rparr>) (registered_models s))
       then None else Some ErrUnique)
     (\<lambda>s. ((), s\<lparr>registered_models :=
       update_where (\<lambda>m. rg_pk m = (ws, nm)) (\<lambda>m. m\<lparr>rg_name := nw, rg_last_update_time := n\<rparr>) (registered_models s)\<rparr>))"

definition rename_rows :: "string \<Rightarrow> string \<Rightarrow> string \<Rightarrow> int \<Rightarrow> unit op" where
  "rename_rows ws nm nw n =
     bnd (rename_versions ws nm nw) (\<lambda>_.
     bnd (rename_version_tags ws nm nw) (\<lambda>_.
     bnd (rename_model_tags ws nm nw) (\<lambda>_.
     bnd (rename_aliases ws nm nw) (\<lambda>_.
     map_err (\<lambda>e. if isUniqueViolation e then ErrAlreadyExists else e) (rename_model ws nm nw n)))))"

definition RenameRegisteredModel :: "string \<Rightarrow> string \<Rightarrow> string \<Rightarrow> RegisteredModel op" where
  "RenameRegisteredModel ws0 nm nw =
     (let ws = default_ws ws0 in
      bnd (invalidValue (ValidName nw 250)) (\<lambda>_.
      bnd now (\<lambda>n.
      bnd (gets (\<lambda>s. has_key rg_pk (ws, nm) (registered_models s))) (\<lambda>found.
      bnd (require found ErrNotFound) (\<lambda>_.
      bnd (gets (\<lambda>s. has_key rg_pk (ws, nw) (registered_models s))) (\<lambda>taken.
      bnd (require (\<not> taken) ErrAlreadyExists) (\<lambda>_.
      bnd (tx (rename_rows ws nm nw n)) (\<lambda>_.
      GetRegisteredModel ws nw))))))))"

section \<open>Versions, stages, aliases\<close>

definition scanModelVersionRow :: "version_row \<Rightarrow> ModelVersion" where
  "scanModelVersionRow v = \<lparr>
     mv_WorkspaceID = v_workspace_id v, mv_Name = v_name v, mv_Version = v_version v,
     mv_Description = coalesce (v_description v), mv_UserID = coalesce (v_user_id v),
     mv_CurrentStage = v_current_stage v, mv_Source = v_source v, mv_RunID = coalesce (v_run_id v),
     mv_Status = v_status v, mv_StatusMessage = coalesce (v_status_message v),
     mv_CreationTime = v_creation_time v, mv_LastUpdateTime = v_last_update_time v, mv_Tags = [], mv_Aliases = []\<rparr>"

definition GetModelVersion :: "string \<Rightarrow> string \<Rightarrow> int \<Rightarrow> ModelVersion op" where
  "GetModelVersion ws0 nm ver =
     (let ws = default_ws ws0 in
      bnd (gets (\<lambda>s. first_row (\<lambda>v. v_pk v = (ws, nm, ver)) (model_versions s))) (\<lambda>row.
      case row of None \<Rightarrow> throw ErrNotFound
      | Some v \<Rightarrow> gets (\<lambda>s. hd (loadModelVersionMeta ws s [scanModelVersionRow v]))))"

definition CreateModelVersion :: "string \<Rightarrow> ModelVersion \<Rightarrow> ModelVersion op" where
  "CreateModelVersion ws0 mv =
     (let ws = default_ws ws0 in
      bnd (invalidValue (ValidName (mv_Name mv) 250)) (\<lambda>_.
      bnd (GetRegisteredModel ws (mv_Name mv)) (\<lambda>_.
      bnd now (\<lambda>n.
      bnd (retryWriteRace (tx (
        bnd (gets (\<lambda>s. max_or_0 (map v_version (filter (\<lambda>v. v_ref v = (ws, mv_Name mv)) (model_versions s))) + 1)) (\<lambda>next.
        bnd (insert_model_versions \<lparr>
            v_workspace_id = ws, v_name = mv_Name mv, v_version = next,
            v_description = nilIfEmpty (mv_Description mv), v_user_id = nilIfEmpty (mv_UserID mv),
            v_current_stage = (if mv_CurrentStage mv = [] then StageNone else mv_CurrentStage mv),
            v_source = mv_Source mv, v_run_id = nilIfEmpty (mv_RunID mv),
            v_status = (if mv_Status mv = [] then ''READY'' else mv_Status mv),
            v_status_message = nilIfEmpty (mv_StatusMessage mv),
            v_creation_time = (if mv_CreationTime mv = 0 then n else mv_CreationTime mv),
            v_last_update_time = (if mv_LastUpdateTime mv = 0 then n else mv_LastUpdateTime mv)\<rparr>) (\<lambda>_.
        ret next))))) (\<lambda>version.
      GetModelVersion ws (mv_Name mv) version)))))"

definition UpdateModelVersion :: "string \<Rightarrow> string \<Rightarrow> int \<Rightarrow> string option \<Rightarrow> ModelVersion op" where
  "UpdateModelVersion ws nm ver description =
     (case description of None \<Rightarrow> GetModelVersion ws nm ver
      | Some d \<Rightarrow>
        bnd now (\<lambda>n.
        bnd (update_model_versions (\<lambda>v. v_pk v = (default_ws ws, nm, ver))
              \<lparr>vs_description = Some (nilIfEmpty d), vs_current_stage = None, vs_last_update_time = n\<rparr>) (\<lambda>cnt.
        bnd (require (cnt \<noteq> 0) ErrNotFound) (\<lambda>_.
        GetModelVersion ws nm ver))))"

definition DeleteModelVersion :: "string \<Rightarrow> string \<Rightarrow> int \<Rightarrow> unit op" where
  "DeleteModelVersion ws nm ver =
     bnd (delete_model_versions (default_ws ws, nm, ver)) (\<lambda>cnt. require (cnt \<noteq> 0) ErrNotFound)"

definition TransitionModelStage :: "string \<Rightarrow> string \<Rightarrow> int \<Rightarrow> string \<Rightarrow> bool \<Rightarrow> ModelVersion op" where
  "TransitionModelStage ws0 nm ver stage archiveExisting =
     (let ws = default_ws ws0 in
      bnd (require (ValidStage stage) ErrInvalidStage) (\<lambda>_.
      bnd now (\<lambda>n.
      bnd (tx (
        bnd (if archiveExisting \<and> stage = StageProduction
             then bnd (update_model_versions
                    (\<lambda>v. v_ref v = (ws, nm) \<and> v_current_stage v = StageProduction \<and> v_version v \<noteq> ver)
                    \<lparr>vs_description = None, vs_current_stage = Some StageArchived, vs_last_update_time = n\<rparr>) (\<lambda>_. ret ())
             else ret ()) (\<lambda>_.
        bnd (update_model_versions (\<lambda>v. v_pk v = (ws, nm, ver))
              \<lparr>vs_description = None, vs_current_stage = Some stage, vs_last_update_time = n\<rparr>) (\<lambda>cnt.
        require (cnt \<noteq> 0) ErrNotFound)))) (\<lambda>_.
      GetModelVersion ws nm ver))))"

definition SetModelVersionTag :: "string \<Rightarrow> string \<Rightarrow> int \<Rightarrow> string \<Rightarrow> string \<Rightarrow> unit op" where
  "SetModelVersionTag ws nm ver k v =
     bnd (GetModelVersion ws nm ver) (\<lambda>_.
     upsert_model_version_tags
       \<lparr>vt_workspace_id = default_ws ws, vt_name = nm, vt_version = ver, vt_key = k, vt_value = v\<rparr>)"

definition DeleteModelVersionTag :: "string \<Rightarrow> string \<Rightarrow> int \<Rightarrow> string \<Rightarrow> unit op" where
  "DeleteModelVersionTag ws nm ver k =
     bnd (delete_model_version_tags (default_ws ws, nm, ver) k) (\<lambda>cnt. require (cnt \<noteq> 0) ErrNotFound)"

definition SetModelAlias :: "string \<Rightarrow> string \<Rightarrow> string \<Rightarrow> int \<Rightarrow> unit op" where
  "SetModelAlias ws nm al ver =
     bnd (GetModelVersion ws nm ver) (\<lambda>_.
     upsert_model_aliases \<lparr>al_workspace_id = default_ws ws, al_name = nm, al_alias = al, al_version = ver\<rparr>)"

definition DeleteModelAlias :: "string \<Rightarrow> string \<Rightarrow> string \<Rightarrow> unit op" where
  "DeleteModelAlias ws nm al =
     bnd (delete_model_aliases (default_ws ws) nm al) (\<lambda>cnt. require (cnt \<noteq> 0) ErrNotFound)"

definition GetModelByAlias :: "string \<Rightarrow> string \<Rightarrow> string \<Rightarrow> ModelVersion op" where
  "GetModelByAlias ws nm al =
     bnd (gets (\<lambda>s. first_row (\<lambda>a. al_pk a = ((default_ws ws, nm), al)) (model_aliases s))) (\<lambda>row.
     case row of None \<Rightarrow> throw ErrNotFound | Some a \<Rightarrow> GetModelVersion ws nm (al_version a))"

text \<open>The highest version of each stage, or of the given stages.\<close>

definition GetLatestModelVersions :: "string \<Rightarrow> string \<Rightarrow> string list \<Rightarrow> ModelVersion list op" where
  "GetLatestModelVersions ws0 nm stages =
     (let ws = default_ws ws0 in
      bnd (GetRegisteredModel ws nm) (\<lambda>_.
      gets (\<lambda>s. loadModelVersionMeta ws s (map scanModelVersionRow (sort_key v_current_stage
        (filter (\<lambda>v. v_ref v = (ws, nm) \<and> (stages \<noteq> [] \<longrightarrow> v_current_stage v \<in> set stages) \<and>
           v_version v = max_or_0 (map v_version
             (filter (\<lambda>w. v_ref w = v_ref v \<and> v_current_stage w = v_current_stage v) (model_versions s))))
          (model_versions s)))))))"

end
