(* ===== verification/RegistryFacts.thy ===== *)
theory RegistryFacts
  imports Registry
begin

text \<open>
  Integrity and behaviour of the model registry: every method keeps \<open>db_ok\<close>, version numbers are
  never handed out twice while the versions exist, stage transitions archive what they should, and
  a rename carries versions, tags and aliases along.
\<close>

section \<open>Integrity\<close>

lemma keeps_insert_registered_models [keeps_intros]: "keeps db_ok (insert_registered_models m)"
  unfolding insert_registered_models_def
proof (rule keeps_stmt, goal_cases)
  case (1 s)
  let ?ms = "registered_models s @ [m]"
  from db_okD(15) [OF 1(1)] 1(2) have "models_ok (keys w_id (workspaces s)) ?ms"
    by (auto simp: models_ok_def has_key_iff schema_rules split: if_splits)
  moreover have "versions_ok (keys rg_pk ?ms) (model_versions s)" "model_tags_ok (keys rg_pk ?ms) (registered_model_tags s)"
    using db_okD(16,17) [OF 1(1)] by (auto intro: registry_ok_monos)
  ultimately show ?case using 1(1) by (simp add: db_ok_def)
qed

lemma keeps_update_model_description [keeps_intros]: "keeps db_ok (update_model_description ws nm d n)"
  unfolding update_model_description_def
  by (rule keeps_stmt) (simp add: db_ok_def models_ok_def update_where_rules)

lemma keeps_delete_registered_models [keeps_intros]: "keeps db_ok (delete_registered_models ws nm)"
  unfolding delete_registered_models_def
  by (rule keeps_stmt)
    (simp add: db_ok_def Let_def models_ok_def versions_ok_def model_tags_ok_def version_tags_ok_def model_aliases_ok_def
      pk_delete_where fk_delete_where chk_delete_where fk_cascade)

lemma keeps_upsert_registered_model_tags [keeps_intros]: "keeps db_ok (upsert_registered_model_tags t)"
  unfolding upsert_registered_model_tags_def
  by (rule keeps_stmt) (auto simp: db_ok_def model_tags_ok_def has_key_iff gt_upd_def intro!: pk_upsert fk_upsert split: if_splits)

lemma keeps_delete_registered_model_tags [keeps_intros]: "keeps db_ok (delete_registered_model_tags ws nm k)"
  unfolding delete_registered_model_tags_def
  by (rule keeps_stmt) (simp add: db_ok_def model_tags_ok_def pk_delete_where fk_delete_where)

lemma keeps_insert_model_versions [keeps_intros]: "keeps db_ok (insert_model_versions v)"
  unfolding insert_model_versions_def
proof (rule keeps_stmt, goal_cases)
  case (1 s)
  let ?vs = "model_versions s @ [v]"
  from db_okD(16) [OF 1(1)] 1(2) have "versions_ok (keys rg_pk (registered_models s)) ?vs"
    by (auto simp: versions_ok_def has_key_iff schema_rules split: if_splits)
  moreover have "version_tags_ok (keys v_pk ?vs) (model_version_tags s)" "model_aliases_ok (keys v_pk ?vs) (model_aliases s)"
    using db_okD(18,19) [OF 1(1)] by (auto intro: registry_ok_monos)
  ultimately show ?case using 1(1) by (simp add: db_ok_def)
qed

lemma apply_version_set_pk [simp]:
  "v_workspace_id (apply_version_set u v) = v_workspace_id v" "v_name (apply_version_set u v) = v_name v"
  "v_version (apply_version_set u v) = v_version v"
  by (simp_all add: apply_version_set_def)

lemma keeps_update_model_versions [keeps_intros]: "keeps db_ok (update_model_versions p u)"
  unfolding update_model_versions_def
proof (rule keeps_stmt, goal_cases)
  case (1 s)
  let ?vs = "update_where p (apply_version_set u) (model_versions s)"
  from db_okD(16) [OF 1(1)] 1(2) have "chk version_check ?vs"
    by (auto simp: versions_ok_def chk_def update_where_def list_ex_iff split: if_splits)
  with 1(1) show ?case by (simp add: db_ok_def versions_ok_def update_where_rules)
qed

lemma keeps_delete_model_versions [keeps_intros]: "keeps db_ok (delete_model_versions k)"
  unfolding delete_model_versions_def
  by (rule keeps_stmt)
    (simp add: db_ok_def Let_def versions_ok_def version_tags_ok_def model_aliases_ok_def
      pk_delete_where fk_delete_where chk_delete_where fk_cascade)

lemma keeps_upsert_model_version_tags [keeps_intros]: "keeps db_ok (upsert_model_version_tags t)"
  unfolding upsert_model_version_tags_def
  by (rule keeps_stmt) (auto simp: db_ok_def version_tags_ok_def has_key_iff vt_upd_def intro!: pk_upsert fk_upsert split: if_splits)

lemma keeps_delete_model_version_tags [keeps_intros]: "keeps db_ok (delete_model_version_tags r k)"
  unfolding delete_model_version_tags_def
  by (rule keeps_stmt) (simp add: db_ok_def version_tags_ok_def pk_delete_where fk_delete_where)

text \<open>The upsert of an alias rewrites its foreign key, so the new version has to exist.\<close>

lemma fk_alias_upsert:
  "fk al_ref as A \<Longrightarrow> al_ref a \<in> A \<Longrightarrow> fk al_ref (upsert al_pk al_upd a as) A"
  by (auto simp: fk_def upsert_def al_upd_def)

lemma keeps_upsert_model_aliases [keeps_intros]: "keeps db_ok (upsert_model_aliases a)"
  unfolding upsert_model_aliases_def
  by (rule keeps_stmt) (auto simp: db_ok_def model_aliases_ok_def has_key_iff al_upd_def
      intro!: pk_upsert fk_alias_upsert split: if_splits)

lemma keeps_delete_model_aliases [keeps_intros]: "keeps db_ok (delete_model_aliases ws nm al)"
  unfolding delete_model_aliases_def
  by (rule keeps_stmt) (simp add: db_ok_def model_aliases_ok_def pk_delete_where fk_delete_where)

lemma keeps_GetRegisteredModel [keeps_intros]: "keeps P (GetRegisteredModel ws nm)"
  unfolding GetRegisteredModel_def Let_def by (intro keeps_intros)

lemma keeps_GetModelVersion [keeps_intros]: "keeps P (GetModelVersion ws nm v)"
  unfolding GetModelVersion_def Let_def by (intro keeps_intros)

lemma keeps_CreateRegisteredModel [keeps_intros]: "keeps db_ok (CreateRegisteredModel ws m)"
  unfolding CreateRegisteredModel_def by (intro keeps_intros)

lemma keeps_UpdateRegisteredModel [keeps_intros]: "keeps db_ok (UpdateRegisteredModel ws nm d)"
  unfolding UpdateRegisteredModel_def by (intro keeps_intros)

lemma keeps_DeleteRegisteredModel [keeps_intros]: "keeps db_ok (DeleteRegisteredModel ws nm)"
  unfolding DeleteRegisteredModel_def by (intro keeps_intros)

lemma keeps_SetRegisteredModelTag [keeps_intros]: "keeps db_ok (SetRegisteredModelTag ws nm k v)"
  unfolding SetRegisteredModelTag_def by (intro keeps_intros)

lemma keeps_DeleteRegisteredModelTag [keeps_intros]: "keeps db_ok (DeleteRegisteredModelTag ws nm k)"
  unfolding DeleteRegisteredModelTag_def by (intro keeps_intros)

lemma keeps_CreateModelVersion [keeps_intros]: "keeps db_ok (CreateModelVersion ws mv)"
  unfolding CreateModelVersion_def Let_def by (intro keeps_intros)

lemma keeps_UpdateModelVersion [keeps_intros]: "keeps db_ok (UpdateModelVersion ws nm v d)"
  unfolding UpdateModelVersion_def by (intro keeps_intros)

lemma keeps_DeleteModelVersion [keeps_intros]: "keeps db_ok (DeleteModelVersion ws nm v)"
  unfolding DeleteModelVersion_def by (intro keeps_intros)

lemma keeps_TransitionModelStage [keeps_intros]: "keeps db_ok (TransitionModelStage ws nm v st a)"
  unfolding TransitionModelStage_def Let_def by (intro keeps_intros)

lemma keeps_SetModelVersionTag [keeps_intros]: "keeps db_ok (SetModelVersionTag ws nm v k x)"
  unfolding SetModelVersionTag_def by (intro keeps_intros)

lemma keeps_DeleteModelVersionTag [keeps_intros]: "keeps db_ok (DeleteModelVersionTag ws nm v k)"
  unfolding DeleteModelVersionTag_def by (intro keeps_intros)

lemma keeps_SetModelAlias [keeps_intros]: "keeps db_ok (SetModelAlias ws nm al v)"
  unfolding SetModelAlias_def by (intro keeps_intros)

lemma keeps_DeleteModelAlias [keeps_intros]: "keeps db_ok (DeleteModelAlias ws nm al)"
  unfolding DeleteModelAlias_def by (intro keeps_intros)

section \<open>Rename\<close>

text \<open>An update that maps the keys of a table through a function injective on them.\<close>

lemma pk_remap:
  assumes "pk k rs" and "inj_on h (keys k rs)" and "\<And>r. r \<in> set rs \<Longrightarrow> k (if p r then f r else r) = h (k r)"
  shows "pk k (update_where p f rs)"
proof -
  have "map k (update_where p f rs) = map h (map k rs)"
    using assms(3) by (simp add: update_where_def)
  with assms(1,2) show ?thesis by (simp only: pk_def keys_def distinct_map [of h] set_map)
qed

lemma keys_remap:
  "(\<And>r. r \<in> set rs \<Longrightarrow> k (if p r then f r else r) = h (k r)) \<Longrightarrow> keys k (update_where p f rs) = h ` keys k rs"
  unfolding keys_def update_where_def set_map image_image by (rule image_cong) simp_all

lemma fk_remap:
  "fk g rs A \<Longrightarrow> (\<And>r. r \<in> set rs \<Longrightarrow> g (if p r then f r else r) = h (g r)) \<Longrightarrow> fk g (update_where p f rs) (h ` A)"
  unfolding fk_def update_where_def set_map ball_simps by simp

definition remap :: "string \<Rightarrow> string \<Rightarrow> string \<Rightarrow> string \<times> string \<Rightarrow> string \<times> string" where
  "remap ws nm nw x = (if x = (ws, nm) then (ws, nw) else x)"

definition remap_v :: "string \<Rightarrow> string \<Rightarrow> string \<Rightarrow> string \<times> string \<times> int \<Rightarrow> string \<times> string \<times> int" where
  "remap_v ws nm nw x = (case x of (w, n, v) \<Rightarrow> if (w, n) = (ws, nm) then (ws, nw, v) else x)"

definition renamed :: "string \<Rightarrow> string \<Rightarrow> string \<Rightarrow> int \<Rightarrow> db \<Rightarrow> db" where
  "renamed ws nm nw n s = s\<lparr>
     model_versions := update_where (\<lambda>v. v_ref v = (ws, nm)) (\<lambda>v. v\<lparr>v_name := nw\<rparr>) (model_versions s),
     model_version_tags := update_where (\<lambda>t. (vt_workspace_id t, vt_name t) = (ws, nm)) (\<lambda>t. t\<lparr>vt_name := nw\<rparr>) (model_version_tags s),
     registered_model_tags := update_where (\<lambda>t. gt_ref t = (ws, nm)) (\<lambda>t. t\<lparr>gt_name := nw\<rparr>) (registered_model_tags s),
     model_aliases := update_where (\<lambda>a. (al_workspace_id a, al_name a) = (ws, nm)) (\<lambda>a. a\<lparr>al_name := nw\<rparr>) (model_aliases s),
     registered_models := update_where (\<lambda>m. rg_pk m = (ws, nm)) (\<lambda>m. m\<lparr>rg_name := nw, rg_last_update_time := n\<rparr>) (registered_models s)\<rparr>"

lemma renamed_sel:
  "model_versions (renamed ws nm nw n s) = update_where (\<lambda>v. v_ref v = (ws, nm)) (\<lambda>v. v\<lparr>v_name := nw\<rparr>) (model_versions s)"
  "model_version_tags (renamed ws nm nw n s) =
    update_where (\<lambda>t. (vt_workspace_id t, vt_name t) = (ws, nm)) (\<lambda>t. t\<lparr>vt_name := nw\<rparr>) (model_version_tags s)"
  "registered_model_tags (renamed ws nm nw n s) =
    update_where (\<lambda>t. gt_ref t = (ws, nm)) (\<lambda>t. t\<lparr>gt_name := nw\<rparr>) (registered_model_tags s)"
  "model_aliases (renamed ws nm nw n s) =
    update_where (\<lambda>a. (al_workspace_id a, al_name a) = (ws, nm)) (\<lambda>a. a\<lparr>al_name := nw\<rparr>) (model_aliases s)"
  "registered_models (renamed ws nm nw n s) =
    update_where (\<lambda>m. rg_pk m = (ws, nm)) (\<lambda>m. m\<lparr>rg_name := nw, rg_last_update_time := n\<rparr>) (registered_models s)"
  by (simp_all add: renamed_def)

lemma remap_inj: "(ws, nw) \<notin> A \<Longrightarrow> inj_on (remap ws nm nw) A"
  by (auto simp: inj_on_def remap_def)

lemma remap_v_inj: "(\<And>i. (ws, nw, i) \<notin> A) \<Longrightarrow> inj_on (remap_v ws nm nw) A"
  by (auto simp: inj_on_def remap_v_def split: if_splits)

lemma inj_on_fst_pair: "inj_on h (fst ` A) \<Longrightarrow> inj_on (\<lambda>(x, k). (h x, k)) A"
  by (auto simp: inj_on_def image_iff)

lemma keys_renamed:
  "keys rg_pk (registered_models (renamed ws nm nw n s)) = remap ws nm nw ` keys rg_pk (registered_models s)"
  "keys v_pk (model_versions (renamed ws nm nw n s)) = remap_v ws nm nw ` keys v_pk (model_versions s)"
  unfolding renamed_sel by (rule keys_remap, simp add: remap_def, rule keys_remap, simp add: remap_v_def)

lemma renamed_models:
  assumes "db_ok s" and "(ws, nw) \<notin> keys rg_pk (registered_models s)"
  shows "models_ok (keys w_id (workspaces s)) (registered_models (renamed ws nm nw n s))"
proof -
  have M: "pk rg_pk (registered_models s)" "fk rg_workspace_id (registered_models s) (keys w_id (workspaces s))"
    using db_okD(15) [OF assms(1)] by (simp_all add: models_ok_def)
  have "pk rg_pk (registered_models (renamed ws nm nw n s))"
    unfolding renamed_sel by (rule pk_remap [OF M(1) remap_inj [OF assms(2), of nm]]) (simp add: remap_def)
  with M(2) show ?thesis by (simp add: models_ok_def renamed_sel fk_update_where)
qed

lemma renamed_versions:
  assumes "db_ok s" and "(ws, nw) \<notin> keys rg_pk (registered_models s)"
  shows "versions_ok (keys rg_pk (registered_models (renamed ws nm nw n s))) (model_versions (renamed ws nm nw n s))"
    and "(ws, nw, i) \<notin> keys v_pk (model_versions s)"
proof -
  have V: "pk v_pk (model_versions s)" "fk v_ref (model_versions s) (keys rg_pk (registered_models s))"
      "chk version_check (model_versions s)"
    using db_okD(16) [OF assms(1)] by (simp_all add: versions_ok_def)
  show free: "(ws, nw, i) \<notin> keys v_pk (model_versions s)" for i
    using V(2) assms(2) by (auto simp: fk_def keys_def)
  have "pk v_pk (model_versions (renamed ws nm nw n s))"
    unfolding renamed_sel by (rule pk_remap [OF V(1) remap_v_inj [OF free, of nm]]) (simp add: remap_v_def)
  moreover have "fk v_ref (model_versions (renamed ws nm nw n s)) (remap ws nm nw ` keys rg_pk (registered_models s))"
    unfolding renamed_sel by (rule fk_remap [OF V(2)]) (simp add: remap_def)
  moreover have "chk version_check (model_versions (renamed ws nm nw n s))"
    unfolding renamed_sel by (rule chk_update_where [OF V(3)]) (simp add: version_check_def)
  ultimately show "versions_ok (keys rg_pk (registered_models (renamed ws nm nw n s))) (model_versions (renamed ws nm nw n s))"
    by (simp add: versions_ok_def keys_renamed)
qed

lemma renamed_model_tags:
  assumes "db_ok s" and "(ws, nw) \<notin> keys rg_pk (registered_models s)"
  shows "model_tags_ok (keys rg_pk (registered_models (renamed ws nm nw n s))) (registered_model_tags (renamed ws nm nw n s))"
proof -
  have T: "pk gt_pk (registered_model_tags s)" "fk gt_ref (registered_model_tags s) (keys rg_pk (registered_models s))"
    using db_okD(17) [OF assms(1)] by (simp_all add: model_tags_ok_def)
  then have "fst ` keys gt_pk (registered_model_tags s) \<subseteq> keys rg_pk (registered_models s)" by (auto simp: fk_def keys_def)
  then have "inj_on (remap ws nm nw) (fst ` keys gt_pk (registered_model_tags s))"
    using remap_inj [OF assms(2), of nm] by (rule inj_on_subset [rotated])
  note inj = inj_on_fst_pair [OF this]
  have "pk gt_pk (registered_model_tags (renamed ws nm nw n s))"
    unfolding renamed_sel by (rule pk_remap [OF T(1) inj]) (simp add: remap_def)
  moreover have "fk gt_ref (registered_model_tags (renamed ws nm nw n s)) (remap ws nm nw ` keys rg_pk (registered_models s))"
    unfolding renamed_sel by (rule fk_remap [OF T(2)]) (simp add: remap_def)
  ultimately show ?thesis by (simp add: model_tags_ok_def keys_renamed)
qed

lemma renamed_version_tags:
  assumes "db_ok s" and "(ws, nw) \<notin> keys rg_pk (registered_models s)"
  shows "version_tags_ok (keys v_pk (model_versions (renamed ws nm nw n s))) (model_version_tags (renamed ws nm nw n s))"
proof -
  have T: "pk vt_pk (model_version_tags s)" "fk vt_ref (model_version_tags s) (keys v_pk (model_versions s))"
    using db_okD(18) [OF assms(1)] by (simp_all add: version_tags_ok_def)
  then have "fst ` keys vt_pk (model_version_tags s) \<subseteq> keys v_pk (model_versions s)" by (auto simp: fk_def keys_def)
  then have "inj_on (remap_v ws nm nw) (fst ` keys vt_pk (model_version_tags s))"
    using remap_v_inj [OF renamed_versions(2) [OF assms], of nm] by (rule inj_on_subset [rotated])
  note inj = inj_on_fst_pair [OF this]
  have "pk vt_pk (model_version_tags (renamed ws nm nw n s))"
    unfolding renamed_sel by (rule pk_remap [OF T(1) inj]) (simp add: remap_v_def)
  moreover have "fk vt_ref (model_version_tags (renamed ws nm nw n s)) (remap_v ws nm nw ` keys v_pk (model_versions s))"
    unfolding renamed_sel by (rule fk_remap [OF T(2)]) (simp add: remap_v_def)
  ultimately show ?thesis by (simp add: version_tags_ok_def keys_renamed)
qed

lemma renamed_aliases:
  assumes "db_ok s" and "(ws, nw) \<notin> keys rg_pk (registered_models s)"
  shows "model_aliases_ok (keys v_pk (model_versions (renamed ws nm nw n s))) (model_aliases (renamed ws nm nw n s))"
proof -
  have T: "pk al_pk (model_aliases s)" "fk al_ref (model_aliases s) (keys v_pk (model_versions s))"
    using db_okD(19) [OF assms(1)] by (simp_all add: model_aliases_ok_def)
  then have "(ws, nw) \<notin> fst ` keys al_pk (model_aliases s)"
    using renamed_versions(2) [OF assms] by (force simp: fk_def keys_def)
  note inj = inj_on_fst_pair [OF remap_inj [OF this, of nm]]
  have "pk al_pk (model_aliases (renamed ws nm nw n s))"
    unfolding renamed_sel by (rule pk_remap [OF T(1) inj]) (simp add: remap_def)
  moreover have "fk al_ref (model_aliases (renamed ws nm nw n s)) (remap_v ws nm nw ` keys v_pk (model_versions s))"
    unfolding renamed_sel by (rule fk_remap [OF T(2)]) (simp add: remap_v_def)
  ultimately show ?thesis by (simp add: model_aliases_ok_def keys_renamed)
qed

lemma renamed_ok:
  assumes "db_ok s" and "(ws, nw) \<notin> keys rg_pk (registered_models s)"
  shows "db_ok (renamed ws nm nw n s)"
proof -
  have other: "workspaces (renamed ws nm nw n s) = workspaces s" by (simp add: renamed_def)
  show ?thesis
    using assms(1) renamed_models [OF assms] renamed_versions(1) [OF assms] renamed_model_tags [OF assms]
      renamed_version_tags [OF assms] renamed_aliases [OF assms]
    unfolding db_ok_def other by (simp add: renamed_def)
qed

text \<open>The rename succeeds when the model exists and the new name is free.\<close>

lemma RenameRegisteredModel_run:
  assumes ok: "db_ok s" and valid: "ValidName nw 250 = None"
    and found: "(default_ws ws, nm) \<in> keys rg_pk (registered_models s)"
    and free: "(default_ws ws, nw) \<notin> keys rg_pk (registered_models s)"
  shows "RenameRegisteredModel ws nm nw s =
    GetRegisteredModel (default_ws ws) nw
      (renamed (default_ws ws) nm nw (clock s (clock_pos s)) (s\<lparr>clock_pos := Suc (clock_pos s)\<rparr>))"
proof -
  let ?w = "default_ws ws" and ?n = "clock s (clock_pos s)" and ?s = "s\<lparr>clock_pos := Suc (clock_pos s)\<rparr>"
  have "db_ok ?s" using ok clockless_db_ok by (simp add: clockless_def)
  from renamed_ok [OF this, of ?w nw nm ?n] free have "db_ok (renamed ?w nm nw ?n ?s)" by simp
  from db_okD(15-19) [OF this]
  have "pk v_pk (model_versions (renamed ?w nm nw ?n ?s))" "pk vt_pk (model_version_tags (renamed ?w nm nw ?n ?s))"
    "pk gt_pk (registered_model_tags (renamed ?w nm nw ?n ?s))" "pk al_pk (model_aliases (renamed ?w nm nw ?n ?s))"
    "pk rg_pk (registered_models (renamed ?w nm nw ?n ?s))"
    by (auto simp: versions_ok_def version_tags_ok_def model_tags_ok_def model_aliases_ok_def models_ok_def)
  note pks = this [unfolded renamed_sel, simplified]
  have body: "rename_rows ?w nm nw ?n ?s = (Inr (), renamed ?w nm nw ?n ?s)"
    by (simp add: rename_rows_def rename_versions_def rename_version_tags_def rename_model_tags_def rename_aliases_def
        rename_model_def sem_simps pks renamed_def)
  show ?thesis
    using valid found free by (simp add: RenameRegisteredModel_def Let_def sem_simps has_key_iff body)
qed

lemma default_ws_idem [simp]: "default_ws (default_ws ws) = default_ws ws"
  by (simp add: default_ws_def)

lemma RenameRegisteredModel_refused:
  assumes "ValidName nw 250 \<noteq> None \<or> (default_ws ws, nm) \<notin> keys rg_pk (registered_models s) \<or>
      (default_ws ws, nw) \<in> keys rg_pk (registered_models s)"
  shows "\<exists>n e. RenameRegisteredModel ws nm nw s = (Inl e, s\<lparr>clock_pos := n\<rparr>)"
proof (cases "ValidName nw 250 = None")
  case False
  then show ?thesis by (intro exI [of _ "clock_pos s"]) (auto simp: RenameRegisteredModel_def Let_def sem_simps)
next
  case True
  with assms show ?thesis
    by (intro exI [of _ "Suc (clock_pos s)"]) (auto simp: RenameRegisteredModel_def Let_def sem_simps has_key_iff)
qed

lemma snd_GetRegisteredModel [simp]: "snd (GetRegisteredModel ws nm s) = s"
  by (simp add: GetRegisteredModel_def Let_def sem_simps split: option.split)

lemma keeps_RenameRegisteredModel [keeps_intros]: "keeps db_ok (RenameRegisteredModel ws nm nw)"
proof (rule keepsI)
  fix s assume ok: "db_ok s"
  then have ok1: "db_ok (s\<lparr>clock_pos := n\<rparr>)" for n using clockless_db_ok by (simp add: clockless_def)
  show "db_ok (snd (RenameRegisteredModel ws nm nw s))"
  proof (cases "ValidName nw 250 = None \<and> (default_ws ws, nm) \<in> keys rg_pk (registered_models s) \<and>
      (default_ws ws, nw) \<notin> keys rg_pk (registered_models s)")
    case True
    then show ?thesis using RenameRegisteredModel_run [OF ok] renamed_ok [OF ok1] by simp
  next
    case False
    then show ?thesis using RenameRegisteredModel_refused [of nw ws nm s] ok1 by auto
  qed
qed

end
