(* ===== verification/RegistryBehaviour.thy ===== *)
theory RegistryBehaviour
  imports RegistryFacts
begin

text \<open>
  What the registry promises its callers: a rename carries the description, tags, aliases and versions
  of a model to the new name and touches no other model; a new version gets the number after the
  highest one and reads back as given; promoting a version to Production with archiving leaves it as
  the only Production version; an alias resolves to the version it was set to.
\<close>

section \<open>Reads\<close>

lemma foldl_add_model_alias:
  "foldl add_model_alias m rs =
    m\<lparr>rm_Aliases := rm_Aliases m @ map (\<lambda>a. \<lparr>ma_Alias = al_alias a, ma_Version = al_version a\<rparr>) rs\<rparr>"
  by (induction rs arbitrary: m) (simp_all add: add_model_alias_def)

lemma foldl_add_version_tag:
  "foldl add_version_tag m rs =
    m\<lparr>mv_Tags := mv_Tags m @ map (\<lambda>t. \<lparr>kv_Key = vt_key t, kv_Value = vt_value t\<rparr>) rs\<rparr>"
  by (induction rs arbitrary: m) (simp_all add: add_version_tag_def)

lemma foldl_add_version_alias:
  "foldl add_version_alias m rs = m\<lparr>mv_Aliases := mv_Aliases m @ map al_alias rs\<rparr>"
  by (induction rs arbitrary: m) (simp_all add: add_version_alias_def)

text \<open>The model and the version that the reads return for a row.\<close>

definition model_view :: "db \<Rightarrow> model_row \<Rightarrow> RegisteredModel" where
  "model_view s r = (scanRegisteredModel r)\<lparr>
     rm_Tags := map (\<lambda>t. \<lparr>kv_Key = gt_key t, kv_Value = gt_value t\<rparr>)
       (sort_key gt_key (filter (\<lambda>t. gt_ref t = rg_pk r) (registered_model_tags s))),
     rm_Aliases := map (\<lambda>a. \<lparr>ma_Alias = al_alias a, ma_Version = al_version a\<rparr>)
       (sort_key al_alias (filter (\<lambda>a. (al_workspace_id a, al_name a) = rg_pk r) (model_aliases s)))\<rparr>"

definition version_view :: "db \<Rightarrow> version_row \<Rightarrow> ModelVersion" where
  "version_view s v = (scanModelVersionRow v)\<lparr>
     mv_Tags := map (\<lambda>t. \<lparr>kv_Key = vt_key t, kv_Value = vt_value t\<rparr>)
       (sort_key vt_key (filter (\<lambda>t. vt_ref t = v_pk v) (model_version_tags s))),
     mv_Aliases := map al_alias (sort_key al_alias (filter (\<lambda>a. al_ref a = v_pk v) (model_aliases s)))\<rparr>"

lemma load_model_aliases_one:
  "loadRegisteredModelAliases ws s [m] = [m\<lparr>rm_Aliases := rm_Aliases m @
     map (\<lambda>a. \<lparr>ma_Alias = al_alias a, ma_Version = al_version a\<rparr>)
       (sort_key al_alias (filter (\<lambda>a. (al_workspace_id a, al_name a) = (ws, rm_Name m)) (model_aliases s)))\<rparr>]"
  by (simp add: loadRegisteredModelAliases_def model_alias_load.load_eq tagBatchSize_def load_one_def
      foldl_add_model_alias conj_commute)

lemma load_versions:
  assumes "distinct (map (\<lambda>mv. (mv_Name mv, mv_Version mv)) mvs)"
  shows "loadModelVersionMeta ws s mvs = map (\<lambda>m. m\<lparr>
     mv_Tags := mv_Tags m @ map (\<lambda>t. \<lparr>kv_Key = vt_key t, kv_Value = vt_value t\<rparr>)
       (sort_key vt_key (filter (\<lambda>t. vt_ref t = (ws, mv_Name m, mv_Version m)) (model_version_tags s))),
     mv_Aliases := mv_Aliases m @ map al_alias
       (sort_key al_alias (filter (\<lambda>a. al_ref a = (ws, mv_Name m, mv_Version m)) (model_aliases s)))\<rparr>) mvs"
proof -
  let ?tags = "filter (\<lambda>t. vt_workspace_id t = ws) (model_version_tags s)"
  let ?ms = "map (load_one (\<lambda>mv. (mv_Name mv, mv_Version mv)) (\<lambda>t. (vt_name t, vt_version t)) vt_key add_version_tag ?tags) mvs"
  have d: "distinct (map (\<lambda>mv. (mv_Name mv, mv_Version mv)) ?ms)"
    using assms by (simp add: load_one_def foldl_add_version_tag comp_def)
  have pos: "0 < mvBatchSize" by (simp add: mvBatchSize_def)
  show ?thesis
    unfolding loadModelVersionMeta_def version_tag_load.load_eq [OF pos assms] version_alias_load.load_eq [OF pos d]
    by (simp add: load_one_def foldl_add_version_tag foldl_add_version_alias conj_commute conj_left_commute)
qed

lemma GetRegisteredModel_eq:
  "GetRegisteredModel ws nm s =
    (case first_row (\<lambda>m. rg_pk m = (default_ws ws, nm)) (registered_models s) of
       None \<Rightarrow> (Inl ErrNotFound, s) | Some r \<Rightarrow> (Inr (model_view s r), s))"
proof (cases "first_row (\<lambda>m. rg_pk m = (default_ws ws, nm)) (registered_models s)")
  case None
  then show ?thesis by (simp add: GetRegisteredModel_def Let_def sem_simps)
next
  case (Some r)
  then have "rg_workspace_id r = default_ws ws" "rg_name r = nm" by (auto dest: first_row_Some)
  with Some show ?thesis
    by (simp add: GetRegisteredModel_def Let_def sem_simps load_model_aliases_one model_view_def
        scanRegisteredModel_def getRegisteredModelTags_def)
qed

lemma GetModelVersion_eq:
  "GetModelVersion ws nm ver s =
    (case first_row (\<lambda>v. v_pk v = (default_ws ws, nm, ver)) (model_versions s) of
       None \<Rightarrow> (Inl ErrNotFound, s) | Some v \<Rightarrow> (Inr (version_view s v), s))"
proof (cases "first_row (\<lambda>v. v_pk v = (default_ws ws, nm, ver)) (model_versions s)")
  case None
  then show ?thesis by (simp add: GetModelVersion_def Let_def sem_simps)
next
  case (Some v)
  then have "v_workspace_id v = default_ws ws" "v_name v = nm" "v_version v = ver" by (auto dest: first_row_Some)
  with Some show ?thesis
    by (simp add: GetModelVersion_def Let_def sem_simps load_versions version_view_def scanModelVersionRow_def)
qed

lemma GetModelVersion_okE:
  assumes "GetModelVersion ws nm ver s = (Inr x, t)"
  obtains v where "first_row (\<lambda>v. v_pk v = (default_ws ws, nm, ver)) (model_versions s) = Some v" and "x = version_view s v"
  using assms by (cases "first_row (\<lambda>v. v_pk v = (default_ws ws, nm, ver)) (model_versions s)")
    (auto simp: GetModelVersion_eq)

lemma reads_clock [simp]:
  "fst (GetRegisteredModel ws nm (s\<lparr>clock_pos := k\<rparr>)) = fst (GetRegisteredModel ws nm s)"
  "fst (GetModelVersion ws nm ver (s\<lparr>clock_pos := k\<rparr>)) = fst (GetModelVersion ws nm ver s)"
  by (simp_all add: GetRegisteredModel_eq GetModelVersion_eq model_view_def version_view_def split: option.split)

text \<open>The same model or version under a new name.\<close>

lemma find_renamed:
  assumes "\<And>r. r \<in> set rs \<Longrightarrow> P (g r) \<longleftrightarrow> Q r" and "\<And>r. r \<in> set rs \<Longrightarrow> Q r \<Longrightarrow> g r = f r"
  shows "first_row P (map g rs) = map_option f (first_row Q rs)"
  using assms unfolding first_row_def by (induction rs) auto

lemma sort_key_renamed:
  assumes "\<And>r. r \<in> set rs \<Longrightarrow> P (g r) \<longleftrightarrow> Q r" and "\<And>r. k (g r) = k r" and "\<And>r. h (g r) = h r"
  shows "map h (sort_key k (filter P (map g rs))) = map h (sort_key k (filter Q rs))"
proof -
  note sort = sort_key_map [of k g k, OF assms(2)]
  have "filter P (map g rs) = map g (filter Q rs)"
    using assms(1) by (induction rs) auto
  then have "map h (sort_key k (filter P (map g rs))) = map (h \<circ> g) (sort_key k (filter Q rs))"
    by (simp add: sort)
  moreover have "h \<circ> g = h" using assms(3) by (simp add: fun_eq_iff)
  ultimately show ?thesis by simp
qed

lemma rows_free:
  assumes "db_ok s" and "(ws, nw) \<notin> keys rg_pk (registered_models s)"
  shows "v \<in> set (model_versions s) \<Longrightarrow> \<not> (v_workspace_id v = ws \<and> v_name v = nw)"
    and "t \<in> set (registered_model_tags s) \<Longrightarrow> \<not> (gt_workspace_id t = ws \<and> gt_name t = nw)"
    and "u \<in> set (model_version_tags s) \<Longrightarrow> \<not> (vt_workspace_id u = ws \<and> vt_name u = nw)"
    and "a \<in> set (model_aliases s) \<Longrightarrow> \<not> (al_workspace_id a = ws \<and> al_name a = nw)"
proof -
  have V: "fk v_ref (model_versions s) (keys rg_pk (registered_models s))"
    using db_okD(16) [OF assms(1)] by (simp add: versions_ok_def)
  then show ver: "\<not> (v_workspace_id v = ws \<and> v_name v = nw)" if "v \<in> set (model_versions s)" for v
    using that assms(2) by (auto simp: fk_def)
  show "t \<in> set (registered_model_tags s) \<Longrightarrow> \<not> (gt_workspace_id t = ws \<and> gt_name t = nw)"
    using db_okD(17) [OF assms(1)] assms(2) by (auto simp: model_tags_ok_def fk_def)
  show "u \<in> set (model_version_tags s) \<Longrightarrow> \<not> (vt_workspace_id u = ws \<and> vt_name u = nw)"
    using db_okD(18) [OF assms(1)] ver by (fastforce simp: version_tags_ok_def fk_def keys_def)
  show "a \<in> set (model_aliases s) \<Longrightarrow> \<not> (al_workspace_id a = ws \<and> al_name a = nw)"
    using db_okD(19) [OF assms(1)] ver by (fastforce simp: model_aliases_ok_def fk_def keys_def)
qed

section \<open>Rename\<close>

lemma model_view_renamed:
  assumes "db_ok s" and "(ws, nw) \<notin> keys rg_pk (registered_models s)" and "nm \<noteq> nw"
    and "rg_workspace_id r = ws" and "rg_name r = nm"
  shows "model_view (renamed ws nm nw n s) (r\<lparr>rg_name := nw, rg_last_update_time := n\<rparr>) =
    (model_view s r)\<lparr>rm_Name := nw, rm_LastUpdateTime := n\<rparr>"
proof -
  note free = rows_free [OF assms(1,2)]
  have tags: "map (\<lambda>t. \<lparr>kv_Key = gt_key t, kv_Value = gt_value t\<rparr>) (sort_key gt_key
      (filter (\<lambda>t. gt_ref t = (ws, nw)) (registered_model_tags (renamed ws nm nw n s)))) =
    map (\<lambda>t. \<lparr>kv_Key = gt_key t, kv_Value = gt_value t\<rparr>) (sort_key gt_key
      (filter (\<lambda>t. gt_ref t = (ws, nm)) (registered_model_tags s)))"
    unfolding renamed_sel update_where_def by (rule sort_key_renamed) (use free(2) in auto)
  have aliases: "map (\<lambda>a. \<lparr>ma_Alias = al_alias a, ma_Version = al_version a\<rparr>) (sort_key al_alias
      (filter (\<lambda>a. (al_workspace_id a, al_name a) = (ws, nw)) (model_aliases (renamed ws nm nw n s)))) =
    map (\<lambda>a. \<lparr>ma_Alias = al_alias a, ma_Version = al_version a\<rparr>) (sort_key al_alias
      (filter (\<lambda>a. (al_workspace_id a, al_name a) = (ws, nm)) (model_aliases s)))"
    unfolding renamed_sel update_where_def by (rule sort_key_renamed) (use free(4) in auto)
  show ?thesis using tags aliases assms(4,5) by (simp add: model_view_def scanRegisteredModel_def)
qed

lemma version_view_renamed:
  assumes "db_ok s" and "(ws, nw) \<notin> keys rg_pk (registered_models s)" and "nm \<noteq> nw"
    and "v_workspace_id v = ws" and "v_name v = nm"
  shows "version_view (renamed ws nm nw n s) (v\<lparr>v_name := nw\<rparr>) = (version_view s v)\<lparr>mv_Name := nw\<rparr>"
proof -
  note free = rows_free [OF assms(1,2)]
  have tags: "map (\<lambda>t. \<lparr>kv_Key = vt_key t, kv_Value = vt_value t\<rparr>) (sort_key vt_key
      (filter (\<lambda>t. vt_ref t = (ws, nw, v_version v)) (model_version_tags (renamed ws nm nw n s)))) =
    map (\<lambda>t. \<lparr>kv_Key = vt_key t, kv_Value = vt_value t\<rparr>) (sort_key vt_key
      (filter (\<lambda>t. vt_ref t = (ws, nm, v_version v)) (model_version_tags s)))"
    unfolding renamed_sel update_where_def by (rule sort_key_renamed) (use free(3) in auto)
  have aliases: "map al_alias (sort_key al_alias
      (filter (\<lambda>a. al_ref a = (ws, nw, v_version v)) (model_aliases (renamed ws nm nw n s)))) =
    map al_alias (sort_key al_alias (filter (\<lambda>a. al_ref a = (ws, nm, v_version v)) (model_aliases s)))"
    unfolding renamed_sel update_where_def by (rule sort_key_renamed) (use free(4) in auto)
  show ?thesis using tags aliases assms(4,5) by (simp add: version_view_def scanModelVersionRow_def)
qed

lemma renamed_rows:
  assumes "db_ok s" and "(ws, nw) \<notin> keys rg_pk (registered_models s)" and "nm \<noteq> nw"
  shows "first_row (\<lambda>m. rg_pk m = (ws, nw)) (registered_models (renamed ws nm nw n s)) =
      map_option (\<lambda>m. m\<lparr>rg_name := nw, rg_last_update_time := n\<rparr>) (first_row (\<lambda>m. rg_pk m = (ws, nm)) (registered_models s))"
    and "first_row (\<lambda>m. rg_pk m = (ws, nm)) (registered_models (renamed ws nm nw n s)) = None"
    and "first_row (\<lambda>v. v_pk v = (ws, nw, ver)) (model_versions (renamed ws nm nw n s)) =
      map_option (\<lambda>v. v\<lparr>v_name := nw\<rparr>) (first_row (\<lambda>v. v_pk v = (ws, nm, ver)) (model_versions s))"
proof -
  note free = rows_free [OF assms(1,2)]
  have f: "rg_workspace_id r = ws \<Longrightarrow> rg_name r \<noteq> nw" if "r \<in> set (registered_models s)" for r
    using that assms(2) by (force simp: keys_def)
  show "first_row (\<lambda>m. rg_pk m = (ws, nw)) (registered_models (renamed ws nm nw n s)) =
      map_option (\<lambda>m. m\<lparr>rg_name := nw, rg_last_update_time := n\<rparr>) (first_row (\<lambda>m. rg_pk m = (ws, nm)) (registered_models s))"
    unfolding renamed_sel update_where_def by (rule find_renamed) (simp_all split: if_split, use f in blast)
  show "first_row (\<lambda>m. rg_pk m = (ws, nm)) (registered_models (renamed ws nm nw n s)) = None"
    unfolding first_row_None renamed_sel update_where_def set_map ball_simps using assms(3) by simp
  show "first_row (\<lambda>v. v_pk v = (ws, nw, ver)) (model_versions (renamed ws nm nw n s)) =
      map_option (\<lambda>v. v\<lparr>v_name := nw\<rparr>) (first_row (\<lambda>v. v_pk v = (ws, nm, ver)) (model_versions s))"
    unfolding renamed_sel update_where_def by (rule find_renamed) (simp_all split: if_split, use free(1) in blast)
qed

lemma GetModelVersion_renamed:
  assumes "db_ok s" and "(default_ws ws, nw) \<notin> keys rg_pk (registered_models s)" and "nm \<noteq> nw"
  shows "fst (GetModelVersion ws nw ver (renamed (default_ws ws) nm nw n s)) =
    map_sum id (\<lambda>v. v\<lparr>mv_Name := nw\<rparr>) (fst (GetModelVersion ws nm ver s))"
proof (cases "first_row (\<lambda>v. v_pk v = (default_ws ws, nm, ver)) (model_versions s)")
  case None
  then show ?thesis unfolding GetModelVersion_eq renamed_rows(3) [OF assms] by simp
next
  case (Some v)
  then have "v_workspace_id v = default_ws ws" "v_name v = nm" by (auto dest: first_row_Some)
  with Some show ?thesis
    unfolding GetModelVersion_eq renamed_rows(3) [OF assms] by (simp add: version_view_renamed [OF assms])
qed

text \<open>Another model does not see the rename.\<close>

lemma other_model_renamed:
  assumes "(default_ws ws', nm') \<notin> {(ws, nm), (ws, nw)}"
  shows "fst (GetRegisteredModel ws' nm' (renamed ws nm nw n s)) = fst (GetRegisteredModel ws' nm' s)"
proof -
  have row: "first_row (\<lambda>m. rg_pk m = (default_ws ws', nm')) (registered_models (renamed ws nm nw n s)) =
      map_option (\<lambda>m. m) (first_row (\<lambda>m. rg_pk m = (default_ws ws', nm')) (registered_models s))"
    unfolding renamed_sel update_where_def by (rule find_renamed) (use assms in auto)
  have "model_view (renamed ws nm nw n s) r = model_view s r" if "rg_pk r = (default_ws ws', nm')" for r
    using assms that unfolding model_view_def renamed_sel
    by (subst (1 2) filter_update_where_other) auto
  then show ?thesis unfolding GetRegisteredModel_eq row
    by (cases "first_row (\<lambda>m. rg_pk m = (default_ws ws', nm')) (registered_models s)") (auto dest: first_row_Some)
qed

text \<open>
  C7. Renaming a registered model to a free valid name returns the model with its description, tags,
  aliases and creation time under the new name. Every version answers under the new name as it did
  under the old one, the old name is gone, and no other model changes.
\<close>

theorem RenameRegisteredModel_carries:
  assumes "db_ok s" and "GetRegisteredModel ws nm s = (Inr m, s)" and "ValidName nw 250 = None"
    and "fst (GetRegisteredModel ws nw s) = Inl ErrNotFound"
  shows "\<exists>t. RenameRegisteredModel ws nm nw s =
      (Inr (m\<lparr>rm_Name := nw, rm_LastUpdateTime := clock s (clock_pos s)\<rparr>), t) \<and>
    (\<forall>ver. fst (GetModelVersion ws nw ver t) = map_sum id (\<lambda>v. v\<lparr>mv_Name := nw\<rparr>) (fst (GetModelVersion ws nm ver s))) \<and>
    fst (GetRegisteredModel ws nm t) = Inl ErrNotFound \<and>
    (\<forall>ws' nm'. (default_ws ws', nm') \<notin> {(default_ws ws, nm), (default_ws ws, nw)} \<longrightarrow>
      fst (GetRegisteredModel ws' nm' t) = fst (GetRegisteredModel ws' nm' s)) \<and> db_ok t"
proof -
  let ?w = "default_ws ws" and ?n = "clock s (clock_pos s)" and ?s = "s\<lparr>clock_pos := Suc (clock_pos s)\<rparr>"
  have ok: "db_ok ?s" using assms(1) clockless_db_ok by (simp add: clockless_def)
  obtain r where r: "first_row (\<lambda>m. rg_pk m = (?w, nm)) (registered_models s) = Some r" and m: "m = model_view s r"
    using assms(2) by (auto simp: GetRegisteredModel_eq split: option.splits)
  have none: "first_row (\<lambda>m. rg_pk m = (?w, nw)) (registered_models s) = None"
    using assms(4) by (auto simp: GetRegisteredModel_eq split: option.splits)
  with r have ne: "nm \<noteq> nw" by auto
  from none have free: "(?w, nw) \<notin> keys rg_pk (registered_models s)" by (auto simp: first_row_None keys_def)
  then have free': "(?w, nw) \<notin> keys rg_pk (registered_models ?s)" by simp
  from r have rr: "rg_workspace_id r = ?w" "rg_name r = nm" "r \<in> set (registered_models s)" by (auto dest: first_row_Some)
  then have found: "(?w, nm) \<in> keys rg_pk (registered_models s)" by (force simp: keys_def)
  let ?t = "renamed ?w nm nw ?n ?s"
  have views: "model_view ?s r = model_view s r" by (simp add: model_view_def)
  have "RenameRegisteredModel ws nm nw s = (Inr (m\<lparr>rm_Name := nw, rm_LastUpdateTime := ?n\<rparr>), ?t)"
    unfolding RenameRegisteredModel_run [OF assms(1,3) found free] GetRegisteredModel_eq
    using renamed_rows(1) [OF ok free' ne] model_view_renamed [OF ok free' ne rr(1,2)] r views by (simp add: m)
  moreover have "fst (GetModelVersion ws nw ver ?t) = map_sum id (\<lambda>v. v\<lparr>mv_Name := nw\<rparr>) (fst (GetModelVersion ws nm ver s))" for ver
    using GetModelVersion_renamed [OF ok free' ne] by simp
  moreover have "fst (GetRegisteredModel ws nm ?t) = Inl ErrNotFound"
    using renamed_rows(2) [OF ok free' ne] by (simp add: GetRegisteredModel_eq)
  moreover have "fst (GetRegisteredModel ws' nm' ?t) = fst (GetRegisteredModel ws' nm' s)"
    if "(default_ws ws', nm') \<notin> {(?w, nm), (?w, nw)}" for ws' nm'
    using other_model_renamed [OF that] by simp
  moreover have "db_ok ?t" by (rule renamed_ok [OF ok free'])
  ultimately show ?thesis by blast
qed

text \<open>A registry with the model "churn" in two versions, the first in Production.\<close>

definition sample_version :: "int \<Rightarrow> string \<Rightarrow> version_row" where
  "sample_version i st = \<lparr>
     v_workspace_id = ''default'', v_name = ''churn'', v_version = i, v_description = None, v_user_id = None,
     v_current_stage = st, v_source = ''s3://m'', v_run_id = None, v_status = ''READY'', v_status_message = None,
     v_creation_time = 70, v_last_update_time = 70\<rparr>"

definition sample_registry :: db where
  "sample_registry = sample_db\<lparr>
     registered_models := [\<lparr>rg_workspace_id = ''default'', rg_name = ''churn'', rg_description = Some ''d'',
       rg_creation_time = 70, rg_last_update_time = 70\<rparr>],
     model_versions := [sample_version 1 ''Production'', sample_version 2 ''Staging''],
     registered_model_tags := [\<lparr>gt_workspace_id = ''default'', gt_name = ''churn'', gt_key = ''k'', gt_value = ''v''\<rparr>],
     model_aliases := [\<lparr>al_workspace_id = ''default'', al_name = ''churn'', al_alias = ''champion'', al_version = 1\<rparr>]\<rparr>"

lemma sample_registry_tables [simp]:
  "registered_models sample_registry = [\<lparr>rg_workspace_id = ''default'', rg_name = ''churn'', rg_description = Some ''d'',
     rg_creation_time = 70, rg_last_update_time = 70\<rparr>]"
  "model_versions sample_registry = [sample_version 1 ''Production'', sample_version 2 ''Staging'']"
  "registered_model_tags sample_registry =
     [\<lparr>gt_workspace_id = ''default'', gt_name = ''churn'', gt_key = ''k'', gt_value = ''v''\<rparr>]"
  "model_version_tags sample_registry = []"
  "model_aliases sample_registry =
     [\<lparr>al_workspace_id = ''default'', al_name = ''churn'', al_alias = ''champion'', al_version = 1\<rparr>]"
  "clock_pos sample_registry = 5" "clock sample_registry = (\<lambda>n. if n < 5 then 100 else 200)"
  by (simp_all add: sample_registry_def sample_db_def fresh_db_def)

lemma db_ok_sample_registry: "db_ok sample_registry"
proof -
  have w: "workspaces sample_registry = workspaces sample_db" by (simp add: sample_registry_def)
  have "models_ok (keys w_id (workspaces sample_registry)) (registered_models sample_registry)"
    "versions_ok (keys rg_pk (registered_models sample_registry)) (model_versions sample_registry)"
    "model_tags_ok (keys rg_pk (registered_models sample_registry)) (registered_model_tags sample_registry)"
    "version_tags_ok (keys v_pk (model_versions sample_registry)) (model_version_tags sample_registry)"
    "model_aliases_ok (keys v_pk (model_versions sample_registry)) (model_aliases sample_registry)"
    unfolding w by (simp_all add: models_ok_def versions_ok_def model_tags_ok_def version_tags_ok_def model_aliases_ok_def
        pk_def fk_def chk_def version_check_def ValidStage_def stage_defs sample_version_def)
  then show ?thesis
    using db_ok_sample unfolding db_ok_def by (simp add: sample_registry_def)
qed

theorem RenameRegisteredModel_carries_witness:
  "\<exists>t m. RenameRegisteredModel [] ''churn'' ''churn2'' sample_registry = (Inr m, t) \<and>
    rm_Name m = ''churn2'' \<and> rm_Description m = ''d'' \<and> kv_pairs (rm_Tags m) = [(''k'', ''v'')] \<and>
    map ma_Alias (rm_Aliases m) = [''champion''] \<and> rm_LastUpdateTime m = 200 \<and>
    fst (GetRegisteredModel [] ''churn'' t) = Inl ErrNotFound \<and>
    map_sum id mv_CurrentStage (fst (GetModelVersion [] ''churn2'' 1 t)) = Inr ''Production''"
proof -
  let ?m = "model_view sample_registry (hd (registered_models sample_registry))"
  have 1: "GetRegisteredModel [] ''churn'' sample_registry = (Inr ?m, sample_registry)"
    by (simp add: GetRegisteredModel_eq first_row_def default_ws_def)
  have 2: "ValidName ''churn2'' 250 = None" by (simp add: ValidName_def runes_def is_control_def)
  have 3: "fst (GetRegisteredModel [] ''churn2'' sample_registry) = Inl ErrNotFound"
    by (simp add: GetRegisteredModel_eq first_row_def default_ws_def)
  have 4: "fst (GetModelVersion [] ''churn'' 1 sample_registry) = Inr (version_view sample_registry (sample_version 1 ''Production''))"
    by (simp add: GetModelVersion_eq first_row_def default_ws_def sample_version_def)
  obtain t where t: "RenameRegisteredModel [] ''churn'' ''churn2'' sample_registry =
      (Inr (?m\<lparr>rm_Name := ''churn2'', rm_LastUpdateTime := 200\<rparr>), t)"
    "fst (GetRegisteredModel [] ''churn'' t) = Inl ErrNotFound"
    "fst (GetModelVersion [] ''churn2'' 1 t) = map_sum id (\<lambda>v. v\<lparr>mv_Name := ''churn2''\<rparr>) (fst (GetModelVersion [] ''churn'' 1 sample_registry))"
    using RenameRegisteredModel_carries [OF db_ok_sample_registry 1 2 3] by auto
  with 4 show ?thesis
    by (intro exI [of _ t] exI [of _ "?m\<lparr>rm_Name := ''churn2'', rm_LastUpdateTime := 200\<rparr>"])
      (simp add: model_view_def scanRegisteredModel_def kv_pairs_def version_view_def scanModelVersionRow_def sample_version_def)
qed

section \<open>Version numbers\<close>

definition versions_of :: "db \<Rightarrow> string \<times> string \<Rightarrow> version_row list" where
  "versions_of s k = filter (\<lambda>v. v_ref v = k) (model_versions s)"

definition next_version :: "db \<Rightarrow> string \<times> string \<Rightarrow> int" where
  "next_version s k = max_or_0 (map v_version (versions_of s k)) + 1"

lemma next_version_fresh: "v \<in> set (versions_of s k) \<Longrightarrow> v_version v < next_version s k"
  using max_or_0_ge [of "v_version v" "map v_version (versions_of s k)"] by (auto simp: next_version_def)

lemma next_version_free: "(w, nm, next_version s (w, nm)) \<notin> keys v_pk (model_versions s)"
proof
  assume "(w, nm, next_version s (w, nm)) \<in> keys v_pk (model_versions s)"
  then obtain v where "v \<in> set (versions_of s (w, nm))" "v_version v = next_version s (w, nm)"
    by (auto simp: keys_def versions_of_def)
  then show False using next_version_fresh by fastforce
qed

text \<open>The row of a new version.\<close>

definition new_version :: "string \<Rightarrow> ModelVersion \<Rightarrow> int \<Rightarrow> int \<Rightarrow> version_row" where
  "new_version ws mv i n = \<lparr>
     v_workspace_id = ws, v_name = mv_Name mv, v_version = i,
     v_description = nilIfEmpty (mv_Description mv), v_user_id = nilIfEmpty (mv_UserID mv),
     v_current_stage = (if mv_CurrentStage mv = [] then StageNone else mv_CurrentStage mv),
     v_source = mv_Source mv, v_run_id = nilIfEmpty (mv_RunID mv),
     v_status = (if mv_Status mv = [] then ''READY'' else mv_Status mv),
     v_status_message = nilIfEmpty (mv_StatusMessage mv),
     v_creation_time = (if mv_CreationTime mv = 0 then n else mv_CreationTime mv),
     v_last_update_time = (if mv_LastUpdateTime mv = 0 then n else mv_LastUpdateTime mv)\<rparr>"

lemma new_version_sel [simp]:
  "v_workspace_id (new_version ws mv i n) = ws" "v_name (new_version ws mv i n) = mv_Name mv"
  "v_version (new_version ws mv i n) = i"
  by (simp_all add: new_version_def)

lemma CreateModelVersion_run:
  assumes "ValidName (mv_Name mv) 250 = None" and "(default_ws ws, mv_Name mv) \<in> keys rg_pk (registered_models s)"
    and "mv_CurrentStage mv = [] \<or> ValidStage (mv_CurrentStage mv)"
    and "mv_Status mv \<in> {[], ''READY'', ''PENDING'', ''FAILED''}"
  defines "i \<equiv> next_version s (default_ws ws, mv_Name mv)" and "n \<equiv> clock s (clock_pos s)"
  shows "CreateModelVersion ws mv s = GetModelVersion ws (mv_Name mv) i
    (s\<lparr>clock_pos := Suc (clock_pos s), model_versions := model_versions s @ [new_version (default_ws ws) mv i n]\<rparr>)"
proof -
  let ?w = "default_ws ws" and ?s = "s\<lparr>clock_pos := Suc (clock_pos s)\<rparr>"
  have found: "\<exists>m. GetRegisteredModel ?w (mv_Name mv) s = (Inr m, s)"
    using assms(2) first_row_keys [of rg_pk "(?w, mv_Name mv)" "registered_models s"]
    by (auto simp: GetRegisteredModel_eq split: option.split)
  have fresh: "(?w, mv_Name mv, i) \<notin> keys v_pk (model_versions s)"
    unfolding i_def by (rule next_version_free)
  have check: "version_check (new_version ?w mv i n)"
    using assms(3,4) by (auto simp: version_check_def new_version_def ValidStage_def)
  have ins: "insert_model_versions (new_version ?w mv i n) ?s =
      (Inr (), ?s\<lparr>model_versions := model_versions s @ [new_version ?w mv i n]\<rparr>)"
    using check fresh assms(2) by (simp add: insert_model_versions_def sem_simps has_key_iff)
  let ?next = "tx (bnd (gets (\<lambda>s. max_or_0 (map v_version (filter (\<lambda>v. v_ref v = (?w, mv_Name mv)) (model_versions s))) + 1))
      (\<lambda>next. bnd (insert_model_versions (new_version ?w mv next n)) (\<lambda>_. ret next)))"
  have "?next ?s = (Inr i, ?s\<lparr>model_versions := model_versions s @ [new_version ?w mv i n]\<rparr>)"
    using ins by (simp add: sem_simps i_def next_version_def versions_of_def)
  then have retry: "retryWriteRace ?next ?s = (Inr i, ?s\<lparr>model_versions := model_versions s @ [new_version ?w mv i n]\<rparr>)"
    by (rule retryWriteRace_ok)
  have id: "GetModelVersion ?w = GetModelVersion ws" by (simp add: fun_eq_iff GetModelVersion_eq)
  show ?thesis
    using assms(1) found retry
    by (auto simp: CreateModelVersion_def Let_def sem_simps n_def new_version_def [symmetric] id)
qed

text \<open>
  C8. A new version gets the number after the highest version of its model, and reads back as given,
  with stage None and status READY by default, and without tags and aliases. Versions that were there answer as before.
\<close>

theorem CreateModelVersion_next:
  assumes "db_ok s" and "ValidName (mv_Name mv) 250 = None" and "GetRegisteredModel ws (mv_Name mv) s = (Inr m, s)"
    and "mv_CurrentStage mv = [] \<or> ValidStage (mv_CurrentStage mv)"
    and "mv_Status mv \<in> {[], ''READY'', ''PENDING'', ''FAILED''}"
  defines "i \<equiv> next_version s (default_ws ws, mv_Name mv)" and "n \<equiv> clock s (clock_pos s)"
  shows "\<exists>t. CreateModelVersion ws mv s =
      (Inr (scanModelVersionRow (new_version (default_ws ws) mv i n)), t) \<and>
    (\<forall>v. fst (GetModelVersion ws (mv_Name mv) v s) \<noteq> Inl ErrNotFound \<longrightarrow> v < i) \<and>
    (\<forall>ws' nm v. (default_ws ws', nm, v) \<noteq> (default_ws ws, mv_Name mv, i) \<longrightarrow>
      fst (GetModelVersion ws' nm v t) = fst (GetModelVersion ws' nm v s))"
proof -
  let ?w = "default_ws ws" and ?r = "new_version (default_ws ws) mv i n"
  let ?t = "s\<lparr>clock_pos := Suc (clock_pos s), model_versions := model_versions s @ [?r]\<rparr>"
  have lt: "v_version v < i" if "v \<in> set (model_versions s)" "v_ref v = (?w, mv_Name mv)" for v
    using next_version_fresh [of v s "(?w, mv_Name mv)"] that by (simp add: i_def versions_of_def)
  have free: "(?w, mv_Name mv, i) \<notin> keys v_pk (model_versions s)" unfolding i_def by (rule next_version_free)
  then have none: "first_row (\<lambda>v. v_pk v = (?w, mv_Name mv, i)) (model_versions s) = None"
    by (simp only: first_row_keys not_False_eq_True)
  have kids: "\<forall>u\<in>set (model_version_tags s). vt_ref u \<noteq> (?w, mv_Name mv, i)" "\<forall>a\<in>set (model_aliases s). al_ref a \<noteq> (?w, mv_Name mv, i)"
    using db_okD(18,19) [OF assms(1)] free by (fastforce simp: version_tags_ok_def model_aliases_ok_def fk_def)+
  have found: "(?w, mv_Name mv) \<in> keys rg_pk (registered_models s)"
    using assms(3) first_row_keys [of rg_pk "(?w, mv_Name mv)" "registered_models s"]
    by (auto simp: GetRegisteredModel_eq split: option.splits)
  have "version_view ?t ?r = scanModelVersionRow ?r"
    using kids by (simp add: version_view_def filter_empty_conv [THEN iffD2] scanModelVersionRow_def)
  then have "CreateModelVersion ws mv s = (Inr (scanModelVersionRow ?r), ?t)"
    unfolding CreateModelVersion_run [OF assms(2) found assms(4,5)] i_def [symmetric] n_def [symmetric] GetModelVersion_eq
    using none by (simp add: first_row_append first_row_Cons)
  moreover have "v < i" if "fst (GetModelVersion ws (mv_Name mv) v s) \<noteq> Inl ErrNotFound" for v
    using that lt by (auto simp: GetModelVersion_eq dest!: first_row_Some split: option.splits)
  moreover have "fst (GetModelVersion ws' nm v ?t) = fst (GetModelVersion ws' nm v s)"
    if "(default_ws ws', nm, v) \<noteq> (?w, mv_Name mv, i)" for ws' nm v
  proof -
    have "first_row (\<lambda>x. v_pk x = (default_ws ws', nm, v)) (model_versions ?t) =
        first_row (\<lambda>x. v_pk x = (default_ws ws', nm, v)) (model_versions s)"
      using that by (auto simp: first_row_append first_row_Cons split: option.split)
    then show ?thesis unfolding GetModelVersion_eq by (simp add: version_view_def split: option.split)
  qed
  ultimately show ?thesis by blast
qed

theorem CreateModelVersion_next_witness:
  "\<exists>t x. CreateModelVersion [] \<lparr>mv_WorkspaceID = [], mv_Name = ''churn'', mv_Version = 0, mv_Description = [], mv_UserID = [],
       mv_CurrentStage = [], mv_Source = ''s3://n'', mv_RunID = [], mv_Status = [], mv_StatusMessage = [],
       mv_CreationTime = 0, mv_LastUpdateTime = 0, mv_Tags = [], mv_Aliases = []\<rparr> sample_registry = (Inr x, t) \<and>
    mv_Version x = 3 \<and> mv_CurrentStage x = ''None'' \<and> mv_Status x = ''READY'' \<and> mv_CreationTime x = 200"
proof -
  let ?mv = "\<lparr>mv_WorkspaceID = [], mv_Name = ''churn'', mv_Version = 0, mv_Description = [], mv_UserID = [],
       mv_CurrentStage = [], mv_Source = ''s3://n'', mv_RunID = [], mv_Status = [], mv_StatusMessage = [],
       mv_CreationTime = 0, mv_LastUpdateTime = 0, mv_Tags = [], mv_Aliases = []\<rparr>"
  have 1: "GetRegisteredModel [] (mv_Name ?mv) sample_registry =
      (Inr (model_view sample_registry (hd (registered_models sample_registry))), sample_registry)"
    by (simp add: GetRegisteredModel_eq first_row_def default_ws_def)
  have 2: "ValidName (mv_Name ?mv) 250 = None" by (simp add: ValidName_def runes_def is_control_def)
  have 3: "next_version sample_registry (''default'', ''churn'') = 3"
    by (simp add: next_version_def versions_of_def sample_version_def max_or_0_def)
  show ?thesis
    using CreateModelVersion_next [OF db_ok_sample_registry 2 1]
    by (auto simp: default_ws_def 3 scanModelVersionRow_def new_version_def StageNone_def)
qed

section \<open>Stages\<close>

text \<open>The versions after a transition, and the rows a stage update leaves.\<close>

definition staged :: "string \<Rightarrow> string \<Rightarrow> int \<Rightarrow> string \<Rightarrow> bool \<Rightarrow> int \<Rightarrow> version_row \<Rightarrow> version_row" where
  "staged ws nm ver stage arch n v =
     (if v_pk v = (ws, nm, ver) then v\<lparr>v_current_stage := stage, v_last_update_time := n\<rparr>
      else if arch \<and> stage = StageProduction \<and> v_ref v = (ws, nm) \<and> v_current_stage v = StageProduction
      then v\<lparr>v_current_stage := StageArchived, v_last_update_time := n\<rparr>
      else v)"

lemma staged_pk [simp]:
  "v_workspace_id (staged ws nm ver st a n v) = v_workspace_id v" "v_name (staged ws nm ver st a n v) = v_name v"
  "v_version (staged ws nm ver st a n v) = v_version v"
  by (simp_all add: staged_def)

definition stage_set :: "string \<Rightarrow> int \<Rightarrow> version_set" where
  "stage_set st n = \<lparr>vs_description = None, vs_current_stage = Some st, vs_last_update_time = n\<rparr>"

lemma update_stage:
  assumes "chk version_check (model_versions s)" and "ValidStage st"
  shows "update_model_versions p (stage_set st n) s = (Inr (count_where p (model_versions s)),
    s\<lparr>model_versions := update_where p (\<lambda>v. v\<lparr>v_current_stage := st, v_last_update_time := n\<rparr>) (model_versions s)\<rparr>)"
proof -
  have set: "apply_version_set (stage_set st n) = (\<lambda>v. v\<lparr>v_current_stage := st, v_last_update_time := n\<rparr>)"
    by (simp add: fun_eq_iff apply_version_set_def stage_set_def)
  have "\<not> list_ex (\<lambda>v. p v \<and> \<not> version_check (apply_version_set (stage_set st n) v)) (model_versions s)"
    using assms by (auto simp: list_ex_iff chk_def version_check_def set)
  then show ?thesis by (simp add: update_model_versions_def sem_simps set)
qed

lemma TransitionModelStage_run:
  assumes "db_ok s" and "ValidStage stage" and "(default_ws ws, nm, ver) \<in> keys v_pk (model_versions s)"
  defines "n \<equiv> clock s (clock_pos s)"
  shows "TransitionModelStage ws nm ver stage arch s = GetModelVersion ws nm ver
    (s\<lparr>clock_pos := Suc (clock_pos s), model_versions := map (staged (default_ws ws) nm ver stage arch n) (model_versions s)\<rparr>)"
proof -
  let ?w = "default_ws ws"
  let ?p = "\<lambda>v. v_ref v = (?w, nm) \<and> v_current_stage v = StageProduction \<and> v_version v \<noteq> ver"
  have vc: "chk version_check (model_versions s)" using db_okD(16) [OF assms(1)] by (simp add: versions_ok_def)
  have arch: "ValidStage StageArchived" by (simp add: ValidStage_def)
  have vc1: "chk version_check (update_where p (\<lambda>v. v\<lparr>v_current_stage := StageArchived, v_last_update_time := n\<rparr>) (model_versions s))" for p
    using vc by (rule chk_update_where) (simp add: version_check_def arch)
  have cnt: "count_where (\<lambda>v. v_pk v = (?w, nm, ver)) vs \<noteq> 0" if "(?w, nm, ver) \<in> keys v_pk vs" for vs
    using that by (auto simp: count_where_0 keys_def)
  have keys1: "(?w, nm, ver) \<in> keys v_pk (update_where p (\<lambda>v. v\<lparr>v_current_stage := st, v_last_update_time := n\<rparr>) (model_versions s))" for p st
    using assms(3) by (simp add: keys_update_where)
  have both: "update_where (\<lambda>v. v_pk v = (?w, nm, ver)) (\<lambda>v. v\<lparr>v_current_stage := StageProduction, v_last_update_time := n\<rparr>)
      (update_where ?p (\<lambda>v. v\<lparr>v_current_stage := StageArchived, v_last_update_time := n\<rparr>) vs) =
      map (staged ?w nm ver StageProduction True n) vs" for vs
    by (auto simp: update_where_def staged_def)
  have one: "update_where (\<lambda>v. v_pk v = (?w, nm, ver)) (\<lambda>v. v\<lparr>v_current_stage := stage, v_last_update_time := n\<rparr>) vs =
      map (staged ?w nm ver stage arch n) vs" if "\<not> (arch \<and> stage = StageProduction)" for vs
    using that by (auto simp: update_where_def staged_def)
  have id: "GetModelVersion ?w = GetModelVersion ws" by (simp add: fun_eq_iff GetModelVersion_eq)
  note upd = update_stage [unfolded stage_set_def]
  show ?thesis
  proof (cases "arch \<and> stage = StageProduction")
    case True
    then show ?thesis
      using assms(2) both cnt [OF keys1] vc vc1 arch
      by (simp add: TransitionModelStage_def Let_def sem_simps upd n_def [symmetric] id)
  next
    case False
    with one cnt [OF assms(3)] vc assms(2) show ?thesis
      by (simp add: if_not_P [OF False] TransitionModelStage_def Let_def sem_simps upd n_def [symmetric] id)
  qed
qed

lemma production_versions:
  assumes "pk v_pk (model_versions s)" and "r \<in> set (model_versions s)" and "v_pk r = (w, nm, ver)"
  shows "map v_version (filter (\<lambda>r. v_current_stage r = StageProduction)
    (versions_of (s\<lparr>clock_pos := k, model_versions := map (staged w nm ver StageProduction True n) (model_versions s)\<rparr>) (w, nm))) = [ver]"
proof -
  let ?f = "staged w nm ver StageProduction True n"
  have prod: "v_ref (?f v) = (w, nm) \<and> v_current_stage (?f v) = StageProduction \<longleftrightarrow> v_pk v = (w, nm, ver)" for v
    by (auto simp: staged_def stage_defs)
  have "filter (\<lambda>v. v_pk v = (w, nm, ver)) vs = [r]" if "distinct (map v_pk vs)" "r \<in> set vs" for vs
    using that assms(3) by (induction vs) (auto simp: filter_empty_conv image_iff)
  then have "filter (\<lambda>v. v_pk v = (w, nm, ver)) (model_versions s) = [r]" using assms(1,2) by (simp add: pk_def)
  moreover have "filter (\<lambda>r. v_current_stage r = StageProduction) (filter (\<lambda>v. v_ref v = (w, nm)) (map ?f vs)) =
      map ?f (filter (\<lambda>v. v_pk v = (w, nm, ver)) vs)" for vs
    using prod by (induction vs) auto
  ultimately show ?thesis using assms(3) by (simp add: versions_of_def)
qed

text \<open>
  C9. Promoting an existing version to Production with archiving returns it in that stage and leaves it
  as the only Production version of the model: the others that were there are Archived, every other
  version, of this or another model, keeps its stage.
\<close>

theorem TransitionModelStage_single_production:
  assumes "db_ok s" and "GetModelVersion ws nm ver s = (Inr v, s)"
  shows "\<exists>t x. TransitionModelStage ws nm ver StageProduction True s = (Inr x, t) \<and>
    x = v\<lparr>mv_CurrentStage := StageProduction, mv_LastUpdateTime := clock s (clock_pos s)\<rparr> \<and>
    map v_version (filter (\<lambda>r. v_current_stage r = StageProduction) (versions_of t (default_ws ws, nm))) = [ver] \<and>
    (\<forall>ws' nm' i y. (default_ws ws', nm', i) \<noteq> (default_ws ws, nm, ver) \<longrightarrow> GetModelVersion ws' nm' i s = (Inr y, s) \<longrightarrow>
      map_sum id mv_CurrentStage (fst (GetModelVersion ws' nm' i t)) =
        Inr (if (default_ws ws', nm') = (default_ws ws, nm) \<and> mv_CurrentStage y = StageProduction then StageArchived else mv_CurrentStage y))"
proof -
  let ?w = "default_ws ws" and ?n = "clock s (clock_pos s)"
  let ?f = "staged ?w nm ver StageProduction True ?n"
  let ?t = "s\<lparr>clock_pos := Suc (clock_pos s), model_versions := map ?f (model_versions s)\<rparr>"
  obtain r where r: "first_row (\<lambda>v. v_pk v = (?w, nm, ver)) (model_versions s) = Some r" and v: "v = version_view s r"
    using assms(2) by (rule GetModelVersion_okE)
  then have rr: "r \<in> set (model_versions s)" "v_pk r = (?w, nm, ver)" by (auto dest: first_row_Some)
  then have found: "(?w, nm, ver) \<in> keys v_pk (model_versions s)" by (force simp: keys_def)
  have read: "fst (GetModelVersion ws' nm' i ?t) = map_sum id (version_view s \<circ> ?f)
      (case first_row (\<lambda>v. v_pk v = (default_ws ws', nm', i)) (model_versions s) of None \<Rightarrow> Inl ErrNotFound | Some y \<Rightarrow> Inr y)"
    for ws' nm' i
    using find_renamed [of "model_versions s" "\<lambda>v. v_pk v = (default_ws ws', nm', i)" ?f "\<lambda>v. v_pk v = (default_ws ws', nm', i)" ?f]
    by (simp add: GetModelVersion_eq version_view_def split: option.split)
  have "TransitionModelStage ws nm ver StageProduction True s = GetModelVersion ws nm ver ?t"
    by (rule TransitionModelStage_run [OF assms(1) _ found]) (simp add: ValidStage_def)
  moreover have "fst (GetModelVersion ws nm ver ?t) = Inr (v\<lparr>mv_CurrentStage := StageProduction, mv_LastUpdateTime := ?n\<rparr>)"
    using r rr(2) unfolding read by (simp add: v staged_def version_view_def scanModelVersionRow_def)
  moreover have "snd (GetModelVersion ws nm ver ?t) = ?t" by (simp add: GetModelVersion_eq split: option.split)
  moreover have "map v_version (filter (\<lambda>r. v_current_stage r = StageProduction) (versions_of ?t (?w, nm))) = [ver]"
    using db_okD(16) [OF assms(1)] rr by (intro production_versions) (auto simp: versions_ok_def)
  moreover have "map_sum id mv_CurrentStage (fst (GetModelVersion ws' nm' i ?t)) =
        Inr (if (default_ws ws', nm') = (?w, nm) \<and> mv_CurrentStage y = StageProduction then StageArchived else mv_CurrentStage y)"
    if "(default_ws ws', nm', i) \<noteq> (?w, nm, ver)" "GetModelVersion ws' nm' i s = (Inr y, s)" for ws' nm' i y
  proof -
    from that(2) obtain x where x: "first_row (\<lambda>v. v_pk v = (default_ws ws', nm', i)) (model_versions s) = Some x"
      and y: "y = version_view s x" by (rule GetModelVersion_okE)
    then have "v_pk x = (default_ws ws', nm', i)" by (blast dest: first_row_Some)
    with that(1) show ?thesis unfolding read x y
      by (simp add: staged_def version_view_def scanModelVersionRow_def)
  qed
  ultimately show ?thesis by (intro exI conjI allI impI, unfold prod_eq_iff) (assumption | simp)+
qed

theorem TransitionModelStage_single_production_witness:
  "\<exists>t x. TransitionModelStage [] ''churn'' 2 ''Production'' True sample_registry = (Inr x, t) \<and>
    mv_CurrentStage x = ''Production'' \<and>
    map v_version (filter (\<lambda>r. v_current_stage r = ''Production'') (versions_of t (''default'', ''churn''))) = [2] \<and>
    map_sum id mv_CurrentStage (fst (GetModelVersion [] ''churn'' 1 t)) = Inr ''Archived''"
proof -
  have 1: "GetModelVersion [] ''churn'' 1 sample_registry =
      (Inr (version_view sample_registry (sample_version 1 ''Production'')), sample_registry)"
    by (simp add: GetModelVersion_eq first_row_Cons default_ws_def sample_version_def)
  have 2: "GetModelVersion [] ''churn'' 2 sample_registry =
      (Inr (version_view sample_registry (sample_version 2 ''Staging'')), sample_registry)"
    by (simp add: GetModelVersion_eq first_row_Cons default_ws_def sample_version_def)
  obtain t x where t: "TransitionModelStage [] ''churn'' 2 StageProduction True sample_registry = (Inr x, t)"
      "x = (version_view sample_registry (sample_version 2 ''Staging''))\<lparr>mv_CurrentStage := StageProduction, mv_LastUpdateTime := 200\<rparr>"
      "map v_version (filter (\<lambda>r. v_current_stage r = StageProduction) (versions_of t (default_ws [], ''churn''))) = [2]"
    and other: "\<forall>ws' nm' i y. (default_ws ws', nm', i) \<noteq> (default_ws [], ''churn'', 2) \<longrightarrow>
      GetModelVersion ws' nm' i sample_registry = (Inr y, sample_registry) \<longrightarrow>
      map_sum id mv_CurrentStage (fst (GetModelVersion ws' nm' i t)) =
        Inr (if (default_ws ws', nm') = (default_ws [], ''churn'') \<and> mv_CurrentStage y = StageProduction then StageArchived else mv_CurrentStage y)"
    using TransitionModelStage_single_production [OF db_ok_sample_registry 2] by auto
  from other 1 have "map_sum id mv_CurrentStage (fst (GetModelVersion [] ''churn'' 1 t)) = Inr ''Archived''"
    by (simp add: version_view_def scanModelVersionRow_def sample_version_def stage_defs)
  with t show ?thesis by (auto simp: stage_defs default_ws_def)
qed

section \<open>Aliases\<close>

text \<open>The version an alias resolves to.\<close>

definition resolve :: "db \<Rightarrow> string \<Rightarrow> string \<Rightarrow> string \<Rightarrow> err + int" where
  "resolve s ws nm al =
     (case model_alias.get (model_aliases s) (default_ws ws, nm) al of
        Some i \<Rightarrow> if (default_ws ws, nm, i) \<in> keys v_pk (model_versions s) then Inr i else Inl ErrNotFound
      | None \<Rightarrow> Inl ErrNotFound)"

lemma GetModelVersion_version:
  "map_sum id mv_Version (fst (GetModelVersion ws nm ver s)) =
    (if (default_ws ws, nm, ver) \<in> keys v_pk (model_versions s) then Inr ver else Inl ErrNotFound)"
proof (cases "first_row (\<lambda>v. v_pk v = (default_ws ws, nm, ver)) (model_versions s)")
  case None
  with first_row_keys [of v_pk "(default_ws ws, nm, ver)" "model_versions s"] show ?thesis
    unfolding GetModelVersion_eq by simp
next
  case (Some v)
  then have "(default_ws ws, nm, ver) \<in> keys v_pk (model_versions s)" "v_version v = ver"
    using first_row_keys [of v_pk "(default_ws ws, nm, ver)" "model_versions s"] by (auto dest: first_row_Some)
  with Some show ?thesis unfolding GetModelVersion_eq by (simp add: version_view_def scanModelVersionRow_def)
qed

lemma GetModelByAlias_resolve: "map_sum id mv_Version (fst (GetModelByAlias ws nm al s)) = resolve s ws nm al"
proof (cases "model_alias.look ((default_ws ws, nm), al) (model_aliases s)")
  case None
  then show ?thesis
    by (simp add: GetModelByAlias_def sem_simps resolve_def model_alias.get_def model_alias.look_def)
next
  case (Some a)
  then show ?thesis
    by (simp add: GetModelByAlias_def sem_simps resolve_def model_alias.get_def model_alias.look_def GetModelVersion_version)
qed

lemma GetModelByAlias_missing: "resolve s ws nm al = Inl e \<Longrightarrow> fst (GetModelByAlias ws nm al s) = Inl e"
  using GetModelByAlias_resolve [of ws nm al s] by (cases "fst (GetModelByAlias ws nm al s)") auto

lemma upserted_alias:
  "b \<in> set (upsert al_pk al_upd a as) \<Longrightarrow> al_pk b = al_pk a \<Longrightarrow> al_version b = al_version a"
  unfolding upsert_def al_upd_def by (auto split: if_splits simp: list_ex_iff)

lemma deleted_version_tables:
  "model_aliases (snd (DeleteModelVersion ws nm ver s)) =
    delete_where (\<lambda>a. has_key v_pk (al_ref a) (filter (\<lambda>v. v_pk v = (default_ws ws, nm, ver)) (model_versions s))) (model_aliases s)"
  "model_versions (snd (DeleteModelVersion ws nm ver s)) =
    delete_where (\<lambda>v. v_pk v = (default_ws ws, nm, ver)) (model_versions s)"
  by (simp_all add: DeleteModelVersion_def snd_bnd_require delete_model_versions_def stmt_apply Let_def)

text \<open>
  C10. An alias set on a version resolves to that version, every other alias of every model resolves as
  before, and the alias stops resolving when it is deleted or when its version is deleted.
\<close>

theorem SetModelAlias_resolves:
  assumes "db_ok s" and "GetModelVersion ws nm ver s = (Inr v, s)"
  shows "\<exists>t. SetModelAlias ws nm al ver s = (Inr (), t) \<and>
    map_sum id mv_Version (fst (GetModelByAlias ws nm al t)) = Inr ver \<and>
    (\<forall>ws' nm' al'. ((default_ws ws', nm'), al') \<noteq> ((default_ws ws, nm), al) \<longrightarrow>
      map_sum id mv_Version (fst (GetModelByAlias ws' nm' al' t)) = map_sum id mv_Version (fst (GetModelByAlias ws' nm' al' s))) \<and>
    fst (GetModelByAlias ws nm al (snd (DeleteModelAlias ws nm al t))) = Inl ErrNotFound \<and>
    fst (GetModelByAlias ws nm al (snd (DeleteModelVersion ws nm ver t))) = Inl ErrNotFound"
proof -
  let ?w = "default_ws ws"
  let ?a = "\<lparr>al_workspace_id = ?w, al_name = nm, al_alias = al, al_version = ver\<rparr>"
  let ?as = "upsert al_pk al_upd ?a (model_aliases s)"
  let ?t = "s\<lparr>model_aliases := ?as\<rparr>"
  obtain r where r: "first_row (\<lambda>v. v_pk v = (?w, nm, ver)) (model_versions s) = Some r"
    using assms(2) by (rule GetModelVersion_okE)
  then have "r \<in> set (model_versions s)" "v_pk r = (?w, nm, ver)" by (auto dest: first_row_Some)
  then have found: "(?w, nm, ver) \<in> keys v_pk (model_versions s)" by (force simp: keys_def)
  have set: "SetModelAlias ws nm al ver s = (Inr (), ?t)"
    using assms(2) found by (simp add: SetModelAlias_def sem_simps upsert_model_aliases_def has_key_iff)
  have get: "model_alias.get ?as x k = (if x = (?w, nm) \<and> k = al then Some ver else model_alias.get (model_aliases s) x k)" for x k
    using model_alias.get_upsert [of ?a "model_aliases s" x k] by simp
  note mine = upserted_alias [of _ ?a "model_aliases s", simplified]
  have "model_alias.look ((?w, nm), al) (delete_where (\<lambda>a. al_pk a = ((?w, nm), al)) ?as) = None"
    by (subst model_alias.look_delete) simp
  then have gone1: "resolve (snd (DeleteModelAlias ws nm al ?t)) ws nm al = Inl ErrNotFound"
    by (simp add: resolve_def DeleteModelAlias_def delete_model_aliases_def sem_simps model_alias.get_def)
  have "(?w, nm, ver) \<notin> keys v_pk (delete_where (\<lambda>v. v_pk v = (?w, nm, ver)) (model_versions s))" by (auto simp: keys_def)
  moreover have "i = ver" if "model_alias.get (delete_where q ?as) (?w, nm) al = Some i" for q i
    using that mine by (auto simp only: model_alias.get_def model_alias.look_def set_delete_where map_option_eq_Some dest!: first_row_Some)
  ultimately have "(case model_alias.get (delete_where q ?as) (?w, nm) al of None \<Rightarrow> Inl ErrNotFound
      | Some i \<Rightarrow> if (?w, nm, i) \<in> keys v_pk (delete_where (\<lambda>v. v_pk v = (?w, nm, ver)) (model_versions s)) then Inr i
          else Inl ErrNotFound) = Inl ErrNotFound" for q
    by (cases "model_alias.get (delete_where q ?as) (?w, nm) al") auto
  then have gone2: "resolve (snd (DeleteModelVersion ws nm ver ?t)) ws nm al = Inl ErrNotFound"
    unfolding resolve_def deleted_version_tables by (simp cong: option.case_cong)
  have "resolve ?t ws nm al = Inr ver" using found get by (simp add: resolve_def)
  moreover have "resolve ?t ws' nm' al' = resolve s ws' nm' al'" if "((default_ws ws', nm'), al') \<noteq> ((?w, nm), al)" for ws' nm' al'
  proof -
    from that get have "model_alias.get ?as (default_ws ws', nm') al' = model_alias.get (model_aliases s) (default_ws ws', nm') al'" by auto
    then show ?thesis by (simp add: resolve_def cong: option.case_cong)
  qed
  ultimately show ?thesis
    unfolding set GetModelByAlias_resolve using GetModelByAlias_missing [OF gone1] GetModelByAlias_missing [OF gone2] by blast
qed

theorem SetModelAlias_resolves_witness:
  "\<exists>t. SetModelAlias [] ''churn'' ''champion'' 2 sample_registry = (Inr (), t) \<and>
    map_sum id mv_Version (fst (GetModelByAlias [] ''churn'' ''champion'' sample_registry)) = Inr 1 \<and>
    map_sum id mv_Version (fst (GetModelByAlias [] ''churn'' ''champion'' t)) = Inr 2 \<and>
    fst (GetModelByAlias [] ''churn'' ''champion'' (snd (DeleteModelVersion [] ''churn'' 2 t))) = Inl ErrNotFound"
proof -
  have 2: "GetModelVersion [] ''churn'' 2 sample_registry =
      (Inr (version_view sample_registry (sample_version 2 ''Staging'')), sample_registry)"
    by (simp add: GetModelVersion_eq first_row_Cons default_ws_def sample_version_def)
  have "map_sum id mv_Version (fst (GetModelByAlias [] ''churn'' ''champion'' sample_registry)) = Inr 1"
    unfolding GetModelByAlias_resolve
    by (simp add: resolve_def default_ws_def model_alias.get_def sample_version_def)
  then show ?thesis using SetModelAlias_resolves [OF db_ok_sample_registry 2, of "''champion''"] by auto
qed

section \<open>Latest versions\<close>

text \<open>The rows of the query, before the order and the tags.\<close>

definition is_latest :: "db \<Rightarrow> version_row \<Rightarrow> bool" where
  "is_latest s v \<longleftrightarrow> v_version v = max_or_0 (map v_version
     (filter (\<lambda>w. v_ref w = v_ref v \<and> v_current_stage w = v_current_stage v) (model_versions s)))"

definition latest_rows :: "db \<Rightarrow> string \<times> string \<Rightarrow> string list \<Rightarrow> version_row list" where
  "latest_rows s k stages =
     filter (\<lambda>v. v_ref v = k \<and> (stages \<noteq> [] \<longrightarrow> v_current_stage v \<in> set stages) \<and> is_latest s v) (model_versions s)"

lemma is_latest_Max:
  assumes "v \<in> set (versions_of s k)"
  shows "is_latest s v \<longleftrightarrow> v_version v = Max (v_version ` {w \<in> set (versions_of s k). v_current_stage w = v_current_stage v})"
proof -
  let ?l = "filter (\<lambda>w. v_ref w = v_ref v \<and> v_current_stage w = v_current_stage v) (model_versions s)"
  from assms have k: "v_ref v = k" and v: "v \<in> set (model_versions s)" unfolding versions_of_def set_filter by blast+
  have ne: "v \<in> set l \<Longrightarrow> map v_version l \<noteq> []" for l by auto
  have "v \<in> set ?l" using v by simp
  note 1 = max_or_0_Max [OF ne [OF this]]
  have 2: "set ?l = {w \<in> set (versions_of s k). v_current_stage w = v_current_stage v}"
    unfolding k versions_of_def set_filter by simp
  show ?thesis unfolding is_latest_def 1 set_map 2 by (rule refl)
qed

lemma latest_rows_stages:
  assumes "pk v_pk (model_versions s)"
  shows "distinct (map v_current_stage (latest_rows s k stages))" and "distinct (map v_pk (latest_rows s k stages))"
proof -
  have d: "distinct (map v_pk (model_versions s))" using assms by (simp add: pk_def)
  then show "distinct (map v_pk (latest_rows s k stages))" unfolding latest_rows_def by (rule distinct_map_filter)
  have "v = w" if "v \<in> set (latest_rows s k stages)" "w \<in> set (latest_rows s k stages)" "v_current_stage v = v_current_stage w" for v w
  proof -
    from that have "v_ref v = v_ref w" "is_latest s v" "is_latest s w" "v \<in> set (model_versions s)" "w \<in> set (model_versions s)"
      by (auto simp: latest_rows_def)
    moreover from this that(3) have "v_version v = v_version w" unfolding is_latest_def by (simp only:)
    ultimately show ?thesis using d by (auto simp: distinct_map dest: inj_onD)
  qed
  moreover have "distinct (latest_rows s k stages)" using d by (auto simp: latest_rows_def distinct_map)
  ultimately show "distinct (map v_current_stage (latest_rows s k stages))" by (auto simp: distinct_map inj_on_def)
qed

lemma latest_rows_set:
  "(\<lambda>v. (v_current_stage v, v_version v)) ` set (latest_rows s k stages) =
    {(st, Max (v_version ` {v \<in> set (versions_of s k). v_current_stage v = st})) | st.
      st \<in> v_current_stage ` set (versions_of s k) \<and> (stages = [] \<or> st \<in> set stages)}" (is "?f ` ?L = ?R")
proof
  show "?f ` ?L \<subseteq> ?R"
  proof
    fix x assume "x \<in> ?f ` ?L"
    then obtain v where v: "v \<in> set (versions_of s k)" "is_latest s v" "stages \<noteq> [] \<longrightarrow> v_current_stage v \<in> set stages"
      and x: "x = ?f v" by (auto simp: latest_rows_def versions_of_def)
    from v(1,2) have "v_version v = Max (v_version ` {w \<in> set (versions_of s k). v_current_stage w = v_current_stage v})"
      by (simp only: is_latest_Max)
    with v x show "x \<in> ?R" by auto
  qed
  show "?R \<subseteq> ?f ` ?L"
  proof
    fix x assume "x \<in> ?R"
    then obtain st where st: "st \<in> v_current_stage ` set (versions_of s k)" "stages = [] \<or> st \<in> set stages"
      and x: "x = (st, Max (v_version ` {v \<in> set (versions_of s k). v_current_stage v = st}))" by auto
    have "Max (v_version ` {v \<in> set (versions_of s k). v_current_stage v = st}) \<in> v_version ` {v \<in> set (versions_of s k). v_current_stage v = st}"
      using st(1) by (intro Max_in) auto
    then obtain v where v: "v \<in> set (versions_of s k)" "v_current_stage v = st"
      "v_version v = Max (v_version ` {v \<in> set (versions_of s k). v_current_stage v = st})" by auto
    then have "v \<in> ?L" using st(2) is_latest_Max [OF v(1)] by (auto simp: latest_rows_def versions_of_def)
    with v x show "x \<in> ?f ` ?L" by (auto intro: rev_image_eqI)
  qed
qed

text \<open>
  \<open>GetLatestModelVersions\<close> returns, in order of stage, for each stage that some version of the model
  has (and that is asked for, when stages are given) the version with the highest number in it, and
  nothing else.
\<close>

theorem GetLatestModelVersions_highest:
  assumes "db_ok s" and "GetLatestModelVersions ws nm stages s = (Inr mvs, t)"
  defines "vs \<equiv> versions_of s (default_ws ws, nm)"
  shows "t = s \<and> sorted_wrt (<) (map mv_CurrentStage mvs) \<and>
    set (map (\<lambda>m. (mv_CurrentStage m, mv_Version m)) mvs) =
      {(st, Max (v_version ` {v \<in> set vs. v_current_stage v = st})) | st. st \<in> v_current_stage ` set vs \<and> (stages = [] \<or> st \<in> set stages)}"
proof -
  let ?k = "(default_ws ws, nm)"
  let ?rows = "sort_key v_current_stage (latest_rows s ?k stages)"
  have pkv: "pk v_pk (model_versions s)" using db_okD(16) [OF assms(1)] by (simp add: versions_ok_def)
  have "distinct (map v_pk ?rows)"
    using latest_rows_stages(2) [OF pkv, of ?k stages] by (auto simp: distinct_map)
  then have d: "distinct (map (\<lambda>mv. (mv_Name mv, mv_Version mv)) (map scanModelVersionRow ?rows))"
    by (auto simp: distinct_map inj_on_def latest_rows_def scanModelVersionRow_def)
  from assms(2) have "mvs = loadModelVersionMeta (default_ws ws) s (map scanModelVersionRow ?rows)" and t: "t = s"
    by (auto simp: GetLatestModelVersions_def Let_def sem_simps GetRegisteredModel_eq latest_rows_def is_latest_def
        conj_assoc split: option.splits)
  then have m: "map (\<lambda>m. (mv_CurrentStage m, mv_Version m)) mvs = map (\<lambda>v. (v_current_stage v, v_version v)) ?rows"
    unfolding load_versions [OF d] by (simp add: scanModelVersionRow_def comp_def)
  then have "map mv_CurrentStage mvs = map v_current_stage ?rows" by (auto dest: arg_cong [where f = "map fst"] simp: comp_def)
  moreover have "sorted_wrt (<) (map v_current_stage ?rows)"
    using latest_rows_stages(1) [OF pkv, of ?k stages] by (auto simp: strict_sorted_iff distinct_map)
  ultimately show ?thesis
    using latest_rows_set [of s ?k stages] t unfolding m vs_def by simp
qed

theorem GetLatestModelVersions_highest_witness:
  "\<exists>mvs. GetLatestModelVersions [] ''churn'' [''Staging''] sample_registry = (Inr mvs, sample_registry) \<and>
    set (map (\<lambda>m. (mv_CurrentStage m, mv_Version m)) mvs) = {(''Staging'', 2)}"
proof -
  obtain mvs where run: "GetLatestModelVersions [] ''churn'' [''Staging''] sample_registry = (Inr mvs, sample_registry)"
    by (simp add: GetLatestModelVersions_def Let_def sem_simps GetRegisteredModel_eq first_row_Cons default_ws_def)
  have vs: "{v \<in> set (versions_of sample_registry (default_ws [], ''churn'')). v_current_stage v = ''Staging''} = {sample_version 2 ''Staging''}"
    "v_current_stage ` set (versions_of sample_registry (default_ws [], ''churn'')) = {''Production'', ''Staging''}"
    by (auto simp: versions_of_def default_ws_def sample_version_def)
  have "set (map (\<lambda>m. (mv_CurrentStage m, mv_Version m)) mvs) = {(''Staging'', 2)}"
    using GetLatestModelVersions_highest [OF db_ok_sample_registry run] vs(1) unfolding vs(2)
    by (auto simp: sample_version_def)
  with run show ?thesis by blast
qed

end
