(* ===== verification/Workspaces.thy ===== *)
theory Workspaces
  imports Schema
begin

text \<open>
  Workspaces and their members (\<open>internal/store/workspaces.go\<close>). A workspace that still owns
  experiments, models, prompts, datasets, webhooks or peers cannot be deleted: the emptiness check is
  part of the deleting statement, so the cascades of the schema never reach those tables.
\<close>

section \<open>Statements\<close>

definition insert_workspaces :: "workspace_row \<Rightarrow> unit op" where
  "insert_workspaces w = stmt
     (\<lambda>s. if has_key w_id (w_id w) (workspaces s) then Some ErrUnique else None)
     (\<lambda>s. ((), s\<lparr>workspaces := workspaces s @ [w]\<rparr>))"

definition update_workspaces :: "string \<Rightarrow> string option \<Rightarrow> string option option \<Rightarrow> int \<Rightarrow> nat op" where
  "update_workspaces i nm d n = stmt (\<lambda>s. None)
     (\<lambda>s. (count_where (\<lambda>w. w_id w = i) (workspaces s),
       s\<lparr>workspaces := update_where (\<lambda>w. w_id w = i)
         (\<lambda>w. w\<lparr>w_name := (case nm of None \<Rightarrow> w_name w | Some x \<Rightarrow> x),
                w_description := (case d of None \<Rightarrow> w_description w | Some x \<Rightarrow> x),
                w_last_update_time := n\<rparr>) (workspaces s)\<rparr>))"

text \<open>The tables whose rows belong to a workspace, in the order of the code, with their number of rows.\<close>

definition workspaceOwnedTables :: "string \<Rightarrow> db \<Rightarrow> (string \<times> nat) list" where
  "workspaceOwnedTables i s =
     [(''experiments'', count_where (\<lambda>e. e_workspace_id e = i) (experiments s)),
      (''registered_models'', count_where (\<lambda>m. rg_workspace_id m = i) (registered_models s)),
      (''prompts'', count_where (\<lambda>p. pt_workspace_id p = i) (prompts s)),
      (''datasets_v2'', count_where (\<lambda>d. d_workspace_id d = i) (datasets_v2 s)),
      (''webhooks'', count_where (\<lambda>w. wh_workspace_id w = i) (webhooks s)),
      (''peers'', count_where (\<lambda>p. pe_workspace_id p = i) (peers s))]"

text \<open>
  \<open>DELETE FROM workspaces WHERE id = ? AND NOT EXISTS (...)\<close> with the cascades that start at the
  workspace: members, experiments, registered models and prompts.
\<close>

definition delete_workspaces :: "string \<Rightarrow> nat op" where
  "delete_workspaces i = stmt (\<lambda>s. None)
     (\<lambda>s. if list_all (\<lambda>(_, n). n = 0) (workspaceOwnedTables i s)
       then (count_where (\<lambda>w. w_id w = i) (workspaces s), s\<lparr>
         workspaces := delete_where (\<lambda>w. w_id w = i) (workspaces s),
         workspace_members := delete_where (\<lambda>m. wm_workspace_id m = i) (workspace_members s),
         experiments := delete_where (\<lambda>e. e_workspace_id e = i) (experiments s),
         registered_models := delete_where (\<lambda>m. rg_workspace_id m = i) (registered_models s),
         prompts := delete_where (\<lambda>p. pt_workspace_id p = i) (prompts s)\<rparr>)
       else (0, s))"

definition delete_dashboards :: "string \<Rightarrow> unit op" where
  "delete_dashboards i = stmt (\<lambda>s. None)
     (\<lambda>s. ((), s\<lparr>dashboards := delete_where (\<lambda>d. da_workspace_id d = i) (dashboards s)\<rparr>))"

definition wm_upd :: "member_row \<Rightarrow> member_row \<Rightarrow> member_row" where
  "wm_upd old new = old\<lparr>wm_role := wm_role new\<rparr>"

definition upsert_workspace_members :: "member_row \<Rightarrow> unit op" where
  "upsert_workspace_members m = stmt
     (\<lambda>s. if wm_role m \<notin> {''viewer'', ''editor'', ''admin''} then Some ErrCheck
       else if has_key w_id (wm_workspace_id m) (workspaces s) then None else Some ErrForeignKey)
     (\<lambda>s. ((), s\<lparr>workspace_members := upsert wm_key wm_upd m (workspace_members s)\<rparr>))"

definition delete_workspace_members :: "string \<Rightarrow> string \<Rightarrow> nat op" where
  "delete_workspace_members i u = stmt (\<lambda>s. None)
     (\<lambda>s. (count_where (\<lambda>m. wm_workspace_id m = i \<and> wm_user_id m = u) (workspace_members s),
       s\<lparr>workspace_members := delete_where (\<lambda>m. wm_workspace_id m = i \<and> wm_user_id m = u) (workspace_members s)\<rparr>))"

interpretation member: kv_table wm_workspace_id wm_user_id wm_role wm_upd
  by unfold_locales (simp_all add: wm_upd_def)

section \<open>Methods\<close>

datatype workspace_id_error = WorkspaceIdEmpty | WorkspaceIdTooLong | WorkspaceIdChar

definition validateWorkspaceID :: "string \<Rightarrow> workspace_id_error option" where
  "validateWorkspaceID i =
     (if i = [] then Some WorkspaceIdEmpty
      else if 64 < length i then Some WorkspaceIdTooLong
      else if list_all (\<lambda>r. (0x61 \<le> r \<and> r \<le> 0x7A) \<or> (0x30 \<le> r \<and> r \<le> 0x39) \<or> r = 0x2D) (runes i) then None
      else Some WorkspaceIdChar)"

definition CreateWorkspace :: "Workspace \<Rightarrow> unit op" where
  "CreateWorkspace w =
     bnd (require (validateWorkspaceID (ws_ID w) = None) ErrInvalidValue) (\<lambda>_.
     bnd (require (ws_Name w \<noteq> []) ErrInvalidValue) (\<lambda>_.
     bnd now (\<lambda>n.
     map_err (\<lambda>e. if isUniqueViolation e then ErrAlreadyExists else e)
       (insert_workspaces \<lparr>
          w_id = ws_ID w, w_name = ws_Name w, w_description = nilIfEmpty (ws_Description w),
          w_creation_time = (if ws_CreationTime w = 0 then n else ws_CreationTime w),
          w_last_update_time = (if ws_LastUpdateTime w = 0 then n else ws_LastUpdateTime w)\<rparr>))))"

definition workspace_of_row :: "workspace_row \<Rightarrow> Workspace" where
  "workspace_of_row w = \<lparr>
     ws_ID = w_id w, ws_Name = w_name w, ws_Description = coalesce (w_description w),
     ws_CreationTime = w_creation_time w, ws_LastUpdateTime = w_last_update_time w\<rparr>"

definition scanWorkspace :: "workspace_row option \<Rightarrow> Workspace op" where
  "scanWorkspace row = (case row of None \<Rightarrow> throw ErrNotFound | Some w \<Rightarrow> ret (workspace_of_row w))"

definition GetWorkspace :: "string \<Rightarrow> Workspace op" where
  "GetWorkspace i = bnd (gets (\<lambda>s. first_row (\<lambda>w. w_id w = i) (workspaces s))) scanWorkspace"

text \<open>Rows with the same creation time come in the order of the table.\<close>

definition ListWorkspaces :: "db \<Rightarrow> Workspace list" where
  "ListWorkspaces s = map workspace_of_row (sort_key w_creation_time (workspaces s))"

definition UpdateWorkspace :: "string \<Rightarrow> string option \<Rightarrow> string option \<Rightarrow> unit op" where
  "UpdateWorkspace i nm description =
     bnd (require (nm \<noteq> Some []) ErrInvalidValue) (\<lambda>_.
     if nm = None \<and> description = None then ret ()
     else bnd now (\<lambda>n.
       bnd (update_workspaces i nm (map_option nilIfEmpty description) n) (\<lambda>cnt.
       require (cnt \<noteq> 0) ErrNotFound)))"

definition DeleteWorkspace :: "string \<Rightarrow> unit op" where
  "DeleteWorkspace i =
     bnd (require (i \<noteq> ''default'') ErrConflict) (\<lambda>_.
     tx (
       bnd (delete_workspaces i) (\<lambda>n.
       bnd (if n = 0
            then bnd (gets (\<lambda>s. has_key w_id i (workspaces s))) (\<lambda>found.
                 bnd (require found ErrNotFound) (\<lambda>_.
                 bnd (gets (workspaceOwnedTables i)) (\<lambda>counts.
                 bnd (for_each (\<lambda>(tbl, count). require (count = 0) ErrConflict) counts) (\<lambda>_.
                 throw ErrConflict))))
            else ret ()) (\<lambda>_.
       delete_dashboards i))))"

definition AddMember :: "string \<Rightarrow> string \<Rightarrow> string \<Rightarrow> unit op" where
  "AddMember i user role =
     bnd (require (role = ''viewer'' \<or> role = ''editor'' \<or> role = ''admin'') ErrInvalidValue) (\<lambda>_.
     bnd (GetWorkspace i) (\<lambda>_.
     upsert_workspace_members \<lparr>wm_workspace_id = i, wm_user_id = user, wm_role = role\<rparr>))"

definition RemoveMember :: "string \<Rightarrow> string \<Rightarrow> unit op" where
  "RemoveMember i user =
     bnd (delete_workspace_members i user) (\<lambda>n. require (n \<noteq> 0) ErrNotFound)"

definition ListMembers :: "string \<Rightarrow> db \<Rightarrow> WorkspaceMember list" where
  "ListMembers i s =
     map (\<lambda>m. \<lparr>mem_WorkspaceID = wm_workspace_id m, mem_UserID = wm_user_id m, mem_Role = wm_role m\<rparr>)
       (sort_key wm_user_id (filter (\<lambda>m. wm_workspace_id m = i) (workspace_members s)))"

definition GetMemberRole :: "string \<Rightarrow> string \<Rightarrow> string op" where
  "GetMemberRole i user =
     bnd (gets (\<lambda>s. first_row (\<lambda>m. wm_workspace_id m = i \<and> wm_user_id m = user) (workspace_members s))) (\<lambda>row.
     case row of None \<Rightarrow> throw ErrNotFound | Some m \<Rightarrow> ret (wm_role m))"

section \<open>Integrity\<close>

lemma keeps_insert_workspaces [keeps_intros]: "keeps db_ok (insert_workspaces w)"
  unfolding insert_workspaces_def
proof (rule keeps_stmt, goal_cases)
  case (1 s)
  let ?ws = "keys w_id (workspaces s @ [w])"
  have "keys w_id (workspaces s) \<subseteq> ?ws" by auto
  then have "members_ok ?ws (workspace_members s)" "experiments_ok ?ws (experiments_seq s) (experiments s)"
      "prompts_ok ?ws (prompts s) (prompt_aliases s)" "models_ok ?ws (registered_models s)"
    using db_okD(2,3,14,15) [OF 1(1)] by (auto intro: workspace_ok_monos)
  moreover have "pk w_id (workspaces s @ [w])"
    using db_okD(1) [OF 1(1)] 1(2) by (simp add: pk_insert has_key_iff split: if_splits)
  ultimately show ?case using 1(1) by (simp add: db_ok_def)
qed

lemma keeps_update_workspaces [keeps_intros]: "keeps db_ok (update_workspaces i nm d n)"
  unfolding update_workspaces_def by (rule keeps_stmt) (simp add: db_ok_def update_where_rules)

lemma owned_none:
  assumes "list_all (\<lambda>(_, n). n = 0) (workspaceOwnedTables i s)"
  shows "delete_where (\<lambda>e. e_workspace_id e = i) (experiments s) = experiments s"
    and "delete_where (\<lambda>m. rg_workspace_id m = i) (registered_models s) = registered_models s"
    and "delete_where (\<lambda>p. pt_workspace_id p = i) (prompts s) = prompts s"
    and "\<forall>e\<in>set (experiments s). e_workspace_id e \<noteq> i"
    and "\<forall>m\<in>set (registered_models s). rg_workspace_id m \<noteq> i"
    and "\<forall>p\<in>set (prompts s). pt_workspace_id p \<noteq> i"
  using assms by (auto simp: workspaceOwnedTables_def count_where_0 delete_where_def filter_id_conv)

lemma fk_delete_key: "fk f rs (keys k ps) \<Longrightarrow> \<forall>r\<in>set rs. f r \<noteq> i \<Longrightarrow> fk f rs (keys k (delete_where (\<lambda>p. k p = i) ps))"
  by (auto simp: fk_def keys_def)

lemma keeps_delete_workspaces [keeps_intros]: "keeps db_ok (delete_workspaces i)"
  unfolding delete_workspaces_def
proof (rule keeps_stmt, goal_cases)
  case (1 s)
  show ?case
  proof (cases "list_all (\<lambda>(_, n). n = 0) (workspaceOwnedTables i s)")
    case True
    let ?k = "keys w_id (delete_where (\<lambda>w. w_id w = i) (workspaces s))"
    note owned_none [OF True]
    then have "experiments_ok ?k (experiments_seq s) (experiments s)" "prompts_ok ?k (prompts s) (prompt_aliases s)"
        "models_ok ?k (registered_models s)"
      using db_okD(3,14,15) [OF 1(1)] by (auto simp: experiments_ok_def prompts_ok_def models_ok_def intro: fk_delete_key)
    moreover have "members_ok ?k (delete_where (\<lambda>m. wm_workspace_id m = i) (workspace_members s))"
      using db_okD(2) [OF 1(1)] by (simp add: members_ok_def pk_delete_where chk_delete_where fk_delete_key fk_delete_where)
    moreover have "pk w_id (delete_where (\<lambda>w. w_id w = i) (workspaces s))"
      using db_okD(1) [OF 1(1)] by (rule pk_delete_where)
    ultimately show ?thesis using 1(1) True owned_none(1-3) [OF True] by (simp add: db_ok_def)
  qed (use 1(1) in simp)
qed

lemma keeps_delete_dashboards [keeps_intros]: "keeps db_ok (delete_dashboards i)"
  unfolding delete_dashboards_def
  by (rule keeps_stmt) (simp add: db_ok_def dashboards_ok_def pk_delete_where below_delete_where)

lemma keeps_upsert_workspace_members [keeps_intros]: "keeps db_ok (upsert_workspace_members m)"
  unfolding upsert_workspace_members_def
  by (rule keeps_stmt) (auto simp: db_ok_def members_ok_def has_key_iff wm_upd_def
      intro!: pk_upsert fk_upsert chk_upsert split: if_splits)

lemma keeps_delete_workspace_members [keeps_intros]: "keeps db_ok (delete_workspace_members i u)"
  unfolding delete_workspace_members_def
  by (rule keeps_stmt) (simp add: db_ok_def members_ok_def pk_delete_where fk_delete_where chk_delete_where)

lemma keeps_GetWorkspace [keeps_intros]: "keeps P (GetWorkspace i)"
  unfolding GetWorkspace_def scanWorkspace_def by (intro keeps_intros)

lemma keeps_CreateWorkspace [keeps_intros]: "keeps db_ok (CreateWorkspace w)"
  unfolding CreateWorkspace_def by (intro keeps_intros)

lemma keeps_UpdateWorkspace [keeps_intros]: "keeps db_ok (UpdateWorkspace i nm d)"
  unfolding UpdateWorkspace_def by (intro keeps_intros)

lemma keeps_case_prod [keeps_intros]: "(\<And>a b. keeps P (f a b)) \<Longrightarrow> keeps P (case x of (a, b) \<Rightarrow> f a b)"
  by (cases x) simp

lemma keeps_DeleteWorkspace [keeps_intros]: "keeps db_ok (DeleteWorkspace i)"
  unfolding DeleteWorkspace_def by (intro keeps_intros)

lemma keeps_AddMember [keeps_intros]: "keeps db_ok (AddMember i u r)"
  unfolding AddMember_def by (intro keeps_intros)

lemma keeps_RemoveMember [keeps_intros]: "keeps db_ok (RemoveMember i u)"
  unfolding RemoveMember_def by (intro keeps_intros)

section \<open>Behaviour\<close>

text \<open>A workspace owns the rows of six tables.\<close>

definition owns :: "db \<Rightarrow> string \<Rightarrow> bool" where
  "owns s i \<longleftrightarrow>
     i \<in> keys e_workspace_id (experiments s) \<or> i \<in> keys rg_workspace_id (registered_models s) \<or>
     i \<in> keys pt_workspace_id (prompts s) \<or> i \<in> keys d_workspace_id (datasets_v2 s) \<or>
     i \<in> keys wh_workspace_id (webhooks s) \<or> i \<in> keys pe_workspace_id (peers s)"

lemma owned_count: "count_where (\<lambda>r. k r = i) rs = 0 \<longleftrightarrow> i \<notin> keys k rs"
  by (auto simp: count_where_0 keys_def)

lemma owns_iff: "list_all (\<lambda>(_, n). n = 0) (workspaceOwnedTables i s) \<longleftrightarrow> \<not> owns s i"
  by (simp add: workspaceOwnedTables_def owned_count owns_def)

lemma conflict_loop: "\<not> list_all (\<lambda>(_, n). n = 0) counts \<Longrightarrow>
  for_each (\<lambda>(tbl, count). require (count = 0) ErrConflict) counts s = (Inl ErrConflict, s)"
  by (induction counts) (auto simp: sem_simps)

text \<open>
  C12. Deleting a workspace: the workspace "default" and a workspace that owns anything are refused
  with a conflict, an unknown one is not found, and nothing changes. Otherwise the workspace goes with
  its members and dashboards, and no other row changes.
\<close>

theorem DeleteWorkspace_outcome:
  "DeleteWorkspace i s =
    (if i = ''default'' then (Inl ErrConflict, s)
     else if i \<notin> keys w_id (workspaces s) then (Inl ErrNotFound, s)
     else if owns s i then (Inl ErrConflict, s)
     else (Inr (), s\<lparr>
       workspaces := filter (\<lambda>w. w_id w \<noteq> i) (workspaces s),
       workspace_members := filter (\<lambda>m. wm_workspace_id m \<noteq> i) (workspace_members s),
       dashboards := filter (\<lambda>d. da_workspace_id d \<noteq> i) (dashboards s)\<rparr>))"
proof (cases "i = ''default'' \<or> owns s i")
  case True
  then show ?thesis
    by (auto simp: DeleteWorkspace_def sem_simps delete_workspaces_def owns_iff has_key_iff conflict_loop)
next
  case False
  then have no: "list_all (\<lambda>(_, n). n = 0) (workspaceOwnedTables i s)" by (simp add: owns_iff)
  have id: "i \<notin> keys w_id (workspaces s) \<Longrightarrow> i \<notin> keys w_id (delete_where (\<lambda>w. w_id w = i) (workspaces s))"
    by (auto simp: keys_def)
  show ?thesis
    using False id
    by (simp add: DeleteWorkspace_def sem_simps delete_workspaces_def no owned_none(1-3) [OF no, unfolded delete_where_def] owned_count has_key_iff
        delete_dashboards_def delete_where_def)
qed

text \<open>
  A member added to an existing workspace with a known role has that role, and every other
  membership is as before; after the removal the user is no member, with the same frame.
\<close>

theorem AddMember_GetMemberRole:
  assumes "i \<in> keys w_id (workspaces s)" and "role \<in> {''viewer'', ''editor'', ''admin''}"
  shows "\<exists>t u. AddMember i user role s = (Inr (), t) \<and> RemoveMember i user t = (Inr (), u) \<and>
    (\<forall>j v. fst (GetMemberRole j v t) = (if (j, v) = (i, user) then Inr role else fst (GetMemberRole j v s))) \<and>
    (\<forall>j v. fst (GetMemberRole j v u) = (if (j, v) = (i, user) then Inl ErrNotFound else fst (GetMemberRole j v s)))"
proof -
  let ?m = "\<lparr>wm_workspace_id = i, wm_user_id = user, wm_role = role\<rparr>"
  let ?ms = "upsert wm_key wm_upd ?m (workspace_members s)"
  let ?t = "s\<lparr>workspace_members := ?ms\<rparr>"
  let ?us = "delete_where (\<lambda>m. wm_workspace_id m = i \<and> wm_user_id m = user) ?ms"
  have role: "fst (GetMemberRole j v x) = (case member.get (workspace_members x) j v of None \<Rightarrow> Inl ErrNotFound | Some r \<Rightarrow> Inr r)" for j v x
    by (simp add: GetMemberRole_def sem_simps member.get_def member.look_def split: option.split)
  have found: "\<exists>w. first_row (\<lambda>w. w_id w = i) (workspaces s) = Some w"
    using assms(1) first_row_keys [of w_id i "workspaces s"] by auto
  then have add: "AddMember i user role s = (Inr (), ?t)"
    using assms by (auto simp: AddMember_def GetWorkspace_def scanWorkspace_def sem_simps upsert_workspace_members_def has_key_iff)
  have "member.get ?ms i user = Some role" by (simp add: member.get_upsert)
  then have "\<exists>m\<in>set ?ms. wm_workspace_id m = i \<and> wm_user_id m = user"
    by (auto simp: member.get_def member.look_def dest: first_row_Some)
  then have "count_where (\<lambda>m. wm_workspace_id m = i \<and> wm_user_id m = user) ?ms \<noteq> 0" by (simp add: count_where_0)
  then have "RemoveMember i user ?t = (Inr (), ?t\<lparr>workspace_members := ?us\<rparr>)"
    by (simp add: RemoveMember_def delete_workspace_members_def sem_simps)
  with add show ?thesis
    unfolding role by (auto simp: member.get_upsert member.get_delete)
qed

theorem AddMember_GetMemberRole_witness:
  "\<exists>t u. AddMember ''default'' ''ann'' ''editor'' sample_db = (Inr (), t) \<and> RemoveMember ''default'' ''ann'' t = (Inr (), u) \<and>
    fst (GetMemberRole ''default'' ''ann'' t) = Inr ''editor'' \<and> fst (GetMemberRole ''default'' ''ann'' u) = Inl ErrNotFound"
  using AddMember_GetMemberRole [of "''default''" sample_db "''editor''" "''ann''"] by fastforce

end
