(* ===== verification/Sessions.thy ===== *)
theory Sessions
  imports Schema
begin

text \<open>
  Login sessions (\<open>internal/store/sessions.go\<close>). A session is readable until it expires; the garbage
  collector removes expired sessions, which no later read can notice.
\<close>

definition insert_sessions :: "session_row \<Rightarrow> unit op" where
  "insert_sessions r = stmt
     (\<lambda>s. if has_key se_id (se_id r) (sessions s) then Some ErrUnique else None)
     (\<lambda>s. ((), s\<lparr>sessions := sessions s @ [r]\<rparr>))"

definition update_last_seen :: "int \<Rightarrow> string \<Rightarrow> int \<Rightarrow> nat op" where
  "update_last_seen t i n = stmt (\<lambda>s. None)
     (\<lambda>s. (count_where (\<lambda>r. se_id r = i \<and> n < se_expires_at r) (sessions s),
       s\<lparr>sessions := update_where (\<lambda>r. se_id r = i \<and> n < se_expires_at r) (\<lambda>r. r\<lparr>se_last_seen := t\<rparr>) (sessions s)\<rparr>))"

definition delete_sessions :: "(session_row \<Rightarrow> bool) \<Rightarrow> nat op" where
  "delete_sessions p = stmt (\<lambda>s. None)
     (\<lambda>s. (count_where p (sessions s), s\<lparr>sessions := delete_where p (sessions s)\<rparr>))"

definition CreateSession :: "Session \<Rightarrow> unit op" where
  "CreateSession x =
     bnd (require (ses_ID x \<noteq> []) (ErrOther ''session ID must not be empty'')) (\<lambda>_.
     bnd now (\<lambda>n.
     map_err (\<lambda>e. if isUniqueViolation e then ErrAlreadyExists else e)
       (insert_sessions \<lparr>
          se_id = ses_ID x, se_user_id = ses_UserID x, se_user_email = nilIfEmpty (ses_UserEmail x),
          se_user_name = nilIfEmpty (ses_UserName x), se_auth_method = ses_AuthMethod x,
          se_created_at = (if ses_CreatedAt x = 0 then n else ses_CreatedAt x),
          se_expires_at = ses_ExpiresAt x,
          se_last_seen = (if ses_LastSeen x = 0 then n else ses_LastSeen x)\<rparr>)))"

definition session_of_row :: "session_row \<Rightarrow> Session" where
  "session_of_row r = \<lparr>
     ses_ID = se_id r, ses_UserID = se_user_id r, ses_UserEmail = coalesce (se_user_email r),
     ses_UserName = coalesce (se_user_name r), ses_AuthMethod = se_auth_method r,
     ses_CreatedAt = se_created_at r, ses_ExpiresAt = se_expires_at r, ses_LastSeen = se_last_seen r\<rparr>"

definition GetSession :: "string \<Rightarrow> Session op" where
  "GetSession i =
     bnd (gets (\<lambda>s. first_row (\<lambda>r. se_id r = i) (sessions s))) (\<lambda>row.
     case row of None \<Rightarrow> throw ErrNotFound
     | Some r \<Rightarrow>
       bnd now (\<lambda>n.
       bnd (require (\<not> se_expires_at r < n) ErrNotFound) (\<lambda>_.
       ret (session_of_row r))))"

definition TouchSession :: "string \<Rightarrow> int \<Rightarrow> unit op" where
  "TouchSession i lastSeen =
     bnd now (\<lambda>n.
     bnd (update_last_seen lastSeen i n) (\<lambda>cnt.
     require (cnt \<noteq> 0) ErrNotFound))"

definition DeleteSession :: "string \<Rightarrow> unit op" where
  "DeleteSession i = bnd (delete_sessions (\<lambda>r. se_id r = i)) (\<lambda>n. require (n \<noteq> 0) ErrNotFound)"

definition GarbageCollectSessions :: "nat op" where
  "GarbageCollectSessions = bnd now (\<lambda>n. delete_sessions (\<lambda>r. se_expires_at r < n))"

lemma keeps_insert_sessions [keeps_intros]: "keeps db_ok (insert_sessions r)"
  unfolding insert_sessions_def by (rule keeps_stmt) (simp add: db_ok_def pk_insert has_key_iff split: if_splits)

lemma keeps_update_last_seen [keeps_intros]: "keeps db_ok (update_last_seen t i n)"
  unfolding update_last_seen_def by (rule keeps_stmt) (simp add: db_ok_def pk_update_where)

lemma keeps_delete_sessions [keeps_intros]: "keeps db_ok (delete_sessions p)"
  unfolding delete_sessions_def by (rule keeps_stmt) (simp add: db_ok_def pk_delete_where)

lemma keeps_CreateSession [keeps_intros]: "keeps db_ok (CreateSession x)"
  unfolding CreateSession_def by (intro keeps_intros)

lemma keeps_GetSession [keeps_intros]: "keeps db_ok (GetSession i)"
  unfolding GetSession_def by (intro keeps_intros)

lemma keeps_TouchSession [keeps_intros]: "keeps db_ok (TouchSession i t)"
  unfolding TouchSession_def by (intro keeps_intros)

lemma keeps_DeleteSession [keeps_intros]: "keeps db_ok (DeleteSession i)"
  unfolding DeleteSession_def by (intro keeps_intros)

lemma keeps_GarbageCollectSessions [keeps_intros]: "keeps db_ok GarbageCollectSessions"
  unfolding GarbageCollectSessions_def by (intro keeps_intros)

section \<open>Behaviour\<close>

text \<open>What a read at time \<open>n\<close> returns.\<close>

definition session_at :: "session_row list \<Rightarrow> string \<Rightarrow> int \<Rightarrow> err + Session" where
  "session_at rs i n =
     (case first_row (\<lambda>r. se_id r = i) rs of None \<Rightarrow> Inl ErrNotFound
      | Some r \<Rightarrow> if se_expires_at r < n then Inl ErrNotFound else Inr (session_of_row r))"

lemma GetSession_at: "fst (GetSession i s) = session_at (sessions s) i (clock s (clock_pos s))"
  by (simp add: GetSession_def session_at_def sem_simps split: option.split)

lemma session_at_gc:
  assumes "pk se_id rs" and "n \<le> m"
  shows "session_at (delete_where (\<lambda>r. se_expires_at r < n) rs) i m = session_at rs i m"
  using assms
proof (induction rs)
  case (Cons r rs)
  then have ih: "session_at (delete_where (\<lambda>r. se_expires_at r < n) rs) i m = session_at rs i m" by (simp add: pk_def)
  show ?case
  proof (cases "se_id r = i \<and> se_expires_at r < n")
    case True
    with Cons.prems have "first_row (\<lambda>r. se_id r = i) rs = None" by (auto simp: pk_def first_row_keys keys_def)
    with True ih Cons.prems(2) show ?thesis by (simp add: session_at_def delete_where_def first_row_Cons)
  qed (use ih in \<open>auto simp: session_at_def delete_where_def first_row_Cons\<close>)
qed (simp add: session_at_def delete_where_def)

text \<open>
  C13. The garbage collector is invisible: a session read at any later time (the clock did not go back) is
  what it would have been without the collection, whatever the id. It removes the expired sessions and
  returns their number.
\<close>

theorem GarbageCollectSessions_invisible:
  assumes "db_ok s" and "GarbageCollectSessions s = (Inr k, t)" and "clock s (clock_pos s) \<le> clock t (clock_pos t)"
  shows "fst (GetSession i t) = fst (GetSession i (s\<lparr>clock_pos := clock_pos t\<rparr>)) \<and>
    k + length (sessions t) = length (sessions s) \<and>
    (\<forall>r\<in>set (sessions t). clock s (clock_pos s) \<le> se_expires_at r)"
proof -
  let ?n = "clock s (clock_pos s)"
  have t: "t = s\<lparr>clock_pos := Suc (clock_pos s), sessions := delete_where (\<lambda>r. se_expires_at r < ?n) (sessions s)\<rparr>"
    and k: "k = count_where (\<lambda>r. se_expires_at r < ?n) (sessions s)"
    using assms(2) by (auto simp: GarbageCollectSessions_def delete_sessions_def sem_simps)
  have "k + length (sessions t) = length (sessions s)"
    using sum_length_filter_compl [of "\<lambda>r. se_expires_at r < ?n" "sessions s"] by (simp add: t k count_where_def delete_where_def)
  then show ?thesis
    using session_at_gc [OF db_okD(13) [OF assms(1)] assms(3), of i] by (auto simp: GetSession_at t)
qed

text \<open>
  A created session reads back, with the creation time filled in, as long as it has not expired; a read
  after the expiry does not find it. The other sessions are not affected.
\<close>

theorem CreateSession_GetSession:
  assumes "ses_ID x \<noteq> []" and "ses_ID x \<notin> keys se_id (sessions s)"
  shows "\<exists>t. CreateSession x s = (Inr (), t) \<and> (\<forall>n. session_at (sessions t) (ses_ID x) n =
      (if ses_ExpiresAt x < n then Inl ErrNotFound
       else Inr (x\<lparr>ses_CreatedAt := (if ses_CreatedAt x = 0 then clock s (clock_pos s) else ses_CreatedAt x),
                  ses_LastSeen := (if ses_LastSeen x = 0 then clock s (clock_pos s) else ses_LastSeen x)\<rparr>))) \<and>
    fst (GetSession (ses_ID x) t) = session_at (sessions t) (ses_ID x) (clock t (clock_pos t)) \<and>
    (\<forall>j n. j \<noteq> ses_ID x \<longrightarrow> session_at (sessions t) j n = session_at (sessions s) j n)"
proof -
  let ?n = "clock s (clock_pos s)"
  let ?r = "\<lparr>se_id = ses_ID x, se_user_id = ses_UserID x, se_user_email = nilIfEmpty (ses_UserEmail x),
          se_user_name = nilIfEmpty (ses_UserName x), se_auth_method = ses_AuthMethod x,
          se_created_at = (if ses_CreatedAt x = 0 then ?n else ses_CreatedAt x),
          se_expires_at = ses_ExpiresAt x,
          se_last_seen = (if ses_LastSeen x = 0 then ?n else ses_LastSeen x)\<rparr>"
  let ?t = "s\<lparr>clock_pos := Suc (clock_pos s), sessions := sessions s @ [?r]\<rparr>"
  have run: "CreateSession x s = (Inr (), ?t)"
    using assms by (simp add: CreateSession_def insert_sessions_def sem_simps has_key_iff)
  have "first_row (\<lambda>r. se_id r = ses_ID x) (sessions s) = None" using assms(2) by (simp add: first_row_keys)
  then have "session_at (sessions ?t) (ses_ID x) n = (if ses_ExpiresAt x < n then Inl ErrNotFound else Inr (session_of_row ?r))" for n
    by (simp add: session_at_def first_row_append first_row_Cons)
  moreover have "session_of_row ?r = x\<lparr>ses_CreatedAt := (if ses_CreatedAt x = 0 then ?n else ses_CreatedAt x),
                  ses_LastSeen := (if ses_LastSeen x = 0 then ?n else ses_LastSeen x)\<rparr>"
    by (simp add: session_of_row_def)
  moreover have "session_at (sessions ?t) j n = session_at (sessions s) j n" if "j \<noteq> ses_ID x" for j n
    using that by (simp add: session_at_def first_row_append first_row_Cons split: option.split)
  ultimately show ?thesis unfolding run GetSession_at by (intro exI [of _ ?t] conjI allI impI refl) simp_all
qed

definition sample_session :: "string \<Rightarrow> int \<Rightarrow> session_row" where
  "sample_session i expiry = \<lparr>se_id = i, se_user_id = ''ann'', se_user_email = None, se_user_name = None,
     se_auth_method = ''basic'', se_created_at = 100, se_expires_at = expiry, se_last_seen = 100\<rparr>"

theorem GarbageCollectSessions_invisible_witness:
  "\<exists>t. GarbageCollectSessions (sample_db\<lparr>sessions := [sample_session ''old'' 150, sample_session ''new'' 500]\<rparr>) = (Inr 1, t) \<and>
    fst (GetSession ''new'' t) = Inr (session_of_row (sample_session ''new'' 500)) \<and> sessions t = [sample_session ''new'' 500]"
proof -
  let ?s = "sample_db\<lparr>sessions := [sample_session ''old'' 150, sample_session ''new'' 500]\<rparr>"
  let ?t = "?s\<lparr>clock_pos := 6, sessions := [sample_session ''new'' 500]\<rparr>"
  have ok: "db_ok ?s" using db_ok_sample by (simp add: db_ok_def pk_def sample_session_def)
  have run: "GarbageCollectSessions ?s = (Inr 1, ?t)"
    by (simp add: GarbageCollectSessions_def delete_sessions_def sem_simps sample_session_def count_where_def delete_where_def)
  have "fst (GetSession ''new'' (?s\<lparr>clock_pos := 6\<rparr>)) = Inr (session_of_row (sample_session ''new'' 500))"
    by (simp add: GetSession_at session_at_def first_row_Cons sample_session_def)
  then have "fst (GetSession ''new'' ?t) = Inr (session_of_row (sample_session ''new'' 500))"
    using GarbageCollectSessions_invisible [OF ok run, of "''new''"] by simp
  with run show ?thesis by auto
qed

theorem CreateSession_GetSession_witness:
  "\<exists>t. CreateSession \<lparr>ses_ID = ''a1'', ses_UserID = ''ann'', ses_UserEmail = [], ses_UserName = [], ses_AuthMethod = ''basic'',
      ses_CreatedAt = 0, ses_ExpiresAt = 900, ses_LastSeen = 0\<rparr> sample_db = (Inr (), t) \<and>
    map_sum id ses_CreatedAt (session_at (sessions t) ''a1'' 900) = Inr 200 \<and> session_at (sessions t) ''a1'' 901 = Inl ErrNotFound"
  using CreateSession_GetSession [of "\<lparr>ses_ID = ''a1'', ses_UserID = ''ann'', ses_UserEmail = [], ses_UserName = [], ses_AuthMethod = ''basic'',
      ses_CreatedAt = 0, ses_ExpiresAt = 900, ses_LastSeen = 0\<rparr>" sample_db]
  by (auto simp: sample_db_def fresh_db_def)

end
