(* ===== verification/Peers.thy ===== *)
theory Peers
  imports Schema
begin

text \<open>
  Federation peers (\<open>internal/store/sqlite_peers.go\<close>), webhooks and dashboards
  (\<open>internal/store/sqlite_lineage.go\<close>): rows with an AUTOINCREMENT id that belong to a workspace.
\<close>

section \<open>Peers\<close>

record Peer =
  peer_ID :: int
  peer_Name :: string
  peer_URL :: string
  peer_Secret :: string
  peer_WorkspaceID :: string
  peer_AddedAt :: int
  peer_LastSeen :: "int option"
  peer_Status :: string
  peer_LastError :: string

definition peer_statuses :: "string set" where
  "peer_statuses = {''pending'', ''connected'', ''error''}"

definition insert_peers :: "(int \<Rightarrow> peer_row) \<Rightarrow> int op" where
  "insert_peers mk = stmt
     (\<lambda>s. let r = mk (peers_seq s + 1) in
       if pe_status r \<notin> peer_statuses then Some ErrCheck
       else if has_key pe_key (pe_key r) (peers s) then Some ErrUnique else None)
     (\<lambda>s. let i = peers_seq s + 1 in (i, s\<lparr>peers_seq := i, peers := peers s @ [(mk i)\<lparr>pe_id := i\<rparr>]\<rparr>))"

definition delete_peers :: "int \<Rightarrow> string \<Rightarrow> nat op" where
  "delete_peers i ws = stmt (\<lambda>s. None)
     (\<lambda>s. (count_where (\<lambda>p. pe_id p = i \<and> pe_workspace_id p = ws) (peers s),
       s\<lparr>peers := delete_where (\<lambda>p. pe_id p = i \<and> pe_workspace_id p = ws) (peers s)\<rparr>))"

definition update_peers :: "int \<Rightarrow> string \<Rightarrow> string option \<Rightarrow> int option \<Rightarrow> unit op" where
  "update_peers i st e seen = stmt
     (\<lambda>s. if st \<notin> peer_statuses \<and> i \<in> set (map pe_id (peers s)) then Some ErrCheck else None)
     (\<lambda>s. ((), s\<lparr>peers := update_where (\<lambda>p. pe_id p = i)
        (\<lambda>p. p\<lparr>pe_status := st, pe_last_error := e, pe_last_seen := seen\<rparr>) (peers s)\<rparr>))"

definition nilIfNonPositive :: "int \<Rightarrow> int option" where
  "nilIfNonPositive v = (if v \<le> 0 then None else Some v)"

definition CreatePeer :: "Peer \<Rightarrow> int op" where
  "CreatePeer p =
     bnd (require (peer_Name p \<noteq> []) (ErrOther ''peer name is required'')) (\<lambda>_.
     bnd (require (peer_URL p \<noteq> []) (ErrOther ''peer url is required'')) (\<lambda>_.
     bnd (require (peer_Secret p \<noteq> []) (ErrOther ''peer secret is required'')) (\<lambda>_.
     bnd (if peer_AddedAt p = 0 then now else ret (peer_AddedAt p)) (\<lambda>added.
     map_err (\<lambda>e. if isUniqueViolation e then ErrAlreadyExists else e)
       (insert_peers (\<lambda>i. \<lparr>
          pe_id = i, pe_name = peer_Name p, pe_url = peer_URL p, pe_secret = peer_Secret p,
          pe_workspace_id = default_ws (peer_WorkspaceID p), pe_added_at = added, pe_last_seen = None,
          pe_status = (if peer_Status p = [] then ''pending'' else peer_Status p),
          pe_last_error = nilIfEmpty (peer_LastError p)\<rparr>))))))"

definition scanPeer :: "peer_row \<Rightarrow> Peer" where
  "scanPeer r = \<lparr>
     peer_ID = pe_id r, peer_Name = pe_name r, peer_URL = pe_url r, peer_Secret = pe_secret r,
     peer_WorkspaceID = pe_workspace_id r, peer_AddedAt = pe_added_at r, peer_LastSeen = pe_last_seen r,
     peer_Status = pe_status r, peer_LastError = coalesce (pe_last_error r)\<rparr>"

definition scanPeers :: "peer_row list \<Rightarrow> Peer list" where
  "scanPeers rs = map scanPeer rs"

definition scanPeerRow :: "peer_row option \<Rightarrow> Peer op" where
  "scanPeerRow row = (case row of None \<Rightarrow> throw ErrNotFound | Some r \<Rightarrow> ret (scanPeer r))"

definition ListPeers :: "string \<Rightarrow> db \<Rightarrow> Peer list" where
  "ListPeers ws s = scanPeers (sort_key pe_added_at (filter (\<lambda>p. pe_workspace_id p = default_ws ws) (peers s)))"

definition GetPeer :: "string \<Rightarrow> int \<Rightarrow> Peer op" where
  "GetPeer ws i =
     bnd (gets (\<lambda>s. first_row (\<lambda>p. pe_id p = i \<and> pe_workspace_id p = default_ws ws) (peers s))) scanPeerRow"

definition GetPeerByName :: "string \<Rightarrow> string \<Rightarrow> Peer op" where
  "GetPeerByName ws nm =
     bnd (gets (\<lambda>s. first_row (\<lambda>p. pe_name p = nm \<and> pe_workspace_id p = default_ws ws) (peers s))) scanPeerRow"

definition DeletePeer :: "string \<Rightarrow> int \<Rightarrow> unit op" where
  "DeletePeer ws i = bnd (delete_peers i (default_ws ws)) (\<lambda>n. require (n \<noteq> 0) ErrNotFound)"

definition UpdatePeerStatus :: "int \<Rightarrow> string \<Rightarrow> string \<Rightarrow> int \<Rightarrow> unit op" where
  "UpdatePeerStatus i status lastError lastSeen =
     bnd (require (status = ''pending'' \<or> status = ''connected'' \<or> status = ''error'') (ErrOther ''invalid peer status'')) (\<lambda>_.
     update_peers i status (nilIfEmpty lastError) (nilIfNonPositive lastSeen))"

section \<open>Webhooks\<close>

record Webhook =
  hook_ID :: int
  hook_Name :: string
  hook_URL :: string
  hook_Events :: string
  hook_ExperimentID :: "int option"
  hook_WorkspaceID :: string
  hook_Secret :: string
  hook_CreatedAt :: int
  hook_LastStatus :: "int option"
  hook_LastAttempt :: "int option"
  hook_Enabled :: bool

definition insert_webhooks :: "(int \<Rightarrow> webhook_row) \<Rightarrow> int op" where
  "insert_webhooks mk = stmt (\<lambda>s. None)
     (\<lambda>s. let i = webhooks_seq s + 1 in (i, s\<lparr>webhooks_seq := i, webhooks := webhooks s @ [(mk i)\<lparr>wh_id := i\<rparr>]\<rparr>))"

definition update_webhooks :: "int \<Rightarrow> (webhook_row \<Rightarrow> webhook_row) \<Rightarrow> nat op" where
  "update_webhooks i f = stmt (\<lambda>s. None)
     (\<lambda>s. (count_where (\<lambda>w. wh_id w = i) (webhooks s),
       s\<lparr>webhooks := update_where (\<lambda>w. wh_id w = i) (\<lambda>w. (f w)\<lparr>wh_id := i\<rparr>) (webhooks s)\<rparr>))"

definition delete_webhooks :: "int \<Rightarrow> nat op" where
  "delete_webhooks i = stmt (\<lambda>s. None)
     (\<lambda>s. (count_where (\<lambda>w. wh_id w = i) (webhooks s), s\<lparr>webhooks := delete_where (\<lambda>w. wh_id w = i) (webhooks s)\<rparr>))"

definition CreateWebhook :: "Webhook \<Rightarrow> int op" where
  "CreateWebhook w =
     bnd (if hook_CreatedAt w = 0 then now else ret (hook_CreatedAt w)) (\<lambda>created.
     insert_webhooks (\<lambda>i. \<lparr>
       wh_id = i, wh_name = hook_Name w, wh_url = hook_URL w, wh_events = hook_Events w,
       wh_experiment_id = hook_ExperimentID w, wh_workspace_id = default_ws (hook_WorkspaceID w),
       wh_secret = nilIfEmpty (hook_Secret w), wh_created_at = created,
       wh_last_status = None, wh_last_attempt = None, wh_enabled = hook_Enabled w\<rparr>))"

definition webhook_of_row :: "webhook_row \<Rightarrow> Webhook" where
  "webhook_of_row r = \<lparr>
     hook_ID = wh_id r, hook_Name = wh_name r, hook_URL = wh_url r, hook_Events = wh_events r,
     hook_ExperimentID = wh_experiment_id r, hook_WorkspaceID = wh_workspace_id r,
     hook_Secret = coalesce (wh_secret r), hook_CreatedAt = wh_created_at r,
     hook_LastStatus = wh_last_status r, hook_LastAttempt = wh_last_attempt r, hook_Enabled = wh_enabled r\<rparr>"

definition scanWebhooks :: "webhook_row list \<Rightarrow> Webhook list" where
  "scanWebhooks rs = map webhook_of_row rs"

definition ListWebhooks :: "string \<Rightarrow> int option \<Rightarrow> db \<Rightarrow> Webhook list" where
  "ListWebhooks ws expID s =
     scanWebhooks (sort_key wh_id (filter (\<lambda>w. wh_workspace_id w = default_ws ws \<and>
       (case expID of None \<Rightarrow> True | Some e \<Rightarrow> wh_experiment_id w = None \<or> wh_experiment_id w = Some e)) (webhooks s)))"

definition GetWebhook :: "int \<Rightarrow> Webhook op" where
  "GetWebhook i =
     bnd (gets (\<lambda>s. scanWebhooks (filter (\<lambda>w. wh_id w = i) (webhooks s)))) (\<lambda>ws.
     case ws of [] \<Rightarrow> throw ErrNotFound | w # _ \<Rightarrow> ret w)"

definition UpdateWebhook :: "Webhook \<Rightarrow> unit op" where
  "UpdateWebhook w =
     bnd (update_webhooks (hook_ID w) (\<lambda>r. r\<lparr>
       wh_name := hook_Name w, wh_url := hook_URL w, wh_events := hook_Events w,
       wh_experiment_id := hook_ExperimentID w, wh_workspace_id := hook_WorkspaceID w,
       wh_secret := nilIfEmpty (hook_Secret w), wh_enabled := hook_Enabled w\<rparr>)) (\<lambda>n.
     require (n \<noteq> 0) ErrNotFound)"

definition DeleteWebhook :: "int \<Rightarrow> unit op" where
  "DeleteWebhook i = bnd (delete_webhooks i) (\<lambda>n. require (n \<noteq> 0) ErrNotFound)"

definition RecordWebhookAttempt :: "int \<Rightarrow> int \<Rightarrow> int \<Rightarrow> unit op" where
  "RecordWebhookAttempt i status attempt =
     bnd (update_webhooks i (\<lambda>r. r\<lparr>wh_last_status := Some status, wh_last_attempt := Some attempt\<rparr>)) (\<lambda>_. ret ())"

section \<open>Dashboards\<close>

record Dashboard =
  dash_ID :: int
  dash_WorkspaceID :: string
  dash_Project :: string
  dash_Widgets :: string
  dash_CreatedAt :: int
  dash_UpdatedAt :: int

definition da_upd :: "dashboard_row \<Rightarrow> dashboard_row \<Rightarrow> dashboard_row" where
  "da_upd old new = old\<lparr>da_widgets := da_widgets new, da_updated_at := da_updated_at new\<rparr>"

text \<open>An upsert takes a new row id only when it inserts.\<close>

definition upsert_dashboards :: "dashboard_row \<Rightarrow> unit op" where
  "upsert_dashboards d = stmt (\<lambda>s. None)
     (\<lambda>s. ((), if has_key da_key (da_key d) (dashboards s)
       then s\<lparr>dashboards := upsert da_key da_upd d (dashboards s)\<rparr>
       else s\<lparr>dashboards_seq := dashboards_seq s + 1,
              dashboards := dashboards s @ [d\<lparr>da_id := dashboards_seq s + 1\<rparr>]\<rparr>))"

definition GetDashboard :: "string \<Rightarrow> string \<Rightarrow> Dashboard op" where
  "GetDashboard ws project =
     bnd (gets (\<lambda>s. first_row (\<lambda>d. da_key d = (default_ws ws, project)) (dashboards s))) (\<lambda>row.
     case row of None \<Rightarrow> throw ErrNotFound
     | Some d \<Rightarrow> ret \<lparr>dash_ID = da_id d, dash_WorkspaceID = da_workspace_id d, dash_Project = da_project d,
         dash_Widgets = da_widgets d, dash_CreatedAt = da_created_at d, dash_UpdatedAt = da_updated_at d\<rparr>)"

definition SaveDashboard :: "string \<Rightarrow> string \<Rightarrow> string \<Rightarrow> Dashboard op" where
  "SaveDashboard ws project widgetsJSON =
     bnd now (\<lambda>n.
     bnd (upsert_dashboards \<lparr>
        da_id = 0, da_workspace_id = default_ws ws, da_project = project,
        da_widgets = (if widgetsJSON = [] then ''[]'' else widgetsJSON),
        da_created_at = n, da_updated_at = n\<rparr>) (\<lambda>_.
     GetDashboard (default_ws ws) project))"

section \<open>Integrity\<close>

lemma keeps_insert_peers [keeps_intros]: "keeps db_ok (insert_peers mk)"
  unfolding insert_peers_def
proof (rule keeps_stmt, goal_cases)
  case (1 s)
  let ?i = "peers_seq s + 1"
  have "peers_ok (peers_seq s) (peers s)" using db_okD(22) [OF 1(1)] .
  then have "peers_ok ?i (peers s @ [(mk ?i)\<lparr>pe_id := ?i\<rparr>])"
    using 1(2) below_fresh [of pe_id "peers_seq s" "peers s" ?i]
    by (auto simp: peers_ok_def Let_def has_key_iff schema_rules peer_statuses_def split: if_splits intro: below_mono)
  with 1(1) show ?case by (simp add: db_ok_def Let_def)
qed

lemma keeps_delete_peers [keeps_intros]: "keeps db_ok (delete_peers i ws)"
  unfolding delete_peers_def
  by (rule keeps_stmt) (simp add: db_ok_def peers_ok_def pk_delete_where below_delete_where chk_delete_where)

lemma keeps_update_peers [keeps_intros]: "keeps db_ok (update_peers i st e seen)"
  unfolding update_peers_def
proof (rule keeps_stmt, goal_cases)
  case (1 s)
  from db_okD(22) [OF 1(1)] 1(2)
  have "chk (\<lambda>p. pe_status p \<in> {''pending'', ''connected'', ''error''})
      (update_where (\<lambda>p. pe_id p = i) (\<lambda>p. p\<lparr>pe_status := st, pe_last_error := e, pe_last_seen := seen\<rparr>) (peers s))"
    by (auto simp: peers_ok_def chk_def update_where_def peer_statuses_def split: if_splits)
  then show ?case using db_okD(22) [OF 1(1)] 1(1) by (simp add: db_ok_def peers_ok_def update_where_rules)
qed

lemma keeps_insert_webhooks [keeps_intros]: "keeps db_ok (insert_webhooks mk)"
  unfolding insert_webhooks_def
proof (rule keeps_stmt, goal_cases)
  case (1 s)
  let ?i = "webhooks_seq s + 1"
  have "webhooks_ok (webhooks_seq s) (webhooks s)" using db_okD(21) [OF 1(1)] .
  then have "webhooks_ok ?i (webhooks s @ [(mk ?i)\<lparr>wh_id := ?i\<rparr>])"
    using below_fresh [of wh_id "webhooks_seq s" "webhooks s" ?i]
    by (auto simp: webhooks_ok_def schema_rules intro: below_mono)
  with 1(1) show ?case by (simp add: db_ok_def Let_def)
qed

lemma keeps_update_webhooks [keeps_intros]: "keeps db_ok (update_webhooks i f)"
  unfolding update_webhooks_def
proof (rule keeps_stmt, goal_cases)
  case (1 s)
  have "pk wh_id (update_where (\<lambda>w. wh_id w = i) (\<lambda>w. (f w)\<lparr>wh_id := i\<rparr>) (webhooks s)) = pk wh_id (webhooks s)"
    "below wh_id n (update_where (\<lambda>w. wh_id w = i) (\<lambda>w. (f w)\<lparr>wh_id := i\<rparr>) (webhooks s)) = below wh_id n (webhooks s)" for n
    by (rule pk_update_where below_update_where, simp)+
  then show ?case using 1(1) by (simp add: db_ok_def webhooks_ok_def)
qed

lemma keeps_delete_webhooks [keeps_intros]: "keeps db_ok (delete_webhooks i)"
  unfolding delete_webhooks_def
  by (rule keeps_stmt) (simp add: db_ok_def webhooks_ok_def pk_delete_where below_delete_where)

lemma keeps_upsert_dashboards [keeps_intros]: "keeps db_ok (upsert_dashboards d)"
  unfolding upsert_dashboards_def
proof (rule keeps_stmt, goal_cases)
  case (1 s)
  have ok: "dashboards_ok (dashboards_seq s) (dashboards s)" using db_okD(23) [OF 1(1)] .
  show ?case
  proof (cases "has_key da_key (da_key d) (dashboards s)")
    case True
    then have "map da_id (upsert da_key da_upd d (dashboards s)) = map da_id (dashboards s)"
      by (auto simp: upsert_def has_key_def da_upd_def)
    moreover from this have "below da_id n (upsert da_key da_upd d (dashboards s)) = below da_id n (dashboards s)" for n
      unfolding below_def by (metis (no_types, lifting) image_iff list.set_map)
    ultimately have "dashboards_ok (dashboards_seq s) (upsert da_key da_upd d (dashboards s))"
      using ok by (auto simp: dashboards_ok_def pk_def [of da_id] da_upd_def intro!: pk_upsert)
    with True 1(1) show ?thesis by (simp add: db_ok_def)
  next
    case False
    then have "dashboards_ok (dashboards_seq s + 1) (dashboards s @ [d\<lparr>da_id := dashboards_seq s + 1\<rparr>])"
      using ok below_fresh [of da_id "dashboards_seq s" "dashboards s" "dashboards_seq s + 1"]
      by (auto simp: dashboards_ok_def schema_rules has_key_iff intro: below_mono)
    with False 1(1) show ?thesis by (simp add: db_ok_def)
  qed
qed

lemma keeps_CreatePeer [keeps_intros]: "keeps db_ok (CreatePeer p)"
  unfolding CreatePeer_def by (intro keeps_intros)

lemma keeps_DeletePeer [keeps_intros]: "keeps db_ok (DeletePeer ws i)"
  unfolding DeletePeer_def by (intro keeps_intros)

lemma keeps_UpdatePeerStatus [keeps_intros]: "keeps db_ok (UpdatePeerStatus i st e n)"
  unfolding UpdatePeerStatus_def by (intro keeps_intros)

lemma keeps_CreateWebhook [keeps_intros]: "keeps db_ok (CreateWebhook w)"
  unfolding CreateWebhook_def by (intro keeps_intros)

lemma keeps_UpdateWebhook [keeps_intros]: "keeps db_ok (UpdateWebhook w)"
  unfolding UpdateWebhook_def by (intro keeps_intros)

lemma keeps_DeleteWebhook [keeps_intros]: "keeps db_ok (DeleteWebhook i)"
  unfolding DeleteWebhook_def by (intro keeps_intros)

lemma keeps_RecordWebhookAttempt [keeps_intros]: "keeps db_ok (RecordWebhookAttempt i st a)"
  unfolding RecordWebhookAttempt_def by (intro keeps_intros)

lemma keeps_GetDashboard [keeps_intros]: "keeps P (GetDashboard ws p)"
  unfolding GetDashboard_def by (intro keeps_intros)

lemma keeps_SaveDashboard [keeps_intros]: "keeps db_ok (SaveDashboard ws p w)"
  unfolding SaveDashboard_def by (intro keeps_intros)

section \<open>Behaviour\<close>

interpretation dashboard: keyed "\<lambda>d. (da_workspace_id d, da_project d)" da_upd
  by unfold_locales (simp add: da_upd_def)

lemma GetDashboard_look:
  "fst (GetDashboard ws project s) =
    (case dashboard.look (default_ws ws, project) (dashboards s) of None \<Rightarrow> Inl ErrNotFound
     | Some d \<Rightarrow> Inr \<lparr>dash_ID = da_id d, dash_WorkspaceID = da_workspace_id d, dash_Project = da_project d,
         dash_Widgets = da_widgets d, dash_CreatedAt = da_created_at d, dash_UpdatedAt = da_updated_at d\<rparr>)"
  by (simp add: GetDashboard_def dashboard.look_def sem_simps split: option.split)

text \<open>The row an upsert leaves under its key, and the rows under other keys.\<close>

definition saved_rows :: "dashboard_row \<Rightarrow> db \<Rightarrow> dashboard_row list" where
  "saved_rows d s = (if has_key da_key (da_key d) (dashboards s) then upsert da_key da_upd d (dashboards s)
     else dashboards s @ [d\<lparr>da_id := dashboards_seq s + 1\<rparr>])"

lemma saved_rows_look:
  "dashboard.look k (saved_rows d s) =
    (if k = da_key d then Some (case dashboard.look k (dashboards s) of None \<Rightarrow> d\<lparr>da_id := dashboards_seq s + 1\<rparr> | Some y \<Rightarrow> da_upd y d)
     else dashboard.look k (dashboards s))"
proof (cases "has_key da_key (da_key d) (dashboards s)")
  case True
  then have "dashboard.look (da_key d) (dashboards s) \<noteq> None"
    by (auto simp: dashboard.look_None has_key_iff keys_def)
  with True show ?thesis
    using dashboard.look_upsert_same [of d "dashboards s"] dashboard.look_upsert_other [of k d "dashboards s"]
    by (auto simp: saved_rows_def)
next
  case False
  then have "dashboard.look (da_key d) (dashboards s) = None"
    by (auto simp: dashboard.look_None has_key_iff keys_def)
  with False show ?thesis by (simp add: saved_rows_def dashboard.look_append split: option.split)
qed

text \<open>
  Saving a dashboard returns it with the given widgets (an empty list when none are given) and the
  current time; a dashboard that was there keeps its id and creation time, a new one gets a new id, and
  the dashboards of other projects and workspaces are unchanged.
\<close>

theorem SaveDashboard_GetDashboard:
  assumes "db_ok s"
  defines "n \<equiv> clock s (clock_pos s)"
  shows "\<exists>d t. SaveDashboard ws project widgets s = (Inr d, t) \<and> fst (GetDashboard ws project t) = Inr d \<and>
    dash_Widgets d = (if widgets = [] then ''[]'' else widgets) \<and> dash_UpdatedAt d = n \<and>
    (case fst (GetDashboard ws project s) of
       Inr old \<Rightarrow> dash_ID d = dash_ID old \<and> dash_CreatedAt d = dash_CreatedAt old
     | Inl _ \<Rightarrow> dash_ID d \<notin> da_id ` set (dashboards s) \<and> dash_CreatedAt d = n) \<and>
    (\<forall>ws' p. (default_ws ws', p) \<noteq> (default_ws ws, project) \<longrightarrow>
      fst (GetDashboard ws' p t) = fst (GetDashboard ws' p s))"
proof -
  let ?d = "\<lparr>da_id = 0, da_workspace_id = default_ws ws, da_project = project,
        da_widgets = (if widgets = [] then ''[]'' else widgets), da_created_at = n, da_updated_at = n\<rparr>"
  let ?s = "s\<lparr>clock_pos := Suc (clock_pos s)\<rparr>"
  obtain t where up: "upsert_dashboards ?d ?s = (Inr (), t)" and rows: "dashboards t = saved_rows ?d s"
    by (simp add: upsert_dashboards_def saved_rows_def sem_simps)
  have dd: "default_ws (default_ws ws) = default_ws ws" by (simp add: default_ws_def)
  obtain d where get: "fst (GetDashboard ws project t) = Inr d"
    by (simp add: GetDashboard_look rows saved_rows_look)
  have snd: "snd (GetDashboard (default_ws ws) project t) = t"
    by (simp add: GetDashboard_def sem_simps split: option.split)
  have "fst (GetDashboard (default_ws ws) project t) = Inr d" using get by (simp only: GetDashboard_look dd)
  with snd have "GetDashboard (default_ws ws) project t = (Inr d, t)" by (metis prod.collapse)
  then have "SaveDashboard ws project widgets s = (Inr d, t)"
    using up by (simp add: SaveDashboard_def sem_simps n_def [symmetric])
  moreover have "dashboards_seq s + 1 \<notin> da_id ` set (dashboards s)"
    using db_okD(23) [OF assms(1)] below_fresh [of da_id "dashboards_seq s" "dashboards s" "dashboards_seq s + 1"]
    by (simp add: dashboards_ok_def keys_def)
  moreover have "fst (GetDashboard ws' p t) = fst (GetDashboard ws' p s)" if "(default_ws ws', p) \<noteq> (default_ws ws, project)" for ws' p
    using that by (auto simp: GetDashboard_look rows saved_rows_look)
  ultimately show ?thesis
    using get
    by (intro exI [of _ d] exI [of _ t])
      (auto simp: GetDashboard_look rows saved_rows_look da_upd_def split: option.splits)
qed

theorem SaveDashboard_GetDashboard_witness:
  "\<exists>d t. SaveDashboard [] ''p'' [] sample_db = (Inr d, t) \<and> dash_Widgets d = ''[]'' \<and> dash_UpdatedAt d = 200"
  using SaveDashboard_GetDashboard [OF db_ok_sample, of "[]" "''p''" "[]"] by auto

text \<open>
  A new peer with a free name reads back, by id and by name, in its workspace and in no other; a delete
  from another workspace does not find it and changes nothing.
\<close>

theorem CreatePeer_scoped:
  assumes "db_ok s" and "peer_Name p \<noteq> []" and "peer_URL p \<noteq> []" and "peer_Secret p \<noteq> []"
    and "peer_Status p \<in> insert [] peer_statuses"
    and "(default_ws (peer_WorkspaceID p), peer_Name p) \<notin> keys pe_key (peers s)"
  shows "\<exists>i t q. CreatePeer p s = (Inr i, t) \<and> i \<notin> keys pe_id (peers s) \<and>
    q = p\<lparr>peer_ID := i, peer_WorkspaceID := default_ws (peer_WorkspaceID p), peer_LastSeen := None,
      peer_AddedAt := (if peer_AddedAt p = 0 then clock s (clock_pos s) else peer_AddedAt p),
      peer_Status := (if peer_Status p = [] then ''pending'' else peer_Status p)\<rparr> \<and>
    (\<forall>ws. GetPeer ws i t = (if default_ws ws = peer_WorkspaceID q then (Inr q, t) else (Inl ErrNotFound, t))) \<and>
    GetPeerByName (peer_WorkspaceID p) (peer_Name p) t = (Inr q, t) \<and>
    (\<forall>ws. default_ws ws \<noteq> peer_WorkspaceID q \<longrightarrow> DeletePeer ws i t = (Inl ErrNotFound, t))"
proof -
  let ?i = "peers_seq s + 1" and ?w = "default_ws (peer_WorkspaceID p)"
  let ?n = "if peer_AddedAt p = 0 then clock s (clock_pos s) else peer_AddedAt p"
  let ?k = "if peer_AddedAt p = 0 then Suc (clock_pos s) else clock_pos s"
  let ?r = "\<lparr>pe_id = ?i, pe_name = peer_Name p, pe_url = peer_URL p, pe_secret = peer_Secret p,
          pe_workspace_id = ?w, pe_added_at = ?n, pe_last_seen = None,
          pe_status = (if peer_Status p = [] then ''pending'' else peer_Status p),
          pe_last_error = nilIfEmpty (peer_LastError p)\<rparr>"
  let ?t = "s\<lparr>clock_pos := ?k, peers_seq := ?i, peers := peers s @ [?r]\<rparr>"
  have fresh: "?i \<notin> keys pe_id (peers s)"
    using db_okD(22) [OF assms(1)] below_fresh [of pe_id "peers_seq s" "peers s" ?i] by (simp add: peers_ok_def)
  have st: "(if peer_Status p = [] then ''pending'' else peer_Status p) \<in> peer_statuses"
    using assms(5) by (auto simp: peer_statuses_def)
  have run: "CreatePeer p s = (Inr ?i, ?t)"
    using assms(2-4,6) st by (simp add: CreatePeer_def insert_peers_def sem_simps has_key_iff Let_def)
  have no: "first_row (\<lambda>q. pe_id q = ?i \<and> pe_workspace_id q = w) (peers s) = None" for w
    using fresh unfolding first_row_None keys_def by force
  have no2: "first_row (\<lambda>q. pe_name q = peer_Name p \<and> pe_workspace_id q = ?w) (peers s) = None"
    using assms(6) unfolding first_row_None keys_def by force
  have del: "DeletePeer ws ?i ?t = (Inl ErrNotFound, ?t)" if "default_ws ws \<noteq> ?w" for ws
  proof -
    have out: "\<forall>q\<in>set (peers ?t). \<not> (pe_id q = ?i \<and> pe_workspace_id q = default_ws ws)" using that fresh by (force simp: keys_def)
    then have "delete_where (\<lambda>q. pe_id q = ?i \<and> pe_workspace_id q = default_ws ws) (peers ?t) = peers ?t"
      unfolding delete_where_def by (rule filter_True)
    then show ?thesis using out by (simp add: DeletePeer_def delete_peers_def sem_simps count_where_def filter_empty_conv)
  qed
  have scan: "scanPeer ?r = p\<lparr>peer_ID := ?i, peer_WorkspaceID := ?w, peer_LastSeen := None, peer_AddedAt := ?n,
      peer_Status := (if peer_Status p = [] then ''pending'' else peer_Status p)\<rparr>"
    by (simp add: scanPeer_def)
  have get: "GetPeer ws ?i ?t = (if default_ws ws = ?w then (Inr (scanPeer ?r), ?t) else (Inl ErrNotFound, ?t))" for ws
    by (simp add: GetPeer_def scanPeerRow_def sem_simps first_row_append first_row_Cons no)
  have "GetPeerByName (peer_WorkspaceID p) (peer_Name p) ?t = (Inr (scanPeer ?r), ?t)"
    by (simp add: GetPeerByName_def scanPeerRow_def sem_simps first_row_append first_row_Cons no2)
  with run fresh get del show ?thesis unfolding scan by (intro exI [of _ ?i] exI [of _ ?t]) auto
qed

theorem CreatePeer_scoped_witness:
  "\<exists>i t q. CreatePeer \<lparr>peer_ID = 0, peer_Name = ''eu'', peer_URL = ''https://eu'', peer_Secret = ''k'', peer_WorkspaceID = [],
      peer_AddedAt = 0, peer_LastSeen = None, peer_Status = [], peer_LastError = []\<rparr> sample_db = (Inr i, t) \<and>
    GetPeer [] i t = (Inr q, t) \<and> peer_Status q = ''pending'' \<and> GetPeer ''team'' i t = (Inl ErrNotFound, t)"
proof -
  let ?p = "\<lparr>peer_ID = 0, peer_Name = ''eu'', peer_URL = ''https://eu'', peer_Secret = ''k'', peer_WorkspaceID = [],
      peer_AddedAt = 0, peer_LastSeen = None, peer_Status = [], peer_LastError = []\<rparr>"
  have "(default_ws (peer_WorkspaceID ?p), peer_Name ?p) \<notin> keys pe_key (peers sample_db)"
    by (simp add: sample_db_def fresh_db_def)
  then show ?thesis
    using CreatePeer_scoped [OF db_ok_sample, of ?p] by (auto simp: default_ws_def)
qed

end
