(* ===== verification/Sha256.thy ===== *)
theory Sha256
  imports Model
begin

unbundle bit_operations_syntax

text \<open>
  \<open>crypto/sha256\<close>: the digest the store keeps as the content hash of a prompt, on byte lists, as
  FIPS 180-4 defines it, and its hexadecimal form.
\<close>

text \<open>The round constants (the fractions of the cube roots of the first 64 primes) and the initial state (of the square roots of the first 8).\<close>

definition sha_k :: "32 word list" where
  "sha_k = [
     1116352408, 1899447441, 3049323471, 3921009573, 961987163, 1508970993,
     2453635748, 2870763221, 3624381080, 310598401, 607225278, 1426881987,
     1925078388, 2162078206, 2614888103, 3248222580, 3835390401, 4022224774,
     264347078, 604807628, 770255983, 1249150122, 1555081692, 1996064986,
     2554220882, 2821834349, 2952996808, 3210313671, 3336571891, 3584528711,
     113926993, 338241895, 666307205, 773529912, 1294757372, 1396182291,
     1695183700, 1986661051, 2177026350, 2456956037, 2730485921, 2820302411,
     3259730800, 3345764771, 3516065817, 3600352804, 4094571909, 275423344,
     430227734, 506948616, 659060556, 883997877, 958139571, 1322822218,
     1537002063, 1747873779, 1955562222, 2024104815, 2227730452, 2361852424,
     2428436474, 2756734187, 3204031479, 3329325298]"

definition sha_init :: "32 word list" where
  "sha_init = [
     1779033703, 3144134277, 1013904242, 2773480762, 1359893119, 2600822924,
     528734635, 1541459225]"

text \<open>Padding to a multiple of 64 bytes: a one bit, zeros, and the length in bits, big endian.\<close>

definition sha_pad :: "8 word list \<Rightarrow> 8 word list" where
  "sha_pad bs = (let n = length bs in
     bs @ [0x80] @ replicate ((119 - n mod 64) mod 64) 0 @ rev (le_bytes (of_nat (8 * n))))"

definition be_word :: "8 word list \<Rightarrow> 32 word" where
  "be_word bs = foldl (\<lambda>a b. push_bit 8 a OR ucast b) 0 bs"

fun sha_words :: "8 word list \<Rightarrow> 32 word list" where
  "sha_words (a # b # c # d # bs) = be_word [a, b, c, d] # sha_words bs"
| "sha_words _ = []"

text \<open>The message schedule, built from the last sixteen words (newest first).\<close>

fun sha_schedule :: "nat \<Rightarrow> 32 word list \<Rightarrow> 32 word list" where
  "sha_schedule 0 w = rev w"
| "sha_schedule (Suc k) w =
     (let w2 = w ! 1; w7 = w ! 6; w15 = w ! 14; w16 = w ! 15;
          s0 = word_rotr 7 w15 XOR word_rotr 18 w15 XOR drop_bit 3 w15;
          s1 = word_rotr 17 w2 XOR word_rotr 19 w2 XOR drop_bit 10 w2
      in sha_schedule k ((w16 + s0 + w7 + s1) # w))"

definition sha_round :: "32 word list \<Rightarrow> 32 word \<times> 32 word \<Rightarrow> 32 word list" where
  "sha_round st kw =
     (case st of [a, b, c, d, e, f, g, h] \<Rightarrow>
        (let s1 = word_rotr 6 e XOR word_rotr 11 e XOR word_rotr 25 e;
             ch = (e AND f) XOR (NOT e AND g);
             t1 = h + s1 + ch + fst kw + snd kw;
             s0 = word_rotr 2 a XOR word_rotr 13 a XOR word_rotr 22 a;
             maj = (a AND b) XOR (a AND c) XOR (b AND c)
         in [t1 + s0 + maj, a, b, c, d + t1, e, f, g])
      | _ \<Rightarrow> st)"

definition sha_block :: "32 word list \<Rightarrow> 8 word list \<Rightarrow> 32 word list" where
  "sha_block st blk =
     map2 (+) st (foldl sha_round st (zip sha_k (sha_schedule 48 (rev (sha_words blk)))))"

function sha_blocks :: "32 word list \<Rightarrow> 8 word list \<Rightarrow> 32 word list" where
  "sha_blocks st bs = (if length bs < 64 then st else sha_blocks (sha_block st (take 64 bs)) (drop 64 bs))"
  by pat_completeness auto
termination
  by (relation "measure (length \<circ> snd)") auto

declare sha_blocks.simps [simp del]

definition be_bytes :: "32 word \<Rightarrow> 8 word list" where
  "be_bytes w = map (\<lambda>i. ucast (drop_bit (8 * i) w)) [3, 2, 1, 0]"

definition sha256 :: "8 word list \<Rightarrow> 8 word list" where
  "sha256 bs = concat (map be_bytes (sha_blocks sha_init (sha_pad bs)))"

definition sha256_hex :: "string \<Rightarrow> string" where
  "sha256_hex s = EncodeToString (sha256 (map (\<lambda>c. of_nat (byte c)) s))"

lemma length_sha_pad: "64 dvd length (sha_pad bs)"
proof -
  let ?n = "length bs" and ?m = "length bs mod 64"
  have len: "length (sha_pad bs) = ?n + 9 + (119 - ?m) mod 64" by (simp add: sha_pad_def Let_def)
  have "?n + 9 + (119 - ?m) = (?n - ?m) + 128"
    using mod_less_divisor [of 64 ?n] mod_less_eq_dividend [of ?n 64] by arith
  then have "64 dvd ?n + 9 + (119 - ?m)" using dvd_minus_mod [of 64 ?n] by (simp only: dvd_add_right_iff) simp
  then have "(?n + 9 + (119 - ?m) mod 64) mod 64 = 0" unfolding mod_add_right_eq by (rule dvd_imp_mod_0)
  then show ?thesis unfolding len by (rule mod_0_imp_dvd)
qed

lemma length_sha_round: "length st = 8 \<Longrightarrow> length (sha_round st kw) = 8"
  by (auto simp: sha_round_def Let_def split: list.split)

lemma length_sha_rounds: "length st = 8 \<Longrightarrow> length (foldl sha_round st kws) = 8"
  by (induction kws arbitrary: st) (simp_all add: length_sha_round)

lemma length_sha_blocks: "length st = 8 \<Longrightarrow> length (sha_blocks st bs) = 8"
proof (induction st bs rule: sha_blocks.induct)
  case (1 st bs)
  then show ?case by (subst sha_blocks.simps) (simp add: sha_block_def length_sha_rounds)
qed

lemma length_sha256: "length (sha256 bs) = 32"
  using length_sha_blocks [of sha_init "sha_pad bs"]
  by (simp add: sha256_def length_concat comp_def be_bytes_def sha_init_def sum_list_triv)

lemma sha256_hex_shape: "length (sha256_hex s) = 64 \<and> lower_hex (sha256_hex s)"
  by (simp add: sha256_hex_def length_Encode length_sha256 lower_hex_Encode)

lemma sha256_empty: "sha256_hex [] = ''e3b0c44298fc1c149afbf4c8996fb92427ae41e4649b934ca495991b7852b855''"
  by code_simp

end
