(* ===== verification/Prompts.thy ===== *)
theory Prompts
  imports Schema Sha256
begin

text \<open>
  Versioned prompts and their aliases (\<open>internal/store/sqlite.go\<close>, prompts section). A prompt is
  identified by its workspace, name and version; the same content under the same name is stored once,
  found by its SHA-256 hash.
\<close>

section \<open>Statements\<close>

definition insert_prompts :: "prompt_row \<Rightarrow> unit op" where
  "insert_prompts p = stmt
     (\<lambda>s. if has_key pt_pk (pt_pk p) (prompts s) then Some ErrUnique
       else if \<not> has_key w_id (pt_workspace_id p) (workspaces s) then Some ErrForeignKey else None)
     (\<lambda>s. ((), s\<lparr>prompts := prompts s @ [p]\<rparr>))"

definition pa_upd :: "prompt_alias_row \<Rightarrow> prompt_alias_row \<Rightarrow> prompt_alias_row" where
  "pa_upd old new = old\<lparr>pa_version := pa_version new\<rparr>"

definition upsert_prompt_aliases :: "prompt_alias_row \<Rightarrow> unit op" where
  "upsert_prompt_aliases a = stmt
     (\<lambda>s. if has_key pt_pk (pa_ref a) (prompts s) then None else Some ErrForeignKey)
     (\<lambda>s. ((), s\<lparr>prompt_aliases := upsert pa_pk pa_upd a (prompt_aliases s)\<rparr>))"

interpretation prompt_alias: kv_table "\<lambda>a. (pa_workspace_id a, pa_name a)" pa_alias pa_version pa_upd
  by unfold_locales (simp_all add: pa_upd_def)

section \<open>Methods\<close>

definition versions_with_hash :: "string \<Rightarrow> string \<Rightarrow> string \<Rightarrow> db \<Rightarrow> int list" where
  "versions_with_hash ws nm h s =
     map pt_version (filter (\<lambda>r. pt_workspace_id r = ws \<and> pt_name r = nm \<and> pt_content_hash r = h) (prompts s))"

definition prompt_versions :: "string \<Rightarrow> string \<Rightarrow> db \<Rightarrow> int list" where
  "prompt_versions ws nm s = map pt_version (filter (\<lambda>r. pt_workspace_id r = ws \<and> pt_name r = nm) (prompts s))"

text \<open>One attempt: the version that has the content already, or the next number.\<close>

definition create_prompt_once :: "string \<Rightarrow> Prompt \<Rightarrow> string \<Rightarrow> int \<Rightarrow> int op" where
  "create_prompt_once ws p h created =
     tx (bnd (gets (versions_with_hash ws (pr_Name p) h)) (\<lambda>existing.
         if existing \<noteq> [] then ret (max_or_0 existing)
         else bnd (gets (\<lambda>s. max_or_0 (prompt_versions ws (pr_Name p) s) + 1)) (\<lambda>next.
           bnd (insert_prompts \<lparr>
              pt_workspace_id = ws, pt_name = pr_Name p, pt_version = next, pt_content = pr_Content p,
              pt_content_hash = h, pt_created_at = created,
              pt_created_by = nilIfEmpty (pr_CreatedBy p), pt_description = nilIfEmpty (pr_Description p)\<rparr>) (\<lambda>_.
           ret next))))"

definition CreatePrompt :: "string \<Rightarrow> Prompt \<Rightarrow> int op" where
  "CreatePrompt ws p =
     bnd (invalidValue (ValidName (pr_Name p) 250)) (\<lambda>_.
     bnd (if pr_CreatedAt p = 0 then now else ret (pr_CreatedAt p)) (\<lambda>created.
     retryWriteRace (create_prompt_once (default_ws ws) p (sha256_hex (pr_Content p)) created)))"

definition prompt_of_row :: "prompt_row \<Rightarrow> Prompt" where
  "prompt_of_row r = \<lparr>
     pr_WorkspaceID = pt_workspace_id r, pr_Name = pt_name r, pr_Version = pt_version r, pr_Content = pt_content r,
     pr_ContentHash = pt_content_hash r, pr_CreatedAt = pt_created_at r,
     pr_CreatedBy = coalesce (pt_created_by r), pr_Description = coalesce (pt_description r)\<rparr>"

definition scanPrompt :: "prompt_row option \<Rightarrow> Prompt op" where
  "scanPrompt row = (case row of None \<Rightarrow> throw ErrNotFound | Some r \<Rightarrow> ret (prompt_of_row r))"

text \<open>The rows of the join with the highest version of each name; equal creation times keep the table's order.\<close>

definition ListPrompts :: "string \<Rightarrow> db \<Rightarrow> Prompt list" where
  "ListPrompts ws0 s =
     (let ws = default_ws ws0 in
      map prompt_of_row (sort_key (\<lambda>r. - pt_created_at r)
        (filter (\<lambda>r. pt_workspace_id r = ws \<and> pt_version r = max_or_0 (prompt_versions ws (pt_name r) s)) (prompts s))))"

definition newest_first :: "string \<Rightarrow> string \<Rightarrow> db \<Rightarrow> prompt_row list" where
  "newest_first ws nm s =
     sort_key (\<lambda>r. - pt_version r) (filter (\<lambda>r. pt_workspace_id r = ws \<and> pt_name r = nm) (prompts s))"

definition GetLatestPrompt :: "string \<Rightarrow> string \<Rightarrow> Prompt op" where
  "GetLatestPrompt ws nm =
     bnd (gets (newest_first (default_ws ws) nm)) (\<lambda>rows.
     scanPrompt (case rows of [] \<Rightarrow> None | r # _ \<Rightarrow> Some r))"

definition GetPromptVersion :: "string \<Rightarrow> string \<Rightarrow> int \<Rightarrow> Prompt op" where
  "GetPromptVersion ws nm ver =
     bnd (gets (\<lambda>s. first_row (\<lambda>r. pt_pk r = (default_ws ws, nm, ver)) (prompts s))) scanPrompt"

definition ListPromptVersions :: "string \<Rightarrow> string \<Rightarrow> db \<Rightarrow> Prompt list" where
  "ListPromptVersions ws nm s = map prompt_of_row (newest_first (default_ws ws) nm s)"

definition SetPromptAlias :: "string \<Rightarrow> string \<Rightarrow> string \<Rightarrow> int \<Rightarrow> unit op" where
  "SetPromptAlias ws nm al ver =
     bnd (GetPromptVersion ws nm ver) (\<lambda>_.
     upsert_prompt_aliases \<lparr>pa_workspace_id = default_ws ws, pa_name = nm, pa_alias = al, pa_version = ver\<rparr>)"

definition GetPromptByAlias :: "string \<Rightarrow> string \<Rightarrow> string \<Rightarrow> Prompt op" where
  "GetPromptByAlias ws nm al =
     bnd (gets (\<lambda>s. first_row (\<lambda>a. pa_pk a = ((default_ws ws, nm), al)) (prompt_aliases s))) (\<lambda>row.
     case row of None \<Rightarrow> throw ErrNotFound | Some a \<Rightarrow> GetPromptVersion ws nm (pa_version a))"

section \<open>Integrity\<close>

lemma keeps_insert_prompts [keeps_intros]: "keeps db_ok (insert_prompts p)"
  unfolding insert_prompts_def
proof (rule keeps_stmt, goal_cases)
  case (1 s)
  from db_okD(14) [OF 1(1)] 1(2) have "prompts_ok (keys w_id (workspaces s)) (prompts s @ [p]) (prompt_aliases s)"
    by (auto simp: prompts_ok_def has_key_iff schema_rules split: if_splits intro: fk_mono)
  with 1(1) show ?case by (simp add: db_ok_def)
qed

lemma fk_prompt_alias_upsert:
  "fk pa_ref as A \<Longrightarrow> pa_ref a \<in> A \<Longrightarrow> fk pa_ref (upsert pa_pk pa_upd a as) A"
  by (auto simp: fk_def upsert_def pa_upd_def)

lemma keeps_upsert_prompt_aliases [keeps_intros]: "keeps db_ok (upsert_prompt_aliases a)"
  unfolding upsert_prompt_aliases_def
  by (rule keeps_stmt) (auto simp: db_ok_def prompts_ok_def has_key_iff pa_upd_def
      intro!: pk_upsert fk_prompt_alias_upsert split: if_splits)

lemma keeps_scanPrompt [keeps_intros]: "keeps P (scanPrompt row)"
  unfolding scanPrompt_def by (intro keeps_intros)

lemma keeps_GetPromptVersion [keeps_intros]: "keeps P (GetPromptVersion ws nm ver)"
  unfolding GetPromptVersion_def by (intro keeps_intros)

lemma keeps_CreatePrompt [keeps_intros]: "keeps db_ok (CreatePrompt ws p)"
  unfolding CreatePrompt_def create_prompt_once_def by (intro keeps_intros)

lemma keeps_SetPromptAlias [keeps_intros]: "keeps db_ok (SetPromptAlias ws nm al ver)"
  unfolding SetPromptAlias_def by (intro keeps_intros)

section \<open>Behaviour\<close>

definition new_prompt :: "string \<Rightarrow> Prompt \<Rightarrow> int \<Rightarrow> int \<Rightarrow> prompt_row" where
  "new_prompt ws p i created = \<lparr>
     pt_workspace_id = ws, pt_name = pr_Name p, pt_version = i, pt_content = pr_Content p,
     pt_content_hash = sha256_hex (pr_Content p), pt_created_at = created,
     pt_created_by = nilIfEmpty (pr_CreatedBy p), pt_description = nilIfEmpty (pr_Description p)\<rparr>"

lemma new_prompt_sel [simp]:
  "pt_workspace_id (new_prompt ws p i c) = ws" "pt_name (new_prompt ws p i c) = pr_Name p"
  "pt_version (new_prompt ws p i c) = i" "pt_content (new_prompt ws p i c) = pr_Content p"
  "pt_content_hash (new_prompt ws p i c) = sha256_hex (pr_Content p)"
  by (simp_all add: new_prompt_def)

text \<open>The version number and the state that one attempt leaves.\<close>

definition prompt_outcome :: "string \<Rightarrow> Prompt \<Rightarrow> int \<Rightarrow> db \<Rightarrow> int \<times> db" where
  "prompt_outcome ws p created s =
     (let existing = versions_with_hash ws (pr_Name p) (sha256_hex (pr_Content p)) s;
          next = max_or_0 (prompt_versions ws (pr_Name p) s) + 1
      in if existing \<noteq> [] then (max_or_0 existing, s)
         else (next, s\<lparr>prompts := prompts s @ [new_prompt ws p next created]\<rparr>))"

lemma next_prompt_fresh: "(ws, nm, max_or_0 (prompt_versions ws nm s) + 1) \<notin> keys pt_pk (prompts s)"
proof
  assume "(ws, nm, max_or_0 (prompt_versions ws nm s) + 1) \<in> keys pt_pk (prompts s)"
  then have "max_or_0 (prompt_versions ws nm s) + 1 \<in> set (prompt_versions ws nm s)"
    by (auto simp: keys_def prompt_versions_def)
  then show False using max_or_0_ge by fastforce
qed

lemma create_prompt_once_run:
  assumes "ws \<in> keys w_id (workspaces s)"
  shows "create_prompt_once ws p (sha256_hex (pr_Content p)) created s =
    (Inr (fst (prompt_outcome ws p created s)), snd (prompt_outcome ws p created s))"
  using assms next_prompt_fresh [of ws "pr_Name p" s]
  by (simp add: create_prompt_once_def prompt_outcome_def Let_def sem_simps insert_prompts_def has_key_iff
      new_prompt_def)

lemma CreatePrompt_run:
  assumes "ValidName (pr_Name p) 250 = None" and "default_ws ws \<in> keys w_id (workspaces s)"
  obtains created k where "CreatePrompt ws p s =
    (Inr (fst (prompt_outcome (default_ws ws) p created (s\<lparr>clock_pos := k\<rparr>))), snd (prompt_outcome (default_ws ws) p created (s\<lparr>clock_pos := k\<rparr>)))"
proof -
  let ?c = "if pr_CreatedAt p = 0 then clock s (clock_pos s) else pr_CreatedAt p"
  let ?k = "if pr_CreatedAt p = 0 then Suc (clock_pos s) else clock_pos s"
  let ?s = "s\<lparr>clock_pos := ?k\<rparr>"
  have "create_prompt_once (default_ws ws) p (sha256_hex (pr_Content p)) ?c ?s =
      (Inr (fst (prompt_outcome (default_ws ws) p ?c ?s)), snd (prompt_outcome (default_ws ws) p ?c ?s))"
    by (rule create_prompt_once_run) (use assms(2) in simp)
  from retryWriteRace_ok [where fn = "create_prompt_once (default_ws ws) p (sha256_hex (pr_Content p)) ?c", OF this]
  have "CreatePrompt ws p s = (Inr (fst (prompt_outcome (default_ws ws) p ?c ?s)), snd (prompt_outcome (default_ws ws) p ?c ?s))"
    using assms(1) by (simp add: CreatePrompt_def sem_simps split: if_splits)
  then show ?thesis by (rule that)
qed

text \<open>The row an outcome points to.\<close>

lemma prompt_outcome_row:
  assumes "pk pt_pk (prompts s)"
    and "\<forall>r\<in>set (prompts s). pt_content_hash r = sha256_hex (pr_Content p) \<longrightarrow> pt_content r = pr_Content p"
  obtains r where "first_row (\<lambda>r. pt_pk r = (ws, pr_Name p, fst (prompt_outcome ws p created s))) (prompts (snd (prompt_outcome ws p created s))) = Some r"
    and "pt_content r = pr_Content p" and "pt_content_hash r = sha256_hex (pr_Content p)"
    and "pt_pk r = (ws, pr_Name p, fst (prompt_outcome ws p created s))"
proof (cases "versions_with_hash ws (pr_Name p) (sha256_hex (pr_Content p)) s = []")
  case True
  let ?i = "max_or_0 (prompt_versions ws (pr_Name p) s) + 1"
  have "first_row (\<lambda>r. pt_pk r = (ws, pr_Name p, ?i)) (prompts s) = None"
    using next_prompt_fresh by (simp only: first_row_keys not_False_eq_True)
  with True show ?thesis
    by (intro that [of "new_prompt ws p ?i created"]) (simp_all add: prompt_outcome_def Let_def first_row_append first_row_Cons)
next
  case False
  let ?vs = "versions_with_hash ws (pr_Name p) (sha256_hex (pr_Content p)) s"
  have "max_or_0 ?vs \<in> set ?vs" using False by (rule max_or_0_in)
  then obtain r where r: "r \<in> set (prompts s)" "pt_pk r = (ws, pr_Name p, max_or_0 ?vs)" "pt_content_hash r = sha256_hex (pr_Content p)"
    by (auto simp: versions_with_hash_def)
  have "first_row (\<lambda>r. pt_pk r = (ws, pr_Name p, max_or_0 ?vs)) (prompts s) = Some r"
    by (rule first_row_unique [where k = pt_pk]) (use assms(1) r in \<open>simp_all add: pk_def\<close>)
  moreover have "pt_content r = pr_Content p" using assms(2) r by blast
  ultimately show ?thesis using False r(2,3) by (intro that [of r]) (simp_all add: prompt_outcome_def Let_def)
qed

text \<open>Versions that were there are still there.\<close>

lemma prompt_outcome_frame:
  "GetPromptVersion ws' nm ver s = (Inr y, s) \<Longrightarrow> fst (GetPromptVersion ws' nm ver (snd (prompt_outcome ws p created s))) = Inr y"
  by (auto simp: GetPromptVersion_def scanPrompt_def sem_simps prompt_outcome_def Let_def first_row_append split: option.splits)

lemma GetPromptVersion_clock: "fst (GetPromptVersion ws nm ver (s\<lparr>clock_pos := k\<rparr>)) = fst (GetPromptVersion ws nm ver s)"
  by (simp add: GetPromptVersion_def scanPrompt_def sem_simps split: option.split)

lemma snd_GetPromptVersion [simp]: "snd (GetPromptVersion ws nm ver s) = s"
  by (simp add: GetPromptVersion_def scanPrompt_def sem_simps split: option.split)

text \<open>
  Creating a prompt with a valid name in an existing workspace returns a version that reads back with
  the given content and its SHA-256 hash, and every version that was there still reads the same. The stored contents
  with the same hash are assumed to be the same content.
\<close>

theorem CreatePrompt_GetPromptVersion:
  assumes "db_ok s" and "ValidName (pr_Name p) 250 = None" and "default_ws ws \<in> keys w_id (workspaces s)"
    and "\<forall>r\<in>set (prompts s). pt_content_hash r = sha256_hex (pr_Content p) \<longrightarrow> pt_content r = pr_Content p"
  shows "\<exists>v t x. CreatePrompt ws p s = (Inr v, t) \<and> GetPromptVersion ws (pr_Name p) v t = (Inr x, t) \<and>
    pr_Content x = pr_Content p \<and> pr_ContentHash x = sha256_hex (pr_Content p) \<and> pr_Version x = v \<and>
    (\<forall>ws' nm ver y. GetPromptVersion ws' nm ver s = (Inr y, s) \<longrightarrow> fst (GetPromptVersion ws' nm ver t) = Inr y)"
proof -
  let ?w = "default_ws ws"
  obtain c k where run: "CreatePrompt ws p s =
      (Inr (fst (prompt_outcome ?w p c (s\<lparr>clock_pos := k\<rparr>))), snd (prompt_outcome ?w p c (s\<lparr>clock_pos := k\<rparr>)))"
    by (rule CreatePrompt_run [OF assms(2,3)])
  let ?s = "s\<lparr>clock_pos := k\<rparr>"
  let ?v = "fst (prompt_outcome ?w p c ?s)" and ?t = "snd (prompt_outcome ?w p c ?s)"
  have "pk pt_pk (prompts ?s)" using db_okD(14) [OF assms(1)] by (simp add: prompts_ok_def)
  moreover have "\<forall>r\<in>set (prompts ?s). pt_content_hash r = sha256_hex (pr_Content p) \<longrightarrow> pt_content r = pr_Content p"
    using assms(4) by simp
  ultimately obtain r where "first_row (\<lambda>r. pt_pk r = (?w, pr_Name p, ?v)) (prompts ?t) = Some r"
      and r: "pt_content r = pr_Content p" "pt_content_hash r = sha256_hex (pr_Content p)" "pt_pk r = (?w, pr_Name p, ?v)"
    by (rule prompt_outcome_row)
  then have "GetPromptVersion ws (pr_Name p) ?v ?t = (Inr (prompt_of_row r), ?t)"
    by (simp add: GetPromptVersion_def scanPrompt_def sem_simps)
  moreover have "fst (GetPromptVersion ws' nm ver ?t) = Inr y" if "GetPromptVersion ws' nm ver s = (Inr y, s)" for ws' nm ver y
  proof (rule prompt_outcome_frame)
    show "GetPromptVersion ws' nm ver ?s = (Inr y, ?s)"
      using that GetPromptVersion_clock [of ws' nm ver k s] by (simp add: prod_eq_iff)
  qed
  ultimately show ?thesis unfolding run using r by (intro exI [of _ ?v] exI [of _ ?t] exI [of _ "prompt_of_row r"])
    (simp add: prompt_of_row_def)
qed

text \<open>
  Creating the same content under the same name again returns the same version and adds nothing.
\<close>

theorem CreatePrompt_idempotent:
  assumes "ValidName (pr_Name p) 250 = None" and "default_ws ws \<in> keys w_id (workspaces s)"
    and "pr_Name q = pr_Name p" and "pr_Content q = pr_Content p"
  shows "\<exists>v t u. CreatePrompt ws p s = (Inr v, t) \<and> CreatePrompt ws q t = (Inr v, u) \<and> prompts u = prompts t"
proof -
  let ?w = "default_ws ws" and ?h = "sha256_hex (pr_Content p)"
  obtain c k where run: "CreatePrompt ws p s =
      (Inr (fst (prompt_outcome ?w p c (s\<lparr>clock_pos := k\<rparr>))), snd (prompt_outcome ?w p c (s\<lparr>clock_pos := k\<rparr>)))"
    by (rule CreatePrompt_run [OF assms(1,2)])
  let ?v = "fst (prompt_outcome ?w p c (s\<lparr>clock_pos := k\<rparr>))" and ?t = "snd (prompt_outcome ?w p c (s\<lparr>clock_pos := k\<rparr>))"
  have again: "versions_with_hash ?w (pr_Name p) ?h ?t \<noteq> [] \<and> max_or_0 (versions_with_hash ?w (pr_Name p) ?h ?t) = ?v"
  proof (cases "versions_with_hash ?w (pr_Name p) ?h s = []")
    case True
    then have "versions_with_hash ?w (pr_Name p) ?h ?t = [?v]"
      by (simp add: prompt_outcome_def Let_def versions_with_hash_def)
    then show ?thesis by (simp add: max_or_0_def)
  qed (simp add: prompt_outcome_def Let_def versions_with_hash_def)
  have "?w \<in> keys w_id (workspaces ?t)" using assms(2) by (simp add: prompt_outcome_def Let_def)
  then obtain d j where "CreatePrompt ws q ?t =
      (Inr (fst (prompt_outcome ?w q d (?t\<lparr>clock_pos := j\<rparr>))), snd (prompt_outcome ?w q d (?t\<lparr>clock_pos := j\<rparr>)))"
    by (rule CreatePrompt_run [of q ws ?t, unfolded assms(3), OF assms(1)])
  moreover have "prompt_outcome ?w q d (?t\<lparr>clock_pos := j\<rparr>) = (?v, ?t\<lparr>clock_pos := j\<rparr>)"
    using again unfolding prompt_outcome_def [of _ q] Let_def assms(3,4) by (simp add: versions_with_hash_def)
  ultimately show ?thesis using run by auto
qed

text \<open>Two prompts of the sample workspace.\<close>

definition sample_prompt :: "string \<Rightarrow> Prompt" where
  "sample_prompt c = \<lparr>pr_WorkspaceID = [], pr_Name = ''greet'', pr_Version = 0, pr_Content = c, pr_ContentHash = [],
     pr_CreatedAt = 0, pr_CreatedBy = [], pr_Description = []\<rparr>"

lemma sample_prompt_valid [simp]: "ValidName (pr_Name (sample_prompt c)) 250 = None"
  by (simp add: sample_prompt_def ValidName_def runes_def is_control_def)

lemma sample_prompts [simp]: "prompts sample_db = []" "default_ws [] = ''default''"
  by (simp_all add: sample_db_def fresh_db_def default_ws_def)

theorem CreatePrompt_GetPromptVersion_witness:
  "\<exists>v t x. CreatePrompt [] (sample_prompt ''hi'') sample_db = (Inr v, t) \<and>
    GetPromptVersion [] ''greet'' v t = (Inr x, t) \<and> pr_Content x = ''hi''"
  using CreatePrompt_GetPromptVersion [OF db_ok_sample sample_prompt_valid, of "[]" "''hi''"]
  by (auto simp: sample_prompt_def)

theorem CreatePrompt_idempotent_witness:
  "\<exists>v t u. CreatePrompt [] (sample_prompt ''hi'') sample_db = (Inr v, t) \<and>
    CreatePrompt [] (sample_prompt ''hi'') t = (Inr v, u) \<and> prompts u = prompts t"
  by (rule CreatePrompt_idempotent) simp_all

section \<open>Version numbers\<close>

text \<open>The versions of every prompt are 1, 2, ... without gaps.\<close>

definition prompts_contiguous :: "db \<Rightarrow> bool" where
  "prompts_contiguous s \<longleftrightarrow>
     (\<forall>ws nm. set (prompt_versions ws nm s) = {1..int (length (prompt_versions ws nm s))})"

lemma contiguous_max: "set vs = {1..int (length vs)} \<Longrightarrow> max_or_0 vs = int (length vs)"
proof (cases "vs = []")
  case False
  assume vs: "set vs = {1..int (length vs)}"
  with False have "int (length vs) \<in> set vs" by (cases vs) auto
  then have "int (length vs) \<le> max_or_0 vs" by (rule max_or_0_ge)
  moreover have "max_or_0 vs \<le> int (length vs)" using max_or_0_in [OF False] vs by auto
  ultimately show ?thesis by simp
qed (simp add: max_or_0_def)

lemma insert_prompts_cases:
  "insert_prompts r s = (Inr (), s\<lparr>prompts := prompts s @ [r]\<rparr>) \<or> (\<exists>e. insert_prompts r s = (Inl e, s))"
  unfolding insert_prompts_def by (rule stmt_cases [where eff = "\<lambda>s. ((), s\<lparr>prompts := prompts s @ [r]\<rparr>)", unfolded fst_conv snd_conv])

lemma create_prompt_once_cases:
  "snd (create_prompt_once ws p h c s) = s \<or>
   (\<exists>r. snd (create_prompt_once ws p h c s) = s\<lparr>prompts := prompts s @ [r]\<rparr> \<and> pt_workspace_id r = ws \<and> pt_name r = pr_Name p \<and>
     pt_version r = max_or_0 (prompt_versions ws (pr_Name p) s) + 1)"
proof (cases "versions_with_hash ws (pr_Name p) h s = []")
  case True
  let ?r = "\<lparr>pt_workspace_id = ws, pt_name = pr_Name p, pt_version = max_or_0 (prompt_versions ws (pr_Name p) s) + 1,
      pt_content = pr_Content p, pt_content_hash = h, pt_created_at = c,
      pt_created_by = nilIfEmpty (pr_CreatedBy p), pt_description = nilIfEmpty (pr_Description p)\<rparr>"
  consider "insert_prompts ?r s = (Inr (), s\<lparr>prompts := prompts s @ [?r]\<rparr>)" | e where "insert_prompts ?r s = (Inl e, s)"
    using insert_prompts_cases by blast
  then show ?thesis
  proof cases
    case 1
    with True show ?thesis by (intro disjI2 exI [of _ ?r]) (simp add: create_prompt_once_def sem_simps)
  next
    case 2
    with True show ?thesis by (simp add: create_prompt_once_def sem_simps)
  qed
qed (simp add: create_prompt_once_def sem_simps)

lemma prompts_contiguous_insert:
  assumes "prompts_contiguous s" and "pt_version r = max_or_0 (prompt_versions (pt_workspace_id r) (pt_name r) s) + 1"
  shows "prompts_contiguous (s\<lparr>prompts := prompts s @ [r]\<rparr>)"
  unfolding prompts_contiguous_def
proof (intro allI)
  fix ws nm
  have vs: "set (prompt_versions ws nm s) = {1..int (length (prompt_versions ws nm s))}"
    using assms(1) by (simp add: prompts_contiguous_def)
  show "set (prompt_versions ws nm (s\<lparr>prompts := prompts s @ [r]\<rparr>)) =
      {1..int (length (prompt_versions ws nm (s\<lparr>prompts := prompts s @ [r]\<rparr>)))}"
  proof (cases "pt_workspace_id r = ws \<and> pt_name r = nm")
    case True
    then have "pt_version r = int (length (prompt_versions ws nm s)) + 1"
      using assms(2) contiguous_max [OF vs] by simp
    moreover have "prompt_versions ws nm (s\<lparr>prompts := prompts s @ [r]\<rparr>) = prompt_versions ws nm s @ [pt_version r]"
      using True by (simp add: prompt_versions_def)
    ultimately show ?thesis using vs by auto
  next
    case False
    then have "prompt_versions ws nm (s\<lparr>prompts := prompts s @ [r]\<rparr>) = prompt_versions ws nm s"
      by (auto simp: prompt_versions_def)
    with vs show ?thesis by simp
  qed
qed

lemma prompts_contiguous_fresh: "prompts_contiguous (fresh_db clk n)"
  by (simp add: prompts_contiguous_def prompt_versions_def fresh_db_def)

text \<open>Every call of \<open>CreatePrompt\<close> keeps the numbering, also one that fails.\<close>

lemma keeps_contiguous_CreatePrompt: "keeps prompts_contiguous (CreatePrompt ws p)"
proof -
  have clk: "clockless prompts_contiguous" by (simp add: clockless_def prompts_contiguous_def prompt_versions_def)
  have "keeps prompts_contiguous (create_prompt_once w p h c)" for w h c
  proof (rule keepsI)
    fix s assume "prompts_contiguous s"
    then show "prompts_contiguous (snd (create_prompt_once w p h c s))"
      using create_prompt_once_cases [of w p h c s] prompts_contiguous_insert by auto
  qed
  then show ?thesis
    unfolding CreatePrompt_def by (intro keeps_intros keeps_now [OF clk])
qed

text \<open>
  \<open>GetLatestPrompt\<close> finds a prompt exactly when it has a version, and returns the one with the
  highest number.
\<close>

theorem GetLatestPrompt_highest:
  assumes "db_ok s"
  shows "(case fst (GetLatestPrompt ws nm s) of
      Inl e \<Rightarrow> e = ErrNotFound \<and> (\<forall>ver. fst (GetPromptVersion ws nm ver s) = Inl ErrNotFound)
    | Inr x \<Rightarrow> fst (GetPromptVersion ws nm (pr_Version x) s) = Inr x \<and>
        (\<forall>ver y. fst (GetPromptVersion ws nm ver s) = Inr y \<longrightarrow> ver \<le> pr_Version x))"
proof -
  let ?w = "default_ws ws"
  have pkp: "distinct (map pt_pk (prompts s))" using db_okD(14) [OF assms] by (simp add: prompts_ok_def pk_def)
  have get: "fst (GetPromptVersion ws nm ver s) =
      (case first_row (\<lambda>r. pt_pk r = (?w, nm, ver)) (prompts s) of None \<Rightarrow> Inl ErrNotFound | Some r \<Rightarrow> Inr (prompt_of_row r))" for ver
    by (simp add: GetPromptVersion_def scanPrompt_def sem_simps split: option.split)
  have rows: "set (newest_first ?w nm s) = {r \<in> set (prompts s). pt_workspace_id r = ?w \<and> pt_name r = nm}"
    by (simp add: newest_first_def)
  show ?thesis
  proof (cases "newest_first ?w nm s")
    case Nil
    with rows have "first_row (\<lambda>r. pt_pk r = (?w, nm, ver)) (prompts s) = None" for ver by (auto simp: first_row_None)
    with Nil show ?thesis by (simp add: GetLatestPrompt_def scanPrompt_def sem_simps get)
  next
    case (Cons r rs)
    with rows have r: "r \<in> set (prompts s)" "pt_pk r = (?w, nm, pt_version r)" by auto
    then have "first_row (\<lambda>q. pt_pk q = (?w, nm, pt_version r)) (prompts s) = Some r"
      by (intro first_row_unique [where k = pt_pk]) (use pkp in auto)
    moreover have "sorted (map (\<lambda>r. - pt_version r) (r # rs))"
      using Cons sorted_sort_key [of "\<lambda>r. - pt_version r"] unfolding newest_first_def by metis
    then have "pt_version q \<le> pt_version r" if "q \<in> set (prompts s)" "pt_workspace_id q = ?w" "pt_name q = nm" for q
      using that rows Cons by auto
    then have "ver \<le> pt_version r" if "fst (GetPromptVersion ws nm ver s) = Inr y" for ver y
      using that by (auto simp: get split: option.splits dest!: first_row_Some)
    ultimately show ?thesis using Cons by (simp add: GetLatestPrompt_def scanPrompt_def sem_simps get prompt_of_row_def)
  qed
qed

theorem GetLatestPrompt_highest_witness: "fst (GetLatestPrompt [] ''none'' sample_db) = Inl ErrNotFound"
proof -
  have "fst (GetLatestPrompt [] ''none'' sample_db) \<noteq> Inr x" for x
    by (simp add: GetLatestPrompt_def scanPrompt_def newest_first_def sem_simps)
  then show ?thesis
    using GetLatestPrompt_highest [OF db_ok_sample, of "[]" "''none''"]
    by (cases "fst (GetLatestPrompt [] ''none'' sample_db)") auto
qed

end
