(* ===== verification/Traces.thy ===== *)
theory Traces
  imports Schema
begin

text \<open>
  Trace spans (\<open>internal/store/sqlite.go\<close>, traces section). A batch of spans is written in one
  transaction; a span that exists is updated only by its own trace and run, so a colliding id of
  another tenant cannot overwrite it.
\<close>

section \<open>Statements\<close>

definition span_may_update :: "span_row \<Rightarrow> span_row \<Rightarrow> bool" where
  "span_may_update old new \<longleftrightarrow>
     s_trace_id old = s_trace_id new \<and> (s_run_id old = s_run_id new \<or> s_run_id old = None)"

definition span_upd :: "span_row \<Rightarrow> span_row \<Rightarrow> span_row" where
  "span_upd old new = old\<lparr>
     s_run_id := (case s_run_id old of None \<Rightarrow> s_run_id new | Some r \<Rightarrow> Some r),
     s_end_time := s_end_time new, s_attributes_json := s_attributes_json new, s_events_json := s_events_json new,
     s_status_code := s_status_code new, s_status_message := s_status_message new\<rparr>"

definition run_known :: "db \<Rightarrow> string option \<Rightarrow> bool" where
  "run_known s r = (case r of None \<Rightarrow> True | Some i \<Rightarrow> has_key r_id i (runs s))"

definition parent_known :: "db \<Rightarrow> span_row \<Rightarrow> bool" where
  "parent_known s n = (case s_parent_id n of None \<Rightarrow> True | Some i \<Rightarrow> i = s_id n \<or> has_key s_id i (traces s))"

text \<open>\<open>INSERT INTO traces ... ON CONFLICT(id) DO UPDATE ... WHERE\<close> with the number of rows it wrote.\<close>

definition upsert_traces :: "span_row \<Rightarrow> nat op" where
  "upsert_traces n = stmt
     (\<lambda>s. case first_row (\<lambda>r. s_id r = s_id n) (traces s) of
        None \<Rightarrow> if run_known s (s_run_id n) \<and> parent_known s n then None else Some ErrForeignKey
      | Some old \<Rightarrow> if \<not> span_may_update old n \<or> run_known s (s_run_id (span_upd old n)) then None else Some ErrForeignKey)
     (\<lambda>s. case first_row (\<lambda>r. s_id r = s_id n) (traces s) of
        None \<Rightarrow> (1, s\<lparr>traces := traces s @ [n]\<rparr>)
      | Some old \<Rightarrow> if span_may_update old n
          then (1, s\<lparr>traces := update_where (\<lambda>r. s_id r = s_id n) (\<lambda>r. span_upd r n) (traces s)\<rparr>)
          else (0, s))"

section \<open>Methods\<close>

definition span_row_of :: "Span \<Rightarrow> span_row" where
  "span_row_of sp = \<lparr>
     s_id = sp_ID sp, s_trace_id = sp_TraceID sp, s_parent_id = nilIfEmpty (sp_ParentID sp), s_run_id = nilIfEmpty (sp_RunID sp),
     s_name = sp_Name sp, s_span_kind = nilIfEmpty (sp_Kind sp), s_start_time = sp_StartTimeNS sp, s_end_time = sp_EndTimeNS sp,
     s_attributes_json = nilIfEmpty (sp_AttributesJSON sp), s_events_json = nilIfEmpty (sp_EventsJSON sp),
     s_status_code = nilIfEmpty (sp_StatusCode sp), s_status_message = nilIfEmpty (sp_StatusMessage sp)\<rparr>"

text \<open>\<open>gen i\<close> is the id \<open>NewSpanID\<close> returns for the \<open>i\<close>-th span of the batch.\<close>

definition fill_span :: "string \<Rightarrow> Span \<Rightarrow> Span" where
  "fill_span new sp =
     (let sp = (if sp_ID sp = [] then sp\<lparr>sp_ID := new\<rparr> else sp)
      in if sp_TraceID sp = [] then sp\<lparr>sp_TraceID := sp_ID sp\<rparr> else sp)"

definition insert_span :: "span_row \<Rightarrow> unit op" where
  "insert_span r = bnd (upsert_traces r) (\<lambda>n. require (n \<noteq> 0) ErrConflict)"

definition InsertSpans :: "(nat \<Rightarrow> 8 word list option \<times> 64 word) \<Rightarrow> Span list \<Rightarrow> unit op" where
  "InsertSpans rnd spans =
     (if spans = [] then ret ()
      else tx (for_each (\<lambda>(i, sp). insert_span (span_row_of (fill_span (NewSpanID (fst (rnd i)) (snd (rnd i))) sp)))
        (enumerate 0 spans)))"

definition span_of_row :: "span_row \<Rightarrow> Span" where
  "span_of_row r = \<lparr>
     sp_ID = s_id r, sp_TraceID = s_trace_id r, sp_ParentID = coalesce (s_parent_id r), sp_RunID = coalesce (s_run_id r),
     sp_Name = s_name r, sp_Kind = coalesce (s_span_kind r), sp_StartTimeNS = s_start_time r, sp_EndTimeNS = s_end_time r,
     sp_AttributesJSON = coalesce (s_attributes_json r), sp_EventsJSON = coalesce (s_events_json r),
     sp_StatusCode = coalesce (s_status_code r), sp_StatusMessage = coalesce (s_status_message r)\<rparr>"

text \<open>Both queries order by start time; equal times keep the table's order.\<close>

definition querySpans :: "(span_row \<Rightarrow> bool) \<Rightarrow> db \<Rightarrow> Span list" where
  "querySpans p s = map span_of_row (sort_key s_start_time (filter p (traces s)))"

definition GetSpansByRun :: "string \<Rightarrow> db \<Rightarrow> Span list" where
  "GetSpansByRun runID s = querySpans (\<lambda>r. s_run_id r = Some runID) s"

definition GetSpansByTrace :: "string \<Rightarrow> db \<Rightarrow> Span list" where
  "GetSpansByTrace traceID s = querySpans (\<lambda>r. s_trace_id r = traceID) s"

section \<open>Integrity\<close>

lemma span_upd_sel [simp]:
  "s_id (span_upd old new) = s_id old" "s_trace_id (span_upd old new) = s_trace_id old"
  "s_parent_id (span_upd old new) = s_parent_id old" "s_name (span_upd old new) = s_name old"
  "s_start_time (span_upd old new) = s_start_time old" "s_span_kind (span_upd old new) = s_span_kind old"
  by (simp_all add: span_upd_def)

lemma traces_ok_insert:
  assumes "traces_ok R ts" and "s_id n \<notin> keys s_id ts" and "case s_run_id n of None \<Rightarrow> True | Some i \<Rightarrow> i \<in> R"
    and "case s_parent_id n of None \<Rightarrow> True | Some i \<Rightarrow> i = s_id n \<or> i \<in> keys s_id ts"
  shows "traces_ok R (ts @ [n])"
proof -
  have "fk_null s_parent_id ts (keys s_id (ts @ [n]))"
    using assms(1) by (auto simp: traces_ok_def intro: fk_null_mono)
  then show ?thesis using assms by (auto simp: traces_ok_def schema_rules split: option.splits)
qed

lemma traces_ok_update:
  assumes "traces_ok R ts" and "\<And>r. r \<in> set ts \<Longrightarrow> s_id r = s_id n \<Longrightarrow> case s_run_id (span_upd r n) of None \<Rightarrow> True | Some i \<Rightarrow> i \<in> R"
  shows "traces_ok R (update_where (\<lambda>r. s_id r = s_id n) (\<lambda>r. span_upd r n) ts)"
proof -
  have "fk_null s_run_id (update_where (\<lambda>r. s_id r = s_id n) (\<lambda>r. span_upd r n) ts) R"
    using assms by (auto simp: traces_ok_def fk_null_def update_where_def)
  then show ?thesis using assms(1) by (simp add: traces_ok_def update_where_rules)
qed

lemma first_row_same:
  assumes "pk k rs" and "first_row (\<lambda>r. k r = x) rs = Some old" and "r \<in> set rs" and "k r = x"
  shows "r = old"
  using assms first_row_Some [OF assms(2)] by (auto simp: pk_def distinct_map inj_on_def)

lemma keeps_upsert_traces [keeps_intros]: "keeps db_ok (upsert_traces n)"
  unfolding upsert_traces_def
proof (rule keeps_stmt, goal_cases)
  case (1 s)
  have tr: "traces_ok (keys r_id (runs s)) (traces s)" using db_okD(12) [OF 1(1)] .
  show ?case
  proof (cases "first_row (\<lambda>r. s_id r = s_id n) (traces s)")
    case None
    then have "s_id n \<notin> keys s_id (traces s)" by (simp add: first_row_keys)
    then have "traces_ok (keys r_id (runs s)) (traces s @ [n])"
      using tr 1(2) None
      by (intro traces_ok_insert) (auto simp: run_known_def parent_known_def has_key_iff split: if_splits option.splits)
    with None 1(1) show ?thesis by (simp add: db_ok_def)
  next
    case (Some old)
    have pkt: "pk s_id (traces s)" using tr by (simp add: traces_ok_def)
    have "traces_ok (keys r_id (runs s)) (update_where (\<lambda>r. s_id r = s_id n) (\<lambda>r. span_upd r n) (traces s))"
      if "span_may_update old n"
      using tr 1(2) Some that first_row_same [OF pkt Some]
      by (intro traces_ok_update) (auto simp: run_known_def has_key_iff split: if_splits option.splits)
    with Some 1(1) show ?thesis by (simp add: db_ok_def)
  qed
qed

lemma keeps_insert_span [keeps_intros]: "keeps db_ok (insert_span r)"
  unfolding insert_span_def by (intro keeps_intros)

lemma keeps_InsertSpans [keeps_intros]: "keeps db_ok (InsertSpans rnd spans)"
  unfolding InsertSpans_def by (intro keeps_intros) (auto intro: keeps_intros)

section \<open>Behaviour\<close>

text \<open>What a later write may not change of a span.\<close>

definition span_identity :: "span_row \<Rightarrow> string \<times> string \<times> string option \<times> string \<times> string option \<times> int" where
  "span_identity r = (s_id r, s_trace_id r, s_parent_id r, s_name r, s_span_kind r, s_start_time r)"

definition spans_kept :: "span_row list \<Rightarrow> span_row list \<Rightarrow> bool" where
  "spans_kept rs qs \<longleftrightarrow>
     (\<forall>r\<in>set rs. \<exists>q\<in>set qs. span_identity q = span_identity r \<and> (s_run_id r \<noteq> None \<longrightarrow> s_run_id q = s_run_id r))"

lemma spans_kept_refl: "spans_kept rs rs"
  by (auto simp: spans_kept_def)

lemma spans_kept_trans: "spans_kept rs qs \<Longrightarrow> spans_kept qs ts \<Longrightarrow> spans_kept rs ts"
  unfolding spans_kept_def by metis

lemma spans_kept_upd: "spans_kept rs (update_where p (\<lambda>r. span_upd r n) rs)"
  unfolding spans_kept_def
proof
  fix r assume "r \<in> set rs"
  then have "(if p r then span_upd r n else r) \<in> set (update_where p (\<lambda>r. span_upd r n) rs)"
    by (auto simp: update_where_def)
  then show "\<exists>q\<in>set (update_where p (\<lambda>r. span_upd r n) rs).
      span_identity q = span_identity r \<and> (s_run_id r \<noteq> None \<longrightarrow> s_run_id q = s_run_id r)"
    by (rule bexI [rotated]) (auto simp: span_identity_def span_upd_def)
qed

lemma upsert_traces_kept: "spans_kept (traces s) (traces (snd (upsert_traces n s)))"
proof -
  have "spans_kept (traces s) (traces s @ [n])" by (auto simp: spans_kept_def)
  then show ?thesis
    using spans_kept_refl spans_kept_upd
    by (simp add: upsert_traces_def stmt_apply split: option.split)
qed

lemma for_each_spans_kept:
  "spans_kept (traces s) (traces (snd (for_each (\<lambda>x. insert_span (f x)) xs s)))"
proof (induction xs arbitrary: s)
  case Nil
  then show ?case by (simp add: sem_simps spans_kept_refl)
next
  case (Cons x xs)
  have 1: "spans_kept (traces s) (traces (snd (insert_span (f x) s)))"
    unfolding insert_span_def snd_bnd_require by (rule upsert_traces_kept)
  show ?case
  proof (cases "insert_span (f x) s")
    case (Pair r t)
    with 1 have "spans_kept (traces s) (traces t)" by simp
    with Pair Cons.IH [of t] show ?thesis by (cases r) (auto simp: bnd_def intro: spans_kept_trans)
  qed
qed


text \<open>A batch whose spans are new: ids given, distinct and free, runs known, parents stored or earlier in the batch.\<close>

fun fresh_batch :: "db \<Rightarrow> string set \<Rightarrow> Span list \<Rightarrow> bool" where
  "fresh_batch s known [] \<longleftrightarrow> True"
| "fresh_batch s known (sp # sps) \<longleftrightarrow>
     sp_ID sp \<noteq> [] \<and> sp_TraceID sp \<noteq> [] \<and> sp_ID sp \<notin> known \<and>
     (sp_RunID sp = [] \<or> sp_RunID sp \<in> keys r_id (runs s)) \<and> (sp_ParentID sp = [] \<or> sp_ParentID sp \<in> insert (sp_ID sp) known) \<and>
     fresh_batch s (insert (sp_ID sp) known) sps"

lemma span_of_row_of [simp]: "span_of_row (span_row_of sp) = sp"
  by (simp add: span_of_row_def span_row_of_def)

lemma fill_span_id: "sp_ID sp \<noteq> [] \<Longrightarrow> sp_TraceID sp \<noteq> [] \<Longrightarrow> fill_span new sp = sp"
  by (simp add: fill_span_def Let_def)

lemma fresh_batch_loop:
  "fresh_batch s (keys s_id ts) sps \<Longrightarrow>
    for_each (\<lambda>(i, sp). insert_span (span_row_of (fill_span (gen i) sp))) (enumerate k sps) (s\<lparr>traces := ts\<rparr>) =
      (Inr (), s\<lparr>traces := ts @ map span_row_of sps\<rparr>)"
proof (induction sps arbitrary: ts k)
  case Nil
  then show ?case by (simp add: sem_simps)
next
  case (Cons sp sps)
  let ?n = "span_row_of sp"
  have sel: "s_id ?n = sp_ID sp" "s_run_id ?n = nilIfEmpty (sp_RunID sp)" "s_parent_id ?n = nilIfEmpty (sp_ParentID sp)"
    by (simp_all add: span_row_of_def)
  from Cons.prems have "first_row (\<lambda>r. s_id r = s_id ?n) ts = None" by (simp add: first_row_keys sel)
  then have "insert_span ?n (s\<lparr>traces := ts\<rparr>) = (Inr (), s\<lparr>traces := ts @ [?n]\<rparr>)"
    using Cons.prems
    by (auto simp: insert_span_def upsert_traces_def sem_simps run_known_def parent_known_def has_key_iff sel nilIfEmpty_def)
  moreover have "fresh_batch s (keys s_id (ts @ [?n])) sps" using Cons.prems by (simp add: sel)
  ultimately show ?case
    using Cons.prems Cons.IH [of "ts @ [?n]" "Suc k"] by (simp add: bnd_ok fill_span_id)
qed

text \<open>
  A batch of new spans is stored as given: reading any trace returns its stored spans and those of the
  batch with that trace, in order of start time.
\<close>

theorem InsertSpans_GetSpansByTrace:
  assumes "fresh_batch s (keys s_id (traces s)) spans"
  shows "\<exists>t. InsertSpans rnd spans s = (Inr (), t) \<and>
    (\<forall>tid. GetSpansByTrace tid t = sort_key sp_StartTimeNS
      (map span_of_row (filter (\<lambda>r. s_trace_id r = tid) (traces s)) @ filter (\<lambda>sp. sp_TraceID sp = tid) spans))"
proof -
  let ?t = "s\<lparr>traces := traces s @ map span_row_of spans\<rparr>"
  have run: "InsertSpans rnd spans s = (Inr (), ?t)"
    using fresh_batch_loop [of s "traces s" spans _ 0, OF assms]
    by (cases "spans = []") (simp_all add: InsertSpans_def sem_simps)
  have sort: "map span_of_row (sort_key s_start_time rs) = sort_key sp_StartTimeNS (map span_of_row rs)" for rs
    by (rule sort_key_map [symmetric]) (simp add: span_of_row_def)
  have row_trace: "s_trace_id (span_row_of sp) = sp_TraceID sp" for sp by (simp add: span_row_of_def)
  have "map span_of_row (filter (\<lambda>r. s_trace_id r = tid) (map span_row_of sps)) = filter (\<lambda>sp. sp_TraceID sp = tid) sps" for tid sps
    by (induction sps) (simp_all add: row_trace)
  then have "GetSpansByTrace tid ?t = sort_key sp_StartTimeNS
      (map span_of_row (filter (\<lambda>r. s_trace_id r = tid) (traces s)) @ filter (\<lambda>sp. sp_TraceID sp = tid) spans)" for tid
    by (simp add: GetSpansByTrace_def querySpans_def sort)
  with run show ?thesis by blast
qed

definition sample_span :: "string \<Rightarrow> string \<Rightarrow> int \<Rightarrow> Span" where
  "sample_span i parent start = \<lparr>sp_ID = i, sp_TraceID = ''t'', sp_ParentID = parent, sp_RunID = ''r1'', sp_Name = ''llm'', sp_Kind = [],
     sp_StartTimeNS = start, sp_EndTimeNS = None, sp_AttributesJSON = [], sp_EventsJSON = [], sp_StatusCode = [], sp_StatusMessage = []\<rparr>"

theorem InsertSpans_GetSpansByTrace_witness:
  "\<exists>t. InsertSpans (\<lambda>_. (None, 0)) [sample_span ''b'' [] 20, sample_span ''a'' ''b'' 10] sample_db = (Inr (), t) \<and>
    map sp_ID (GetSpansByTrace ''t'' t) = [''a'', ''b'']"
proof -
  have "fresh_batch sample_db (keys s_id (traces sample_db)) [sample_span ''b'' [] 20, sample_span ''a'' ''b'' 10]"
    by (simp add: sample_span_def sample_run_def sample_db_def fresh_db_def)
  from InsertSpans_GetSpansByTrace [OF this, of "\<lambda>_. (None, 0)"] show ?thesis
    by (auto simp: sample_db_def fresh_db_def sample_span_def)
qed

end
