(* ===== verification/Walk.thy ===== *)
theory Walk
  imports Prelude
begin

text \<open>
  The bounded breadth-first walk that the lineage queries share: a frontier of ids, a visited set that
  stops cycles, a cap on the number of rows collected. \<open>walk\<close> terminates because every level that has a
  successor visits a row that was not visited; what it collects is what can be reached from the
  frontier, all of it when the cap is not met.
\<close>

text \<open>One level: visit the ids of the frontier, collect their rows and the successors of those.\<close>

fun visit_all ::
  "nat \<Rightarrow> ('r \<Rightarrow> 'i) \<Rightarrow> ('i \<Rightarrow> 'i list) \<Rightarrow> 'r list \<Rightarrow> 'i list \<Rightarrow> 'i set \<times> 'r list \<times> 'i list \<Rightarrow> bool \<times> 'i set \<times> 'r list \<times> 'i list" where
  "visit_all mx key succs tbl [] w = (False, w)"
| "visit_all mx key succs tbl (i # is) (vis, out, nxt) =
     (if mx \<le> length out then (True, vis, out, nxt)
      else if i \<in> vis then visit_all mx key succs tbl is (vis, out, nxt)
      else case first_row (\<lambda>r. key r = i) tbl of
             None \<Rightarrow> visit_all mx key succs tbl is (insert i vis, out, nxt)
           | Some r \<Rightarrow> visit_all mx key succs tbl is (insert i vis, out @ [r], nxt @ succs i))"

text \<open>What a level does, in terms of the rows \<open>rs\<close> it collects.\<close>

lemma visit_all_rows:
  assumes "visit_all mx key succs tbl is (vis, out, nxt) = (stop, vis', out', nxt')"
  shows "\<exists>rs. out' = out @ rs \<and> nxt' = nxt @ concat (map (\<lambda>r. succs (key r)) rs) \<and> distinct (map key rs) \<and>
    set rs \<subseteq> set tbl \<and> key ` set rs = (vis' - vis) \<inter> key ` set tbl \<and> vis \<subseteq> vis' \<and> vis' \<subseteq> vis \<union> set is \<and>
    (\<not> stop \<longrightarrow> set is \<subseteq> vis') \<and> (stop \<longrightarrow> mx \<le> length out') \<and> (length out \<le> mx \<longrightarrow> length out' \<le> mx)"
  using assms
proof (induction "is" arbitrary: vis out nxt)
  case Nil
  then show ?case by (intro exI [of _ "[]"]) auto
next
  case (Cons i "is")
  show ?case
  proof (cases "mx \<le> length out \<or> i \<in> vis")
    case True
    then show ?thesis
    proof
      assume "mx \<le> length out"
      with Cons.prems show ?thesis by (intro exI [of _ "[]"]) auto
    next
      assume i: "i \<in> vis"
      show ?thesis
      proof (cases "mx \<le> length out")
        case True
        with Cons.prems show ?thesis by (intro exI [of _ "[]"]) auto
      next
        case False
        with i Cons.prems have "visit_all mx key succs tbl is (vis, out, nxt) = (stop, vis', out', nxt')" by simp
        from Cons.IH [OF this] i show ?thesis by auto
      qed
    qed
  next
    case new: False
    show ?thesis
    proof (cases "first_row (\<lambda>r. key r = i) tbl")
      case None
      then have no: "i \<notin> key ` set tbl" by (auto simp: first_row_None)
      from new None Cons.prems have "visit_all mx key succs tbl is (insert i vis, out, nxt) = (stop, vis', out', nxt')" by simp
      from Cons.IH [OF this] no show ?thesis by auto
    next
      case (Some r)
      then have r: "r \<in> set tbl" "key r = i" by (auto dest: first_row_Some)
      from new Some Cons.prems
      have "visit_all mx key succs tbl is (insert i vis, out @ [r], nxt @ succs i) = (stop, vis', out', nxt')" by simp
      from Cons.IH [OF this] obtain rs where rs: "out' = (out @ [r]) @ rs" "nxt' = (nxt @ succs i) @ concat (map (\<lambda>r. succs (key r)) rs)"
          "distinct (map key rs)" "set rs \<subseteq> set tbl" "key ` set rs = (vis' - insert i vis) \<inter> key ` set tbl"
          "insert i vis \<subseteq> vis'" "vis' \<subseteq> insert i vis \<union> set is"
          "\<not> stop \<longrightarrow> set is \<subseteq> vis'" "stop \<longrightarrow> mx \<le> length out'" "length (out @ [r]) \<le> mx \<longrightarrow> length out' \<le> mx" by blast
      have "key ` set (r # rs) = (vis' - vis) \<inter> key ` set tbl" using rs(5,6) r new by auto
      moreover have "distinct (map key (r # rs))" using rs(3,5) r by auto
      ultimately show ?thesis using rs r new by (intro exI [of _ "r # rs"]) auto
    qed
  qed
qed

lemma visit_all_full: "mx \<le> length out \<Longrightarrow> visit_all mx key succs tbl is (vis, out, nxt) = (is \<noteq> [], vis, out, nxt)"
  by (cases "is") simp_all

lemma visit_all_append:
  "visit_all mx key succs tbl (is @ js) w =
    (case visit_all mx key succs tbl is w of (stop, w') \<Rightarrow> if stop then (True, w') else visit_all mx key succs tbl js w')"
proof (induction "is" arbitrary: w)
  case (Cons i "is")
  obtain vis out nxt where "w = (vis, out, nxt)" by (cases w) auto
  with Cons show ?case by (simp split: option.split)
qed simp

text \<open>The walk, level by level.\<close>

function walk ::
  "nat \<Rightarrow> ('r \<Rightarrow> 'i) \<Rightarrow> ('i \<Rightarrow> 'i list) \<Rightarrow> 'r list \<Rightarrow> 'i list \<Rightarrow> 'i set \<Rightarrow> 'r list \<Rightarrow> 'i set \<times> 'r list" where
  "walk mx key succs tbl frontier vis out =
     (if frontier = [] then (vis, out)
      else case visit_all mx key succs tbl frontier (vis, out, []) of
        (stop, vis', out', nxt) \<Rightarrow> if stop then (vis', out') else walk mx key succs tbl nxt vis' out')"
  by pat_completeness auto
termination
proof (relation "measure (\<lambda>(mx, key, succs, tbl, frontier, vis, out).
    2 * card (key ` set tbl - vis) + (if frontier = [] then 0 else 1))", goal_cases)
  case (2 mx key succs tbl frontier vis out stop y vis' z out' nxt)
  let ?K = "key ` set tbl"
  from 2 have v: "visit_all mx key succs tbl frontier (vis, out, []) = (stop, vis', out', nxt)" by simp
  from visit_all_rows [OF v] obtain rs where rs: "nxt = concat (map (\<lambda>r. succs (key r)) rs)"
    "key ` set rs = (vis' - vis) \<inter> ?K" "vis \<subseteq> vis'" by auto
  show ?case
  proof (cases "rs = []")
    case True
    with rs have "nxt = []" "?K - vis' = ?K - vis" by auto
    with 2(1) show ?thesis by simp
  next
    case False
    then have "?K - vis' \<subset> ?K - vis" using rs(2,3) by (cases rs) auto
    then have "card (?K - vis') < card (?K - vis)" by (intro psubset_card_mono) simp_all
    with 2(1) show ?thesis by auto
  qed
qed simp

declare walk.simps [simp del]

lemma walk_full: "mx \<le> length out \<Longrightarrow> walk mx key succs tbl frontier vis out = (vis, out)"
  by (simp add: walk.simps visit_all_full)

definition step_rel :: "('r \<Rightarrow> 'i) \<Rightarrow> ('i \<Rightarrow> 'i list) \<Rightarrow> 'r list \<Rightarrow> ('i \<times> 'i) set" where
  "step_rel key succs tbl = {(i, j). i \<in> key ` set tbl \<and> j \<in> set (succs i)}"

text \<open>
  The result of a walk: the rows it adds have distinct ids, none visited before, all reachable from the
  frontier; the cap holds; and when the cap is not met the visited set has swallowed the frontier and
  the successors of what it added.
\<close>

lemma walk_rows:
  assumes "walk mx key succs tbl frontier vis out = (vis', out')"
  shows "\<exists>rs. out' = out @ rs \<and> distinct (map key rs) \<and> set rs \<subseteq> set tbl \<and>
    key ` set rs = (vis' - vis) \<inter> key ` set tbl \<and> vis \<subseteq> vis' \<and>
    vis' \<subseteq> vis \<union> (step_rel key succs tbl)\<^sup>* `` set frontier \<and>
    (length out \<le> mx \<longrightarrow> length out' \<le> mx) \<and>
    (length out' < mx \<longrightarrow> set frontier \<subseteq> vis' \<and> (\<forall>r\<in>set rs. set (succs (key r)) \<subseteq> vis'))"
  using assms
proof (induction mx key succs tbl frontier vis out arbitrary: vis' out' rule: walk.induct)
  case (1 mx key succs tbl frontier vis out)
  let ?R = "step_rel key succs tbl"
  show ?case
  proof (cases "frontier = []")
    case True
    with 1(2) show ?thesis by (intro exI [of _ "[]"]) (auto simp: walk.simps)
  next
    case False
    obtain stop v1 o1 nxt where v: "visit_all mx key succs tbl frontier (vis, out, []) = (stop, v1, o1, nxt)"
      by (metis prod_cases4)
    from visit_all_rows [OF v] obtain rs where rs: "o1 = out @ rs" "nxt = concat (map (\<lambda>r. succs (key r)) rs)"
      "distinct (map key rs)" "set rs \<subseteq> set tbl" "key ` set rs = (v1 - vis) \<inter> key ` set tbl" "vis \<subseteq> v1"
      "v1 \<subseteq> vis \<union> set frontier" "\<not> stop \<longrightarrow> set frontier \<subseteq> v1" "stop \<longrightarrow> mx \<le> length o1"
      "length out \<le> mx \<longrightarrow> length o1 \<le> mx" by auto
    have front: "set frontier \<subseteq> ?R\<^sup>* `` set frontier" by auto
    have succ: "set nxt \<subseteq> ?R `` set frontier"
      using rs(2,4,5,7) by (auto simp: step_rel_def image_iff)
    show ?thesis
    proof (cases stop)
      case True
      with 1(2) False v have "vis' = v1" "out' = o1" by (auto simp: walk.simps [of _ _ _ _ frontier])
      with rs True front show ?thesis by (intro exI [of _ rs]) auto
    next
      case ns: False
      with 1(2) False v have "walk mx key succs tbl nxt v1 o1 = (vis', out')" by (auto simp: walk.simps [of _ _ _ _ frontier])
      from 1(1) [OF False v [symmetric] refl refl ns this] obtain qs where qs: "out' = o1 @ qs" "distinct (map key qs)"
        "set qs \<subseteq> set tbl" "key ` set qs = (vis' - v1) \<inter> key ` set tbl" "v1 \<subseteq> vis'" "vis' \<subseteq> v1 \<union> ?R\<^sup>* `` set nxt"
        "length o1 \<le> mx \<longrightarrow> length out' \<le> mx"
        "length out' < mx \<longrightarrow> set nxt \<subseteq> vis' \<and> (\<forall>r\<in>set qs. set (succs (key r)) \<subseteq> vis')" by blast
      have "?R\<^sup>* `` set nxt \<subseteq> ?R\<^sup>* `` set frontier"
        using succ by (auto intro: converse_rtrancl_into_rtrancl)
      then have "vis' \<subseteq> vis \<union> ?R\<^sup>* `` set frontier" using qs(6) rs(7) front by blast
      moreover have "key ` set (rs @ qs) = (vis' - vis) \<inter> key ` set tbl"
        unfolding set_append image_Un rs(5) qs(4) using rs(6) qs(5) by blast
      moreover have "distinct (map key (rs @ qs))" using rs(3,5) qs(2,4) by auto
      moreover have "set frontier \<subseteq> vis' \<and> (\<forall>r\<in>set (rs @ qs). set (succs (key r)) \<subseteq> vis')" if "length out' < mx"
        using that qs(5,8) rs(2,8) ns by auto
      ultimately show ?thesis using rs(1,4,6,10) qs(1,3,5,7) by (intro exI [of _ "rs @ qs"]) auto
    qed
  qed
qed

lemma walk_bounded: "walk mx key succs tbl frontier vis [] = (vis', out') \<Longrightarrow> length out' \<le> mx"
  using walk_rows [of mx key succs tbl frontier vis "[]"] by auto

text \<open>
  When the cap is not met and nothing reachable was visited before except the start set \<open>E\<close>, whose successors
  make up the frontier, the walk collects everything that can be reached.
\<close>

lemma walk_complete:
  assumes w: "walk mx key succs tbl frontier vis [] = (vis', out')" and cap: "length out' < mx"
    and E: "E \<subseteq> vis" "\<And>i. i \<in> E \<Longrightarrow> i \<in> key ` set tbl \<Longrightarrow> set (succs i) \<subseteq> vis \<union> set frontier"
    and front: "set frontier \<subseteq> step_rel key succs tbl `` E"
    and sep: "(step_rel key succs tbl)\<^sup>+ `` E \<inter> vis = {}"
  shows "key ` set out' = (step_rel key succs tbl)\<^sup>+ `` E \<inter> key ` set tbl"
proof
  let ?R = "step_rel key succs tbl"
  from walk_rows [OF w] cap have r: "key ` set out' = (vis' - vis) \<inter> key ` set tbl" "vis \<subseteq> vis'"
    "vis' \<subseteq> vis \<union> ?R\<^sup>* `` set frontier" "set frontier \<subseteq> vis'" "\<And>r. r \<in> set out' \<Longrightarrow> set (succs (key r)) \<subseteq> vis'" by auto
  have "?R\<^sup>* `` set frontier \<subseteq> ?R\<^sup>+ `` E"
  proof
    fix j assume "j \<in> ?R\<^sup>* `` set frontier"
    then obtain i where i: "i \<in> set frontier" "(i, j) \<in> ?R\<^sup>*" by auto
    then obtain e where "e \<in> E" "(e, i) \<in> ?R" using front by auto
    with i(2) show "j \<in> ?R\<^sup>+ `` E" by (auto intro: rtrancl_into_trancl2)
  qed
  then show "key ` set out' \<subseteq> ?R\<^sup>+ `` E \<inter> key ` set tbl" using r(1,3) by blast
  show "?R\<^sup>+ `` E \<inter> key ` set tbl \<subseteq> key ` set out'"
  proof
    fix j assume j: "j \<in> ?R\<^sup>+ `` E \<inter> key ` set tbl"
    then obtain i where "(i, j) \<in> ?R\<^sup>+" "i \<in> E" by auto
    from this(1) have "j \<in> vis'"
    proof (induction rule: trancl_induct)
      case (base y)
      with \<open>i \<in> E\<close> E(2) r(2,4) show ?case by (auto simp: step_rel_def)
    next
      case (step y z)
      from step(1) \<open>i \<in> E\<close> sep have "y \<notin> vis" by blast
      moreover from step(2) have "y \<in> key ` set tbl" by (auto simp: step_rel_def)
      ultimately have "y \<in> key ` set out'" using step(3) r(1) by blast
      then show ?case using step(2) r(5) by (auto simp: step_rel_def)
    qed
    moreover have "j \<notin> vis" using j sep by blast
    ultimately show "j \<in> key ` set out'" using j r(1) by blast
  qed
qed

text \<open>The walk that starts at the successors of one row, of a set nothing of which was visited before.\<close>

lemma walk_part:
  assumes w: "walk mx key succs tbl frontier vis [] = (vis', out')" and R: "R = step_rel key succs tbl"
    and front: "set frontier = R `` {e}" and e: "e \<in> vis" and sep: "R\<^sup>+ `` {e} \<inter> vis = {}" and closed: "R\<^sup>+ `` {e} \<subseteq> key ` set tbl"
  shows "distinct (map key out')" and "length out' \<le> mx" and "set out' \<subseteq> set tbl" and "key ` set out' \<subseteq> R\<^sup>+ `` {e}"
    and "length out' < mx \<Longrightarrow> key ` set out' = R\<^sup>+ `` {e}" and "vis' \<subseteq> vis \<union> R\<^sup>+ `` {e}"
proof -
  have "R\<^sup>* `` set frontier \<subseteq> R\<^sup>+ `` {e}" unfolding front by (auto intro: rtrancl_into_trancl2)
  moreover from walk_rows [OF w, folded R] have "distinct (map key out')" "set out' \<subseteq> set tbl" "key ` set out' = (vis' - vis) \<inter> key ` set tbl"
    "vis' \<subseteq> vis \<union> R\<^sup>* `` set frontier" by auto
  ultimately show "distinct (map key out')" "set out' \<subseteq> set tbl" "key ` set out' \<subseteq> R\<^sup>+ `` {e}" "vis' \<subseteq> vis \<union> R\<^sup>+ `` {e}" by blast+
  show "length out' \<le> mx" by (rule walk_bounded [OF w])
  assume "length out' < mx"
  then show "key ` set out' = R\<^sup>+ `` {e}"
    using walk_complete [OF w, of "{e}"] front e sep closed by (auto simp: R step_rel_def)
qed

end
