(* ===== verification/Datasets.thy ===== *)
theory Datasets
  imports Runs Walk
begin

text \<open>
  Versioned datasets with lineage (\<open>internal/store/sqlite_datasets_v2.go\<close>) and the dataset inputs of
  runs (\<open>internal/store/sqlite.go\<close>, \<open>LogInputs\<close> and \<open>GetRunDatasets\<close>). A dataset version is derived
  from parents of the same workspace; every edge points to a smaller id, so the lineage has no cycle.
\<close>

section \<open>Statements\<close>

definition insert_datasets_v2 :: "(int \<Rightarrow> dataset_row) \<Rightarrow> int op" where
  "insert_datasets_v2 mk = stmt
     (\<lambda>s. let r = mk (datasets_v2_seq s + 1) in
       if d_lifecycle_stage r \<notin> run_stages then Some ErrCheck
       else if has_key d_key (d_key r) (datasets_v2 s) then Some ErrUnique else None)
     (\<lambda>s. let i = datasets_v2_seq s + 1 in (i, s\<lparr>datasets_v2_seq := i, datasets_v2 := datasets_v2 s @ [(mk i)\<lparr>d_id := i\<rparr>]\<rparr>))"

text \<open>\<open>INSERT INTO dataset_lineage ... ON CONFLICT DO NOTHING\<close>\<close>

definition insert_lineage :: "int \<Rightarrow> int \<Rightarrow> unit op" where
  "insert_lineage child parent = stmt
     (\<lambda>s. if (child, parent) \<in> set (dataset_lineage s) then None
       else if has_key d_id child (datasets_v2 s) \<and> has_key d_id parent (datasets_v2 s) then None else Some ErrForeignKey)
     (\<lambda>s. ((), if (child, parent) \<in> set (dataset_lineage s) then s
       else s\<lparr>dataset_lineage := dataset_lineage s @ [(child, parent)]\<rparr>))"

definition update_dataset_stage :: "string \<Rightarrow> string \<Rightarrow> int \<Rightarrow> nat op" where
  "update_dataset_stage ws nm ver = stmt (\<lambda>s. None)
     (\<lambda>s. (count_where (\<lambda>d. d_key d = (ws, nm, ver)) (datasets_v2 s),
       s\<lparr>datasets_v2 := update_where (\<lambda>d. d_key d = (ws, nm, ver)) (\<lambda>d. d\<lparr>d_lifecycle_stage := ''deleted''\<rparr>) (datasets_v2 s)\<rparr>))"

section \<open>Dataset versions\<close>

record DatasetVersion =
  dv_ID :: int
  dv_Name :: string
  dv_Version :: int
  dv_ContentHash :: string
  dv_SizeBytes :: int
  dv_SchemaJSON :: string
  dv_Description :: string
  dv_WorkspaceID :: string
  dv_CreatedAt :: int
  dv_CreatedBy :: string
  dv_LifecycleStage :: string
  dv_Parents :: "int list"

definition next_dataset_version :: "string \<Rightarrow> string \<Rightarrow> db \<Rightarrow> int" where
  "next_dataset_version ws nm s =
     max_or_0 (map d_version (filter (\<lambda>d. d_workspace_id d = ws \<and> d_name d = nm) (datasets_v2 s))) + 1"

definition check_parent :: "string \<Rightarrow> int \<Rightarrow> unit op" where
  "check_parent ws pid =
     bnd (gets (\<lambda>s. first_row (\<lambda>d. d_id d = pid) (datasets_v2 s))) (\<lambda>row.
     case row of None \<Rightarrow> throw (ErrOther ''parent dataset not found'')
     | Some p \<Rightarrow> require (d_workspace_id p = ws) (ErrOther ''parent is in another workspace''))"

definition createDatasetVersionOnce :: "DatasetVersion \<Rightarrow> int list \<Rightarrow> DatasetVersion op" where
  "createDatasetVersionOnce d parents =
     tx (
       bnd (for_each (check_parent (dv_WorkspaceID d)) parents) (\<lambda>_.
       bnd (gets (next_dataset_version (dv_WorkspaceID d) (dv_Name d))) (\<lambda>ver.
       bnd (insert_datasets_v2 (\<lambda>i. \<lparr>
              d_id = i, d_name = dv_Name d, d_version = ver, d_content_hash = dv_ContentHash d, d_size_bytes = dv_SizeBytes d,
              d_schema_json = nilIfEmpty (dv_SchemaJSON d), d_description = nilIfEmpty (dv_Description d),
              d_workspace_id = dv_WorkspaceID d, d_created_at = dv_CreatedAt d, d_created_by = nilIfEmpty (dv_CreatedBy d),
              d_lifecycle_stage = dv_LifecycleStage d\<rparr>)) (\<lambda>i.
       bnd (for_each (\<lambda>pid. require (pid \<noteq> i) (ErrOther ''dataset cannot be its own parent'')) parents) (\<lambda>_.
       bnd (for_each (insert_lineage i) parents) (\<lambda>_.
       ret (d\<lparr>dv_ID := i, dv_Version := ver, dv_Parents := parents\<rparr>)))))))"

definition CreateDatasetVersion :: "DatasetVersion \<Rightarrow> int list \<Rightarrow> DatasetVersion op" where
  "CreateDatasetVersion d parents =
     bnd (require (dv_Name d \<noteq> []) (ErrOther ''name is required'')) (\<lambda>_.
     bnd (invalidValue (ValidName (dv_Name d) 250)) (\<lambda>_.
     bnd (require (dv_ContentHash d \<noteq> []) (ErrOther ''content_hash is required'')) (\<lambda>_.
     bnd (if dv_CreatedAt d = 0 then now else ret (dv_CreatedAt d)) (\<lambda>created.
     retryWriteRace (createDatasetVersionOnce (d\<lparr>
       dv_WorkspaceID := default_ws (dv_WorkspaceID d), dv_CreatedAt := created,
       dv_LifecycleStage := (if dv_LifecycleStage d = [] then ''active'' else dv_LifecycleStage d)\<rparr>) parents)))))"

definition scanDatasetVersion :: "dataset_row \<Rightarrow> DatasetVersion" where
  "scanDatasetVersion r = \<lparr>
     dv_ID = d_id r, dv_Name = d_name r, dv_Version = d_version r, dv_ContentHash = d_content_hash r, dv_SizeBytes = d_size_bytes r,
     dv_SchemaJSON = coalesce (d_schema_json r), dv_Description = coalesce (d_description r), dv_WorkspaceID = d_workspace_id r,
     dv_CreatedAt = d_created_at r, dv_CreatedBy = coalesce (d_created_by r), dv_LifecycleStage = d_lifecycle_stage r, dv_Parents = []\<rparr>"

definition scanDatasetVersions :: "dataset_row list \<Rightarrow> DatasetVersion list" where
  "scanDatasetVersions rs = map scanDatasetVersion rs"

text \<open>The active rows with the highest active version of their name; equal creation times keep the table's order.\<close>

definition ListDatasets :: "string \<Rightarrow> db \<Rightarrow> DatasetVersion list" where
  "ListDatasets ws0 s =
     (let ws = default_ws ws0;
          active = filter (\<lambda>d. d_workspace_id d = ws \<and> d_lifecycle_stage d = ''active'') (datasets_v2 s)
      in scanDatasetVersions (sort_key (\<lambda>d. - d_created_at d)
           (filter (\<lambda>d. d_workspace_id d = ws \<and> d_name d \<in> set (map d_name active) \<and>
              d_version d = max_or_0 (map d_version (filter (\<lambda>e. d_name e = d_name d) active))) (datasets_v2 s))))"

definition ListDatasetVersions :: "string \<Rightarrow> string \<Rightarrow> db \<Rightarrow> DatasetVersion list" where
  "ListDatasetVersions ws nm s =
     scanDatasetVersions (sort_key (\<lambda>d. - d_version d)
       (filter (\<lambda>d. d_workspace_id d = default_ws ws \<and> d_name d = nm) (datasets_v2 s)))"

definition datasetParents :: "int \<Rightarrow> db \<Rightarrow> int list" where
  "datasetParents i s = map snd (filter (\<lambda>(c, p). c = i) (dataset_lineage s))"

definition datasetChildren :: "int \<Rightarrow> db \<Rightarrow> int list" where
  "datasetChildren i s = map fst (filter (\<lambda>(c, p). p = i) (dataset_lineage s))"

definition with_parents :: "db \<Rightarrow> dataset_row \<Rightarrow> DatasetVersion" where
  "with_parents s r = (scanDatasetVersion r)\<lparr>dv_Parents := datasetParents (d_id r) s\<rparr>"

definition GetDatasetVersion :: "string \<Rightarrow> string \<Rightarrow> int \<Rightarrow> DatasetVersion op" where
  "GetDatasetVersion ws nm ver =
     bnd (gets (\<lambda>s. first_row (\<lambda>d. d_key d = (default_ws ws, nm, ver)) (datasets_v2 s))) (\<lambda>row.
     case row of None \<Rightarrow> throw ErrNotFound | Some r \<Rightarrow> gets (\<lambda>s. with_parents s r))"

definition getDatasetVersionByID :: "int \<Rightarrow> DatasetVersion op" where
  "getDatasetVersionByID i =
     bnd (gets (\<lambda>s. first_row (\<lambda>d. d_id d = i) (datasets_v2 s))) (\<lambda>row.
     case row of None \<Rightarrow> throw ErrNotFound | Some r \<Rightarrow> gets (\<lambda>s. with_parents s r))"

definition SoftDeleteDatasetVersion :: "string \<Rightarrow> string \<Rightarrow> int \<Rightarrow> unit op" where
  "SoftDeleteDatasetVersion ws nm ver =
     bnd (update_dataset_stage (default_ws ws) nm ver) (\<lambda>n. require (n \<noteq> 0) ErrNotFound)"

definition DatasetHashStillReferenced :: "string \<Rightarrow> db \<Rightarrow> bool" where
  "DatasetHashStillReferenced h s =
     (0 < count_where (\<lambda>d. d_content_hash d = h \<and> d_lifecycle_stage d = ''active'') (datasets_v2 s))"

section \<open>Lineage\<close>

record DatasetLineage =
  dl_Self :: DatasetVersion
  dl_Ancestors :: "DatasetVersion list"
  dl_Descendants :: "DatasetVersion list"

definition maxLineageNodes :: nat where
  "maxLineageNodes = 256"

text \<open>
  The inner loops of the descendants: the children of one node, then the nodes of one level. \<open>True\<close> is
  the jump out of all loops.
\<close>

fun visit_children :: "db \<Rightarrow> int list \<Rightarrow> int set \<times> dataset_row list \<times> int list \<Rightarrow> bool \<times> int set \<times> dataset_row list \<times> int list" where
  "visit_children s [] w = (False, w)"
| "visit_children s (cid # cids) (vis, out, nxt) =
     (if maxLineageNodes \<le> length out then (True, vis, out, nxt)
      else if cid \<in> vis then visit_children s cids (vis, out, nxt)
      else case first_row (\<lambda>d. d_id d = cid) (datasets_v2 s) of
             None \<Rightarrow> visit_children s cids (insert cid vis, out, nxt)
           | Some r \<Rightarrow> visit_children s cids (insert cid vis, out @ [r], nxt @ [cid]))"

fun desc_level :: "db \<Rightarrow> int list \<Rightarrow> int set \<times> dataset_row list \<times> int list \<Rightarrow> bool \<times> int set \<times> dataset_row list \<times> int list" where
  "desc_level s [] w = (False, w)"
| "desc_level s (pid # pids) (vis, out, nxt) =
     (if maxLineageNodes \<le> length out then (True, vis, out, nxt)
      else case visit_children s (datasetChildren pid s) (vis, out, nxt) of
        (stop, w) \<Rightarrow> if stop then (True, w) else desc_level s pids w)"

text \<open>What the inner loops collect, and how they compare with the walk over the children.\<close>

lemma visit_children_all:
  assumes "visit_children s cids (vis, out, nxt) = (stop, vis', out', nxt')"
  shows "\<exists>rs. out' = out @ rs \<and> nxt' = nxt @ map d_id rs \<and>
    visit_all maxLineageNodes d_id succs (datasets_v2 s) cids (vis, out, nx) = (stop, vis', out', nx @ concat (map (\<lambda>r. succs (d_id r)) rs))"
  using assms
proof (induction cids arbitrary: vis out nxt nx)
  case Nil
  then show ?case by auto
next
  case (Cons c cids)
  consider "maxLineageNodes \<le> length out" | "\<not> maxLineageNodes \<le> length out" "c \<in> vis"
    | "\<not> maxLineageNodes \<le> length out" "c \<notin> vis" "first_row (\<lambda>d. d_id d = c) (datasets_v2 s) = None"
    | r where "\<not> maxLineageNodes \<le> length out" "c \<notin> vis" "first_row (\<lambda>d. d_id d = c) (datasets_v2 s) = Some r" by blast
  then show ?case
  proof cases
    case 1
    with Cons.prems show ?thesis by auto
  next
    case 2
    with Cons.prems Cons.IH [of vis out nxt nx] show ?thesis by simp
  next
    case 3
    with Cons.prems Cons.IH [of "insert c vis" out nxt nx] show ?thesis by simp
  next
    case 4
    then have "d_id r = c" using first_row_Some by fastforce
    moreover from 4 Cons.prems have "visit_children s cids (insert c vis, out @ [r], nxt @ [c]) = (stop, vis', out', nxt')" by simp
    from Cons.IH [OF this, of "nx @ succs c"] obtain rs where "out' = (out @ [r]) @ rs" "nxt' = (nxt @ [c]) @ map d_id rs"
      "visit_all maxLineageNodes d_id succs (datasets_v2 s) cids (insert c vis, out @ [r], nx @ succs c) =
        (stop, vis', out', (nx @ succs c) @ concat (map (\<lambda>r. succs (d_id r)) rs))" by blast
    ultimately show ?thesis using 4 by (intro exI [of _ "r # rs"]) simp
  qed
qed

lemma desc_level_all:
  assumes "desc_level s pids (vis, out, nxt) = (stop, vis', out', nxt')"
  shows "\<exists>rs stop'. out' = out @ rs \<and> nxt' = nxt @ map d_id rs \<and> (stop' \<longrightarrow> stop) \<and> (stop \<longrightarrow> maxLineageNodes \<le> length out') \<and>
    visit_all maxLineageNodes d_id succs (datasets_v2 s) (concat (map (\<lambda>i. datasetChildren i s) pids)) (vis, out, nx) =
      (stop', vis', out', nx @ concat (map (\<lambda>r. succs (d_id r)) rs))"
  using assms
proof (induction pids arbitrary: vis out nxt nx)
  case Nil
  then show ?case by auto
next
  case (Cons pid pids)
  let ?all = "visit_all maxLineageNodes d_id succs (datasets_v2 s)"
  let ?rest = "concat (map (\<lambda>i. datasetChildren i s) pids)"
  show ?case
  proof (cases "maxLineageNodes \<le> length out")
    case True
    with Cons.prems show ?thesis by (intro exI [of _ "[]"]) (auto simp: visit_all_full)
  next
    case False
    obtain st v1 o1 n1 where v: "visit_children s (datasetChildren pid s) (vis, out, nxt) = (st, v1, o1, n1)" by (metis prod_cases4)
    from visit_children_all [OF v, of succs nx] obtain rs where rs: "o1 = out @ rs" "n1 = nxt @ map d_id rs"
      "?all (datasetChildren pid s) (vis, out, nx) = (st, v1, o1, nx @ concat (map (\<lambda>r. succs (d_id r)) rs))" by blast
    show ?thesis
    proof (cases st)
      case True
      moreover from rs(3) True have "maxLineageNodes \<le> length o1" using visit_all_rows by blast
      ultimately show ?thesis using Cons.prems False v rs by (intro exI [of _ rs] exI [of _ True]) (auto simp: visit_all_append)
    next
      case ns: False
      with Cons.prems False v have "desc_level s pids (v1, o1, n1) = (stop, vis', out', nxt')" by simp
      from Cons.IH [OF this, of "nx @ concat (map (\<lambda>r. succs (d_id r)) rs)"] obtain qs stop' where qs: "out' = o1 @ qs"
        "nxt' = n1 @ map d_id qs" "stop' \<longrightarrow> stop" "stop \<longrightarrow> maxLineageNodes \<le> length out'"
        "?all ?rest (v1, o1, nx @ concat (map (\<lambda>r. succs (d_id r)) rs)) =
          (stop', vis', out', (nx @ concat (map (\<lambda>r. succs (d_id r)) rs)) @ concat (map (\<lambda>r. succs (d_id r)) qs))" by blast
      with rs ns show ?thesis by (intro exI [of _ "rs @ qs"] exI [of _ stop']) (simp add: visit_all_append)
    qed
  qed
qed

text \<open>The outer loop of the descendants.\<close>

function desc_loop :: "db \<Rightarrow> int list \<Rightarrow> int set \<Rightarrow> dataset_row list \<Rightarrow> int set \<times> dataset_row list" where
  "desc_loop s desc vis out =
     (if desc = [] then (vis, out)
      else case desc_level s desc (vis, out, []) of
        (stop, vis', out', nxt) \<Rightarrow> if stop then (vis', out') else desc_loop s nxt vis' out')"
  by pat_completeness auto
termination
proof (relation "measure (\<lambda>(s, desc, vis, out). 2 * card (d_id ` set (datasets_v2 s) - vis) + (if desc = [] then 0 else 1))", goal_cases)
  case (2 s desc vis out stop y vis' z out' nxt)
  let ?K = "d_id ` set (datasets_v2 s)"
  from 2 have v: "desc_level s desc (vis, out, []) = (stop, vis', out', nxt)" by simp
  from desc_level_all [OF v, of "\<lambda>_. []" "[]"] obtain rs stop' where rs: "out' = out @ rs" "nxt = map d_id rs"
    "visit_all maxLineageNodes d_id (\<lambda>_. []) (datasets_v2 s) (concat (map (\<lambda>i. datasetChildren i s) desc)) (vis, out, []) = (stop', vis', out', [])"
    by auto
  from visit_all_rows [OF rs(3)] rs(1) have "d_id ` set rs = (vis' - vis) \<inter> ?K" "vis \<subseteq> vis'" by auto
  show ?case
  proof (cases "rs = []")
    case True
    with rs \<open>d_id ` set rs = _\<close> \<open>vis \<subseteq> vis'\<close> have "nxt = []" "?K - vis' = ?K - vis" by auto
    with 2(1) show ?thesis by simp
  next
    case False
    then have "?K - vis' \<subset> ?K - vis" using \<open>d_id ` set rs = _\<close> \<open>vis \<subseteq> vis'\<close> by (cases rs) auto
    then have "card (?K - vis') < card (?K - vis)" by (intro psubset_card_mono) simp_all
    with 2(1) show ?thesis by auto
  qed
qed simp

declare desc_loop.simps [simp del]

lemma desc_loop_walk:
  "desc_loop s desc vis out =
    walk maxLineageNodes d_id (\<lambda>i. datasetChildren i s) (datasets_v2 s) (concat (map (\<lambda>i. datasetChildren i s) desc)) vis out"
proof (induction s desc vis out rule: desc_loop.induct)
  case (1 s desc vis out)
  let ?ch = "\<lambda>i. datasetChildren i s"
  let ?walk = "walk maxLineageNodes d_id ?ch (datasets_v2 s)"
  let ?F = "concat (map ?ch desc)"
  show ?case
  proof (cases "desc = []")
    case True
    then show ?thesis by (simp add: desc_loop.simps walk.simps)
  next
    case False
    obtain stop v1 o1 nxt where v: "desc_level s desc (vis, out, []) = (stop, v1, o1, nxt)" by (metis prod_cases4)
    from desc_level_all [OF v, of ?ch "[]"] obtain rs stop' where rs: "o1 = out @ rs" "nxt = map d_id rs" "stop' \<longrightarrow> stop"
      "stop \<longrightarrow> maxLineageNodes \<le> length o1"
      "visit_all maxLineageNodes d_id ?ch (datasets_v2 s) ?F (vis, out, []) = (stop', v1, o1, concat (map ?ch nxt))"
      by (auto simp: comp_def)
    have w: "?walk ?F vis out = (if stop' then (v1, o1) else ?walk (concat (map ?ch nxt)) v1 o1)"
    proof (cases "?F = []")
      case True
      with rs(1,2,5) have "v1 = vis" "o1 = out" "\<not> stop'" "nxt = []" by auto
      with True show ?thesis by (simp add: walk.simps)
    next
      case False
      with rs(5) show ?thesis by (simp only: walk.simps [of _ _ _ _ ?F] if_False prod.case)
    qed
    show ?thesis
    proof (cases stop)
      case True
      with rs(4) have "?walk (concat (map ?ch nxt)) v1 o1 = (v1, o1)" by (simp add: walk_full)
      with w v False True show ?thesis by (simp add: desc_loop.simps [of s desc])
    next
      case ns: False
      with 1 [OF False v [symmetric] refl refl] w v False rs(3) show ?thesis by (simp add: desc_loop.simps [of s desc])
    qed
  qed
qed

definition GetDatasetLineage :: "string \<Rightarrow> string \<Rightarrow> int \<Rightarrow> DatasetLineage op" where
  "GetDatasetLineage ws nm ver =
     bnd (GetDatasetVersion ws nm ver) (\<lambda>self. gets (\<lambda>s.
       let (vis, anc) = walk maxLineageNodes d_id (\<lambda>i. datasetParents i s) (datasets_v2 s) (dv_Parents self) {dv_ID self} [];
           (vis', desc) = desc_loop s [dv_ID self] vis []
       in \<lparr>dl_Self = self, dl_Ancestors = map (with_parents s) anc, dl_Descendants = map (with_parents s) desc\<rparr>))"

section \<open>Integrity\<close>

lemma keeps_insert_datasets_v2 [keeps_intros]: "keeps db_ok (insert_datasets_v2 mk)"
proof -
  have "db_ok (s\<lparr>datasets_v2_seq := datasets_v2_seq s + 1, datasets_v2 := datasets_v2 s @ [r\<lparr>d_id := datasets_v2_seq s + 1\<rparr>]\<rparr>)"
    if "db_ok s" "d_lifecycle_stage r \<in> run_stages" "\<not> has_key d_key (d_key r) (datasets_v2 s)" for s r
  proof -
    note ok = db_okD [OF that(1)]
    from ok(20) have b: "below d_id (datasets_v2_seq s) (datasets_v2 s)" by (simp add: datasets_ok_def)
    have "datasets_ok (datasets_v2_seq s + 1) (datasets_v2 s @ [r\<lparr>d_id := datasets_v2_seq s + 1\<rparr>]) (dataset_lineage s)"
      using ok(20) that(2,3) below_fresh [OF b, of "datasets_v2_seq s + 1"]
      by (auto simp: datasets_ok_def schema_rules has_key_iff intro: fk_mono below_mono)
    moreover have "inputs_v2_ok (keys r_id (runs s)) (keys d_id (datasets_v2 s @ [r\<lparr>d_id := datasets_v2_seq s + 1\<rparr>]))
        (dataset_inputs_v2_seq s) (dataset_inputs_v2 s)"
      using ok(25) by (auto simp: inputs_v2_ok_def intro: fk_mono)
    ultimately show ?thesis using ok by (simp add: db_ok_def)
  qed
  then show ?thesis unfolding insert_datasets_v2_def
    by (intro keeps_stmt) (simp add: Let_def split: if_splits)
qed

lemma keeps_insert_lineage [keeps_intros]: "keeps db_ok (insert_lineage c p)"
proof -
  have "db_ok (s\<lparr>dataset_lineage := dataset_lineage s @ [(c, p)]\<rparr>)"
    if "db_ok s" "(c, p) \<notin> set (dataset_lineage s)" "c \<in> keys d_id (datasets_v2 s)" "p \<in> keys d_id (datasets_v2 s)" for s
  proof -
    note ok = db_okD [OF that(1)]
    have "datasets_ok (datasets_v2_seq s) (datasets_v2 s) (dataset_lineage s @ [(c, p)])"
      using ok(20) that by (auto simp: datasets_ok_def schema_rules)
    with ok show ?thesis by (simp add: db_ok_def)
  qed
  then show ?thesis unfolding insert_lineage_def
    by (intro keeps_stmt) (auto simp: has_key_iff split: if_splits)
qed

lemma keeps_update_dataset_stage [keeps_intros]: "keeps db_ok (update_dataset_stage ws nm ver)"
proof -
  let ?ds = "\<lambda>s. update_where (\<lambda>d. d_key d = (ws, nm, ver)) (\<lambda>d. d\<lparr>d_lifecycle_stage := ''deleted''\<rparr>) (datasets_v2 s)"
  have "db_ok (s\<lparr>datasets_v2 := ?ds s\<rparr>)" if "db_ok s" for s
  proof -
    note ok = db_okD [OF that]
    have "datasets_ok (datasets_v2_seq s) (?ds s) (dataset_lineage s)" using ok(20)
      by (auto simp: datasets_ok_def update_where_rules run_stages_def lifecycle_defs intro!: chk_update_where)
    with ok show ?thesis by (simp add: db_ok_def update_where_rules)
  qed
  then show ?thesis unfolding update_dataset_stage_def by (intro keeps_stmt) simp
qed

lemma keeps_check_parent [keeps_intros]: "keeps P (check_parent ws pid)"
  unfolding check_parent_def by (intro keeps_intros)

lemma keeps_CreateDatasetVersion [keeps_intros]: "keeps db_ok (CreateDatasetVersion d parents)"
  unfolding CreateDatasetVersion_def createDatasetVersionOnce_def by (intro keeps_intros)

lemma keeps_SoftDeleteDatasetVersion [keeps_intros]: "keeps db_ok (SoftDeleteDatasetVersion ws nm ver)"
  unfolding SoftDeleteDatasetVersion_def by (intro keeps_intros)

section \<open>Lineage is sound\<close>

text \<open>Every edge points to a smaller id in the same workspace.\<close>

definition same_ws :: "dataset_row list \<Rightarrow> int \<Rightarrow> int \<Rightarrow> bool" where
  "same_ws ds i j \<longleftrightarrow> list_ex (\<lambda>x. d_id x = i \<and> list_ex (\<lambda>y. d_id y = j \<and> d_workspace_id x = d_workspace_id y) ds) ds"

definition lineage_sound :: "db \<Rightarrow> bool" where
  "lineage_sound s \<longleftrightarrow> list_all (\<lambda>(c, p). p < c \<and> same_ws (datasets_v2 s) c p) (dataset_lineage s)"

definition add_edges :: "int \<Rightarrow> int list \<Rightarrow> (int \<times> int) list \<Rightarrow> (int \<times> int) list" where
  "add_edges i ps ls = foldl (\<lambda>ls p. if (i, p) \<in> set ls then ls else ls @ [(i, p)]) ls ps"

lemma set_add_edges: "set (add_edges i ps ls) = set ls \<union> Pair i ` set ps"
  unfolding add_edges_def by (induction ps arbitrary: ls) auto

lemma for_each_insert_lineage:
  assumes "has_key d_id i (datasets_v2 s)" and "\<forall>p\<in>set ps. has_key d_id p (datasets_v2 s)"
  shows "for_each (insert_lineage i) ps s = (Inr (), s\<lparr>dataset_lineage := add_edges i ps (dataset_lineage s)\<rparr>)"
  using assms
proof (induction ps arbitrary: s)
  case Nil
  then show ?case by (simp add: add_edges_def sem_simps)
next
  case (Cons p ps)
  then show ?case by (simp add: add_edges_def sem_simps insert_lineage_def)
qed

definition new_dataset_row :: "DatasetVersion \<Rightarrow> int \<Rightarrow> int \<Rightarrow> dataset_row" where
  "new_dataset_row d ver i = \<lparr>
     d_id = i, d_name = dv_Name d, d_version = ver, d_content_hash = dv_ContentHash d, d_size_bytes = dv_SizeBytes d,
     d_schema_json = nilIfEmpty (dv_SchemaJSON d), d_description = nilIfEmpty (dv_Description d),
     d_workspace_id = dv_WorkspaceID d, d_created_at = dv_CreatedAt d, d_created_by = nilIfEmpty (dv_CreatedBy d),
     d_lifecycle_stage = dv_LifecycleStage d\<rparr>"

definition parent_ok :: "string \<Rightarrow> db \<Rightarrow> int \<Rightarrow> bool" where
  "parent_ok ws s pid \<longleftrightarrow> (case first_row (\<lambda>d. d_id d = pid) (datasets_v2 s) of None \<Rightarrow> False | Some p \<Rightarrow> d_workspace_id p = ws)"

lemma check_parent_cases:
  "check_parent ws pid s = (Inr (), s) \<and> parent_ok ws s pid \<or> (\<exists>e. check_parent ws pid s = (Inl e, s)) \<and> \<not> parent_ok ws s pid"
  by (simp add: check_parent_def parent_ok_def sem_simps split: option.split)

lemma parent_okD: "parent_ok ws s pid \<Longrightarrow> \<exists>p\<in>set (datasets_v2 s). d_id p = pid \<and> d_workspace_id p = ws"
  by (auto simp: parent_ok_def split: option.splits dest: first_row_Some)

lemma next_dataset_version_fresh: "\<not> has_key d_key (ws, nm, next_dataset_version ws nm s) (datasets_v2 s)"
proof
  let ?ver = "next_dataset_version ws nm s"
  assume "has_key d_key (ws, nm, ?ver) (datasets_v2 s)"
  then obtain r where "r \<in> set (datasets_v2 s)" "d_workspace_id r = ws" "d_name r = nm" "d_version r = ?ver"
    by (auto simp: has_key_def list_ex_iff)
  then have "?ver \<in> set (map d_version (filter (\<lambda>e. d_workspace_id e = ws \<and> d_name e = nm) (datasets_v2 s)))" by force
  from max_or_0_ge [OF this] show False by (simp add: next_dataset_version_def)
qed

text \<open>What one attempt does.\<close>

lemma createDatasetVersionOnce_ok:
  assumes "db_ok s" and "list_all (parent_ok (dv_WorkspaceID d) s) parents" and "dv_LifecycleStage d \<in> run_stages"
  shows "createDatasetVersionOnce d parents s =
    (let i = datasets_v2_seq s + 1; ver = next_dataset_version (dv_WorkspaceID d) (dv_Name d) s in
      (Inr (d\<lparr>dv_ID := i, dv_Version := ver, dv_Parents := parents\<rparr>),
       s\<lparr>datasets_v2_seq := i, datasets_v2 := datasets_v2 s @ [new_dataset_row d ver i],
         dataset_lineage := add_edges i parents (dataset_lineage s)\<rparr>))"
proof -
  let ?i = "datasets_v2_seq s + 1" and ?ver = "next_dataset_version (dv_WorkspaceID d) (dv_Name d) s"
  let ?t = "s\<lparr>datasets_v2_seq := ?i, datasets_v2 := datasets_v2 s @ [new_dataset_row d ?ver ?i]\<rparr>"
  have par: "for_each (check_parent (dv_WorkspaceID d)) parents s = (Inr (), s)"
    using assms(2) by (intro for_each_same) (metis check_parent_cases list_all_iff)
  have fresh: "\<not> has_key d_key (dv_WorkspaceID d, dv_Name d, ?ver) (datasets_v2 s)" by (rule next_dataset_version_fresh)
  have ins: "insert_datasets_v2 (new_dataset_row d ?ver) s = (Inr ?i, ?t)"
    using assms(3) fresh by (simp add: insert_datasets_v2_def sem_simps Let_def new_dataset_row_def)
  have lt: "p < ?i \<and> has_key d_id p (datasets_v2 s)" if "p \<in> set parents" for p
    using that assms(2) parent_okD [of _ s p] db_okD(20) [OF assms(1)]
    by (fastforce simp: list_all_iff datasets_ok_def below_def has_key_def list_ex_iff)
  have self: "for_each (\<lambda>pid. require (pid \<noteq> ?i) e) parents t = (Inr (), t)" for e t
    using lt by (intro for_each_same) (metis less_irrefl require_apply)
  have edges: "for_each (insert_lineage ?i) parents ?t = (Inr (), ?t\<lparr>dataset_lineage := add_edges ?i parents (dataset_lineage s)\<rparr>)"
    using for_each_insert_lineage [of ?i ?t parents] lt by (auto simp: has_key_def new_dataset_row_def)
  show ?thesis unfolding createDatasetVersionOnce_def new_dataset_row_def [symmetric]
    by (simp add: sem_simps par ins self edges Let_def)
qed

lemma createDatasetVersionOnce_err:
  assumes "\<not> (list_all (parent_ok (dv_WorkspaceID d) s) parents \<and> dv_LifecycleStage d \<in> run_stages)"
  shows "\<exists>e. createDatasetVersionOnce d parents s = (Inl e, s)"
proof (cases "list_all (parent_ok (dv_WorkspaceID d) s) parents")
  case True
  have par: "for_each (check_parent (dv_WorkspaceID d)) parents s = (Inr (), s)"
    using True by (intro for_each_same) (metis check_parent_cases list_all_iff)
  from assms True show ?thesis unfolding createDatasetVersionOnce_def
    by (simp add: sem_simps par insert_datasets_v2_def Let_def)
next
  case False
  have "\<exists>e. for_each (check_parent (dv_WorkspaceID d)) parents s = (Inl e, s)"
    using False by (induction parents) (use check_parent_cases [of "dv_WorkspaceID d" _ s] in \<open>fastforce simp: sem_simps\<close>)+
  then show ?thesis unfolding createDatasetVersionOnce_def by (auto simp: sem_simps)
qed

text \<open>\<open>CreateDatasetVersion\<close>: an error leaves the tables as they are.\<close>

definition dataset_defaults :: "DatasetVersion \<Rightarrow> int \<Rightarrow> DatasetVersion" where
  "dataset_defaults d created = d\<lparr>dv_WorkspaceID := default_ws (dv_WorkspaceID d), dv_CreatedAt := created,
     dv_LifecycleStage := (if dv_LifecycleStage d = [] then ''active'' else dv_LifecycleStage d)\<rparr>"

definition creation_time :: "DatasetVersion \<Rightarrow> db \<Rightarrow> int" where
  "creation_time d s = (if dv_CreatedAt d = 0 then clock s (clock_pos s) else dv_CreatedAt d)"

lemma CreateDatasetVersion_cases:
  assumes "db_ok s"
  shows "(\<exists>e n. CreateDatasetVersion d parents s = (Inl e, s\<lparr>clock_pos := n\<rparr>)) \<or>
    (let d' = dataset_defaults d (creation_time d s); i = datasets_v2_seq s + 1; ver = next_dataset_version (dv_WorkspaceID d') (dv_Name d') s in
      list_all (parent_ok (dv_WorkspaceID d') s) parents \<and> dv_LifecycleStage d' \<in> run_stages \<and>
      (\<exists>n. CreateDatasetVersion d parents s =
      (Inr (d'\<lparr>dv_ID := i, dv_Version := ver, dv_Parents := parents\<rparr>),
       s\<lparr>clock_pos := n, datasets_v2_seq := i, datasets_v2 := datasets_v2 s @ [new_dataset_row d' ver i],
         dataset_lineage := add_edges i parents (dataset_lineage s)\<rparr>)))"
proof (cases "dv_Name d \<noteq> [] \<and> ValidName (dv_Name d) 250 = None \<and> dv_ContentHash d \<noteq> []")
  case False
  then have "\<exists>e. CreateDatasetVersion d parents s = (Inl e, s)"
    unfolding CreateDatasetVersion_def by (auto simp: sem_simps)
  moreover have "s = s\<lparr>clock_pos := clock_pos s\<rparr>" by simp
  ultimately show ?thesis by metis
next
  case True
  let ?d = "dataset_defaults d (creation_time d s)"
  define n where "n = (if dv_CreatedAt d = 0 then Suc (clock_pos s) else clock_pos s)"
  define t where "t = s\<lparr>clock_pos := n\<rparr>"
  have run: "CreateDatasetVersion d parents s = retryWriteRace (createDatasetVersionOnce ?d parents) t"
    using True by (simp add: CreateDatasetVersion_def sem_simps t_def n_def dataset_defaults_def creation_time_def)
  have t: "db_ok t" "datasets_v2 t = datasets_v2 s" "datasets_v2_seq t = datasets_v2_seq s" "dataset_lineage t = dataset_lineage s"
    "parent_ok w t = parent_ok w s" "next_dataset_version w x t = next_dataset_version w x s" for w x
    using assms clockless_db_ok by (simp_all add: t_def clockless_def parent_ok_def next_dataset_version_def fun_eq_iff)
  show ?thesis
  proof (cases "list_all (parent_ok (dv_WorkspaceID ?d) s) parents \<and> dv_LifecycleStage ?d \<in> run_stages")
    case ok: True
    from createDatasetVersionOnce_ok [OF t(1), of ?d parents] ok have
      "createDatasetVersionOnce ?d parents t = (let i = datasets_v2_seq s + 1; ver = next_dataset_version (dv_WorkspaceID ?d) (dv_Name ?d) s in
        (Inr (?d\<lparr>dv_ID := i, dv_Version := ver, dv_Parents := parents\<rparr>),
         t\<lparr>datasets_v2_seq := i, datasets_v2 := datasets_v2 s @ [new_dataset_row ?d ver i],
           dataset_lineage := add_edges i parents (dataset_lineage s)\<rparr>))" by (simp add: t)
    from retryWriteRace_ok [where fn = "createDatasetVersionOnce ?d parents", OF this [unfolded Let_def]] ok show ?thesis
      unfolding run by (intro disjI2) (auto simp: Let_def t_def)
  next
    case False
    then have "\<exists>e. createDatasetVersionOnce ?d parents t = (Inl e, t)"
      by (intro createDatasetVersionOnce_err) (simp add: t)
    then obtain e where "createDatasetVersionOnce ?d parents t = (Inl e, t)" by blast
    then have "retryWriteRace (createDatasetVersionOnce ?d parents) t = (Inl e, t)" by (rule retryWriteRace_err)
    then show ?thesis unfolding run by (auto simp: t_def)
  qed
qed

lemma same_ws_iff:
  "same_ws ds i j \<longleftrightarrow> (\<exists>w. (i, w) \<in> keys (\<lambda>d. (d_id d, d_workspace_id d)) ds \<and> (j, w) \<in> keys (\<lambda>d. (d_id d, d_workspace_id d)) ds)"
  unfolding same_ws_def keys_def list_ex_iff image_iff prod.inject by blast

lemma same_ws_append: "same_ws ds i j \<Longrightarrow> same_ws (ds @ es) i j"
  by (auto simp: same_ws_def list_ex_iff)

lemma lineage_sound_create:
  assumes "db_ok s" and "lineage_sound s" and "list_all (parent_ok ws s) parents" and "d_workspace_id r = ws" and "d_id r = datasets_v2_seq s + 1"
  shows "lineage_sound (s\<lparr>clock_pos := n, datasets_v2_seq := q, datasets_v2 := datasets_v2 s @ [r],
    dataset_lineage := add_edges (d_id r) parents (dataset_lineage s)\<rparr>)"
proof -
  have "p < d_id r \<and> same_ws (datasets_v2 s @ [r]) (d_id r) p" if "p \<in> set parents" for p
  proof -
    from that assms(3) obtain x where "x \<in> set (datasets_v2 s)" "d_id x = p" "d_workspace_id x = ws"
      using parent_okD [of ws s p] by (auto simp: list_all_iff)
    then show ?thesis using db_okD(20) [OF assms(1)] assms(4,5)
      by (auto simp: same_ws_def list_ex_iff datasets_ok_def below_def)
  qed
  then show ?thesis using assms(2) by (auto simp: lineage_sound_def list_all_iff set_add_edges intro: same_ws_append)
qed

lemma lineage_sound_soft_delete: "lineage_sound s \<Longrightarrow> lineage_sound (snd (SoftDeleteDatasetVersion ws nm ver s))"
proof -
  assume *: "lineage_sound s"
  have "same_ws (update_where p (\<lambda>d. d\<lparr>d_lifecycle_stage := v\<rparr>) ds) i j = same_ws ds i j" for p v ds i j
    by (simp add: same_ws_iff keys_update_where)
  with * show ?thesis
    by (simp add: SoftDeleteDatasetVersion_def snd_bnd_require update_dataset_stage_def stmt_def lineage_sound_def)
qed

lemma lineage_sound_acyclic: "lineage_sound s \<Longrightarrow> acyclic (set (dataset_lineage s))"
proof (rule acyclicI_order [where f = "\<lambda>i. i"])
  fix a b assume "lineage_sound s" "(a, b) \<in> set (dataset_lineage s)"
  then show "b < a" by (auto simp: lineage_sound_def list_all_iff)
qed

lemma keeps_lineage_sound: "keeps (\<lambda>s. db_ok s \<and> lineage_sound s) (CreateDatasetVersion d parents)"
proof (rule keepsI, elim conjE, intro conjI)
  fix s assume s: "db_ok s" "lineage_sound s"
  show "db_ok (snd (CreateDatasetVersion d parents s))" by (rule keepsD [OF keeps_CreateDatasetVersion s(1)])
  show "lineage_sound (snd (CreateDatasetVersion d parents s))"
    using CreateDatasetVersion_cases [OF s(1), of d parents]
  proof (elim disjE exE)
    fix e k assume "CreateDatasetVersion d parents s = (Inl e, s\<lparr>clock_pos := k\<rparr>)"
    with s(2) show ?thesis by (simp add: lineage_sound_def)
  qed (use lineage_sound_create [OF s] in \<open>auto simp: Let_def new_dataset_row_def\<close>)
qed


section \<open>Reading back\<close>

lemma add_edges_new:
  assumes "\<forall>p. (i, p) \<notin> set ls"
  shows "filter (\<lambda>(c, p). c = i) (add_edges i ps ls) = map (Pair i) (rev (remdups (rev ps)))"
    and "j \<noteq> i \<Longrightarrow> filter (\<lambda>(c, p). c = j) (add_edges i ps ls) = filter (\<lambda>(c, p). c = j) ls"
proof -
  have "add_edges i ps ls = ls @ map (Pair i) (rev (remdups (rev ps)))"
  proof (induction ps rule: rev_induct)
    case (snoc p ps)
    then show ?case using assms by (auto simp: add_edges_def)
  qed (simp add: add_edges_def)
  moreover have "filter (\<lambda>(c, p). c = i) ls = []" using assms by (auto simp: filter_empty_conv)
  ultimately show "filter (\<lambda>(c, p). c = i) (add_edges i ps ls) = map (Pair i) (rev (remdups (rev ps)))"
    and "j \<noteq> i \<Longrightarrow> filter (\<lambda>(c, p). c = j) (add_edges i ps ls) = filter (\<lambda>(c, p). c = j) ls"
    by (auto simp: filter_map comp_def)
qed

text \<open>
  A dataset version that was created reads back: it is the next version of its name, with the given metadata
  and, as parents, the given ids without repetitions; every other version of the database reads as before.
\<close>

theorem CreateDatasetVersion_GetDatasetVersion:
  assumes "db_ok s" and "CreateDatasetVersion d parents s = (Inr x, t)"
  shows "dv_Version x = next_dataset_version (default_ws (dv_WorkspaceID d)) (dv_Name d) s \<and>
    fst (GetDatasetVersion (dv_WorkspaceID d) (dv_Name d) (dv_Version x) t) = Inr (x\<lparr>dv_Parents := rev (remdups (rev parents))\<rparr>) \<and>
    dv_ContentHash x = dv_ContentHash d \<and> dv_SchemaJSON x = dv_SchemaJSON d \<and> dv_Description x = dv_Description d \<and> dv_SizeBytes x = dv_SizeBytes d \<and>
    (\<forall>ws nm ver. (default_ws ws, nm, ver) \<noteq> (default_ws (dv_WorkspaceID d), dv_Name d, dv_Version x) \<longrightarrow>
      fst (GetDatasetVersion ws nm ver t) = fst (GetDatasetVersion ws nm ver s))"
proof -
  let ?d = "dataset_defaults d (creation_time d s)"
  let ?i = "datasets_v2_seq s + 1" and ?ver = "next_dataset_version (dv_WorkspaceID ?d) (dv_Name ?d) s"
  let ?r = "new_dataset_row ?d ?ver ?i"
  obtain n where x: "x = ?d\<lparr>dv_ID := ?i, dv_Version := ?ver, dv_Parents := parents\<rparr>"
    and t: "t = s\<lparr>clock_pos := n, datasets_v2_seq := ?i, datasets_v2 := datasets_v2 s @ [?r],
         dataset_lineage := add_edges ?i parents (dataset_lineage s)\<rparr>"
    using CreateDatasetVersion_cases [OF assms(1), of d parents] assms(2) by (auto simp: Let_def)
  have ver: "?ver = next_dataset_version (default_ws (dv_WorkspaceID d)) (dv_Name d) s" by (simp add: dataset_defaults_def)
  with x have v: "dv_Version x = next_dataset_version (default_ws (dv_WorkspaceID d)) (dv_Name d) s" by simp
  have c: "dv_ContentHash x = dv_ContentHash d \<and> dv_SchemaJSON x = dv_SchemaJSON d \<and> dv_Description x = dv_Description d \<and> dv_SizeBytes x = dv_SizeBytes d"
    by (simp add: x dataset_defaults_def)
  note ds = db_okD(20) [OF assms(1), unfolded datasets_ok_def]
  have new: "\<forall>p. (?i, p) \<notin> set (dataset_lineage s)"
    using ds below_fresh [of d_id "datasets_v2_seq s" "datasets_v2 s" ?i] by (auto simp: fk_def)
  have key: "d_key ?r = (default_ws (dv_WorkspaceID d), dv_Name d, ?ver)" by (simp add: new_dataset_row_def dataset_defaults_def)
  have "keeps db_ok (CreateDatasetVersion d parents)" by (rule keeps_CreateDatasetVersion)
  from keepsD2 [OF this assms] have "db_ok t" .
  then have "distinct (map d_key (datasets_v2 t))" using db_okD(20) by (auto simp: datasets_ok_def pk_def)
  then have row: "first_row (\<lambda>e. d_key e = d_key ?r) (datasets_v2 t) = Some ?r"
    by (rule first_row_unique) (auto simp: t)
  have "datasetParents ?i t = rev (remdups (rev parents))"
    by (simp add: datasetParents_def t add_edges_new [OF new] comp_def)
  with row have g: "fst (GetDatasetVersion (dv_WorkspaceID d) (dv_Name d) (dv_Version x) t) = Inr (x\<lparr>dv_Parents := rev (remdups (rev parents))\<rparr>)"
    unfolding key by (simp add: GetDatasetVersion_def sem_simps with_parents_def x scanDatasetVersion_def)
      (simp add: new_dataset_row_def dataset_defaults_def)
  have "fst (GetDatasetVersion ws nm ver t) = fst (GetDatasetVersion ws nm ver s)"
    if ne: "(default_ws ws, nm, ver) \<noteq> (default_ws (dv_WorkspaceID d), dv_Name d, dv_Version x)" for ws nm ver
  proof -
    let ?k = "(default_ws ws, nm, ver)"
    have "first_row (\<lambda>e. d_key e = ?k) (datasets_v2 t) = first_row (\<lambda>e. d_key e = ?k) (datasets_v2 s)"
      using ne key by (auto simp: t x first_row_append first_row_Cons split: option.split)
    moreover have "with_parents t r = with_parents s r" if "first_row (\<lambda>e. d_key e = ?k) (datasets_v2 s) = Some r" for r
    proof -
      from that have "r \<in> set (datasets_v2 s)" by (auto dest: first_row_Some)
      then have "d_id r \<noteq> ?i" using ds by (auto simp: below_def)
      then show ?thesis by (simp add: with_parents_def datasetParents_def t add_edges_new(2) [OF new])
    qed
    ultimately show ?thesis by (simp add: GetDatasetVersion_def sem_simps split: option.split)
  qed
  with v c g show ?thesis by blast
qed

text \<open>A database with one dataset version, and a second one derived from it.\<close>

definition sample_dataset :: DatasetVersion where
  "sample_dataset = \<lparr>
     dv_ID = 0, dv_Name = ''iris'', dv_Version = 0, dv_ContentHash = ''abc'', dv_SizeBytes = 7, dv_SchemaJSON = [],
     dv_Description = ''raw'', dv_WorkspaceID = [], dv_CreatedAt = 0, dv_CreatedBy = [], dv_LifecycleStage = [], dv_Parents = []\<rparr>"

definition datasets_db :: db where
  "datasets_db = snd (CreateDatasetVersion sample_dataset [] sample_db)"

lemma retry_step:
  "retryWriteRace fn = catch fn (\<lambda>e. if isUniqueViolation e \<or> isSnapshotRaceErr e then retry_loop 4 fn else throw e)"
proof -
  have "(5::nat) = Suc 4" by simp
  then show ?thesis by (simp only: retryWriteRace_def retry_loop.simps)
qed

lemmas dataset_eval = sem_simps sample_dataset_def CreateDatasetVersion_def createDatasetVersionOnce_def check_parent_def
  insert_datasets_v2_def insert_lineage_def next_dataset_version_def first_row_def has_key_def max_or_0_def
  default_ws_def run_stages_def lifecycle_defs Let_def retry_step count_where_def

lemma sample_name_valid: "ValidName ''iris'' 250 = None"
  by code_simp

lemma datasets_db_eq: "datasets_db = sample_db\<lparr>clock_pos := 6, datasets_v2_seq := 1, datasets_v2 := [\<lparr>
     d_id = 1, d_name = ''iris'', d_version = 1, d_content_hash = ''abc'', d_size_bytes = 7, d_schema_json = None,
     d_description = Some ''raw'', d_workspace_id = ''default'', d_created_at = 200, d_created_by = None, d_lifecycle_stage = ''active''\<rparr>]\<rparr>"
  by (simp add: datasets_db_def dataset_eval sample_name_valid sample_defs nilIfEmpty_def)

lemma db_ok_datasets: "db_ok datasets_db"
  unfolding datasets_db_def by (rule keepsD [OF keeps_CreateDatasetVersion db_ok_sample])

text \<open>
  What one direction of the lineage must be: versions of the workspace as \<open>GetDatasetVersion\<close> returns them, all
  reachable over the edges, each once, at most \<open>maxLineageNodes\<close>, and all that are reachable when there are fewer.
\<close>

definition lineage_part :: "db \<Rightarrow> string \<Rightarrow> int \<Rightarrow> (int \<times> int) set \<Rightarrow> DatasetVersion list \<Rightarrow> bool" where
  "lineage_part s ws self edges ds \<longleftrightarrow>
     distinct (map dv_ID ds) \<and> length ds \<le> maxLineageNodes \<and> dv_ID ` set ds \<subseteq> edges\<^sup>+ `` {self} \<and>
     (length ds < maxLineageNodes \<longrightarrow> dv_ID ` set ds = edges\<^sup>+ `` {self}) \<and>
     (\<forall>d\<in>set ds. fst (GetDatasetVersion ws (dv_Name d) (dv_Version d) s) = Inr d)"

lemma step_rel_parents:
  assumes "db_ok s" shows "step_rel d_id (\<lambda>i. datasetParents i s) (datasets_v2 s) = set (dataset_lineage s)"
  using db_okD(20) [OF assms] by (force simp: step_rel_def datasetParents_def datasets_ok_def fk_def keys_def)

lemma step_rel_children:
  assumes "db_ok s" shows "step_rel d_id (\<lambda>i. datasetChildren i s) (datasets_v2 s) = (set (dataset_lineage s))\<inverse>"
  using db_okD(20) [OF assms] by (force simp: step_rel_def datasetChildren_def datasets_ok_def fk_def keys_def)

lemma lineage_ends:
  assumes "db_ok s" and "(i, j) \<in> (set (dataset_lineage s))\<^sup>+"
  shows "i \<in> d_id ` set (datasets_v2 s)" and "j \<in> d_id ` set (datasets_v2 s)"
proof -
  let ?E = "set (dataset_lineage s)"
  from assms(2) have "i \<in> Domain (?E\<^sup>+)" "j \<in> Range (?E\<^sup>+)" by (blast, blast)
  then obtain k l where "(i, k) \<in> ?E" "(l, j) \<in> ?E" unfolding trancl_domain trancl_range by blast
  moreover have "fk fst (dataset_lineage s) (keys d_id (datasets_v2 s))" "fk snd (dataset_lineage s) (keys d_id (datasets_v2 s))"
    using db_okD(20) [OF assms(1)] by (simp_all add: datasets_ok_def)
  ultimately show "i \<in> d_id ` set (datasets_v2 s)" "j \<in> d_id ` set (datasets_v2 s)"
    unfolding fk_def keys_def by fastforce+
qed

lemma lineage_sound_edge:
  assumes "lineage_sound s" and "db_ok s" and "(i, j) \<in> set (dataset_lineage s)"
    and "x \<in> set (datasets_v2 s)" "d_id x = i" "y \<in> set (datasets_v2 s)" "d_id y = j"
  shows "j < i \<and> d_workspace_id x = d_workspace_id y"
proof -
  have inj: "inj_on d_id (set (datasets_v2 s))"
    using db_okD(20) [OF assms(2)] by (simp add: datasets_ok_def pk_def distinct_map)
  from assms(1,3) have "j < i" "same_ws (datasets_v2 s) i j" by (auto simp: lineage_sound_def list_all_iff)
  then obtain a b where "a \<in> set (datasets_v2 s)" "d_id a = i" "b \<in> set (datasets_v2 s)" "d_id b = j" "d_workspace_id a = d_workspace_id b"
    by (auto simp: same_ws_def list_ex_iff)
  moreover from this have "a = x" "b = y" using assms(4-7) inj_onD [OF inj] by auto
  ultimately show ?thesis using \<open>j < i\<close> by simp
qed

lemma lineage_sound_trancl:
  assumes "lineage_sound s" and "db_ok s" and "(i, j) \<in> (set (dataset_lineage s))\<^sup>+" and "x \<in> set (datasets_v2 s)" "d_id x = i"
  shows "\<forall>y. y \<in> set (datasets_v2 s) \<and> d_id y = j \<longrightarrow> j < i \<and> d_workspace_id x = d_workspace_id y"
  using assms(3)
proof (induction rule: trancl_induct)
  case (base j)
  then show ?case using lineage_sound_edge [OF assms(1,2) base assms(4,5)] by blast
next
  case (step j k)
  obtain z where z: "z \<in> set (datasets_v2 s)" "d_id z = j" using lineage_ends(2) [OF assms(2) step(1)] by auto
  show ?case
  proof (intro allI impI, elim conjE)
    fix y assume "y \<in> set (datasets_v2 s)" "d_id y = k"
    from lineage_sound_edge [OF assms(1,2) step(2) z this] have "k < j \<and> d_workspace_id z = d_workspace_id y" .
    moreover from step(3) z have "j < i \<and> d_workspace_id x = d_workspace_id z" by blast
    ultimately show "k < i \<and> d_workspace_id x = d_workspace_id y" by simp
  qed
qed

lemma lineage_part_rows:
  assumes "db_ok s" and "lineage_sound s" and x: "x \<in> set (datasets_v2 s)" "d_workspace_id x = default_ws ws"
    and "distinct (map d_id rs)" "length rs \<le> maxLineageNodes" "set rs \<subseteq> set (datasets_v2 s)" "d_id ` set rs \<subseteq> edges\<^sup>+ `` {d_id x}"
      "length rs < maxLineageNodes \<Longrightarrow> d_id ` set rs = edges\<^sup>+ `` {d_id x}"
    and edges: "edges = set (dataset_lineage s) \<or> edges = (set (dataset_lineage s))\<inverse>"
  shows "lineage_part s ws (d_id x) edges (map (with_parents s) rs)"
proof -
  have ID: "dv_ID (with_parents s r) = d_id r" for r by (simp add: with_parents_def scanDatasetVersion_def)
  have "fst (GetDatasetVersion ws (dv_Name (with_parents s r)) (dv_Version (with_parents s r)) s) = Inr (with_parents s r)"
    if "r \<in> set rs" for r
  proof -
    from that assms(7) have r: "r \<in> set (datasets_v2 s)" by blast
    from that assms(8) have "(d_id x, d_id r) \<in> edges\<^sup>+" by blast
    then have "(d_id x, d_id r) \<in> (set (dataset_lineage s))\<^sup>+ \<or> (d_id r, d_id x) \<in> (set (dataset_lineage s))\<^sup>+"
      using edges by (auto simp: trancl_converse)
    then have "d_workspace_id r = default_ws ws"
      using lineage_sound_trancl [OF assms(2,1)] r x by metis
    moreover have "first_row (\<lambda>d. d_key d = d_key r) (datasets_v2 s) = Some r"
      using db_okD(20) [OF assms(1)] r by (intro first_row_unique [where k = d_key]) (auto simp: datasets_ok_def pk_def)
    ultimately show ?thesis by (simp add: GetDatasetVersion_def sem_simps with_parents_def scanDatasetVersion_def)
  qed
  then show ?thesis using assms(5,6,8,9) by (auto simp: lineage_part_def ID image_image comp_def)
qed

text \<open>
  C16. \<open>GetDatasetLineage\<close> returns for every dataset version exactly its ancestors and its descendants, over any
  number of generations, as long as a side has fewer than 256 members; a longer side is cut to 256 of its members. Nothing is
  listed twice, and nothing from another workspace is listed.
\<close>

theorem GetDatasetLineage_complete:
  assumes "db_ok s" and "lineage_sound s" and "fst (GetDatasetVersion ws nm ver s) = Inr self"
  shows "\<exists>l. fst (GetDatasetLineage ws nm ver s) = Inr l \<and> dl_Self l = self \<and>
    lineage_part s ws (dv_ID self) (set (dataset_lineage s)) (dl_Ancestors l) \<and>
    lineage_part s ws (dv_ID self) ((set (dataset_lineage s))\<inverse>) (dl_Descendants l)"
proof -
  let ?E = "set (dataset_lineage s)"
  from assms(3) obtain x where row: "first_row (\<lambda>d. d_key d = (default_ws ws, nm, ver)) (datasets_v2 s) = Some x" and self: "self = with_parents s x"
    by (auto simp: GetDatasetVersion_def sem_simps split: option.splits)
  then have x: "x \<in> set (datasets_v2 s)" "d_workspace_id x = default_ws ws" by (auto dest: first_row_Some)
  have selfs: "dv_ID self = d_id x" "dv_Parents self = datasetParents (d_id x) s" by (simp_all add: self with_parents_def scanDatasetVersion_def)
  obtain vis anc where a: "walk maxLineageNodes d_id (\<lambda>i. datasetParents i s) (datasets_v2 s) (datasetParents (d_id x) s) {d_id x} [] = (vis, anc)"
    by fastforce
  obtain vis' desc where d: "desc_loop s [d_id x] vis [] = (vis', desc)" by fastforce
  have order: "j < i" if "(i, j) \<in> ?E\<^sup>+" for i j
    using lineage_sound_trancl [OF assms(2,1) that] lineage_ends [OF assms(1) that] by blast
  have pf: "set (datasetParents (d_id x) s) = ?E `` {d_id x}" by (force simp: datasetParents_def)
  have cf: "set (datasetChildren (d_id x) s) = ?E\<inverse> `` {d_id x}" by (force simp: datasetChildren_def)
  have pc: "?E\<^sup>+ `` {d_id x} \<subseteq> d_id ` set (datasets_v2 s)" using lineage_ends(2) [OF assms(1)] by blast
  have cc: "(?E\<inverse>)\<^sup>+ `` {d_id x} \<subseteq> d_id ` set (datasets_v2 s)" using lineage_ends(1) [OF assms(1)] by (auto simp: trancl_converse)
  have psep: "?E\<^sup>+ `` {d_id x} \<inter> {d_id x} = {}" using order by fastforce
  note anc = walk_part [OF a step_rel_parents [OF assms(1), symmetric] pf singletonI psep pc]
  have "d_id x \<in> vis" using walk_rows [OF a] by blast
  have dsep: "(?E\<inverse>)\<^sup>+ `` {d_id x} \<inter> vis = {}"
  proof -
    have "d_id x < j" if "j \<in> (?E\<inverse>)\<^sup>+ `` {d_id x}" for j using that order by (auto simp: trancl_converse)
    moreover have "j \<le> d_id x" if "j \<in> vis" for j using that anc(6) order by fastforce
    ultimately show ?thesis by fastforce
  qed
  from d have "walk maxLineageNodes d_id (\<lambda>i. datasetChildren i s) (datasets_v2 s) (datasetChildren (d_id x) s) vis [] = (vis', desc)"
    by (simp add: desc_loop_walk)
  note desc = walk_part [OF this step_rel_children [OF assms(1), symmetric] cf \<open>d_id x \<in> vis\<close> dsep cc]
  have "GetDatasetVersion ws nm ver s = (Inr self, s)" using row self by (simp add: GetDatasetVersion_def sem_simps)
  then have "fst (GetDatasetLineage ws nm ver s) = Inr \<lparr>dl_Self = self, dl_Ancestors = map (with_parents s) anc, dl_Descendants = map (with_parents s) desc\<rparr>"
    by (simp add: GetDatasetLineage_def sem_simps selfs a d)
  moreover have "lineage_part s ws (d_id x) ?E (map (with_parents s) anc)"
    by (rule lineage_part_rows [OF assms(1,2) x anc(1-5)]) simp_all
  moreover have "lineage_part s ws (d_id x) (?E\<inverse>) (map (with_parents s) desc)"
    by (rule lineage_part_rows [OF assms(1,2) x desc(1-5)]) simp_all
  ultimately show ?thesis by (simp add: selfs)
qed

text \<open>Two versions of "iris", the second derived from the first.\<close>

definition derived_db :: db where
  "derived_db = snd (CreateDatasetVersion sample_dataset [1, 1] datasets_db)"

lemma derived_db_eq:
  "\<exists>x. CreateDatasetVersion sample_dataset [1, 1] datasets_db = (Inr x, derived_db) \<and> dv_Version x = 2 \<and>
    dataset_lineage derived_db = [(2, 1)] \<and> map d_key (datasets_v2 derived_db) = [(''default'', ''iris'', 1), (''default'', ''iris'', 2)]"
  by (simp add: derived_db_def datasets_db_eq dataset_eval sample_name_valid sample_defs nilIfEmpty_def)

lemma lineage_sound_derived: "db_ok derived_db \<and> lineage_sound derived_db"
proof -
  have "lineage_sound sample_db" by (simp add: lineage_sound_def sample_defs)
  with db_ok_sample have "db_ok datasets_db \<and> lineage_sound datasets_db"
    unfolding datasets_db_def by (intro keepsD [OF keeps_lineage_sound]) simp
  then show ?thesis unfolding derived_db_def by (rule keepsD [OF keeps_lineage_sound])
qed

theorem CreateDatasetVersion_GetDatasetVersion_witness:
  "\<exists>x. CreateDatasetVersion sample_dataset [1, 1] datasets_db = (Inr x, derived_db) \<and>
    fst (GetDatasetVersion [] ''iris'' 2 derived_db) = Inr (x\<lparr>dv_Parents := [1]\<rparr>) \<and>
    fst (GetDatasetVersion [] ''iris'' 1 derived_db) = fst (GetDatasetVersion [] ''iris'' 1 datasets_db)"
proof -
  obtain x where x: "CreateDatasetVersion sample_dataset [1, 1] datasets_db = (Inr x, derived_db)" "dv_Version x = 2"
    using derived_db_eq by blast
  show ?thesis
    using CreateDatasetVersion_GetDatasetVersion [OF db_ok_datasets x(1)] x by (auto simp: sample_dataset_def)
qed

theorem GetDatasetLineage_complete_witness:
  "\<exists>self l. fst (GetDatasetVersion [] ''iris'' 2 derived_db) = Inr self \<and> fst (GetDatasetLineage [] ''iris'' 2 derived_db) = Inr l \<and>
    lineage_part derived_db [] (dv_ID self) (set (dataset_lineage derived_db)) (dl_Ancestors l)"
proof -
  have "\<exists>self. fst (GetDatasetVersion [] ''iris'' 2 derived_db) = Inr self"
    by (simp add: derived_db_def datasets_db_eq dataset_eval sample_name_valid sample_defs nilIfEmpty_def GetDatasetVersion_def)
  then obtain self where self: "fst (GetDatasetVersion [] ''iris'' 2 derived_db) = Inr self" by blast
  from GetDatasetLineage_complete [OF _ _ self] lineage_sound_derived self show ?thesis by blast
qed

end
