(* ===== verification/Inputs.thy ===== *)
theory Inputs
  imports Datasets
begin

text \<open>
  The dataset inputs of runs (\<open>internal/store/sqlite.go\<close>): \<open>LogInputs\<close> links a run to dataset versions, with an
  optional second write to the tables of version 0.3, and \<open>GetRunDatasets\<close> merges both link tables. \<open>v03\<close> is what
  the environment variable LITEMLFLOW_ENABLE_DATASETS_V03_WRITES says.
\<close>

section \<open>Statements\<close>

record Dataset =
  ds_Name :: string
  ds_Digest :: string
  ds_SourceType :: string
  ds_Source :: string
  ds_Schema :: string
  ds_Profile :: string

record DatasetInput =
  dsi_Dataset :: Dataset
  dsi_Tags :: "KV list"

definition insert_dataset_inputs_v2 :: "string \<Rightarrow> int \<Rightarrow> KV list \<Rightarrow> unit op" where
  "insert_dataset_inputs_v2 rid did ts = stmt
     (\<lambda>s. if has_key r_id rid (runs s) \<and> has_key d_id did (datasets_v2 s) then None else Some ErrForeignKey)
     (\<lambda>s. let i = dataset_inputs_v2_seq s + 1 in ((), s\<lparr>dataset_inputs_v2_seq := i, dataset_inputs_v2 := dataset_inputs_v2 s @
       [\<lparr>d2_id = i, d2_run_id = rid, d2_dataset_id = did, d2_tags = ts\<rparr>]\<rparr>))"

definition dm_upd :: "dataset_meta_row \<Rightarrow> dataset_meta_row \<Rightarrow> dataset_meta_row" where
  "dm_upd old new = old\<lparr>
     dm_source_type := (case dm_source_type new of None \<Rightarrow> dm_source_type old | x \<Rightarrow> x),
     dm_source := (case dm_source new of None \<Rightarrow> dm_source old | x \<Rightarrow> x),
     dm_schema := (case dm_schema new of None \<Rightarrow> dm_schema old | x \<Rightarrow> x),
     dm_profile := (case dm_profile new of None \<Rightarrow> dm_profile old | x \<Rightarrow> x)\<rparr>"

definition upsert_datasets :: "dataset_meta_row \<Rightarrow> unit op" where
  "upsert_datasets m = stmt (\<lambda>s. None) (\<lambda>s. ((), s\<lparr>datasets := upsert dm_pk dm_upd m (datasets s)\<rparr>))"

definition insert_dataset_inputs :: "string \<Rightarrow> string \<Rightarrow> string \<Rightarrow> int op" where
  "insert_dataset_inputs rid nm dig = stmt
     (\<lambda>s. if has_key r_id rid (runs s) \<and> has_key dm_pk (nm, dig) (datasets s) then None else Some ErrForeignKey)
     (\<lambda>s. let i = dataset_inputs_seq s + 1 in (i, s\<lparr>dataset_inputs_seq := i, dataset_inputs := dataset_inputs s @
       [\<lparr>di_id = i, di_run_id = rid, di_name = nm, di_digest = dig\<rparr>]\<rparr>))"

definition upsert_dataset_input_tags :: "int \<Rightarrow> KV \<Rightarrow> unit op" where
  "upsert_dataset_input_tags i t = stmt
     (\<lambda>s. if has_key di_id i (dataset_inputs s) then None else Some ErrForeignKey)
     (\<lambda>s. ((), s\<lparr>dataset_input_tags := upsert dt_pk (\<lambda>old new. old\<lparr>dt_value := dt_value new\<rparr>)
       \<lparr>dt_input_id = i, dt_key = kv_Key t, dt_value = kv_Value t\<rparr> (dataset_input_tags s)\<rparr>))"

section \<open>Logging\<close>

text \<open>The workspace of a run, over its experiment.\<close>

definition run_workspace :: "string \<Rightarrow> db \<Rightarrow> string option" where
  "run_workspace rid s =
     (case first_row (\<lambda>r. r_id r = rid) (runs s) of None \<Rightarrow> None
      | Some r \<Rightarrow> map_option e_workspace_id (first_row (\<lambda>e. e_id e = r_experiment_id r) (experiments s)))"

text \<open>The dataset version for a name and a digest, created when the workspace of the run has none.\<close>

definition insert_mirror :: "string \<Rightarrow> string \<Rightarrow> string \<Rightarrow> int op" where
  "insert_mirror ws nm dig =
     bnd (gets (next_dataset_version ws nm)) (\<lambda>ver.
     bnd now (\<lambda>n.
     insert_datasets_v2 (\<lambda>i. \<lparr>
       d_id = i, d_name = nm, d_version = ver, d_content_hash = dig, d_size_bytes = 0, d_schema_json = None, d_description = None,
       d_workspace_id = ws, d_created_at = n, d_created_by = None, d_lifecycle_stage = ''active''\<rparr>)))"

fun mirror_loop :: "nat \<Rightarrow> string \<Rightarrow> string \<Rightarrow> string \<Rightarrow> int op" where
  "mirror_loop 0 ws nm dig = throw (ErrOther ''UNIQUE constraint contention exhausted retries'')"
| "mirror_loop (Suc n) ws nm dig =
     bnd (gets (\<lambda>s. first_row (\<lambda>d. d_workspace_id d = ws \<and> d_name d = nm \<and> d_content_hash d = dig) (datasets_v2 s))) (\<lambda>row.
     case row of Some d \<Rightarrow> ret (d_id d)
     | None \<Rightarrow> catch (insert_mirror ws nm dig) (\<lambda>e. if isUniqueViolation e then mirror_loop n ws nm dig else throw e))"

definition mirrorIntoDatasetsV2Returning :: "string \<Rightarrow> string \<Rightarrow> string \<Rightarrow> int op" where
  "mirrorIntoDatasetsV2Returning rid nm dig =
     bnd (gets (run_workspace rid)) (\<lambda>row.
     case row of None \<Rightarrow> throw (ErrOther ''no rows'')
     | Some ws \<Rightarrow> mirror_loop 3 (default_ws ws) nm dig)"

text \<open>The column holds the JSON of the tags; strings lose what is not UTF-8.\<close>

definition encodeTagsJSON :: "KV list \<Rightarrow> KV list" where
  "encodeTagsJSON ts = map (\<lambda>t. \<lparr>kv_Key = utf8_coerce (kv_Key t), kv_Value = utf8_coerce (kv_Value t)\<rparr>) ts"

definition link_input :: "string \<Rightarrow> DatasetInput \<Rightarrow> unit op" where
  "link_input rid inp =
     (let ds = dsi_Dataset inp in
     bnd (mirrorIntoDatasetsV2Returning rid (ds_Name ds) (ds_Digest ds)) (\<lambda>did.
     bnd (insert_dataset_inputs_v2 rid did (encodeTagsJSON (dsi_Tags inp))) (\<lambda>_.
     upsert_datasets \<lparr>
        dm_name = ds_Name ds, dm_digest = ds_Digest ds, dm_source_type = nilIfEmpty (ds_SourceType ds), dm_source = nilIfEmpty (ds_Source ds),
        dm_schema = nilIfEmpty (ds_Schema ds), dm_profile = nilIfEmpty (ds_Profile ds)\<rparr>)))"

text \<open>The writes to the link tables of version 0.3.\<close>

definition link_legacy :: "string \<Rightarrow> DatasetInput \<Rightarrow> unit op" where
  "link_legacy rid inp =
     bnd (insert_dataset_inputs rid (ds_Name (dsi_Dataset inp)) (ds_Digest (dsi_Dataset inp))) (\<lambda>i.
     for_each (upsert_dataset_input_tags i) (dsi_Tags inp))"

definition log_input :: "bool \<Rightarrow> string \<Rightarrow> DatasetInput \<Rightarrow> unit op" where
  "log_input v03 rid inp = bnd (link_input rid inp) (\<lambda>_. if v03 then link_legacy rid inp else ret ())"

definition logInputsOnce :: "bool \<Rightarrow> string \<Rightarrow> DatasetInput list \<Rightarrow> unit op" where
  "logInputsOnce v03 rid inputs = tx (for_each (log_input v03 rid) inputs)"

fun log_inputs_loop :: "nat \<Rightarrow> unit op \<Rightarrow> unit op" where
  "log_inputs_loop 0 fn = throw (ErrOther ''LogInputs: snapshot-race retries exhausted'')"
| "log_inputs_loop (Suc n) fn = catch fn (\<lambda>e. if isSnapshotRaceErr e then log_inputs_loop n fn else throw e)"

definition LogInputs :: "bool \<Rightarrow> string \<Rightarrow> DatasetInput list \<Rightarrow> unit op" where
  "LogInputs v03 rid inputs =
     (if inputs = [] then ret ()
      else bnd (assertRunExists rid) (\<lambda>_. log_inputs_loop 6 (logInputsOnce v03 rid inputs)))"

section \<open>Reading\<close>

text \<open>The metadata cache, empty when it has no row.\<close>

definition input_of :: "db \<Rightarrow> string \<Rightarrow> string \<Rightarrow> KV list \<Rightarrow> DatasetInput" where
  "input_of s nm dig ts =
     (case first_row (\<lambda>m. dm_pk m = (nm, dig)) (datasets s) of
        None \<Rightarrow> \<lparr>dsi_Dataset = \<lparr>ds_Name = nm, ds_Digest = dig, ds_SourceType = [], ds_Source = [], ds_Schema = [], ds_Profile = []\<rparr>, dsi_Tags = ts\<rparr>
      | Some m \<Rightarrow> \<lparr>dsi_Dataset = \<lparr>
            ds_Name = nm, ds_Digest = dig, ds_SourceType = coalesce (dm_source_type m), ds_Source = coalesce (dm_source m),
            ds_Schema = coalesce (dm_schema m), ds_Profile = coalesce (dm_profile m)\<rparr>, dsi_Tags = ts\<rparr>)"

text \<open>
  The primary path. \<open>sort.Slice\<close> leaves the order of equal keys open; for up to twelve tags it is the insertion
  sort that \<open>sort_key\<close> is.
\<close>

definition primary_inputs :: "string \<Rightarrow> db \<Rightarrow> DatasetInput list" where
  "primary_inputs rid s =
     concat (map (\<lambda>r. case first_row (\<lambda>d. d_id d = d2_dataset_id r) (datasets_v2 s) of
         None \<Rightarrow> []
       | Some d \<Rightarrow> [input_of s (d_name d) (d_content_hash d) (sort_key kv_Key (d2_tags r))])
       (sort_key d2_id (filter (\<lambda>r. d2_run_id r = rid) (dataset_inputs_v2 s))))"

definition input_key :: "string \<Rightarrow> string \<Rightarrow> string" where
  "input_key nm dig = nm @ ''|'' @ dig"

definition legacy_tags :: "int \<Rightarrow> db \<Rightarrow> KV list" where
  "legacy_tags i s = map (\<lambda>t. \<lparr>kv_Key = dt_key t, kv_Value = dt_value t\<rparr>)
     (sort_key dt_key (filter (\<lambda>t. dt_input_id t = i) (dataset_input_tags s)))"

definition legacy_inputs :: "string set \<Rightarrow> string \<Rightarrow> db \<Rightarrow> DatasetInput list" where
  "legacy_inputs seen rid s =
     concat (map (\<lambda>r. if has_key dm_pk (di_ref r) (datasets s) \<and> input_key (di_name r) (di_digest r) \<notin> seen
         then [input_of s (di_name r) (di_digest r) (legacy_tags (di_id r) s)] else [])
       (sort_key di_id (filter (\<lambda>r. di_run_id r = rid) (dataset_inputs s))))"

definition GetRunDatasets :: "string \<Rightarrow> db \<Rightarrow> DatasetInput list" where
  "GetRunDatasets rid s =
     (let inputs = primary_inputs rid s;
          seen = set (map (\<lambda>i. input_key (ds_Name (dsi_Dataset i)) (ds_Digest (dsi_Dataset i))) inputs)
      in inputs @ legacy_inputs seen rid s)"

section \<open>Integrity\<close>

lemma keeps_insert_dataset_inputs_v2 [keeps_intros]: "keeps db_ok (insert_dataset_inputs_v2 rid did ts)"
  unfolding insert_dataset_inputs_v2_def
proof (rule keeps_stmt, goal_cases)
  case (1 s)
  note ok = db_okD [OF 1(1)]
  let ?i = "dataset_inputs_v2_seq s + 1"
  have "inputs_v2_ok (keys r_id (runs s)) (keys d_id (datasets_v2 s)) ?i
      (dataset_inputs_v2 s @ [\<lparr>d2_id = ?i, d2_run_id = rid, d2_dataset_id = did, d2_tags = ts\<rparr>])"
    using ok(25) 1(2) below_fresh [of d2_id "dataset_inputs_v2_seq s" "dataset_inputs_v2 s" ?i]
    by (auto simp: inputs_v2_ok_def schema_rules has_key_iff split: if_splits intro: below_mono)
  with ok show ?case by (simp add: db_ok_def Let_def)
qed

lemma dm_pk_upd [simp]: "dm_name (dm_upd old new) = dm_name old" "dm_digest (dm_upd old new) = dm_digest old"
  by (simp_all add: dm_upd_def)

lemma keeps_upsert_datasets [keeps_intros]: "keeps db_ok (upsert_datasets m)"
  unfolding upsert_datasets_def
proof (rule keeps_stmt, goal_cases)
  case (1 s)
  note ok = db_okD [OF 1(1)]
  have "keys dm_pk (upsert dm_pk dm_upd m (datasets s)) = insert (dm_pk m) (keys dm_pk (datasets s))"
    by (rule keys_upsert_mem) simp
  then have "inputs_ok (keys r_id (runs s)) (upsert dm_pk dm_upd m (datasets s)) (dataset_inputs_seq s) (dataset_inputs s) (dataset_input_tags s)"
    using ok(24) by (auto simp: inputs_ok_def intro!: pk_upsert intro: fk_mono)
  with ok show ?case by (simp add: db_ok_def)
qed

lemma keeps_insert_dataset_inputs [keeps_intros]: "keeps db_ok (insert_dataset_inputs rid nm dig)"
  unfolding insert_dataset_inputs_def
proof (rule keeps_stmt, goal_cases)
  case (1 s)
  note ok = db_okD [OF 1(1)]
  let ?i = "dataset_inputs_seq s + 1"
  have "inputs_ok (keys r_id (runs s)) (datasets s) ?i
      (dataset_inputs s @ [\<lparr>di_id = ?i, di_run_id = rid, di_name = nm, di_digest = dig\<rparr>]) (dataset_input_tags s)"
    using ok(24) 1(2) below_fresh [of di_id "dataset_inputs_seq s" "dataset_inputs s" ?i]
    by (auto simp: inputs_ok_def schema_rules has_key_iff split: if_splits intro: below_mono fk_mono)
  with ok show ?case by (simp add: db_ok_def Let_def)
qed

lemma keeps_upsert_dataset_input_tags [keeps_intros]: "keeps db_ok (upsert_dataset_input_tags i t)"
  unfolding upsert_dataset_input_tags_def
proof (rule keeps_stmt, goal_cases)
  case (1 s)
  note ok = db_okD [OF 1(1)]
  let ?r = "\<lparr>dt_input_id = i, dt_key = kv_Key t, dt_value = kv_Value t\<rparr>"
  let ?u = "\<lambda>old new. old\<lparr>dt_value := dt_value new\<rparr>"
  have "pk dt_pk (upsert dt_pk ?u ?r (dataset_input_tags s))" using ok(24) by (intro pk_upsert) (simp_all add: inputs_ok_def)
  moreover have "fk dt_input_id (upsert dt_pk ?u ?r (dataset_input_tags s)) (keys di_id (dataset_inputs s))"
    using ok(24) 1(2) by (intro fk_upsert) (auto simp: inputs_ok_def has_key_iff split: if_splits)
  ultimately have "inputs_ok (keys r_id (runs s)) (datasets s) (dataset_inputs_seq s) (dataset_inputs s)
      (upsert dt_pk ?u ?r (dataset_input_tags s))" using ok(24) by (simp add: inputs_ok_def)
  with ok show ?case by (simp add: db_ok_def)
qed

lemma keeps_mirror_loop [keeps_intros]: "keeps db_ok (mirror_loop n ws nm dig)"
  by (induction n) (auto simp: insert_mirror_def intro!: keeps_intros)

lemma keeps_log_input [keeps_intros]: "keeps db_ok (log_input v03 rid inp)"
  unfolding log_input_def link_input_def link_legacy_def mirrorIntoDatasetsV2Returning_def by (intro keeps_intros)

lemma keeps_log_inputs_loop: "keeps P fn \<Longrightarrow> keeps P (log_inputs_loop n fn)"
  by (induction n) (auto intro!: keeps_intros)

lemma keeps_LogInputs [keeps_intros]: "keeps db_ok (LogInputs v03 rid inputs)"
  unfolding LogInputs_def assertRunExists_def logInputsOnce_def by (intro keeps_intros keeps_log_inputs_loop)

section \<open>What one input writes\<close>

definition mirror_row :: "string \<Rightarrow> string \<Rightarrow> string \<Rightarrow> db \<Rightarrow> dataset_row" where
  "mirror_row ws nm dig s = \<lparr>
     d_id = datasets_v2_seq s + 1, d_name = nm, d_version = next_dataset_version ws nm s, d_content_hash = dig, d_size_bytes = 0,
     d_schema_json = None, d_description = None, d_workspace_id = ws, d_created_at = clock s (clock_pos s), d_created_by = None,
     d_lifecycle_stage = ''active''\<rparr>"

lemma insert_mirror_ok:
  "insert_mirror ws nm dig s = (Inr (datasets_v2_seq s + 1), s\<lparr>clock_pos := Suc (clock_pos s), datasets_v2_seq := datasets_v2_seq s + 1,
     datasets_v2 := datasets_v2 s @ [mirror_row ws nm dig s]\<rparr>)"
  using next_dataset_version_fresh [of ws nm s]
  by (simp add: insert_mirror_def sem_simps insert_datasets_v2_def Let_def run_stages_def lifecycle_defs mirror_row_def)

lemma mirror_loop_eq:
  "mirror_loop (Suc k) ws nm dig s =
    (case first_row (\<lambda>d. d_workspace_id d = ws \<and> d_name d = nm \<and> d_content_hash d = dig) (datasets_v2 s) of
       Some d \<Rightarrow> (Inr (d_id d), s) | None \<Rightarrow> insert_mirror ws nm dig s)"
  by (simp add: sem_simps insert_mirror_ok split: option.split)

text \<open>
  The dataset of an input: found, or created with the next id. \<open>linked s rs i nm dig\<close> says that the dataset \<open>i\<close>
  has the name and the digest once the rows \<open>rs\<close> are added.
\<close>

definition linked :: "dataset_row list \<Rightarrow> int \<Rightarrow> string \<Rightarrow> string \<Rightarrow> bool" where
  "linked ds i nm dig \<longleftrightarrow> (case first_row (\<lambda>d. d_id d = i) ds of None \<Rightarrow> False | Some d \<Rightarrow> d_name d = nm \<and> d_content_hash d = dig)"

lemma linked_append: "linked ds i nm dig \<Longrightarrow> linked (ds @ es) i nm dig"
  by (simp add: linked_def first_row_append split: option.splits)

lemma mirror_loop_ok:
  assumes "db_ok s"
  shows "\<exists>i n q es. mirror_loop (Suc k) ws nm dig s = (Inr i, s\<lparr>clock_pos := n, datasets_v2_seq := q, datasets_v2 := datasets_v2 s @ es\<rparr>) \<and>
    linked (datasets_v2 s @ es) i nm dig"
proof (cases "first_row (\<lambda>d. d_workspace_id d = ws \<and> d_name d = nm \<and> d_content_hash d = dig) (datasets_v2 s)")
  case None
  have "\<forall>r\<in>set (datasets_v2 s). d_id r \<noteq> datasets_v2_seq s + 1"
    using db_okD(20) [OF assms] by (auto simp: datasets_ok_def below_def)
  then have "first_row (\<lambda>d. d_id d = datasets_v2_seq s + 1) (datasets_v2 s) = None" by (simp add: first_row_None)
  then have "linked (datasets_v2 s @ [mirror_row ws nm dig s]) (datasets_v2_seq s + 1) nm dig"
    by (simp add: linked_def first_row_append first_row_Cons mirror_row_def)
  then show ?thesis unfolding mirror_loop_eq None option.case insert_mirror_ok by (intro exI conjI) (rule refl, assumption)
next
  case (Some d)
  then have d: "d \<in> set (datasets_v2 s)" "d_name d = nm" "d_content_hash d = dig" by (auto dest: first_row_Some)
  have "first_row (\<lambda>e. d_id e = d_id d) (datasets_v2 s) = Some d"
    using db_okD(20) [OF assms] d(1) by (intro first_row_unique [where k = d_id]) (auto simp: datasets_ok_def pk_def)
  then have "linked (datasets_v2 s @ []) (d_id d) nm dig" using d by (simp add: linked_def)
  moreover have "mirror_loop (Suc k) ws nm dig s =
      (Inr (d_id d), s\<lparr>clock_pos := clock_pos s, datasets_v2_seq := datasets_v2_seq s, datasets_v2 := datasets_v2 s @ []\<rparr>)"
    unfolding mirror_loop_eq Some by simp
  ultimately show ?thesis by (intro exI conjI)
qed

lemma run_workspace_ok:
  assumes "db_ok s" and "has_key r_id rid (runs s)"
  shows "\<exists>ws. run_workspace rid s = Some ws"
proof -
  obtain r where r: "first_row (\<lambda>r. r_id r = rid) (runs s) = Some r"
    using assms(2) first_row_None [of "\<lambda>r. r_id r = rid" "runs s"] by (auto simp: has_key_def list_ex_iff)
  then have "r_experiment_id r \<in> keys e_id (experiments s)"
    using db_okD(5) [OF assms(1)] first_row_Some [OF r] by (auto simp: runs_ok_def fk_def)
  then have "first_row (\<lambda>e. e_id e = r_experiment_id r) (experiments s) \<noteq> None" by (simp add: first_row_keys)
  with r show ?thesis by (auto simp: run_workspace_def)
qed

text \<open>The state after one input, in the tables it writes.\<close>

definition after_link :: "string \<Rightarrow> DatasetInput \<Rightarrow> int \<Rightarrow> nat \<Rightarrow> int \<Rightarrow> dataset_row list \<Rightarrow> db \<Rightarrow> db" where
  "after_link rid inp i n q es s = s\<lparr>
     clock_pos := n, datasets_v2_seq := q, datasets_v2 := datasets_v2 s @ es,
     dataset_inputs_v2_seq := dataset_inputs_v2_seq s + 1,
     dataset_inputs_v2 := dataset_inputs_v2 s @ [\<lparr>d2_id = dataset_inputs_v2_seq s + 1, d2_run_id = rid, d2_dataset_id = i, d2_tags = encodeTagsJSON (dsi_Tags inp)\<rparr>],
     datasets := upsert dm_pk dm_upd \<lparr>
        dm_name = ds_Name (dsi_Dataset inp), dm_digest = ds_Digest (dsi_Dataset inp), dm_source_type = nilIfEmpty (ds_SourceType (dsi_Dataset inp)),
        dm_source = nilIfEmpty (ds_Source (dsi_Dataset inp)), dm_schema = nilIfEmpty (ds_Schema (dsi_Dataset inp)),
        dm_profile = nilIfEmpty (ds_Profile (dsi_Dataset inp))\<rparr> (datasets s)\<rparr>"

lemma link_input_ok:
  assumes "db_ok s" and "has_key r_id rid (runs s)"
  shows "\<exists>i n q es. link_input rid inp s = (Inr (), after_link rid inp i n q es s) \<and>
    linked (datasets_v2 s @ es) i (ds_Name (dsi_Dataset inp)) (ds_Digest (dsi_Dataset inp))"
proof -
  obtain ws where ws: "run_workspace rid s = Some ws" using run_workspace_ok [OF assms] by blast
  have three: "(3::nat) = Suc 2" by simp
  obtain i n q es where m: "mirror_loop 3 (default_ws ws) (ds_Name (dsi_Dataset inp)) (ds_Digest (dsi_Dataset inp)) s =
      (Inr i, s\<lparr>clock_pos := n, datasets_v2_seq := q, datasets_v2 := datasets_v2 s @ es\<rparr>)"
    and l: "linked (datasets_v2 s @ es) i (ds_Name (dsi_Dataset inp)) (ds_Digest (dsi_Dataset inp))"
    using mirror_loop_ok [OF assms(1), of 2] unfolding three by blast
  from l have "has_key d_id i (datasets_v2 s @ es)"
    by (auto simp: linked_def has_key_def list_ex_iff split: option.splits dest!: first_row_Some)
  with assms(2) m ws have "link_input rid inp s = (Inr (), after_link rid inp i n q es s)"
    by (simp add: link_input_def mirrorIntoDatasetsV2Returning_def sem_simps insert_dataset_inputs_v2_def upsert_datasets_def
        after_link_def Let_def)
  with l show ?thesis by blast
qed

section \<open>The legacy tables do not change what is read\<close>

text \<open>The writes of the opt-in: rows and tags that are added to the legacy tables only.\<close>

definition with_legacy :: "dataset_input_row list \<Rightarrow> int \<Rightarrow> dataset_input_tag_row list \<Rightarrow> db \<Rightarrow> db" where
  "with_legacy xs q ys s = s\<lparr>dataset_inputs := dataset_inputs s @ xs, dataset_inputs_seq := q, dataset_input_tags := dataset_input_tags s @ ys\<rparr>"

lemma link_input_with_legacy:
  assumes "db_ok s" and "has_key r_id rid (runs s)" and "link_input rid inp s = (Inr (), t)"
  shows "link_input rid inp (with_legacy xs q ys s) = (Inr (), with_legacy xs q ys t)"
proof -
  have w: "run_workspace rid (with_legacy xs q ys s) = run_workspace rid s" for s
    by (simp add: run_workspace_def with_legacy_def cong: option.case_cong)
  have ins: "insert_mirror ws nm dig (with_legacy xs q ys s) = (case insert_mirror ws nm dig s of (r, t) \<Rightarrow> (r, with_legacy xs q ys t))" for ws nm dig s
    by (simp add: insert_mirror_ok mirror_row_def with_legacy_def next_dataset_version_def)
  have m: "mirror_loop k ws nm dig (with_legacy xs q ys s) = (case mirror_loop k ws nm dig s of (r, t) \<Rightarrow> (r, with_legacy xs q ys t))" for k ws nm dig s
  proof (cases k)
    case (Suc j)
    have "datasets_v2 (with_legacy xs q ys s) = datasets_v2 s" by (simp add: with_legacy_def)
    then show ?thesis using ins [of ws nm dig s] by (simp add: Suc mirror_loop_eq split: option.split del: mirror_loop.simps)
  qed (simp add: sem_simps)
  have v2: "insert_dataset_inputs_v2 rid did ts (with_legacy xs q ys s) =
      (case insert_dataset_inputs_v2 rid did ts s of (r, t) \<Rightarrow> (r, with_legacy xs q ys t))" for did ts s
    by (simp add: insert_dataset_inputs_v2_def stmt_def Let_def with_legacy_def)
  have up: "upsert_datasets row (with_legacy xs q ys s) = (case upsert_datasets row s of (r, t) \<Rightarrow> (r, with_legacy xs q ys t))" for row s
    by (simp add: upsert_datasets_def stmt_def with_legacy_def)
  from assms(3) show ?thesis unfolding link_input_def Let_def mirrorIntoDatasetsV2Returning_def
    by (auto simp: sem_simps w m v2 up split: option.splits sum.splits prod.splits)
qed

text \<open>
  The legacy rows that one call adds: they belong to the run, have new ids, name datasets that the primary link table has
  for the run, and the added tags are tags of these rows.
\<close>

definition legacy_new :: "string \<Rightarrow> int \<Rightarrow> db \<Rightarrow> dataset_input_row list \<Rightarrow> int \<Rightarrow> dataset_input_tag_row list \<Rightarrow> bool" where
  "legacy_new rid n t xs q ys \<longleftrightarrow> n \<le> q \<and>
     (\<forall>x\<in>set xs. di_run_id x = rid \<and> n < di_id x \<and> di_id x \<le> q \<and>
        (\<exists>v\<in>set (dataset_inputs_v2 t). d2_run_id v = rid \<and> linked (datasets_v2 t) (d2_dataset_id v) (di_name x) (di_digest x))) \<and>
     (\<forall>y\<in>set ys. n < dt_input_id y)"

lemma upsert_fresh_part:
  assumes "\<forall>y\<in>set ys. key y \<noteq> key r"
  shows "upsert key upd r (ys @ zs) = ys @ upsert key upd r zs"
  using assms by (auto simp: upsert_def list_ex_iff intro: map_idI)

lemma legacy_tags_loop:
  assumes "has_key di_id i (dataset_inputs t @ xs)" and "\<forall>y\<in>set (dataset_input_tags t). dt_input_id y < i" and "\<forall>y\<in>set ys. n < dt_input_id y" and "n < i"
  shows "\<exists>ys'. for_each (upsert_dataset_input_tags i) ts (with_legacy xs q ys t) = (Inr (), with_legacy xs q ys' t) \<and> (\<forall>y\<in>set ys'. n < dt_input_id y)"
  using assms(3)
proof (induction ts arbitrary: ys)
  case Nil
  then show ?case by (auto simp: sem_simps)
next
  case (Cons g ts)
  let ?u = "\<lambda>old new. old\<lparr>dt_value := dt_value new\<rparr>" and ?r = "\<lparr>dt_input_id = i, dt_key = kv_Key g, dt_value = kv_Value g\<rparr>"
  have "upsert dt_pk ?u ?r (dataset_input_tags t @ ys) = dataset_input_tags t @ upsert dt_pk ?u ?r ys"
    using assms(2) by (intro upsert_fresh_part) auto
  then have "upsert_dataset_input_tags i g (with_legacy xs q ys t) = (Inr (), with_legacy xs q (upsert dt_pk ?u ?r ys) t)"
    using assms(1) by (simp add: upsert_dataset_input_tags_def sem_simps with_legacy_def)
  moreover have "\<forall>y\<in>set (upsert dt_pk ?u ?r ys). n < dt_input_id y"
    using Cons.prems assms(4) by (auto simp: upsert_def)
  ultimately show ?case using Cons.IH [of "upsert dt_pk ?u ?r ys"] by (simp add: sem_simps)
qed

lemma runs_after_link [simp]: "runs (after_link rid inp i n q es s) = runs s"
  "dataset_inputs (after_link rid inp i n q es s) = dataset_inputs s"
  "dataset_inputs_seq (after_link rid inp i n q es s) = dataset_inputs_seq s"
  "dataset_input_tags (after_link rid inp i n q es s) = dataset_input_tags s"
  by (simp_all add: after_link_def)

lemma link_legacy_ok:
  assumes "db_ok t" and "has_key r_id rid (runs t)" and "has_key dm_pk (ds_Name (dsi_Dataset inp), ds_Digest (dsi_Dataset inp)) (datasets t)"
    and "legacy_new rid (dataset_inputs_seq t) t xs q ys"
    and "v \<in> set (dataset_inputs_v2 t)" "d2_run_id v = rid" "linked (datasets_v2 t) (d2_dataset_id v) (ds_Name (dsi_Dataset inp)) (ds_Digest (dsi_Dataset inp))"
  shows "\<exists>xs' q' ys'. link_legacy rid inp (with_legacy xs q ys t) = (Inr (), with_legacy xs' q' ys' t) \<and>
    legacy_new rid (dataset_inputs_seq t) t xs' q' ys'"
proof -
  let ?n = "dataset_inputs_seq t"
  let ?x = "\<lparr>di_id = q + 1, di_run_id = rid, di_name = ds_Name (dsi_Dataset inp), di_digest = ds_Digest (dsi_Dataset inp)\<rparr>"
  have n: "?n \<le> q" using assms(4) by (simp add: legacy_new_def)
  have "insert_dataset_inputs rid (ds_Name (dsi_Dataset inp)) (ds_Digest (dsi_Dataset inp)) (with_legacy xs q ys t) =
      (Inr (q + 1), with_legacy (xs @ [?x]) (q + 1) ys t)"
    using assms(2,3) by (simp add: insert_dataset_inputs_def sem_simps with_legacy_def Let_def)
  moreover have "\<forall>y\<in>set (dataset_input_tags t). dt_input_id y < q + 1"
    using db_okD(24) [OF assms(1)] n by (fastforce simp: inputs_ok_def fk_def below_def keys_def)
  then obtain ys' where "for_each (upsert_dataset_input_tags (q + 1)) (dsi_Tags inp) (with_legacy (xs @ [?x]) (q + 1) ys t) =
      (Inr (), with_legacy (xs @ [?x]) (q + 1) ys' t)" "\<forall>y\<in>set ys'. ?n < dt_input_id y"
    using legacy_tags_loop [of "q + 1" t "xs @ [?x]" ys ?n "dsi_Tags inp" "q + 1"] assms(4) n by (auto simp: has_key_def legacy_new_def)
  moreover from this(2) have "legacy_new rid ?n t (xs @ [?x]) (q + 1) ys'"
    using assms(4-7) n by (auto simp: legacy_new_def)
  ultimately show ?thesis by (auto simp: link_legacy_def sem_simps)
qed

lemma legacy_new_after_link:
  "legacy_new rid n s xs q ys \<Longrightarrow> legacy_new rid n (after_link rid inp i m k es s) xs q ys"
  unfolding legacy_new_def after_link_def by (fastforce intro: linked_append)

lemma log_inputs_legacy:
  assumes "db_ok s" and "has_key r_id rid (runs s)" and "legacy_new rid (dataset_inputs_seq s) s xs q ys"
  shows "\<exists>t xs' q' ys'. for_each (log_input False rid) inputs s = (Inr (), t) \<and>
    for_each (log_input True rid) inputs (with_legacy xs q ys s) = (Inr (), with_legacy xs' q' ys' t) \<and>
    legacy_new rid (dataset_inputs_seq t) t xs' q' ys' \<and> db_ok t"
  using assms
proof (induction inputs arbitrary: s xs q ys)
  case Nil
  then show ?case by (auto simp: sem_simps)
next
  case (Cons inp inputs)
  from link_input_ok [OF Cons.prems(1,2), of inp] obtain i n k es where
    l: "link_input rid inp s = (Inr (), after_link rid inp i n k es s)" (is "_ = (_, ?u)")
    and linked: "linked (datasets_v2 s @ es) i (ds_Name (dsi_Dataset inp)) (ds_Digest (dsi_Dataset inp))" by blast
  have F: "log_input False rid inp s = (Inr (), ?u)" by (simp add: log_input_def sem_simps l)
  have u: "db_ok ?u" using keepsD2 [OF keeps_log_input Cons.prems(1) F] .
  have ru: "has_key r_id rid (runs ?u)" using Cons.prems(2) by simp
  have meta: "has_key dm_pk (ds_Name (dsi_Dataset inp), ds_Digest (dsi_Dataset inp)) (datasets ?u)"
    by (simp add: has_key_iff after_link_def keys_upsert_mem)
  have new: "legacy_new rid (dataset_inputs_seq ?u) ?u xs q ys" using Cons.prems(3) by (simp add: legacy_new_after_link)
  obtain xs1 q1 ys1 where L: "link_legacy rid inp (with_legacy xs q ys ?u) = (Inr (), with_legacy xs1 q1 ys1 ?u)"
    and new1: "legacy_new rid (dataset_inputs_seq ?u) ?u xs1 q1 ys1"
    using link_legacy_ok [OF u ru meta new, of "\<lparr>d2_id = dataset_inputs_v2_seq s + 1, d2_run_id = rid, d2_dataset_id = i, d2_tags = encodeTagsJSON (dsi_Tags inp)\<rparr>"] linked
    by (auto simp: after_link_def)
  have T: "log_input True rid inp (with_legacy xs q ys s) = (Inr (), with_legacy xs1 q1 ys1 ?u)"
    by (simp add: log_input_def sem_simps link_input_with_legacy [OF Cons.prems(1,2) l] L)
  from Cons.IH [OF u ru new1] F T show ?case by (simp add: sem_simps)
qed

lemma primary_keys:
  assumes "db_ok t" and "v \<in> set (dataset_inputs_v2 t)" "d2_run_id v = rid" "linked (datasets_v2 t) (d2_dataset_id v) nm dig"
  shows "input_key nm dig \<in> (\<lambda>i. input_key (ds_Name (dsi_Dataset i)) (ds_Digest (dsi_Dataset i))) ` set (primary_inputs rid t)"
proof -
  from assms(4) obtain d where d: "first_row (\<lambda>d. d_id d = d2_dataset_id v) (datasets_v2 t) = Some d" "d_name d = nm" "d_content_hash d = dig"
    by (auto simp: linked_def split: option.splits)
  have names: "ds_Name (dsi_Dataset (input_of t nm dig ts)) = nm" "ds_Digest (dsi_Dataset (input_of t nm dig ts)) = dig" for ts
    by (simp_all add: input_of_def split: option.split)
  have "input_of t nm dig (sort_key kv_Key (d2_tags v)) \<in> set (primary_inputs rid t)"
    unfolding primary_inputs_def using d assms(2,3) by (auto intro!: bexI [of _ v])
  then show ?thesis using names by (metis (mono_tags, lifting) imageI)
qed

lemma GetRunDatasets_with_legacy:
  assumes "db_ok t" and "legacy_new rid (dataset_inputs_seq t) t xs q ys"
  shows "GetRunDatasets r (with_legacy xs q ys t) = GetRunDatasets r t"
proof -
  let ?t = "with_legacy xs q ys t" and ?n = "dataset_inputs_seq t"
  let ?seen = "(\<lambda>i. input_key (ds_Name (dsi_Dataset i)) (ds_Digest (dsi_Dataset i))) ` set (primary_inputs r t)"
  have inp: "input_of ?t = input_of t" by (simp add: input_of_def with_legacy_def fun_eq_iff)
  have "datasets_v2 ?t = datasets_v2 t" "dataset_inputs_v2 ?t = dataset_inputs_v2 t" by (simp_all add: with_legacy_def)
  then have prim: "primary_inputs r ?t = primary_inputs r t" by (simp only: primary_inputs_def inp)
  have old: "di_id x \<le> ?n" if "x \<in> set (dataset_inputs t)" for x
    using db_okD(24) [OF assms(1)] that by (simp add: inputs_ok_def below_def)
  let ?f = "\<lambda>s x. if has_key dm_pk (di_ref x) (datasets s) \<and> input_key (di_name x) (di_digest x) \<notin> ?seen
         then [input_of s (di_name x) (di_digest x) (legacy_tags (di_id x) s)] else []"
  have f: "?f ?t x = ?f t x" if "x \<in> set (dataset_inputs t)" for x
  proof -
    have "filter (\<lambda>y. dt_input_id y = di_id x) ys = []"
      using old [OF that] assms(2) by (fastforce simp: filter_empty_conv legacy_new_def)
    then have "legacy_tags (di_id x) ?t = legacy_tags (di_id x) t" by (simp add: legacy_tags_def with_legacy_def)
    moreover have "datasets ?t = datasets t" by (simp add: with_legacy_def)
    ultimately show ?thesis by (simp add: inp)
  qed
  have "?f ?t x = []" if "x \<in> set xs" "di_run_id x = r" for x
    using that assms(2) primary_keys [OF assms(1)] by (fastforce simp: legacy_new_def)
  then have "\<forall>x\<in>set (filter (\<lambda>x. di_run_id x = r) xs). ?f ?t x = []" by simp
  moreover have "dataset_inputs ?t = dataset_inputs t @ xs" by (simp add: with_legacy_def)
  ultimately have "concat (map (?f ?t) (sort_key di_id (filter (\<lambda>x. di_run_id x = r) (dataset_inputs ?t)))) =
      concat (map (?f ?t) (sort_key di_id (filter (\<lambda>x. di_run_id x = r) (dataset_inputs t))))"
    using concat_sort_key_append [of "filter (\<lambda>x. di_run_id x = r) xs" "?f ?t" di_id "filter (\<lambda>x. di_run_id x = r) (dataset_inputs t)"]
    by (simp only: filter_append)
  also have "\<dots> = concat (map (?f t) (sort_key di_id (filter (\<lambda>x. di_run_id x = r) (dataset_inputs t))))"
    by (intro arg_cong [where f = concat] map_cong refl f) simp
  finally have "legacy_inputs ?seen r ?t = legacy_inputs ?seen r t" unfolding legacy_inputs_def .
  then show ?thesis by (simp add: GetRunDatasets_def Let_def prim)
qed

lemma LogInputs_run:
  assumes "has_key r_id rid (runs s)" and "for_each (log_input v03 rid) inputs s = (Inr (), t)"
  shows "LogInputs v03 rid inputs s = (Inr (), t)"
proof -
  have "logInputsOnce v03 rid inputs s = (Inr (), t)" by (simp add: logInputsOnce_def tx_def assms(2))
  then have "log_inputs_loop 6 (logInputsOnce v03 rid inputs) s = (Inr (), t)" by (simp add: numeral_eq_Suc sem_simps)
  moreover from assms(1) have "first_row (\<lambda>r. r_id r = rid) (runs s) \<noteq> None" by (auto simp: first_row_None has_key_def list_ex_iff)
  ultimately show ?thesis using assms(2) by (auto simp: LogInputs_def sem_simps assertRunExists_def)
qed

section \<open>Reading back\<close>

definition input_view :: "DatasetInput \<Rightarrow> string \<times> string \<times> KV list" where
  "input_view i = (ds_Name (dsi_Dataset i), ds_Digest (dsi_Dataset i), dsi_Tags i)"

definition logged_view :: "DatasetInput \<Rightarrow> string \<times> string \<times> KV list" where
  "logged_view i = (ds_Name (dsi_Dataset i), ds_Digest (dsi_Dataset i), sort_key kv_Key (encodeTagsJSON (dsi_Tags i)))"

lemma input_view_of: "input_view (input_of s nm dig ts) = (nm, dig, ts)"
  by (simp add: input_view_def input_of_def split: option.split)

lemma primary_after_link:
  assumes "db_ok s" and "linked (datasets_v2 s @ es) i (ds_Name (dsi_Dataset inp)) (ds_Digest (dsi_Dataset inp))"
  shows "map input_view (primary_inputs r (after_link rid inp i n q es s)) =
    map input_view (primary_inputs r s) @ (if r = rid then [logged_view inp] else [])"
proof -
  let ?t = "after_link rid inp i n q es s" and ?n = "dataset_inputs_v2_seq s"
  let ?new = "\<lparr>d2_id = ?n + 1, d2_run_id = rid, d2_dataset_id = i, d2_tags = encodeTagsJSON (dsi_Tags inp)\<rparr>"
  let ?v = "\<lambda>ds x. case first_row (\<lambda>d. d_id d = d2_dataset_id x) ds of None \<Rightarrow> [] | Some d \<Rightarrow> [(d_name d, d_content_hash d, sort_key kv_Key (d2_tags x))]"
  have views: "map input_view (primary_inputs r s) =
      concat (map (?v (datasets_v2 s)) (sort_key d2_id (filter (\<lambda>x. d2_run_id x = r) (dataset_inputs_v2 s))))" for s
    unfolding primary_inputs_def map_concat map_map
    by (intro arg_cong [where f = concat] map_cong refl) (simp add: input_view_of split: option.split)
  have ok: "inputs_v2_ok (keys r_id (runs s)) (keys d_id (datasets_v2 s)) ?n (dataset_inputs_v2 s)" by (rule db_okD(25) [OF assms(1)])
  then have "\<forall>x\<in>set (filter (\<lambda>x. d2_run_id x = r) (dataset_inputs_v2 s)). d2_id x \<le> ?n + 1"
    by (auto simp: inputs_v2_ok_def below_def)
  then have e1: "sort_key d2_id (filter (\<lambda>x. d2_run_id x = r) (dataset_inputs_v2 s @ [?new])) =
      sort_key d2_id (filter (\<lambda>x. d2_run_id x = r) (dataset_inputs_v2 s)) @ (if r = rid then [?new] else [])"
    using sort_key_snoc [of "filter (\<lambda>x. d2_run_id x = r) (dataset_inputs_v2 s)" d2_id ?new] by auto
  have "?v (datasets_v2 s @ es) x = ?v (datasets_v2 s) x" if "x \<in> set (dataset_inputs_v2 s)" for x
  proof -
    have "first_row (\<lambda>d. d_id d = d2_dataset_id x) (datasets_v2 s) \<noteq> None"
      using ok that by (simp add: first_row_keys inputs_v2_ok_def fk_def)
    then show ?thesis by (auto simp: first_row_append)
  qed
  then have e2: "map (?v (datasets_v2 s @ es)) (sort_key d2_id (filter (\<lambda>x. d2_run_id x = r) (dataset_inputs_v2 s))) =
      map (?v (datasets_v2 s)) (sort_key d2_id (filter (\<lambda>x. d2_run_id x = r) (dataset_inputs_v2 s)))"
    by (intro map_cong refl) simp
  have e3: "?v (datasets_v2 s @ es) ?new = [logged_view inp]"
    using assms(2) by (auto simp: linked_def logged_view_def split: option.splits)
  have e4: "datasets_v2 ?t = datasets_v2 s @ es" "dataset_inputs_v2 ?t = dataset_inputs_v2 s @ [?new]" by (simp_all add: after_link_def)
  show ?thesis unfolding views e4 e1 map_append concat_append e2 using e3 by (cases "r = rid") simp_all
qed

lemma primary_log_inputs:
  assumes "db_ok s" and "has_key r_id rid (runs s)"
  shows "\<exists>t. for_each (log_input False rid) inputs s = (Inr (), t) \<and>
    map input_view (primary_inputs r t) = map input_view (primary_inputs r s) @ (if r = rid then map logged_view inputs else [])"
  using assms
proof (induction inputs arbitrary: s)
  case Nil
  then show ?case by (simp add: sem_simps)
next
  case (Cons inp inputs)
  from link_input_ok [OF Cons.prems, of inp] obtain i n q es where
    l: "link_input rid inp s = (Inr (), after_link rid inp i n q es s)" (is "_ = (_, ?u)")
    and linked: "linked (datasets_v2 s @ es) i (ds_Name (dsi_Dataset inp)) (ds_Digest (dsi_Dataset inp))" by blast
  have F: "log_input False rid inp s = (Inr (), ?u)" by (simp add: log_input_def sem_simps l)
  have "has_key r_id rid (runs ?u)" using Cons.prems(2) by simp
  from Cons.IH [OF keepsD2 [OF keeps_log_input Cons.prems(1) F] this] F primary_after_link [OF Cons.prems(1) linked]
  show ?case by (simp add: sem_simps split: if_splits)
qed

text \<open>
  C17. Inputs that were logged for a run read back in order, after those logged earlier, with name, digest and tags sorted by
  key (bytes that are not UTF-8 are replaced); what other runs read from the primary table does not change. Rows that are only in
  the table of version 0.3 follow.
\<close>

theorem LogInputs_GetRunDatasets:
  assumes "db_ok s" and "has_key r_id rid (runs s)"
  shows "\<exists>t. LogInputs v03 rid inputs s = (Inr (), t) \<and>
    (\<forall>r. \<exists>legacy. map input_view (GetRunDatasets r t) =
      map input_view (primary_inputs r s) @ (if r = rid then map logged_view inputs else []) @ legacy)"
proof -
  have "legacy_new rid (dataset_inputs_seq s) s [] (dataset_inputs_seq s) []" by (simp add: legacy_new_def)
  from log_inputs_legacy [OF assms this, of inputs] obtain t xs q ys where
    F: "for_each (log_input False rid) inputs s = (Inr (), t)" and
    T: "for_each (log_input True rid) inputs (with_legacy [] (dataset_inputs_seq s) [] s) = (Inr (), with_legacy xs q ys t)" and
    new: "legacy_new rid (dataset_inputs_seq t) t xs q ys" "db_ok t" by blast
  have "with_legacy [] (dataset_inputs_seq s) [] s = s" by (simp add: with_legacy_def)
  with T F have run: "LogInputs v03 rid inputs s = (Inr (), if v03 then with_legacy xs q ys t else t)"
    by (cases v03) (simp_all add: LogInputs_run [OF assms(2)])
  have "map input_view (primary_inputs r t) = map input_view (primary_inputs r s) @ (if r = rid then map logged_view inputs else [])" for r
    using primary_log_inputs [OF assms, of inputs r] F by simp
  then have "\<exists>legacy. map input_view (GetRunDatasets r t) =
      map input_view (primary_inputs r s) @ (if r = rid then map logged_view inputs else []) @ legacy" for r
    by (simp add: GetRunDatasets_def Let_def)
  then show ?thesis using run GetRunDatasets_with_legacy [OF new(2,1)] by (cases v03) simp_all
qed

definition sample_input :: DatasetInput where
  "sample_input = \<lparr>dsi_Dataset = \<lparr>ds_Name = ''iris'', ds_Digest = ''d1'', ds_SourceType = ''s3'', ds_Source = [], ds_Schema = [], ds_Profile = []\<rparr>,
     dsi_Tags = [\<lparr>kv_Key = ''k'', kv_Value = ''v''\<rparr>, \<lparr>kv_Key = ''a'', kv_Value = ''b''\<rparr>]\<rparr>"

theorem LogInputs_GetRunDatasets_witness:
  "\<exists>t legacy. LogInputs True ''r1'' [sample_input] sample_db = (Inr (), t) \<and>
    map input_view (GetRunDatasets ''r1'' t) = logged_view sample_input # legacy"
proof -
  have "has_key r_id ''r1'' (runs sample_db)" by (simp add: has_key_def sample_run_def)
  from LogInputs_GetRunDatasets [OF db_ok_sample this, of True "[sample_input]"] obtain t where
    t: "LogInputs True ''r1'' [sample_input] sample_db = (Inr (), t)" and
    r: "\<And>r. \<exists>legacy. map input_view (GetRunDatasets r t) = map input_view (primary_inputs r sample_db) @
      (if r = ''r1'' then map logged_view [sample_input] else []) @ legacy" by blast
  have "primary_inputs ''r1'' sample_db = []" by (simp add: primary_inputs_def sample_defs)
  with r [of "''r1''"] t show ?thesis by auto
qed

text \<open>
  The opt-in to the tables of version 0.3 cannot be observed through \<open>GetRunDatasets\<close>: after logging the same inputs with
  and without it, every run reads the same datasets, each input once.
\<close>

theorem LogInputs_v03_invisible:
  assumes "db_ok s"
  shows "fst (LogInputs True rid inputs s) = fst (LogInputs False rid inputs s) \<and>
    GetRunDatasets r (snd (LogInputs True rid inputs s)) = GetRunDatasets r (snd (LogInputs False rid inputs s))"
proof (cases "has_key r_id rid (runs s)")
  case True
  have "legacy_new rid (dataset_inputs_seq s) s [] (dataset_inputs_seq s) []" by (simp add: legacy_new_def)
  from log_inputs_legacy [OF assms True this, of inputs] obtain t xs q ys where
    F: "for_each (log_input False rid) inputs s = (Inr (), t)" and
    T: "for_each (log_input True rid) inputs (with_legacy [] (dataset_inputs_seq s) [] s) = (Inr (), with_legacy xs q ys t)" and
    new: "legacy_new rid (dataset_inputs_seq t) t xs q ys" "db_ok t" by blast
  have "with_legacy [] (dataset_inputs_seq s) [] s = s" by (simp add: with_legacy_def)
  with T have "LogInputs True rid inputs s = (Inr (), with_legacy xs q ys t)" by (intro LogInputs_run True) simp
  moreover have "LogInputs False rid inputs s = (Inr (), t)" by (rule LogInputs_run [OF True F])
  ultimately show ?thesis using GetRunDatasets_with_legacy [OF new(2,1)] by simp
next
  case False
  then have "first_row (\<lambda>r. r_id r = rid) (runs s) = None" by (auto simp: first_row_None has_key_def list_ex_iff)
  then show ?thesis by (simp add: LogInputs_def assertRunExists_def sem_simps)
qed

theorem LogInputs_v03_invisible_witness:
  "GetRunDatasets ''r1'' (snd (LogInputs True ''r1'' [sample_input, sample_input] sample_db)) =
    GetRunDatasets ''r1'' (snd (LogInputs False ''r1'' [sample_input, sample_input] sample_db))"
  using LogInputs_v03_invisible [OF db_ok_sample, of "''r1''" "[sample_input, sample_input]" "''r1''"] by blast

end
