(* ===== verification/Lineage.thy ===== *)
theory Lineage
  imports Inputs Experiments
begin

text \<open>
  The lineage of a run (\<open>internal/store/sqlite_lineage.go\<close>): the chain of its parents, the tree of its children
  to a bounded depth and width, and the datasets it read. The column that holds the parent can be set by any client
  through a tag, so it may point to other workspaces and may form cycles; the walks are confined to the workspace of
  the run and stop at what they have visited. Rows with equal start times come in the order of the table.
\<close>

section \<open>Ancestors\<close>

record DatasetEdge =
  de_RunID :: string
  de_Name :: string
  de_Version :: int
  de_Digest :: string
  de_DatasetID :: int

record LineageOptions =
  lo_Direction :: string
  lo_DescendantDepth :: int
  lo_MaxNodesPerLevel :: int

record RunLineage =
  rl_Run :: Run
  rl_Ancestors :: "Run list"
  rl_Descendants :: "Run list"
  rl_Datasets :: "DatasetEdge list"
  rl_Truncated :: bool

definition maxAncestorDepth :: nat where
  "maxAncestorDepth = 256"

text \<open>The loop over the parents; \<open>n\<close> is how many more it may collect.\<close>

fun anc_loop :: "nat \<Rightarrow> db \<Rightarrow> string \<Rightarrow> string set \<Rightarrow> string \<Rightarrow> Run list" where
  "anc_loop n s ws visited cur =
     (if cur = [] then []
      else if cur \<in> visited then []
      else case n of 0 \<Rightarrow> []
      | Suc m \<Rightarrow> (case fst (getRunInWorkspace cur ws s) of
            Inl e \<Rightarrow> []
          | Inr p \<Rightarrow> p # anc_loop m s ws (insert cur visited) (run_ParentRunID p)))"

declare anc_loop.simps [simp del]

definition walkAncestors :: "Run \<Rightarrow> string \<Rightarrow> string \<Rightarrow> db \<Rightarrow> Run list" where
  "walkAncestors run selfID ws s = anc_loop maxAncestorDepth s ws {selfID} (run_ParentRunID run)"

section \<open>Descendants\<close>

text \<open>The active children of the frontier in the workspace, oldest first, one more than the width.\<close>

definition child_rows :: "string \<Rightarrow> db \<Rightarrow> string list \<Rightarrow> run_row list" where
  "child_rows ws s frontier =
     filter (\<lambda>r. r_parent_run_id r \<in> Some ` set frontier \<and> r_lifecycle_stage r = ''active'' \<and> in_workspace ws s r) (runs s)"

definition level_rows :: "string \<Rightarrow> db \<Rightarrow> nat \<Rightarrow> string list \<Rightarrow> run_row list" where
  "level_rows ws s maxFanOut frontier = take (Suc maxFanOut) (sort_key r_start_time (child_rows ws s frontier))"

fun level_loop :: "nat \<Rightarrow> run_row list \<Rightarrow> string set \<times> run_row list \<times> string list \<times> bool \<Rightarrow> string set \<times> run_row list \<times> string list \<times> bool" where
  "level_loop fan [] w = w"
| "level_loop fan (r # rs) (vis, out, nxt, trunc) =
     (if r_id r \<in> vis then level_loop fan rs (vis, out, nxt, trunc)
      else if fan \<le> length nxt then level_loop fan rs (vis, out, nxt, True)
      else level_loop fan rs (insert (r_id r) vis, out @ [r], nxt @ [r_id r], trunc))"

fun levels :: "nat \<Rightarrow> string \<Rightarrow> db \<Rightarrow> nat \<Rightarrow> string list \<Rightarrow> string set \<Rightarrow> run_row list \<Rightarrow> bool \<Rightarrow> run_row list \<times> bool" where
  "levels 0 ws s fan frontier vis out trunc = (out, trunc \<or> frontier \<noteq> [])"
| "levels (Suc d) ws s fan frontier vis out trunc =
     (if frontier = [] then (out, trunc)
      else case level_loop fan (level_rows ws s fan frontier) (vis, out, [], trunc) of
        (vis', out', nxt, trunc') \<Rightarrow> levels d ws s fan nxt vis' out' trunc')"

definition walkDescendants :: "string \<Rightarrow> string \<Rightarrow> nat \<Rightarrow> nat \<Rightarrow> db \<Rightarrow> Run list \<times> bool" where
  "walkDescendants rootID ws maxDepth maxFanOut s =
     (case levels maxDepth ws s maxFanOut [rootID] {rootID} [] False of (out, trunc) \<Rightarrow> (map run_of_row out, trunc))"

section \<open>Datasets\<close>

definition legacy_edges :: "string \<Rightarrow> string \<Rightarrow> db \<Rightarrow> dataset_input_row \<Rightarrow> DatasetEdge list" where
  "legacy_edges rid ws s r =
     (case filter (\<lambda>d. d_name d = di_name r \<and> d_content_hash d = di_digest r \<and> d_workspace_id d = ws) (datasets_v2 s) of
        [] \<Rightarrow> [\<lparr>de_RunID = rid, de_Name = di_name r, de_Version = 0, de_Digest = di_digest r, de_DatasetID = 0\<rparr>]
      | d # ds \<Rightarrow> map (\<lambda>d. \<lparr>de_RunID = rid, de_Name = di_name r, de_Version = d_version d, de_Digest = di_digest r, de_DatasetID = d_id d\<rparr>) (d # ds))"

definition runDatasetEdges :: "string \<Rightarrow> string \<Rightarrow> db \<Rightarrow> DatasetEdge list" where
  "runDatasetEdges rid ws s =
     (let new = concat (map (\<lambda>r. map (\<lambda>d. \<lparr>de_RunID = rid, de_Name = d_name d, de_Version = d_version d, de_Digest = d_content_hash d, de_DatasetID = d_id d\<rparr>)
            (filter (\<lambda>d. d_id d = d2_dataset_id r \<and> d_workspace_id d = ws) (datasets_v2 s)))
          (sort_key d2_id (filter (\<lambda>r. d2_run_id r = rid) (dataset_inputs_v2 s))));
          seen = set (map (\<lambda>e. input_key (de_Name e) (de_Digest e)) new);
          old = concat (map (legacy_edges rid ws s) (sort_key di_id (filter (\<lambda>r. di_run_id r = rid) (dataset_inputs s))))
      in new @ filter (\<lambda>e. input_key (de_Name e) (de_Digest e) \<notin> seen) old)"

section \<open>The query\<close>

definition LineageUpstream :: string where "LineageUpstream = ''upstream''"
definition LineageDownstream :: string where "LineageDownstream = ''downstream''"
definition LineageBoth :: string where "LineageBoth = ''both''"

definition clamp :: "int \<Rightarrow> int \<Rightarrow> int \<Rightarrow> nat" where
  "clamp dflt hi v = nat (let w = if v \<le> 0 then dflt else v in if hi < w then hi else w)"

definition GetRunLineageWithOptions :: "string \<Rightarrow> LineageOptions \<Rightarrow> RunLineage op" where
  "GetRunLineageWithOptions rid opt =
     bnd (GetRun rid) (\<lambda>run.
     bnd (GetExperiment (run_ExperimentID run)) (\<lambda>exp.
     gets (\<lambda>s.
       let ws = default_ws (exp_WorkspaceID exp);
           dir = (if lo_Direction opt = [] then LineageBoth else lo_Direction opt);
           depth = clamp 4 8 (lo_DescendantDepth opt);
           fanOut = clamp 50 200 (lo_MaxNodesPerLevel opt);
           anc = (if dir = LineageUpstream \<or> dir = LineageBoth then walkAncestors run rid ws s else []);
           (desc, trunc) = (if dir = LineageDownstream \<or> dir = LineageBoth then walkDescendants rid ws depth fanOut s else ([], False))
       in \<lparr>rl_Run = run, rl_Ancestors = anc, rl_Descendants = desc, rl_Datasets = runDatasetEdges rid ws s, rl_Truncated = trunc\<rparr>)))"

definition GetRunLineage :: "string \<Rightarrow> RunLineage op" where
  "GetRunLineage rid = GetRunLineageWithOptions rid \<lparr>lo_Direction = LineageBoth, lo_DescendantDepth = 1, lo_MaxNodesPerLevel = 0\<rparr>"

section \<open>The chain of parents\<close>

lemma getRunInWorkspace_Inr:
  "fst (getRunInWorkspace rid ws s) = Inr p \<longleftrightarrow> (\<exists>r. first_row (\<lambda>r. r_id r = rid \<and> in_workspace ws s r) (runs s) = Some r \<and> p = run_of_row r)"
  by (auto simp: getRunInWorkspace_def sem_simps split: option.splits)

lemma getRunInWorkspace_ID: "fst (getRunInWorkspace rid ws s) = Inr p \<Longrightarrow> run_ID p = rid"
  by (auto simp: getRunInWorkspace_Inr run_of_row_def dest: first_row_Some)

lemma getRunInWorkspace_row:
  assumes "db_ok s" and "r \<in> set (runs s)" and "in_workspace ws s r"
  shows "fst (getRunInWorkspace (r_id r) ws s) = Inr (run_of_row r)"
proof -
  have "first_row (\<lambda>q. r_id q = r_id r \<and> in_workspace ws s q) (runs s) = Some r"
    using db_okD(5) [OF assms(1)] assms(2,3) by (intro first_row_unique [where k = r_id]) (auto simp: runs_ok_def pk_def)
  then show ?thesis by (simp add: getRunInWorkspace_Inr)
qed

text \<open>Each run of the chain is the parent of the one before, in the workspace; \<open>chain_end\<close> is the parent of the last.\<close>

fun parent_chain :: "string \<Rightarrow> db \<Rightarrow> string \<Rightarrow> Run list \<Rightarrow> bool" where
  "parent_chain ws s cur [] \<longleftrightarrow> True"
| "parent_chain ws s cur (p # ps) \<longleftrightarrow> cur \<noteq> [] \<and> fst (getRunInWorkspace cur ws s) = Inr p \<and> parent_chain ws s (run_ParentRunID p) ps"

definition chain_end :: "string \<Rightarrow> Run list \<Rightarrow> string" where
  "chain_end cur ps = (if ps = [] then cur else run_ParentRunID (last ps))"

lemma chain_end_Cons [simp]: "chain_end cur (p # ps) = chain_end (run_ParentRunID p) ps"
  by (simp add: chain_end_def)

lemma anc_loop_chain:
  "parent_chain ws s cur (anc_loop n s ws vis cur) \<and> length (anc_loop n s ws vis cur) \<le> n \<and>
    distinct (map run_ID (anc_loop n s ws vis cur)) \<and> run_ID ` set (anc_loop n s ws vis cur) \<inter> vis = {} \<and>
    (chain_end cur (anc_loop n s ws vis cur) = [] \<or>
     chain_end cur (anc_loop n s ws vis cur) \<in> vis \<union> run_ID ` set (anc_loop n s ws vis cur) \<or>
     length (anc_loop n s ws vis cur) = n \<or> fst (getRunInWorkspace (chain_end cur (anc_loop n s ws vis cur)) ws s) = Inl ErrNotFound)"
proof (induction n arbitrary: vis cur)
  case 0
  then show ?case by (simp add: anc_loop.simps)
next
  case (Suc n)
  show ?case
  proof (cases "cur = [] \<or> cur \<in> vis")
    case True
    then show ?thesis by (auto simp: anc_loop.simps [of "Suc n"] chain_end_def)
  next
    case False
    show ?thesis
    proof (cases "fst (getRunInWorkspace cur ws s)")
      case (Inl e)
      then have "e = ErrNotFound" by (auto simp: getRunInWorkspace_def sem_simps split: option.splits)
      with False Inl show ?thesis by (simp add: anc_loop.simps [of "Suc n"] chain_end_def)
    next
      case (Inr p)
      let ?rest = "anc_loop n s ws (insert cur vis) (run_ParentRunID p)"
      have eq: "anc_loop (Suc n) s ws vis cur = p # ?rest" using False Inr by (simp add: anc_loop.simps [of "Suc n"])
      note IH = Suc.IH [where vis = "insert cur vis" and cur = "run_ParentRunID p"]
      have "run_ID p = cur" by (rule getRunInWorkspace_ID [OF Inr])
      then show ?thesis using IH False Inr unfolding eq by auto
    qed
  qed
qed

text \<open>
  The ancestors of a run form an unbroken chain: the first is its parent, each next one the parent of the one before,
  all in the workspace of the run, at most 256, none twice and never the run itself, even where the parents form a
  cycle. The chain ends only at a run without parent, at a run already listed, at a run that the workspace does not
  contain, or at the limit.
\<close>

theorem walkAncestors_chain:
  "parent_chain ws s (run_ParentRunID run) (walkAncestors run rid ws s) \<and>
    length (walkAncestors run rid ws s) \<le> 256 \<and> distinct (rid # map run_ID (walkAncestors run rid ws s)) \<and>
    (let e = chain_end (run_ParentRunID run) (walkAncestors run rid ws s) in
       e = [] \<or> e \<in> set (rid # map run_ID (walkAncestors run rid ws s)) \<or> length (walkAncestors run rid ws s) = 256 \<or>
       fst (getRunInWorkspace e ws s) = Inl ErrNotFound)"
  using anc_loop_chain [of ws s "run_ParentRunID run" 256 "{rid}"]
  unfolding walkAncestors_def maxAncestorDepth_def Let_def by auto

section \<open>The tree of children\<close>

lemma level_loop_rows:
  assumes "level_loop fan rs (vis, out, nxt, trunc) = (vis', out', nxt', trunc')"
  shows "\<exists>qs. out' = out @ qs \<and> nxt' = nxt @ map r_id qs \<and> vis' = vis \<union> r_id ` set qs \<and> set qs \<subseteq> set rs \<and>
    distinct (map r_id qs) \<and> r_id ` set qs \<inter> vis = {} \<and> (length nxt \<le> fan \<longrightarrow> length nxt' \<le> fan) \<and> (trunc \<longrightarrow> trunc') \<and>
    (\<not> trunc' \<longrightarrow> r_id ` set rs \<subseteq> vis')"
  using assms
proof (induction rs arbitrary: vis out nxt trunc)
  case Nil
  then show ?case by auto
next
  case (Cons r rs)
  consider "r_id r \<in> vis" | "r_id r \<notin> vis" "fan \<le> length nxt" | "r_id r \<notin> vis" "\<not> fan \<le> length nxt" by blast
  then show ?case
  proof cases
    case 1
    with Cons.prems have "level_loop fan rs (vis, out, nxt, trunc) = (vis', out', nxt', trunc')" by simp
    from Cons.IH [OF this] 1 show ?thesis by auto
  next
    case 2
    with Cons.prems have "level_loop fan rs (vis, out, nxt, True) = (vis', out', nxt', trunc')" by simp
    from Cons.IH [OF this] show ?thesis by auto
  next
    case 3
    with Cons.prems have "level_loop fan rs (insert (r_id r) vis, out @ [r], nxt @ [r_id r], trunc) = (vis', out', nxt', trunc')" by simp
    from Cons.IH [OF this] obtain qs where "out' = out @ r # qs" "nxt' = nxt @ r_id r # map r_id qs" "vis' = insert (r_id r) vis \<union> r_id ` set qs"
      "set qs \<subseteq> set rs" "distinct (map r_id qs)" "r_id ` set qs \<inter> insert (r_id r) vis = {}"
      "length nxt < fan \<longrightarrow> length nxt' \<le> fan" "trunc \<longrightarrow> trunc'" "\<not> trunc' \<longrightarrow> r_id ` set rs \<subseteq> vis'" by auto
    with 3 show ?thesis by (intro exI [of _ "r # qs"]) auto
  qed
qed

definition child_rel :: "string \<Rightarrow> db \<Rightarrow> (string \<times> string) set" where
  "child_rel ws s = {(p, c). \<exists>r\<in>set (runs s). r_id r = c \<and> r_parent_run_id r = Some p \<and> r_lifecycle_stage r = ''active'' \<and> in_workspace ws s r}"

lemma child_rows_iff:
  "r \<in> set (child_rows ws s F) \<longleftrightarrow> r \<in> set (runs s) \<and> (\<exists>p\<in>set F. r_parent_run_id r = Some p) \<and> r_lifecycle_stage r = ''active'' \<and> in_workspace ws s r"
  by (auto simp: child_rows_def)

lemma child_rows_rel: "r \<in> set (child_rows ws s F) \<Longrightarrow> \<exists>p\<in>set F. (p, r_id r) \<in> child_rel ws s"
  by (auto simp: child_rows_iff child_rel_def)

lemma child_rel_rows: "p \<in> set F \<Longrightarrow> (p, c) \<in> child_rel ws s \<Longrightarrow> c \<in> r_id ` set (child_rows ws s F)"
  by (auto simp: child_rows_iff child_rel_def)

lemma level_rows_subset: "set (level_rows ws s fan F) \<subseteq> set (child_rows ws s F)"
  using set_take_subset by (fastforce simp: level_rows_def)

lemma levels_sound:
  assumes "levels d ws s fan F vis out tr = (out', tr')"
  shows "\<exists>qs. out' = out @ qs \<and> set qs \<subseteq> {r \<in> set (runs s). r_lifecycle_stage r = ''active'' \<and> in_workspace ws s r} \<and> distinct (map r_id qs) \<and>
    r_id ` set qs \<inter> vis = {} \<and> r_id ` set qs \<subseteq> (child_rel ws s)\<^sup>+ `` set F \<and> length qs \<le> d * fan \<and> (tr \<longrightarrow> tr')"
  using assms
proof (induction d arbitrary: F vis out tr)
  case 0
  then show ?case by auto
next
  case (Suc d)
  let ?C = "child_rel ws s"
  show ?case
  proof (cases "F = []")
    case True
    with Suc.prems show ?thesis by auto
  next
    case False
    obtain v1 o1 nxt t1 where l: "level_loop fan (level_rows ws s fan F) (vis, out, [], tr) = (v1, o1, nxt, t1)" by (metis prod_cases4)
    from level_loop_rows [OF l] obtain qs where qs: "o1 = out @ qs" "nxt = map r_id qs" "v1 = vis \<union> r_id ` set qs" "set qs \<subseteq> set (level_rows ws s fan F)"
      "distinct (map r_id qs)" "r_id ` set qs \<inter> vis = {}" "length nxt \<le> fan" "tr \<longrightarrow> t1" by auto
    from l Suc.prems False have "levels d ws s fan nxt v1 o1 t1 = (out', tr')" by simp
    from Suc.IH [OF this] obtain ps where ps: "out' = o1 @ ps" "set ps \<subseteq> {r \<in> set (runs s). r_lifecycle_stage r = ''active'' \<and> in_workspace ws s r}"
      "distinct (map r_id ps)" "r_id ` set ps \<inter> v1 = {}" "r_id ` set ps \<subseteq> ?C\<^sup>+ `` set nxt" "length ps \<le> d * fan" "t1 \<longrightarrow> tr'" by blast
    have cs: "set qs \<subseteq> set (child_rows ws s F)" using qs(4) level_rows_subset by blast
    have edge: "r_id ` set qs \<subseteq> ?C `` set F" using cs child_rows_rel by blast
    then have "?C\<^sup>+ `` set nxt \<subseteq> ?C\<^sup>+ `` set F" unfolding qs(2) set_map by (blast intro: trancl_into_trancl2)
    moreover have "r_id ` set qs \<subseteq> ?C\<^sup>+ `` set F" using edge by blast
    ultimately have "r_id ` set (qs @ ps) \<subseteq> ?C\<^sup>+ `` set F" using ps(5) unfolding set_append image_Un by blast
    moreover have "set (qs @ ps) \<subseteq> {r \<in> set (runs s). r_lifecycle_stage r = ''active'' \<and> in_workspace ws s r}"
      using cs ps(2) by (auto simp: child_rows_iff)
    moreover have "distinct (map r_id (qs @ ps))" "r_id ` set (qs @ ps) \<inter> vis = {}" using qs(3,5,6) ps(3,4) by auto
    moreover have "length (qs @ ps) \<le> Suc d * fan" using qs(2,7) ps(6) by simp
    ultimately show ?thesis using qs(1,8) ps(1,7) by (intro exI [of _ "qs @ ps"]) auto
  qed
qed

text \<open>
  The levels that were walked: every child of a walked run was visited, and every visited run other than the root is
  a child of a walked one.
\<close>

definition levels_inv :: "string \<Rightarrow> db \<Rightarrow> string \<Rightarrow> string list \<Rightarrow> string set \<Rightarrow> bool" where
  "levels_inv ws s top0 F vis \<longleftrightarrow> set F \<subseteq> vis \<and> top0 \<in> vis \<and> vis \<subseteq> insert top0 ((child_rel ws s)\<^sup>+ `` {top0}) \<and>
     child_rel ws s `` (vis - set F) \<subseteq> vis \<and> vis - {top0} \<subseteq> child_rel ws s `` (vis - set F)"

lemma child_rel_unique: "db_ok s \<Longrightarrow> (p, c) \<in> child_rel ws s \<Longrightarrow> (q, c) \<in> child_rel ws s \<Longrightarrow> p = q"
proof -
  assume "db_ok s" and *: "(p, c) \<in> child_rel ws s" "(q, c) \<in> child_rel ws s"
  then have "inj_on r_id (set (runs s))" using db_okD(5) by (simp add: runs_ok_def pk_def distinct_map)
  with * show ?thesis by (force simp: child_rel_def dest: inj_onD)
qed

lemma level_fresh:
  assumes "db_ok s" and "levels_inv ws s top0 F vis" and "(top0, top0) \<notin> (child_rel ws s)\<^sup>+" and "r \<in> set (child_rows ws s F)"
  shows "r_id r \<notin> vis"
proof
  assume v: "r_id r \<in> vis"
  obtain f where f: "f \<in> set F" "(f, r_id r) \<in> child_rel ws s" using child_rows_rel [OF assms(4)] by blast
  show False
  proof (cases "r_id r = top0")
    case True
    have "f \<in> insert top0 ((child_rel ws s)\<^sup>+ `` {top0})" using f(1) assms(2) by (auto simp: levels_inv_def)
    with f(2) True have "(top0, top0) \<in> (child_rel ws s)\<^sup>+" by (auto intro: trancl_into_trancl)
    with assms(3) show False by simp
  next
    case False
    with v assms(2) obtain p where "p \<in> vis - set F" "(p, r_id r) \<in> child_rel ws s" by (auto simp: levels_inv_def)
    with child_rel_unique [OF assms(1) _ f(2)] f(1) show False by blast
  qed
qed

lemma level_complete:
  assumes ok: "db_ok s" and inv: "levels_inv ws s top0 F vis" and acyc: "(top0, top0) \<notin> (child_rel ws s)\<^sup>+"
    and l: "level_loop fan (level_rows ws s fan F) (vis, out, [], tr) = (v1, o1, nxt, False)"
  shows "levels_inv ws s top0 nxt v1" and "vis \<subseteq> v1"
proof -
  let ?C = "child_rel ws s" and ?R = "level_rows ws s fan F"
  from level_loop_rows [OF l] obtain qs where qs: "nxt = map r_id qs" "v1 = vis \<union> r_id ` set qs" "set qs \<subseteq> set ?R"
    "distinct (map r_id qs)" "r_id ` set qs \<inter> vis = {}" "length nxt \<le> fan" "r_id ` set ?R \<subseteq> v1" by auto
  show "vis \<subseteq> v1" using qs(2) by blast
  have "r_id ` set ?R \<inter> vis = {}" using level_rows_subset level_fresh [OF ok inv acyc] by blast
  with qs(2,7) have sub: "r_id ` set ?R \<subseteq> r_id ` set qs" by blast
  have "distinct (map r_id (runs s))" using db_okD(5) [OF ok] by (simp add: runs_ok_def pk_def)
  then have "distinct (map r_id (child_rows ws s F))" unfolding child_rows_def by (rule distinct_map_filter)
  then have "distinct (map r_id ?R)" by (simp add: level_rows_def distinct_map inj_on_subset [OF _ set_take_subset] del: set_take_subset)
  then have "length ?R = card (r_id ` set ?R)" by (metis distinct_card length_map set_map)
  also have "\<dots> \<le> card (r_id ` set qs)" by (intro card_mono sub) simp
  also have "\<dots> \<le> fan" using qs(1,6) by (metis card_length le_trans set_map)
  finally have "length ?R \<le> fan" .
  then have "length (child_rows ws s F) \<le> fan" by (simp add: level_rows_def)
  then have "set ?R = set (child_rows ws s F)" by (simp add: level_rows_def)
  with sub have all: "r_id ` set (child_rows ws s F) \<subseteq> r_id ` set qs" by simp
  have walked: "v1 - set nxt = vis" using qs(1,2,5) by auto
  have edge: "r_id ` set qs \<subseteq> ?C `` set F" using qs(3) level_rows_subset child_rows_rel by blast
  have F: "set F \<subseteq> vis" "vis \<subseteq> insert top0 (?C\<^sup>+ `` {top0})" using inv by (auto simp: levels_inv_def)
  have "x \<in> insert top0 (?C\<^sup>+ `` {top0})" if "x \<in> r_id ` set qs" for x
  proof -
    from that edge obtain f where f: "f \<in> set F" "(f, x) \<in> ?C" by blast
    with F have "f = top0 \<or> (top0, f) \<in> ?C\<^sup>+" by blast
    with f(2) show ?thesis by (auto intro: trancl_into_trancl)
  qed
  then have i1: "v1 \<subseteq> insert top0 (?C\<^sup>+ `` {top0})" using F(2) unfolding qs(2) by blast
  have cF: "?C `` set F \<subseteq> r_id ` set qs"
  proof (rule subsetI, elim ImageE)
    fix c p assume "(p, c) \<in> ?C" "p \<in> set F"
    from child_rel_rows [OF this(2,1)] all show "c \<in> r_id ` set qs" by (rule set_mp [rotated])
  qed
  have iv: "?C `` (vis - set F) \<subseteq> vis" "vis - {top0} \<subseteq> ?C `` (vis - set F)" "top0 \<in> vis" using inv by (simp_all add: levels_inv_def)
  have "?C `` vis \<subseteq> ?C `` (vis - set F) \<union> ?C `` set F" by blast
  then have i2: "?C `` vis \<subseteq> v1" unfolding qs(2) using iv(1) cF by blast
  have "?C `` set F \<subseteq> ?C `` vis" "?C `` (vis - set F) \<subseteq> ?C `` vis" using F(1) by blast+
  then have i3: "v1 - {top0} \<subseteq> ?C `` vis" unfolding qs(2) using edge iv(2) by blast
  have i4: "top0 \<in> v1" "set nxt \<subseteq> v1" unfolding qs(1,2) using iv(3) by auto
  show "levels_inv ws s top0 nxt v1" unfolding levels_inv_def walked by (intro conjI i1 i2 i3 i4)
qed

lemma levels_complete:
  assumes "db_ok s" and "(top0, top0) \<notin> (child_rel ws s)\<^sup>+"
    and "levels_inv ws s top0 F vis" and "vis \<subseteq> insert top0 (r_id ` set out)" and "levels d ws s fan F vis out tr = (out', False)"
  shows "(child_rel ws s)\<^sup>+ `` {top0} \<subseteq> r_id ` set out'"
  using assms(3-)
proof (induction d arbitrary: F vis out tr)
  let ?C = "child_rel ws s"
  have fin: "?C\<^sup>+ `` {top0} \<subseteq> r_id ` set out" if "levels_inv ws s top0 [] vis" "vis \<subseteq> insert top0 (r_id ` set out)" for vis out
  proof
    fix x assume "x \<in> ?C\<^sup>+ `` {top0}"
    then have "(top0, x) \<in> ?C\<^sup>+" by simp
    moreover from this have "x \<in> vis" by (induction rule: trancl_induct) (use that(1) in \<open>auto simp: levels_inv_def\<close>)
    ultimately show "x \<in> r_id ` set out" using that(2) assms(2) by auto
  qed
  {
    case 0
    then show ?case using fin [of vis out] by auto
  next
    case (Suc d)
    show ?case
    proof (cases "F = []")
      case True
      with Suc.prems fin [of vis out] show ?thesis by auto
    next
      case False
      obtain v1 o1 nxt t1 where l: "level_loop fan (level_rows ws s fan F) (vis, out, [], tr) = (v1, o1, nxt, t1)" by (metis prod_cases4)
      with Suc.prems(3) False have n: "levels d ws s fan nxt v1 o1 t1 = (out', False)" by simp
      with levels_sound [OF n] have "\<not> t1" by blast
      with l have l': "level_loop fan (level_rows ws s fan F) (vis, out, [], tr) = (v1, o1, nxt, False)" by simp
      have "v1 \<subseteq> insert top0 (r_id ` set o1)" using level_loop_rows [OF l] Suc.prems(2) by auto
      from Suc.IH [OF level_complete(1) [OF assms(1) Suc.prems(1) assms(2) l'] this n] show ?thesis .
    qed
  }
qed

text \<open>
  C19. The descendants that \<open>walkDescendants\<close> returns are active runs of the workspace below the given run, none twice and
  never the run itself, at most depth times width many; and when it does not report a truncation and the run is
  not its own descendant, they are all of them.
\<close>

theorem walkDescendants_complete:
  assumes "db_ok s" and "walkDescendants rid ws depth fan s = (ds, truncated)"
  shows "distinct (rid # map run_ID ds) \<and> length ds \<le> depth * fan \<and> run_ID ` set ds \<subseteq> (child_rel ws s)\<^sup>+ `` {rid} \<and>
    (\<forall>d\<in>set ds. fst (getRunInWorkspace (run_ID d) ws s) = Inr d) \<and>
    (\<not> truncated \<longrightarrow> (rid, rid) \<notin> (child_rel ws s)\<^sup>+ \<longrightarrow> run_ID ` set ds = (child_rel ws s)\<^sup>+ `` {rid})"
proof -
  obtain out where l: "levels depth ws s fan [rid] {rid} [] False = (out, truncated)" and ds: "ds = map run_of_row out"
    using assms(2) by (auto simp: walkDescendants_def split: prod.splits)
  from levels_sound [OF l] have out: "set out \<subseteq> {r \<in> set (runs s). r_lifecycle_stage r = ''active'' \<and> in_workspace ws s r}" "distinct (map r_id out)"
    "rid \<notin> r_id ` set out" "r_id ` set out \<subseteq> (child_rel ws s)\<^sup>+ `` {rid}" "length out \<le> depth * fan" by auto
  have ids: "run_ID (run_of_row r) = r_id r" for r by (simp add: run_of_row_def)
  have "fst (getRunInWorkspace (run_ID d) ws s) = Inr d" if "d \<in> set ds" for d
    using that out(1) getRunInWorkspace_row [OF assms(1)] by (auto simp: ds ids)
  moreover have "r_id ` set out = (child_rel ws s)\<^sup>+ `` {rid}" if "\<not> truncated" "(rid, rid) \<notin> (child_rel ws s)\<^sup>+"
  proof -
    have "levels_inv ws s rid [rid] {rid}" by (auto simp: levels_inv_def)
    moreover have "levels depth ws s fan [rid] {rid} [] False = (out, False)" using l that(1) by simp
    ultimately show ?thesis using levels_complete [OF assms(1) that(2)] out(4) by blast
  qed
  ultimately show ?thesis using out(2-5) by (auto simp: ds ids comp_def image_image)
qed

theorem walkDescendants_complete_witness:
  "\<exists>ds. walkDescendants ''r1'' ''default'' 4 50 sample_db = (ds, False) \<and> map run_ID ds = [''r2''] \<and>
    run_ID ` set ds \<subseteq> (child_rel ''default'' sample_db)\<^sup>+ `` {''r1''}"
proof -
  have four: "(4::nat) = Suc (Suc 2)" by simp
  have "walkDescendants ''r1'' ''default'' 4 50 sample_db = ([run_of_row (sample_run ''r2'' (Some ''r1''))], False)"
    unfolding walkDescendants_def four
    by (simp add: level_rows_def child_rows_def in_workspace_def sample_run_def numeral_2_eq_2) (simp add: sample_defs)
  with walkDescendants_complete [OF db_ok_sample this] show ?thesis by (auto simp: run_of_row_def sample_run_def)
qed

text \<open>
  The report of a truncation can be missing when the parents form a cycle: the visited run takes one of the rows the query
  is limited to. Here "r1" and "r2" are each other's parent, "r2" has two more children, the width is one.
\<close>

definition cycle_db :: db where
  "cycle_db = sample_db\<lparr>runs := [
     (sample_run ''r1'' (Some ''r2''))\<lparr>r_start_time := 1\<rparr>, (sample_run ''r2'' (Some ''r1''))\<lparr>r_start_time := 2\<rparr>,
     (sample_run ''r3'' (Some ''r2''))\<lparr>r_start_time := 3\<rparr>, (sample_run ''r4'' (Some ''r2''))\<lparr>r_start_time := 4\<rparr>]\<rparr>"

lemma cycle_not_reported:
  "map run_ID (fst (walkDescendants ''r1'' ''default'' 8 1 cycle_db)) = [''r2'', ''r3''] \<and> \<not> snd (walkDescendants ''r1'' ''default'' 8 1 cycle_db)"
proof -
  have eight: "(8::nat) = Suc (Suc (Suc 5))" by simp
  show ?thesis unfolding walkDescendants_def eight
    by (simp add: level_rows_def child_rows_def in_workspace_def cycle_db_def sample_run_def numeral_2_eq_2 numeral_eq_Suc) (simp add: sample_defs run_of_row_def)
qed

section \<open>Isolation\<close>

lemma legacy_edges_in:
  assumes "e \<in> set (legacy_edges rid ws s r)"
  shows "de_DatasetID e = 0 \<or> (\<exists>d\<in>set (datasets_v2 s). d_id d = de_DatasetID e \<and> d_workspace_id d = ws \<and> d_name d = de_Name e)"
proof -
  let ?ds = "filter (\<lambda>d. d_name d = di_name r \<and> d_content_hash d = di_digest r \<and> d_workspace_id d = ws) (datasets_v2 s)"
  show ?thesis
  proof (cases ?ds)
    case Nil
    with assms show ?thesis by (simp add: legacy_edges_def)
  next
    case (Cons d ds)
    with assms have "e \<in> (\<lambda>d. \<lparr>de_RunID = rid, de_Name = di_name r, de_Version = d_version d, de_Digest = di_digest r, de_DatasetID = d_id d\<rparr>) ` set ?ds"
      by (simp add: legacy_edges_def)
    then show ?thesis by auto
  qed
qed



end
