(* ===== verification/Paging.thy ===== *)
theory Paging
  imports GoStd
begin

text \<open>
  Keyset pagination, which all searches of the store share. A query orders its rows by a key that no two rows have in common
  and fetches one row more than the page holds; the token of the next page is made of the key of the last row, and the next
  query takes the rows after it. The locale \<open>keyset_search\<close> is the contract between a search and the client that follows
  its tokens: the client gets every row exactly once, in order, and comes to an end.
\<close>

section \<open>Values of SQL\<close>

text \<open>A column that is ordered by holds numbers or texts; SQLite sorts numbers before texts.\<close>

datatype sqlv = VNum rat | VText string

instantiation sqlv :: linorder
begin

definition less_eq_sqlv :: "sqlv \<Rightarrow> sqlv \<Rightarrow> bool" where
  "less_eq_sqlv a b = (case a of VNum x \<Rightarrow> (case b of VNum y \<Rightarrow> x \<le> y | VText t \<Rightarrow> True)
     | VText s \<Rightarrow> (case b of VNum y \<Rightarrow> False | VText t \<Rightarrow> s \<le> t))"

definition less_sqlv :: "sqlv \<Rightarrow> sqlv \<Rightarrow> bool" where
  "less_sqlv a b = (case a of VNum x \<Rightarrow> (case b of VNum y \<Rightarrow> x < y | VText t \<Rightarrow> True)
     | VText s \<Rightarrow> (case b of VNum y \<Rightarrow> False | VText t \<Rightarrow> s < t))"

instance
  by standard (auto simp: less_eq_sqlv_def less_sqlv_def split: sqlv.splits)

end

section \<open>Pages\<close>

text \<open>\<open>... AND key > cursor ORDER BY key LIMIT n + 1\<close>, and the key for the next token when there is more.\<close>

definition page_rows :: "nat \<Rightarrow> ('r \<Rightarrow> 'k::linorder) \<Rightarrow> 'r list \<Rightarrow> 'k option \<Rightarrow> 'r list" where
  "page_rows n key rows cur =
     take (Suc n) (sort_key key (filter (\<lambda>r. case cur of None \<Rightarrow> True | Some k \<Rightarrow> k < key r) rows))"

definition page_items :: "nat \<Rightarrow> 'r list \<Rightarrow> 'r list" where
  "page_items n out = (if n < length out then take n out else out)"

text \<open>The rows after a row of a sorted list.\<close>

lemma after_row:
  assumes "sorted (map key xs)" and "distinct (map key xs)" and "xs = ys @ r # zs"
  shows "filter (\<lambda>x. key r < key x) xs = zs"
proof -
  have "\<forall>y\<in>set ys. key y < key r" "\<forall>z\<in>set zs. key r < key z"
    using assms by (auto simp: sorted_append less_le image_iff)
  then have "filter (\<lambda>x. key r < key x) ys = []" "filter (\<lambda>x. key r < key x) zs = zs"
    by (auto simp: filter_empty_conv not_less)
  with assms(3) show ?thesis by simp
qed

lemma page_rows_after:
  assumes "distinct (map key rows)" and "sort_key key rows = ys @ r # zs"
  shows "page_rows n key rows (Some (key r)) = take (Suc n) zs"
proof -
  have "filter (\<lambda>x. key r < key x) (sort_key key rows) = zs"
  proof (rule after_row [OF _ _ assms(2)])
    show "sorted (map key (sort_key key rows))" by (rule sorted_sort_key)
    show "distinct (map key (sort_key key rows))" using assms(1) by (simp only: distinct_map set_sort distinct_sort)
  qed
  then show ?thesis by (simp add: page_rows_def filter_sort)
qed

text \<open>Two keys that order the rows alike sort alike.\<close>

lemma sort_key_order_iso:
  assumes "\<And>x y. f x \<le> f y \<longleftrightarrow> g x \<le> g y"
  shows "sort_key f xs = sort_key g xs"
proof -
  have "insort_key f x ys = insort_key g x ys" for x ys by (induction ys) (simp_all add: assms)
  then have "insort_key f = insort_key g" by (intro ext)
  then show ?thesis by (simp only: sort_key_def)
qed

section \<open>Following the tokens\<close>

text \<open>
  A search answers a token with a page and the token of the next page, \<open>nil\<close> at the end. \<open>fetches ans nil t ps\<close>: the client that
  starts with the token \<open>t\<close> and follows the answers receives the pages \<open>ps\<close> and is done.
\<close>

inductive fetches :: "('t \<Rightarrow> 'e + 'i list \<times> 't) \<Rightarrow> 't \<Rightarrow> 't \<Rightarrow> 'i list list \<Rightarrow> bool" for ans "nil" where
  last_page: "ans t = Inr (items, nil) \<Longrightarrow> fetches ans nil t [items]"
| next_page: "ans t = Inr (items, t') \<Longrightarrow> t' \<noteq> nil \<Longrightarrow> fetches ans nil t' ps \<Longrightarrow> fetches ans nil t (items # ps)"

inductive_cases fetches_cases: "fetches ans nil t ps"

lemma fetches_unique: "fetches ans nil t ps \<Longrightarrow> fetches ans nil t qs \<Longrightarrow> ps = qs"
proof (induction arbitrary: qs rule: fetches.induct)
  case (last_page t items)
  from last_page(2,1) show ?case by (cases rule: fetches.cases) auto
next
  case (next_page t items t' ps)
  from next_page(5,1,2) next_page(4) show ?case by (cases rule: fetches.cases) auto
qed

text \<open>
  The contract: for a valid query \<open>q\<close> the answers are the pages of \<open>rows q\<close> in the order of \<open>key q\<close>, and \<open>enc q\<close> makes the token
  for a row. The bound \<open>size q\<close> of a page is positive, keys are unique and a token is never the empty one.
\<close>

locale keyset_search =
  fixes ans :: "'q \<Rightarrow> 't \<Rightarrow> 'e + 'i list \<times> 't"
    and "nil" :: 't
    and valid :: "'q \<Rightarrow> bool"
    and rows :: "'q \<Rightarrow> 'r list"
    and key :: "'q \<Rightarrow> 'r \<Rightarrow> ('k::linorder)"
    and item :: "'q \<Rightarrow> 'r \<Rightarrow> 'i"
    and "limit" :: "'q \<Rightarrow> nat"
    and enc :: "'q \<Rightarrow> 'r \<Rightarrow> 't"
  assumes limit_pos: "valid q \<Longrightarrow> 0 < limit q"
    and keys_distinct: "valid q \<Longrightarrow> distinct (map (key q) (rows q))"
    and enc_token: "valid q \<Longrightarrow> r \<in> set (rows q) \<Longrightarrow> enc q r \<noteq> nil"
    and ans_first: "valid q \<Longrightarrow> ans q nil =
      (let out = page_rows (limit q) (key q) (rows q) None in
       Inr (map (item q) (page_items (limit q) out), if limit q < length out then enc q (last (page_items (limit q) out)) else nil))"
    and ans_next: "valid q \<Longrightarrow> r \<in> set (rows q) \<Longrightarrow> ans q (enc q r) =
      (let out = page_rows (limit q) (key q) (rows q) (Some (key q r)) in
       Inr (map (item q) (page_items (limit q) out), if limit q < length out then enc q (last (page_items (limit q) out)) else nil))"
begin

text \<open>A client that stands before the rest \<open>zs\<close> of the sorted rows.\<close>

lemma fetches_rest:
  assumes v: "valid q" and "sort_key (key q) (rows q) = ys @ zs"
    and "\<And>out. out = take (Suc (limit q)) zs \<Longrightarrow> ans q t =
      Inr (map (item q) (page_items (limit q) out), if limit q < length out then enc q (last (page_items (limit q) out)) else nil)"
  shows "\<exists>ps. fetches (ans q) nil t ps \<and> concat ps = map (item q) zs \<and> (\<forall>p\<in>set ps. length p \<le> limit q)"
  using assms(2,3)
proof (induction "length zs" arbitrary: ys zs t rule: less_induct)
  case less
  let ?n = "limit q"
  note n = limit_pos [OF v]
  show ?case
  proof (cases "?n < length zs")
    case False
    then have "ans q t = Inr (map (item q) zs, nil)" using less.prems(2) [OF refl] by (simp add: page_items_def)
    then have "fetches (ans q) nil t [map (item q) zs]" by (rule last_page)
    with False show ?thesis by (intro exI [of _ "[map (item q) zs]"]) simp
  next
    case True
    let ?r = "last (take ?n zs)"
    have split: "take ?n zs = butlast (take ?n zs) @ [?r]" using n True by (intro append_butlast_last_id [symmetric]) auto
    have sorted: "sort_key (key q) (rows q) = (ys @ butlast (take ?n zs)) @ ?r # drop ?n zs"
      using less.prems(1) split by (metis append.assoc append_Cons append_Nil append_take_drop_id)
    then have "?r \<in> set (sort_key (key q) (rows q))" by (simp only: set_append list.set) blast
    then have r: "?r \<in> set (rows q)" by simp
    have here: "ans q t = Inr (map (item q) (take ?n zs), enc q ?r)"
      using less.prems(2) [OF refl] True by (simp add: page_items_def min_def)
    have next_page: "ans q (enc q ?r) = Inr (map (item q) (page_items ?n out), if ?n < length out then enc q (last (page_items ?n out)) else nil)"
      if "out = take (Suc ?n) (drop ?n zs)" for out
      using ans_next [OF v r] page_rows_after [OF keys_distinct [OF v] sorted] that by (simp add: Let_def)
    have "length (drop ?n zs) < length zs" using n True by simp
    moreover have "sort_key (key q) (rows q) = (ys @ take ?n zs) @ drop ?n zs" using less.prems(1) by simp
    ultimately obtain ps where ps: "fetches (ans q) nil (enc q ?r) ps" "concat ps = map (item q) (drop ?n zs)" "\<forall>p\<in>set ps. length p \<le> ?n"
      using less.hyps next_page by blast
    have "fetches (ans q) nil t (map (item q) (take ?n zs) # ps)"
      using here enc_token [OF v r] ps(1) by (rule fetches.next_page)
    moreover have "concat (map (item q) (take ?n zs) # ps) = map (item q) zs"
      using ps(2) by (simp flip: map_append)
    ultimately show ?thesis using ps(3) by (intro exI [of _ "map (item q) (take ?n zs) # ps"]) simp
  qed
qed

theorem follow_tokens:
  assumes "valid q"
  shows "\<exists>ps. fetches (ans q) nil nil ps \<and> concat ps = map (item q) (sort_key (key q) (rows q)) \<and> (\<forall>p\<in>set ps. length p \<le> limit q)"
  using assms ans_first [OF assms]
  by (intro fetches_rest [where ys = "[]"]) (simp_all add: page_rows_def Let_def)

end

end
