(* ===== verification/Keyset.thy ===== *)
theory Keyset
  imports Paging Tables
begin

text \<open>
  The keyset cursors of the experiment and run searches (\<open>internal/store/sqlite.go\<close>): a list of order columns, each with a
  direction, ordered lexicographically; the token holds the values of the last row. A token is the base64 text of a JSON array.
  It is kept decoded: \<open>BadToken\<close> is a text that is no such array, and the array has only numbers and texts. JSON gives
  an integer back as the nearest \<open>float64\<close>, and a text without what is not UTF-8.
\<close>

section \<open>Columns\<close>

text \<open>An order column with the value of its SQL expression on a row, and the Go value that goes into the token.\<close>

datatype goval = GInt int | GReal rat | GText string

record 'r keysetCol =
  kc_expr :: "'r \<Rightarrow> sqlv"
  kc_desc :: bool
  kc_val :: "'r \<Rightarrow> goval"

text \<open>A value with a direction: in descending columns the order is turned around.\<close>

datatype dirv = Asc sqlv | Desc sqlv

instantiation dirv :: linorder
begin

definition less_eq_dirv :: "dirv \<Rightarrow> dirv \<Rightarrow> bool" where
  "less_eq_dirv a b = (case a of Asc x \<Rightarrow> (case b of Asc y \<Rightarrow> x \<le> y | Desc y \<Rightarrow> True)
     | Desc x \<Rightarrow> (case b of Asc y \<Rightarrow> False | Desc y \<Rightarrow> y \<le> x))"

definition less_dirv :: "dirv \<Rightarrow> dirv \<Rightarrow> bool" where
  "less_dirv a b = (case a of Asc x \<Rightarrow> (case b of Asc y \<Rightarrow> x < y | Desc y \<Rightarrow> True)
     | Desc x \<Rightarrow> (case b of Asc y \<Rightarrow> False | Desc y \<Rightarrow> y < x))"

instance
  by standard (auto simp: less_eq_dirv_def less_dirv_def split: dirv.splits)

end

definition directed :: "'r keysetCol \<Rightarrow> sqlv \<Rightarrow> dirv" where
  "directed c v = (if kc_desc c then Desc v else Asc v)"

text \<open>\<open>ORDER BY\<close> the columns: the rows are sorted by this list of values.\<close>

definition keysetOrderClause :: "'r keysetCol list \<Rightarrow> 'r \<Rightarrow> dirv list" where
  "keysetOrderClause cols r = map (\<lambda>c. directed c (kc_expr c r)) cols"

datatype token = NoToken | BadToken | Token "goval list"

definition encodeCursor :: "'r keysetCol list \<Rightarrow> 'r \<Rightarrow> token" where
  "encodeCursor cols r = Token (map (\<lambda>c. kc_val c r) cols)"

fun json_value :: "goval \<Rightarrow> sqlv" where
  "json_value (GInt n) = VNum (of_int (f64_of_int n))"
| "json_value (GReal x) = VNum x"
| "json_value (GText s) = VText (utf8_coerce s)"

definition decodeCursor :: "token \<Rightarrow> nat \<Rightarrow> err + sqlv list" where
  "decodeCursor tok n =
     (case tok of Token vs \<Rightarrow> if length vs = n then Inr (map json_value vs) else Inl ErrInvalidFilter | _ \<Rightarrow> Inl ErrInvalidFilter)"

text \<open>The row comes after the cursor: the first columns are equal and the next one is past it, for some number of columns.\<close>

definition keysetPredicate :: "'r keysetCol list \<Rightarrow> sqlv list \<Rightarrow> 'r \<Rightarrow> bool" where
  "keysetPredicate cols cur r = list_ex (\<lambda>i.
     list_all (\<lambda>j. kc_expr (cols ! j) r = cur ! j) [0..<i] \<and>
     (if kc_desc (cols ! i) then kc_expr (cols ! i) r < cur ! i else kc_expr (cols ! i) r > cur ! i)) [0..<length cols]"

lemma directed_less: "directed c u < directed c v \<longleftrightarrow> (if kc_desc c then v < u else u < v)"
  by (simp add: directed_def less_dirv_def)

lemma list_ex_upt_Suc: "list_ex P [0..<Suc n] \<longleftrightarrow> P 0 \<or> list_ex (\<lambda>i. P (Suc i)) [0..<n]"
  by (auto simp: list_ex_iff Bex_def less_Suc_eq_0_disj simp del: upt_Suc)

lemma list_all_upt_Suc: "list_all P [0..<Suc n] \<longleftrightarrow> P 0 \<and> list_all (\<lambda>i. P (Suc i)) [0..<n]"
  by (auto simp: list_all_iff less_Suc_eq_0_disj simp del: upt_Suc)

lemma keysetPredicate_iff:
  "length cur = length cols \<Longrightarrow> keysetPredicate cols cur r \<longleftrightarrow> map2 directed cols cur < keysetOrderClause cols r"
proof (induction cols arbitrary: cur)
  case Nil
  then show ?case by (simp add: keysetPredicate_def keysetOrderClause_def)
next
  case (Cons c cols)
  then obtain v vs where cur: "cur = v # vs" and len: "length vs = length cols" by (cases cur) auto
  have all: "list_all (\<lambda>j. kc_expr ((c # cols) ! j) r = cur ! j) [0..<Suc i] \<longleftrightarrow>
      kc_expr c r = v \<and> list_all (\<lambda>j. kc_expr (cols ! j) r = vs ! j) [0..<i]" for i
    unfolding list_all_upt_Suc by (simp add: cur)
  have "keysetPredicate (c # cols) cur r \<longleftrightarrow>
      (if kc_desc c then kc_expr c r < v else v < kc_expr c r) \<or> kc_expr c r = v \<and> keysetPredicate cols vs r"
    unfolding keysetPredicate_def list.size add_0_right add_Suc_right list_ex_upt_Suc all by (auto simp: cur list_ex_iff)
  then show ?case using Cons.IH [OF len]
    by (auto simp: cur keysetOrderClause_def directed_less) (auto simp: directed_def split: if_splits)
qed

text \<open>
  The token of a row stands for its key when JSON does not change the values: \<open>exact_row\<close>.
\<close>

definition exact_row :: "'r keysetCol list \<Rightarrow> 'r \<Rightarrow> bool" where
  "exact_row cols r \<longleftrightarrow> list_all (\<lambda>c. json_value (kc_val c r) = kc_expr c r) cols"

lemma decode_encodeCursor:
  "exact_row cols r \<Longrightarrow> decodeCursor (encodeCursor cols r) (length cols) = Inr (map (\<lambda>c. kc_expr c r) cols)"
  by (simp add: decodeCursor_def encodeCursor_def exact_row_def list_all_iff)

lemma cursor_after:
  "keysetPredicate cols (map (\<lambda>c. kc_expr c q) cols) r \<longleftrightarrow> keysetOrderClause cols q < keysetOrderClause cols r"
proof -
  have "map2 directed cols (map (\<lambda>c. kc_expr c q) cols) = keysetOrderClause cols q"
    by (induction cols) (simp_all add: keysetOrderClause_def)
  then show ?thesis by (simp add: keysetPredicate_iff)
qed

text \<open>
  One page: the rows that pass the filter and the cursor, sorted, one more than the page holds. \<open>keyset_page\<close> is what the
  searches do with the rows that their other conditions leave.
\<close>

definition keyset_page :: "nat \<Rightarrow> 'r keysetCol list \<Rightarrow> 'r list \<Rightarrow> token \<Rightarrow> err + 'r list \<times> token" where
  "keyset_page n cols rows tok =
     (case (if tok = NoToken then Inr None else map_sum (\<lambda>e. e) Some (decodeCursor tok (length cols))) of
        Inl e \<Rightarrow> Inl e
      | Inr cur \<Rightarrow>
        let out = take (n + 1) (sort_key (keysetOrderClause cols)
              (filter (\<lambda>r. case cur of None \<Rightarrow> True | Some c \<Rightarrow> keysetPredicate cols c r) rows))
        in if n < length out then Inr (take n out, encodeCursor cols (last (take n out))) else Inr (out, NoToken))"

lemma keyset_page_first:
  "keyset_page n cols rows NoToken =
    (let out = page_rows n (keysetOrderClause cols) rows None in
     Inr (page_items n out, if n < length out then encodeCursor cols (last (page_items n out)) else NoToken))"
  by (simp add: keyset_page_def page_rows_def page_items_def Let_def)

lemma keyset_page_next:
  assumes "exact_row cols q"
  shows "keyset_page n cols rows (encodeCursor cols q) =
    (let out = page_rows n (keysetOrderClause cols) rows (Some (keysetOrderClause cols q)) in
     Inr (page_items n out, if n < length out then encodeCursor cols (last (page_items n out)) else NoToken))"
proof -
  have "encodeCursor cols q \<noteq> NoToken" by (simp add: encodeCursor_def)
  then have "(if encodeCursor cols q = NoToken then Inr None else map_sum (\<lambda>e. e) Some (decodeCursor (encodeCursor cols q) (length cols))) =
      Inr (Some (map (\<lambda>c. kc_expr c q) cols))" by (simp add: decode_encodeCursor [OF assms])
  then show ?thesis unfolding keyset_page_def by (simp add: cursor_after page_rows_def page_items_def Let_def)
qed

end
