(* ===== verification/Search.thy ===== *)
theory Search
  imports Keyset RunData RegistryBehaviour Experiments
begin

text \<open>
  The searches with keyset pagination: the history of a metric, experiments, registered models and model versions
  (\<open>internal/store/sqlite.go\<close>, \<open>internal/store/registry.go\<close>). The parameters \<open>up\<close> and \<open>low\<close> are the case tables of
  Unicode outside ASCII. A page token of the experiment search is the base64 text of a JSON array; it is kept decoded,
  and a text that is not such an array is \<open>BadToken\<close>.
\<close>

section \<open>Filters\<close>

text \<open>
  SQL's LIKE on texts: \<open>%\<close> stands for any characters, \<open>_\<close> for one; letters of ASCII match in either case.
\<close>

definition fold_rune :: "nat \<Rightarrow> nat" where
  "fold_rune r = (if 65 \<le> r \<and> r \<le> 90 then r + 32 else r)"

function like_runes :: "nat list \<Rightarrow> nat list \<Rightarrow> bool" where
  "like_runes [] cs = (cs = [])"
| "like_runes (p # ps) [] = (p = 37 \<and> like_runes ps [])"
| "like_runes (p # ps) (c # cs) =
     (if p = 37 then like_runes ps (c # cs) \<or> like_runes (p # ps) cs
      else (p = 95 \<or> fold_rune p = fold_rune c) \<and> like_runes ps cs)"
  by pat_completeness auto
termination by (relation "measure (\<lambda>(ps, cs). length ps + length cs)") auto

definition sql_like :: "string \<Rightarrow> string \<Rightarrow> bool" where
  "sql_like pat v = like_runes (runes pat) (runes v)"

text \<open>The conditions the filters produce, and when a row meets them.\<close>

datatype clause = NameEq string | NameLike string | TagEq string string | RunIDEq string

text \<open>The quotes that \<open>strings.Trim\<close> takes off: the apostrophe and the double quote.\<close>

definition quotes :: "char list" where
  "quotes = [CHR 0x27, CHR 0x22]"

definition name_clause :: "(nat \<Rightarrow> nat) \<Rightarrow> string list \<Rightarrow> err + clause" where
  "name_clause up parts =
     (let oper = ToUpper up (parts ! 1);
          val = trim_set quotes (TrimSpace (join '' '' (drop 2 parts)))
      in if oper = ''='' then Inr (NameEq val) else if oper = ''LIKE'' then Inr (NameLike val) else Inl ErrInvalidFilter)"

definition parseExperimentFilter :: "(nat \<Rightarrow> nat) \<Rightarrow> string \<Rightarrow> err + clause" where
  "parseExperimentFilter up f =
     (let parts = Fields f in
      if 3 \<le> length parts \<and> parts ! 0 = ''name'' then name_clause up parts else Inl ErrInvalidFilter)"

text \<open>
  \<open>stripPromptExclusion\<close> looks for " AND " in the upper-case text and cuts the original at that place. Upper case can make
  a text longer, so the place may lie behind the end of the original: the slice then panics.
\<close>

definition panic :: err where
  "panic = ErrOther ''slice bounds out of range''"

definition promptKey :: string where
  "promptKey = ''mlflow.prompt.is_prompt''"

definition stripPromptExclusion :: "(nat \<Rightarrow> nat) \<Rightarrow> (nat \<Rightarrow> nat) \<Rightarrow> string \<Rightarrow> err + string" where
  "stripPromptExclusion up low f =
     (case Index (ToUpper up f) '' AND '' of
        None \<Rightarrow> Inr (if Contains (ToLower low f) promptKey then [] else f)
      | Some i \<Rightarrow>
          if length f < i + 5 then Inl panic
          else if Contains (ToLower low (drop (i + 5) f)) promptKey then Inr (TrimSpace (take i f)) else Inr f)"

definition tag_clause :: "string \<Rightarrow> err + clause" where
  "tag_clause f =
     (case Index f ''='' of None \<Rightarrow> Inl ErrInvalidFilter
      | Some i \<Rightarrow> Inr (TagEq (TrimSpace (drop 5 (take i f))) (trim_set quotes (TrimSpace (drop (i + 1) f)))))"

definition parseRegistryFilter :: "(nat \<Rightarrow> nat) \<Rightarrow> (nat \<Rightarrow> nat) \<Rightarrow> string \<Rightarrow> err + clause" where
  "parseRegistryFilter up low f0 =
     (case stripPromptExclusion up low f0 of Inl e \<Rightarrow> Inl e | Inr f \<Rightarrow>
      if HasPrefix (ToLower low f) ''tags.'' then tag_clause f
      else let parts = Fields f in
        if 3 \<le> length parts \<and> ToLower low (parts ! 0) = ''name'' then name_clause up parts else Inl ErrInvalidFilter)"

definition parseModelVersionFilter :: "(nat \<Rightarrow> nat) \<Rightarrow> (nat \<Rightarrow> nat) \<Rightarrow> string \<Rightarrow> err + clause" where
  "parseModelVersionFilter up low f0 =
     (case stripPromptExclusion up low f0 of Inl e \<Rightarrow> Inl e | Inr f \<Rightarrow>
      let parts = Fields f in
      if HasPrefix (ToLower low f) ''tags.'' then tag_clause f
      else if HasPrefix (ToLower low f) ''run_id'' \<and> 3 \<le> length parts \<and> ToUpper up (parts ! 1) = ''=''
        then Inr (RunIDEq (trim_set quotes (join '' '' (drop 2 parts))))
      else if 3 \<le> length parts \<and> ToLower low (parts ! 0) = ''name'' then name_clause up parts else Inl ErrInvalidFilter)"

definition name_meets :: "clause option \<Rightarrow> string \<Rightarrow> bool" where
  "name_meets c nm = (case c of Some (NameEq v) \<Rightarrow> nm = v | Some (NameLike p) \<Rightarrow> sql_like p nm | _ \<Rightarrow> True)"

definition model_meets :: "db \<Rightarrow> string \<Rightarrow> clause option \<Rightarrow> model_row \<Rightarrow> bool" where
  "model_meets s ws c m \<longleftrightarrow> name_meets c (rg_name m) \<and>
     (case c of Some (TagEq k v) \<Rightarrow> list_ex (\<lambda>t. gt_workspace_id t = ws \<and> gt_name t = rg_name m \<and> gt_key t = k \<and> gt_value t = v) (registered_model_tags s)
      | _ \<Rightarrow> True)"

definition version_meets :: "db \<Rightarrow> string \<Rightarrow> clause option \<Rightarrow> version_row \<Rightarrow> bool" where
  "version_meets s ws c v \<longleftrightarrow> name_meets c (v_name v) \<and>
     (case c of Some (TagEq k x) \<Rightarrow> list_ex (\<lambda>t. vt_ref t = (ws, v_name v, v_version v) \<and> vt_key t = k \<and> vt_value t = x) (model_version_tags s)
      | Some (RunIDEq r) \<Rightarrow> v_run_id v = Some r | _ \<Rightarrow> True)"

definition opt_filter :: "(string \<Rightarrow> err + clause) \<Rightarrow> string \<Rightarrow> err + clause option" where
  "opt_filter parse f = (if TrimSpace f = [] then Inr None else case parse (TrimSpace f) of Inl e \<Rightarrow> Inl e | Inr c \<Rightarrow> Inr (Some c))"

section \<open>The history of a metric\<close>

record MetricHistoryOptions =
  mh_MaxResults :: int
  mh_PageToken :: string

definition encodeMetricPageToken :: "int \<Rightarrow> int \<Rightarrow> string" where
  "encodeMetricPageToken ts step = FormatInt ts @ '':'' @ FormatInt step"

definition decodeMetricPageToken :: "string \<Rightarrow> (int \<times> int) option" where
  "decodeMetricPageToken tok =
     (case Index tok '':'' of None \<Rightarrow> None
      | Some i \<Rightarrow> (case ParseInt (take i tok) of None \<Rightarrow> None
          | Some ts \<Rightarrow> map_option (Pair ts) (ParseInt (drop (i + 1) tok))))"

definition GetMetricHistory :: "string \<Rightarrow> string \<Rightarrow> MetricHistoryOptions \<Rightarrow> db \<Rightarrow> err + Metric list \<times> string" where
  "GetMetricHistory rid k opt s =
     (case (if mh_PageToken opt = [] then Inr None
            else case decodeMetricPageToken (mh_PageToken opt) of None \<Rightarrow> Inl ErrInvalidFilter | Some c \<Rightarrow> Inr (Some c)) of
        Inl e \<Rightarrow> Inl e
      | Inr cur \<Rightarrow>
        let rows = filter (\<lambda>m. m_run_id m = rid \<and> m_key m = k \<and>
              (case cur of None \<Rightarrow> True | Some (ts, step) \<Rightarrow> ts < m_timestamp m \<or> (m_timestamp m = ts \<and> step < m_step m))) (metrics s);
            sorted = sort_key (\<lambda>m. (m_timestamp m, m_step m)) rows;
            n = nat (mh_MaxResults opt);
            out = (if 0 < mh_MaxResults opt then take (n + 1) sorted else sorted)
        in if 0 < mh_MaxResults opt \<and> n < length out
           then (let lst = last (take n out) in Inr (map metric_of_row (take n out), encodeMetricPageToken (m_timestamp lst) (m_step lst)))
           else Inr (map metric_of_row out, []))"

lemma Index_colon: "CHR '':'' \<notin> set a \<Longrightarrow> Index (a @ '':'' @ b) '':'' = Some (length a)"
  by (induction a) auto

lemma decode_encode_metric:
  assumes "int64_range ts" and "int64_range step"
  shows "decodeMetricPageToken (encodeMetricPageToken ts step) = Some (ts, step)"
proof -
  have "Index (FormatInt ts @ '':'' @ FormatInt step) '':'' = Some (length (FormatInt ts))"
    by (rule Index_colon [OF FormatInt_no_colon])
  then show ?thesis using assms by (simp add: decodeMetricPageToken_def encodeMetricPageToken_def ParseInt_FormatInt)
qed

lemma encodeMetricPageToken_nonempty: "encodeMetricPageToken ts step \<noteq> []"
  by (simp add: encodeMetricPageToken_def)

lemma page_items_take: "page_items n out = (if n < length out then take n out else out)"
  by (rule page_items_def)

text \<open>The rows of one metric, and the query as the contract of pagination has it.\<close>

definition history_rows :: "string \<times> string \<times> int \<times> db \<Rightarrow> metric_row list" where
  "history_rows = (\<lambda>(rid, k, n, s). filter (\<lambda>m. m_run_id m = rid \<and> m_key m = k) (metrics s))"

definition history_valid :: "string \<times> string \<times> int \<times> db \<Rightarrow> bool" where
  "history_valid = (\<lambda>(rid, k, n, s). db_ok s \<and> 0 < n \<and> (\<forall>m\<in>set (metrics s). int64_range (m_timestamp m) \<and> int64_range (m_step m)))"

definition history_page :: "string \<times> string \<times> int \<times> db \<Rightarrow> string \<Rightarrow> err + Metric list \<times> string" where
  "history_page = (\<lambda>(rid, k, n, s) tok. GetMetricHistory rid k \<lparr>mh_MaxResults = n, mh_PageToken = tok\<rparr> s)"

lemma history_page_eq:
  assumes "0 < n" and "tok = [] \<and> cur = None \<or> tok \<noteq> [] \<and> decodeMetricPageToken tok = cur \<and> cur \<noteq> None"
  shows "history_page (rid, k, n, s) tok =
    (let out = page_rows (nat n) (\<lambda>m. (m_timestamp m, m_step m)) (history_rows (rid, k, n, s)) cur in
       Inr (map metric_of_row (page_items (nat n) out),
         if nat n < length out then encodeMetricPageToken (m_timestamp (last (page_items (nat n) out))) (m_step (last (page_items (nat n) out))) else []))"
proof -
  have f: "filter (\<lambda>m. m_run_id m = rid \<and> m_key m = k \<and>
        (case cur of None \<Rightarrow> True | Some (ts, step) \<Rightarrow> ts < m_timestamp m \<or> m_timestamp m = ts \<and> step < m_step m)) (metrics s) =
      filter (\<lambda>m. case cur of None \<Rightarrow> True | Some c \<Rightarrow> c < (m_timestamp m, m_step m)) (history_rows (rid, k, n, s))"
    by (auto simp: history_rows_def intro!: filter_cong split: option.splits)
  have c: "(if tok = [] then Inr None else case decodeMetricPageToken tok of None \<Rightarrow> Inl ErrInvalidFilter | Some c \<Rightarrow> Inr (Some c)) = Inr cur"
    using assms(2) by (auto split: option.split)
  show ?thesis unfolding history_page_def GetMetricHistory_def prod.case MetricHistoryOptions.select_convs c sum.case f
    using assms(1) by (simp add: page_rows_def page_items_def Let_def)
qed

interpretation history: keyset_search history_page "[]" history_valid history_rows "\<lambda>_ m. (m_timestamp m, m_step m)"
  "\<lambda>_. metric_of_row" "\<lambda>(rid, k, n, s). nat n" "\<lambda>_ m. encodeMetricPageToken (m_timestamp m) (m_step m)"
proof (unfold_locales, goal_cases)
  case (1 q)
  then show ?case by (cases q) (simp add: history_valid_def)
next
  case (2 q)
  obtain rid k n s where q: "q = (rid, k, n, s)" by (cases q)
  have "distinct (map m_pk (metrics s))" using 2 db_okD(6) by (auto simp: q history_valid_def metrics_ok_def pk_def)
  then have "distinct (map m_pk (history_rows q))" by (simp add: q history_rows_def distinct_map_filter)
  then show ?case by (auto simp: q history_rows_def distinct_map inj_on_def)
next
  case (3 q r)
  show ?case by (rule encodeMetricPageToken_nonempty)
next
  case (4 q)
  obtain rid k n s where q: "q = (rid, k, n, s)" by (cases q)
  from 4 show ?case unfolding q prod.case by (intro history_page_eq) (auto simp: history_valid_def)
next
  case (5 q r)
  obtain rid k n s where q: "q = (rid, k, n, s)" by (cases q)
  have "decodeMetricPageToken (encodeMetricPageToken (m_timestamp r) (m_step r)) = Some (m_timestamp r, m_step r)"
    using 5 by (intro decode_encode_metric) (auto simp: q history_valid_def history_rows_def)
  with 5 show ?case unfolding q prod.case
    by (intro history_page_eq) (auto simp: q history_valid_def encodeMetricPageToken_nonempty)
qed

text \<open>
  C20. A client that reads the history of a metric page by page gets exactly what one call without a limit returns: every
  observation once, by time and step. The token of a page leads to the next one, and the last page has none.
\<close>

theorem GetMetricHistory_pages:
  assumes "db_ok s" and "0 < n" and "\<forall>m\<in>set (metrics s). int64_range (m_timestamp m) \<and> int64_range (m_step m)"
  shows "\<exists>ps. fetches (\<lambda>tok. GetMetricHistory rid k \<lparr>mh_MaxResults = n, mh_PageToken = tok\<rparr> s) [] [] ps \<and>
    GetMetricHistory rid k \<lparr>mh_MaxResults = 0, mh_PageToken = []\<rparr> s = Inr (concat ps, []) \<and> (\<forall>p\<in>set ps. int (length p) \<le> n)"
proof -
  have "history_valid (rid, k, n, s)" using assms by (simp add: history_valid_def)
  from history.follow_tokens [OF this] obtain ps where "fetches (history_page (rid, k, n, s)) [] [] ps"
    "concat ps = map metric_of_row (sort_key (\<lambda>m. (m_timestamp m, m_step m)) (history_rows (rid, k, n, s)))" "\<forall>p\<in>set ps. length p \<le> nat n" by auto
  then show ?thesis using assms(2) by (intro exI [of _ ps]) (auto simp: history_page_def history_rows_def GetMetricHistory_def)
qed

text \<open>A history of three observations of one metric, read in pages of two.\<close>

definition history_db :: db where
  "history_db = sample_db\<lparr>metrics := map (\<lambda>i. \<lparr>m_run_id = ''r1'', m_key = ''loss'', m_value = Fin 1, m_timestamp = i, m_step = - i\<rparr>) [3, 1, 2]\<rparr>"

lemma db_ok_history: "db_ok history_db"
proof -
  note ok = db_okD [OF db_ok_sample]
  have "metrics_ok (keys r_id (runs sample_db)) (metrics history_db) (metrics_latest sample_db)"
    using ok(6) by (auto simp: metrics_ok_def history_db_def pk_def fk_def keys_def sample_run_def)
  with ok show ?thesis by (simp add: db_ok_def history_db_def)
qed

theorem GetMetricHistory_pages_witness:
  "\<exists>ps. fetches (\<lambda>tok. GetMetricHistory ''r1'' ''loss'' \<lparr>mh_MaxResults = 2, mh_PageToken = tok\<rparr> history_db) [] [] ps \<and>
    map met_Timestamp (concat ps) = [1, 2, 3]"
proof -
  have "\<forall>m\<in>set (metrics history_db). int64_range (m_timestamp m) \<and> int64_range (m_step m)" by (simp add: history_db_def)
  from GetMetricHistory_pages [OF db_ok_history _ this, of 2 "''r1''" "''loss''"]
  obtain ps where ps: "fetches (\<lambda>tok. GetMetricHistory ''r1'' ''loss'' \<lparr>mh_MaxResults = 2, mh_PageToken = tok\<rparr> history_db) [] [] ps"
    "GetMetricHistory ''r1'' ''loss'' \<lparr>mh_MaxResults = 0, mh_PageToken = []\<rparr> history_db = Inr (concat ps, [])" by auto
  from ps(2) [symmetric] have "map met_Timestamp (concat ps) = [1, 2, 3]" by (simp add: GetMetricHistory_def history_db_def metric_of_row_def)
  with ps(1) show ?thesis by (intro exI [of _ ps] conjI)
qed

section \<open>Experiments\<close>

record SearchOptions =
  so_ExperimentIDs :: "int list"
  so_LifecycleStage :: string
  so_Filter :: string
  so_OrderBy :: "string list"
  so_MaxResults :: int
  so_PageToken :: token
  so_WorkspaceID :: string

definition max_results :: "int \<Rightarrow> int \<Rightarrow> int \<Rightarrow> nat" where
  "max_results dflt hi n = nat (let m = if n \<le> 0 then dflt else n in if hi < m then hi else m)"

definition experiment_of_row :: "experiment_row \<Rightarrow> Experiment" where
  "experiment_of_row e = \<lparr>
     exp_ID = e_id e, exp_Name = e_name e, exp_ArtifactLocation = e_artifact_location e, exp_LifecycleStage = e_lifecycle_stage e,
     exp_CreationTime = e_creation_time e, exp_LastUpdateTime = e_last_update_time e, exp_WorkspaceID = e_workspace_id e, exp_Tags = []\<rparr>"

definition add_experiment_tag :: "Experiment \<Rightarrow> experiment_tag_row \<Rightarrow> Experiment" where
  "add_experiment_tag e t = e\<lparr>exp_Tags := exp_Tags e @ [\<lparr>kv_Key = et_key t, kv_Value = et_value t\<rparr>]\<rparr>"

definition loadExperimentTags :: "db \<Rightarrow> Experiment list \<Rightarrow> Experiment list" where
  "loadExperimentTags s exps = batch_load exp_ID et_experiment_id et_key add_experiment_tag tagBatchSize (experiment_tags s) exps"

definition experiment_cols :: "experiment_row keysetCol list" where
  "experiment_cols = [
     \<lparr>kc_expr = (\<lambda>e. VNum (of_int (e_creation_time e))), kc_desc = True, kc_val = (\<lambda>e. GInt (e_creation_time e))\<rparr>,
     \<lparr>kc_expr = (\<lambda>e. VNum (of_int (e_id e))), kc_desc = False, kc_val = (\<lambda>e. GInt (e_id e))\<rparr>]"

definition SearchExperiments :: "(nat \<Rightarrow> nat) \<Rightarrow> SearchOptions \<Rightarrow> db \<Rightarrow> err + Experiment list \<times> token" where
  "SearchExperiments up opt s =
     (let n = max_results 1000 50000 (so_MaxResults opt);
          stage = (if so_LifecycleStage opt = [] then LifecycleActive else so_LifecycleStage opt);
          ws = default_ws (so_WorkspaceID opt)
      in case opt_filter (parseExperimentFilter up) (so_Filter opt) of
        Inl e \<Rightarrow> Inl e
      | Inr c \<Rightarrow>
        map_sum (\<lambda>e. e) (\<lambda>(out, tok). (loadExperimentTags s (map experiment_of_row out), tok))
          (keyset_page n experiment_cols
            (filter (\<lambda>e. e_workspace_id e = ws \<and> (stage = ''all'' \<or> e_lifecycle_stage e = stage) \<and> name_meets c (e_name e)) (experiments s))
            (so_PageToken opt)))"

interpretation experiment_tag_load: batch_loader exp_ID et_experiment_id et_key add_experiment_tag
  by unfold_locales (simp add: add_experiment_tag_def)

lemma foldl_add_experiment_tag:
  "foldl add_experiment_tag e ts = e\<lparr>exp_Tags := exp_Tags e @ map (\<lambda>t. \<lparr>kv_Key = et_key t, kv_Value = et_value t\<rparr>) ts\<rparr>"
  by (induction ts arbitrary: e) (simp_all add: add_experiment_tag_def)

text \<open>The batched load gives each experiment the tags that \<open>GetExperiment\<close> reads.\<close>

lemma loadExperimentTags_eq:
  assumes "distinct (map e_id rows)"
  shows "loadExperimentTags s (map experiment_of_row rows) =
    map (\<lambda>e. (experiment_of_row e)\<lparr>exp_Tags := getExperimentTags (e_id e) s\<rparr>) rows"
proof -
  have "distinct (map exp_ID (map experiment_of_row rows))" using assms by (simp add: comp_def experiment_of_row_def)
  moreover have "0 < tagBatchSize" by (simp add: tagBatchSize_def)
  ultimately show ?thesis unfolding loadExperimentTags_def
    by (simp add: experiment_tag_load.load_eq load_one_def foldl_add_experiment_tag getExperimentTags_def experiment_of_row_def)
qed

text \<open>The search as the contract of pagination has it.\<close>

type_synonym experiment_query = "(nat \<Rightarrow> nat) \<times> SearchOptions \<times> clause option \<times> db"

definition exp_query_rows :: "experiment_query \<Rightarrow> experiment_row list" where
  "exp_query_rows = (\<lambda>(up, opt, c, s). filter (\<lambda>e. e_workspace_id e = default_ws (so_WorkspaceID opt) \<and>
     ((if so_LifecycleStage opt = [] then LifecycleActive else so_LifecycleStage opt) = ''all'' \<or>
      e_lifecycle_stage e = (if so_LifecycleStage opt = [] then LifecycleActive else so_LifecycleStage opt)) \<and>
     name_meets c (e_name e)) (experiments s))"

definition exp_query_valid :: "experiment_query \<Rightarrow> bool" where
  "exp_query_valid = (\<lambda>(up, opt, c, s). db_ok s \<and> opt_filter (parseExperimentFilter up) (so_Filter opt) = Inr c \<and>
     (\<forall>e\<in>set (experiments s). \<bar>e_creation_time e\<bar> \<le> 2 ^ 53 \<and> \<bar>e_id e\<bar> \<le> 2 ^ 53))"

definition exp_query_page :: "experiment_query \<Rightarrow> token \<Rightarrow> err + Experiment list \<times> token" where
  "exp_query_page = (\<lambda>(up, opt, c, s) tok. SearchExperiments up (opt\<lparr>so_PageToken := tok\<rparr>) s)"

definition exp_query_item :: "experiment_query \<Rightarrow> experiment_row \<Rightarrow> Experiment" where
  "exp_query_item = (\<lambda>(up, opt, c, s) e. (experiment_of_row e)\<lparr>exp_Tags := getExperimentTags (e_id e) s\<rparr>)"

definition exp_query_limit :: "experiment_query \<Rightarrow> nat" where
  "exp_query_limit = (\<lambda>(up, opt, c, s). max_results 1000 50000 (so_MaxResults opt))"

lemma max_results_pos: "0 < dflt \<Longrightarrow> 0 < hi \<Longrightarrow> 0 < max_results dflt hi n"
  by (simp add: max_results_def Let_def)

lemma set_page_rows: "set (page_rows n key rows cur) \<subseteq> set rows"
  using set_take_subset by (fastforce simp: page_rows_def)

lemma set_page_items: "set (page_items n out) \<subseteq> set out"
  by (simp add: page_items_def set_take_subset)

lemma distinct_page_rows: "distinct (map f rows) \<Longrightarrow> distinct (map f (page_rows n key rows cur))"
  unfolding page_rows_def distinct_map
  by (metis (no_types, lifting) distinct_filter distinct_sort distinct_take filter_is_subset inj_on_subset set_sort set_take_subset subset_trans)

lemma distinct_page_items: "distinct (map f out) \<Longrightarrow> distinct (map f (page_items n out))"
  by (metis distinct_take page_items_def take_map)

lemma exp_query_page_eq:
  assumes "exp_query_valid q" and "keyset_page (exp_query_limit q) experiment_cols (exp_query_rows q) tok = (let out = page_rows (exp_query_limit q) (keysetOrderClause experiment_cols) (exp_query_rows q) cur in
     Inr (page_items (exp_query_limit q) out, if exp_query_limit q < length out then encodeCursor experiment_cols (last (page_items (exp_query_limit q) out)) else NoToken))"
  shows "exp_query_page q tok =
    (let out = page_rows (exp_query_limit q) (keysetOrderClause experiment_cols) (exp_query_rows q) cur in
     Inr (map (exp_query_item q) (page_items (exp_query_limit q) out),
       if exp_query_limit q < length out then encodeCursor experiment_cols (last (page_items (exp_query_limit q) out)) else NoToken))"
proof -
  obtain up opt c s where q: "q = (up, opt, c, s)" by (cases q)
  let ?out = "page_rows (exp_query_limit q) (keysetOrderClause experiment_cols) (exp_query_rows q) cur"
  have "distinct (map e_id (experiments s))" using assms(1) db_okD(3) by (auto simp: q exp_query_valid_def experiments_ok_def pk_def)
  then have "distinct (map e_id (exp_query_rows q))" by (simp add: q exp_query_rows_def distinct_map_filter)
  then have "distinct (map e_id (page_items (exp_query_limit q) ?out))" by (intro distinct_page_items distinct_page_rows)
  note tags = loadExperimentTags_eq [OF this]
  have "exp_query_page q tok = map_sum (\<lambda>e. e) (\<lambda>(out, tok). (loadExperimentTags s (map experiment_of_row out), tok))
      (keyset_page (exp_query_limit q) experiment_cols (exp_query_rows q) tok)"
    using assms(1) by (simp add: q exp_query_page_def SearchExperiments_def exp_query_valid_def exp_query_limit_def exp_query_rows_def Let_def)
  then show ?thesis unfolding assms(2) by (simp add: Let_def tags) (simp add: q exp_query_item_def)
qed

lemma exp_cols_exact: "exp_query_valid q \<Longrightarrow> e \<in> set (exp_query_rows q) \<Longrightarrow> exact_row experiment_cols e"
  by (auto simp: exp_query_valid_def exp_query_rows_def exact_row_def experiment_cols_def f64_of_int_exact)

interpretation experiment_search: keyset_search exp_query_page NoToken exp_query_valid exp_query_rows
  "\<lambda>_. keysetOrderClause experiment_cols" exp_query_item exp_query_limit "\<lambda>_. encodeCursor experiment_cols"
proof (unfold_locales, goal_cases)
  case (1 q)
  then show ?case by (cases q) (simp add: exp_query_limit_def max_results_pos)
next
  case (2 q)
  obtain up opt c s where q: "q = (up, opt, c, s)" by (cases q)
  have "distinct (map e_id (experiments s))" using 2 db_okD(3) by (auto simp: q exp_query_valid_def experiments_ok_def pk_def)
  then have "distinct (map e_id (exp_query_rows q))" by (simp add: q exp_query_rows_def distinct_map_filter)
  then show ?case by (auto simp: distinct_map inj_on_def keysetOrderClause_def experiment_cols_def directed_def)
next
  case (3 q r)
  then show ?case by (simp add: encodeCursor_def)
next
  case (4 q)
  then show ?case by (intro exp_query_page_eq keyset_page_first)
next
  case (5 q r)
  then show ?case by (intro exp_query_page_eq keyset_page_next exp_cols_exact)
qed

text \<open>
  C21. A client that follows the page tokens of the experiment search gets every matching experiment of the workspace exactly once,
  with its tags, newest first and by id among equally old ones, and comes to an end; no page is longer than asked for. Token and
  times have to be within the integers that JSON numbers carry exactly.
\<close>

theorem SearchExperiments_pages:
  assumes "db_ok s" and "opt_filter (parseExperimentFilter up) (so_Filter opt) = Inr c"
    and "\<forall>e\<in>set (experiments s). \<bar>e_creation_time e\<bar> \<le> 2 ^ 53 \<and> \<bar>e_id e\<bar> \<le> 2 ^ 53"
  shows "\<exists>ps. fetches (\<lambda>tok. SearchExperiments up (opt\<lparr>so_PageToken := tok\<rparr>) s) NoToken NoToken ps \<and>
    concat ps = map (\<lambda>e. (experiment_of_row e)\<lparr>exp_Tags := getExperimentTags (e_id e) s\<rparr>)
      (sort_key (\<lambda>e. (- e_creation_time e, e_id e)) (exp_query_rows (up, opt, c, s))) \<and>
    (\<forall>p\<in>set ps. length p \<le> max_results 1000 50000 (so_MaxResults opt))"
proof -
  have "exp_query_valid (up, opt, c, s)" using assms by (simp add: exp_query_valid_def)
  from experiment_search.follow_tokens [OF this] obtain ps where ps: "fetches (exp_query_page (up, opt, c, s)) NoToken NoToken ps"
    "concat ps = map (exp_query_item (up, opt, c, s)) (sort_key (keysetOrderClause experiment_cols) (exp_query_rows (up, opt, c, s)))"
    "\<forall>p\<in>set ps. length p \<le> exp_query_limit (up, opt, c, s)" by blast
  have "sort_key (keysetOrderClause experiment_cols) xs = sort_key (\<lambda>e. (- e_creation_time e, e_id e)) xs" for xs
    by (rule sort_key_order_iso) (auto simp: keysetOrderClause_def experiment_cols_def directed_def less_dirv_def less_sqlv_def)
  with ps show ?thesis by (intro exI [of _ ps]) (auto simp: exp_query_page_def exp_query_item_def exp_query_limit_def)
qed

definition plain_options :: SearchOptions where
  "plain_options = \<lparr>so_ExperimentIDs = [], so_LifecycleStage = [], so_Filter = [], so_OrderBy = [], so_MaxResults = 1,
     so_PageToken = NoToken, so_WorkspaceID = []\<rparr>"

theorem SearchExperiments_pages_witness:
  "\<exists>ps. fetches (\<lambda>tok. SearchExperiments id (plain_options\<lparr>so_PageToken := tok\<rparr>) sample_db) NoToken NoToken ps \<and>
    map exp_Name (concat ps) = [''exp'']"
proof -
  have f: "opt_filter (parseExperimentFilter id) (so_Filter plain_options) = Inr None"
    by (simp add: plain_options_def opt_filter_def TrimSpace_def)
  have "\<forall>e\<in>set (experiments sample_db). \<bar>e_creation_time e\<bar> \<le> 2 ^ 53 \<and> \<bar>e_id e\<bar> \<le> 2 ^ 53" by (simp add: sample_db_def)
  from SearchExperiments_pages [OF db_ok_sample f this] obtain ps where
    ps: "fetches (\<lambda>tok. SearchExperiments id (plain_options\<lparr>so_PageToken := tok\<rparr>) sample_db) NoToken NoToken ps"
    "concat ps = map (\<lambda>e. (experiment_of_row e)\<lparr>exp_Tags := getExperimentTags (e_id e) sample_db\<rparr>)
      (sort_key (\<lambda>e. (- e_creation_time e, e_id e)) (exp_query_rows (id, plain_options, None, sample_db)))" by blast
  have "map exp_Name (concat ps) = [''exp'']" unfolding ps(2)
    by (simp add: exp_query_rows_def plain_options_def sample_db_def experiment_of_row_def default_ws_def lifecycle_defs name_meets_def)
  with ps(1) show ?thesis by (intro exI [of _ ps] conjI)
qed

section \<open>The model registry\<close>

definition SearchRegisteredModels :: "(nat \<Rightarrow> nat) \<Rightarrow> (nat \<Rightarrow> nat) \<Rightarrow> string \<Rightarrow> string \<Rightarrow> int \<Rightarrow> string \<Rightarrow> db \<Rightarrow> err + RegisteredModel list \<times> string" where
  "SearchRegisteredModels up low ws0 flt mx tok s =
     (let ws = default_ws ws0; n = max_results 100 10000 mx in
      case opt_filter (parseRegistryFilter up low) flt of Inl e \<Rightarrow> Inl e
      | Inr c \<Rightarrow>
        let out = take (n + 1) (sort_key rg_name (filter (\<lambda>m. rg_workspace_id m = ws \<and> model_meets s ws c m \<and>
              (tok = [] \<or> tok < rg_name m)) (registered_models s)));
            items = (if n < length out then take n out else out)
        in Inr (loadRegisteredModelAliases ws s (loadRegisteredModelTags ws s (map scanRegisteredModel items)),
             if n < length out then rg_name (last items) else []))"

definition SearchModelVersions :: "(nat \<Rightarrow> nat) \<Rightarrow> (nat \<Rightarrow> nat) \<Rightarrow> string \<Rightarrow> string \<Rightarrow> int \<Rightarrow> string \<Rightarrow> db \<Rightarrow> err + ModelVersion list \<times> string" where
  "SearchModelVersions up low ws0 flt mx tok s =
     (let ws = default_ws ws0; n = max_results 100 10000 mx in
      case opt_filter (parseModelVersionFilter up low) flt of Inl e \<Rightarrow> Inl e
      | Inr c \<Rightarrow>
        (case (if tok = [] then Inr None
               else case LastIndex tok '':'' of None \<Rightarrow> Inl ErrInvalidFilter
               | Some i \<Rightarrow> (case ParseInt (drop (i + 1) tok) of None \<Rightarrow> Inl ErrInvalidFilter | Some ver \<Rightarrow> Inr (Some (take i tok, ver)))) of
           Inl e \<Rightarrow> Inl e
         | Inr cur \<Rightarrow>
           let out = take (n + 1) (sort_key (\<lambda>v. (v_name v, v_version v)) (filter (\<lambda>v. v_workspace_id v = ws \<and> version_meets s ws c v \<and>
                 (case cur of None \<Rightarrow> True | Some (nm, ver) \<Rightarrow> nm < v_name v \<or> (v_name v = nm \<and> ver < v_version v))) (model_versions s)));
               items = (if n < length out then take n out else out)
           in Inr (loadModelVersionMeta ws s (map scanModelVersionRow items),
                if n < length out then v_name (last items) @ '':'' @ FormatInt (v_version (last items)) else [])))"

text \<open>Both searches as the contract of pagination has them.\<close>

type_synonym registry_query = "(nat \<Rightarrow> nat) \<times> (nat \<Rightarrow> nat) \<times> string \<times> string \<times> int \<times> clause option \<times> db"

definition reg_query_limit :: "registry_query \<Rightarrow> nat" where
  "reg_query_limit = (\<lambda>(up, low, ws, flt, mx, c, s). max_results 100 10000 mx)"

definition model_query_rows :: "registry_query \<Rightarrow> model_row list" where
  "model_query_rows = (\<lambda>(up, low, ws, flt, mx, c, s).
     filter (\<lambda>m. rg_workspace_id m = default_ws ws \<and> model_meets s (default_ws ws) c m) (registered_models s))"

definition model_query_valid :: "registry_query \<Rightarrow> bool" where
  "model_query_valid = (\<lambda>(up, low, ws, flt, mx, c, s). db_ok s \<and> opt_filter (parseRegistryFilter up low) flt = Inr c \<and>
     (\<forall>m\<in>set (registered_models s). rg_name m \<noteq> []))"

definition model_query_page :: "registry_query \<Rightarrow> string \<Rightarrow> err + RegisteredModel list \<times> string" where
  "model_query_page = (\<lambda>(up, low, ws, flt, mx, c, s) tok. SearchRegisteredModels up low ws flt mx tok s)"

definition model_query_item :: "registry_query \<Rightarrow> model_row \<Rightarrow> RegisteredModel" where
  "model_query_item = (\<lambda>(up, low, ws, flt, mx, c, s) r.
     load_one rm_Name al_name al_alias add_model_alias (filter (\<lambda>a. al_workspace_id a = default_ws ws) (model_aliases s))
       (load_one rm_Name gt_name gt_key add_model_tag (filter (\<lambda>t. gt_workspace_id t = default_ws ws) (registered_model_tags s))
         (scanRegisteredModel r)))"

lemma rm_Name_load: "rm_Name (load_one rm_Name gt_name gt_key add_model_tag tbl m) = rm_Name m"
  by (simp add: load_one_def model_tag_load.key_foldl_add)

lemma model_query_page_eq:
  assumes "model_query_valid q" and "tok = [] \<and> cur = None \<or> tok \<noteq> [] \<and> cur = Some tok"
  shows "model_query_page q tok =
    (let out = page_rows (reg_query_limit q) rg_name (model_query_rows q) cur in
     Inr (map (model_query_item q) (page_items (reg_query_limit q) out), if reg_query_limit q < length out then rg_name (last (page_items (reg_query_limit q) out)) else []))"
proof -
  obtain up low ws flt mx c s where q: "q = (up, low, ws, flt, mx, c, s)" by (cases q)
  let ?out = "page_rows (reg_query_limit q) rg_name (model_query_rows q) cur"
  let ?items = "page_items (reg_query_limit q) ?out"
  have "distinct (map rg_pk (registered_models s))" using assms(1) db_okD(15) by (auto simp: q model_query_valid_def models_ok_def pk_def)
  then have "distinct (map rg_name (model_query_rows q))"
    by (auto simp: q model_query_rows_def distinct_map inj_on_def)
  then have "distinct (map rg_name ?items)" by (intro distinct_page_items distinct_page_rows)
  then have d: "distinct (map rm_Name (map scanRegisteredModel ?items))" by (simp add: comp_def scanRegisteredModel_def)
  have pos: "0 < tagBatchSize" by (simp add: tagBatchSize_def)
  let ?load = "load_one rm_Name gt_name gt_key add_model_tag (filter (\<lambda>t. gt_workspace_id t = default_ws ws) (registered_model_tags s))"
  have tags: "loadRegisteredModelTags (default_ws ws) s (map scanRegisteredModel ?items) = map ?load (map scanRegisteredModel ?items)"
    unfolding loadRegisteredModelTags_def by (rule model_tag_load.load_eq [OF pos d])
  moreover have "distinct (map rm_Name (map ?load (map scanRegisteredModel ?items)))" using d by (simp add: comp_def rm_Name_load)
  ultimately have load: "loadRegisteredModelAliases (default_ws ws) s (loadRegisteredModelTags (default_ws ws) s (map scanRegisteredModel ?items)) =
      map (model_query_item q) ?items"
    unfolding loadRegisteredModelAliases_def tags by (simp add: model_alias_load.load_eq [OF pos] q model_query_item_def)
  have rows: "filter (\<lambda>m. rg_workspace_id m = default_ws ws \<and> model_meets s (default_ws ws) c m \<and> (tok = [] \<or> tok < rg_name m)) (registered_models s) =
      filter (\<lambda>m. case cur of None \<Rightarrow> True | Some k \<Rightarrow> k < rg_name m) (model_query_rows q)"
    using assms(2) by (auto simp: q model_query_rows_def intro!: filter_cong)
  have out: "take (reg_query_limit q + 1) (sort_key rg_name (filter (\<lambda>m. rg_workspace_id m = default_ws ws \<and> model_meets s (default_ws ws) c m \<and>
      (tok = [] \<or> tok < rg_name m)) (registered_models s))) = ?out"
    unfolding rows by (simp add: page_rows_def)
  have "opt_filter (parseRegistryFilter up low) flt = Inr c" using assms(1) by (simp add: q model_query_valid_def)
  moreover have lim: "max_results 100 10000 mx = reg_query_limit q" by (simp add: q reg_query_limit_def)
  ultimately show ?thesis
    unfolding q model_query_page_def prod.case SearchRegisteredModels_def Let_def
    by (simp only: sum.case out [unfolded q] lim [unfolded q] page_items_def [symmetric] load [unfolded q])
qed

interpretation model_search: keyset_search model_query_page "[]" model_query_valid model_query_rows
  "\<lambda>_. rg_name" model_query_item reg_query_limit "\<lambda>_. rg_name"
proof (unfold_locales, goal_cases)
  case (1 q)
  then show ?case by (cases q) (simp add: reg_query_limit_def max_results_pos)
next
  case (2 q)
  obtain up low ws flt mx c s where q: "q = (up, low, ws, flt, mx, c, s)" by (cases q)
  have "distinct (map rg_pk (registered_models s))" using 2 db_okD(15) by (auto simp: q model_query_valid_def models_ok_def pk_def)
  then show ?case by (auto simp: q model_query_rows_def distinct_map inj_on_def)
next
  case (3 q r)
  then show ?case by (cases q) (auto simp: model_query_valid_def model_query_rows_def)
next
  case (4 q)
  then show ?case by (intro model_query_page_eq) simp_all
next
  case (5 q r)
  then have "rg_name r \<noteq> []" by (cases q) (auto simp: model_query_valid_def model_query_rows_def)
  with 5 show ?case by (intro model_query_page_eq) simp_all
qed

definition version_query_rows :: "registry_query \<Rightarrow> version_row list" where
  "version_query_rows = (\<lambda>(up, low, ws, flt, mx, c, s).
     filter (\<lambda>v. v_workspace_id v = default_ws ws \<and> version_meets s (default_ws ws) c v) (model_versions s))"

definition version_query_valid :: "registry_query \<Rightarrow> bool" where
  "version_query_valid = (\<lambda>(up, low, ws, flt, mx, c, s). db_ok s \<and> opt_filter (parseModelVersionFilter up low) flt = Inr c \<and>
     (\<forall>v\<in>set (model_versions s). int64_range (v_version v)))"

definition version_query_page :: "registry_query \<Rightarrow> string \<Rightarrow> err + ModelVersion list \<times> string" where
  "version_query_page = (\<lambda>(up, low, ws, flt, mx, c, s) tok. SearchModelVersions up low ws flt mx tok s)"

definition version_token :: "version_row \<Rightarrow> string" where
  "version_token v = v_name v @ '':'' @ FormatInt (v_version v)"

definition decode_version_token :: "string \<Rightarrow> err + (string \<times> int) option" where
  "decode_version_token tok = (if tok = [] then Inr None
     else case LastIndex tok '':'' of None \<Rightarrow> Inl ErrInvalidFilter
     | Some i \<Rightarrow> (case ParseInt (drop (i + 1) tok) of None \<Rightarrow> Inl ErrInvalidFilter | Some ver \<Rightarrow> Inr (Some (take i tok, ver))))"

lemma LastIndex_colon: "CHR '':'' \<notin> set b \<Longrightarrow> LastIndex (a @ '':'' @ b) '':'' = Some (length a)"
proof (induction a)
  case Nil
  then have "LastIndex b '':'' = None" by (induction b) (auto split: option.split)
  then show ?case by simp
qed simp

text \<open>A model name may contain colons; the last one separates the version.\<close>

lemma decode_version_token_token:
  "int64_range (v_version v) \<Longrightarrow> decode_version_token (version_token v) = Inr (Some (v_name v, v_version v))"
  using LastIndex_colon [OF FormatInt_no_colon, of "v_name v" "v_version v"]
  by (simp add: decode_version_token_def version_token_def ParseInt_FormatInt)

lemma version_query_page_eq:
  assumes "version_query_valid q" and "decode_version_token tok = Inr cur"
  shows "version_query_page q tok =
    (let out = page_rows (reg_query_limit q) (\<lambda>v. (v_name v, v_version v)) (version_query_rows q) cur in
     Inr (map ((\<lambda>(up, low, ws, flt, mx, c, s). version_view s) q) (page_items (reg_query_limit q) out),
       if reg_query_limit q < length out then version_token (last (page_items (reg_query_limit q) out)) else []))"
proof -
  obtain up low ws flt mx c s where q: "q = (up, low, ws, flt, mx, c, s)" by (cases q)
  let ?key = "\<lambda>v. (v_name v, v_version v)"
  let ?out = "page_rows (reg_query_limit q) ?key (version_query_rows q) cur"
  let ?items = "page_items (reg_query_limit q) ?out"
  have "distinct (map v_pk (model_versions s))" using assms(1) db_okD(16) by (auto simp: q version_query_valid_def versions_ok_def pk_def)
  then have "distinct (map ?key (version_query_rows q))" by (auto simp: q version_query_rows_def distinct_map inj_on_def)
  then have "distinct (map ?key ?items)" by (intro distinct_page_items distinct_page_rows)
  then have d: "distinct (map (\<lambda>mv. (mv_Name mv, mv_Version mv)) (map scanModelVersionRow ?items))" by (simp add: comp_def scanModelVersionRow_def)
  have "set ?items \<subseteq> set (version_query_rows q)"
    by (rule subset_trans [OF set_page_items set_page_rows])
  then have "\<forall>v\<in>set ?items. v_workspace_id v = default_ws ws" by (auto simp: q version_query_rows_def)
  then have load: "loadModelVersionMeta (default_ws ws) s (map scanModelVersionRow ?items) = map (version_view s) ?items"
    unfolding load_versions [OF d] by (auto simp: version_view_def scanModelVersionRow_def)
  have rows: "filter (\<lambda>v. v_workspace_id v = default_ws ws \<and> version_meets s (default_ws ws) c v \<and>
        (case cur of None \<Rightarrow> True | Some (nm, ver) \<Rightarrow> nm < v_name v \<or> v_name v = nm \<and> ver < v_version v)) (model_versions s) =
      filter (\<lambda>v. case cur of None \<Rightarrow> True | Some k \<Rightarrow> k < ?key v) (version_query_rows q)"
    by (auto simp: q version_query_rows_def intro!: filter_cong split: option.splits)
  have out: "take (reg_query_limit q + 1) (sort_key ?key (filter (\<lambda>v. v_workspace_id v = default_ws ws \<and> version_meets s (default_ws ws) c v \<and>
        (case cur of None \<Rightarrow> True | Some (nm, ver) \<Rightarrow> nm < v_name v \<or> v_name v = nm \<and> ver < v_version v)) (model_versions s))) = ?out"
    unfolding rows by (simp add: page_rows_def)
  have "opt_filter (parseModelVersionFilter up low) flt = Inr c" using assms(1) by (simp add: q version_query_valid_def)
  moreover have lim: "max_results 100 10000 mx = reg_query_limit q" by (simp add: q reg_query_limit_def)
  ultimately show ?thesis
    unfolding q version_query_page_def prod.case SearchModelVersions_def Let_def decode_version_token_def [symmetric] version_token_def [symmetric] assms(2)
    by (simp only: sum.case out [unfolded q] lim [unfolded q] page_items_def [symmetric] load [unfolded q])
qed

interpretation version_search: keyset_search version_query_page "[]" version_query_valid version_query_rows
  "\<lambda>_ v. (v_name v, v_version v)" "\<lambda>(up, low, ws, flt, mx, c, s). version_view s" reg_query_limit "\<lambda>_. version_token"
proof (unfold_locales, goal_cases)
  case (1 q)
  then show ?case by (cases q) (simp add: reg_query_limit_def max_results_pos)
next
  case (2 q)
  obtain up low ws flt mx c s where q: "q = (up, low, ws, flt, mx, c, s)" by (cases q)
  have "distinct (map v_pk (model_versions s))" using 2 db_okD(16) by (auto simp: q version_query_valid_def versions_ok_def pk_def)
  then show ?case by (auto simp: q version_query_rows_def distinct_map inj_on_def)
next
  case (3 q r)
  then show ?case by (simp add: version_token_def)
next
  case (4 q)
  then show ?case by (intro version_query_page_eq) (simp_all add: decode_version_token_def)
next
  case (5 q r)
  then have "int64_range (v_version r)" by (cases q) (auto simp: version_query_valid_def version_query_rows_def)
  with 5 show ?case by (intro version_query_page_eq decode_version_token_token)
qed

text \<open>
  C22. A client that follows the page tokens of the searches of the registry gets every matching registered model, and every matching
  model version of the workspace, exactly once, in the order of the names and of the version numbers, and comes to an end. Names with
  colons do not confuse the token of a version.
\<close>

theorem registry_search_pages:
  assumes "db_ok s"
    and "opt_filter (parseRegistryFilter up low) mflt = Inr mc" "\<forall>m\<in>set (registered_models s). rg_name m \<noteq> []"
    and "opt_filter (parseModelVersionFilter up low) vflt = Inr vc" "\<forall>v\<in>set (model_versions s). int64_range (v_version v)"
  shows "(\<exists>ps. fetches (\<lambda>tok. SearchRegisteredModels up low ws mflt mx tok s) [] [] ps \<and>
      map rm_Name (concat ps) = map rg_name (sort_key rg_name
        (filter (\<lambda>m. rg_workspace_id m = default_ws ws \<and> model_meets s (default_ws ws) mc m) (registered_models s)))) \<and>
    (\<exists>ps. fetches (\<lambda>tok. SearchModelVersions up low ws vflt mx tok s) [] [] ps \<and>
      concat ps = map (version_view s) (sort_key (\<lambda>v. (v_name v, v_version v))
        (filter (\<lambda>v. v_workspace_id v = default_ws ws \<and> version_meets s (default_ws ws) vc v) (model_versions s))))"
proof
  let ?q = "(up, low, ws, mflt, mx, mc, s)"
  have "model_query_valid ?q" using assms by (simp add: model_query_valid_def)
  from model_search.follow_tokens [OF this] obtain ps where ps: "fetches (model_query_page ?q) [] [] ps"
    "concat ps = map (model_query_item ?q) (sort_key rg_name (model_query_rows ?q))" by blast
  have "rm_Name (model_query_item ?q r) = rg_name r" for r
    by (simp add: model_query_item_def load_one_def model_alias_load.key_foldl_add model_tag_load.key_foldl_add scanRegisteredModel_def)
  with ps show "\<exists>ps. fetches (\<lambda>tok. SearchRegisteredModels up low ws mflt mx tok s) [] [] ps \<and>
      map rm_Name (concat ps) = map rg_name (sort_key rg_name
        (filter (\<lambda>m. rg_workspace_id m = default_ws ws \<and> model_meets s (default_ws ws) mc m) (registered_models s)))"
    by (intro exI [of _ ps]) (simp add: model_query_page_def model_query_rows_def comp_def)
  let ?q = "(up, low, ws, vflt, mx, vc, s)"
  have "version_query_valid ?q" using assms by (simp add: version_query_valid_def)
  from version_search.follow_tokens [OF this] show "\<exists>ps. fetches (\<lambda>tok. SearchModelVersions up low ws vflt mx tok s) [] [] ps \<and>
      concat ps = map (version_view s) (sort_key (\<lambda>v. (v_name v, v_version v))
        (filter (\<lambda>v. v_workspace_id v = default_ws ws \<and> version_meets s (default_ws ws) vc v) (model_versions s)))"
    by (auto simp: version_query_page_def version_query_rows_def)
qed

theorem registry_search_pages_witness:
  "\<exists>ps qs. fetches (\<lambda>tok. SearchRegisteredModels id id [] [] 1 tok sample_registry) [] [] ps \<and>
    fetches (\<lambda>tok. SearchModelVersions id id [] [] 1 tok sample_registry) [] [] qs \<and>
    map mv_Version (concat qs) = [1, 2] \<and> map rm_Name (concat ps) = [''churn'']"
proof -
  have f: "opt_filter p [] = Inr None" for p by (simp add: opt_filter_def TrimSpace_def)
  have n: "\<forall>m\<in>set (registered_models sample_registry). rg_name m \<noteq> []" "\<forall>v\<in>set (model_versions sample_registry). int64_range (v_version v)"
    by (simp_all add: sample_version_def)
  from registry_search_pages [OF db_ok_sample_registry f n(1) f n(2), of id id "[]" 1] obtain ps qs where
    p: "fetches (\<lambda>tok. SearchRegisteredModels id id [] [] 1 tok sample_registry) [] [] ps" "map rm_Name (concat ps) = map rg_name (sort_key rg_name
        (filter (\<lambda>m. rg_workspace_id m = default_ws [] \<and> model_meets sample_registry (default_ws []) None m) (registered_models sample_registry)))" and
    q: "fetches (\<lambda>tok. SearchModelVersions id id [] [] 1 tok sample_registry) [] [] qs" "concat qs = map (version_view sample_registry) (sort_key (\<lambda>v. (v_name v, v_version v))
        (filter (\<lambda>v. v_workspace_id v = default_ws [] \<and> version_meets sample_registry (default_ws []) None v) (model_versions sample_registry)))" by blast
  have "map mv_Version (concat qs) = [1, 2]" unfolding q(2)
    by (simp add: sample_version_def version_meets_def name_meets_def default_ws_def version_view_def scanModelVersionRow_def)
  moreover have "map rm_Name (concat ps) = [''churn'']" unfolding p(2)
    by (simp add: model_meets_def name_meets_def default_ws_def)
  ultimately show ?thesis using p(1) q(1) by (intro exI [of _ ps] exI [of _ qs] conjI)
qed

text \<open>
  A filter that consists of the prompt exclusion alone is cut to the empty text, which both parsers then refuse.
\<close>

lemma prompt_exclusion_refused:
  assumes "Index (ToUpper up f) '' AND '' = None" and "Contains (ToLower low f) promptKey"
  shows "parseRegistryFilter up low f = Inl ErrInvalidFilter" and "parseModelVersionFilter up low f = Inl ErrInvalidFilter"
proof -
  have "stripPromptExclusion up low f = Inr []" using assms by (simp add: stripPromptExclusion_def)
  then show "parseRegistryFilter up low f = Inl ErrInvalidFilter" and "parseModelVersionFilter up low f = Inl ErrInvalidFilter"
    by (simp_all add: parseRegistryFilter_def parseModelVersionFilter_def ToLower_ascii is_ascii_def HasPrefix_def Fields_def)
qed

end
