(* ===== verification/RunFilter.thy ===== *)
theory RunFilter
  imports Search
begin

text \<open>
  The filter language of the run search (\<open>parseRunFilter\<close> and its helpers in \<open>internal/store/sqlite.go\<close>): a conjunction of
  predicates on the attributes, parameters, tags and latest metrics of a run. The parser turns each predicate into one of a few
  fixed SQL texts with placeholders, and the values bound to them: a clause has a constructor for each of these texts, with the
  values as its arguments, and \<open>run_meets\<close> says when a row meets it. What is not under the control of the program is a parameter, collected in the
  record \<open>engine\<close>: the case table of Unicode, \<open>strconv.ParseFloat\<close>, and two conversions of SQLite between numbers and texts.
\<close>

section \<open>Clauses\<close>

record engine =
  en_up :: "nat \<Rightarrow> nat"
  en_ParseFloat :: "string \<Rightarrow> f64 option"
  en_numeric :: "string \<Rightarrow> rat option"
  en_real_text :: "f64 \<Rightarrow> string"

datatype cmp = CGe | CLe | CNe | CEq | CGt | CLt | CLike

datatype column = ColStatus | ColStart | ColEnd | ColName | ColID

datatype run_clause =
    ColCmp column cmp string
  | ParamCmp string cmp string
  | TagCmp string cmp string
  | MetricCmp string cmp f64
  | ColIn column "string list"
  | ParamIn string "string list"
  | TagIn string "string list"
  | MetricBetween string f64 f64
  | ColBetween column f64 f64

text \<open>The operators in the order in which the parser looks for them, with the text it searches.\<close>

definition operators :: "(cmp \<times> string) list" where
  "operators = [(CGe, ''>=''), (CLe, ''<=''), (CNe, ''!=''), (CEq, ''=''), (CGt, ''>''), (CLt, ''<''), (CLike, '' LIKE '')]"

section \<open>Splitting at AND\<close>

definition apostrophe :: char where
  "apostrophe = CHR 0x27"

text \<open>
  \<open>splitOnAnd\<close> walks over the text and its upper case in step: \<open>c # cs\<close> is the rest of the text and \<open>ups\<close> the rest of the upper
  case, \<open>d\<close> the depth of parentheses, \<open>q\<close> whether the place is inside quotes, \<open>b\<close> whether a BETWEEN waits for its AND, \<open>acc\<close> the
  piece since the last cut. A comparison beyond the end of the upper case panics.
\<close>

definition in_quote :: "char \<Rightarrow> bool \<Rightarrow> bool" where
  "in_quote c q = (if c = apostrophe then \<not> q else q)"

definition paren_depth :: "char \<Rightarrow> bool \<Rightarrow> int \<Rightarrow> int" where
  "paren_depth c q d = (if q then d else if c = CHR ''('' then d + 1 else if c = CHR '')'' then d - 1 else d)"

fun split_and :: "string \<Rightarrow> string \<Rightarrow> int \<Rightarrow> bool \<Rightarrow> bool \<Rightarrow> string \<Rightarrow> err + string list" where
  "split_and [] ups d q b acc = Inr [acc]"
| "split_and (c # cs) ups d q b acc =
     (let q' = in_quote c q; d' = paren_depth c q d in
      if q' \<or> d' \<noteq> 0 then split_and cs (drop 1 ups) d' q' b (acc @ [c])
      else if 8 \<le> length cs \<and> length ups < 9 then Inl panic
      else
        let b' = (b \<or> (8 \<le> length cs \<and> take 9 ups = '' BETWEEN '')) in
        if 4 \<le> length cs \<and> length ups < 5 then Inl panic
        else if 4 \<le> length cs \<and> take 5 ups = '' AND '' then
          if b' then split_and (drop 4 cs) (drop 5 ups) d' q' False (acc @ c # take 4 cs)
          else map_sum (\<lambda>e. e) (Cons acc) (split_and (drop 4 cs) (drop 5 ups) d' q' b' [])
        else split_and cs (drop 1 ups) d' q' b' (acc @ [c]))"

definition splitOnAnd :: "engine \<Rightarrow> string \<Rightarrow> err + string list" where
  "splitOnAnd en s = split_and s (ToUpper (en_up en) s) 0 False False []"

section \<open>IN lists\<close>

function in_values :: "string \<Rightarrow> bool \<Rightarrow> string \<Rightarrow> err + string list" where
  "in_values [] q cur = (if q then Inl ErrInvalidFilter else Inr (if TrimSpace cur = [] then [] else [TrimSpace cur]))"
| "in_values (c # cs) q cur =
     (if c = apostrophe \<and> \<not> q then in_values cs True cur
      else if c = apostrophe \<and> q then
        if cs \<noteq> [] \<and> hd cs = apostrophe then in_values (tl cs) True (cur @ [apostrophe])
        else map_sum (\<lambda>e. e) (Cons cur) (in_values (dropWhile (\<lambda>x. x = CHR '','' \<or> x = CHR '' '') cs) False [])
      else if c = CHR '','' \<and> \<not> q then map_sum (\<lambda>e. e) (Cons (TrimSpace cur)) (in_values cs q [])
      else if \<not> q \<and> c = CHR '' '' then in_values cs q cur
      else in_values cs q (cur @ [c]))"
  by pat_completeness auto
termination by (relation "measure (\<lambda>(s, q, cur). length s)") (auto simp: less_Suc_eq_le length_dropWhile_le)

definition parseINValues :: "string \<Rightarrow> err + string list" where
  "parseINValues s0 = (let s = TrimSpace s0 in if s = [] then Inr [] else in_values s False [])"

definition attribute_column :: "(string \<times> column) list" where
  "attribute_column = [(''status'', ColStatus), (''start_time'', ColStart), (''end_time'', ColEnd), (''run_name'', ColName), (''run_id'', ColID)]"

text \<open>\<open>None\<close> is the result "not an IN predicate".\<close>

definition tryParseIN :: "engine \<Rightarrow> string \<Rightarrow> (err + run_clause) option" where
  "tryParseIN en c =
     (case Index (ToUpper (en_up en) c) '' IN ('' of None \<Rightarrow> None
      | Some i \<Rightarrow> Some (
          if length c < i + 5 then Inl panic
          else let left = TrimSpace (take i c); rest = TrimSpace (drop (i + 5) c) in
          case LastIndex rest '')'' of None \<Rightarrow> Inl ErrInvalidFilter
          | Some j \<Rightarrow> (case parseINValues (take j rest) of Inl e \<Rightarrow> Inl e
            | Inr vals \<Rightarrow>
                if vals = [] then Inl ErrInvalidFilter
                else if left = ''status'' then Inr (ColIn ColStatus vals)
                else if HasPrefix left ''attributes.'' then
                  (case map_of attribute_column (TrimPrefix left ''attributes.'') of None \<Rightarrow> Inl ErrInvalidFilter
                   | Some col \<Rightarrow> Inr (ColIn col vals))
                else if HasPrefix left ''params.'' then Inr (ParamIn (TrimPrefix left ''params.'') vals)
                else if HasPrefix left ''tags.'' then Inr (TagIn (TrimPrefix left ''tags.'') vals)
                else Inl ErrInvalidFilter)))"

section \<open>BETWEEN\<close>

definition float_range :: "engine \<Rightarrow> string \<Rightarrow> string \<Rightarrow> (f64 \<Rightarrow> f64 \<Rightarrow> run_clause) \<Rightarrow> err + run_clause" where
  "float_range en loStr hiStr mk =
     (case en_ParseFloat en loStr of None \<Rightarrow> Inl ErrInvalidFilter
      | Some lo \<Rightarrow> (case en_ParseFloat en hiStr of None \<Rightarrow> Inl ErrInvalidFilter | Some hi \<Rightarrow> Inr (mk lo hi)))"

definition tryParseBETWEEN :: "engine \<Rightarrow> string \<Rightarrow> (err + run_clause) option" where
  "tryParseBETWEEN en c =
     (case Index (ToUpper (en_up en) c) '' BETWEEN '' of None \<Rightarrow> None
      | Some i \<Rightarrow> Some (
          if length c < i + 9 then Inl panic
          else let left = TrimSpace (take i c); rest = TrimSpace (drop (i + 9) c) in
          case Index (ToUpper (en_up en) rest) '' AND '' of None \<Rightarrow> Inl ErrInvalidFilter
          | Some j \<Rightarrow>
              if length rest < j + 5 then Inl panic
              else let loStr = TrimSpace (take j rest); hiStr = TrimSpace (drop (j + 5) rest) in
              if HasPrefix left ''metrics.'' then float_range en loStr hiStr (MetricBetween (TrimPrefix left ''metrics.''))
              else if HasPrefix left ''attributes.'' then
                (case map_of [(''start_time'', ColStart), (''end_time'', ColEnd)] (TrimPrefix left ''attributes.'') of
                   None \<Rightarrow> Inl ErrInvalidFilter | Some col \<Rightarrow> float_range en loStr hiStr (ColBetween col))
              else Inl ErrInvalidFilter))"

section \<open>Predicates and filters\<close>

text \<open>A field with an operator and the text of the value; \<open>None\<close>: no case of the switch applies and the next operator is tried.\<close>

definition field_clause :: "engine \<Rightarrow> string \<Rightarrow> cmp \<Rightarrow> string \<Rightarrow> (err + run_clause) option" where
  "field_clause en left oper right =
     (if left = ''status'' then Some (Inr (ColCmp ColStatus oper right))
      else if HasPrefix left ''params.'' then Some (Inr (ParamCmp (TrimPrefix left ''params.'') oper right))
      else if HasPrefix left ''tags.'' then Some (Inr (TagCmp (TrimPrefix left ''tags.'') oper right))
      else if HasPrefix left ''metrics.'' then
        Some (case en_ParseFloat en right of None \<Rightarrow> Inl ErrInvalidFilter | Some v \<Rightarrow> Inr (MetricCmp (TrimPrefix left ''metrics.'') oper v))
      else if HasPrefix left ''attributes.'' then
        Some (case map_of attribute_column (TrimPrefix left ''attributes.'') of None \<Rightarrow> Inl ErrInvalidFilter | Some col \<Rightarrow> Inr (ColCmp col oper right))
      else None)"

fun scan_operators :: "engine \<Rightarrow> string \<Rightarrow> (cmp \<times> string) list \<Rightarrow> err + run_clause" where
  "scan_operators en c [] = Inl ErrInvalidFilter"
| "scan_operators en c ((oper, t) # ops) =
     (case Index (if oper = CLike then ToUpper (en_up en) c else c) t of
        None \<Rightarrow> scan_operators en c ops
      | Some i \<Rightarrow>
          if length c < i + length t then Inl panic
          else case field_clause en (TrimSpace (take i c)) oper (trim_set quotes (TrimSpace (drop (i + length t) c))) of
            Some r \<Rightarrow> r | None \<Rightarrow> scan_operators en c ops)"

definition parseRunPredicate :: "engine \<Rightarrow> string \<Rightarrow> err + run_clause" where
  "parseRunPredicate en c =
     (case tryParseIN en c of Some r \<Rightarrow> r
      | None \<Rightarrow> (case tryParseBETWEEN en c of Some r \<Rightarrow> r | None \<Rightarrow> scan_operators en c operators))"

fun parse_pieces :: "engine \<Rightarrow> string list \<Rightarrow> err + run_clause list" where
  "parse_pieces en [] = Inr []"
| "parse_pieces en (p # ps) =
     (let c = TrimSpace p in
      if c = [] then parse_pieces en ps
      else case parseRunPredicate en c of Inl e \<Rightarrow> Inl e | Inr x \<Rightarrow> map_sum (\<lambda>e. e) (Cons x) (parse_pieces en ps))"

text \<open>The empty list of clauses is the text \<open>1=1\<close>.\<close>

definition parseRunFilter :: "engine \<Rightarrow> string \<Rightarrow> err + run_clause list" where
  "parseRunFilter en f = (case splitOnAnd en f of Inl e \<Rightarrow> Inl e | Inr ps \<Rightarrow> parse_pieces en ps)"

section \<open>Conjunctions\<close>

text \<open>On ASCII texts the trimming goes byte by byte.\<close>

lemma rune_chunks_ascii: "is_ascii s \<Longrightarrow> rune_chunks s = map (\<lambda>c. (byte c, [c])) s"
  by (induction s) (simp_all add: is_ascii_def)

lemma TrimSpace_ascii:
  "is_ascii s \<Longrightarrow> TrimSpace s = rev (dropWhile (\<lambda>c. is_space (byte c)) (rev (dropWhile (\<lambda>c. is_space (byte c)) s)))"
  by (simp add: TrimSpace_def rune_chunks_ascii dropWhile_map rev_map comp_def)

lemma ascii_up_letters:
  "ascii_up (CHR ''a'') = CHR ''A''" "ascii_up (CHR ''b'') = CHR ''B''" "ascii_up (CHR ''c'') = CHR ''C''"
  "ascii_up (CHR ''d'') = CHR ''D''" "ascii_up (CHR ''e'') = CHR ''E''" "ascii_up (CHR ''f'') = CHR ''F''"
  "ascii_up (CHR ''g'') = CHR ''G''" "ascii_up (CHR ''h'') = CHR ''H''" "ascii_up (CHR ''i'') = CHR ''I''"
  "ascii_up (CHR ''j'') = CHR ''J''" "ascii_up (CHR ''k'') = CHR ''K''" "ascii_up (CHR ''l'') = CHR ''L''"
  "ascii_up (CHR ''m'') = CHR ''M''" "ascii_up (CHR ''n'') = CHR ''N''" "ascii_up (CHR ''o'') = CHR ''O''"
  "ascii_up (CHR ''p'') = CHR ''P''" "ascii_up (CHR ''q'') = CHR ''Q''" "ascii_up (CHR ''r'') = CHR ''R''"
  "ascii_up (CHR ''s'') = CHR ''S''" "ascii_up (CHR ''t'') = CHR ''T''" "ascii_up (CHR ''u'') = CHR ''U''"
  "ascii_up (CHR ''v'') = CHR ''V''" "ascii_up (CHR ''w'') = CHR ''W''" "ascii_up (CHR ''x'') = CHR ''X''"
  "ascii_up (CHR ''y'') = CHR ''Y''" "ascii_up (CHR ''z'') = CHR ''Z''"
  by (simp_all add: ascii_up_def char_of_def bit_0)

lemma ascii_up_id: "\<not> (0x61 \<le> byte c \<and> byte c \<le> 0x7A) \<Longrightarrow> ascii_up c = c"
  by (auto simp: ascii_up_def)

lemmas ascii_eval = TrimSpace_ascii ToUpper_ascii is_ascii_def is_space_def ascii_up_letters ascii_up_id

text \<open>
  A predicate that the splitter leaves whole: its quotes and parentheses are closed, and outside of them there is neither an
  AND nor a BETWEEN.
\<close>

fun closed_text :: "string \<Rightarrow> int \<Rightarrow> bool \<Rightarrow> bool" where
  "closed_text [] d q = (d = 0 \<and> \<not> q)"
| "closed_text (c # cs) d q =
     (let q' = in_quote c q; d' = paren_depth c q d in
      (q' \<or> d' \<noteq> 0 \<or> (\<not> prefix '' AND'' (map ascii_up (c # cs)) \<and> \<not> prefix '' BETWEEN'' (map ascii_up (c # cs)))) \<and>
      closed_text cs d' q')"

lemma closed_text_step:
  "c \<noteq> apostrophe \<Longrightarrow> c \<noteq> CHR ''('' \<Longrightarrow> c \<noteq> CHR '')'' \<Longrightarrow> closed_text (c # cs) d False \<longleftrightarrow>
    (d \<noteq> 0 \<or> \<not> prefix '' AND'' (map ascii_up (c # cs)) \<and> \<not> prefix '' BETWEEN'' (map ascii_up (c # cs))) \<and> closed_text cs d False"
  "closed_text (CHR ''('' # cs) d False \<longleftrightarrow> closed_text cs (d + 1) False"
  "closed_text (CHR '')'' # cs) d False \<longleftrightarrow> closed_text cs (d - 1) False"
  by (auto simp: in_quote_def paren_depth_def Let_def apostrophe_def ascii_up_def)

definition plain_predicate :: "string \<Rightarrow> bool" where
  "plain_predicate p \<longleftrightarrow> is_ascii p \<and> closed_text p 0 False"

definition next_and :: "string \<Rightarrow> bool" where
  "next_and rest \<longleftrightarrow> rest = [] \<or> prefix '' AND '' rest"

text \<open>A keyword that starts in a predicate and is not complete there does not go on in the AND behind it.\<close>

lemma keyword_whole:
  assumes "map ascii_up (u @ rest) = w @ t" and "next_and rest" and "u \<noteq> []" and "CHR '' '' \<notin> set (tl w)"
  shows "prefix w (map ascii_up u)"
proof (cases "length w \<le> length u")
  case True
  from assms(1) have "take (length w) (map ascii_up (u @ rest)) = w" by simp
  with True have "take (length w) (map ascii_up u) = w" by (simp add: take_map)
  then show ?thesis by (metis take_is_prefix)
next
  case False
  then obtain v where rest: "rest = CHR '' '' # v" using assms(1,2) by (cases rest) (auto simp: next_and_def dest: arg_cong [of _ _ length])
  from False have len: "length u < length w" by simp
  have "ascii_up (CHR '' '') = (map ascii_up (u @ rest)) ! length u" by (simp add: rest nth_append)
  also have "\<dots> = w ! length u" using len unfolding assms(1) by (simp add: nth_append)
  also have "\<dots> = tl w ! (length u - 1)" using assms(3) len by (cases w) auto
  finally have "CHR '' '' \<in> set (tl w)" using len assms(3) nth_mem [of "length u - 1" "tl w"] by (cases u) (auto simp: ascii_up_def)
  with assms(4) show ?thesis by simp
qed

lemma keywords_absent:
  assumes "next_and rest" and "\<not> prefix '' AND'' (map ascii_up (c # cs))" and "\<not> prefix '' BETWEEN'' (map ascii_up (c # cs))"
  shows "take 5 (map ascii_up ((c # cs) @ rest)) \<noteq> '' AND ''" and "take 9 (map ascii_up ((c # cs) @ rest)) \<noteq> '' BETWEEN ''"
proof -
  let ?t = "map ascii_up ((c # cs) @ rest)"
  have "?t = '' AND'' @ CHR '' '' # drop 5 ?t" if "take 5 ?t = '' AND ''"
    using append_take_drop_id [of 5 ?t, symmetric] unfolding that by simp
  with keyword_whole [of "c # cs" rest "'' AND''"] assms show "take 5 ?t \<noteq> '' AND ''" by fastforce
  have "?t = '' BETWEEN'' @ CHR '' '' # drop 9 ?t" if "take 9 ?t = '' BETWEEN ''"
    using append_take_drop_id [of 9 ?t, symmetric] unfolding that by simp
  with keyword_whole [of "c # cs" rest "'' BETWEEN''"] assms show "take 9 ?t \<noteq> '' BETWEEN ''" by fastforce
qed

lemma split_and_closed:
  assumes "next_and rest" and "closed_text p d q"
  shows "split_and (p @ rest) (map ascii_up (p @ rest)) d q False acc = split_and rest (map ascii_up rest) 0 False False (acc @ p)"
  using assms(2)
proof (induction p arbitrary: d q acc)
  case (Cons c cs)
  let ?q = "in_quote c q" and ?d = "paren_depth c q d"
  have IH: "split_and (cs @ rest) (map ascii_up (cs @ rest)) ?d ?q False (acc @ [c]) = split_and rest (map ascii_up rest) 0 False False (acc @ c # cs)"
    using Cons by (simp add: Let_def)
  show ?case
  proof (cases "?q \<or> ?d \<noteq> 0")
    case True
    then show ?thesis using IH by (simp add: Let_def)
  next
    case False
    with Cons.prems have no: "\<not> prefix '' AND'' (map ascii_up (c # cs))" "\<not> prefix '' BETWEEN'' (map ascii_up (c # cs))" by (simp_all add: Let_def)
    note k = keywords_absent [OF assms(1) no]
    show ?thesis using False IH k unfolding append_Cons split_and.simps Let_def
      by (cases "ascii_up c = CHR '' ''") (auto simp del: take_map map_append take_append)
  qed
qed simp

lemma and_letters: "ascii_up (CHR '' '') = CHR '' ''" "ascii_up (CHR ''A'') = CHR ''A''" "ascii_up (CHR ''N'') = CHR ''N''"
    "ascii_up (CHR ''D'') = CHR ''D''"
  by (simp_all add: ascii_up_def)

lemma split_and_conjunction:
  assumes "ps \<noteq> []" and "\<forall>p\<in>set ps. closed_text p 0 False"
  shows "split_and (join '' AND '' ps) (map ascii_up (join '' AND '' ps)) 0 False False [] = Inr ps"
  using assms
proof (induction ps rule: induct_list012)
  case (2 p)
  then show ?case using split_and_closed [of "[]" p 0 False "[]"] by (simp add: next_and_def)
next
  case (3 p r ps)
  let ?rest = "'' AND '' @ join '' AND '' (r # ps)"
  have "split_and ?rest (map ascii_up ?rest) 0 False False p = map_sum (\<lambda>e. e) (Cons p) (Inr (r # ps))"
    using 3(2) 3(4) by (simp add: in_quote_def paren_depth_def apostrophe_def and_letters Let_def)
  then show ?case using split_and_closed [of ?rest p 0 False "[]"] 3(4) by (simp add: next_and_def)
qed simp

lemma is_ascii_join: "is_ascii sep \<Longrightarrow> \<forall>p\<in>set ps. is_ascii p \<Longrightarrow> is_ascii (join sep ps)"
  by (induction ps rule: induct_list012) (auto simp: is_ascii_def)

lemma parse_pieces_map:
  "\<forall>p\<in>set ps. TrimSpace p \<noteq> [] \<and> parseRunPredicate en (TrimSpace p) = Inr (f p) \<Longrightarrow> parse_pieces en ps = Inr (map f ps)"
  by (induction ps) simp_all

text \<open>
  The filter that joins predicates by AND means their conjunction: when each predicate parses by itself, the filter parses to
  the list of their clauses, in order. The predicates may hold AND and BETWEEN inside quotes or parentheses.
\<close>

theorem parseRunFilter_conjunction:
  assumes "ps \<noteq> []" and "\<forall>p\<in>set ps. plain_predicate p \<and> TrimSpace p \<noteq> [] \<and> parseRunPredicate en (TrimSpace p) = Inr (f p)"
  shows "parseRunFilter en (join '' AND '' ps) = Inr (map f ps)"
proof -
  have "is_ascii (join '' AND '' ps)" using assms(2) by (intro is_ascii_join) (auto simp: is_ascii_def plain_predicate_def)
  then have "splitOnAnd en (join '' AND '' ps) = Inr ps"
    using assms by (simp add: splitOnAnd_def ToUpper_ascii split_and_conjunction plain_predicate_def)
  then show ?thesis using assms(2) by (simp add: parseRunFilter_def parse_pieces_map)
qed

definition plain_engine :: engine where
  "plain_engine = \<lparr>en_up = (\<lambda>r. r), en_ParseFloat = (\<lambda>s. map_option (\<lambda>n. Fin (of_int n)) (ParseInt s)),
     en_numeric = (\<lambda>s. map_option of_int (ParseInt s)), en_real_text = (\<lambda>_. [])\<rparr>"

lemma sample_predicates:
  "parseRunPredicate plain_engine ''status=UP'' = Inr (ColCmp ColStatus CEq ''UP'')"
  "parseRunPredicate plain_engine ''tags.n!=(x AND y)'' = Inr (TagCmp ''n'' CNe ''(x AND y)'')"
proof -
  have up: "ToUpper up ''status=UP'' = ''STATUS=UP''" "ToUpper up ''tags.n!=(x AND y)'' = ''TAGS.N!=(X AND Y)''" for up
    by (simp_all add: ascii_eval)
  have idx: "Index ''STATUS=UP'' '' IN ('' = None" "Index ''STATUS=UP'' '' BETWEEN '' = None"
    "Index ''TAGS.N!=(X AND Y)'' '' IN ('' = None" "Index ''TAGS.N!=(X AND Y)'' '' BETWEEN '' = None" by simp_all
  have no: "tryParseIN plain_engine ''status=UP'' = None" "tryParseBETWEEN plain_engine ''status=UP'' = None"
    "tryParseIN plain_engine ''tags.n!=(x AND y)'' = None" "tryParseBETWEEN plain_engine ''tags.n!=(x AND y)'' = None"
    unfolding tryParseIN_def tryParseBETWEEN_def up idx option.case by (rule refl)+
  note ev = operators_def ascii_eval field_clause_def HasPrefix_def TrimPrefix_def trim_set_def quotes_def
  show "parseRunPredicate plain_engine ''status=UP'' = Inr (ColCmp ColStatus CEq ''UP'')"
    by (simp add: parseRunPredicate_def no ev)
  show "parseRunPredicate plain_engine ''tags.n!=(x AND y)'' = Inr (TagCmp ''n'' CNe ''(x AND y)'')"
    by (simp add: parseRunPredicate_def no ev)
qed

theorem parseRunFilter_conjunction_witness:
  "parseRunFilter plain_engine (join '' AND '' [''status=UP'', ''tags.n!=(x AND y)'']) =
     Inr [ColCmp ColStatus CEq ''UP'', TagCmp ''n'' CNe ''(x AND y)'']"
proof -
  define f where "f p = (if p = ''status=UP'' then ColCmp ColStatus CEq ''UP'' else TagCmp ''n'' CNe ''(x AND y)'')" for p
  have t: "TrimSpace ''status=UP'' = ''status=UP''" "TrimSpace ''tags.n!=(x AND y)'' = ''tags.n!=(x AND y)''"
    by (simp_all add: ascii_eval)
  have "plain_predicate ''status=UP''" "plain_predicate ''tags.n!=(x AND y)''"
    by (simp_all add: plain_predicate_def ascii_eval closed_text_step apostrophe_def del: closed_text.simps(2))
  with sample_predicates have "\<forall>p\<in>set [''status=UP'', ''tags.n!=(x AND y)'']. plain_predicate p \<and> TrimSpace p \<noteq> [] \<and>
      parseRunPredicate plain_engine (TrimSpace p) = Inr (f p)" by (simp add: t f_def)
  then have "parseRunFilter plain_engine (join '' AND '' [''status=UP'', ''tags.n!=(x AND y)'']) =
      Inr (map f [''status=UP'', ''tags.n!=(x AND y)''])" by (intro parseRunFilter_conjunction) simp_all
  then show ?thesis by (simp only: list.map f_def) simp
qed

section \<open>Quoted lists\<close>

text \<open>The values of an IN list, quoted with doubled apostrophes and joined by commas, are read back.\<close>

definition sql_escape :: "string \<Rightarrow> string" where
  "sql_escape v = concat (map (\<lambda>c. if c = apostrophe then [c, c] else [c]) v)"

definition sql_quote :: "string \<Rightarrow> string" where
  "sql_quote v = apostrophe # sql_escape v @ [apostrophe]"

lemma in_values_quoted:
  "rest = [] \<or> hd rest \<noteq> apostrophe \<Longrightarrow> in_values (sql_escape v @ apostrophe # rest) True cur =
     map_sum (\<lambda>e. e) (Cons (cur @ v)) (in_values (dropWhile (\<lambda>x. x = CHR '','' \<or> x = CHR '' '') rest) False [])"
  by (induction v arbitrary: cur) (auto simp: sql_escape_def)

lemma in_values_join: "vs \<noteq> [] \<Longrightarrow> in_values (join '','' (map sql_quote vs)) False [] = Inr vs"
proof (induction vs rule: induct_list012)
  case (2 v)
  then show ?case using in_values_quoted [of "[]" v "[]"] by (simp add: sql_quote_def TrimSpace_def)
next
  case (3 v w vs)
  obtain t where t: "join '','' (map sql_quote (w # vs)) = apostrophe # t" by (cases vs) (simp_all add: sql_quote_def)
  have "join '','' (map sql_quote (v # w # vs)) = apostrophe # sql_escape v @ apostrophe # CHR '','' # join '','' (map sql_quote (w # vs))"
    by (simp add: sql_quote_def)
  also have "\<dots> = apostrophe # sql_escape v @ apostrophe # CHR '','' # apostrophe # t" unfolding t ..
  finally show ?case using in_values_quoted [of "CHR '','' # apostrophe # t" v "[]"] 3(2) unfolding t by (simp add: apostrophe_def)
qed simp

lemma parseINValues_join:
  assumes "vs \<noteq> []" and "\<forall>v\<in>set vs. is_ascii v"
  shows "parseINValues (join '','' (map sql_quote vs)) = Inr vs"
proof -
  let ?s = "join '','' (map sql_quote vs)"
  have "is_ascii (sql_quote v)" if "is_ascii v" for v using that by (auto simp: is_ascii_def list_all_iff sql_quote_def sql_escape_def apostrophe_def)
  then have "is_ascii ?s" using assms(2) by (intro is_ascii_join) (auto simp: is_ascii_def)
  moreover have "\<exists>t. ?s = apostrophe # t" using assms(1) by (cases vs rule: remdups_adj.cases) (simp_all add: sql_quote_def)
  moreover have "\<exists>u. ?s = u @ [apostrophe]" using assms(1) by (induction vs rule: induct_list012) (auto simp: sql_quote_def)
  moreover have "\<not> is_space (byte apostrophe)" by (simp add: is_space_def apostrophe_def)
  ultimately have "TrimSpace ?s = ?s \<and> ?s \<noteq> []" by (elim exE) (simp add: TrimSpace_ascii, metis dropWhile.simps(2) rev.simps(2) rev_rev_ident rev_append append_Nil append_Cons)
  then show ?thesis using in_values_join [OF assms(1)] by (simp add: parseINValues_def)
qed

end
