(* ===== verification/RunSearch.thy ===== *)
theory RunSearch
  imports RunFilter
begin

text \<open>
  The search for runs (\<open>SearchRuns\<close>, \<open>SearchRunsByName\<close> in \<open>internal/store/sqlite.go\<close>): which rows meet a clause, the order
  columns with the values of child tables, and the pages. The value of a metric in a stored row is finite (\<open>LogMetrics\<close> refuses
  others), and NaN as a bound value is NULL. A comparison with NULL does not hold.
\<close>

section \<open>Rows that meet a clause\<close>

definition holds_cmp :: "cmp \<Rightarrow> 'a::linorder \<Rightarrow> 'a \<Rightarrow> bool" where
  "holds_cmp oper x y = (case oper of CGe \<Rightarrow> y \<le> x | CLe \<Rightarrow> x \<le> y | CNe \<Rightarrow> x \<noteq> y | CEq \<Rightarrow> x = y | CGt \<Rightarrow> y < x | CLt \<Rightarrow> x < y | CLike \<Rightarrow> False)"

definition text_cmp :: "cmp \<Rightarrow> string \<Rightarrow> string \<Rightarrow> bool" where
  "text_cmp oper x arg = (if oper = CLike then sql_like arg x else holds_cmp oper x arg)"

text \<open>A text compared with an integer column is taken as a number when it reads as one, and follows all numbers otherwise.\<close>

definition num_cmp :: "engine \<Rightarrow> cmp \<Rightarrow> int \<Rightarrow> string \<Rightarrow> bool" where
  "num_cmp en oper n arg =
     (if oper = CLike then sql_like arg (FormatInt n)
      else holds_cmp oper (VNum (of_int n)) (case en_numeric en arg of Some x \<Rightarrow> VNum x | None \<Rightarrow> VText arg))"

definition f64_rank :: "f64 \<Rightarrow> (int \<times> rat) option" where
  "f64_rank v = (case v of NaN \<Rightarrow> None | NegInf \<Rightarrow> Some (- 1, 0) | Fin x \<Rightarrow> Some (0, x) | PosInf \<Rightarrow> Some (1, 0))"

definition f64_cmp :: "engine \<Rightarrow> cmp \<Rightarrow> f64 \<Rightarrow> f64 \<Rightarrow> bool" where
  "f64_cmp en oper x y =
     (case f64_rank x of None \<Rightarrow> False | Some a \<Rightarrow> (case f64_rank y of None \<Rightarrow> False
      | Some b \<Rightarrow> if oper = CLike then sql_like (en_real_text en y) (en_real_text en x) else holds_cmp oper a b))"

definition col_cmp :: "engine \<Rightarrow> cmp \<Rightarrow> string \<Rightarrow> column \<Rightarrow> run_row \<Rightarrow> bool" where
  "col_cmp en oper arg col r = (case col of
     ColStatus \<Rightarrow> text_cmp oper (r_status r) arg
   | ColStart \<Rightarrow> num_cmp en oper (r_start_time r) arg
   | ColEnd \<Rightarrow> (case r_end_time r of None \<Rightarrow> False | Some n \<Rightarrow> num_cmp en oper n arg)
   | ColName \<Rightarrow> (case r_name r of None \<Rightarrow> False | Some x \<Rightarrow> text_cmp oper x arg)
   | ColID \<Rightarrow> text_cmp oper (r_id r) arg)"

definition col_between :: "engine \<Rightarrow> f64 \<Rightarrow> f64 \<Rightarrow> column \<Rightarrow> run_row \<Rightarrow> bool" where
  "col_between en lo hi col r =
     (case (case col of ColStart \<Rightarrow> Some (r_start_time r) | ColEnd \<Rightarrow> r_end_time r | _ \<Rightarrow> None) of None \<Rightarrow> False
      | Some n \<Rightarrow> f64_cmp en CGe (Fin (of_int n)) lo \<and> f64_cmp en CLe (Fin (of_int n)) hi)"

text \<open>The most recent observation of a metric: the one with the greatest time and step.\<close>

definition is_latest :: "db \<Rightarrow> metric_row \<Rightarrow> bool" where
  "is_latest s m \<longleftrightarrow> list_all (\<lambda>n. m_run_id n = m_run_id m \<and> m_key n = m_key m \<longrightarrow>
     (m_timestamp n, m_step n) \<le> (m_timestamp m, m_step m)) (metrics s)"

definition metric_meets :: "db \<Rightarrow> string \<Rightarrow> (f64 \<Rightarrow> bool) \<Rightarrow> run_row \<Rightarrow> bool" where
  "metric_meets s k P r = list_ex (\<lambda>m. m_run_id m = r_id r \<and> m_key m = k \<and> is_latest s m \<and> P (m_value m)) (metrics s)"

definition param_meets :: "db \<Rightarrow> string \<Rightarrow> (string \<Rightarrow> bool) \<Rightarrow> run_row \<Rightarrow> bool" where
  "param_meets s k P r = list_ex (\<lambda>p. p_run_id p = r_id r \<and> p_key p = k \<and> P (p_value p)) (params s)"

definition tag_meets :: "db \<Rightarrow> string \<Rightarrow> (string \<Rightarrow> bool) \<Rightarrow> run_row \<Rightarrow> bool" where
  "tag_meets s k P r = list_ex (\<lambda>t. t_run_id t = r_id r \<and> t_key t = k \<and> P (t_value t)) (tags s)"

fun run_meets :: "engine \<Rightarrow> db \<Rightarrow> run_clause \<Rightarrow> run_row \<Rightarrow> bool" where
  "run_meets en s (ColCmp col oper v) r = col_cmp en oper v col r"
| "run_meets en s (ParamCmp k oper v) r = param_meets s k (\<lambda>x. text_cmp oper x v) r"
| "run_meets en s (TagCmp k oper v) r = tag_meets s k (\<lambda>x. text_cmp oper x v) r"
| "run_meets en s (MetricCmp k oper v) r = metric_meets s k (\<lambda>x. f64_cmp en oper x v) r"
| "run_meets en s (ColIn col vs) r = list_ex (\<lambda>v. col_cmp en CEq v col r) vs"
| "run_meets en s (ParamIn k vs) r = param_meets s k (\<lambda>x. x \<in> set vs) r"
| "run_meets en s (TagIn k vs) r = tag_meets s k (\<lambda>x. x \<in> set vs) r"
| "run_meets en s (MetricBetween k lo hi) r = metric_meets s k (\<lambda>x. f64_cmp en CGe x lo \<and> f64_cmp en CLe x hi) r"
| "run_meets en s (ColBetween col lo hi) r = col_between en lo hi col r"

section \<open>Order columns\<close>

datatype order_proj = MetricProj | ParamProj | TagProj

text \<open>An attribute of the run, or a value of a child table with its key; the flag is the direction (true: descending).\<close>

datatype runOrderCol = Attribute column bool | Computed order_proj string bool

definition order_columns :: "(string \<times> column) list" where
  "order_columns = [(''attributes.start_time'', ColStart), (''attributes.end_time'', ColEnd), (''attributes.status'', ColStatus),
     (''attributes.run_name'', ColName), (''attributes.run_id'', ColID), (''start_time'', ColStart), (''end_time'', ColEnd),
     (''status'', ColStatus), (''run_name'', ColName), (''run_id'', ColID)]"

definition order_col :: "string \<Rightarrow> bool \<Rightarrow> err + runOrderCol" where
  "order_col rawKey desc =
     (let computed = (\<lambda>p pre. let k = TrimPrefix rawKey pre in if k = [] then Inl ErrInvalidFilter else Inr (Computed p k desc)) in
      if HasPrefix rawKey ''metrics.'' then computed MetricProj ''metrics.''
      else if HasPrefix rawKey ''params.'' then computed ParamProj ''params.''
      else if HasPrefix rawKey ''tags.'' then computed TagProj ''tags.''
      else case map_of order_columns rawKey of None \<Rightarrow> Inl ErrInvalidFilter | Some col \<Rightarrow> Inr (Attribute col desc))"

fun order_cols :: "engine \<Rightarrow> string list \<Rightarrow> err + runOrderCol list" where
  "order_cols en [] = Inr []"
| "order_cols en (x # xs) =
     (let fields = Fields x in
      if fields = [] then order_cols en xs
      else case (if 1 < length fields then
                   let dir = ToUpper (en_up en) (fields ! 1) in
                   if dir = ''ASC'' then Inr False else if dir = ''DESC'' then Inr True else Inl ErrInvalidFilter
                 else Inr False) of Inl e \<Rightarrow> Inl e
        | Inr desc \<Rightarrow> (case order_col (fields ! 0) desc of Inl e \<Rightarrow> Inl e
            | Inr c \<Rightarrow> map_sum (\<lambda>e. e) (Cons c) (order_cols en xs)))"

definition parseRunOrder :: "engine \<Rightarrow> string list \<Rightarrow> err + runOrderCol list" where
  "parseRunOrder en order =
     (case order_cols en order of Inl e \<Rightarrow> Inl e
      | Inr cols \<Rightarrow> Inr ((if cols = [] then [Attribute ColStart True] else cols) @ [Attribute ColID False]))"

definition runColExpr :: "column \<Rightarrow> run_row \<Rightarrow> sqlv" where
  "runColExpr col r = (case col of
     ColStatus \<Rightarrow> VText (r_status r)
   | ColStart \<Rightarrow> VNum (of_int (r_start_time r))
   | ColEnd \<Rightarrow> VNum (of_int (case r_end_time r of None \<Rightarrow> - 1 | Some n \<Rightarrow> n))
   | ColName \<Rightarrow> VText (coalesce (r_name r))
   | ColID \<Rightarrow> VText (r_id r))"

definition runColValue :: "Run \<Rightarrow> column \<Rightarrow> goval" where
  "runColValue r col = (case col of
     ColStart \<Rightarrow> GInt (run_StartTime r)
   | ColEnd \<Rightarrow> (case run_EndTime r of Some n \<Rightarrow> GInt n | None \<Rightarrow> GInt (- 1))
   | ColStatus \<Rightarrow> GText (run_Status r)
   | ColName \<Rightarrow> GText (run_Name r)
   | ColID \<Rightarrow> GText (run_ID r))"

definition attribute_col :: "column \<Rightarrow> bool \<Rightarrow> run_row keysetCol" where
  "attribute_col col desc = \<lparr>kc_expr = runColExpr col, kc_desc = desc, kc_val = (\<lambda>r. runColValue (run_of_row r) col)\<rparr>"

text \<open>The correlated subqueries \<open>metricOrderProj\<close>, \<open>paramOrderProj\<close> and \<open>tagOrderProj\<close>; \<open>None\<close> is NULL, the run has no such key.\<close>

definition order_value :: "db \<Rightarrow> order_proj \<Rightarrow> string \<Rightarrow> run_row \<Rightarrow> goval option" where
  "order_value s p k r = (case p of
     MetricProj \<Rightarrow> (case sort_key (\<lambda>m. (- m_timestamp m, - m_step m)) (filter (\<lambda>m. m_run_id m = r_id r \<and> m_key m = k) (metrics s)) of
         m # _ \<Rightarrow> (case m_value m of Fin x \<Rightarrow> Some (GReal x) | _ \<Rightarrow> None) | [] \<Rightarrow> None)
   | ParamProj \<Rightarrow> map_option (\<lambda>q. GText (p_value q)) (first_row (\<lambda>q. p_run_id q = r_id r \<and> p_key q = k) (params s))
   | TagProj \<Rightarrow> map_option (\<lambda>q. GText (t_value q)) (first_row (\<lambda>q. t_run_id q = r_id r \<and> t_key q = k) (tags s)))"

definition sentinel :: "order_proj \<Rightarrow> goval" where
  "sentinel p = (if p = MetricProj then GInt 0 else GText [])"

fun sql_value :: "goval \<Rightarrow> sqlv" where
  "sql_value (GInt n) = VNum (of_int n)"
| "sql_value (GReal x) = VNum x"
| "sql_value (GText t) = VText t"

text \<open>
  A computed column gives two: whether the value is missing, then the value or the sentinel. An attribute is projected beside them
  and scanned from there; the scanned value is the one \<open>runColValue\<close> reads.
\<close>

definition projected_cols :: "db \<Rightarrow> runOrderCol \<Rightarrow> run_row keysetCol list" where
  "projected_cols s c = (case c of
     Attribute col desc \<Rightarrow> [attribute_col col desc]
   | Computed p k desc \<Rightarrow>
      [\<lparr>kc_expr = (\<lambda>r. VNum (if order_value s p k r = None then 1 else 0)), kc_desc = False,
        kc_val = (\<lambda>r. GInt (if order_value s p k r = None then 1 else 0))\<rparr>,
       \<lparr>kc_expr = (\<lambda>r. sql_value (case order_value s p k r of None \<Rightarrow> sentinel p | Some v \<Rightarrow> v)), kc_desc = desc,
        kc_val = (\<lambda>r. case order_value s p k r of None \<Rightarrow> sentinel p | Some v \<Rightarrow> v)\<rparr>])"

definition is_computed :: "runOrderCol \<Rightarrow> bool" where
  "is_computed c = (case c of Attribute _ _ \<Rightarrow> False | Computed _ _ _ \<Rightarrow> True)"

definition run_cols :: "db \<Rightarrow> runOrderCol list \<Rightarrow> run_row keysetCol list" where
  "run_cols s cols =
     (if list_ex is_computed cols then concat (map (projected_cols s) (butlast cols)) @ [attribute_col ColID False]
      else map (\<lambda>c. case c of Attribute col desc \<Rightarrow> attribute_col col desc | Computed p k desc \<Rightarrow> attribute_col ColID desc) cols)"

section \<open>The search\<close>

definition run_stage :: "SearchOptions \<Rightarrow> string" where
  "run_stage opt = (if so_LifecycleStage opt = [] then LifecycleActive else so_LifecycleStage opt)"

definition run_selected :: "engine \<Rightarrow> SearchOptions \<Rightarrow> run_clause list \<Rightarrow> db \<Rightarrow> run_row \<Rightarrow> bool" where
  "run_selected en opt cs s r \<longleftrightarrow>
     (so_ExperimentIDs opt = [] \<or> r_experiment_id r \<in> set (so_ExperimentIDs opt)) \<and>
     (so_WorkspaceID opt = [] \<or> in_workspace (so_WorkspaceID opt) s r) \<and>
     (run_stage opt = ''all'' \<or> r_lifecycle_stage r = run_stage opt) \<and>
     list_all (\<lambda>c. run_meets en s c r) cs"

definition run_filter :: "engine \<Rightarrow> SearchOptions \<Rightarrow> err + run_clause list" where
  "run_filter en opt = (if TrimSpace (so_Filter opt) = [] then Inr [] else parseRunFilter en (TrimSpace (so_Filter opt)))"

definition SearchRuns :: "engine \<Rightarrow> SearchOptions \<Rightarrow> db \<Rightarrow> err + Run list \<times> token" where
  "SearchRuns en opt s =
     (let n = max_results 1000 50000 (so_MaxResults opt) in
      case run_filter en opt of Inl e \<Rightarrow> Inl e
      | Inr cs \<Rightarrow> (case parseRunOrder en (so_OrderBy opt) of Inl e \<Rightarrow> Inl e
        | Inr cols \<Rightarrow> map_sum (\<lambda>e. e) (\<lambda>(out, tok). (map run_of_row out, tok))
            (keyset_page n (run_cols s cols) (filter (run_selected en opt cs s) (runs s)) (so_PageToken opt))))"

definition SearchRunsByName :: "string \<Rightarrow> string \<Rightarrow> int \<Rightarrow> db \<Rightarrow> Run list" where
  "SearchRunsByName workspaceID query mx s =
     (let ws = default_ws workspaceID;
          n = nat (let m = if mx \<le> 0 then 4 else mx in if 50 < m then 50 else m);
          pattern = ''%'' @ query @ ''%''
      in map (\<lambda>r. (run_of_row r)\<lparr>run_ParentRunID := []\<rparr>) (take n (sort_key (\<lambda>r. - r_start_time r)
           (filter (\<lambda>r. in_workspace ws s r \<and> r_lifecycle_stage r = LifecycleActive \<and>
              ((case r_name r of None \<Rightarrow> False | Some nm \<Rightarrow> sql_like pattern nm) \<or> sql_like (query @ ''%'') (r_id r))) (runs s)))))"

section \<open>Paging\<close>

text \<open>The values that a page token carries unchanged: times within 53 bits and texts in UTF-8.\<close>

definition exact_run :: "run_row \<Rightarrow> bool" where
  "exact_run r \<longleftrightarrow> \<bar>r_start_time r\<bar> \<le> 2 ^ 53 \<and> (\<forall>n. r_end_time r = Some n \<longrightarrow> \<bar>n\<bar> \<le> 2 ^ 53) \<and>
     utf8_valid (r_status r) \<and> utf8_valid (coalesce (r_name r)) \<and> utf8_valid (r_id r)"

definition exact_values :: "db \<Rightarrow> bool" where
  "exact_values s \<longleftrightarrow> (\<forall>r\<in>set (runs s). exact_run r) \<and> (\<forall>p\<in>set (params s). utf8_valid (p_value p)) \<and> (\<forall>t\<in>set (tags s). utf8_valid (t_value t))"

lemma attribute_exact: "exact_run r \<Longrightarrow> json_value (kc_val (attribute_col col desc) r) = kc_expr (attribute_col col desc) r"
  by (cases col) (auto simp: attribute_col_def exact_run_def runColValue_def runColExpr_def run_of_row_def f64_of_int_exact
    split: option.splits)

lemma order_value_exact:
  assumes "exact_values s" and "order_value s p k r = Some v"
  shows "json_value v = sql_value v"
  using assms by (cases p) (auto simp: order_value_def exact_values_def dest!: first_row_Some split: list.splits f64.splits)

lemma sentinel_exact: "json_value (sentinel p) = sql_value (sentinel p)"
  by (simp add: sentinel_def f64_of_int_exact utf8_coerce_def)

lemma projected_exact:
  assumes "exact_values s" and "exact_run r" and "kc \<in> set (projected_cols s c)"
  shows "json_value (kc_val kc r) = kc_expr kc r"
  using assms attribute_exact [OF assms(2)] order_value_exact [OF assms(1), of _ _ r] sentinel_exact
  by (cases c) (auto simp: projected_cols_def f64_of_int_exact split: option.splits)

lemma run_cols_exact:
  assumes "exact_values s" and "r \<in> set (runs s)"
  shows "exact_row (run_cols s cols) r"
proof -
  have r: "exact_run r" using assms by (simp add: exact_values_def)
  then show ?thesis using projected_exact [OF assms(1) r]
    by (auto simp: exact_row_def run_cols_def list_all_iff attribute_exact split: runOrderCol.splits)
qed

text \<open>Every order ends with the id of the run, so no two runs have the same key.\<close>

lemma parseRunOrder_last: "parseRunOrder en os = Inr cols \<Longrightarrow> \<exists>cs. cols = cs @ [Attribute ColID False]"
  by (auto simp: parseRunOrder_def split: sum.splits)

lemma run_cols_last:
  assumes "parseRunOrder en os = Inr cols"
  shows "\<exists>kcs. run_cols s cols = kcs @ [attribute_col ColID False]"
  using parseRunOrder_last [OF assms] by (auto simp: run_cols_def)

lemma run_key_inj:
  assumes "parseRunOrder en os = Inr cols" and "keysetOrderClause (run_cols s cols) q = keysetOrderClause (run_cols s cols) r"
  shows "r_id q = r_id r"
  using run_cols_last [OF assms(1), of s] assms(2) by (auto simp: keysetOrderClause_def attribute_col_def directed_def runColExpr_def)

type_synonym run_query = "engine \<times> SearchOptions \<times> run_clause list \<times> runOrderCol list \<times> db"

definition run_query_rows :: "run_query \<Rightarrow> run_row list" where
  "run_query_rows = (\<lambda>(en, opt, cs, cols, s). filter (run_selected en opt cs s) (runs s))"

definition run_query_valid :: "run_query \<Rightarrow> bool" where
  "run_query_valid = (\<lambda>(en, opt, cs, cols, s). db_ok s \<and> exact_values s \<and> parseRunOrder en (so_OrderBy opt) = Inr cols \<and>
     run_filter en opt = Inr cs)"

definition run_query_page :: "run_query \<Rightarrow> token \<Rightarrow> err + Run list \<times> token" where
  "run_query_page = (\<lambda>(en, opt, cs, cols, s) tok. SearchRuns en (opt\<lparr>so_PageToken := tok\<rparr>) s)"

definition run_query_limit :: "run_query \<Rightarrow> nat" where
  "run_query_limit = (\<lambda>(en, opt, cs, cols, s). max_results 1000 50000 (so_MaxResults opt))"

definition run_query_cols :: "run_query \<Rightarrow> run_row keysetCol list" where
  "run_query_cols = (\<lambda>(en, opt, cs, cols, s). run_cols s cols)"

lemma run_query_page_eq:
  assumes "run_query_valid q"
  shows "run_query_page q tok = map_sum (\<lambda>e. e) (\<lambda>(out, tok). (map run_of_row out, tok))
    (keyset_page (run_query_limit q) (run_query_cols q) (run_query_rows q) tok)"
proof -
  obtain en opt cs cols s where q: "q = (en, opt, cs, cols, s)" by (cases q)
  have "run_selected en (opt\<lparr>so_PageToken := tok\<rparr>) cs s = run_selected en opt cs s" "run_filter en (opt\<lparr>so_PageToken := tok\<rparr>) = run_filter en opt"
    by (rule ext, simp add: run_selected_def run_stage_def) (simp add: run_filter_def)
  then show ?thesis using assms
    by (simp add: q run_query_valid_def run_query_page_def run_query_limit_def run_query_cols_def run_query_rows_def SearchRuns_def Let_def)
qed

lemma run_rows_distinct:
  assumes "run_query_valid q"
  shows "distinct (map (keysetOrderClause (run_query_cols q)) (run_query_rows q))"
proof -
  obtain en opt cs cols s where q: "q = (en, opt, cs, cols, s)" by (cases q)
  have ok: "db_ok s" and order: "parseRunOrder en (so_OrderBy opt) = Inr cols" using assms by (simp_all add: q run_query_valid_def)
  have "distinct (map r_id (runs s))" using db_okD(5) [OF ok] by (simp add: runs_ok_def pk_def)
  then have d: "distinct (map r_id (run_query_rows q))" by (simp add: q run_query_rows_def distinct_map_filter)
  then have rows: "distinct (run_query_rows q)" "inj_on r_id (set (run_query_rows q))" by (simp_all only: distinct_map)
  have "inj_on (keysetOrderClause (run_query_cols q)) (set (run_query_rows q))"
  proof (rule inj_onI)
    fix x y assume xy: "x \<in> set (run_query_rows q)" "y \<in> set (run_query_rows q)"
      and "keysetOrderClause (run_query_cols q) x = keysetOrderClause (run_query_cols q) y"
    then have "r_id x = r_id y" unfolding q run_query_cols_def prod.case by (intro run_key_inj [OF order])
    with rows(2) xy show "x = y" by (simp only: inj_onD)
  qed
  with rows(1) show ?thesis by (simp only: distinct_map)
qed

lemma run_query_exact: "run_query_valid q \<Longrightarrow> r \<in> set (run_query_rows q) \<Longrightarrow> exact_row (run_query_cols q) r"
  by (cases q) (auto simp: run_query_valid_def run_query_rows_def run_query_cols_def intro: run_cols_exact)

interpretation run_search: keyset_search run_query_page NoToken run_query_valid run_query_rows
  "\<lambda>q. keysetOrderClause (run_query_cols q)" "\<lambda>_. run_of_row" run_query_limit "\<lambda>q. encodeCursor (run_query_cols q)"
proof (unfold_locales, goal_cases)
  case (1 q)
  then show ?case by (cases q) (simp add: run_query_limit_def max_results_pos)
next
  case (2 q)
  then show ?case by (rule run_rows_distinct)
next
  case (3 q r)
  then show ?case by (simp add: encodeCursor_def)
next
  case (4 q)
  then show ?case by (simp add: run_query_page_eq keyset_page_first Let_def)
next
  case (5 q r)
  then show ?case by (simp add: run_query_page_eq keyset_page_next run_query_exact Let_def)
qed

text \<open>
  C23. A client that follows the page tokens of the run search gets every run that meets the filter exactly once, in the order it
  asked for (by attributes, metrics, parameters or tags, runs without the value last), and comes to an end; no page is longer than asked for.
  Times within 53 bits and UTF-8 texts are what tokens carry exactly.
\<close>

theorem SearchRuns_pages:
  assumes "db_ok s" and "exact_values s" and "run_filter en opt = Inr cs" and "parseRunOrder en (so_OrderBy opt) = Inr cols"
  shows "\<exists>ps. fetches (\<lambda>tok. SearchRuns en (opt\<lparr>so_PageToken := tok\<rparr>) s) NoToken NoToken ps \<and>
    concat ps = map run_of_row (sort_key (keysetOrderClause (run_cols s cols)) (filter (run_selected en opt cs s) (runs s))) \<and>
    (\<forall>p\<in>set ps. length p \<le> max_results 1000 50000 (so_MaxResults opt))"
  using run_search.follow_tokens [of "(en, opt, cs, cols, s)"] assms
  by (simp add: run_query_valid_def run_query_page_def run_query_rows_def run_query_cols_def run_query_limit_def)

text \<open>Two runs, one of them with the tag \<open>team\<close>: the run without the tag is the last one, also in descending order.\<close>

definition tag_options :: SearchOptions where
  "tag_options = plain_options\<lparr>so_OrderBy := [''tags.team DESC''], so_WorkspaceID := ''default''\<rparr>"

lemma tag_options_parse:
  "run_filter plain_engine tag_options = Inr []"
  "parseRunOrder plain_engine (so_OrderBy tag_options) = Inr [Computed TagProj ''team'' True, Attribute ColID False]"
proof -
  show "run_filter plain_engine tag_options = Inr []" by (simp add: run_filter_def tag_options_def plain_options_def TrimSpace_def)
  have f: "Fields ''tags.team DESC'' = [''tags.team'', ''DESC'']" by (simp add: Fields_def is_space_def)
  have u: "ToUpper up ''DESC'' = ''DESC''" for up by (simp add: ascii_eval)
  have "order_col ''tags.team'' True = Inr (Computed TagProj ''team'' True)" by (simp add: order_col_def HasPrefix_def TrimPrefix_def)
  then show "parseRunOrder plain_engine (so_OrderBy tag_options) = Inr [Computed TagProj ''team'' True, Attribute ColID False]"
    by (simp add: parseRunOrder_def tag_options_def f u)
qed

lemma exact_sample: "exact_values sample_db"
  by (simp add: exact_values_def exact_run_def sample_run_def utf8_valid_ascii is_ascii_def sample_db_def fresh_db_def)

lemma sample_selected: "filter (run_selected plain_engine tag_options [] sample_db) (runs sample_db) = runs sample_db"
  by (simp add: run_selected_def run_stage_def tag_options_def plain_options_def lifecycle_defs in_workspace_def sample_defs)

lemma sample_order:
  "sort_key (keysetOrderClause (run_cols sample_db [Computed TagProj ''team'' True, Attribute ColID False])) (runs sample_db) = runs sample_db"
  by (simp add: keysetOrderClause_def run_cols_def is_computed_def projected_cols_def order_value_def first_row_def sample_run_def
    directed_def attribute_col_def runColExpr_def less_eq_dirv_def less_dirv_def less_sqlv_def less_eq_sqlv_def)

theorem SearchRuns_pages_witness:
  "\<exists>ps. fetches (\<lambda>tok. SearchRuns plain_engine (tag_options\<lparr>so_PageToken := tok\<rparr>) sample_db) NoToken NoToken ps \<and>
    map run_ID (concat ps) = [''r1'', ''r2'']"
proof -
  from SearchRuns_pages [OF db_ok_sample exact_sample tag_options_parse]
  obtain ps where ps: "fetches (\<lambda>tok. SearchRuns plain_engine (tag_options\<lparr>so_PageToken := tok\<rparr>) sample_db) NoToken NoToken ps"
    "concat ps = map run_of_row (sort_key (keysetOrderClause (run_cols sample_db [Computed TagProj ''team'' True, Attribute ColID False]))
      (filter (run_selected plain_engine tag_options [] sample_db) (runs sample_db)))" by blast
  then have "map run_ID (concat ps) = [''r1'', ''r2'']" unfolding sample_selected sample_order by (simp add: run_of_row_def sample_run_def)
  with ps(1) show ?thesis by (intro exI [of _ ps] conjI)
qed

lemma set_keyset_page: "keyset_page n cols rows tok = Inr (out, tok') \<Longrightarrow> set out \<subseteq> set rows"
  by (auto simp: keyset_page_def Let_def split: sum.splits if_splits option.splits dest: in_set_takeD)



end
