(* ===== verification/StoreCalls.thy ===== *)
theory StoreCalls
  imports RunHistory RunData RegistryFacts Workspaces Sessions Peers Prompts Traces Inputs
begin

text \<open>
  The store as a whole: any sequence of calls of its methods, with any arguments, from the database the migrations leave. The
  invariant of the whole database follows from what each component shows of its own tables: its methods keep the integrity
  constraints, and the methods of other components leave the tables it derives facts from as they are.
\<close>

section \<open>What the other components leave alone\<close>

text \<open>The tables with facts beyond the constraints of the schema: metrics and their latest values, prompt versions, dataset lineage.\<close>

definition derived :: "db \<Rightarrow> metric_row list \<times> metric_row list \<times> prompt_row list \<times> (int \<times> int) list \<times> dataset_row list" where
  "derived s = (metrics s, metrics_latest s, prompts s, dataset_lineage s, datasets_v2 s)"

definition same_derived :: "db \<Rightarrow> db \<Rightarrow> bool" where
  "same_derived x s \<longleftrightarrow> derived s = derived x"

lemma clockless_same: "clockless (same_derived x)"
  by (simp add: clockless_def same_derived_def derived_def)

lemma same_now [keeps_intros]: "keeps (same_derived x) now"
  by (rule keeps_now [OF clockless_same])

lemma same_tx [keeps_intros]: "keeps (same_derived x) m \<Longrightarrow> keeps (same_derived x) (tx m)"
  by (rule keeps_tx [OF clockless_same])

lemmas other_statements = insert_experiments_def update_experiments_def upsert_experiment_tags_def insert_runs_def update_runs_def
  upsert_tags_def delete_tags_def insert_events_def insert_params_def upsert_run_notes_def delete_run_notes_def upsert_evals_def
  insert_registered_models_def update_model_description_def delete_registered_models_def upsert_registered_model_tags_def
  delete_registered_model_tags_def insert_model_versions_def update_model_versions_def delete_model_versions_def
  upsert_model_version_tags_def delete_model_version_tags_def upsert_model_aliases_def delete_model_aliases_def
  insert_workspaces_def update_workspaces_def delete_dashboards_def upsert_workspace_members_def
  delete_workspace_members_def insert_sessions_def update_last_seen_def delete_sessions_def insert_peers_def delete_peers_def
  update_peers_def insert_webhooks_def update_webhooks_def delete_webhooks_def upsert_dashboards_def upsert_prompt_aliases_def

lemma same_statements [keeps_intros]:
  "keeps (same_derived x) (insert_experiments mk)" "keeps (same_derived x) (update_experiments eid eu)"
  "keeps (same_derived x) (upsert_experiment_tags et)" "keeps (same_derived x) (insert_runs r)" "keeps (same_derived x) (update_runs rp ru)"
  "keeps (same_derived x) (upsert_tags rid k v)" "keeps (same_derived x) (delete_tags rid k)"
  "keeps (same_derived x) (insert_events ts kind rid pl)" "keeps (same_derived x) (insert_params pa)"
  "keeps (same_derived x) (upsert_run_notes rn)" "keeps (same_derived x) (delete_run_notes rid)" "keeps (same_derived x) (upsert_evals ev)"
  "keeps (same_derived x) (insert_registered_models rm)" "keeps (same_derived x) (update_model_description ws nm d n)"
  "keeps (same_derived x) (delete_registered_models ws nm)" "keeps (same_derived x) (upsert_registered_model_tags rmt)"
  "keeps (same_derived x) (delete_registered_model_tags ws nm k)" "keeps (same_derived x) (insert_model_versions mv)"
  "keeps (same_derived x) (update_model_versions vp vu)" "keeps (same_derived x) (delete_model_versions vk)"
  "keeps (same_derived x) (upsert_model_version_tags mt)" "keeps (same_derived x) (delete_model_version_tags vk k)"
  "keeps (same_derived x) (upsert_model_aliases ma)" "keeps (same_derived x) (delete_model_aliases ws nm al)"
  "keeps (same_derived x) (insert_workspaces wr)" "keeps (same_derived x) (update_workspaces ws wn wd n)"
  "keeps (same_derived x) (delete_dashboards ws)" "keeps (same_derived x) (upsert_workspace_members wm)"
  "keeps (same_derived x) (delete_workspace_members ws u)" "keeps (same_derived x) (insert_sessions se)"
  "keeps (same_derived x) (update_last_seen n sid m)" "keeps (same_derived x) (delete_sessions sp)"
  "keeps (same_derived x) (insert_peers pmk)" "keeps (same_derived x) (delete_peers i ws)" "keeps (same_derived x) (update_peers i st er seen)"
  "keeps (same_derived x) (insert_webhooks wmk)" "keeps (same_derived x) (update_webhooks i wu)" "keeps (same_derived x) (delete_webhooks i)"
  "keeps (same_derived x) (upsert_dashboards da)" "keeps (same_derived x) (upsert_prompt_aliases ap)"
  unfolding other_statements by (rule keeps_stmt; simp add: same_derived_def derived_def Let_def)+

lemma delete_where_none: "count_where p rs = 0 \<Longrightarrow> delete_where p rs = rs"
  by (auto simp: count_where_0 delete_where_def filter_id_conv)

lemma same_upsert_traces [keeps_intros]: "keeps (same_derived x) (upsert_traces r)"
  unfolding upsert_traces_def by (rule keeps_stmt) (simp add: same_derived_def derived_def split: option.splits)

text \<open>A workspace is only deleted when it has no prompts.\<close>

lemma same_delete_workspaces [keeps_intros]: "keeps (same_derived x) (delete_workspaces ws)"
  unfolding delete_workspaces_def
  by (rule keeps_stmt) (simp add: same_derived_def derived_def workspaceOwnedTables_def delete_where_none)

lemma same_events [keeps_intros]:
  "keeps (same_derived x) (writeRunEvent kind rid pl)" "keeps (same_derived x) (write_before kind rid b)"
  unfolding write_before_def writeRunEvent_def by (intro keeps_intros)+

lemma same_parent [keeps_intros]:
  "keeps (same_derived x) (setParentRunID rid p)" "keeps (same_derived x) (syncParentRunIDFromTag rid v)"
  unfolding syncParentRunIDFromTag_def setParentRunID_def by (intro keeps_intros)+

lemma same_archive_loop [keeps_intros]: "keeps (same_derived x) (archive_loop n ids)"
  by (induction ids) (auto intro!: keeps_intros)

lemma same_runs [keeps_intros]:
  "keeps (same_derived x) (CreateRun newID r)" "keeps (same_derived x) (UpdateRun rid st et nm)"
  "keeps (same_derived x) (SetRunLifecycle rid st')" "keeps (same_derived x) (SetTag rid t)" "keeps (same_derived x) (SetTags rid ts)"
  "keeps (same_derived x) (DeleteTag rid k)" "keeps (same_derived x) (ArchiveStaleRuns b)" "keeps (same_derived x) (PruneEventsBefore b)"
  unfolding CreateRun_def fill_run_def UpdateRun_def SetRunLifecycle_def SetTag_def SetTags_def DeleteTag_def ArchiveStaleRuns_def PruneEventsBefore_def
  by (auto intro!: keeps_intros keeps_stmt simp: same_derived_def derived_def)

lemma same_experiments [keeps_intros]:
  "keeps (same_derived x) (SetExperimentTag eid k v)" "keeps (same_derived x) (CreateExperiment e)" "keeps (same_derived x) (UpdateExperiment eid nm)"
  "keeps (same_derived x) (SetExperimentLifecycle eid st)"
  unfolding CreateExperiment_def SetExperimentTag_def UpdateExperiment_def SetExperimentLifecycle_def by (intro keeps_intros)+

lemma same_CloneExperiment [keeps_intros]: "keeps (same_derived x) (CloneExperiment eid nm ws)"
  unfolding CloneExperiment_def by (intro keeps_intros)

lemma same_run_data [keeps_intros]:
  "keeps (same_derived x) (LogParam rid p)" "keeps (same_derived x) (LogParams rid ps)" "keeps (same_derived x) (SetRunNote rid c u)"
  "keeps (same_derived x) (CreateEval e)"
  unfolding LogParam_def LogParams_def SetRunNote_def CreateEval_def by (intro keeps_intros)+

lemma same_registry [keeps_intros]:
  "keeps (same_derived x) (CreateRegisteredModel ws m)" "keeps (same_derived x) (UpdateRegisteredModel ws nm d)"
  "keeps (same_derived x) (DeleteRegisteredModel ws nm)" "keeps (same_derived x) (SetRegisteredModelTag ws nm k v)"
  "keeps (same_derived x) (DeleteRegisteredModelTag ws nm k)" "keeps (same_derived x) (CreateModelVersion ws mv)"
  "keeps (same_derived x) (UpdateModelVersion ws nm ver d)" "keeps (same_derived x) (DeleteModelVersion ws nm ver)"
  "keeps (same_derived x) (TransitionModelStage ws nm ver st a)" "keeps (same_derived x) (SetModelVersionTag ws nm ver k v)"
  "keeps (same_derived x) (DeleteModelVersionTag ws nm ver k)" "keeps (same_derived x) (SetModelAlias ws nm al ver)"
  "keeps (same_derived x) (DeleteModelAlias ws nm al)"
  unfolding CreateRegisteredModel_def UpdateRegisteredModel_def DeleteRegisteredModel_def SetRegisteredModelTag_def DeleteRegisteredModelTag_def
    CreateModelVersion_def UpdateModelVersion_def DeleteModelVersion_def TransitionModelStage_def SetModelVersionTag_def DeleteModelVersionTag_def
    SetModelAlias_def DeleteModelAlias_def
  by (intro keeps_intros)+

lemma same_RenameRegisteredModel [keeps_intros]: "keeps (same_derived x) (RenameRegisteredModel ws nm nw)"
proof -
  have "keeps (same_derived x) (rename_rows ws nm nw n)" for ws nm nw n
    unfolding rename_rows_def rename_versions_def rename_version_tags_def rename_model_tags_def rename_aliases_def rename_model_def
    by (auto intro!: keeps_intros keeps_stmt simp: same_derived_def derived_def)
  then show ?thesis unfolding RenameRegisteredModel_def by (intro keeps_intros)
qed

lemma same_tenancy [keeps_intros]:
  "keeps (same_derived x) (CreateWorkspace w)" "keeps (same_derived x) (UpdateWorkspace ws nm d)" "keeps (same_derived x) (DeleteWorkspace ws)"
  "keeps (same_derived x) (AddMember ws u r)" "keeps (same_derived x) (RemoveMember ws u)" "keeps (same_derived x) (CreateSession se)"
  "keeps (same_derived x) (GetSession sid)" "keeps (same_derived x) (TouchSession sid n)" "keeps (same_derived x) (DeleteSession sid)"
  "keeps (same_derived x) GarbageCollectSessions"
  unfolding CreateWorkspace_def UpdateWorkspace_def DeleteWorkspace_def AddMember_def RemoveMember_def CreateSession_def GetSession_def
    TouchSession_def DeleteSession_def GarbageCollectSessions_def
  by (intro keeps_intros)+

lemma same_peers [keeps_intros]:
  "keeps (same_derived x) (CreatePeer p)" "keeps (same_derived x) (DeletePeer ws i)" "keeps (same_derived x) (UpdatePeerStatus i st e n)"
  "keeps (same_derived x) (CreateWebhook w)" "keeps (same_derived x) (UpdateWebhook w)" "keeps (same_derived x) (DeleteWebhook i)"
  "keeps (same_derived x) (RecordWebhookAttempt i code a)" "keeps (same_derived x) (SaveDashboard ws pj wj)"
  "keeps (same_derived x) (SetPromptAlias ws nm al ver)"
  unfolding CreatePeer_def DeletePeer_def UpdatePeerStatus_def CreateWebhook_def UpdateWebhook_def DeleteWebhook_def RecordWebhookAttempt_def
    SaveDashboard_def SetPromptAlias_def
  by (intro keeps_intros)+

lemma same_InsertSpans [keeps_intros]: "keeps (same_derived x) (InsertSpans rnd spans)"
  unfolding InsertSpans_def insert_span_def by (intro keeps_intros)

section \<open>Inputs only add datasets\<close>

definition grown :: "db \<Rightarrow> db \<Rightarrow> bool" where
  "grown x s \<longleftrightarrow> metrics s = metrics x \<and> metrics_latest s = metrics_latest x \<and> prompts s = prompts x \<and>
     dataset_lineage s = dataset_lineage x \<and> (\<exists>rs. datasets_v2 s = datasets_v2 x @ rs)"

lemma clockless_grown: "clockless (grown x)"
  by (simp add: clockless_def grown_def)

lemma grown_now [keeps_intros]: "keeps (grown x) now"
  by (rule keeps_now [OF clockless_grown])

lemma grown_tx [keeps_intros]: "keeps (grown x) m \<Longrightarrow> keeps (grown x) (tx m)"
  by (rule keeps_tx [OF clockless_grown])

lemma grown_statements [keeps_intros]:
  "keeps (grown x) (insert_datasets_v2 mk)" "keeps (grown x) (insert_dataset_inputs_v2 rid i ts)" "keeps (grown x) (upsert_datasets dm)"
  "keeps (grown x) (insert_dataset_inputs rid nm dig)" "keeps (grown x) (upsert_dataset_input_tags i t)"
  unfolding insert_datasets_v2_def insert_dataset_inputs_v2_def upsert_datasets_def insert_dataset_inputs_def upsert_dataset_input_tags_def
  by (rule keeps_stmt; auto simp: grown_def Let_def)+

lemma grown_mirror_loop [keeps_intros]: "keeps (grown x) (mirror_loop n ws nm dig)"
  by (induction n) (auto simp: insert_mirror_def intro!: keeps_intros)

lemma grown_log_input [keeps_intros]: "keeps (grown x) (log_input v03 rid inp)"
  unfolding log_input_def link_input_def link_legacy_def mirrorIntoDatasetsV2Returning_def by (intro keeps_intros)

lemma grown_LogInputs [keeps_intros]: "keeps (grown x) (LogInputs v03 rid inputs)"
  unfolding LogInputs_def assertRunExists_def logInputsOnce_def by (intro keeps_intros keeps_log_inputs_loop)

section \<open>Any sequence of calls\<close>

definition store_inv :: "db \<Rightarrow> bool" where
  "store_inv s \<longleftrightarrow> db_ok s \<and> latest_inv s \<and> prompts_contiguous s \<and> lineage_sound s"

lemma store_inv_same:
  assumes "store_inv s" and "keeps db_ok m" and "keeps (same_derived s) m"
  shows "store_inv (snd (m s))"
proof -
  have "db_ok (snd (m s))" using assms(1,2) by (auto simp: store_inv_def dest: keepsD)
  moreover have "derived (snd (m s)) = derived s" using keepsD [OF assms(3), of s] by (simp add: same_derived_def)
  ultimately show ?thesis using assms(1)
    by (simp add: store_inv_def derived_def latest_inv_def prompts_contiguous_def prompt_versions_def lineage_sound_def)
qed

lemma store_inv_grown:
  assumes "store_inv s" and "keeps db_ok m" and "keeps (grown s) m"
  shows "store_inv (snd (m s))"
proof -
  have "db_ok (snd (m s))" using assms(1,2) by (auto simp: store_inv_def dest: keepsD)
  moreover have "grown s (snd (m s))" using keepsD [OF assms(3), of s] by (simp add: grown_def)
  moreover have "lineage_sound (snd (m s))" using assms(1) calculation(2)
    by (auto simp: store_inv_def grown_def lineage_sound_def list_all_iff intro!: same_ws_append)
  ultimately show ?thesis using assms(1)
    by (simp add: store_inv_def grown_def latest_inv_def prompts_contiguous_def prompt_versions_def)
qed

text \<open>The three methods that write one of the derived tables leave the other two alone.\<close>

definition fixed :: "(db \<Rightarrow> 'v) \<Rightarrow> 'v \<Rightarrow> db \<Rightarrow> bool" where
  "fixed f y s \<longleftrightarrow> f s = y"

abbreviation metric_data :: "db \<Rightarrow> metric_row list \<times> metric_row list" where
  "metric_data s \<equiv> (metrics s, metrics_latest s)"

abbreviation dataset_data :: "db \<Rightarrow> (int \<times> int) list \<times> dataset_row list" where
  "dataset_data s \<equiv> (dataset_lineage s, datasets_v2 s)"

lemma fixed_LogMetrics: "keeps (fixed (\<lambda>s. (prompts s, dataset_data s)) y) (LogMetrics rid ms)"
  unfolding LogMetrics_def log_one_def insert_metrics_def assertRunExists_def
  by (intro keeps_intros keeps_now keeps_tx keeps_stmt) (auto simp: clockless_def fixed_def)

lemma fixed_CreatePrompt: "keeps (fixed (\<lambda>s. (metric_data s, dataset_data s)) y) (CreatePrompt ws p)"
  unfolding CreatePrompt_def create_prompt_once_def insert_prompts_def
  by (intro keeps_intros keeps_now keeps_tx keeps_stmt) (auto simp: clockless_def fixed_def)

lemma fixed_CreateDatasetVersion: "keeps (fixed (\<lambda>s. (metric_data s, prompts s)) y) (CreateDatasetVersion d parents)"
  unfolding CreateDatasetVersion_def createDatasetVersionOnce_def insert_datasets_v2_def insert_lineage_def
  by (intro keeps_intros keeps_now keeps_tx keeps_stmt) (auto simp: clockless_def fixed_def Let_def)

lemma fixed_SoftDelete: "keeps (fixed (\<lambda>s. (metric_data s, prompts s)) y) (SoftDeleteDatasetVersion ws nm ver)"
  unfolding SoftDeleteDatasetVersion_def update_dataset_stage_def
  by (intro keeps_intros keeps_now keeps_tx keeps_stmt) (auto simp: clockless_def fixed_def)

lemma store_inv_writers:
  assumes "store_inv s"
  shows "store_inv (snd (LogMetrics rid ms s))" and "store_inv (snd (CreatePrompt ws p s))"
    and "store_inv (snd (CreateDatasetVersion d parents s))" and "store_inv (snd (SoftDeleteDatasetVersion ws nm ver s))"
proof -
  from assms have i: "db_ok s" "latest_inv s" "prompts_contiguous s" "lineage_sound s" by (auto simp: store_inv_def)
  note k = i keepsD [OF keeps_latest_LogMetrics i(2)] keepsD [OF keeps_contiguous_CreatePrompt i(3)]
    keepsD [OF keeps_lineage_sound conjI [OF i(1,4)]] lineage_sound_soft_delete [OF i(4)]
    keepsD [OF keeps_LogMetrics i(1)] keepsD [OF keeps_CreatePrompt i(1)] keepsD [OF keeps_SoftDeleteDatasetVersion i(1)]
  show "store_inv (snd (LogMetrics rid ms s))"
    using k keepsD [OF fixed_LogMetrics, of "(prompts s, dataset_data s)" s rid ms]
    by (simp add: store_inv_def fixed_def prompts_contiguous_def prompt_versions_def lineage_sound_def)
  show "store_inv (snd (CreatePrompt ws p s))"
    using k keepsD [OF fixed_CreatePrompt, of "(metric_data s, dataset_data s)" s ws p]
    by (simp add: store_inv_def fixed_def latest_inv_def lineage_sound_def)
  show "store_inv (snd (CreateDatasetVersion d parents s))"
    using k keepsD [OF fixed_CreateDatasetVersion, of "(metric_data s, prompts s)" s d parents]
    by (simp add: store_inv_def fixed_def latest_inv_def prompts_contiguous_def prompt_versions_def)
  show "store_inv (snd (SoftDeleteDatasetVersion ws nm ver s))"
    using k keepsD [OF fixed_SoftDelete, of "(metric_data s, prompts s)" s ws nm ver]
    by (simp add: store_inv_def fixed_def latest_inv_def prompts_contiguous_def prompt_versions_def)
qed

text \<open>One call of any method of the store that can change the database, with any arguments, whether it succeeds or fails.\<close>

inductive store_step :: "db \<Rightarrow> db \<Rightarrow> bool" where
  CreateExperiment: "store_step s (snd (CreateExperiment e s))"
| UpdateExperiment: "store_step s (snd (UpdateExperiment eid nm' s))"
| SetExperimentLifecycle: "store_step s (snd (SetExperimentLifecycle eid st s))"
| SetExperimentTag: "store_step s (snd (SetExperimentTag eid k v s))"
| CloneExperiment: "store_step s (snd (CloneExperiment eid nm ws s))"
| CreateRun: "store_step s (snd (CreateRun newID r s))"
| UpdateRun: "store_step s (snd (UpdateRun rid st' et nm' s))"
| SetRunLifecycle: "store_step s (snd (SetRunLifecycle rid st s))"
| SetTag: "store_step s (snd (SetTag rid t s))"
| SetTags: "store_step s (snd (SetTags rid ts s))"
| DeleteTag: "store_step s (snd (DeleteTag rid k s))"
| ArchiveStaleRuns: "store_step s (snd (ArchiveStaleRuns b s))"
| PruneEventsBefore: "store_step s (snd (PruneEventsBefore b s))"
| LogMetrics: "store_step s (snd (LogMetrics rid ms s))"
| LogParam: "store_step s (snd (LogParam rid p s))"
| LogParams: "store_step s (snd (LogParams rid ps s))"
| SetRunNote: "store_step s (snd (SetRunNote rid c u s))"
| CreateEval: "store_step s (snd (CreateEval el s))"
| CreateRegisteredModel: "store_step s (snd (CreateRegisteredModel ws m s))"
| UpdateRegisteredModel: "store_step s (snd (UpdateRegisteredModel ws nm d s))"
| DeleteRegisteredModel: "store_step s (snd (DeleteRegisteredModel ws nm s))"
| RenameRegisteredModel: "store_step s (snd (RenameRegisteredModel ws nm nw s))"
| SetRegisteredModelTag: "store_step s (snd (SetRegisteredModelTag ws nm k v s))"
| DeleteRegisteredModelTag: "store_step s (snd (DeleteRegisteredModelTag ws nm k s))"
| CreateModelVersion: "store_step s (snd (CreateModelVersion ws mv s))"
| UpdateModelVersion: "store_step s (snd (UpdateModelVersion ws nm ver d s))"
| DeleteModelVersion: "store_step s (snd (DeleteModelVersion ws nm ver s))"
| TransitionModelStage: "store_step s (snd (TransitionModelStage ws nm ver st a s))"
| SetModelVersionTag: "store_step s (snd (SetModelVersionTag ws nm ver k v s))"
| DeleteModelVersionTag: "store_step s (snd (DeleteModelVersionTag ws nm ver k s))"
| SetModelAlias: "store_step s (snd (SetModelAlias ws nm al ver s))"
| DeleteModelAlias: "store_step s (snd (DeleteModelAlias ws nm al s))"
| CreateWorkspace: "store_step s (snd (CreateWorkspace w s))"
| UpdateWorkspace: "store_step s (snd (UpdateWorkspace ws nm' d s))"
| DeleteWorkspace: "store_step s (snd (DeleteWorkspace ws s))"
| AddMember: "store_step s (snd (AddMember ws u rl s))"
| RemoveMember: "store_step s (snd (RemoveMember ws u s))"
| CreateSession: "store_step s (snd (CreateSession se s))"
| GetSession: "store_step s (snd (GetSession sid s))"
| TouchSession: "store_step s (snd (TouchSession sid i s))"
| DeleteSession: "store_step s (snd (DeleteSession sid s))"
| GarbageCollectSessions: "store_step s (snd (GarbageCollectSessions s))"
| CreatePeer: "store_step s (snd (CreatePeer pe s))"
| DeletePeer: "store_step s (snd (DeletePeer ws i s))"
| UpdatePeerStatus: "store_step s (snd (UpdatePeerStatus i st er j s))"
| CreateWebhook: "store_step s (snd (CreateWebhook wh s))"
| UpdateWebhook: "store_step s (snd (UpdateWebhook wh s))"
| DeleteWebhook: "store_step s (snd (DeleteWebhook i s))"
| RecordWebhookAttempt: "store_step s (snd (RecordWebhookAttempt i code at' s))"
| SaveDashboard: "store_step s (snd (SaveDashboard ws pj wj s))"
| CreatePrompt: "store_step s (snd (CreatePrompt ws pr s))"
| SetPromptAlias: "store_step s (snd (SetPromptAlias ws nm al ver s))"
| InsertSpans: "store_step s (snd (InsertSpans rnd spans s))"
| CreateDatasetVersion: "store_step s (snd (CreateDatasetVersion ds parents s))"
| SoftDeleteDatasetVersion: "store_step s (snd (SoftDeleteDatasetVersion ws nm ver s))"
| LogInputs: "store_step s (snd (LogInputs v03 rid inputs s))"

inductive store_reachable :: "(nat \<Rightarrow> int) \<Rightarrow> int \<Rightarrow> db \<Rightarrow> bool" for c0 n where
  fresh: "store_reachable c0 n (fresh_db c0 n)"
| step: "\<lbrakk>store_reachable c0 n s; store_step s t\<rbrakk> \<Longrightarrow> store_reachable c0 n t"

lemma store_inv_fresh: "store_inv (fresh_db c0 n)"
  by (simp add: store_inv_def db_ok_fresh prompts_contiguous_fresh latest_inv_def latest_ok_def lineage_sound_def) (simp add: fresh_db_def)

lemma store_inv_step: "store_step s t \<Longrightarrow> store_inv s \<Longrightarrow> store_inv t"
proof (induction rule: store_step.induct)
  case (LogInputs s v03 rid inputs)
  then show ?case by (rule store_inv_grown) (intro keeps_intros)+
qed (assumption | erule store_inv_writers | (erule store_inv_same, intro keeps_intros, intro keeps_intros))+

text \<open>
  C34. Whatever calls are made of the store, in whatever order and with whatever arguments, succeeding or failing, the database
  satisfies the integrity constraints of the whole schema (primary keys, uniqueness, foreign keys and checks of all tables), the
  latest metrics are those of the history, the versions of every prompt are numbered without gaps, and the dataset lineage has no
  cycle and does not cross workspaces.
\<close>

theorem store_invariant:
  assumes "store_reachable c0 n s"
  shows "db_ok s \<and> latest_inv s \<and> prompts_contiguous s \<and> lineage_sound s \<and> acyclic (set (dataset_lineage s))"
proof -
  have "store_inv s" using assms by induction (auto intro: store_inv_fresh store_inv_step)
  then show ?thesis by (simp add: store_inv_def lineage_sound_acyclic)
qed

theorem store_invariant_witness:
  "db_ok (snd (AddMember ''default'' ''ann'' ''admin'' (fresh_db (\<lambda>_. 7) 7)))"
proof -
  have "store_reachable (\<lambda>_. 7) 7 (snd (AddMember ''default'' ''ann'' ''admin'' (fresh_db (\<lambda>_. 7) 7)))"
    by (rule store_reachable.step [OF store_reachable.fresh store_step.AddMember])
  then show ?thesis using store_invariant by blast
qed

end
