(* ===== verification/Analytics.thy ===== *)
theory Analytics
  imports RunData Experiments
begin

text \<open>
  The analytics query (\<open>internal/store/analytics.go\<close>): the latest values of a metric, filtered, grouped and aggregated, with a
  representative run for a maximum or minimum. The SQL text is built from fixed parts; here are the rows it selects. Averages
  are exact, where SQLite adds floats; groups that the order does not separate come in the order of the table.
\<close>

section \<open>Queries\<close>

record AnalyticsWhere =
  aw_ExperimentIDs :: "int list"
  aw_TimeAfter :: int
  aw_Lifecycle :: string
  aw_Status :: "string list"
  aw_MinMetric :: "rat option"
  aw_MaxMetric :: "rat option"

record AnalyticsQuery =
  aq_Metric :: string
  aq_Agg :: string
  aq_GroupBy :: string
  aq_Where :: AnalyticsWhere
  aq_OrderBy :: string
  aq_Limit :: int
  aq_WorkspaceID :: string

record AnalyticsRow =
  ar_Group :: string
  ar_AggValue :: rat
  ar_RunCount :: nat
  ar_BestRunID :: string
  ar_BestRunName :: string
  ar_BestExpID :: int
  ar_groupIsNull :: bool

definition allowedAggs :: "string list" where
  "allowedAggs = [''max'', ''min'', ''avg'']"

definition allowedStatuses :: "string list" where
  "allowedStatuses = [''RUNNING'', ''FINISHED'', ''FAILED'', ''KILLED'', ''SCHEDULED'']"

text \<open>The condition on the lifecycle stage; \<open>None\<close> is a stage that the query refuses.\<close>

definition allowedLifecycle :: "string \<Rightarrow> (run_row \<Rightarrow> bool) option" where
  "allowedLifecycle l =
     (if l = [] \<or> l = ''active'' then Some (\<lambda>r. r_lifecycle_stage r = ''active'')
      else if l = ''deleted'' then Some (\<lambda>r. r_lifecycle_stage r = ''deleted'')
      else if l = ''all'' then Some (\<lambda>r. True) else None)"

definition valid_group :: "string \<Rightarrow> bool" where
  "valid_group g \<longleftrightarrow> g = [] \<or> g = ''experiment_id'' \<or> g = ''status'' \<or>
     (if HasPrefix g ''params.'' then 7 < length g \<and> length g \<le> 250 + 7
      else HasPrefix g ''tags.'' \<and> 5 < length g \<and> length g \<le> 250 + 5)"

definition Validate :: "AnalyticsQuery \<Rightarrow> bool" where
  "Validate q \<longleftrightarrow>
     TrimSpace (aq_Metric q) \<noteq> [] \<and> length (aq_Metric q) \<le> 250 \<and>
     aq_Agg q \<in> set allowedAggs \<and>
     valid_group (aq_GroupBy q) \<and>
     allowedLifecycle (aw_Lifecycle (aq_Where q)) \<noteq> None \<and>
     list_all (\<lambda>x. x \<in> set allowedStatuses) (aw_Status (aq_Where q)) \<and>
     aq_OrderBy q \<in> set [[], ''value_desc'', ''value_asc'', ''count_desc'', ''group_asc''] \<and>
     0 \<le> aq_Limit q \<and>
     length (aw_ExperimentIDs (aq_Where q)) \<le> 1000 \<and> length (aw_Status (aq_Where q)) \<le> 16"

section \<open>Rows\<close>

text \<open>The stored value of a metric; \<open>LogMetrics\<close> stores finite values only.\<close>

definition metric_value :: "metric_row \<Rightarrow> rat" where
  "metric_value m = (case m_value m of Fin x \<Rightarrow> x | _ \<Rightarrow> 0)"

text \<open>The join of the latest metrics with runs and experiments, and the conditions but for those on the value.\<close>

definition joined :: "AnalyticsQuery \<Rightarrow> db \<Rightarrow> (metric_row \<times> run_row) list" where
  "joined q s = [(ml, r). ml \<leftarrow> metrics_latest s, r \<leftarrow> runs s,
     m_key ml = aq_Metric q \<and> r_id r = m_run_id ml \<and>
     list_ex (\<lambda>e. e_id e = r_experiment_id r \<and> e_workspace_id e = aq_WorkspaceID q) (experiments s) \<and>
     (case allowedLifecycle (aw_Lifecycle (aq_Where q)) of Some P \<Rightarrow> P r | None \<Rightarrow> False) \<and>
     (aw_ExperimentIDs (aq_Where q) = [] \<or> r_experiment_id r \<in> set (aw_ExperimentIDs (aq_Where q))) \<and>
     (0 < aw_TimeAfter (aq_Where q) \<longrightarrow> aw_TimeAfter (aq_Where q) \<le> r_start_time r) \<and>
     (aw_Status (aq_Where q) = [] \<or> r_status r \<in> set (aw_Status (aq_Where q)))]"

definition in_range :: "AnalyticsQuery \<Rightarrow> metric_row \<Rightarrow> bool" where
  "in_range q ml \<longleftrightarrow> (case aw_MinMetric (aq_Where q) of None \<Rightarrow> True | Some x \<Rightarrow> x \<le> metric_value ml) \<and>
     (case aw_MaxMetric (aq_Where q) of None \<Rightarrow> True | Some x \<Rightarrow> metric_value ml \<le> x)"

text \<open>The value a row is grouped by; \<open>None\<close> is NULL.\<close>

definition group_key :: "AnalyticsQuery \<Rightarrow> db \<Rightarrow> run_row \<Rightarrow> string option" where
  "group_key q s r =
     (if aq_GroupBy q = [] then None
      else if aq_GroupBy q = ''experiment_id'' then Some (FormatInt (r_experiment_id r))
      else if aq_GroupBy q = ''status'' then Some (r_status r)
      else if HasPrefix (aq_GroupBy q) ''params.'' then
        map_option p_value (first_row (\<lambda>p. p_run_id p = r_id r \<and> p_key p = TrimPrefix (aq_GroupBy q) ''params.'') (params s))
      else if HasPrefix (aq_GroupBy q) ''tags.'' then
        map_option t_value (first_row (\<lambda>t. t_run_id t = r_id r \<and> t_key t = TrimPrefix (aq_GroupBy q) ''tags.'') (tags s))
      else None)"

definition aggregate :: "string \<Rightarrow> rat list \<Rightarrow> rat" where
  "aggregate agg vs =
     (if agg = ''max'' then foldr max (tl vs) (hd vs)
      else if agg = ''min'' then foldr min (tl vs) (hd vs)
      else sum_list vs / of_nat (length vs))"

definition group_row :: "AnalyticsQuery \<Rightarrow> db \<Rightarrow> string option \<Rightarrow> AnalyticsRow" where
  "group_row q s g =
     (let grp = filter (\<lambda>(ml, r). in_range q ml \<and> group_key q s r = g) (joined q s) in
      \<lparr>ar_Group = (case g of None \<Rightarrow> [] | Some x \<Rightarrow> x), ar_AggValue = aggregate (aq_Agg q) (map (\<lambda>(ml, r). metric_value ml) grp),
       ar_RunCount = length grp, ar_BestRunID = [], ar_BestRunName = [], ar_BestExpID = 0, ar_groupIsNull = (g = None)\<rparr>)"

definition order_rows :: "string \<Rightarrow> AnalyticsRow list \<Rightarrow> AnalyticsRow list" where
  "order_rows ob rows =
     (if ob = ''value_asc'' then sort_key ar_AggValue rows
      else if ob = ''count_desc'' then sort_key (\<lambda>r. (- int (ar_RunCount r), - ar_AggValue r)) rows
      else if ob = ''group_asc'' then sort_key (\<lambda>r. if ar_groupIsNull r then (0 :: nat, []) else (1, ar_Group r)) rows
      else sort_key (\<lambda>r. - ar_AggValue r) rows)"

definition buildAnalyticsSQL :: "AnalyticsQuery \<Rightarrow> db \<Rightarrow> AnalyticsRow list" where
  "buildAnalyticsSQL q s =
     take (nat (aq_Limit q)) (order_rows (aq_OrderBy q)
       (map (group_row q s) (remdups (map (\<lambda>(ml, r). group_key q s r) (filter (\<lambda>(ml, r). in_range q ml) (joined q s))))))"

text \<open>The condition by which the lookup of the best run finds the group again.\<close>

definition same_group :: "AnalyticsQuery \<Rightarrow> db \<Rightarrow> AnalyticsRow \<Rightarrow> run_row \<Rightarrow> bool" where
  "same_group q s row r \<longleftrightarrow>
     (if aq_GroupBy q = [] then True
      else if aq_GroupBy q = ''experiment_id'' then ParseInt (ar_Group row) = Some (r_experiment_id r)
      else if aq_GroupBy q = ''status'' then r_status r = ar_Group row
      else if ar_groupIsNull row then group_key q s r = None else group_key q s r = Some (ar_Group row))"

definition resolveBestRuns :: "AnalyticsQuery \<Rightarrow> db \<Rightarrow> AnalyticsRow list \<Rightarrow> AnalyticsRow list" where
  "resolveBestRuns q s = map (\<lambda>row.
     case first_row (\<lambda>(ml, r). metric_value ml = ar_AggValue row \<and> same_group q s row r) (joined q s) of
       None \<Rightarrow> row
     | Some (ml, r) \<Rightarrow> row\<lparr>ar_BestRunID := m_run_id ml, ar_BestRunName := coalesce (r_name r), ar_BestExpID := r_experiment_id r\<rparr>)"

definition effective :: "AnalyticsQuery \<Rightarrow> AnalyticsQuery" where
  "effective q = q\<lparr>aq_Limit := (let l = if aq_Limit q = 0 then 100 else aq_Limit q in if 1000 < l then 1000 else l),
     aq_WorkspaceID := default_ws (aq_WorkspaceID q)\<rparr>"

definition AnalyticsQuery_exec :: "AnalyticsQuery \<Rightarrow> db \<Rightarrow> err + AnalyticsRow list \<times> nat" where
  "AnalyticsQuery_exec q0 s =
     (if \<not> Validate q0 then Inl (ErrOther ''validate'')
      else let q = effective q0; rows = buildAnalyticsSQL q s in
        Inr (if (aq_Agg q = ''max'' \<or> aq_Agg q = ''min'') \<and> rows \<noteq> [] then resolveBestRuns q s rows else rows,
             sum_list (map ar_RunCount rows)))"

section \<open>What a row says\<close>

definition members :: "AnalyticsQuery \<Rightarrow> db \<Rightarrow> string option \<Rightarrow> (metric_row \<times> run_row) list" where
  "members q s g = filter (\<lambda>(ml, r). in_range q ml \<and> group_key q s r = g) (joined q s)"

lemma set_order_rows [simp]: "set (order_rows ob rows) = set rows" "length (order_rows ob rows) = length rows"
  by (simp_all add: order_rows_def)

lemma foldr_max: "vs \<noteq> [] \<Longrightarrow> foldr max (tl vs) (hd vs) \<in> set vs \<and> (\<forall>v\<in>set vs. v \<le> foldr max (tl vs) (hd vs))" for vs :: "rat list"
proof -
  have "foldr max xs x \<in> set (x # xs) \<and> (\<forall>v\<in>set (x # xs). v \<le> foldr max xs x)" for xs and x :: rat
    by (induction xs) (auto simp: max_def)
  then show "vs \<noteq> [] \<Longrightarrow> foldr max (tl vs) (hd vs) \<in> set vs \<and> (\<forall>v\<in>set vs. v \<le> foldr max (tl vs) (hd vs))" by (cases vs) auto
qed

lemma foldr_min: "vs \<noteq> [] \<Longrightarrow> foldr min (tl vs) (hd vs) \<in> set vs \<and> (\<forall>v\<in>set vs. foldr min (tl vs) (hd vs) \<le> v)" for vs :: "rat list"
proof -
  have "foldr min xs x \<in> set (x # xs) \<and> (\<forall>v\<in>set (x # xs). foldr min xs x \<le> v)" for xs and x :: rat
    by (induction xs) (auto simp: min_def)
  then show "vs \<noteq> [] \<Longrightarrow> foldr min (tl vs) (hd vs) \<in> set vs \<and> (\<forall>v\<in>set vs. foldr min (tl vs) (hd vs) \<le> v)" by (cases vs) auto
qed

text \<open>The aggregate of a group that is not empty.\<close>

definition is_aggregate :: "string \<Rightarrow> rat \<Rightarrow> rat list \<Rightarrow> bool" where
  "is_aggregate agg x vs \<longleftrightarrow>
     (if agg = ''max'' then x \<in> set vs \<and> (\<forall>v\<in>set vs. v \<le> x)
      else if agg = ''min'' then x \<in> set vs \<and> (\<forall>v\<in>set vs. x \<le> v)
      else x * of_nat (length vs) = sum_list vs)"

lemma aggregate_correct: "vs \<noteq> [] \<Longrightarrow> is_aggregate agg (aggregate agg vs) vs"
  using foldr_max [of vs] foldr_min [of vs] by (simp add: is_aggregate_def aggregate_def)

lemma built_row:
  assumes "row \<in> set (buildAnalyticsSQL q s)"
  shows "\<exists>g. row = group_row q s g \<and> members q s g \<noteq> []"
proof -
  have "row \<in> set (map (group_row q s) (remdups (map (\<lambda>(ml, r). group_key q s r) (filter (\<lambda>(ml, r). in_range q ml) (joined q s)))))"
    using assms in_set_takeD unfolding buildAnalyticsSQL_def by (metis set_order_rows(1))
  then show ?thesis by (auto simp: members_def filter_empty_conv)
qed

lemma group_row_simps:
  "ar_Group (group_row q s g) = (case g of None \<Rightarrow> [] | Some x \<Rightarrow> x)"
  "ar_AggValue (group_row q s g) = aggregate (aq_Agg q) (map (\<lambda>(ml, r). metric_value ml) (members q s g))"
  "ar_RunCount (group_row q s g) = length (members q s g)"
  "ar_groupIsNull (group_row q s g) = (g = None)"
  by (simp_all add: group_row_def members_def Let_def)

text \<open>The lookup of the best run finds the group of the row again.\<close>

lemma same_group_iff:
  assumes "int64_range (r_experiment_id r)" and "group_key q s r0 = g" and "int64_range (r_experiment_id r0)"
  shows "same_group q s (group_row q s g) r \<longleftrightarrow> group_key q s r = g"
proof -
  consider "aq_GroupBy q = []" | "aq_GroupBy q = ''experiment_id''" | "aq_GroupBy q = ''status''"
    | "aq_GroupBy q \<noteq> []" "aq_GroupBy q \<noteq> ''experiment_id''" "aq_GroupBy q \<noteq> ''status''" by blast
  then show ?thesis
  proof cases
    case 2
    have "FormatInt (r_experiment_id r) = FormatInt (r_experiment_id r0) \<longleftrightarrow> r_experiment_id r = r_experiment_id r0"
      using ParseInt_FormatInt [OF assms(1)] ParseInt_FormatInt [OF assms(3)] by (metis option.inject)
    with 2 assms(2) [symmetric] ParseInt_FormatInt [OF assms(3)] show ?thesis by (auto simp: same_group_def group_key_def group_row_simps)
  next
    case 4
    then show ?thesis unfolding same_group_def group_row_simps by (cases g) simp_all
  qed (use assms(2) in \<open>auto simp: same_group_def group_key_def group_row_simps\<close>)
qed

lemma joined_run: "(ml, r) \<in> set (joined q s) \<Longrightarrow> r \<in> set (runs s) \<and> r_id r = m_run_id ml"
  by (auto simp: joined_def)

text \<open>The best run of a maximum or minimum belongs to the group and has the value.\<close>

lemma best_run:
  assumes "\<forall>r\<in>set (runs s). int64_range (r_experiment_id r)" and "aq_Agg q = ''max'' \<or> aq_Agg q = ''min''"
    and "members q s g \<noteq> []" and "resolveBestRuns q s [group_row q s g] = [row]"
  shows "\<exists>(ml, r)\<in>set (members q s g). metric_value ml = ar_AggValue row \<and> ar_BestRunID row = r_id r \<and> ar_BestRunName row = coalesce (r_name r) \<and>
    ar_BestExpID row = r_experiment_id r"
proof -
  let ?b = "group_row q s g"
  let ?P = "\<lambda>(ml, r). metric_value ml = ar_AggValue ?b \<and> same_group q s ?b r"
  have agg: "ar_AggValue ?b \<in> set (map (\<lambda>(ml, r). metric_value ml) (members q s g))"
    using aggregate_correct [of "map (\<lambda>(ml, r). metric_value ml) (members q s g)" "aq_Agg q"] assms(2,3)
    unfolding is_aggregate_def group_row_simps by auto
  then obtain m0 r0 where m0: "(m0, r0) \<in> set (members q s g)" "metric_value m0 = ar_AggValue ?b" by auto
  then have j0: "(m0, r0) \<in> set (joined q s)" "group_key q s r0 = g" "in_range q m0" by (simp_all add: members_def)
  have iff: "same_group q s ?b r \<longleftrightarrow> group_key q s r = g" if "r \<in> set (runs s)" for r
    using assms(1) joined_run [OF j0(1)] that by (intro same_group_iff [OF _ j0(2)]) auto
  have "?P (m0, r0)" using m0(2) iff [of r0] joined_run [OF j0(1)] j0(2) by simp
  then obtain ml r where first: "first_row ?P (joined q s) = Some (ml, r)"
    using first_row_None [of ?P "joined q s"] j0(1) by (cases "first_row ?P (joined q s)") auto
  then have mr: "(ml, r) \<in> set (joined q s)" "metric_value ml = ar_AggValue ?b" "same_group q s ?b r" using first_row_Some [OF first] by simp_all
  have "metric_value ml = metric_value m0" using m0(2) mr(2) by simp
  then have "in_range q ml" using j0(3) by (simp only: in_range_def)
  then have mem: "(ml, r) \<in> set (members q s g)" using mr iff joined_run [OF mr(1)] by (simp add: members_def)
  have "row = ?b\<lparr>ar_BestRunID := m_run_id ml, ar_BestRunName := coalesce (r_name r), ar_BestExpID := r_experiment_id r\<rparr>"
    using assms(4) first by (simp add: resolveBestRuns_def)
  then show ?thesis using mem mr(2) joined_run [OF mr(1)] by (intro bexI [OF _ mem]) simp
qed


definition analytics_db :: db where
  "analytics_db = sample_db\<lparr>metrics_latest := [
     \<lparr>m_run_id = ''r1'', m_key = ''loss'', m_value = Fin 1, m_timestamp = 1, m_step = 0\<rparr>,
     \<lparr>m_run_id = ''r2'', m_key = ''loss'', m_value = Fin 3, m_timestamp = 1, m_step = 0\<rparr>]\<rparr>"

definition sample_query :: AnalyticsQuery where
  "sample_query = \<lparr>aq_Metric = ''loss'', aq_Agg = ''max'', aq_GroupBy = ''status'',
     aq_Where = \<lparr>aw_ExperimentIDs = [], aw_TimeAfter = 0, aw_Lifecycle = [], aw_Status = [], aw_MinMetric = None, aw_MaxMetric = None\<rparr>,
     aq_OrderBy = [], aq_Limit = 0, aq_WorkspaceID = []\<rparr>"

lemma sample_query_valid: "Validate sample_query"
  by (simp add: Validate_def sample_query_def TrimSpace_def is_space_def allowedAggs_def valid_group_def allowedLifecycle_def)


end
