(* ===== verification/Downsample.thy ===== *)
theory Downsample
  imports Search
begin

text \<open>
  Reduction of a metric history to a number of points by largest triangles (\<open>internal/store/downsample.go\<close>,
  \<open>GetMetricHistoryDownsampled\<close> in \<open>sqlite.go\<close>). The areas are exact rationals where the code has \<open>float64\<close>; the bounds of the
  buckets are the same, since products below 2 to the 53 divide without rounding across an integer.
\<close>

section \<open>The algorithm\<close>

definition bucketStart :: "nat \<Rightarrow> nat \<Rightarrow> nat \<Rightarrow> nat" where
  "bucketStart n b i = (i * (n - 2)) div b + 1"

definition bucketEnd :: "nat \<Rightarrow> nat \<Rightarrow> nat \<Rightarrow> nat" where
  "bucketEnd n b i = (let e = ((i + 1) * (n - 2)) div b + 1 in if n - 1 \<le> e then n - 2 else e)"

definition point_x :: "Metric \<Rightarrow> rat" where
  "point_x p = of_int (met_Timestamp p)"

definition point_y :: "Metric \<Rightarrow> rat" where
  "point_y p = (case met_Value p of Fin x \<Rightarrow> x | _ \<Rightarrow> 0)"

text \<open>The mean of the next bucket, or the last point when that bucket is empty.\<close>

definition next_mean :: "Metric list \<Rightarrow> nat \<Rightarrow> nat \<Rightarrow> rat \<times> rat" where
  "next_mean points b i =
     (let n = length points;
          js = [bucketEnd n b i + 1..<bucketEnd n b (i + 1) + 1]
      in if js = [] then (point_x (points ! (n - 1)), point_y (points ! (n - 1)))
         else (sum_list (map (\<lambda>j. point_x (points ! j)) js) / of_nat (length js), sum_list (map (\<lambda>j. point_y (points ! j)) js) / of_nat (length js)))"

definition area :: "Metric \<Rightarrow> rat \<times> rat \<Rightarrow> Metric \<Rightarrow> rat" where
  "area a c p = \<bar>(point_x p - point_x a) * (snd c - point_y a) - (fst c - point_x a) * (point_y p - point_y a)\<bar>"

definition best_index :: "Metric list \<Rightarrow> nat \<Rightarrow> nat \<Rightarrow> Metric \<Rightarrow> nat" where
  "best_index points b i prev =
     (let n = length points; c = next_mean points b i in
      snd (foldl (\<lambda>(mx, best) j. let x = area prev c (points ! j) in if mx < x then (x, j) else (mx, best))
        (- 1, bucketStart n b i) [bucketStart n b i..<bucketEnd n b i + 1]))"

fun lttb_loop :: "Metric list \<Rightarrow> nat \<Rightarrow> nat list \<Rightarrow> nat \<Rightarrow> nat list" where
  "lttb_loop points b [] prev = []"
| "lttb_loop points b (i # js) prev = (let k = best_index points b i (points ! prev) in k # lttb_loop points b js k)"

definition DownsampleLTTB :: "Metric list \<Rightarrow> int \<Rightarrow> Metric list" where
  "DownsampleLTTB points target =
     (let n = length points in
      if target < 3 \<or> int n \<le> target then points
      else let b = nat target - 2 in map ((!) points) (0 # lttb_loop points b [0..<b] 0 @ [n - 1]))"

definition GetMetricHistoryDownsampled :: "string \<Rightarrow> string \<Rightarrow> int \<Rightarrow> db \<Rightarrow> err + Metric list \<times> int" where
  "GetMetricHistoryDownsampled rid k target s =
     (case GetMetricHistory rid k \<lparr>mh_MaxResults = 0, mh_PageToken = []\<rparr> s of Inl e \<Rightarrow> Inl e
      | Inr (points, _) \<Rightarrow> Inr (DownsampleLTTB points target, int (length points)))"

section \<open>Buckets\<close>

lemma bucketStart_le:
  assumes "i < b" and "b + 2 < n"
  shows "bucketStart n b i \<le> n - 2"
proof -
  have "i * (n - 2) < b * (n - 2)" using assms by (intro mult_strict_right_mono) auto
  then have "(i * (n - 2)) div b < n - 2" using assms by (simp add: less_mult_imp_div_less mult.commute)
  then show ?thesis by (simp add: bucketStart_def)
qed

lemma bucket_order:
  assumes "i < b" and "b + 2 < n"
  shows "bucketStart n b i \<le> bucketEnd n b i" and "bucketEnd n b i \<le> n - 2" and "bucketEnd n b i \<le> bucketStart n b (i + 1)"
proof -
  have "(i * (n - 2)) div b \<le> ((i + 1) * (n - 2)) div b" by (intro div_le_mono) simp
  then show "bucketStart n b i \<le> bucketEnd n b i" using bucketStart_le [OF assms] by (simp add: bucketEnd_def bucketStart_def Let_def)
  have "(if n - 1 \<le> e then n - 2 else e) \<le> n - 2 \<and> (if n - 1 \<le> e then n - 2 else e) \<le> e" for e by auto
  then show "bucketEnd n b i \<le> n - 2" "bucketEnd n b i \<le> bucketStart n b (i + 1)"
    unfolding bucketEnd_def bucketStart_def Let_def by blast+
qed

lemma best_index_range:
  assumes "i < b" and "b + 2 < length points"
  shows "bucketStart (length points) b i \<le> best_index points b i prev \<and> best_index points b i prev \<le> bucketEnd (length points) b i"
proof -
  have step: "snd (foldl (\<lambda>(mx, best) j. let x = f j in if mx < x then (x, j) else (mx, best)) (m0, k) js) \<in> insert k (set js)"
    for f :: "nat \<Rightarrow> rat" and m0 k js
    by (induction js arbitrary: m0 k) (fastforce simp: Let_def)+
  have "best_index points b i prev \<in> insert (bucketStart (length points) b i) (set [bucketStart (length points) b i..<bucketEnd (length points) b i + 1])"
    unfolding best_index_def Let_def [of "length points"] Let_def [of "next_mean _ _ _"] by (rule step)
  then show ?thesis using bucket_order(1) [OF assms] by auto
qed

text \<open>The chosen indices go up bucket by bucket and stay inside the list.\<close>

lemma lttb_loop_sorted:
  assumes "b + 2 < length points" and "i \<le> b"
  shows "length (lttb_loop points b [i..<b] prev) = b - i \<and> sorted (lttb_loop points b [i..<b] prev) \<and>
    (\<forall>k\<in>set (lttb_loop points b [i..<b] prev). bucketStart (length points) b i \<le> k \<and> k \<le> length points - 2)"
  using assms(2)
proof (induction "b - i" arbitrary: i prev)
  case 0
  then show ?case by simp
next
  case (Suc d)
  then have i: "i < b" by simp
  let ?k = "best_index points b i (points ! prev)"
  have list: "[i..<b] = i # [Suc i..<b]" using i by (simp add: upt_rec)
  note rng = best_index_range [OF i assms(1), of "points ! prev"] and ord = bucket_order [OF i assms(1)]
  have IH: "length (lttb_loop points b [Suc i..<b] ?k) = b - Suc i" "sorted (lttb_loop points b [Suc i..<b] ?k)"
    "\<forall>x\<in>set (lttb_loop points b [Suc i..<b] ?k). bucketStart (length points) b (Suc i) \<le> x \<and> x \<le> length points - 2"
    using Suc.hyps(1) [of "Suc i" ?k] Suc.hyps(2) i by simp_all
  have up: "?k \<le> bucketStart (length points) b (Suc i)" using rng ord(3) by simp
  have "bucketStart (length points) b i \<le> bucketStart (length points) b (Suc i)" using rng up by simp
  with IH rng ord up i show ?case unfolding list by (force simp: Let_def)
qed

text \<open>
  C30. A downsampled history is a faithful picture of the history: when it has more than the wanted number of points, exactly that many
  remain, all of them points of the history in their order, the first and the last one among them. A shorter history, or a wish for
  less than three points, changes nothing.
\<close>

theorem DownsampleLTTB_correct:
  "(target < 3 \<or> int (length points) \<le> target \<longrightarrow> DownsampleLTTB points target = points) \<and>
   (\<not> (target < 3 \<or> int (length points) \<le> target) \<longrightarrow> (\<exists>ks. DownsampleLTTB points target = map ((!) points) ks \<and> int (length ks) = target \<and>
      sorted ks \<and> hd ks = 0 \<and> last ks = length points - 1 \<and> (\<forall>k\<in>set ks. k < length points)))"
proof (intro conjI impI)
  assume h: "\<not> (target < 3 \<or> int (length points) \<le> target)"
  define b where "b = nat target - 2"
  define ks where "ks = lttb_loop points b [0..<b] 0"
  have len: "b + 2 < length points" "0 < b" using h by (auto simp: b_def)
  have k: "length ks = b" "sorted ks" "\<forall>x\<in>set ks. x \<le> length points - 2"
    using lttb_loop_sorted [OF len(1), of 0 0] by (auto simp: ks_def)
  have "sorted (0 # ks @ [length points - 1])" using k(2,3) by (auto simp: sorted_append)
  moreover have "DownsampleLTTB points target = map ((!) points) (0 # ks @ [length points - 1])" using h by (simp add: DownsampleLTTB_def b_def ks_def Let_def)
  moreover have "int (length (0 # ks @ [length points - 1])) = target" using h k(1) by (simp add: b_def) arith
  moreover have "\<forall>x\<in>set (0 # ks @ [length points - 1]). x < length points" using k(3) len by fastforce
  ultimately show "\<exists>ks. DownsampleLTTB points target = map ((!) points) ks \<and> int (length ks) = target \<and>
      sorted ks \<and> hd ks = 0 \<and> last ks = length points - 1 \<and> (\<forall>k\<in>set ks. k < length points)"
    by (intro exI [of _ "0 # ks @ [length points - 1]"]) simp
qed (simp add: DownsampleLTTB_def)

definition peak :: "Metric list" where
  "peak = map (\<lambda>(t, v). \<lparr>met_Key = ''k'', met_Value = Fin v, met_Timestamp = t, met_Step = 0\<rparr>) [(0, 0), (1, 0), (2, 10), (3, 5), (4, 0)]"

text \<open>The bounds of neighbouring buckets overlap, so a point can be chosen twice.\<close>

lemma peak_twice: "map met_Timestamp (DownsampleLTTB peak 4) = [0, 2, 2, 4]"
  by code_simp

theorem DownsampleLTTB_correct_witness: "\<exists>ks. DownsampleLTTB peak 4 = map ((!) peak) ks \<and> length ks = 4 \<and> sorted ks \<and> hd ks = 0 \<and> last ks = 4"
  using DownsampleLTTB_correct [of 4 peak] by (auto simp: peak_def)

end
