(* ===== verification/RateLimit.thy ===== *)
theory RateLimit
  imports GoStd "HOL-Library.Word"
begin

text \<open>
  The limiter for authentication attempts (\<open>internal/server/ratelimit.go\<close>): a token bucket for each client, a sweep that forgets
  full buckets, and the key by which a client is known behind proxies. Times are nanoseconds; the numbers of tokens are exact
  (the code computes with \<open>float64\<close>). Addresses are as in \<open>net/netip\<close>; how a text is read as an address is a parameter.
\<close>

section \<open>Token buckets\<close>

record tokenBucket =
  tb_tokens :: rat
  tb_last :: int

record 'k authRateLimiter =
  rl_buckets :: "'k \<rightharpoonup> tokenBucket"
  rl_capacity :: rat
  rl_refill :: rat
  rl_lastSweep :: int

definition newAuthRateLimiter :: "rat \<Rightarrow> rat \<Rightarrow> int \<Rightarrow> 'k authRateLimiter" where
  "newAuthRateLimiter cap refillPerSec zeroTime =
     \<lparr>rl_buckets = Map.empty, rl_capacity = cap, rl_refill = refillPerSec, rl_lastSweep = zeroTime\<rparr>"

definition second :: int where
  "second = 10 ^ 9"

definition minute :: int where
  "minute = 60 * second"

definition seconds :: "int \<Rightarrow> rat" where
  "seconds d = of_int d / of_int second"

definition evictable :: "'k authRateLimiter \<Rightarrow> int \<Rightarrow> tokenBucket \<Rightarrow> bool" where
  "evictable rl n b \<longleftrightarrow> minute < n - tb_last b \<and> rl_capacity rl \<le> tb_tokens b + seconds (n - tb_last b) * rl_refill rl"

definition sweep :: "int \<Rightarrow> 'k authRateLimiter \<Rightarrow> 'k authRateLimiter" where
  "sweep n rl =
     (if n - rl_lastSweep rl < minute then rl
      else rl\<lparr>rl_lastSweep := n,
              rl_buckets := (\<lambda>k. case rl_buckets rl k of None \<Rightarrow> None | Some b \<Rightarrow> if evictable rl n b then None else Some b)\<rparr>)"

text \<open>The bucket of a client at the time \<open>n\<close>; a client that is not known starts with a full one.\<close>

definition refilled :: "'k authRateLimiter \<Rightarrow> int \<Rightarrow> 'k \<Rightarrow> tokenBucket" where
  "refilled rl n k = (case rl_buckets rl k of
     None \<Rightarrow> \<lparr>tb_tokens = rl_capacity rl, tb_last = n\<rparr>
   | Some b \<Rightarrow> \<lparr>tb_tokens = min (rl_capacity rl) (tb_tokens b + seconds (n - tb_last b) * rl_refill rl), tb_last = n\<rparr>)"

definition allow :: "'k \<Rightarrow> int \<Rightarrow> 'k authRateLimiter \<Rightarrow> bool \<times> 'k authRateLimiter" where
  "allow k n rl =
     (let b = refilled rl n k;
          rl' = sweep n (rl\<lparr>rl_buckets := (rl_buckets rl)(k \<mapsto> b)\<rparr>)
      in if tb_tokens b < 1 then (False, rl')
         else (True, rl'\<lparr>rl_buckets := (case rl_buckets rl' k of None \<Rightarrow> rl_buckets rl'
                | Some c \<Rightarrow> (rl_buckets rl')(k \<mapsto> c\<lparr>tb_tokens := tb_tokens c - 1\<rparr>))\<rparr>))"

section \<open>The contract of the limiter\<close>

text \<open>The tokens a client has at a time: what a limiter with a bucket for every client, and no sweep, keeps.\<close>

definition tokens_at :: "'k authRateLimiter \<Rightarrow> 'k \<Rightarrow> int \<Rightarrow> rat" where
  "tokens_at rl k n = tb_tokens (refilled rl n k)"

text \<open>The buckets hold no more than the capacity and were last touched before \<open>n\<close>.\<close>

definition limiter_ok :: "int \<Rightarrow> 'k authRateLimiter \<Rightarrow> bool" where
  "limiter_ok n rl \<longleftrightarrow> 1 \<le> rl_capacity rl \<and> 0 \<le> rl_refill rl \<and>
     (\<forall>k b. rl_buckets rl k = Some b \<longrightarrow> 0 \<le> tb_tokens b \<and> tb_tokens b \<le> rl_capacity rl \<and> tb_last b \<le> n)"

lemma seconds_nonneg: "0 \<le> d \<Longrightarrow> 0 \<le> seconds d"
  by (simp add: seconds_def second_def)

lemma seconds_add: "seconds (a + b) = seconds a + seconds b"
  by (simp add: seconds_def add_divide_distrib)

lemma seconds_split: "seconds (u - t) = seconds (u - n) + seconds (n - t)"
  using seconds_add [of "u - n" "n - t"] by simp

text \<open>The sweep cannot be noticed: a bucket that it removes is full, and so is a new one.\<close>

lemma tokens_at_sweep:
  assumes "limiter_ok n rl" and "n \<le> t"
  shows "tokens_at (sweep n rl) k t = tokens_at rl k t"
proof (cases "rl_buckets rl k")
  case (Some b)
  show ?thesis
  proof (cases "n - rl_lastSweep rl < minute \<or> \<not> evictable rl n b")
    case False
    have "0 \<le> seconds (t - n) * rl_refill rl" using assms by (simp add: limiter_ok_def seconds_nonneg)
    then have "rl_capacity rl \<le> tb_tokens b + seconds (t - tb_last b) * rl_refill rl"
      using False seconds_split [of t "tb_last b" n] by (simp add: evictable_def distrib_right)
    with False Some show ?thesis by (simp add: sweep_def tokens_at_def refilled_def min_def)
  qed (auto simp: sweep_def tokens_at_def refilled_def Some)
qed (simp add: sweep_def tokens_at_def refilled_def)

lemma limiter_ok_refilled:
  assumes "limiter_ok m rl" and "m \<le> n"
  shows "0 \<le> tb_tokens (refilled rl n k) \<and> tb_tokens (refilled rl n k) \<le> rl_capacity rl \<and> tb_last (refilled rl n k) = n"
proof (cases "rl_buckets rl k")
  case (Some b)
  then have "0 \<le> tb_tokens b" "0 \<le> seconds (n - tb_last b) * rl_refill rl" "0 \<le> rl_capacity rl"
    using assms by (fastforce simp: limiter_ok_def intro!: mult_nonneg_nonneg seconds_nonneg)+
  then show ?thesis by (simp add: refilled_def Some)
qed (use assms in \<open>simp add: refilled_def limiter_ok_def\<close>)

lemma limiter_ok_store:
  assumes "limiter_ok m rl" and "m \<le> n"
  shows "limiter_ok n (rl\<lparr>rl_buckets := (rl_buckets rl)(k \<mapsto> refilled rl n k)\<rparr>)"
  using assms limiter_ok_refilled [OF assms] by (fastforce simp: limiter_ok_def)

lemma limiter_ok_sweep: "limiter_ok n rl \<Longrightarrow> limiter_ok n (sweep n rl)"
  by (auto simp: limiter_ok_def sweep_def split: option.splits if_splits)

lemma sweep_keeps_fresh: "rl_buckets rl k = Some b \<Longrightarrow> tb_last b = n \<Longrightarrow> rl_buckets (sweep n rl) k = Some b"
  by (simp add: sweep_def evictable_def minute_def second_def)

lemma sweep_params [simp]: "rl_capacity (sweep n rl) = rl_capacity rl" "rl_refill (sweep n rl) = rl_refill rl"
  by (simp_all add: sweep_def)

lemma allow_eq:
  assumes "limiter_ok m rl" and "m \<le> n"
  shows "allow k n rl =
    (let ok = (1 \<le> tokens_at rl k n); rl' = sweep n (rl\<lparr>rl_buckets := (rl_buckets rl)(k \<mapsto> refilled rl n k)\<rparr>) in
     (ok, if ok then rl'\<lparr>rl_buckets := (rl_buckets rl')(k \<mapsto> (refilled rl n k)\<lparr>tb_tokens := tokens_at rl k n - 1\<rparr>)\<rparr> else rl'))"
proof -
  let ?rl = "sweep n (rl\<lparr>rl_buckets := (rl_buckets rl)(k \<mapsto> refilled rl n k)\<rparr>)"
  have "rl_buckets ?rl k = Some (refilled rl n k)" using limiter_ok_refilled [OF assms] by (intro sweep_keeps_fresh) simp_all
  then show ?thesis by (simp add: allow_def Let_def tokens_at_def not_less)
qed

lemma tokens_at_cong:
  "rl_buckets r j = rl_buckets s j \<Longrightarrow> rl_capacity r = rl_capacity s \<Longrightarrow> rl_refill r = rl_refill s \<Longrightarrow> tokens_at r j t = tokens_at s j t"
  by (cases "rl_buckets s j") (simp_all add: tokens_at_def refilled_def)

text \<open>One attempt, as the contract has it: it succeeds when a token is left, takes the token, and touches no other client.\<close>

lemma allow_contract:
  assumes "limiter_ok m rl" and "m \<le> n" and "allow k n rl = (ok, rl')"
  shows "ok \<longleftrightarrow> 1 \<le> tokens_at rl k n"
    and "limiter_ok n rl'"
    and "n \<le> t \<Longrightarrow> tokens_at rl' k t = min (rl_capacity rl) (tokens_at rl k n - (if ok then 1 else 0) + seconds (t - n) * rl_refill rl)"
    and "n \<le> t \<Longrightarrow> j \<noteq> k \<Longrightarrow> tokens_at rl' j t = tokens_at rl j t"
    and "rl_capacity rl' = rl_capacity rl" and "rl_refill rl' = rl_refill rl"
proof -
  let ?r1 = "rl\<lparr>rl_buckets := (rl_buckets rl)(k \<mapsto> refilled rl n k)\<rparr>"
  let ?rl = "sweep n ?r1"
  let ?b = "(refilled rl n k)\<lparr>tb_tokens := tokens_at rl k n - 1\<rparr>"
  note b = limiter_ok_refilled [OF assms(1,2), of k]
  note ok1 = limiter_ok_store [OF assms(1,2), of k]
  have bucket: "rl_buckets ?rl k = Some (refilled rl n k)" using b by (intro sweep_keeps_fresh) simp_all
  have eq: "ok = (1 \<le> tokens_at rl k n)" "rl' = (if ok then ?rl\<lparr>rl_buckets := (rl_buckets ?rl)(k \<mapsto> ?b)\<rparr> else ?rl)"
    using assms(3) unfolding allow_eq [OF assms(1,2)] by (auto simp: Let_def)
  show "ok \<longleftrightarrow> 1 \<le> tokens_at rl k n" by (rule eq(1))
  have okb: "0 \<le> tb_tokens ?b \<and> tb_tokens ?b \<le> rl_capacity rl \<and> tb_last ?b = n" if ok using that b eq(1) by (simp add: tokens_at_def)
  show "limiter_ok n rl'" using limiter_ok_sweep [OF ok1] okb unfolding eq(2) by (auto simp: limiter_ok_def)
  show "rl_capacity rl' = rl_capacity rl" "rl_refill rl' = rl_refill rl" by (simp_all add: eq(2))
  show "tokens_at rl' k t = min (rl_capacity rl) (tokens_at rl k n - (if ok then 1 else 0) + seconds (t - n) * rl_refill rl)" if "n \<le> t"
    unfolding eq(2) using b bucket by (simp add: tokens_at_def refilled_def [of _ t])
  show "tokens_at rl' j t = tokens_at rl j t" if "n \<le> t" "j \<noteq> k"
  proof -
    have "tokens_at ?rl j t = tokens_at ?r1 j t" by (rule tokens_at_sweep [OF ok1 that(1)])
    moreover have "tokens_at ?r1 j t = tokens_at rl j t" using that(2) by (intro tokens_at_cong) simp_all
    moreover have "tokens_at rl' j t = tokens_at ?rl j t" using that(2) by (intro tokens_at_cong) (simp_all add: eq(2))
    ultimately show ?thesis by simp
  qed
qed

section \<open>Sequences of attempts\<close>

fun attempts :: "('k \<times> int) list \<Rightarrow> 'k authRateLimiter \<Rightarrow> bool list \<times> 'k authRateLimiter" where
  "attempts [] rl = ([], rl)"
| "attempts ((k, n) # xs) rl =
     (let (ok, rl1) = allow k n rl; (oks, rl2) = attempts xs rl1 in (ok # oks, rl2))"

fun in_order :: "int \<Rightarrow> ('k \<times> int) list \<Rightarrow> bool" where
  "in_order m [] = True"
| "in_order m ((k, n) # xs) \<longleftrightarrow> m \<le> n \<and> in_order n xs"

definition allowed :: "'k \<Rightarrow> ('k \<times> int) list \<Rightarrow> bool list \<Rightarrow> nat" where
  "allowed k xs oks = length (filter (\<lambda>((j, _), ok). j = k \<and> ok) (zip xs oks))"

fun last_time :: "int \<Rightarrow> ('k \<times> int) list \<Rightarrow> int" where
  "last_time m [] = m"
| "last_time m ((k, n) # xs) = last_time n xs"

lemma allowed_simps [simp]:
  "allowed k [] [] = 0"
  "allowed k ((j, n) # xs) (ok # oks) = (if j = k \<and> ok then 1 else 0) + allowed k xs oks"
  by (simp_all add: allowed_def)

lemma tokens_at_range:
  "limiter_ok m rl \<Longrightarrow> m \<le> n \<Longrightarrow> 0 \<le> tokens_at rl k n \<and> tokens_at rl k n \<le> rl_capacity rl"
  unfolding tokens_at_def using limiter_ok_refilled [of m rl n k] by blast

lemma tokens_at_later:
  assumes "limiter_ok m rl" and "m \<le> n"
  shows "tokens_at rl k n \<le> tokens_at rl k m + seconds (n - m) * rl_refill rl"
proof (cases "rl_buckets rl k")
  case (Some b)
  have "0 \<le> seconds (n - m) * rl_refill rl" using assms by (simp add: limiter_ok_def seconds_nonneg)
  then show ?thesis using seconds_split [of n "tb_last b" m]
    by (simp add: tokens_at_def refilled_def Some distrib_right min_def)
qed (use assms in \<open>simp add: tokens_at_def refilled_def limiter_ok_def seconds_nonneg\<close>)

lemma attempts_balance:
  assumes "limiter_ok m rl" and "in_order m xs" and "attempts xs rl = (oks, rl')"
  shows "of_nat (allowed k xs oks) + tokens_at rl' k (last_time m xs) \<le> tokens_at rl k m + seconds (last_time m xs - m) * rl_refill rl"
  using assms
proof (induction xs arbitrary: m rl oks)
  case (Cons x xs)
  obtain j n where x: "x = (j, n)" by (cases x)
  obtain ok rl1 where a: "allow j n rl = (ok, rl1)" by (cases "allow j n rl")
  obtain os where r: "attempts xs rl1 = (os, rl')" and oks: "oks = ok # os"
    using Cons.prems(3) by (auto simp: x a split: prod.splits)
  have mn: "m \<le> n" "in_order n xs" using Cons.prems(2) by (simp_all add: x)
  note c = allow_contract [OF Cons.prems(1) mn(1) a]
  have step: "tokens_at rl1 k n + (if j = k \<and> ok then 1 else 0) \<le> tokens_at rl k n"
    using c(3) [of n] c(4) [of n k] tokens_at_range [OF Cons.prems(1) mn(1), of j] by (cases "j = k") (auto simp: seconds_def)
  have "of_nat (allowed k xs os) + tokens_at rl' k (last_time n xs) \<le> tokens_at rl1 k n + seconds (last_time n xs - n) * rl_refill rl1"
    by (rule Cons.IH [OF c(2) mn(2) r])
  moreover note tokens_at_later [OF Cons.prems(1) mn(1), of k]
  moreover have "seconds (last_time n xs - m) * rl_refill rl = seconds (last_time n xs - n) * rl_refill rl + seconds (n - m) * rl_refill rl"
    using seconds_split [of "last_time n xs" m n] by (simp add: distrib_right)
  ultimately show ?case using step c(6) by (cases "j = k \<and> ok") (auto simp: x oks)
qed (simp add: seconds_def)

lemma in_order_last: "in_order m xs \<Longrightarrow> m \<le> last_time m xs"
  by (induction m xs rule: in_order.induct) auto

lemma attempts_ok:
  "limiter_ok m rl \<Longrightarrow> in_order m xs \<Longrightarrow> attempts xs rl = (oks, rl') \<Longrightarrow> limiter_ok (last_time m xs) rl'"
proof (induction xs arbitrary: m rl oks)
  case (Cons x xs)
  obtain j n where x: "x = (j, n)" by (cases x)
  obtain ok rl1 where a: "allow j n rl = (ok, rl1)" by (cases "allow j n rl")
  obtain os where r: "attempts xs rl1 = (os, rl')" using Cons.prems(3) by (auto simp: x a split: prod.splits)
  have mn: "m \<le> n" "in_order n xs" using Cons.prems(2) by (simp_all add: x)
  from Cons.IH [OF allow_contract(2) [OF Cons.prems(1) mn(1) a] mn(2) r] show ?case by (simp add: x)
qed simp



section \<open>Client keys\<close>

text \<open>\<open>netip.Addr\<close>: an IPv4 address, or an IPv6 address with a zone. \<open>Unmap\<close> turns an IPv4-mapped IPv6 address into IPv4.\<close>

datatype addr = V4 "32 word" | V6 "128 word" string

datatype ip_prefix = P4 "32 word" nat | P6 "128 word" nat

datatype rate_key = HostKey string | V4Key "32 word" | V6Key "128 word"

record resolver =
  rs_SplitHost :: "string \<Rightarrow> string option"
  rs_ParseAddr :: "string \<Rightarrow> addr option"

fun unmap_addr :: "addr \<Rightarrow> addr" where
  "unmap_addr (V4 a) = V4 a"
| "unmap_addr (V6 a z) = (if drop_bit 32 a = 0xFFFF then V4 (ucast a) else V6 a [])"

definition ipKey :: "addr \<Rightarrow> rate_key" where
  "ipKey ip = (case unmap_addr ip of V4 a \<Rightarrow> V4Key a | V6 a _ \<Rightarrow> V6Key (drop_bit 64 a))"

fun prefix_contains :: "ip_prefix \<Rightarrow> addr \<Rightarrow> bool" where
  "prefix_contains (P4 base n) (V4 a) = (drop_bit (32 - n) base = drop_bit (32 - n) a)"
| "prefix_contains (P6 base n) (V6 a _) = (drop_bit (128 - n) base = drop_bit (128 - n) a)"
| "prefix_contains _ _ = False"

definition isTrusted :: "ip_prefix list \<Rightarrow> addr \<Rightarrow> bool" where
  "isTrusted trusted ip = list_ex (\<lambda>p. prefix_contains p (unmap_addr ip)) trusted"

text \<open>What the limiter reads of a request: the address of the peer and two headers.\<close>

record peer =
  pr_RemoteAddr :: string
  pr_ForwardedFor :: "string list"
  pr_RealIP :: string

definition remote_host :: "resolver \<Rightarrow> peer \<Rightarrow> string" where
  "remote_host rs r = (case rs_SplitHost rs (pr_RemoteAddr r) of Some h \<Rightarrow> h | None \<Rightarrow> pr_RemoteAddr r)"

definition clientIP :: "resolver \<Rightarrow> peer \<Rightarrow> rate_key" where
  "clientIP rs r = (case rs_ParseAddr rs (remote_host rs r) of None \<Rightarrow> HostKey (remote_host rs r) | Some ip \<Rightarrow> ipKey ip)"

text \<open>The hops from the right: the first one that is not a trusted proxy is the client; a hop that is no address ends the search.\<close>

fun first_untrusted :: "resolver \<Rightarrow> ip_prefix list \<Rightarrow> string list \<Rightarrow> addr option" where
  "first_untrusted rs trusted [] = None"
| "first_untrusted rs trusted (h # hs) =
     (case rs_ParseAddr rs (TrimSpace h) of None \<Rightarrow> None
      | Some ip \<Rightarrow> if isTrusted trusted ip then first_untrusted rs trusted hs else Some ip)"

definition clientKey :: "resolver \<Rightarrow> ip_prefix list \<Rightarrow> peer \<Rightarrow> rate_key" where
  "clientKey rs trusted r =
     (if trusted = [] then clientIP rs r
      else case rs_ParseAddr rs (remote_host rs r) of None \<Rightarrow> clientIP rs r
      | Some remote \<Rightarrow>
          if \<not> isTrusted trusted remote then clientIP rs r
          else if pr_ForwardedFor r \<noteq> [] then
            (case first_untrusted rs trusted (rev (split_on CHR '','' (join '','' (pr_ForwardedFor r)))) of
               Some ip \<Rightarrow> ipKey ip | None \<Rightarrow> ipKey remote)
          else case rs_ParseAddr rs (TrimSpace (pr_RealIP r)) of Some ip \<Rightarrow> ipKey ip | None \<Rightarrow> ipKey remote)"

lemma first_untrusted_proxies:
  "\<forall>h\<in>set hs. \<exists>ip. rs_ParseAddr rs (TrimSpace h) = Some ip \<and> isTrusted trusted ip \<Longrightarrow>
    first_untrusted rs trusted (hs @ rest) = first_untrusted rs trusted rest"
  by (induction hs) auto

text \<open>
  A client cannot choose the key under which its attempts are counted. Without a trusted proxy in front, the key comes from the
  connection alone; behind trusted proxies it is the address that the outermost of them saw, whatever the client wrote into the
  forwarding header before it. All addresses of one IPv6 network of 64 bits share a key.
\<close>

theorem clientKey_unspoofable:
  assumes "rs_ParseAddr rs (remote_host rs r) = Some remote"
  shows "(\<not> isTrusted trusted remote \<longrightarrow> clientKey rs trusted r = ipKey remote) \<and>
    (isTrusted trusted remote \<and> join '','' (pr_ForwardedFor r) = spoofed @ '','' @ join '','' (client # proxies) \<and>
      (\<forall>h\<in>set (client # proxies). CHR '','' \<notin> set h) \<and> rs_ParseAddr rs (TrimSpace client) = Some ip \<and> \<not> isTrusted trusted ip \<and>
      (\<forall>h\<in>set proxies. \<exists>q. rs_ParseAddr rs (TrimSpace h) = Some q \<and> isTrusted trusted q) \<longrightarrow> clientKey rs trusted r = ipKey ip) \<and>
    (drop_bit 64 a = drop_bit 64 b \<and> drop_bit 32 a \<noteq> 0xFFFF \<and> drop_bit 32 b \<noteq> 0xFFFF \<longrightarrow> ipKey (V6 a z) = ipKey (V6 b y))"
proof (intro conjI impI)
  have "isTrusted [] remote = False" by (simp add: isTrusted_def)
  then show "\<not> isTrusted trusted remote \<Longrightarrow> clientKey rs trusted r = ipKey remote" using assms by (simp add: clientKey_def clientIP_def)
  assume h: "isTrusted trusted remote \<and> join '','' (pr_ForwardedFor r) = spoofed @ '','' @ join '','' (client # proxies) \<and>
      (\<forall>h\<in>set (client # proxies). CHR '','' \<notin> set h) \<and> rs_ParseAddr rs (TrimSpace client) = Some ip \<and> \<not> isTrusted trusted ip \<and>
      (\<forall>h\<in>set proxies. \<exists>q. rs_ParseAddr rs (TrimSpace h) = Some q \<and> isTrusted trusted q)"
  then have "split_on CHR '','' (join '','' (pr_ForwardedFor r)) = split_on CHR '','' spoofed @ client # proxies"
    by (simp add: split_on_append split_on_join)
  then have "first_untrusted rs trusted (rev (split_on CHR '','' (join '','' (pr_ForwardedFor r)))) = Some ip"
    using h by (simp add: first_untrusted_proxies)
  moreover have "trusted \<noteq> []" "pr_ForwardedFor r \<noteq> []" using h by (auto simp: isTrusted_def)
  ultimately show "clientKey rs trusted r = ipKey ip" using assms h by (simp add: clientKey_def)
qed (simp add: ipKey_def)

definition sample_resolver :: resolver where
  "sample_resolver = \<lparr>rs_SplitHost = (\<lambda>_. None),
     rs_ParseAddr = (\<lambda>s. if s = ''proxy'' then Some (V4 10) else if s = ''client'' then Some (V4 99) else None)\<rparr>"

theorem clientKey_unspoofable_witness:
  "clientKey sample_resolver [P4 10 32] \<lparr>pr_RemoteAddr = ''proxy'', pr_ForwardedFor = [''fake'', ''client,proxy''], pr_RealIP = []\<rparr> = V4Key 99"
proof -
  let ?r = "\<lparr>pr_RemoteAddr = ''proxy'', pr_ForwardedFor = [''fake'', ''client,proxy''], pr_RealIP = []\<rparr>"
  have t: "TrimSpace ''client'' = ''client''" "TrimSpace ''proxy'' = ''proxy''" by (simp_all add: TrimSpace_def is_space_def)
  have "rs_ParseAddr sample_resolver (remote_host sample_resolver ?r) = Some (V4 10)" by (simp add: sample_resolver_def remote_host_def)
  moreover have "isTrusted [P4 10 32] (V4 10)" "\<not> isTrusted [P4 10 32] (V4 99)" by (simp_all add: isTrusted_def)
  moreover have "rs_ParseAddr sample_resolver (TrimSpace ''client'') = Some (V4 99)" "rs_ParseAddr sample_resolver (TrimSpace ''proxy'') = Some (V4 10)"
    by (simp_all add: t) (simp_all add: sample_resolver_def)
  ultimately have "clientKey sample_resolver [P4 10 32] ?r = ipKey (V4 99)"
    using clientKey_unspoofable [of sample_resolver ?r "V4 10" "[P4 10 32]" "''fake''" "''client''" "[''proxy'']" "V4 99" 0 0 "[]" "[]"] by simp
  then show ?thesis by (simp add: ipKey_def)
qed

end
