(* ===== verification/Egress.thy ===== *)
theory Egress
  imports RateLimit
begin

text \<open>
  The guard on outbound connections (\<open>internal/webhooks/egress.go\<close>): which addresses a request of the server must not reach, and the
  dialer that resolves a host itself and connects to allowed addresses only. The tests on addresses are those of package \<open>net\<close>; the
  resolver and the connection are parameters.
\<close>

unbundle bit_operations_syntax

section \<open>Addresses\<close>

text \<open>The bytes of an IPv4 address, and the first two bytes of an IPv6 address.\<close>

definition byte4 :: "nat \<Rightarrow> 32 word \<Rightarrow> nat" where
  "byte4 i a = unat (take_bit 8 (drop_bit (24 - 8 * i) a))"

definition byte6 :: "nat \<Rightarrow> 128 word \<Rightarrow> nat" where
  "byte6 i a = unat (take_bit 8 (drop_bit (120 - 8 * i) a))"

fun IsLoopback :: "addr \<Rightarrow> bool" where
  "IsLoopback (V4 a) = (byte4 0 a = 127)"
| "IsLoopback (V6 a _) = (a = 1)"

fun IsPrivate :: "addr \<Rightarrow> bool" where
  "IsPrivate (V4 a) \<longleftrightarrow> byte4 0 a = 10 \<or> byte4 0 a = 172 \<and> byte4 1 a AND 0xF0 = 16 \<or> byte4 0 a = 192 \<and> byte4 1 a = 168"
| "IsPrivate (V6 a _) \<longleftrightarrow> byte6 0 a AND 0xFE = 0xFC"

fun IsUnspecified :: "addr \<Rightarrow> bool" where
  "IsUnspecified (V4 a) = (a = 0)"
| "IsUnspecified (V6 a _) = (a = 0)"

fun IsMulticast :: "addr \<Rightarrow> bool" where
  "IsMulticast (V4 a) \<longleftrightarrow> byte4 0 a AND 0xF0 = 0xE0"
| "IsMulticast (V6 a _) \<longleftrightarrow> byte6 0 a = 0xFF"

fun IsLinkLocalUnicast :: "addr \<Rightarrow> bool" where
  "IsLinkLocalUnicast (V4 a) \<longleftrightarrow> byte4 0 a = 169 \<and> byte4 1 a = 254"
| "IsLinkLocalUnicast (V6 a _) \<longleftrightarrow> byte6 0 a = 0xFE \<and> byte6 1 a AND 0xC0 = 0x80"

fun IsLinkLocalMulticast :: "addr \<Rightarrow> bool" where
  "IsLinkLocalMulticast (V4 a) \<longleftrightarrow> byte4 0 a = 224 \<and> byte4 1 a = 0 \<and> byte4 2 a = 0"
| "IsLinkLocalMulticast (V6 a _) \<longleftrightarrow> byte6 0 a = 0xFF \<and> byte6 1 a AND 0x0F = 2"

fun IsInterfaceLocalMulticast :: "addr \<Rightarrow> bool" where
  "IsInterfaceLocalMulticast (V4 a) = False"
| "IsInterfaceLocalMulticast (V6 a _) \<longleftrightarrow> byte6 0 a = 0xFF \<and> byte6 1 a AND 0x0F = 1"

definition blockedV4Nets :: "ip_prefix list" where
  "blockedV4Nets = [P4 0 8, P4 0x64400000 10, P4 0xC0000000 24, P4 0xC6120000 15, P4 0xF0000000 4]"

definition nat64Net :: ip_prefix where
  "nat64Net = P6 0x0064FF9B000000000000000000000000 96"

definition sixTo4 :: ip_prefix where
  "sixTo4 = P6 0x20020000000000000000000000000000 16"

definition special :: "addr \<Rightarrow> bool" where
  "special ip \<longleftrightarrow> IsLoopback ip \<or> IsLinkLocalUnicast ip \<or> IsLinkLocalMulticast ip \<or> IsInterfaceLocalMulticast ip \<or>
     IsPrivate ip \<or> IsUnspecified ip \<or> IsMulticast ip"

text \<open>
  The methods of \<open>net.IP\<close> look at the IPv4 form of an address first, so the test works on the unmapped address. The embedded IPv4
  addresses are bytes 12 to 15 of a NAT64 address and bytes 2 to 5 of a 6to4 address.
\<close>

definition blocked4 :: "32 word \<Rightarrow> bool" where
  "blocked4 a \<longleftrightarrow> special (V4 a) \<or> a = 0xFFFFFFFF \<or> list_ex (\<lambda>p. prefix_contains p (V4 a)) blockedV4Nets"

definition IsBlockedIP :: "addr \<Rightarrow> bool" where
  "IsBlockedIP ip =
     (case unmap_addr ip of V4 a \<Rightarrow> blocked4 a
      | V6 a z \<Rightarrow>
          if special (V6 a z) then True
          else if prefix_contains nat64Net (V6 a z) then blocked4 (ucast a)
          else if prefix_contains sixTo4 (V6 a z) then blocked4 (ucast (drop_bit 80 a))
          else False)"

section \<open>The guarded dialer\<close>

text \<open>The addresses that are dialed, in order, and the connection; the error is the last one.\<close>

fun dial_first :: "(addr \<Rightarrow> 'e + 'c) \<Rightarrow> 'e \<Rightarrow> addr list \<Rightarrow> 'e \<Rightarrow> addr list \<times> ('e + 'c)" where
  "dial_first dial blockedErr [] lastErr = ([], Inl lastErr)"
| "dial_first dial blockedErr (ip # ips) lastErr =
     (if IsBlockedIP ip then dial_first dial blockedErr ips blockedErr
      else case dial ip of
        Inr c \<Rightarrow> ([ip], Inr c)
      | Inl e \<Rightarrow> (case dial_first dial blockedErr ips e of (tried, r) \<Rightarrow> (ip # tried, r)))"

definition guardedDialContext :: "bool \<Rightarrow> bool \<Rightarrow> (addr \<Rightarrow> 'e + 'c) \<Rightarrow> 'e \<Rightarrow> 'e \<Rightarrow> ('e + addr list) \<Rightarrow> ('e + 'c) \<Rightarrow> addr list \<times> ('e + 'c)" where
  "guardedDialContext allowPrivate isProxy dial blockedErr noAddr resolved direct =
     (if allowPrivate \<or> isProxy then ([], direct)
      else case resolved of Inl e \<Rightarrow> ([], Inl e) | Inr ips \<Rightarrow> dial_first dial blockedErr ips noAddr)"

section \<open>Safety\<close>

definition mapped :: "32 word \<Rightarrow> addr" where
  "mapped a = V6 (push_bit 32 0xFFFF OR ucast a) []"

definition nat64 :: "32 word \<Rightarrow> addr" where
  "nat64 a = V6 (push_bit 32 0x0064FF9B0000000000000000 OR ucast a) []"

definition six_to_four :: "32 word \<Rightarrow> 80 word \<Rightarrow> addr" where
  "six_to_four a rest = V6 (push_bit 112 0x2002 OR push_bit 80 (ucast a) OR ucast rest) []"

text \<open>Taking an embedded address out again.\<close>

lemma low_part: "ucast (push_bit 32 x OR ucast a :: 128 word) = (a :: 32 word)"
  by (rule bit_word_eqI) (auto simp: bit_simps dest: bit_imp_le_length)

lemma high_part: "drop_bit 32 (push_bit 32 x OR ucast (a :: 32 word) :: 128 word) = take_bit 96 x"
  by (rule bit_word_eqI) (auto simp: bit_simps dest: bit_imp_le_length)

lemma six_to_four_prefix: "drop_bit 112 (push_bit 112 x OR push_bit 80 (ucast (a :: 32 word)) OR ucast (r :: 80 word) :: 128 word) = take_bit 16 x"
  by (rule bit_word_eqI) (auto simp: bit_simps dest: bit_imp_le_length)

lemma six_to_four_host: "ucast (drop_bit 80 (push_bit 112 x OR push_bit 80 (ucast a) OR ucast (r :: 80 word) :: 128 word)) = (a :: 32 word)"
  by (rule bit_word_eqI) (auto simp: bit_simps dest: bit_imp_le_length)

lemma mapped_blocked: "IsBlockedIP (V4 a) \<Longrightarrow> IsBlockedIP (mapped a)"
  using low_part [of "0xFFFF" a] high_part [of "0xFFFF" a] unfolding mapped_def IsBlockedIP_def unmap_addr.simps
  by (simp only: addr.case if_True simp_thms) simp

text \<open>An IPv6 address that is not mapped, in terms of its upper 96 bits.\<close>

lemma blocked_v6:
  "drop_bit 32 x \<noteq> 0xFFFF \<Longrightarrow> IsBlockedIP (V6 x z) = (special (V6 x []) \<or>
    (if prefix_contains nat64Net (V6 x []) then blocked4 (ucast x) else prefix_contains sixTo4 (V6 x []) \<and> blocked4 (ucast (drop_bit 80 x))))"
  by (auto simp: IsBlockedIP_def)

lemma v6_prefixes: "prefix_contains (P6 base 96) (V6 x z) = (drop_bit 32 base = drop_bit 32 x)"
    "prefix_contains (P6 base 16) (V6 x z) = (drop_bit 112 base = drop_bit 112 x)"
  by simp_all

lemma nat64_blocked: "IsBlockedIP (V4 a) \<Longrightarrow> IsBlockedIP (nat64 a)"
proof -
  let ?x = "push_bit 32 0x0064FF9B0000000000000000 OR ucast a :: 128 word"
  have h: "drop_bit 32 ?x = 0x0064FF9B0000000000000000" unfolding high_part by simp
  then have "prefix_contains nat64Net (V6 ?x [])" unfolding nat64Net_def v6_prefixes h by simp
  moreover have "drop_bit 32 ?x \<noteq> 0xFFFF" unfolding h by simp
  ultimately show "IsBlockedIP (V4 a) \<Longrightarrow> IsBlockedIP (nat64 a)"
    unfolding nat64_def by (simp only: blocked_v6 low_part if_True simp_thms) (simp add: IsBlockedIP_def)
qed

lemma six_to_four_blocked: "IsBlockedIP (V4 a) \<Longrightarrow> IsBlockedIP (six_to_four a rest)"
proof -
  let ?x = "push_bit 112 0x2002 OR push_bit 80 (ucast a) OR ucast rest :: 128 word"
  have p: "drop_bit 112 ?x = 0x2002" unfolding six_to_four_prefix by simp
  have twice: "drop_bit 80 (drop_bit 32 x) = drop_bit 112 x" for x :: "128 word" by (simp add: drop_bit_drop_bit)
  have q: "drop_bit 80 (drop_bit 32 ?x) = 0x2002" by (rule trans [OF twice p])
  have no: "drop_bit 32 ?x \<noteq> y" if "drop_bit 80 y \<noteq> 0x2002" for y
  proof
    assume e: "drop_bit 32 ?x = y"
    from q that show False unfolding e by blast
  qed
  have n1: "drop_bit 32 ?x \<noteq> 0xFFFF" by (rule no) simp
  have "drop_bit 32 ?x \<noteq> drop_bit 32 0x0064FF9B000000000000000000000000" by (rule no) simp
  then have n2: "\<not> prefix_contains nat64Net (V6 ?x [])" unfolding nat64Net_def v6_prefixes by (rule not_sym)
  have "prefix_contains sixTo4 (V6 ?x [])" unfolding sixTo4_def v6_prefixes p by simp
  with n1 n2 show "IsBlockedIP (V4 a) \<Longrightarrow> IsBlockedIP (six_to_four a rest)"
    unfolding six_to_four_def by (simp only: blocked_v6 six_to_four_host if_False simp_thms) (simp add: IsBlockedIP_def)
qed

lemma dial_first_tried:
  "dial_first dial blockedErr ips lastErr = (tried, r) \<Longrightarrow> (\<forall>a\<in>set tried. a \<in> set ips \<and> \<not> IsBlockedIP a) \<and>
    (\<forall>c. r = Inr c \<longrightarrow> tried \<noteq> [] \<and> dial (last tried) = Inr c)"
proof (induction ips arbitrary: lastErr tried r)
  case (Cons ip ips)
  show ?case
  proof (cases "IsBlockedIP ip")
    case True
    with Cons show ?thesis by fastforce
  next
    case False
    with Cons show ?thesis by (cases "dial ip") (fastforce split: prod.splits)+
  qed
qed simp



end
