(* ===== verification/Access.thy ===== *)
theory Access
  imports RateLimit Sessions Workspaces Sha256
begin

text \<open>
  Access control of the server (\<open>internal/server/middleware.go\<close>, \<open>rbac.go\<close>, \<open>grpc_auth.go\<close>, \<open>internal/auth/password.go\<close>): the
  middlewares that a request passes before it reaches a handler. A middleware answers the request or passes it on, with the
  identity, workspace and role it found. The comparison with a bcrypt hash and the decoding of base64 are parameters; a lookup in the store that fails for another
  reason than a missing row is not modelled. \<open>TouchSession\<close>, which the code runs in the background, runs at once.
\<close>

section \<open>Paths and roles\<close>

definition isPublicPath :: "string \<Rightarrow> bool" where
  "isPublicPath p \<longleftrightarrow>
     p \<in> set [''/healthz'', ''/readyz'', ''/version'', ''/metrics''] \<or>
     HasPrefix p ''/ui/'' \<or> p = ''/ui'' \<or> p = ''/'' \<or>
     p \<in> set [''/api/v1/auth/login'', ''/api/v1/auth/logout'', ''/api/v1/auth/oidc/start'', ''/api/v1/auth/oidc/callback''] \<or>
     p \<in> set [''/api/v1/federate/echo'', ''/api/v1/federate/search'']"

definition isWorkspaceAgnosticPath :: "string \<Rightarrow> bool" where
  "isWorkspaceAgnosticPath p = (if p \<in> set [''/api/v1/federate/echo'', ''/api/v1/federate/search''] then False else isPublicPath p)"

definition requiredRole :: "string \<Rightarrow> string \<Rightarrow> string" where
  "requiredRole meth path =
     (if path = ''/api/v1/workspaces'' \<and> meth = ''POST'' then ''admin''
      else if HasPrefix path ''/api/v1/workspaces/'' \<and>
        (Contains path ''/members'' \<and> (meth = ''PUT'' \<or> meth = ''DELETE'') \<or> meth = ''PATCH'' \<or> meth = ''DELETE'') then ''admin''
      else if HasPrefix path ''/api/v1/federate/peers'' \<and> meth \<noteq> ''GET'' then ''admin''
      else if HasPrefix path ''/api/2.0/mlflow/'' \<and> (meth = ''POST'' \<or> meth = ''PUT'' \<or> meth = ''DELETE'') then ''editor''
      else if meth = ''POST'' \<and> (HasPrefix path ''/api/v1/traces'' \<or> HasPrefix path ''/api/v1/prompts'' \<or>
        HasPrefix path ''/api/v1/evals'' \<or> HasPrefix path ''/v1/traces'') then ''editor''
      else if path = ''/api/v1/analytics/query'' then ''viewer''
      else if path \<in> set [''/healthz'', ''/readyz'', ''/version'', ''/metrics''] then []
      else if HasPrefix path ''/ui/'' \<or> path = ''/ui'' \<or> path = ''/'' then []
      else if HasPrefix path ''/api/v1/auth/'' then []
      else if path \<in> set [''/api/v1/federate/echo'', ''/api/v1/federate/search''] then []
      else if meth \<in> set [''POST'', ''PUT'', ''PATCH'', ''DELETE''] \<and>
        (HasPrefix path ''/api/v1/'' \<or> HasPrefix path ''/api/2.0/mlflow/'' \<or> HasPrefix path ''/api/2.0/mlflow-artifacts/'' \<or> HasPrefix path ''/v1/'')
        then ''editor''
      else if meth = ''GET'' \<and> (HasPrefix path ''/api/2.0/mlflow/'' \<or> HasPrefix path ''/api/2.0/mlflow-artifacts/'' \<or> HasPrefix path ''/api/v1/'')
        then ''viewer''
      else [])"

definition role_rank :: "string \<Rightarrow> nat" where
  "role_rank r = (if r = ''viewer'' then 1 else if r = ''editor'' then 2 else if r = ''admin'' then 3 else 0)"

definition roleAtLeast :: "string \<Rightarrow> string \<Rightarrow> bool" where
  "roleAtLeast actual needed \<longleftrightarrow> role_rank needed \<le> role_rank actual"

text \<open>The workspace a path names: the part between \<open>/api/v1/workspaces/\<close> and the next slash.\<close>

definition workspacePathTarget :: "string \<Rightarrow> string" where
  "workspacePathTarget p =
     (if HasPrefix p ''/api/v1/workspaces/'' then
        let i = takeWhile (\<lambda>c. c \<noteq> CHR ''/'') (TrimPrefix p ''/api/v1/workspaces/'') in if i = ''current'' then [] else i
      else [])"

section \<open>Passwords\<close>

definition isBcryptHash :: "string \<Rightarrow> bool" where
  "isBcryptHash s \<longleftrightarrow> HasPrefix s ''$2a$'' \<or> HasPrefix s ''$2b$'' \<or> HasPrefix s ''$2y$''"

definition hex_value :: "char \<Rightarrow> nat option" where
  "hex_value c =
     (if 48 \<le> byte c \<and> byte c \<le> 57 then Some (byte c - 48)
      else if 97 \<le> byte c \<and> byte c \<le> 102 then Some (byte c - 87)
      else if 65 \<le> byte c \<and> byte c \<le> 70 then Some (byte c - 55) else None)"

fun hex_decode :: "string \<Rightarrow> 8 word list option" where
  "hex_decode [] = Some []"
| "hex_decode [c] = None"
| "hex_decode (c # d # cs) =
     (case hex_value c of None \<Rightarrow> None | Some h \<Rightarrow> (case hex_value d of None \<Rightarrow> None
      | Some l \<Rightarrow> map_option (Cons (of_nat (16 * h + l))) (hex_decode cs)))"

definition bytes_of :: "string \<Rightarrow> 8 word list" where
  "bytes_of s = map (\<lambda>c. of_nat (byte c)) s"

definition verifyPasswordHash :: "(string \<Rightarrow> string \<Rightarrow> bool) \<Rightarrow> string \<Rightarrow> string \<Rightarrow> bool" where
  "verifyPasswordHash bcrypt wantHash gotPass =
     (if isBcryptHash wantHash then bcrypt wantHash gotPass
      else case hex_decode wantHash of None \<Rightarrow> False
      | Some want \<Rightarrow> length want = 32 \<and> want = sha256 (bytes_of gotPass))"

definition VerifyBasicCredentials :: "(string \<Rightarrow> string \<Rightarrow> bool) \<Rightarrow> string \<Rightarrow> string \<Rightarrow> string \<Rightarrow> string \<Rightarrow> bool" where
  "VerifyBasicCredentials bcrypt wantUser wantHash gotUser gotPass \<longleftrightarrow> gotUser = wantUser \<and> verifyPasswordHash bcrypt wantHash gotPass"

section \<open>Requests\<close>

text \<open>
  A request as the middlewares see it. \<open>rq_Header\<close> gives the empty text for a header that is not there; \<open>rq_BasicAuth\<close> is what
  \<open>r.BasicAuth()\<close> returns. The last four fields are the values in the context.
\<close>

record request =
  rq_Method :: string
  rq_EscapedPath :: string
  rq_Path :: string
  rq_URI :: string
  rq_Header :: "string \<Rightarrow> string"
  rq_Cookie :: "string \<Rightarrow> string option"
  rq_BasicAuth :: "(string \<times> string) option"
  rq_Peer :: peer
  rq_Time :: int
  cx_User :: "string option"
  cx_Session :: "Session option"
  cx_Workspace :: "string option"
  cx_Role :: "string option"

record config =
  cf_Auth :: string
  cf_BasicUser :: string
  cf_BasicPassHash :: string
  cf_Trusted :: "ip_prefix list"

record server =
  sv_db :: db
  sv_limiter :: "rate_key authRateLimiter"

record environment =
  ev_bcrypt :: "string \<Rightarrow> string \<Rightarrow> bool"
  ev_resolver :: resolver
  ev_base64 :: "string \<Rightarrow> string option"
  ev_low :: "nat \<Rightarrow> nat"

datatype outcome = Passed request | Answer nat string | Redirect string

type_synonym middleware = "request \<Rightarrow> server \<Rightarrow> outcome \<times> server"

definition set_header :: "string \<Rightarrow> string \<Rightarrow> request \<Rightarrow> request" where
  "set_header h v r = r\<lparr>rq_Header := (rq_Header r)(h := v)\<rparr>"

definition run_op :: "'a op \<Rightarrow> server \<Rightarrow> (err + 'a) \<times> server" where
  "run_op m sv = (case m (sv_db sv) of (x, s) \<Rightarrow> (x, sv\<lparr>sv_db := s\<rparr>))"

section \<open>The middlewares\<close>

fun PathUnescape :: "string \<Rightarrow> string option" where
  "PathUnescape [] = Some []"
| "PathUnescape (c # cs) =
     (if c = CHR ''%'' then
        (case cs of h # l # rest \<Rightarrow>
           (case hex_value h of None \<Rightarrow> None | Some a \<Rightarrow> (case hex_value l of None \<Rightarrow> None
            | Some b \<Rightarrow> map_option (Cons (char_of (16 * a + b))) (PathUnescape rest)))
         | _ \<Rightarrow> None)
      else map_option (Cons c) (PathUnescape cs))"

definition apiV2AliasMiddleware :: middleware where
  "apiV2AliasMiddleware r sv =
     (if HasPrefix (rq_EscapedPath r) ''/api/v2/'' then
        let esc = ''/api/v1/'' @ drop 8 (rq_EscapedPath r) in
        case PathUnescape esc of Some p \<Rightarrow> (Passed (r\<lparr>rq_EscapedPath := esc, rq_Path := p\<rparr>), sv)
        | None \<Rightarrow> (Answer 400 [], sv)
      else (Passed r, sv))"

definition isRateLimitedAuthPath :: "request \<Rightarrow> bool" where
  "isRateLimitedAuthPath r \<longleftrightarrow> rq_Method r = ''POST'' \<and> rq_Path r = ''/api/v1/auth/login''"

definition take_token :: "environment \<Rightarrow> config \<Rightarrow> request \<Rightarrow> server \<Rightarrow> bool \<times> server" where
  "take_token ev cfg r sv =
     (case allow (clientKey (ev_resolver ev) (cf_Trusted cfg) (rq_Peer r)) (rq_Time r) (sv_limiter sv) of (ok, rl) \<Rightarrow> (ok, sv\<lparr>sv_limiter := rl\<rparr>))"

definition rateLimitAuthMiddleware :: "environment \<Rightarrow> config \<Rightarrow> middleware" where
  "rateLimitAuthMiddleware ev cfg r sv =
     (if isRateLimitedAuthPath r then
        (case take_token ev cfg r sv of (ok, sv') \<Rightarrow> if ok then (Passed r, sv') else (Answer 429 ''RESOURCE_EXHAUSTED'', sv'))
      else (Passed r, sv))"

definition SessionCookieName :: string where
  "SessionCookieName = ''lmf_session''"

definition GetSessionID :: "request \<Rightarrow> string option" where
  "GetSessionID r = (case rq_Cookie r SessionCookieName of None \<Rightarrow> None | Some v \<Rightarrow> if v = [] then None else Some v)"

definition touch_session :: "string \<Rightarrow> unit op" where
  "touch_session i = bnd now (\<lambda>n. catch (TouchSession i n) (\<lambda>_. ret ()))"

definition session_identity :: "request \<Rightarrow> server \<Rightarrow> Session option \<times> server" where
  "session_identity r sv =
     (case GetSessionID r of None \<Rightarrow> (None, sv)
      | Some i \<Rightarrow> (case run_op (GetSession i) sv of
          (Inl _, sv') \<Rightarrow> (None, sv')
        | (Inr sess, sv') \<Rightarrow> (Some sess, snd (run_op (touch_session i) sv'))))"

definition strip_identity :: "request \<Rightarrow> request" where
  "strip_identity r = set_header ''X-LiteMLflow-Role'' [] (set_header ''X-LiteMLflow-Auth-Method'' [] (set_header ''X-LiteMLflow-User'' [] r))"

definition identified :: "string \<Rightarrow> request \<Rightarrow> request" where
  "identified user r = (set_header ''X-LiteMLflow-User'' user r)\<lparr>cx_User := Some user\<rparr>"

definition authMiddlewareWithSessions :: "environment \<Rightarrow> config \<Rightarrow> middleware" where
  "authMiddlewareWithSessions ev cfg r0 sv0 =
     (let r = strip_identity r0 in
      if isPublicPath (rq_Path r) then (Passed r, sv0)
      else case session_identity r sv0 of
        (Some sess, sv) \<Rightarrow> (Passed (set_header ''X-LiteMLflow-Auth-Method'' (ses_AuthMethod sess) (identified (ses_UserID sess) r)\<lparr>cx_Session := Some sess\<rparr>), sv)
      | (None, sv) \<Rightarrow>
          if cf_Auth cfg = ''none'' then (Passed (identified ''anonymous'' r), sv)
          else if cf_Auth cfg = ''basic'' then
            (case rq_BasicAuth r of None \<Rightarrow> (Answer 401 ''UNAUTHENTICATED'', sv)
             | Some (user, pass) \<Rightarrow>
                 if VerifyBasicCredentials (ev_bcrypt ev) (cf_BasicUser cfg) (cf_BasicPassHash cfg) user pass
                 then (Passed (set_header ''X-LiteMLflow-Auth-Method'' ''basic'' (identified user r)), sv)
                 else case take_token ev cfg r sv of (ok, sv') \<Rightarrow>
                   if ok then (Answer 401 ''UNAUTHENTICATED'', sv') else (Answer 429 ''RESOURCE_EXHAUSTED'', sv'))
          else if cf_Auth cfg = ''oidc'' then
            (if Contains (rq_Header r ''Accept'') ''text/html'' then (Redirect (rq_URI r), sv) else (Answer 401 ''UNAUTHENTICATED'', sv))
          else (Answer 500 ''INTERNAL_ERROR'', sv))"

definition requested_workspace :: "request \<Rightarrow> string" where
  "requested_workspace r =
     (let h = rq_Header r ''X-Workspace'';
          c = (if h = [] then (case rq_Cookie r ''lmf_workspace'' of Some v \<Rightarrow> v | None \<Rightarrow> []) else h)
      in if c = [] then ''default'' else c)"

definition in_workspace_ctx :: "string \<Rightarrow> request \<Rightarrow> request" where
  "in_workspace_ctx ws r = (set_header ''X-LiteMLflow-Workspace'' ws r)\<lparr>cx_Workspace := Some ws\<rparr>"

definition workspaceMiddleware :: middleware where
  "workspaceMiddleware r sv =
     (let ws = requested_workspace r in
      if ws = ''default'' then (Passed (in_workspace_ctx ws r), sv)
      else case run_op (GetWorkspace ws) sv of
        (Inr _, sv') \<Rightarrow> (Passed (in_workspace_ctx ws r), sv')
      | (Inl _, sv') \<Rightarrow> if isWorkspaceAgnosticPath (rq_Path r) then (Passed (in_workspace_ctx ''default'' r), sv')
          else (Answer 400 ''INVALID_PARAMETER_VALUE'', sv'))"

definition with_role :: "string \<Rightarrow> request \<Rightarrow> request" where
  "with_role role r = (set_header ''X-LiteMLflow-Role'' role r)\<lparr>cx_Role := Some role\<rparr>"

text \<open>The role of the user in a workspace decides: 403 for a stranger and for a role that is too low.\<close>

definition check_role :: "string \<Rightarrow> string \<Rightarrow> middleware" where
  "check_role ws user r sv =
     (case run_op (GetMemberRole ws user) sv of
        (Inl _, sv') \<Rightarrow> (Answer 403 ''PERMISSION_DENIED'', sv')
      | (Inr role, sv') \<Rightarrow>
          let needed = requiredRole (rq_Method r) (rq_Path r) in
          if needed \<noteq> [] \<and> \<not> roleAtLeast role needed then (Answer 403 ''PERMISSION_DENIED'', sv')
          else (Passed (with_role role r), sv'))"

definition current_user :: "request \<Rightarrow> string" where
  "current_user r = (case cx_User r of Some u \<Rightarrow> if u = [] then rq_Header r ''X-LiteMLflow-User'' else u | None \<Rightarrow> rq_Header r ''X-LiteMLflow-User'')"

definition rbacMiddleware :: "config \<Rightarrow> middleware" where
  "rbacMiddleware cfg r sv =
     (if cf_Auth cfg = ''none'' then (Passed r, sv)
      else if isPublicPath (rq_Path r) then (Passed r, sv)
      else
        let ws = (case cx_Workspace r of Some w \<Rightarrow> if w = [] then ''default'' else w | None \<Rightarrow> ''default'');
            user = current_user r;
            target = workspacePathTarget (rq_Path r)
        in if target \<noteq> [] \<and> target \<noteq> ws \<and> ListMembers target (sv_db sv) \<noteq> [] then check_role target user r sv
           else if ws = ''default'' \<and> ListMembers ws (sv_db sv) = [] then (Passed r, sv)
           else check_role ws user r sv)"

definition chain :: "middleware \<Rightarrow> middleware \<Rightarrow> middleware" where
  "chain f g r sv = (case f r sv of (Passed r', sv') \<Rightarrow> g r' sv' | x \<Rightarrow> x)"

text \<open>The order in which \<open>buildRouter\<close> installs them.\<close>

definition buildRouter :: "environment \<Rightarrow> config \<Rightarrow> middleware" where
  "buildRouter ev cfg =
     chain apiV2AliasMiddleware (chain (rateLimitAuthMiddleware ev cfg) (chain (authMiddlewareWithSessions ev cfg)
       (chain workspaceMiddleware (rbacMiddleware cfg))))"

section \<open>Sizes of requests\<close>

definition isArtifactUploadPath :: "string \<Rightarrow> string \<Rightarrow> bool" where
  "isArtifactUploadPath meth path \<longleftrightarrow> (meth = ''POST'' \<or> meth = ''PUT'') \<and> HasPrefix path ''/api/2.0/mlflow-artifacts/artifacts''"

definition isLargeUploadPath :: "string \<Rightarrow> string \<Rightarrow> bool" where
  "isLargeUploadPath meth path =
     (if meth \<noteq> ''POST'' \<and> meth \<noteq> ''PUT'' then False
      else if meth = ''POST'' \<and> HasPrefix path ''/api/v1/datasets/'' \<and> HasSuffix path ''/versions'' then True
      else HasPrefix path ''/api/2.0/mlflow-artifacts/artifacts'')"

definition isLargeTransferPath :: "string \<Rightarrow> string \<Rightarrow> bool" where
  "isLargeTransferPath meth path =
     (isLargeUploadPath meth path \<or> meth = ''GET'' \<and> HasPrefix path ''/api/2.0/mlflow-artifacts/artifacts/'')"

text \<open>The limit that \<open>bodyLimitMiddleware\<close> puts on the body; \<open>None\<close> is no limit.\<close>

definition bodyLimitMiddleware :: "int \<Rightarrow> int \<Rightarrow> request \<Rightarrow> int option" where
  "bodyLimitMiddleware maxBytes maxArtifactBytes r =
     (let limit = (if isLargeUploadPath (rq_Method r) (rq_Path r)
                   then if isArtifactUploadPath (rq_Method r) (rq_Path r) then maxArtifactBytes else 0 else maxBytes)
      in if 0 < limit then Some limit else None)"

lemma bodyLimit_bounded:
  assumes "0 < maxBytes" and "0 < maxArtifactBytes" and "bodyLimitMiddleware maxBytes maxArtifactBytes r = None"
  shows "rq_Method r = ''POST'' \<and> HasPrefix (rq_Path r) ''/api/v1/datasets/'' \<and> HasSuffix (rq_Path r) ''/versions''"
  using assms by (auto simp: bodyLimitMiddleware_def isLargeUploadPath_def isArtifactUploadPath_def Let_def split: if_splits)

definition metricsMethod :: "string \<Rightarrow> string" where
  "metricsMethod m = (if m \<in> set [''GET'', ''HEAD'', ''POST'', ''PUT'', ''PATCH'', ''DELETE'', ''OPTIONS''] then m else ''OTHER'')"

section \<open>The gRPC receiver\<close>

definition cut_at :: "string \<Rightarrow> string \<Rightarrow> (string \<times> string) option" where
  "cut_at s sep = (case Index s sep of None \<Rightarrow> None | Some i \<Rightarrow> Some (take i s, drop (i + length sep) s))"

definition grpcAuthenticator :: "environment \<Rightarrow> config \<Rightarrow> string \<Rightarrow> server \<Rightarrow> string option \<times> server" where
  "grpcAuthenticator ev cfg authorization sv =
     (case cut_at (TrimSpace authorization) '' '' of None \<Rightarrow> (None, sv)
      | Some (scheme, rest) \<Rightarrow>
          let cred = TrimSpace rest in
          if cred = [] then (None, sv)
          else if ToLower (ev_low ev) scheme = ''bearer'' then
            (case run_op (GetSession cred) sv of (Inl _, sv') \<Rightarrow> (None, sv') | (Inr sess, sv') \<Rightarrow> (Some (ses_UserID sess), sv'))
          else if ToLower (ev_low ev) scheme = ''basic'' then
            (if cf_Auth cfg \<noteq> ''basic'' then (None, sv)
             else case ev_base64 ev cred of None \<Rightarrow> (None, sv)
             | Some raw \<Rightarrow> (case cut_at raw '':'' of None \<Rightarrow> (None, sv)
                 | Some (user, pass) \<Rightarrow>
                     if VerifyBasicCredentials (ev_bcrypt ev) (cf_BasicUser cfg) (cf_BasicPassHash cfg) user pass then (Some user, sv) else (None, sv)))
          else (None, sv))"

definition grpcAuthorizer :: "string \<Rightarrow> string \<Rightarrow> server \<Rightarrow> bool \<times> server" where
  "grpcAuthorizer ws user sv =
     (if ws = ''default'' \<and> ListMembers ws (sv_db sv) = [] then (True, sv)
      else case run_op (GetMemberRole ws user) sv of
        (Inl _, sv') \<Rightarrow> (False, sv')
      | (Inr role, sv') \<Rightarrow> (roleAtLeast role (requiredRole ''POST'' ''/v1/traces''), sv'))"

section \<open>What the middlewares leave alone\<close>

lemma run_GetMemberRole:
  "run_op (GetMemberRole ws u) sv =
     (case first_row (\<lambda>m. wm_workspace_id m = ws \<and> wm_user_id m = u) (workspace_members (sv_db sv)) of
        None \<Rightarrow> (Inl ErrNotFound, sv) | Some m \<Rightarrow> (Inr (wm_role m), sv))"
  by (simp add: run_op_def GetMemberRole_def sem_simps split: option.split)

lemma run_GetWorkspace:
  "run_op (GetWorkspace ws) sv =
     (case first_row (\<lambda>w. w_id w = ws) (workspaces (sv_db sv)) of None \<Rightarrow> (Inl ErrNotFound, sv) | Some w \<Rightarrow> (Inr (workspace_of_row w), sv))"
  by (simp add: run_op_def GetWorkspace_def scanWorkspace_def sem_simps split: option.split)

lemma set_header_simps [simp]:
  "rq_Method (set_header h v r) = rq_Method r" "rq_Path (set_header h v r) = rq_Path r" "rq_URI (set_header h v r) = rq_URI r"
  "rq_EscapedPath (set_header h v r) = rq_EscapedPath r" "rq_Cookie (set_header h v r) = rq_Cookie r"
  "rq_BasicAuth (set_header h v r) = rq_BasicAuth r" "rq_Peer (set_header h v r) = rq_Peer r" "rq_Time (set_header h v r) = rq_Time r"
  "cx_User (set_header h v r) = cx_User r" "cx_Session (set_header h v r) = cx_Session r" "cx_Workspace (set_header h v r) = cx_Workspace r"
  "cx_Role (set_header h v r) = cx_Role r" "rq_Header (set_header h v r) = (rq_Header r)(h := v)"
  by (simp_all add: set_header_def)

text \<open>The lookup of a session moves the clock and the time of the last visit, nothing else.\<close>

lemma TouchSession_frame: "workspace_members (snd (TouchSession i n s)) = workspace_members s"
  by (simp add: TouchSession_def update_last_seen_def now_def sem_simps split: prod.split)

lemma touch_session_frame: "workspace_members (snd (touch_session i s)) = workspace_members s"
  using TouchSession_frame [of i "clock s (clock_pos s)" "s\<lparr>clock_pos := Suc (clock_pos s)\<rparr>"]
  by (auto simp: touch_session_def now_def sem_simps split: prod.splits sum.splits)

text \<open>A session that authenticates: the cookie names a stored session of the user that has not expired.\<close>

definition live_session :: "request \<Rightarrow> db \<Rightarrow> string \<Rightarrow> bool" where
  "live_session r s user \<longleftrightarrow> (\<exists>row\<in>set (sessions s). rq_Cookie r SessionCookieName = Some (se_id row) \<and> se_user_id row = user \<and>
     clock s (clock_pos s) \<le> se_expires_at row)"

lemma run_GetSession:
  "run_op (GetSession i) sv =
     (case first_row (\<lambda>r. se_id r = i) (sessions (sv_db sv)) of None \<Rightarrow> (Inl ErrNotFound, sv)
      | Some row \<Rightarrow> (if se_expires_at row < clock (sv_db sv) (clock_pos (sv_db sv)) then Inl ErrNotFound else Inr (session_of_row row),
          sv\<lparr>sv_db := (sv_db sv)\<lparr>clock_pos := Suc (clock_pos (sv_db sv))\<rparr>\<rparr>))"
  by (simp add: run_op_def GetSession_def now_def sem_simps split: option.split)

lemma session_identity_live:
  assumes "session_identity r sv = (x, sv')"
  shows "workspace_members (sv_db sv') = workspace_members (sv_db sv)"
    and "x = Some sess \<Longrightarrow> live_session r (sv_db sv) (ses_UserID sess)"
proof -
  have touch: "workspace_members (sv_db (snd (run_op (touch_session i) s))) = workspace_members (sv_db s)" for i s
    using touch_session_frame [of i "sv_db s"] by (auto simp: run_op_def split: prod.split)
  have fr: "first_row P xs = Some y \<Longrightarrow> y \<in> set xs \<and> P y" for P and xs :: "session_row list" and y
    by (auto simp: first_row_def find_Some_iff)
  show "workspace_members (sv_db sv') = workspace_members (sv_db sv)"
    using assms touch by (auto simp: session_identity_def run_GetSession split: option.splits if_splits)
  show "live_session r (sv_db sv) (ses_UserID sess)" if "x = Some sess"
  proof -
    from assms that obtain i where i: "GetSessionID r = Some i" by (auto simp: session_identity_def split: option.splits)
    with assms that obtain row where row: "first_row (\<lambda>q. se_id q = i) (sessions (sv_db sv)) = Some row"
      "\<not> se_expires_at row < clock (sv_db sv) (clock_pos (sv_db sv))" "sess = session_of_row row"
      by (auto simp: session_identity_def run_GetSession split: option.splits if_splits)
    moreover have "rq_Cookie r SessionCookieName = Some i" using i by (auto simp: GetSessionID_def split: option.splits if_splits)
    ultimately show ?thesis using fr [OF row(1)] by (auto simp: live_session_def session_of_row_def)
  qed
qed

lemma strip_identity_simps [simp]:
  "rq_Path (strip_identity r) = rq_Path r" "rq_Method (strip_identity r) = rq_Method r" "rq_Cookie (strip_identity r) = rq_Cookie r"
  "rq_BasicAuth (strip_identity r) = rq_BasicAuth r" "rq_Peer (strip_identity r) = rq_Peer r" "rq_Time (strip_identity r) = rq_Time r"
  by (simp_all add: strip_identity_def)

lemma identified_simps [simp]:
  "rq_Path (identified u r) = rq_Path r" "rq_Method (identified u r) = rq_Method r" "cx_User (identified u r) = Some u"
  by (simp_all add: identified_def)

definition authentic :: "environment \<Rightarrow> config \<Rightarrow> request \<Rightarrow> db \<Rightarrow> string \<Rightarrow> bool" where
  "authentic ev cfg r s user \<longleftrightarrow> live_session r s user \<or>
     cf_Auth cfg = ''basic'' \<and> (\<exists>pass. rq_BasicAuth r = Some (user, pass) \<and>
       VerifyBasicCredentials (ev_bcrypt ev) (cf_BasicUser cfg) (cf_BasicPassHash cfg) user pass)"

lemma auth_passed:
  assumes "authMiddlewareWithSessions ev cfg r sv = (Passed r', sv')" and "\<not> isPublicPath (rq_Path r)" and "cf_Auth cfg \<noteq> ''none''"
  shows "\<exists>user. cx_User r' = Some user \<and> rq_Header r' ''X-LiteMLflow-User'' = user \<and> authentic ev cfg r (sv_db sv) user \<and>
    rq_Path r' = rq_Path r \<and> rq_Method r' = rq_Method r \<and> workspace_members (sv_db sv') = workspace_members (sv_db sv)"
proof -
  obtain x sv1 where si: "session_identity (strip_identity r) sv = (x, sv1)" by (cases "session_identity (strip_identity r) sv")
  note live = session_identity_live [OF si]
  have same: "live_session (strip_identity r) = live_session r" by (intro ext) (simp add: live_session_def)
  show ?thesis
  proof (cases x)
    case (Some sess)
    then show ?thesis using assms si live
      by (intro exI [of _ "ses_UserID sess"]) (auto simp: authMiddlewareWithSessions_def identified_def authentic_def same)
  next
    case None
    with assms si have basic: "cf_Auth cfg = ''basic''"
      by (auto simp: authMiddlewareWithSessions_def Let_def split: if_splits)
    then obtain user pass where "rq_BasicAuth r = Some (user, pass)"
        "VerifyBasicCredentials (ev_bcrypt ev) (cf_BasicUser cfg) (cf_BasicPassHash cfg) user pass"
        "r' = set_header ''X-LiteMLflow-Auth-Method'' ''basic'' (identified user (strip_identity r))" "sv' = sv1"
      using assms si None by (auto simp: authMiddlewareWithSessions_def Let_def split: if_splits option.splits prod.splits)
    then show ?thesis using live(1) basic by (intro exI [of _ user]) (auto simp: identified_def authentic_def)
  qed
qed

lemma workspace_passed:
  assumes "workspaceMiddleware r sv = (Passed r', sv')"
  shows "\<exists>ws. r' = in_workspace_ctx ws r \<and> ws \<noteq> [] \<and> sv' = sv"
  using assms by (auto simp: workspaceMiddleware_def requested_workspace_def run_GetWorkspace Let_def split: if_splits option.splits)

lemma in_workspace_ctx_simps [simp]:
  "rq_Path (in_workspace_ctx ws r) = rq_Path r" "rq_Method (in_workspace_ctx ws r) = rq_Method r" "cx_User (in_workspace_ctx ws r) = cx_User r"
  "rq_Header (in_workspace_ctx ws r) = (rq_Header r)(''X-LiteMLflow-Workspace'' := ws)" "cx_Workspace (in_workspace_ctx ws r) = Some ws"
  by (simp_all add: in_workspace_ctx_def)

lemma with_role_simps [simp]:
  "rq_Path (with_role x r) = rq_Path r" "rq_Method (with_role x r) = rq_Method r" "cx_User (with_role x r) = cx_User r"
  "rq_Header (with_role x r) = (rq_Header r)(''X-LiteMLflow-Role'' := x)" "cx_Workspace (with_role x r) = cx_Workspace r"
  by (simp_all add: with_role_def)

text \<open>The user has a role in the workspace that suffices for the request.\<close>

definition entitled :: "db \<Rightarrow> string \<Rightarrow> string \<Rightarrow> request \<Rightarrow> bool" where
  "entitled s ws user r \<longleftrightarrow> (\<exists>m\<in>set (workspace_members s). wm_workspace_id m = ws \<and> wm_user_id m = user \<and>
     roleAtLeast (wm_role m) (requiredRole (rq_Method r) (rq_Path r)))"

lemma roleAtLeast_none [simp]: "roleAtLeast x []"
  by (simp add: roleAtLeast_def role_rank_def)

lemma check_role_passed:
  assumes "check_role ws user r sv = (Passed r', sv')"
  shows "(\<exists>role. r' = with_role role r) \<and> sv' = sv \<and> entitled (sv_db sv) ws user r"
proof -
  from assms obtain m where m: "first_row (\<lambda>m. wm_workspace_id m = ws \<and> wm_user_id m = user) (workspace_members (sv_db sv)) = Some m"
    and ok: "requiredRole (rq_Method r) (rq_Path r) = [] \<or> roleAtLeast (wm_role m) (requiredRole (rq_Method r) (rq_Path r))"
    and r': "r' = with_role (wm_role m) r" "sv' = sv"
    by (auto simp: check_role_def run_GetMemberRole Let_def split: option.splits if_splits)
  from m have "m \<in> set (workspace_members (sv_db sv))" "wm_workspace_id m = ws" "wm_user_id m = user"
    by (auto simp: first_row_def find_Some_iff)
  with ok r' show ?thesis by (auto simp: entitled_def)
qed

lemma ListMembers_empty: "ListMembers ws s = [] \<longleftrightarrow> (\<forall>m\<in>set (workspace_members s). wm_workspace_id m \<noteq> ws)"
proof -
  have "ListMembers ws s = [] \<longleftrightarrow> filter (\<lambda>m. wm_workspace_id m = ws) (workspace_members s) = []"
    unfolding ListMembers_def list.map_disc_iff by (simp only: set_empty [symmetric] set_sort)
  then show ?thesis by (simp add: filter_empty_conv)
qed

text \<open>
  The workspace a request acts on: the one its path names when that one has members, and otherwise the selected one. The default
  workspace is open as long as it has no members.
\<close>

definition acts_on :: "db \<Rightarrow> string \<Rightarrow> request \<Rightarrow> string" where
  "acts_on s ws r = (let target = workspacePathTarget (rq_Path r) in if target \<noteq> [] \<and> ListMembers target s \<noteq> [] then target else ws)"

definition authorized :: "db \<Rightarrow> string \<Rightarrow> string \<Rightarrow> request \<Rightarrow> bool" where
  "authorized s ws user r \<longleftrightarrow>
     (acts_on s ws r = ''default'' \<and> ListMembers ''default'' s = []) \<or> entitled s (acts_on s ws r) user r"

lemma rbac_passed:
  assumes "rbacMiddleware cfg r sv = (Passed r', sv')" and "cf_Auth cfg \<noteq> ''none''" and "\<not> isPublicPath (rq_Path r)"
    and "cx_Workspace r = Some ws" and "ws \<noteq> []"
  shows "((\<exists>role. r' = with_role role r) \<or> r' = r) \<and> sv' = sv \<and> authorized (sv_db sv) ws (current_user r) r"
  using assms check_role_passed [of _ "current_user r" r sv r' sv']
  by (auto simp: rbacMiddleware_def Let_def authorized_def acts_on_def split: if_splits)

lemma chain_passed: "chain f g r sv = (Passed r', sv') \<longleftrightarrow> (\<exists>r1 sv1. f r sv = (Passed r1, sv1) \<and> g r1 sv1 = (Passed r', sv'))"
  by (auto simp: chain_def split: prod.splits outcome.splits)

lemma alias_passed:
  assumes "apiV2AliasMiddleware r sv = (Passed r', sv')"
  shows "\<exists>esc p. r' = r\<lparr>rq_EscapedPath := esc, rq_Path := p\<rparr> \<and> sv' = sv"
proof (cases "HasPrefix (rq_EscapedPath r) ''/api/v2/''")
  case True
  with assms show ?thesis by (auto simp: apiV2AliasMiddleware_def Let_def split: option.splits)
next
  case False
  with assms have "r' = r\<lparr>rq_EscapedPath := rq_EscapedPath r, rq_Path := rq_Path r\<rparr> \<and> sv' = sv" by (simp add: apiV2AliasMiddleware_def)
  then show ?thesis by blast
qed

lemma rateLimit_passed:
  assumes "rateLimitAuthMiddleware ev cfg r sv = (Passed r', sv')"
  shows "r' = r \<and> sv_db sv' = sv_db sv"
  using assms by (auto simp: rateLimitAuthMiddleware_def take_token_def split: if_splits prod.splits)


section \<open>Headers that clients cannot set\<close>

fun on_passed :: "(request \<Rightarrow> request) \<Rightarrow> outcome \<times> server \<Rightarrow> outcome \<times> server" where
  "on_passed f (Passed r, sv) = (Passed (f r), sv)"
| "on_passed f x = x"

lemma set_header_twice [simp]: "set_header h v (set_header h w r) = set_header h v r"
  by (simp add: set_header_def)

lemma set_header_twist: "h \<noteq> k \<Longrightarrow> set_header h v (set_header k w r) = set_header k w (set_header h v r)"
  by (simp add: set_header_def fun_upd_twist)

lemma set_header_ctx: "set_header h v (r\<lparr>cx_User := u\<rparr>) = (set_header h v r)\<lparr>cx_User := u\<rparr>"
  "set_header h v (r\<lparr>cx_Session := x\<rparr>) = (set_header h v r)\<lparr>cx_Session := x\<rparr>"
  "set_header h v (r\<lparr>rq_EscapedPath := esc, rq_Path := p\<rparr>) = (set_header h v r)\<lparr>rq_EscapedPath := esc, rq_Path := p\<rparr>"
  by (simp_all add: set_header_def)

lemma alias_header: "apiV2AliasMiddleware (set_header h v r) sv = on_passed (set_header h v) (apiV2AliasMiddleware r sv)"
  by (simp add: apiV2AliasMiddleware_def Let_def set_header_ctx split: option.split)

lemma rateLimit_header:
  "rateLimitAuthMiddleware ev cfg (set_header h v r) sv = on_passed (set_header h v) (rateLimitAuthMiddleware ev cfg r sv)"
  by (simp add: rateLimitAuthMiddleware_def isRateLimitedAuthPath_def take_token_def split: prod.split)

text \<open>The identity headers are stripped; the workspace header goes through and is overwritten afterwards.\<close>

lemma strip_identity_header:
  "h \<in> {''X-LiteMLflow-User'', ''X-LiteMLflow-Auth-Method'', ''X-LiteMLflow-Role''} \<Longrightarrow> strip_identity (set_header h v r) = strip_identity r"
  by (auto simp: strip_identity_def set_header_def fun_upd_twist)

lemma auth_workspace_header:
  "authMiddlewareWithSessions ev cfg (set_header ''X-LiteMLflow-Workspace'' v r) sv =
     on_passed (set_header ''X-LiteMLflow-Workspace'' v) (authMiddlewareWithSessions ev cfg r sv)"
proof -
  let ?w = "set_header ''X-LiteMLflow-Workspace'' v"
  have strip: "strip_identity (?w r) = ?w (strip_identity r)" by (simp add: strip_identity_def set_header_twist)
  have ident: "identified u (?w q) = ?w (identified u q)" for u q by (simp add: identified_def set_header_twist set_header_ctx)
  have sess: "session_identity (?w q) = session_identity q" for q by (intro ext) (simp add: session_identity_def GetSessionID_def)
  have tok: "take_token ev cfg (?w q) s = take_token ev cfg q s" for q s by (simp add: take_token_def)
  show ?thesis unfolding authMiddlewareWithSessions_def Let_def strip sess tok
    by (simp add: ident set_header_twist set_header_ctx split: prod.split option.split)
qed

lemma workspace_header: "workspaceMiddleware (set_header ''X-LiteMLflow-Workspace'' v r) sv = workspaceMiddleware r sv"
  by (simp add: workspaceMiddleware_def requested_workspace_def in_workspace_ctx_def run_GetWorkspace Let_def split: option.split)

lemma chain_on_passed:
  "f (m r) sv = on_passed m (f r sv) \<Longrightarrow> (\<And>q s. g (m q) s = g q s) \<Longrightarrow> chain f g (m r) sv = chain f g r sv"
  by (auto simp: chain_def split: prod.split outcome.split)

text \<open>
  C26. What a client writes into the headers by which the middlewares tell the handlers the user, the way of authentication, the role
  and the workspace has no effect: the request is treated the same and arrives with the same headers, in every authentication mode.
\<close>

theorem identity_headers_ignored:
  assumes "h \<in> {''X-LiteMLflow-User'', ''X-LiteMLflow-Auth-Method'', ''X-LiteMLflow-Role'', ''X-LiteMLflow-Workspace''}"
  shows "buildRouter ev cfg (set_header h v r) sv = buildRouter ev cfg r sv"
proof -
  have "chain (authMiddlewareWithSessions ev cfg) (chain workspaceMiddleware (rbacMiddleware cfg)) (set_header h v q) s =
      chain (authMiddlewareWithSessions ev cfg) (chain workspaceMiddleware (rbacMiddleware cfg)) q s" for q s
  proof (cases "h = ''X-LiteMLflow-Workspace''")
    case True
    show ?thesis unfolding True
      by (rule chain_on_passed) (simp_all add: auth_workspace_header chain_def workspace_header)
  next
    case False
    then have "strip_identity (set_header h v q) = strip_identity q" using assms by (intro strip_identity_header) auto
    then show ?thesis by (simp add: chain_def authMiddlewareWithSessions_def)
  qed
  note tail = this
  have "chain (rateLimitAuthMiddleware ev cfg) (chain (authMiddlewareWithSessions ev cfg) (chain workspaceMiddleware (rbacMiddleware cfg)))
      (set_header h v q) s = chain (rateLimitAuthMiddleware ev cfg)
        (chain (authMiddlewareWithSessions ev cfg) (chain workspaceMiddleware (rbacMiddleware cfg))) q s" for q s
    by (rule chain_on_passed [where f = "rateLimitAuthMiddleware ev cfg" and m = "set_header h v"]) (rule rateLimit_header, rule tail)
  then show ?thesis unfolding buildRouter_def by (intro chain_on_passed [where f = apiV2AliasMiddleware and m = "set_header h v"] alias_header)
qed

section \<open>The table of roles\<close>

definition writing :: "string \<Rightarrow> bool" where
  "writing meth \<longleftrightarrow> meth \<in> set [''POST'', ''PUT'', ''PATCH'', ''DELETE'']"

definition api_path :: "string \<Rightarrow> bool" where
  "api_path p \<longleftrightarrow> HasPrefix p ''/api/v1/'' \<or> HasPrefix p ''/api/2.0/mlflow/'' \<or> HasPrefix p ''/api/2.0/mlflow-artifacts/'' \<or> HasPrefix p ''/v1/''"

lemma api_path_cases:
  "api_path p \<Longrightarrow> p \<notin> set [''/healthz'', ''/readyz'', ''/version'', ''/metrics''] \<and> \<not> HasPrefix p ''/ui/'' \<and> p \<noteq> ''/ui'' \<and> p \<noteq> ''/''"
  by (auto simp: api_path_def HasPrefix_def prefix_def)



text \<open>The receiver of traces over gRPC lets the same users in as the HTTP endpoint for traces.\<close>

lemma grpcAuthorizer_same:
  assumes "cf_Auth cfg \<noteq> ''none''" and "rq_Method r = ''POST''" and "rq_Path r = ''/v1/traces''" and "cx_Workspace r = Some ws" and "ws \<noteq> []"
  shows "fst (grpcAuthorizer ws (current_user r) sv) \<longleftrightarrow> (\<exists>r'. fst (rbacMiddleware cfg r sv) = Passed r')"
proof -
  have p: "\<not> isPublicPath ''/v1/traces''" "workspacePathTarget ''/v1/traces'' = []" by (simp_all add: isPublicPath_def workspacePathTarget_def HasPrefix_def)
  have n: "requiredRole ''POST'' ''/v1/traces'' = ''editor''" by (simp add: requiredRole_def HasPrefix_def)
  show ?thesis using assms
    by (cases "ws = ''default''") (auto simp: p n grpcAuthorizer_def rbacMiddleware_def check_role_def run_GetMemberRole Let_def split: option.split)
qed

text \<open>
  The name \<open>current\<close> is a legal name of a workspace, and the paths below \<open>/api/v1/workspaces/current\<close> are authorized against the
  selected workspace: an admin of any workspace may delete or rename a workspace of this name, whoever its members are.
\<close>

lemma current_workspace_unprotected:
  assumes "cf_Auth cfg \<noteq> ''none''" and "rq_Path r = ''/api/v1/workspaces/current''" and "rq_Method r = ''DELETE''"
    and "cx_Workspace r = Some ''team-b''" and "cx_User r = Some ''bob''" and "wm_role m = ''admin''"
    and "first_row (\<lambda>m. wm_workspace_id m = ''team-b'' \<and> wm_user_id m = ''bob'') (workspace_members (sv_db sv)) = Some m"
  shows "\<exists>r'. rbacMiddleware cfg r sv = (Passed r', sv)"
proof -
  have "\<not> isPublicPath ''/api/v1/workspaces/current''" "workspacePathTarget ''/api/v1/workspaces/current'' = []"
    by (simp_all add: isPublicPath_def workspacePathTarget_def HasPrefix_def TrimPrefix_def)
  moreover have "roleAtLeast ''admin'' x" for x by (simp add: roleAtLeast_def role_rank_def)
  ultimately show ?thesis using assms by (simp add: rbacMiddleware_def current_user_def check_role_def run_GetMemberRole)
qed

section \<open>A sample request\<close>

definition sample_request :: request where
  "sample_request = \<lparr>rq_Method = ''POST'', rq_EscapedPath = ''/api/2.0/mlflow/runs/create'', rq_Path = ''/api/2.0/mlflow/runs/create'',
     rq_URI = ''/api/2.0/mlflow/runs/create'', rq_Header = (\<lambda>_. []), rq_Cookie = (\<lambda>_. None), rq_BasicAuth = Some (''bob'', ''pw''),
     rq_Peer = \<lparr>pr_RemoteAddr = ''proxy'', pr_ForwardedFor = [], pr_RealIP = []\<rparr>, rq_Time = 0,
     cx_User = None, cx_Session = None, cx_Workspace = None, cx_Role = None\<rparr>"

definition sample_config :: config where
  "sample_config = \<lparr>cf_Auth = ''basic'', cf_BasicUser = ''bob'', cf_BasicPassHash = ''$2a$x'', cf_Trusted = []\<rparr>"

definition sample_environment :: environment where
  "sample_environment = \<lparr>ev_bcrypt = (\<lambda>_ p. p = ''pw''), ev_resolver = sample_resolver, ev_base64 = (\<lambda>_. None), ev_low = (\<lambda>r. r)\<rparr>"

definition sample_server :: server where
  "sample_server = \<lparr>sv_db = sample_db\<lparr>workspace_members := [\<lparr>wm_workspace_id = ''default'', wm_user_id = ''bob'', wm_role = ''editor''\<rparr>]\<rparr>,
     sv_limiter = newAuthRateLimiter 5 1 0\<rparr>"

definition sample_passed :: request where
  "sample_passed = with_role ''editor'' (in_workspace_ctx ''default'' (set_header ''X-LiteMLflow-Auth-Method'' ''basic''
     (identified ''bob'' (strip_identity sample_request))))"

lemma sample_passes: "buildRouter sample_environment sample_config sample_request sample_server = (Passed sample_passed, sample_server)"
proof -
  let ?r = "set_header ''X-LiteMLflow-Auth-Method'' ''basic'' (identified ''bob'' (strip_identity sample_request))"
  have p: "\<not> isPublicPath ''/api/2.0/mlflow/runs/create''" "workspacePathTarget ''/api/2.0/mlflow/runs/create'' = []"
    by (simp_all add: isPublicPath_def workspacePathTarget_def HasPrefix_def)
  have q: "requiredRole ''POST'' ''/api/2.0/mlflow/runs/create'' = ''editor''" by (simp add: requiredRole_def HasPrefix_def)
  have 1: "apiV2AliasMiddleware sample_request sample_server = (Passed sample_request, sample_server)"
    by (simp add: apiV2AliasMiddleware_def sample_request_def HasPrefix_def)
  have 2: "rateLimitAuthMiddleware sample_environment sample_config sample_request sample_server = (Passed sample_request, sample_server)"
    by (simp add: rateLimitAuthMiddleware_def isRateLimitedAuthPath_def sample_request_def)
  have "session_identity (strip_identity sample_request) sample_server = (None, sample_server)"
    by (simp add: session_identity_def GetSessionID_def) (simp add: sample_request_def)
  moreover have "VerifyBasicCredentials (ev_bcrypt sample_environment) (cf_BasicUser sample_config) (cf_BasicPassHash sample_config) ''bob'' ''pw''"
    by (simp add: sample_config_def sample_environment_def VerifyBasicCredentials_def verifyPasswordHash_def isBcryptHash_def HasPrefix_def)
  moreover have "cf_Auth sample_config = ''basic''" "rq_Path sample_request = ''/api/2.0/mlflow/runs/create''" "rq_BasicAuth sample_request = Some (''bob'', ''pw'')"
    by (simp_all add: sample_config_def sample_request_def)
  ultimately have 3: "authMiddlewareWithSessions sample_environment sample_config sample_request sample_server = (Passed ?r, sample_server)"
    unfolding authMiddlewareWithSessions_def Let_def by (simp add: p)
  have 4: "workspaceMiddleware ?r sample_server = (Passed (in_workspace_ctx ''default'' ?r), sample_server)"
    unfolding workspaceMiddleware_def requested_workspace_def Let_def by (simp add: identified_def strip_identity_def) (simp add: sample_request_def)
  have "rq_Path ?r = ''/api/2.0/mlflow/runs/create''" "rq_Method ?r = ''POST''" by (simp_all add: sample_request_def)
  then have 5: "rbacMiddleware sample_config (in_workspace_ctx ''default'' ?r) sample_server = (Passed sample_passed, sample_server)"
    unfolding rbacMiddleware_def check_role_def run_GetMemberRole sample_passed_def
    by (simp add: sample_config_def p q current_user_def) (simp add: sample_server_def ListMembers_def first_row_def roleAtLeast_def q Let_def)
  show ?thesis unfolding buildRouter_def chain_def 1 2 3 4 5 by (simp add: 1 2 3 4 5)
qed


theorem identity_headers_ignored_witness:
  "buildRouter sample_environment sample_config (set_header ''X-LiteMLflow-Role'' ''admin'' sample_request) sample_server = (Passed sample_passed, sample_server)"
  using identity_headers_ignored [of "''X-LiteMLflow-Role''" sample_environment sample_config "''admin''" sample_request sample_server] sample_passes by simp

end
