(* ===== verification/Federation.thy ===== *)
theory Federation
  imports Access
begin

text \<open>
  Federation between servers (\<open>internal/federation/federation.go\<close>): requests signed with HMAC-SHA256 under a shared secret, their
  verification, and the bounded cache of responses. Times are milliseconds since 1970 as 64-bit integers, so differences wrap.
\<close>

unbundle bit_operations_syntax

section \<open>Signatures\<close>

definition hmac_key :: "8 word list \<Rightarrow> 8 word list" where
  "hmac_key k = (let k' = (if 64 < length k then sha256 k else k) in k' @ replicate (64 - length k') 0)"

definition hmac :: "8 word list \<Rightarrow> 8 word list \<Rightarrow> 8 word list" where
  "hmac k m = (let k' = hmac_key k in sha256 (map (\<lambda>b. b XOR 0x5C) k' @ sha256 (map (\<lambda>b. b XOR 0x36) k' @ m)))"

definition newline :: string where
  "newline = [CHR 0x0A]"

definition canonical :: "string \<Rightarrow> string \<Rightarrow> int \<Rightarrow> string \<Rightarrow> string" where
  "canonical meth path ts body = meth @ newline @ path @ newline @ FormatInt ts @ newline @ body"

text \<open>\<open>NewSecret\<close> with the random bytes it reads.\<close>

definition NewSecret :: "8 word list \<Rightarrow> string" where
  "NewSecret b = EncodeToString b"

definition signRequest :: "8 word list \<Rightarrow> string \<Rightarrow> string \<Rightarrow> int \<Rightarrow> string \<Rightarrow> string" where
  "signRequest secret meth path ts body = ''sha256='' @ EncodeToString (hmac secret (bytes_of (canonical meth path ts body)))"

definition wrap64 :: "int \<Rightarrow> int" where
  "wrap64 n = (n + 2 ^ 63) mod 2 ^ 64 - 2 ^ 63"

definition abs64 :: "int \<Rightarrow> int" where
  "abs64 x = (if x < 0 then wrap64 (- x) else x)"

definition DefaultClockSkewMS :: int where
  "DefaultClockSkewMS = 5 * 60 * 1000"

datatype fed_error = ErrSignatureMismatch | ErrTimestampStale | ErrSecretFormat | ErrResponseTooLarge | ErrPath | ErrTransport

definition VerifyRequest :: "int \<Rightarrow> string \<Rightarrow> string \<Rightarrow> string \<Rightarrow> int \<Rightarrow> string \<Rightarrow> string \<Rightarrow> fed_error option" where
  "VerifyRequest n secretHex meth path ts body sigHeader =
     (case hex_decode secretHex of None \<Rightarrow> Some ErrSecretFormat
      | Some secret \<Rightarrow>
          if length secret \<noteq> 32 then Some ErrSecretFormat
          else if DefaultClockSkewMS < abs64 (wrap64 (n - ts)) then Some ErrTimestampStale
          else if signRequest secret meth path ts body \<noteq> sigHeader then Some ErrSignatureMismatch
          else None)"

section \<open>The client\<close>

record fed_client =
  fc_baseURL :: string
  fc_ourName :: string
  fc_secret :: "8 word list"

definition NewClient :: "string \<Rightarrow> string \<Rightarrow> string \<Rightarrow> fed_error + fed_client" where
  "NewClient baseURL ourName secretHex =
     (case hex_decode secretHex of None \<Rightarrow> Inl ErrSecretFormat
      | Some secret \<Rightarrow>
          if length secret \<noteq> 32 then Inl ErrSecretFormat
          else Inr \<lparr>fc_baseURL = rev (dropWhile (\<lambda>c. c = CHR ''/'') (rev baseURL)), fc_ourName = ourName, fc_secret = secret\<rparr>)"

definition MaxResponseBytes :: nat where
  "MaxResponseBytes = 8 * 2 ^ 20"

text \<open>What goes over the wire: method, URL, headers and body. The transport is a parameter: it returns the
  response and its body, or \<open>None\<close> when the request cannot be built or sent or the body cannot be read.\<close>

record fed_request =
  fr_Method :: string
  fr_URL :: string
  fr_Peer :: string
  fr_Timestamp :: string
  fr_Signature :: string
  fr_Body :: string

definition DoCtx :: "(fed_request \<Rightarrow> ('r \<times> string) option) \<Rightarrow> int \<Rightarrow> fed_client \<Rightarrow> string \<Rightarrow> string \<Rightarrow> string \<Rightarrow> fed_error + 'r \<times> string" where
  "DoCtx http n c meth path body =
     (if \<not> HasPrefix path ''/'' then Inl ErrPath
      else case http \<lparr>fr_Method = meth, fr_URL = fc_baseURL c @ path, fr_Peer = fc_ourName c, fr_Timestamp = FormatInt n,
          fr_Signature = signRequest (fc_secret c) meth path n body, fr_Body = body\<rparr> of
        None \<Rightarrow> Inl ErrTransport
      | Some (resp, respBody) \<Rightarrow> if MaxResponseBytes < length respBody then Inl ErrResponseTooLarge else Inr (resp, respBody))"

section \<open>The cache\<close>

record cacheEntry =
  ce_at :: int
  ce_payload :: string

record Cache =
  ca_entries :: "string \<rightharpoonup> cacheEntry"
  ca_keys :: "string list"
  ca_cap :: nat
  ca_ttl :: int

definition DefaultCacheTTL :: int where
  "DefaultCacheTTL = 30 * second"

definition NewCache :: "int \<Rightarrow> int \<Rightarrow> Cache" where
  "NewCache capacity ttl =
     \<lparr>ca_entries = Map.empty, ca_keys = [], ca_cap = nat (if capacity \<le> 0 then 256 else capacity),
      ca_ttl = (if ttl \<le> 0 then DefaultCacheTTL else ttl)\<rparr>"

definition Key :: "int \<Rightarrow> string \<Rightarrow> string" where
  "Key peerID queryHash = FormatInt peerID @ '':'' @ queryHash"

text \<open>The encoding of the query as JSON is a parameter.\<close>

definition QueryHash :: "('q \<Rightarrow> string) \<Rightarrow> 'q \<Rightarrow> string" where
  "QueryHash marshal query = EncodeToString (sha256 (bytes_of (marshal query)))"

definition cache_get :: "string \<Rightarrow> int \<Rightarrow> Cache \<Rightarrow> string option \<times> Cache" where
  "cache_get k n c = (case ca_entries c k of
     None \<Rightarrow> (None, c)
   | Some e \<Rightarrow>
       if ca_ttl c < n - ce_at e then (None, c\<lparr>ca_entries := (ca_entries c)(k := None), ca_keys := remove1 k (ca_keys c)\<rparr>)
       else (Some (ce_payload e), c))"

text \<open>\<open>for len(keys) > cap\<close>: the oldest keys go until the bound is met.\<close>

definition evict :: "Cache \<Rightarrow> Cache" where
  "evict c = (let d = length (ca_keys c) - ca_cap c in
     c\<lparr>ca_keys := drop d (ca_keys c), ca_entries := (\<lambda>k. if k \<in> set (take d (ca_keys c)) then None else ca_entries c k)\<rparr>)"

definition cache_put :: "string \<Rightarrow> string \<Rightarrow> int \<Rightarrow> Cache \<Rightarrow> Cache" where
  "cache_put k payload n c =
     (let c' = (if ca_entries c k = None then evict (c\<lparr>ca_keys := ca_keys c @ [k]\<rparr>) else c)
      in c'\<lparr>ca_entries := (ca_entries c')(k \<mapsto> \<lparr>ce_at = n, ce_payload = payload\<rparr>)\<rparr>)"

definition cache_reset :: "Cache \<Rightarrow> Cache" where
  "cache_reset c = c\<lparr>ca_entries := Map.empty, ca_keys := []\<rparr>"

section \<open>Signed requests are accepted\<close>

lemma hex_value_digit: "x < 16 \<Longrightarrow> hex_value (hex_digit x) = Some x"
  by (auto simp: hex_value_def hex_digit_def of_char_of)

lemma hex_decode_byte: "hex_decode (hex_byte b @ s) = map_option (Cons b) (hex_decode s)"
proof -
  have "unat b < 256" using unsigned_less [of b, where ?'a = nat] by simp
  then have "unat b div 16 < 16" by auto
  then show ?thesis by (simp add: hex_byte_def hex_value_digit)
qed

lemma hex_decode_Encode [simp]: "hex_decode (EncodeToString bs) = Some bs"
  by (induction bs) (simp_all add: EncodeToString_def hex_decode_byte)

lemma wrap64_id: "int64_range n \<Longrightarrow> wrap64 n = n"
  by (simp add: wrap64_def)

lemma wrap64_over: "2 ^ 63 \<le> n \<Longrightarrow> n < 3 * 2 ^ 63 \<Longrightarrow> wrap64 n = n - 2 ^ 64"
  using mod_pos_pos_trivial [of "n + 2 ^ 63 - 2 ^ 64" "2 ^ 64"] unfolding wrap64_def minus_mod_self2 by simp

text \<open>The test of the time: within five minutes, or a difference of exactly two to the 63, whose negation wraps to itself.\<close>

lemma fresh_iff:
  assumes "0 \<le> n" and "n < 2 ^ 62" and "int64_range ts"
  shows "\<not> DefaultClockSkewMS < abs64 (wrap64 (n - ts)) \<longleftrightarrow> \<bar>n - ts\<bar> \<le> DefaultClockSkewMS \<or> n - ts = 2 ^ 63"
proof (cases "2 ^ 63 \<le> n - ts")
  case True
  then have w: "wrap64 (n - ts) = n - ts - 2 ^ 64" using assms by (intro wrap64_over) auto
  show ?thesis
  proof (cases "n - ts = 2 ^ 63")
    case True
    then show ?thesis unfolding w by (simp add: abs64_def wrap64_def DefaultClockSkewMS_def)
  next
    case False
    with True assms have "int64_range (- (n - ts - 2 ^ 64))" by auto
    then have "abs64 (n - ts - 2 ^ 64) = 2 ^ 64 - (n - ts)" using assms by (auto simp: abs64_def wrap64_id)
    with True False assms show ?thesis unfolding w by (auto simp: DefaultClockSkewMS_def)
  qed
next
  case False
  with assms have "int64_range (n - ts)" and "int64_range (- (n - ts))" by auto
  with False assms show ?thesis by (auto simp: abs64_def wrap64_id DefaultClockSkewMS_def abs_if)
qed

lemma VerifyRequest_accepts:
  assumes "0 \<le> n" and "n < 2 ^ 62" and "int64_range ts"
  shows "VerifyRequest n secretHex meth path ts body sigHeader = None \<longleftrightarrow>
    (\<exists>secret. hex_decode secretHex = Some secret \<and> length secret = 32 \<and> sigHeader = signRequest secret meth path ts body)
    \<and> (\<bar>n - ts\<bar> \<le> DefaultClockSkewMS \<or> n - ts = 2 ^ 63)"
  unfolding fresh_iff [OF assms, symmetric]
  by (auto simp: VerifyRequest_def split: option.splits if_splits)

text \<open>The signed text determines method, path, time and body, as neither method nor path contains a line break.\<close>

lemma split_at_sep: "x \<notin> set a \<Longrightarrow> x \<notin> set b \<Longrightarrow> a @ x # s = b @ x # t \<longleftrightarrow> a = b \<and> s = t"
proof (induction a arbitrary: b)
  case Nil
  then show ?case by (cases b) auto
next
  case (Cons y a)
  then show ?case by (cases b) auto
qed

lemma FormatInt_no_newline: "CHR 0x0A \<notin> set (FormatInt n)"
  using digits_of_digits [of "nat n"] digits_of_digits [of "nat (- n)"]
  by (auto simp: FormatInt_def list_all_iff is_digit_def)

lemma canonical_inj:
  assumes "CHR 0x0A \<notin> set meth" "CHR 0x0A \<notin> set path" "CHR 0x0A \<notin> set meth'" "CHR 0x0A \<notin> set path'"
    and "int64_range ts" "int64_range ts'"
  shows "canonical meth path ts body = canonical meth' path' ts' body' \<longleftrightarrow> (meth, path, ts, body) = (meth', path', ts', body')"
proof -
  have "FormatInt ts = FormatInt ts' \<longleftrightarrow> ts = ts'"
    using assms ParseInt_FormatInt by (metis option.inject)
  then show ?thesis using assms by (auto simp: canonical_def newline_def split_at_sep FormatInt_no_newline)
qed

text \<open>
  C32. Between two servers that share a secret, what the client of one sends is accepted by the other as long as their clocks differ
  by at most five minutes, under any transport that delivers the request. A request that is accepted carries the signature of
  exactly its method, path, timestamp and body under the secret, and its timestamp is within five minutes of the clock, but for the
  one value that lies two to the 63 milliseconds back, where the difference overflows.
\<close>

theorem federation_signature:
  assumes "length rnd = 32" and "NewClient baseURL ourName (NewSecret rnd) = Inr c" and "0 \<le> n" and "n < 2 ^ 62"
  shows "(\<forall>sent meth path body r b. 0 \<le> sent \<longrightarrow> sent < 2 ^ 62 \<longrightarrow> \<bar>n - sent\<bar> \<le> DefaultClockSkewMS \<longrightarrow>
      DoCtx (\<lambda>r. Some (r, [])) sent c meth path body = Inr (r, b) \<longrightarrow>
        fr_URL r = fc_baseURL c @ path \<and>
        (\<exists>ts. ParseInt (fr_Timestamp r) = Some ts \<and>
          VerifyRequest n (NewSecret rnd) (fr_Method r) path ts (fr_Body r) (fr_Signature r) = None))
    \<and> (\<forall>meth path ts body sigHeader. int64_range ts \<longrightarrow> VerifyRequest n (NewSecret rnd) meth path ts body sigHeader = None \<longrightarrow>
        sigHeader = signRequest rnd meth path ts body \<and> (\<bar>n - ts\<bar> \<le> DefaultClockSkewMS \<or> n - ts = 2 ^ 63))"
    (is "?sent \<and> ?accepted")
proof
  have c: "fc_secret c = rnd" using assms(2) by (auto simp: NewClient_def NewSecret_def assms(1))
  show ?sent
  proof (intro allI impI)
    fix sent meth path body r b
    assume s: "0 \<le> sent" "sent < 2 ^ 62" "\<bar>n - sent\<bar> \<le> DefaultClockSkewMS" "DoCtx (\<lambda>r. Some (r, [])) sent c meth path body = Inr (r, b)"
    then have r: "fr_URL r = fc_baseURL c @ path" "fr_Timestamp r = FormatInt sent" "fr_Method r = meth" "fr_Body r = body"
        "fr_Signature r = signRequest rnd meth path sent body"
      by (auto simp: DoCtx_def c split: if_splits)
    have i: "int64_range sent" using s(1,2) by simp
    have "VerifyRequest n (NewSecret rnd) meth path sent body (signRequest rnd meth path sent body) = None"
      unfolding VerifyRequest_accepts [OF assms(3,4) i] using s(3) assms(1) by (simp add: NewSecret_def)
    then show "fr_URL r = fc_baseURL c @ path \<and> (\<exists>ts. ParseInt (fr_Timestamp r) = Some ts \<and>
        VerifyRequest n (NewSecret rnd) (fr_Method r) path ts (fr_Body r) (fr_Signature r) = None)"
      unfolding r by (simp add: ParseInt_FormatInt [OF i])
  qed
  show ?accepted using VerifyRequest_accepts [OF assms(3,4)] by (auto simp: NewSecret_def)
qed

theorem federation_signature_witness:
  "fr_URL \<lparr>fr_Method = ''POST'', fr_URL = ''https://b/api'', fr_Peer = ''a'', fr_Timestamp = ''1000'',
     fr_Signature = signRequest (replicate 32 7) ''POST'' ''/api'' 1000 [], fr_Body = []\<rparr> = ''https://b/api''
   \<and> (\<exists>ts. ParseInt ''1000'' = Some ts \<and>
        VerifyRequest 2000 (NewSecret (replicate 32 7)) ''POST'' ''/api'' ts [] (signRequest (replicate 32 7) ''POST'' ''/api'' 1000 []) = None)"
proof -
  have c: "NewClient ''https://b/'' ''a'' (NewSecret (replicate 32 7))
      = Inr \<lparr>fc_baseURL = ''https://b'', fc_ourName = ''a'', fc_secret = replicate 32 7\<rparr>"
    by (simp add: NewClient_def NewSecret_def)
  have F: "FormatInt 1000 = ''1000''" by code_simp
  have s: "DoCtx (\<lambda>r. Some (r, [])) 1000 \<lparr>fc_baseURL = ''https://b'', fc_ourName = ''a'', fc_secret = replicate 32 7\<rparr> ''POST'' ''/api'' [] =
      Inr (\<lparr>fr_Method = ''POST'', fr_URL = ''https://b/api'', fr_Peer = ''a'', fr_Timestamp = ''1000'',
        fr_Signature = signRequest (replicate 32 7) ''POST'' ''/api'' 1000 [], fr_Body = []\<rparr>, [])"
    by (simp add: DoCtx_def HasPrefix_def F)
  have "length (replicate 32 (7 :: 8 word)) = 32" "(0 :: int) \<le> 2000" "(2000 :: int) < 2 ^ 62" "\<bar>2000 - 1000\<bar> \<le> DefaultClockSkewMS"
    "(0 :: int) \<le> 1000" "(1000 :: int) < 2 ^ 62"
    by (simp_all add: DefaultClockSkewMS_def)
  with federation_signature [OF this(1) c this(2,3)] s show ?thesis by (metis (no_types, lifting) fed_request.select_convs)
qed

section \<open>The cache is bounded and holds what was put last\<close>

definition cache_ok :: "Cache \<Rightarrow> bool" where
  "cache_ok c \<longleftrightarrow> distinct (ca_keys c) \<and> set (ca_keys c) = dom (ca_entries c) \<and> length (ca_keys c) \<le> ca_cap c \<and> 0 < ca_cap c"

lemma cache_ok_New: "cache_ok (NewCache capacity ttl)"
  by (auto simp: cache_ok_def NewCache_def)

lemma cache_ok_get: "cache_ok c \<Longrightarrow> cache_ok (snd (cache_get k n c))"
  by (auto simp: cache_ok_def cache_get_def length_remove1 split: option.splits)

lemma cache_ok_reset: "cache_ok c \<Longrightarrow> cache_ok (cache_reset c)"
  by (simp add: cache_ok_def cache_reset_def)

lemma evict_append:
  assumes "cache_ok c" and "ca_entries c k = None"
  shows "evict (c\<lparr>ca_keys := ca_keys c @ [k]\<rparr>) =
    (if length (ca_keys c) < ca_cap c then c\<lparr>ca_keys := ca_keys c @ [k]\<rparr>
     else c\<lparr>ca_keys := tl (ca_keys c) @ [k], ca_entries := (ca_entries c)(hd (ca_keys c) := None)\<rparr>)"
proof (cases "length (ca_keys c) < ca_cap c")
  case True
  then show ?thesis by (simp add: evict_def)
next
  case False
  with assms have "length (ca_keys c) = ca_cap c" "0 < ca_cap c" by (auto simp: cache_ok_def)
  then obtain x xs where "ca_keys c = x # xs" "Suc (length xs) = ca_cap c" by (cases "ca_keys c") auto
  then show ?thesis by (auto simp: evict_def fun_upd_def cong: if_cong)
qed

lemma cache_ok_put:
  assumes "cache_ok c"
  shows "cache_ok (cache_put k p n c)"
proof (cases "ca_entries c k")
  case None
  with assms have new: "k \<notin> set (ca_keys c)" by (auto simp: cache_ok_def)
  show ?thesis
  proof (cases "length (ca_keys c) < ca_cap c")
    case True
    then show ?thesis using assms new None by (auto simp: cache_put_def evict_append cache_ok_def)
  next
    case False
    with assms obtain x xs where "ca_keys c = x # xs" by (cases "ca_keys c") (auto simp: cache_ok_def)
    with False assms new None show ?thesis unfolding cache_put_def evict_append [OF assms None] by (auto simp: cache_ok_def)
  qed
next
  case (Some e)
  with assms show ?thesis by (auto simp: cache_put_def cache_ok_def)
qed

text \<open>Use of a cache: any sequence of reads, writes and resets, with the writes recorded, latest first.\<close>

inductive cache_run :: "int \<Rightarrow> int \<Rightarrow> Cache \<Rightarrow> (string \<times> string \<times> int) list \<Rightarrow> bool" for capacity ttl where
  new: "cache_run capacity ttl (NewCache capacity ttl) []"
| get: "cache_run capacity ttl c puts \<Longrightarrow> cache_run capacity ttl (snd (cache_get k n c)) puts"
| put: "cache_run capacity ttl c puts \<Longrightarrow> cache_run capacity ttl (cache_put k p n c) ((k, p, n) # puts)"
| reset: "cache_run capacity ttl c puts \<Longrightarrow> cache_run capacity ttl (cache_reset c) puts"

lemma cache_get_unchanged: "ca_entries (snd (cache_get k n c)) j = Some e \<Longrightarrow> ca_entries c j = Some e"
  by (auto simp: cache_get_def split: option.splits if_splits)

lemma cache_put_entries:
  "ca_entries (cache_put k p n c) j = Some e \<Longrightarrow> e = \<lparr>ce_at = n, ce_payload = p\<rparr> \<and> j = k \<or> j \<noteq> k \<and> ca_entries c j = Some e"
  by (auto simp: cache_put_def evict_def Let_def split: if_splits)

lemma cache_put_same: "ca_entries (cache_put k p n c) k = Some \<lparr>ce_at = n, ce_payload = p\<rparr>"
  by (simp add: cache_put_def Let_def)

lemma cache_settings [simp]:
  "ca_ttl (cache_put k p n c) = ca_ttl c" "ca_cap (cache_put k p n c) = ca_cap c"
  "ca_ttl (snd (cache_get k n c)) = ca_ttl c" "ca_cap (snd (cache_get k n c)) = ca_cap c"
  "ca_ttl (cache_reset c) = ca_ttl c" "ca_cap (cache_reset c) = ca_cap c"
  by (auto simp: cache_put_def cache_get_def cache_reset_def evict_def Let_def split: option.splits)

lemma cache_run_ok:
  assumes "cache_run capacity ttl c puts"
  shows "cache_ok c \<and> ca_cap c = ca_cap (NewCache capacity ttl) \<and> ca_ttl c = ca_ttl (NewCache capacity ttl)"
  using assms by induction (auto intro: cache_ok_New cache_ok_get cache_ok_put cache_ok_reset)

lemma cache_run_last:
  assumes "cache_run capacity ttl c puts" and "ca_entries c k = Some e"
  shows "map_of puts k = Some (ce_payload e, ce_at e)"
  using assms
proof (induction arbitrary: e)
  case new
  then show ?case by (simp add: NewCache_def)
next
  case (get c puts j n)
  then show ?case by (blast dest: cache_get_unchanged)
next
  case (put c puts j p n)
  then show ?case by (auto dest: cache_put_entries)
next
  case (reset c puts)
  then show ?case by (simp add: cache_reset_def)
qed

text \<open>
  C33. The response cache under any use: it never holds more entries than its capacity, what a read returns is the payload that was
  put last under that key, put no longer ago than the lifetime, and what has just been put is read back until its lifetime is over.
  The keys of two peers never meet.
\<close>

theorem cache_correct:
  assumes "cache_run capacity ttl c puts"
  shows "finite (dom (ca_entries c)) \<and> card (dom (ca_entries c)) \<le> (if capacity \<le> 0 then 256 else nat capacity)
    \<and> (\<forall>k n p. fst (cache_get k n c) = Some p \<longrightarrow> (\<exists>t. map_of puts k = Some (p, t) \<and> n - t \<le> (if ttl \<le> 0 then DefaultCacheTTL else ttl)))
    \<and> (\<forall>k n m p. fst (cache_get k m (cache_put k p n c)) = (if m - n \<le> (if ttl \<le> 0 then DefaultCacheTTL else ttl) then Some p else None))
    \<and> (\<forall>i j q r. Key i q = Key j r \<longrightarrow> FormatInt i = FormatInt j \<and> q = r)"
proof -
  note ok = cache_run_ok [OF assms]
  then have d: "dom (ca_entries c) = set (ca_keys c)" "length (ca_keys c) \<le> ca_cap c" by (auto simp: cache_ok_def)
  have ttl: "ca_ttl c = (if ttl \<le> 0 then DefaultCacheTTL else ttl)" and cap: "ca_cap c = (if capacity \<le> 0 then 256 else nat capacity)"
    using ok by (auto simp: NewCache_def)
  have "card (set (ca_keys c)) \<le> ca_cap c" using d(2) card_length le_trans by blast
  moreover have "\<exists>t. map_of puts k = Some (p, t) \<and> n - t \<le> ca_ttl c" if "fst (cache_get k n c) = Some p" for k n p
    using that by (auto simp: cache_get_def dest: cache_run_last [OF assms] split: option.splits if_splits)
  moreover have "fst (cache_get k m (cache_put k p n c)) = (if m - n \<le> ca_ttl c then Some p else None)" for k n m p
    by (auto simp: cache_get_def cache_put_same)
  moreover have "FormatInt i = FormatInt j \<and> q = r" if "Key i q = Key j r" for i j q r
    using that by (simp add: Key_def split_at_sep FormatInt_no_colon)
  ultimately show ?thesis unfolding d(1) ttl cap by blast
qed

theorem cache_correct_witness:
  "fst (cache_get ''k'' 5 (cache_put ''k'' ''v'' 3 (NewCache 0 0))) = Some ''v''"
  using cache_correct [OF cache_run.new [of 0 0]] by (simp add: DefaultCacheTTL_def second_def)

end
