(* ===== verification/Files.thy ===== *)
theory Files
  imports GoStd "HOL-Library.AList" "HOL-Library.Sublist"
begin

text \<open>
  Paths and files, as far as the artifact store and the store of datasets use them: \<open>path/filepath\<close> on Unix, and a file system of
  directories and regular files. Symbolic links, permissions, and failures of the disk are left out.
\<close>

section \<open>Paths\<close>

text \<open>\<open>filepath.Clean\<close> keeps the elements of the path so far, last first; an element \<open>..\<close> takes the last one away.\<close>

definition push :: "bool \<Rightarrow> string list \<Rightarrow> string \<Rightarrow> string list" where
  "push rooted st c =
     (if c = [] \<or> c = ''.'' then st
      else if c = ''..'' then
        (case st of [] \<Rightarrow> if rooted then [] else [c] | d # ds \<Rightarrow> if d = ''..'' then c # st else ds)
      else c # st)"

definition resolve :: "bool \<Rightarrow> string list \<Rightarrow> string list \<Rightarrow> string list" where
  "resolve rooted = foldl (push rooted)"

definition IsAbs :: "string \<Rightarrow> bool" where
  "IsAbs p = HasPrefix p ''/''"

definition Clean :: "string \<Rightarrow> string" where
  "Clean p =
     (let q = join ''/'' (rev (resolve (IsAbs p) [] (split_on (CHR ''/'') p)))
      in if IsAbs p then CHR ''/'' # q else if q = [] then ''.'' else q)"

definition Join :: "string list \<Rightarrow> string" where
  "Join es = (let es' = dropWhile (\<lambda>e. e = []) es in if es' = [] then [] else Clean (join ''/'' es'))"

text \<open>\<open>filepath.Abs\<close> in the working directory \<open>cwd\<close>.\<close>

definition Abs :: "string \<Rightarrow> string \<Rightarrow> string" where
  "Abs cwd p = (if IsAbs p then Clean p else Join [cwd, p])"

text \<open>The elements of an absolute, clean path.\<close>

definition parts :: "string \<Rightarrow> string list" where
  "parts p = filter (\<lambda>c. c \<noteq> []) (split_on (CHR ''/'') p)"

section \<open>Elements of paths\<close>

text \<open>An element that names a file or directory below another.\<close>

definition plain :: "string \<Rightarrow> bool" where
  "plain c \<longleftrightarrow> c \<noteq> [] \<and> c \<noteq> ''.'' \<and> c \<noteq> ''..'' \<and> CHR ''/'' \<notin> set c"

lemma resolve_simps [simp]: "resolve r st [] = st" "resolve r st (c # cs) = resolve r (push r st c) cs"
  by (simp_all add: resolve_def)

lemma resolve_append [simp]: "resolve r st (cs @ ds) = resolve r (resolve r st cs) ds"
  by (simp add: resolve_def)

lemma split_on_no_sep: "\<forall>c\<in>set (split_on x s). x \<notin> set c"
  by (induction x s rule: split_on.induct) (auto split: list.splits)

lemma push_cases:
  obtains (skip) "c = [] \<or> c = ''.''" "push r st c = st"
  | (up) "c = ''..''" "push r st c = (case st of [] \<Rightarrow> if r then [] else [''..''] | d # ds \<Rightarrow> if d = ''..'' then ''..'' # st else ds)"
  | (down) "c \<noteq> []" "c \<noteq> ''.''" "c \<noteq> ''..''" "push r st c = c # st"
  by (cases "c = [] \<or> c = ''.''"; cases "c = ''..''") (simp_all add: push_def)

lemma push_rooted:
  assumes "list_all plain st" and "CHR ''/'' \<notin> set c"
  shows "list_all plain (push True st c)"
  using push_cases [of c True st]
proof cases
  case up
  with assms(1) show ?thesis by (cases st) (simp_all add: plain_def)
next
  case down
  with assms show ?thesis by (simp add: plain_def)
qed (use assms in simp)

lemma resolve_rooted: "list_all plain st \<Longrightarrow> \<forall>c\<in>set cs. CHR ''/'' \<notin> set c \<Longrightarrow> list_all plain (resolve True st cs)"
  by (induction cs arbitrary: st) (simp_all add: push_rooted)

text \<open>Cleaning a relative path first does not change where it leads.\<close>

definition proper :: "string \<Rightarrow> bool" where
  "proper d \<longleftrightarrow> d \<noteq> [] \<and> d \<noteq> ''.''"

lemma push_proper: "list_all proper st \<Longrightarrow> list_all proper (push r st c)"
  using push_cases [of c r st] by cases (auto simp: proper_def split: list.splits)

lemma resolve_push:
  assumes "list_all proper st"
  shows "resolve True A (rev (push False st c)) = push True (resolve True A (rev st)) c"
  using push_cases [of c False st]
proof cases
  case skip
  then show ?thesis by (auto simp: push_def)
next
  case up
  show ?thesis
  proof (cases st)
    case (Cons d ds)
    show ?thesis
    proof (cases "d = ''..''")
      case False
      with Cons assms have "push True (resolve True A (rev ds)) d = d # resolve True A (rev ds)" by (simp add: push_def proper_def)
      with False Cons up show ?thesis by (simp add: push_def)
    qed (use up Cons in simp)
  qed (use up in simp)
qed simp

lemma resolve_clean:
  "list_all proper st \<Longrightarrow> resolve True A (rev (resolve False st cs)) = resolve True (resolve True A (rev st)) cs"
  by (induction cs arbitrary: st) (simp_all add: push_proper resolve_push)

section \<open>Absolute paths\<close>

definition path_of :: "string list \<Rightarrow> string" where
  "path_of st = CHR ''/'' # join ''/'' (rev st)"

lemma split_join: "ws \<noteq> [] \<Longrightarrow> split_on c (join [c] ws) = concat (map (split_on c) ws)"
  by (induction ws rule: induct_list012) (simp_all add: split_on_append)

lemma plain_split: "plain c \<Longrightarrow> split_on CHR ''/'' c = [c]"
  by (simp add: plain_def split_on_fresh)

lemma split_path_of: "list_all plain st \<Longrightarrow> split_on CHR ''/'' (path_of st) = (if st = [] then [[], []] else [] # rev st)"
  unfolding path_of_def by (simp add: list_all_iff plain_def split_on_join)

lemma parts_path_of: "list_all plain st \<Longrightarrow> parts (path_of st) = rev st"
  by (simp add: parts_def split_path_of) (auto simp: list_all_iff plain_def filter_id_conv)

lemma push_plain: "plain c \<Longrightarrow> push r st c = c # st"
  by (simp add: push_def plain_def)

lemma resolve_plain: "list_all plain cs \<Longrightarrow> resolve r A cs = rev cs @ A"
  by (induction cs arbitrary: A) (simp_all add: push_plain)

lemma push_empty [simp]: "push r st [] = st"
  by (simp add: push_def)

lemma resolve_path_of: "list_all plain st \<Longrightarrow> resolve r A (split_on CHR ''/'' (path_of st)) = st @ A"
  by (simp add: split_path_of resolve_plain list_all_rev)

lemma IsAbs_path_of [simp]: "IsAbs (path_of st)"
  by (simp add: IsAbs_def HasPrefix_def path_of_def)

lemma Clean_abs: "IsAbs p \<Longrightarrow> Clean p = path_of (resolve True [] (split_on CHR ''/'' p))"
  by (simp add: Clean_def path_of_def)

lemma plain_resolve: "list_all plain (resolve True [] (split_on CHR ''/'' p))"
  by (rule resolve_rooted) (simp_all add: split_on_no_sep)

definition element :: "string \<Rightarrow> bool" where
  "element c \<longleftrightarrow> proper c \<and> CHR ''/'' \<notin> set c"

lemma push_elements: "list_all element st \<Longrightarrow> CHR ''/'' \<notin> set c \<Longrightarrow> list_all element (push r st c)"
  by (cases rule: push_cases [of c r st]; cases st) (simp_all add: element_def proper_def)

lemma resolve_elements: "list_all element st \<Longrightarrow> \<forall>c\<in>set cs. CHR ''/'' \<notin> set c \<Longrightarrow> list_all element (resolve r st cs)"
  by (induction cs arbitrary: st) (simp_all add: push_elements)

lemma join_elements:
  assumes "list_all element es" and "es \<noteq> []"
  shows "join ''/'' es \<noteq> []" and "\<not> IsAbs (join ''/'' es)" and "split_on CHR ''/'' (join ''/'' es) = es"
proof -
  obtain d ds where es: "es = d # ds" using assms(2) by (cases es) simp_all
  obtain x xs where d: "d = x # xs" "x \<noteq> CHR ''/''"
    using assms(1) es by (cases d) (auto simp: element_def proper_def)
  obtain y where "join ''/'' es = x # y" using es d(1) by (cases ds) simp_all
  with d(2) show "join ''/'' es \<noteq> []" and "\<not> IsAbs (join ''/'' es)" by (simp_all add: IsAbs_def HasPrefix_def)
  show "split_on CHR ''/'' (join ''/'' es) = es" using assms by (intro split_on_join) (simp_all add: list_all_iff element_def)
qed

lemma resolve_Clean_rel:
  assumes "\<not> IsAbs p"
  shows "resolve True A (split_on CHR ''/'' (Clean p)) = resolve True A (split_on CHR ''/'' p)" and "\<not> IsAbs (Clean p)"
proof -
  let ?st = "resolve False [] (split_on CHR ''/'' p)"
  have "list_all element ?st" by (rule resolve_elements) (simp_all add: split_on_no_sep)
  then have st: "list_all element (rev ?st)" by (simp add: list_all_rev)
  have r: "resolve True A (rev ?st) = resolve True A (split_on CHR ''/'' p)"
    using resolve_clean [of "[]" A "split_on CHR ''/'' p"] by simp
  have "resolve True A (split_on CHR ''/'' (Clean p)) = resolve True A (split_on CHR ''/'' p) \<and> \<not> IsAbs (Clean p)"
  proof (cases "rev ?st = []")
    case True
    then have "Clean p = ''.''" using assms by (simp add: Clean_def)
    moreover have "resolve True A (split_on CHR ''/'' ''.'') = A" by (simp add: push_def)
    ultimately show ?thesis using True r by (simp add: IsAbs_def HasPrefix_def)
  next
    case False
    with join_elements [OF st False] assms have "Clean p = join ''/'' (rev ?st)" by (simp add: Clean_def)
    with join_elements [OF st False] r show ?thesis by simp
  qed
  then show "resolve True A (split_on CHR ''/'' (Clean p)) = resolve True A (split_on CHR ''/'' p)" and "\<not> IsAbs (Clean p)" by simp_all
qed

text \<open>Where an absolute path, or a relative one in a working directory, leads.\<close>

definition base :: "string \<Rightarrow> string \<Rightarrow> string list" where
  "base cwd p = (if IsAbs p then [] else resolve True [] (split_on CHR ''/'' cwd))"

lemma Abs_path:
  assumes "IsAbs cwd"
  shows "Abs cwd p = path_of (resolve True (base cwd p) (split_on CHR ''/'' p))"
proof (cases "IsAbs p")
  case False
  have "cwd \<noteq> []" using assms by (auto simp: IsAbs_def HasPrefix_def)
  moreover have "IsAbs (join ''/'' [cwd, p])" using assms by (cases cwd) (auto simp: IsAbs_def HasPrefix_def)
  ultimately show ?thesis using False
    by (simp add: Abs_def Join_def Clean_abs base_def split_on_append)
qed (simp add: Abs_def Clean_abs base_def)

lemma place_Join:
  assumes "e \<noteq> []"
  shows "resolve True (base cwd (Join (e # es))) (split_on CHR ''/'' (Join (e # es)))
    = resolve True (base cwd e) (concat (map (split_on CHR ''/'') (e # es)))"
proof -
  let ?p = "join ''/'' (e # es)"
  have J: "Join (e # es) = Clean ?p" using assms by (simp add: Join_def)
  have s: "split_on CHR ''/'' ?p = concat (map (split_on CHR ''/'') (e # es))" by (rule split_join) simp
  have i: "IsAbs ?p = IsAbs e" using assms by (cases es; cases e) (auto simp: IsAbs_def HasPrefix_def)
  show ?thesis
  proof (cases "IsAbs e")
    case True
    with i have "Clean ?p = path_of (resolve True [] (split_on CHR ''/'' ?p))" by (simp add: Clean_abs)
    with True J s show ?thesis using resolve_path_of [OF plain_resolve, of True "[]" ?p] by (simp add: base_def)
  next
    case False
    with i have "\<not> IsAbs ?p" by simp
    from resolve_Clean_rel [OF this] False J s show ?thesis by (simp add: base_def)
  qed
qed

lemma Abs_Join:
  assumes "IsAbs cwd" and "e \<noteq> []"
  shows "Abs cwd (Join (e # es)) = path_of (resolve True (base cwd e) (concat (map (split_on CHR ''/'') (e # es))))"
  by (simp only: Abs_path [OF assms(1)] place_Join [OF assms(2)])

lemma Join_nonempty: "e \<noteq> [] \<Longrightarrow> Join (e # es) \<noteq> []"
  by (simp add: Join_def Clean_def Let_def)

lemma Abs_Join_Join:
  assumes "IsAbs cwd" and "e \<noteq> []"
  shows "Abs cwd (Join [Join (e # es), x]) = path_of (resolve True (base cwd e) (concat (map (split_on CHR ''/'') (e # es @ [x]))))"
proof -
  have "Abs cwd (Join [Join (e # es), x]) = path_of (resolve True (base cwd (Join (e # es))) (split_on CHR ''/'' (Join (e # es)) @ split_on CHR ''/'' x))"
    by (simp add: Abs_Join [OF assms(1) Join_nonempty [OF assms(2)]])
  then show ?thesis unfolding resolve_append place_Join [OF assms(2)] by simp
qed

section \<open>Files\<close>

datatype node = Dir | File string

type_synonym fs = "(string list \<times> node) list"

datatype io_error = ENOENT | ENOTDIR | EISDIR | EEXIST | ENOTEMPTY | EREAD

text \<open>A reader delivers bytes and then ends or fails.\<close>

record reader =
  rd_data :: string
  rd_fails :: bool

definition is_file :: "fs \<Rightarrow> string list \<Rightarrow> bool" where
  "is_file d p = (case map_of d p of Some (File _) \<Rightarrow> True | _ \<Rightarrow> False)"

definition Stat :: "string list \<Rightarrow> fs \<Rightarrow> io_error + node" where
  "Stat p d = (case map_of d p of Some n \<Rightarrow> Inr n
     | None \<Rightarrow> if list_ex (is_file d) (prefixes p) then Inl ENOTDIR else Inl ENOENT)"

definition MkdirAll :: "string list \<Rightarrow> fs \<Rightarrow> io_error + fs" where
  "MkdirAll p d =
     (if list_ex (is_file d) (prefixes p) then Inl ENOTDIR
      else Inr (foldl (\<lambda>d q. AList.update q Dir d) d (prefixes p)))"

definition OpenTrunc :: "string list \<Rightarrow> fs \<Rightarrow> io_error + fs" where
  "OpenTrunc p d =
     (if p = [] \<or> map_of d p = Some Dir then Inl EISDIR
      else if map_of d (butlast p) \<noteq> Some Dir then Inl ENOENT
      else Inr (AList.update p (File []) d))"

definition WriteFile :: "string list \<Rightarrow> string \<Rightarrow> fs \<Rightarrow> fs" where
  "WriteFile p c d = (if is_file d p then AList.update p (File c) d else d)"

definition Remove :: "string list \<Rightarrow> fs \<Rightarrow> io_error + fs" where
  "Remove p d = (case map_of d p of None \<Rightarrow> Inl ENOENT
     | Some (File _) \<Rightarrow> Inr (AList.delete p d)
     | Some Dir \<Rightarrow> if list_ex (\<lambda>(q, _). strict_prefix p q) d then Inl ENOTEMPTY else Inr (AList.delete p d))"

definition RemoveAll :: "string list \<Rightarrow> fs \<Rightarrow> fs" where
  "RemoveAll p d = filter (\<lambda>(q, _). \<not> prefix p q) d"

text \<open>\<open>rename\<close> of a regular file.\<close>

definition Rename :: "string list \<Rightarrow> string list \<Rightarrow> fs \<Rightarrow> io_error + fs" where
  "Rename p q d = (case map_of d p of Some (File c) \<Rightarrow>
       if q = [] \<or> map_of d q = Some Dir then Inl EEXIST
       else if map_of d (butlast q) \<noteq> Some Dir then Inl ENOENT
       else Inr (AList.update q (File c) (AList.delete p d))
     | _ \<Rightarrow> Inl ENOENT)"

definition ReadDir :: "string list \<Rightarrow> fs \<Rightarrow> string list" where
  "ReadDir p d = sort (map last (filter (\<lambda>q. q \<noteq> [] \<and> butlast q = p) (map fst d)))"

text \<open>A file system has one entry for each path, a root, and every entry lies in a directory.\<close>

definition fs_ok :: "fs \<Rightarrow> bool" where
  "fs_ok d \<longleftrightarrow> distinct (map fst d) \<and> map_of d [] = Some Dir \<and> (\<forall>p\<in>set (map fst d). p \<noteq> [] \<longrightarrow> map_of d (butlast p) = Some Dir)"

lemma map_of_update [simp]: "map_of (AList.update p n d) = (map_of d)(p \<mapsto> n)"
  by (rule update_conv')

lemma map_of_delete [simp]: "map_of (AList.delete p d) = (map_of d)(p := None)"
  by (simp add: delete_conv' fun_upd_def restrict_map_def fun_eq_iff)

lemma map_of_RemoveAll: "map_of (RemoveAll p d) q = (if prefix p q then None else map_of d q)"
  by (induction d) (auto simp: RemoveAll_def)

lemma distinct_fs [simp]:
  "distinct (map fst d) \<Longrightarrow> distinct (map fst (AList.update p n d))"
  "distinct (map fst d) \<Longrightarrow> distinct (map fst (AList.delete p d))"
  "distinct (map fst d) \<Longrightarrow> distinct (map fst (RemoveAll p d))"
  by (simp_all add: distinct_update distinct_delete RemoveAll_def distinct_map_filter)

lemma fs_okI:
  assumes "distinct (map fst d)" and "map_of d [] = Some Dir" and "\<And>p. p \<noteq> [] \<Longrightarrow> map_of d p \<noteq> None \<Longrightarrow> map_of d (butlast p) = Some Dir"
  shows "fs_ok d"
  using assms by (auto simp: fs_ok_def map_of_eq_None_iff)

lemma fs_okD:
  assumes "fs_ok d"
  shows "distinct (map fst d)" and "map_of d [] = Some Dir" and "\<And>p. p \<noteq> [] \<Longrightarrow> map_of d p \<noteq> None \<Longrightarrow> map_of d (butlast p) = Some Dir"
  using assms by (auto simp: fs_ok_def map_of_eq_None_iff)

lemma fs_ok_above: "fs_ok d \<Longrightarrow> map_of d p \<noteq> None \<Longrightarrow> strict_prefix q p \<Longrightarrow> map_of d q = Some Dir"
proof (induction p rule: rev_induct)
  case (snoc x xs)
  then have "map_of d xs = Some Dir" using fs_okD(3) [OF snoc.prems(1), of "xs @ [x]"] by simp
  with snoc show ?case by (cases "q = xs") (auto simp: strict_prefix_def)
qed simp

text \<open>What \<open>MkdirAll\<close> leaves: the directories of the path, and all that was there.\<close>

lemma map_of_mkdirs: "map_of (foldl (\<lambda>d q. AList.update q Dir d) d ps) q = (if q \<in> set ps then Some Dir else map_of d q)"
  by (induction ps arbitrary: d) simp_all

lemma MkdirAll_spec:
  assumes "fs_ok d" and "MkdirAll p d = Inr d'"
  shows "map_of d' q = (if prefix q p then Some Dir else map_of d q)" and "fs_ok d'"
    and "map_of d q = Some n \<Longrightarrow> map_of d' q = Some n"
proof -
  have nf: "\<not> is_file d r" if "prefix r p" for r using assms(2) that by (auto simp: MkdirAll_def list_ex_iff split: if_splits)
  have m: "map_of d' r = (if prefix r p then Some Dir else map_of d r)" for r
    using assms(2) by (auto simp: MkdirAll_def map_of_mkdirs split: if_splits)
  show "map_of d' q = (if prefix q p then Some Dir else map_of d q)" by (rule m)
  have "distinct (map fst (foldl (\<lambda>d q. AList.update q Dir d) d ps))" if "distinct (map fst d)" for ps and d :: fs
    using that by (induction ps arbitrary: d) simp_all
  then have "distinct (map fst d')" using assms fs_okD(1) by (auto simp: MkdirAll_def split: if_splits)
  moreover have "map_of d' (butlast r) = Some Dir" if "r \<noteq> []" "map_of d' r \<noteq> None" for r
    using that fs_okD(3) [OF assms(1), of r] prefix_order.trans [OF prefixeq_butlast [of r], of p] by (auto simp: m split: if_splits)
  ultimately show "fs_ok d'" by (intro fs_okI) (simp_all add: m)
  show "map_of d q = Some n \<Longrightarrow> map_of d' q = Some n"
    using nf [of q] by (cases n) (auto simp: m is_file_def)
qed

end
