(* ===== verification/Artifact.thy ===== *)
theory Artifact
  imports Files
begin

text \<open>
  The artifact store on the file system (\<open>internal/artifact/store.go\<close>): the files of a run live below a directory of its own.
\<close>

section \<open>Paths of artifacts\<close>

datatype art_error = ErrNotFound | ErrInvalidPath | ErrPayloadTooBig | ErrIO io_error | ErrRootRequired

record FilesystemStore =
  fss_Root :: string

definition NewFilesystemStore :: "string \<Rightarrow> string \<Rightarrow> fs \<Rightarrow> (art_error + FilesystemStore) \<times> fs" where
  "NewFilesystemStore cwd rt d =
     (if rt = [] then (Inl ErrRootRequired, d)
      else case MkdirAll (parts (Abs cwd rt)) d of
        Inl e \<Rightarrow> (Inl (ErrIO e), d) | Inr d' \<Rightarrow> (Inr \<lparr>fss_Root = rt\<rparr>, d'))"

definition absoluteFor :: "string \<Rightarrow> FilesystemStore \<Rightarrow> string \<Rightarrow> string \<Rightarrow> art_error + string" where
  "absoluteFor cwd f runID relPath =
     (if runID = [] then Inl ErrInvalidPath
      else if list_ex (\<lambda>c. c = CHR ''/'' \<or> c = CHR 0x5C) runID then Inl ErrInvalidPath
      else
        let cln = Clean (''/'' @ relPath);
            cln = (if cln = ''/'' then [] else cln);
            full = Join [fss_Root f, runID, cln];
            absRoot = Abs cwd (Join [fss_Root f, runID]);
            absFull = Abs cwd full
        in if \<not> HasPrefix (absFull @ ''/'') (absRoot @ ''/'') \<and> absFull \<noteq> absRoot then Inl ErrInvalidPath
           else Inr absFull)"

section \<open>Operations\<close>

definition remove_quietly :: "string list \<Rightarrow> fs \<Rightarrow> fs" where
  "remove_quietly p d = (case Remove p d of Inl _ \<Rightarrow> d | Inr d' \<Rightarrow> d')"

text \<open>\<open>io.Copy\<close> from a reader, of which only \<open>maxSize + 1\<close> bytes are read when there is a bound.\<close>

definition limited :: "int \<Rightarrow> reader \<Rightarrow> reader" where
  "limited maxSize r =
     (if 0 < maxSize then
        \<lparr>rd_data = take (nat maxSize + 1) (rd_data r), rd_fails = rd_fails r \<and> length (rd_data r) \<le> nat maxSize\<rparr>
      else r)"

definition Upload :: "string \<Rightarrow> FilesystemStore \<Rightarrow> string \<Rightarrow> string \<Rightarrow> reader \<Rightarrow> int \<Rightarrow> fs \<Rightarrow> (art_error + unit) \<times> fs" where
  "Upload cwd f runID relPath r maxSize d =
     (case absoluteFor cwd f runID relPath of Inl e \<Rightarrow> (Inl e, d)
      | Inr full \<Rightarrow>
        if full = Abs cwd (Join [fss_Root f, runID]) then (Inl ErrInvalidPath, d)
        else case MkdirAll (butlast (parts full)) d of Inl e \<Rightarrow> (Inl (ErrIO e), d)
        | Inr d1 \<Rightarrow>
          let tmp = parts (full @ ''.part'') in
          (case OpenTrunc tmp d1 of Inl e \<Rightarrow> (Inl (ErrIO e), d1)
           | Inr d2 \<Rightarrow>
             let src = limited maxSize r; d3 = WriteFile tmp (rd_data src) d2 in
             if rd_fails src then (Inl (ErrIO EREAD), remove_quietly tmp d3)
             else if 0 < maxSize \<and> maxSize < int (length (rd_data src)) then (Inl ErrPayloadTooBig, remove_quietly tmp d3)
             else case Rename tmp (parts full) d3 of
               Inl e \<Rightarrow> (Inl (ErrIO e), remove_quietly tmp d3)
             | Inr d4 \<Rightarrow> (Inr (), remove_quietly tmp d4)))"

definition Open :: "string \<Rightarrow> FilesystemStore \<Rightarrow> string \<Rightarrow> string \<Rightarrow> fs \<Rightarrow> art_error + string \<times> nat" where
  "Open cwd f runID relPath d =
     (case absoluteFor cwd f runID relPath of Inl e \<Rightarrow> Inl e
      | Inr full \<Rightarrow> (case Stat (parts full) d of
          Inl e \<Rightarrow> if e = ENOENT then Inl ErrNotFound else Inl (ErrIO e)
        | Inr Dir \<Rightarrow> Inl ErrInvalidPath
        | Inr (File c) \<Rightarrow> Inr (c, length c)))"

definition Delete :: "string \<Rightarrow> FilesystemStore \<Rightarrow> string \<Rightarrow> string \<Rightarrow> fs \<Rightarrow> (art_error + unit) \<times> fs" where
  "Delete cwd f runID relPath d =
     (case absoluteFor cwd f runID relPath of Inl e \<Rightarrow> (Inl e, d)
      | Inr full \<Rightarrow> (case Stat (parts full) d of
          Inl e \<Rightarrow> (if e = ENOENT then Inl ErrNotFound else Inl (ErrIO e), d)
        | Inr _ \<Rightarrow> (Inr (), RemoveAll (parts full) d)))"

record ListEntry =
  le_Path :: string
  le_IsDir :: bool
  le_Size :: nat

definition List :: "string \<Rightarrow> FilesystemStore \<Rightarrow> string \<Rightarrow> string \<Rightarrow> fs \<Rightarrow> art_error + ListEntry list" where
  "List cwd f runID dir d =
     (case absoluteFor cwd f runID dir of Inl e \<Rightarrow> Inl e
      | Inr full \<Rightarrow> (case Stat (parts full) d of
          Inl e \<Rightarrow> if e = ENOENT then Inr [] else Inl (ErrIO e)
        | Inr (File c) \<Rightarrow> Inr [\<lparr>le_Path = dir, le_IsDir = False, le_Size = length c\<rparr>]
        | Inr Dir \<Rightarrow> Inr (map (\<lambda>nm.
            let rel = (if dir = [] \<or> dir = ''.'' then nm else Join [dir, nm]) in
            case map_of d (parts full @ [nm]) of
              Some (File c) \<Rightarrow> \<lparr>le_Path = rel, le_IsDir = False, le_Size = length c\<rparr>
            | _ \<Rightarrow> \<lparr>le_Path = rel, le_IsDir = True, le_Size = 0\<rparr>) (ReadDir (parts full) d))))"

section \<open>Confinement\<close>

text \<open>Where the artifacts of a run live, and where a path below it leads.\<close>

definition run_dir :: "string \<Rightarrow> FilesystemStore \<Rightarrow> string \<Rightarrow> string list" where
  "run_dir cwd f runID = rev (resolve True (base cwd (fss_Root f)) (split_on CHR ''/'' (fss_Root f))) @ [runID]"

definition below :: "string \<Rightarrow> string list" where
  "below relPath = rev (resolve True [] (split_on CHR ''/'' relPath))"

definition run_id_ok :: "string \<Rightarrow> bool" where
  "run_id_ok runID \<longleftrightarrow> plain runID \<and> CHR 0x5C \<notin> set runID"

lemma plain_below: "list_all plain (below relPath)"
  by (simp add: below_def list_all_rev plain_resolve)

lemma plain_run_dir: "plain runID \<Longrightarrow> list_all plain (run_dir cwd f runID)"
  by (simp add: run_dir_def list_all_rev base_def plain_resolve resolve_rooted split_on_no_sep)

lemma join_append: "xs \<noteq> [] \<Longrightarrow> ys \<noteq> [] \<Longrightarrow> join sep (xs @ ys) = join sep xs @ sep @ join sep ys"
  by (induction xs rule: induct_list012) (simp_all add: neq_Nil_conv, metis join.simps(3))

lemma path_of_prefix: "xs \<noteq> [] \<Longrightarrow> HasPrefix (path_of (rev (xs @ ys)) @ ''/'') (path_of (rev xs) @ ''/'')"
  by (cases "ys = []") (simp_all add: path_of_def HasPrefix_def join_append prefix_def)

lemma absoluteFor_spec:
  assumes "IsAbs cwd" and "fss_Root f \<noteq> []" and "run_id_ok runID"
  shows "absoluteFor cwd f runID relPath = Inr (path_of (rev (run_dir cwd f runID @ below relPath)))"
    and "Abs cwd (Join [fss_Root f, runID]) = path_of (rev (run_dir cwd f runID))"
proof -
  let ?R = "resolve True (base cwd (fss_Root f)) (split_on CHR ''/'' (fss_Root f))"
  let ?C = "resolve True [] (split_on CHR ''/'' relPath)"
  have pl: "plain runID" using assms(3) by (simp add: run_id_ok_def)
  have C: "Clean (''/'' @ relPath) = path_of ?C" by (subst Clean_abs) (simp_all add: IsAbs_def HasPrefix_def)
  show root: "Abs cwd (Join [fss_Root f, runID]) = path_of (rev (run_dir cwd f runID))"
    by (simp add: Abs_Join [OF assms(1,2)] plain_split [OF pl] push_plain [OF pl] run_dir_def)
  have emp: "path_of ?C = ''/'' \<longleftrightarrow> ?C = []"
    using parts_path_of [OF plain_resolve, of relPath] by (auto simp: path_of_def parts_def)
  have "Abs cwd (Join [fss_Root f, runID, if path_of ?C = ''/'' then [] else path_of ?C]) = path_of (?C @ runID # ?R)"
    by (simp add: Abs_Join [OF assms(1,2)] plain_split [OF pl] push_plain [OF pl] resolve_path_of [OF plain_resolve] emp)
  then have full: "Abs cwd (Join [fss_Root f, runID, if path_of ?C = ''/'' then [] else path_of ?C]) = path_of (rev (run_dir cwd f runID @ below relPath))"
    by (simp add: run_dir_def below_def)
  have "HasPrefix (path_of (rev (run_dir cwd f runID @ below relPath)) @ ''/'') (path_of (rev (run_dir cwd f runID)) @ ''/'')"
    by (rule path_of_prefix) (simp add: run_dir_def)
  moreover have "runID \<noteq> []" "\<not> list_ex (\<lambda>c. c = CHR ''/'' \<or> c = CHR 0x5C) runID"
    using assms(3) by (auto simp: run_id_ok_def plain_def list_ex_iff)
  ultimately show "absoluteFor cwd f runID relPath = Inr (path_of (rev (run_dir cwd f runID @ below relPath)))"
    by (simp add: absoluteFor_def C full root Let_def run_dir_def del: append.simps)
qed

text \<open>An id \<open>..\<close> is not refused and leads out of the directory of the store.\<close>

lemma dotdot_run_escapes: "absoluteFor ''/srv'' \<lparr>fss_Root = ''artifacts''\<rparr> ''..'' ''data.db'' = Inr ''/srv/data.db''"
  by code_simp

section \<open>What an upload does\<close>

definition artifact :: "string \<Rightarrow> FilesystemStore \<Rightarrow> string \<Rightarrow> string \<Rightarrow> string list" where
  "artifact cwd f runID relPath = run_dir cwd f runID @ below relPath"

text \<open>The temporary file of an upload.\<close>

definition part_file :: "string list \<Rightarrow> string list" where
  "part_file p = butlast p @ [last p @ ''.part'']"

lemma join_last: "join sep (xs @ [c]) @ e = join sep (xs @ [c @ e])"
  by (cases "xs = []") (simp_all add: join_append)

lemma parts_part:
  assumes "list_all plain p" and "p \<noteq> []"
  shows "parts (path_of (rev p) @ ''.part'') = part_file p"
proof -
  obtain q c where p: "p = q @ [c]" using assms(2) by (cases p rule: rev_cases) auto
  have "CHR ''/'' \<notin> set c" "length (c @ ''.part'') \<noteq> length ''..''" using assms(1) by (simp_all add: p plain_def)
  then have "plain (c @ ''.part'')" by (cases c) (auto simp: plain_def)
  then have "list_all plain (rev (q @ [c @ ''.part'']))" using assms(1) by (simp add: p list_all_rev)
  from parts_path_of [OF this] have "parts (path_of (rev (q @ [c @ ''.part'']))) = q @ [c @ ''.part'']" by simp
  then show ?thesis by (simp add: p path_of_def join_last part_file_def)
qed

lemma part_file_ne: "p \<noteq> [] \<Longrightarrow> part_file p \<noteq> p" "part_file p \<noteq> []" "butlast (part_file p) = butlast p"
  by (auto simp: part_file_def) (metis append_butlast_last_id append_self_conv list.distinct(1) same_append_eq list.inject)

lemma artifact_props:
  assumes "run_id_ok runID"
  shows "list_all plain (artifact cwd f runID relPath)" and "artifact cwd f runID relPath \<noteq> []"
  using assms by (simp_all add: artifact_def plain_run_dir plain_below run_id_ok_def) (simp add: run_dir_def)

text \<open>The steps after the temporary file is open.\<close>

lemma remove_file: "is_file d p \<Longrightarrow> map_of (remove_quietly p d) = (map_of d)(p := None)"
  by (auto simp: remove_quietly_def Remove_def is_file_def split: option.splits node.splits)

lemma remove_missing: "map_of d p = None \<Longrightarrow> remove_quietly p d = d"
  by (simp add: remove_quietly_def Remove_def)

lemma distinct_remove [simp]: "distinct (map fst d) \<Longrightarrow> distinct (map fst (remove_quietly p d))"
  by (auto simp: remove_quietly_def Remove_def split: option.splits node.splits)

definition upload_at :: "string list \<Rightarrow> reader \<Rightarrow> int \<Rightarrow> fs \<Rightarrow> (art_error + unit) \<times> fs" where
  "upload_at p r maxSize d =
     (case MkdirAll (butlast p) d of Inl e \<Rightarrow> (Inl (ErrIO e), d)
      | Inr d1 \<Rightarrow>
        (case OpenTrunc (part_file p) d1 of Inl e \<Rightarrow> (Inl (ErrIO e), d1)
         | Inr d2 \<Rightarrow>
           let src = limited maxSize r; d3 = WriteFile (part_file p) (rd_data src) d2 in
           if rd_fails src then (Inl (ErrIO EREAD), remove_quietly (part_file p) d3)
           else if 0 < maxSize \<and> maxSize < int (length (rd_data src)) then (Inl ErrPayloadTooBig, remove_quietly (part_file p) d3)
           else case Rename (part_file p) p d3 of
             Inl e \<Rightarrow> (Inl (ErrIO e), remove_quietly (part_file p) d3)
           | Inr d4 \<Rightarrow> (Inr (), remove_quietly (part_file p) d4)))"

lemma Upload_at:
  assumes "IsAbs cwd" and "fss_Root f \<noteq> []" and "run_id_ok runID"
  shows "Upload cwd f runID relPath r maxSize d =
    (if below relPath = [] then (Inl ErrInvalidPath, d) else upload_at (artifact cwd f runID relPath) r maxSize d)"
proof -
  let ?p = "artifact cwd f runID relPath"
  note props = artifact_props [OF assms(3), of cwd f relPath]
  have a: "absoluteFor cwd f runID relPath = Inr (path_of (rev ?p))" using absoluteFor_spec(1) [OF assms] by (simp add: artifact_def)
  have pp: "parts (path_of (rev ?p)) = ?p" using parts_path_of [of "rev ?p"] props(1) by (simp add: list_all_rev)
  have "path_of (rev ?p) = path_of (rev (run_dir cwd f runID)) \<longleftrightarrow> below relPath = []"
    using parts_path_of [of "rev (run_dir cwd f runID)"] plain_run_dir [of runID cwd f] assms(3) pp
    by (auto simp: artifact_def list_all_rev run_id_ok_def)
  with absoluteFor_spec(2) [OF assms] show ?thesis
    unfolding Upload_def a sum.case pp parts_part [OF props] upload_at_def Let_def by simp
qed

text \<open>Directories that an upload has made on the way to a path.\<close>

definition new_dir :: "string list \<Rightarrow> fs \<Rightarrow> fs \<Rightarrow> string list \<Rightarrow> bool" where
  "new_dir p d d' q \<longleftrightarrow> strict_prefix q p \<and> map_of d q = None \<and> map_of d' q = Some Dir"

lemma strict_prefix_butlast: "p \<noteq> [] \<Longrightarrow> prefix q (butlast p) \<longleftrightarrow> strict_prefix q p"
  by (cases p rule: rev_cases) (auto simp: strict_prefix_def dest: prefix_length_le)

text \<open>The four ways an upload can end.\<close>

lemma upload_at_cases [consumes 3]:
  assumes "fs_ok d" and "p \<noteq> []" and "upload_at p r maxSize d = (res, d')"
  obtains (mkdir) e where "res = Inl e" "d' = d"
  | (opened) d1 e where "MkdirAll (butlast p) d = Inr d1" "res = Inl e" "d' = d1"
  | (failed) d1 e where "MkdirAll (butlast p) d = Inr d1" "res = Inl e" "map_of d1 (part_file p) \<noteq> Some Dir"
      "map_of d' = (map_of d1)(part_file p := None)" "distinct (map fst d')"
  | (stored) d1 where "MkdirAll (butlast p) d = Inr d1" "res = Inr ()" "map_of d1 (part_file p) \<noteq> Some Dir" "map_of d1 p \<noteq> Some Dir"
      "map_of d' = (map_of d1)(part_file p := None, p \<mapsto> File (rd_data (limited maxSize r)))" "distinct (map fst d')"
      "\<not> rd_fails (limited maxSize r)" "\<not> (0 < maxSize \<and> maxSize < int (length (rd_data (limited maxSize r))))"
proof (cases "MkdirAll (butlast p) d")
  case (Inl e)
  with assms(3) show ?thesis by (auto simp: upload_at_def intro: mkdir)
next
  case (Inr d1)
  let ?t = "part_file p" and ?src = "limited maxSize r"
  note d1 = MkdirAll_spec [OF assms(1) Inr]
  show ?thesis
  proof (cases "OpenTrunc ?t d1")
    case (Inl e)
    with Inr assms(3) show ?thesis by (auto simp: upload_at_def intro: opened)
  next
    case o: (Inr d2)
    then have t: "map_of d1 ?t \<noteq> Some Dir" and d2: "d2 = AList.update ?t (File []) d1" by (auto simp: OpenTrunc_def split: if_splits)
    define d3 where "d3 = WriteFile ?t (rd_data ?src) d2"
    have m3: "map_of d3 = (map_of d1)(?t \<mapsto> File (rd_data ?src))" and dist: "distinct (map fst d3)"
      using fs_okD(1) [OF d1(2)] by (simp_all add: d3_def d2 WriteFile_def is_file_def)
    have f3: "is_file d3 ?t" by (simp add: is_file_def m3)
    have fail: thesis if "res = Inl e" "d' = remove_quietly ?t d3" for e
      by (rule failed [OF Inr that(1) t]) (simp_all add: that(2) remove_file [OF f3] m3 dist)
    show ?thesis
    proof (cases "rd_fails ?src \<or> 0 < maxSize \<and> maxSize < int (length (rd_data ?src))")
      case True
      with assms(3) Inr o d3_def show ?thesis by (auto simp: upload_at_def Let_def intro: fail split: if_splits)
    next
      case ok: False
      show ?thesis
      proof (cases "Rename ?t p d3")
        case (Inl e)
        with ok assms(3) Inr o d3_def show ?thesis by (auto simp: upload_at_def Let_def intro: fail)
      next
        case rn: (Inr d4)
        then have p: "map_of d1 p \<noteq> Some Dir" and d4: "d4 = AList.update p (File (rd_data ?src)) (AList.delete ?t d3)"
          using part_file_ne(1) [OF assms(2)] by (auto simp: Rename_def m3 split: if_splits)
        have m4: "map_of d4 = (map_of d1)(?t := None, p \<mapsto> File (rd_data ?src))" by (simp add: d4 m3)
        then have "remove_quietly ?t d4 = d4" using part_file_ne(1) [OF assms(2)] by (intro remove_missing) simp
        with ok rn assms(3) Inr o d3_def have "res = Inr ()" "d' = d4" by (auto simp: upload_at_def Let_def)
        then show ?thesis using ok by (intro stored [OF Inr _ t p]) (simp_all add: m3 m4 d4 dist)
      qed
    qed
  qed
qed

lemma limited_all:
  assumes "\<not> rd_fails (limited maxSize r)" and "\<not> (0 < maxSize \<and> maxSize < int (length (rd_data (limited maxSize r))))"
  shows "rd_data (limited maxSize r) = rd_data r \<and> \<not> rd_fails r \<and> (0 < maxSize \<longrightarrow> int (length (rd_data r)) \<le> maxSize)"
  using assms by (auto simp: limited_def split: if_splits)

text \<open>Taking a file away and putting one into a directory keep a file system well formed.\<close>

lemma fs_ok_removed:
  assumes "fs_ok d" and "map_of d t \<noteq> Some Dir" and "distinct (map fst d')" and "map_of d' = (map_of d)(t := None)"
  shows "fs_ok d'"
proof (rule fs_okI [OF assms(3)])
  note d = fs_okD(2,3) [OF assms(1)]
  show "map_of d' [] = Some Dir" using assms(2) d(1) by (auto simp: assms(4))
  show "map_of d' (butlast q) = Some Dir" if "q \<noteq> []" "map_of d' q \<noteq> None" for q
    using assms(2) that d(2) [of q] by (auto simp: assms(4) split: if_splits)
qed

lemma fs_ok_stored:
  assumes "fs_ok d" and "map_of d t \<noteq> Some Dir" and "distinct (map fst d')"
    and "map_of d' = (map_of d)(t := None, p \<mapsto> File c)" and "p \<noteq> []" and "map_of d p \<noteq> Some Dir" and "map_of d (butlast p) = Some Dir"
  shows "fs_ok d'"
proof (rule fs_okI [OF assms(3)])
  note d = fs_okD(2,3) [OF assms(1)]
  show "map_of d' [] = Some Dir" using assms(2,5) d(1) by (auto simp: assms(4))
  show "map_of d' (butlast q) = Some Dir" if q: "q \<noteq> []" "map_of d' q \<noteq> None" for q
  proof (cases "q = p")
    case True
    then have "butlast q \<noteq> q" using q(1) by (metis append_butlast_last_id not_Cons_self2 self_append_conv)
    with True show ?thesis using assms(2,7) by (auto simp: assms(4))
  next
    case False
    with q have "map_of d (butlast q) = Some Dir" using d(2) [of q] by (auto simp: assms(4) split: if_splits)
    with assms(2,6) show ?thesis by (auto simp: assms(4))
  qed
qed

lemma upload_at_outcome:
  assumes "fs_ok d" and "p \<noteq> []" and "upload_at p r maxSize d = (res, d')"
  shows "fs_ok d'" and "map_of d' (part_file p) \<in> {map_of d (part_file p), None}"
    and "\<And>q. q \<noteq> part_file p \<Longrightarrow> q \<noteq> p \<or> res \<noteq> Inr () \<Longrightarrow> map_of d' q = map_of d q \<or> new_dir p d d' q"
    and "res = Inr () \<Longrightarrow> map_of d' p = Some (File (rd_data r)) \<and> \<not> rd_fails r \<and> (0 < maxSize \<longrightarrow> int (length (rd_data r)) \<le> maxSize)"
proof -
  let ?t = "part_file p"
  have pt: "\<not> strict_prefix ?t p" using prefix_length_less [of ?t p] assms(2) by (auto simp: part_file_def)
  have mk: "fs_ok d1 \<and> (\<forall>q. map_of d1 q = map_of d q \<or> (strict_prefix q p \<and> map_of d q = None \<and> map_of d1 q = Some Dir)) \<and> map_of d1 (butlast p) = Some Dir \<and> map_of d1 ?t = map_of d ?t"
    if "MkdirAll (butlast p) d = Inr d1" for d1
  proof -
    note m = MkdirAll_spec [OF assms(1) that]
    have e: "map_of d1 q = (if strict_prefix q p then Some Dir else map_of d q)" for q using m(1) by (simp add: strict_prefix_butlast [OF assms(2)])
    have "map_of d1 q = map_of d q \<or> (strict_prefix q p \<and> map_of d q = None \<and> map_of d1 q = Some Dir)" for q
      using m(3) [of q] e [of q] by (cases "map_of d q") auto
    moreover have "strict_prefix (butlast p) p" using strict_prefix_butlast [OF assms(2), of "butlast p"] by simp
    ultimately show ?thesis using m(2) e pt by simp
  qed
  show "fs_ok d'"
    using assms
  proof (cases rule: upload_at_cases)
    case (failed d1 e)
    show ?thesis by (rule fs_ok_removed [OF _ failed(3,5,4)]) (use mk [OF failed(1)] in blast)
  next
    case (stored d1)
    show ?thesis by (rule fs_ok_stored [OF _ stored(3,6,5) assms(2) stored(4)]) (use mk [OF stored(1)] in blast)+
  next
    case (opened d1 e)
    then show ?thesis using mk [OF opened(1)] by simp
  qed (use assms(1) in simp)
  show "map_of d' (part_file p) \<in> {map_of d (part_file p), None}"
    using assms
  proof (cases rule: upload_at_cases)
    case (opened d1 e)
    then show ?thesis using mk [OF opened(1)] by simp
  qed (use part_file_ne(1) [OF assms(2)] in simp_all)
  show "map_of d' q = map_of d q \<or> new_dir p d d' q" if q: "q \<noteq> ?t" "q \<noteq> p \<or> res \<noteq> Inr ()" for q
  proof -
    have "map_of d' q = map_of d1 q \<Longrightarrow> MkdirAll (butlast p) d = Inr d1 \<Longrightarrow> ?thesis" for d1
      using mk [of d1] by (auto simp: new_dir_def)
    with assms show ?thesis by (cases rule: upload_at_cases) (use q in simp_all)
  qed
  show "map_of d' p = Some (File (rd_data r)) \<and> \<not> rd_fails r \<and> (0 < maxSize \<longrightarrow> int (length (rd_data r)) \<le> maxSize)" if "res = Inr ()"
    using assms
  proof (cases rule: upload_at_cases)
    case (stored d1)
    with limited_all [OF stored(7,8)] show ?thesis by simp
  qed (use that in simp_all)
qed

lemma Open_spec:
  assumes "IsAbs cwd" and "fss_Root f \<noteq> []" and "run_id_ok runID"
  shows "Open cwd f runID relPath d = Inr (c, n) \<longleftrightarrow> map_of d (artifact cwd f runID relPath) = Some (File c) \<and> n = length c"
proof -
  have "parts (path_of (rev (artifact cwd f runID relPath))) = artifact cwd f runID relPath"
    using parts_path_of [of "rev (artifact cwd f runID relPath)"] artifact_props(1) [OF assms(3)] by (simp add: list_all_rev)
  then show ?thesis
    by (auto simp: Open_def absoluteFor_spec [OF assms] Stat_def simp flip: artifact_def split: option.splits node.splits if_splits)
qed

lemma part_file_below: "ys \<noteq> [] \<Longrightarrow> prefix xs (part_file (xs @ ys))"
  by (simp add: part_file_def butlast_append)

text \<open>
  C35. An upload to a run, with any path a client may send, touches nothing outside the directory of the run but for directories it
  has to make on the way there. When it succeeds the artifact reads back with exactly the uploaded bytes, which respect the bound
  on the size. Every other artifact of any run, and the previous version of this one when the upload fails, reads as before, except
  one whose name is that of the temporary file.
\<close>

theorem Upload_Open:
  assumes "IsAbs cwd" and "fss_Root f \<noteq> []" and "run_id_ok runID" and "fs_ok d"
    and "Upload cwd f runID relPath r maxSize d = (res, d')"
  shows "fs_ok d'
    \<and> (\<forall>q. map_of d' q = map_of d q \<or> prefix (run_dir cwd f runID) q \<or> new_dir (artifact cwd f runID relPath) d d' q)
    \<and> (res = Inr () \<longrightarrow> Open cwd f runID relPath d' = Inr (rd_data r, length (rd_data r)) \<and> \<not> rd_fails r
        \<and> (0 < maxSize \<longrightarrow> int (length (rd_data r)) \<le> maxSize))
    \<and> (\<forall>rid rel x. run_id_ok rid \<longrightarrow> artifact cwd f rid rel \<noteq> part_file (artifact cwd f runID relPath) \<longrightarrow>
        artifact cwd f rid rel \<noteq> artifact cwd f runID relPath \<or> res \<noteq> Inr () \<longrightarrow>
        Open cwd f rid rel d = Inr x \<longrightarrow> Open cwd f rid rel d' = Inr x)"
proof (cases "below relPath = []")
  case True
  with assms(4,5) show ?thesis by (auto simp: Upload_at [OF assms(1,2,3)])
next
  case False
  let ?p = "artifact cwd f runID relPath"
  have u: "upload_at ?p r maxSize d = (res, d')" using assms(5) False by (simp add: Upload_at [OF assms(1,2,3)])
  note out = upload_at_outcome [OF assms(4) artifact_props(2) [OF assms(3)] u]
  have pre: "prefix (run_dir cwd f runID) ?p" "prefix (run_dir cwd f runID) (part_file ?p)"
    using part_file_below [OF False] by (simp_all add: artifact_def)
  have conf: "map_of d' q = map_of d q \<or> prefix (run_dir cwd f runID) q \<or> new_dir ?p d d' q" for q
    using out(3) [of q] pre by blast
  have read: "res = Inr () \<longrightarrow> Open cwd f runID relPath d' = Inr (rd_data r, length (rd_data r)) \<and> \<not> rd_fails r
      \<and> (0 < maxSize \<longrightarrow> int (length (rd_data r)) \<le> maxSize)"
    using out(4) by (simp add: Open_spec [OF assms(1,2,3)])
  have other: "Open cwd f rid rel d' = Inr x"
    if "run_id_ok rid" "artifact cwd f rid rel \<noteq> part_file ?p" "artifact cwd f rid rel \<noteq> ?p \<or> res \<noteq> Inr ()" "Open cwd f rid rel d = Inr x" for rid rel x
  proof -
    obtain c n where x: "x = (c, n)" by (cases x)
    from that(4) have "map_of d (artifact cwd f rid rel) = Some (File c)" "n = length c"
      unfolding x by (simp_all add: Open_spec [OF assms(1,2) that(1)])
    with out(3) [OF that(2,3)] show ?thesis unfolding x by (simp add: Open_spec [OF assms(1,2) that(1)] new_dir_def)
  qed
  show ?thesis using out(1) conf read other by blast
qed

definition sample_store :: FilesystemStore where
  "sample_store = \<lparr>fss_Root = ''artifacts''\<rparr>"

definition sample_fs :: fs where
  "sample_fs = snd (Upload ''/srv'' sample_store ''r1'' ''m.part'' \<lparr>rd_data = ''old'', rd_fails = False\<rparr> 10 [([], Dir)])"

theorem Upload_Open_witness:
  "Open ''/srv'' sample_store ''r1'' ''../m'' (snd (Upload ''/srv'' sample_store ''r1'' ''../m'' \<lparr>rd_data = ''new'', rd_fails = False\<rparr> 10 [([], Dir)]))
     = Inr (''new'', 3)"
proof -
  have h: "IsAbs ''/srv''" "fss_Root sample_store \<noteq> []" "run_id_ok ''r1''" "fs_ok [([], Dir)]" by code_simp+
  have "fst (Upload ''/srv'' sample_store ''r1'' ''../m'' \<lparr>rd_data = ''new'', rd_fails = False\<rparr> 10 [([], Dir)]) = Inr ()" by code_simp
  then obtain d' where "Upload ''/srv'' sample_store ''r1'' ''../m'' \<lparr>rd_data = ''new'', rd_fails = False\<rparr> 10 [([], Dir)] = (Inr (), d')"
    by (metis prod.collapse)
  with Upload_Open [OF h this] show ?thesis by simp
qed

text \<open>The temporary file takes the place of an artifact of that name, which is lost.\<close>

lemma part_artifact_lost:
  "Open ''/srv'' sample_store ''r1'' ''m.part'' sample_fs = Inr (''old'', 3)"
  "Open ''/srv'' sample_store ''r1'' ''m.part''
     (snd (Upload ''/srv'' sample_store ''r1'' ''m'' \<lparr>rd_data = ''new'', rd_fails = False\<rparr> 10 sample_fs)) = Inl ErrNotFound"
  by code_simp+

text \<open>Deleting takes away what is below the given path of the run and nothing else.\<close>

lemma Delete_spec:
  assumes "IsAbs cwd" and "fss_Root f \<noteq> []" and "run_id_ok runID"
  shows "map_of (snd (Delete cwd f runID relPath d)) q =
    (if fst (Delete cwd f runID relPath d) = Inr () \<and> prefix (artifact cwd f runID relPath) q then None else map_of d q)"
proof -
  have "parts (path_of (rev (artifact cwd f runID relPath))) = artifact cwd f runID relPath"
    using parts_path_of [of "rev (artifact cwd f runID relPath)"] artifact_props(1) [OF assms(3)] by (simp add: list_all_rev)
  then show ?thesis
    by (simp add: Delete_def absoluteFor_spec [OF assms] map_of_RemoveAll flip: artifact_def split: sum.splits)
qed

end
