(* ===== verification/Cas.thy ===== *)
theory Cas
  imports Files Sha256
begin

text \<open>
  The content-addressed store of datasets (\<open>internal/datasets/cas.go\<close>): an object lives in the file named after its SHA-256, in one
  of 256 directories. The store promises a map from digests to contents; the files implement it.
\<close>

section \<open>The store\<close>

record CAS =
  cas_root :: string

datatype cas_error = CasInvalidHash | CasIO io_error

definition valid_hash :: "string \<Rightarrow> bool" where
  "valid_hash hash \<longleftrightarrow> length hash = 64 \<and> lower_hex hash"

definition pathFor :: "string \<Rightarrow> CAS \<Rightarrow> string \<Rightarrow> cas_error + string list \<times> string list" where
  "pathFor cwd c hash =
     (if length hash \<noteq> 64 then Inl CasInvalidHash
      else if \<not> lower_hex hash then Inl CasInvalidHash
      else let parent = Join [cas_root c, take 2 hash]
           in Inr (parts (Abs cwd (Join [parent, drop 2 hash])), parts (Abs cwd parent)))"

definition NewFilesystemCAS :: "string \<Rightarrow> string \<Rightarrow> fs \<Rightarrow> (cas_error + CAS) \<times> fs" where
  "NewFilesystemCAS cwd rt d =
     (case MkdirAll (parts (Abs cwd rt)) d of Inl e \<Rightarrow> (Inl (CasIO e), d) | Inr d' \<Rightarrow> (Inr \<lparr>cas_root = rt\<rparr>, d'))"

text \<open>\<open>os.CreateTemp\<close> with the random part of the name that it ends up with; it never opens an existing file.\<close>

definition CreateTemp :: "string list \<Rightarrow> fs \<Rightarrow> io_error + fs" where
  "CreateTemp p d =
     (if map_of d p \<noteq> None then Inl EEXIST
      else if map_of d (butlast p) \<noteq> Some Dir then Inl ENOENT
      else Inr (AList.update p (File []) d))"

definition temp_path :: "string \<Rightarrow> CAS \<Rightarrow> string \<Rightarrow> string list" where
  "temp_path cwd c rnd = parts (Abs cwd (cas_root c)) @ [''.upload-'' @ rnd @ ''.part'']"

definition cleanup :: "string list \<Rightarrow> fs \<Rightarrow> fs" where
  "cleanup p d = (case Remove p d of Inl _ \<Rightarrow> d | Inr d' \<Rightarrow> d')"

text \<open>\<open>Put\<close> in two steps: writing the temporary file while hashing, and moving it to its place.\<close>

definition put_write :: "string \<Rightarrow> CAS \<Rightarrow> string \<Rightarrow> reader \<Rightarrow> fs \<Rightarrow> (cas_error + string \<times> nat) \<times> fs" where
  "put_write cwd c rnd r d =
     (let tmp = temp_path cwd c rnd in
      case CreateTemp tmp d of Inl e \<Rightarrow> (Inl (CasIO e), d)
      | Inr d1 \<Rightarrow>
          let d2 = WriteFile tmp (rd_data r) d1 in
          if rd_fails r then (Inl (CasIO EREAD), cleanup tmp d2)
          else (Inr (sha256_hex (rd_data r), length (rd_data r)), d2))"

definition put_move :: "string \<Rightarrow> CAS \<Rightarrow> string \<Rightarrow> string \<Rightarrow> nat \<Rightarrow> fs \<Rightarrow> (cas_error + string \<times> nat) \<times> fs" where
  "put_move cwd c rnd hash n d =
     (let tmp = temp_path cwd c rnd in
      case pathFor cwd c hash of Inl e \<Rightarrow> (Inl e, cleanup tmp d)
      | Inr (finalPath, parent) \<Rightarrow>
        (case MkdirAll parent d of Inl e \<Rightarrow> (Inl (CasIO e), cleanup tmp d)
         | Inr d1 \<Rightarrow>
           (case Stat finalPath d1 of
              Inr _ \<Rightarrow> (Inr (hash, n), cleanup tmp d1)
            | Inl e \<Rightarrow>
                if e \<noteq> ENOENT then (Inl (CasIO e), cleanup tmp d1)
                else case Rename tmp finalPath d1 of
                  Inr d2 \<Rightarrow> (Inr (hash, n), d2)
                | Inl e' \<Rightarrow>
                    (case Stat finalPath d1 of
                       Inr _ \<Rightarrow> (Inr (hash, n), cleanup tmp d1)
                     | Inl _ \<Rightarrow> (Inl (CasIO e'), cleanup tmp d1)))))"

definition Put :: "string \<Rightarrow> CAS \<Rightarrow> string \<Rightarrow> reader \<Rightarrow> fs \<Rightarrow> (cas_error + string \<times> nat) \<times> fs" where
  "Put cwd c rnd r d = (case put_write cwd c rnd r d of
     (Inl e, d') \<Rightarrow> (Inl e, d') | (Inr (hash, n), d') \<Rightarrow> put_move cwd c rnd hash n d')"

definition Has :: "string \<Rightarrow> CAS \<Rightarrow> string \<Rightarrow> fs \<Rightarrow> cas_error + bool" where
  "Has cwd c hash d = (case pathFor cwd c hash of Inl e \<Rightarrow> Inl e
     | Inr (full, _) \<Rightarrow> (case Stat full d of Inr _ \<Rightarrow> Inr True
        | Inl e \<Rightarrow> if e = ENOENT then Inr False else Inl (CasIO e)))"

definition Get :: "string \<Rightarrow> CAS \<Rightarrow> string \<Rightarrow> fs \<Rightarrow> cas_error + string \<times> nat" where
  "Get cwd c hash d = (case pathFor cwd c hash of Inl e \<Rightarrow> Inl e
     | Inr (full, _) \<Rightarrow> (case Stat full d of Inl e \<Rightarrow> Inl (CasIO e)
        | Inr Dir \<Rightarrow> Inl (CasIO EISDIR)
        | Inr (File x) \<Rightarrow> Inr (x, length x)))"

definition CasDelete :: "string \<Rightarrow> CAS \<Rightarrow> string \<Rightarrow> fs \<Rightarrow> (cas_error + unit) \<times> fs" where
  "CasDelete cwd c hash d = (case pathFor cwd c hash of Inl e \<Rightarrow> (Inl e, d)
     | Inr (full, _) \<Rightarrow> (case Remove full d of Inl e \<Rightarrow> (Inl (CasIO e), d) | Inr d' \<Rightarrow> (Inr (), d')))"

section \<open>Layout\<close>

definition croot :: "string \<Rightarrow> CAS \<Rightarrow> string list" where
  "croot cwd c = rev (resolve True (base cwd (cas_root c)) (split_on CHR ''/'' (cas_root c)))"

definition object_path :: "string \<Rightarrow> CAS \<Rightarrow> string \<Rightarrow> string list" where
  "object_path cwd c hash = croot cwd c @ [take 2 hash, drop 2 hash]"

lemma plain_croot: "list_all plain (croot cwd c)"
  by (simp add: croot_def list_all_rev base_def plain_resolve resolve_rooted split_on_no_sep)

lemma plain_hex:
  assumes "lower_hex s" and "s \<noteq> []"
  shows "plain s"
proof -
  have "CHR ''.'' \<notin> set s" "CHR ''/'' \<notin> set s" using assms(1) by (auto simp: lower_hex_def list_all_iff)
  with assms(2) show ?thesis by (auto simp: plain_def)
qed

lemma plain_hash:
  assumes "valid_hash h"
  shows "plain (take 2 h)" and "plain (drop 2 h)"
proof -
  have "lower_hex (take 2 h @ drop 2 h)" using assms by (simp add: valid_hash_def)
  then have "lower_hex (take 2 h)" "lower_hex (drop 2 h)" unfolding lower_hex_append by simp_all
  then show "plain (take 2 h)" and "plain (drop 2 h)" using assms by (auto intro!: plain_hex simp: valid_hash_def)
qed

lemma pathFor_spec:
  assumes "IsAbs cwd" and "cas_root c \<noteq> []"
  shows "pathFor cwd c hash = (if valid_hash hash then Inr (object_path cwd c hash, croot cwd c @ [take 2 hash]) else Inl CasInvalidHash)"
    and "temp_path cwd c rnd = croot cwd c @ [''.upload-'' @ rnd @ ''.part'']"
proof -
  have root: "parts (Abs cwd (cas_root c)) = croot cwd c"
    using parts_path_of [of "rev (croot cwd c)"] plain_croot [of cwd c] by (simp add: Abs_path [OF assms(1)] croot_def list_all_rev)
  then show "temp_path cwd c rnd = croot cwd c @ [''.upload-'' @ rnd @ ''.part'']" by (simp add: temp_path_def)
  show "pathFor cwd c hash = (if valid_hash hash then Inr (object_path cwd c hash, croot cwd c @ [take 2 hash]) else Inl CasInvalidHash)"
  proof (cases "valid_hash hash")
    case True
    note pl = plain_hash [OF True]
    have "parts (path_of (rev (croot cwd c @ [take 2 hash]))) = croot cwd c @ [take 2 hash]"
      using parts_path_of [of "rev (croot cwd c @ [take 2 hash])"] plain_croot [of cwd c] pl by (simp add: list_all_rev)
    moreover have "parts (path_of (rev (object_path cwd c hash))) = object_path cwd c hash"
      using parts_path_of [of "rev (object_path cwd c hash)"] plain_croot [of cwd c] pl by (simp add: object_path_def list_all_rev)
    moreover have "Abs cwd (Join [cas_root c, take 2 hash]) = path_of (rev (croot cwd c @ [take 2 hash]))"
      by (simp add: Abs_Join [OF assms] plain_split [OF pl(1)] push_plain [OF pl(1)] croot_def)
    moreover have "Abs cwd (Join [Join [cas_root c, take 2 hash], drop 2 hash]) = path_of (rev (object_path cwd c hash))"
      by (simp add: Abs_Join_Join [OF assms] plain_split [OF pl(1)] plain_split [OF pl(2)] push_plain [OF pl(1)] push_plain [OF pl(2)]
          croot_def object_path_def)
    ultimately show ?thesis using True by (simp add: pathFor_def valid_hash_def Let_def)
  qed (auto simp: pathFor_def valid_hash_def)
qed

section \<open>The map it implements\<close>

definition objects :: "string \<Rightarrow> CAS \<Rightarrow> fs \<Rightarrow> string \<Rightarrow> string option" where
  "objects cwd c d h =
     (if valid_hash h then (case map_of d (object_path cwd c h) of Some (File x) \<Rightarrow> Some x | _ \<Rightarrow> None) else None)"

text \<open>
  The files of the store: its root exists, the directories of the shards are directories and the objects files, and an object is
  named after its content.
\<close>

definition layout_ok :: "string \<Rightarrow> CAS \<Rightarrow> fs \<Rightarrow> bool" where
  "layout_ok cwd c d \<longleftrightarrow> fs_ok d \<and> map_of d (croot cwd c) = Some Dir \<and>
     (\<forall>h. valid_hash h \<longrightarrow> map_of d (croot cwd c @ [take 2 h]) \<in> {None, Some Dir} \<and> map_of d (object_path cwd c h) \<noteq> Some Dir)"

definition cas_ok :: "string \<Rightarrow> CAS \<Rightarrow> fs \<Rightarrow> bool" where
  "cas_ok cwd c d \<longleftrightarrow> layout_ok cwd c d \<and> (\<forall>h x. objects cwd c d h = Some x \<longrightarrow> sha256_hex x = h)"

lemma Stat_object:
  assumes "layout_ok cwd c d" and "valid_hash h"
  shows "Stat (object_path cwd c h) d = (case objects cwd c d h of Some x \<Rightarrow> Inr (File x) | None \<Rightarrow> Inl ENOENT)"
proof (cases "map_of d (object_path cwd c h)")
  case None
  have "\<not> is_file d q" if q: "prefix q (object_path cwd c h)" for q
  proof -
    have "prefix q (croot cwd c) \<or> q = croot cwd c @ [take 2 h] \<or> q = object_path cwd c h"
      using q prefix_snoc [of q "croot cwd c @ [take 2 h]" "drop 2 h"] prefix_snoc [of q "croot cwd c" "take 2 h"]
      by (auto simp: object_path_def)
    moreover have "map_of d q = Some Dir" if "prefix q (croot cwd c)"
      using fs_ok_above [of d "croot cwd c" q] that assms(1) by (cases "q = croot cwd c") (auto simp: layout_ok_def strict_prefix_def)
    ultimately show ?thesis using assms None by (auto simp: is_file_def layout_ok_def)
  qed
  with None show ?thesis by (auto simp: Stat_def objects_def list_ex_iff)
next
  case (Some n)
  with assms show ?thesis by (cases n) (auto simp: Stat_def objects_def layout_ok_def)
qed

lemma temp_fresh:
  assumes "valid_hash h"
  shows "croot cwd c @ [''.upload-'' @ rnd @ ''.part''] \<noteq> object_path cwd c h" and "croot cwd c @ [''.upload-'' @ rnd @ ''.part''] \<noteq> croot cwd c @ [take 2 h]"
  using assms by (auto simp: object_path_def valid_hash_def dest!: arg_cong [where f = length])

text \<open>A change of temporary files only, and the making of shards, leave the map as it is.\<close>

lemma objects_frame:
  assumes "\<And>h. valid_hash h \<Longrightarrow> map_of d' (object_path cwd c h) = map_of d (object_path cwd c h)"
  shows "objects cwd c d' = objects cwd c d"
  using assms by (simp add: objects_def fun_eq_iff)

lemma CreateTemp_spec:
  assumes "map_of d (butlast p) = Some Dir" and "map_of d p = None"
  shows "CreateTemp p d = Inr (AList.update p (File []) d)"
  using assms by (simp add: CreateTemp_def)

lemma fs_ok_new_file:
  assumes "fs_ok d" and "p \<noteq> []" and "map_of d (butlast p) = Some Dir" and "map_of d p \<noteq> Some Dir"
    and "distinct (map fst d')" and "map_of d' = (map_of d)(p \<mapsto> File x)"
  shows "fs_ok d'"
proof (rule fs_okI [OF assms(5)])
  show "map_of d' [] = Some Dir" using assms(2) fs_okD(2) [OF assms(1)] by (simp add: assms(6))
  show "map_of d' (butlast q) = Some Dir" if q: "q \<noteq> []" "map_of d' q \<noteq> None" for q
  proof -
    have "map_of d (butlast q) = Some Dir" using q fs_okD(3) [OF assms(1), of q] assms(3) by (cases "q = p") (simp_all add: assms(6))
    with assms(4) show ?thesis by (auto simp: assms(6))
  qed
qed

lemma fs_ok_cong: "fs_ok d \<Longrightarrow> distinct (map fst d') \<Longrightarrow> map_of d' = map_of d \<Longrightarrow> fs_ok d'"
  by (rule fs_okI) (simp_all add: fs_okD)

lemma fs_ok_file_gone:
  assumes "fs_ok d" and "map_of d p \<noteq> Some Dir" and "distinct (map fst d')" and "map_of d' = (map_of d)(p := None)"
  shows "fs_ok d'"
proof (rule fs_okI [OF assms(3)])
  show "map_of d' [] = Some Dir" using assms(2) fs_okD(2) [OF assms(1)] by (auto simp: assms(4))
  show "map_of d' (butlast q) = Some Dir" if "q \<noteq> []" "map_of d' q \<noteq> None" for q
    using assms(2) that fs_okD(3) [OF assms(1), of q] by (auto simp: assms(4) split: if_splits)
qed

lemma cleanup_file: "is_file d p \<Longrightarrow> map_of (cleanup p d) = (map_of d)(p := None) \<and> cleanup p d = AList.delete p d"
  by (auto simp: cleanup_def Remove_def is_file_def split: option.splits node.splits)

lemma distinct_cleanup: "distinct (map fst d) \<Longrightarrow> distinct (map fst (cleanup p d))"
  by (auto simp: cleanup_def Remove_def split: option.splits node.splits)

lemma put_write_spec:
  assumes "IsAbs cwd" and "cas_root c \<noteq> []" and "layout_ok cwd c d" and fresh: "map_of d (temp_path cwd c rnd) = None"
    and "put_write cwd c rnd r d = (res, d')"
  shows "layout_ok cwd c d'" and "objects cwd c d' = objects cwd c d"
    and "rd_fails r \<Longrightarrow> res = Inl (CasIO EREAD) \<and> map_of d' = map_of d"
    and "\<not> rd_fails r \<Longrightarrow> res = Inr (sha256_hex (rd_data r), length (rd_data r)) \<and> map_of d' = (map_of d)(temp_path cwd c rnd \<mapsto> File (rd_data r))"
proof -
  let ?t = "temp_path cwd c rnd"
  have t: "?t = croot cwd c @ [''.upload-'' @ rnd @ ''.part'']" by (rule pathFor_spec(2) [OF assms(1,2)])
  have dir: "map_of d (butlast ?t) = Some Dir" using assms(3) by (simp add: t layout_ok_def)
  let ?d = "WriteFile ?t (rd_data r) (AList.update ?t (File []) d)"
  have m: "map_of ?d = (map_of d)(?t \<mapsto> File (rd_data r))" by (simp add: WriteFile_def is_file_def)
  then have f: "is_file ?d ?t" by (simp add: is_file_def)
  have dist: "distinct (map fst ?d)" using fs_okD(1) assms(3) by (simp add: WriteFile_def layout_ok_def)
  have w: "put_write cwd c rnd r d = (if rd_fails r then (Inl (CasIO EREAD), cleanup ?t ?d) else (Inr (sha256_hex (rd_data r), length (rd_data r)), ?d))"
    by (simp add: put_write_def CreateTemp_spec [OF dir fresh] Let_def)
  have mf: "map_of (cleanup ?t ?d) = map_of d" using cleanup_file [OF f] fresh by (auto simp: m)
  show 1: "rd_fails r \<Longrightarrow> res = Inl (CasIO EREAD) \<and> map_of d' = map_of d" using assms(5) mf by (simp add: w)
  show 2: "\<not> rd_fails r \<Longrightarrow> res = Inr (sha256_hex (rd_data r), length (rd_data r)) \<and> map_of d' = (map_of d)(?t \<mapsto> File (rd_data r))"
    using assms(5) m by (simp add: w)
  have q: "map_of d' q = map_of d q" if "q \<noteq> ?t" for q using 1 2 that by (cases "rd_fails r") auto
  have fs: "fs_ok d'"
  proof (cases "rd_fails r")
    case True
    then have d': "d' = cleanup ?t ?d" using assms(5) by (simp add: w)
    have "fs_ok d" using assms(3) by (simp add: layout_ok_def)
    then show ?thesis unfolding d' using distinct_cleanup [OF dist] mf by (rule fs_ok_cong)
  next
    case False
    then have d': "d' = ?d" using assms(5) by (simp add: w)
    have "fs_ok d" "?t \<noteq> []" using assms(3) by (simp_all add: layout_ok_def t)
    then show ?thesis unfolding d' by (rule fs_ok_new_file [OF _ _ dir _ dist m]) (simp add: fresh)
  qed
  show "objects cwd c d' = objects cwd c d" using temp_fresh(1) by (intro objects_frame q) (metis t)
  have "map_of d' (croot cwd c) = map_of d (croot cwd c)" by (rule q) (simp add: t)
  moreover have "map_of d' (croot cwd c @ [take 2 h]) = map_of d (croot cwd c @ [take 2 h]) \<and> map_of d' (object_path cwd c h) = map_of d (object_path cwd c h)"
    if "valid_hash h" for h using temp_fresh [OF that, of cwd c rnd] by (simp add: q t)
  ultimately show "layout_ok cwd c d'" using assms(3) fs by (simp add: layout_ok_def)
qed

text \<open>Making the shard of an object.\<close>

lemma mkdir_shard:
  assumes "layout_ok cwd c d" and "valid_hash h"
  obtains d1 where "MkdirAll (croot cwd c @ [take 2 h]) d = Inr d1" "layout_ok cwd c d1"
    "map_of d1 = (map_of d)(croot cwd c @ [take 2 h] \<mapsto> Dir)"
proof -
  let ?s = "croot cwd c @ [take 2 h]"
  have up: "map_of d q = Some Dir" if "prefix q (croot cwd c)" for q
    using fs_ok_above [of d "croot cwd c" q] that assms(1) by (cases "q = croot cwd c") (auto simp: layout_ok_def strict_prefix_def)
  have s: "map_of d ?s \<in> {None, Some Dir}" using assms by (simp add: layout_ok_def)
  have nf: "\<not> is_file d q" if "prefix q ?s" for q
    using that up [of q] s by (auto simp: is_file_def)
  then have "\<not> list_ex (is_file d) (prefixes ?s)" by (auto simp: list_ex_iff)
  then obtain d1 where mk: "MkdirAll ?s d = Inr d1" by (simp add: MkdirAll_def)
  note m = MkdirAll_spec [OF _ mk]
  have f: "fs_ok d" using assms(1) by (simp add: layout_ok_def)
  have m1: "map_of d1 = (map_of d)(?s \<mapsto> Dir)"
    using m(1) [OF f] up by (auto simp: fun_eq_iff)
  have "object_path cwd c k \<noteq> ?s" for k by (simp add: object_path_def)
  moreover have "croot cwd c \<noteq> ?s" by simp
  ultimately have "layout_ok cwd c d1" using assms(1) m(2) [OF f] by (auto simp: layout_ok_def m1)
  with mk m1 that show thesis by blast
qed

lemma object_path_inj: "valid_hash h \<Longrightarrow> valid_hash k \<Longrightarrow> object_path cwd c h = object_path cwd c k \<longleftrightarrow> h = k"
  by (auto simp: object_path_def) (metis append_take_drop_id)

lemma put_move_spec:
  assumes "IsAbs cwd" and "cas_root c \<noteq> []" and "layout_ok cwd c d" and tmp: "map_of d (temp_path cwd c rnd) = Some (File x)"
    and "put_move cwd c rnd (sha256_hex x) n d = (res, d')"
  shows "res = Inr (sha256_hex x, n)" and "layout_ok cwd c d'"
    and "objects cwd c d' = (if objects cwd c d (sha256_hex x) = None then (objects cwd c d)(sha256_hex x \<mapsto> x) else objects cwd c d)"
    and "map_of d' (temp_path cwd c rnd) = None" and "rnd' \<noteq> rnd \<Longrightarrow> map_of d' (temp_path cwd c rnd') = map_of d (temp_path cwd c rnd')"
proof -
  let ?h = "sha256_hex x" and ?t = "temp_path cwd c rnd"
  let ?s = "croot cwd c @ [take 2 ?h]" and ?p = "object_path cwd c ?h"
  have t: "temp_path cwd c rnd = croot cwd c @ [''.upload-'' @ rnd @ ''.part'']" for rnd by (rule pathFor_spec(2) [OF assms(1,2)])
  have h: "valid_hash ?h" using sha256_hex_shape by (simp add: valid_hash_def)
  obtain d1 where d1: "MkdirAll ?s d = Inr d1" "layout_ok cwd c d1" "map_of d1 = (map_of d)(?s \<mapsto> Dir)"
    by (rule mkdir_shard [OF assms(3) h])
  have ne: "?t \<noteq> ?s" "?t \<noteq> ?p" using temp_fresh [OF h] by (simp_all add: t)
  then have t1: "map_of d1 ?t = Some (File x)" using tmp by (simp add: d1(3))
  have o1: "objects cwd c d1 = objects cwd c d" by (rule objects_frame) (simp add: d1(3) object_path_def)
  have fs1: "fs_ok d1" "distinct (map fst d1)" using d1(2) fs_okD(1) by (auto simp: layout_ok_def)
  let ?dc = "AList.delete ?t d1" and ?dr = "AList.update ?p (File x) (AList.delete ?t d1)"
  have cl: "cleanup ?t d1 = ?dc" using cleanup_file [of d1 ?t] t1 by (simp add: is_file_def)
  have rn: "Rename ?t ?p d1 = Inr ?dr" if "objects cwd c d1 ?h = None"
  proof -
    have "map_of d1 ?p \<noteq> Some Dir" using d1(2) h by (simp add: layout_ok_def)
    then show ?thesis by (simp add: Rename_def t1) (simp add: object_path_def butlast_append d1(3))
  qed
  have mv: "put_move cwd c rnd ?h n d = (Inr (?h, n), if objects cwd c d ?h = None then ?dr else ?dc)"
    using Stat_object [OF d1(2) h] rn
    by (cases "objects cwd c d ?h") (simp_all add: put_move_def pathFor_spec(1) [OF assms(1,2)] h d1(1) o1 cl)
  then show "res = Inr (?h, n)" using assms(5) by simp
  from mv assms(5) have d': "d' = (if objects cwd c d ?h = None then ?dr else ?dc)" by simp
  have m': "map_of d' q = (if q = ?p \<and> objects cwd c d ?h = None then Some (File x) else if q = ?t then None else map_of d1 q)" for q
    using ne(2) by (auto simp: d')
  then show "map_of d' ?t = None" using ne by simp
  show "map_of d' (temp_path cwd c rnd') = map_of d (temp_path cwd c rnd')" if "rnd' \<noteq> rnd"
    using that temp_fresh [OF h, of cwd c rnd'] by (simp add: m' t d1(3))
  have dc: "fs_ok ?dc" by (rule fs_ok_file_gone [OF fs1(1), of ?t]) (simp_all add: t1 fs1(2))
  have "fs_ok ?dr"
  proof (rule fs_ok_new_file [OF dc])
    show "map_of ?dc (butlast ?p) = Some Dir" using ne by (simp add: object_path_def butlast_append d1(3))
    show "map_of ?dc ?p \<noteq> Some Dir" using d1(2) h by (auto simp: layout_ok_def)
  qed (simp_all add: object_path_def fs1(2))
  with dc have fs: "fs_ok d'" by (simp add: d')
  have mo: "map_of d' (object_path cwd c k) = (if k = ?h \<and> objects cwd c d ?h = None then Some (File x) else map_of d1 (object_path cwd c k))"
    if "valid_hash k" for k
    using temp_fresh(1) [OF that, of cwd c rnd] object_path_inj [OF that h, of cwd c] by (simp add: m' t) 
  show "objects cwd c d' = (if objects cwd c d ?h = None then (objects cwd c d)(?h \<mapsto> x) else objects cwd c d)"
  proof -
    define absent where "absent \<longleftrightarrow> objects cwd c d ?h = None"
    have "objects cwd c d' k = (if k = ?h \<and> absent then Some x else objects cwd c d1 k)" for k
      using h mo [of k, folded absent_def] by (cases "k = ?h") (auto simp: objects_def)
    then show ?thesis unfolding absent_def [symmetric] o1 by (auto simp: fun_eq_iff)
  qed
  have "map_of d' (croot cwd c) = Some Dir" using d1(2) by (simp add: m' t object_path_def layout_ok_def)
  moreover have "map_of d' (croot cwd c @ [take 2 k]) = map_of d1 (croot cwd c @ [take 2 k])" if "valid_hash k" for k
    using temp_fresh(2) [OF that, of cwd c rnd] by (simp add: m' t object_path_def)
  ultimately show "layout_ok cwd c d'" using fs d1(2) by (auto simp: layout_ok_def mo)
qed

lemma CasDelete_spec:
  assumes "IsAbs cwd" and "cas_root c \<noteq> []" and "layout_ok cwd c d"
  shows "fst (CasDelete cwd c h d) = (if \<not> valid_hash h then Inl CasInvalidHash else if objects cwd c d h = None then Inl (CasIO ENOENT) else Inr ())"
    and "layout_ok cwd c (snd (CasDelete cwd c h d))" and "objects cwd c (snd (CasDelete cwd c h d)) = (objects cwd c d)(h := None)"
    and "map_of (snd (CasDelete cwd c h d)) (temp_path cwd c rnd) = map_of d (temp_path cwd c rnd)"
proof -
  let ?p = "object_path cwd c h" and ?d = "snd (CasDelete cwd c h d)"
  have t: "temp_path cwd c rnd = croot cwd c @ [''.upload-'' @ rnd @ ''.part'']" by (rule pathFor_spec(2) [OF assms(1,2)])
  have "(fst (CasDelete cwd c h d) = (if \<not> valid_hash h then Inl CasInvalidHash else if objects cwd c d h = None then Inl (CasIO ENOENT) else Inr ()))
    \<and> layout_ok cwd c ?d \<and> objects cwd c ?d = (objects cwd c d)(h := None) \<and> map_of ?d (temp_path cwd c rnd) = map_of d (temp_path cwd c rnd)"
  proof (cases "objects cwd c d h")
    case None
    have "CasDelete cwd c h d = (if \<not> valid_hash h then Inl CasInvalidHash else Inl (CasIO ENOENT), d)"
    proof (cases "valid_hash h")
      case True
      have "map_of d ?p \<noteq> Some Dir" using assms(3) True by (simp add: layout_ok_def)
      with None True have "map_of d ?p = None" by (simp add: objects_def split: option.splits node.splits)
      with True show ?thesis by (simp add: CasDelete_def pathFor_spec(1) [OF assms(1,2)] Remove_def)
    qed (simp add: CasDelete_def pathFor_spec(1) [OF assms(1,2)])
    with None assms(3) show ?thesis by (simp add: fun_upd_idem)
  next
    case (Some x)
    then have h: "valid_hash h" and p: "map_of d ?p = Some (File x)" by (auto simp: objects_def split: if_splits option.splits node.splits)
    have e: "CasDelete cwd c h d = (Inr (), AList.delete ?p d)"
      by (simp add: CasDelete_def pathFor_spec(1) [OF assms(1,2)] h Remove_def p)
    have "fs_ok (AList.delete ?p d)"
    proof (rule fs_ok_file_gone)
      show "fs_ok d" using assms(3) by (simp add: layout_ok_def)
      then show "distinct (map fst (AList.delete ?p d))" using fs_okD(1) by simp
    qed (simp_all add: p)
    moreover have "croot cwd c \<noteq> ?p" "croot cwd c @ [take 2 k] \<noteq> ?p" for k by (simp_all add: object_path_def)
    ultimately have "layout_ok cwd c (AList.delete ?p d)" using assms(3) unfolding layout_ok_def map_of_delete by simp
    moreover have "objects cwd c (AList.delete ?p d) k = ((objects cwd c d)(h := None)) k" for k
      using object_path_inj [OF _ h, of k cwd c] by (simp add: objects_def)
    moreover have "temp_path cwd c rnd \<noteq> ?p" using temp_fresh(1) [OF h, of cwd c rnd] by (simp add: t)
    ultimately show ?thesis using h Some by (auto simp: e)
  qed
  then show "fst (CasDelete cwd c h d) = (if \<not> valid_hash h then Inl CasInvalidHash else if objects cwd c d h = None then Inl (CasIO ENOENT) else Inr ())"
    and "layout_ok cwd c ?d" and "objects cwd c ?d = (objects cwd c d)(h := None)"
    and "map_of ?d (temp_path cwd c rnd) = map_of d (temp_path cwd c rnd)" by simp_all
qed

lemma reads_spec:
  assumes "IsAbs cwd" and "cas_root c \<noteq> []" and "layout_ok cwd c d"
  shows "Get cwd c h d = (if \<not> valid_hash h then Inl CasInvalidHash else
      case objects cwd c d h of None \<Rightarrow> Inl (CasIO ENOENT) | Some x \<Rightarrow> Inr (x, length x))"
    and "Has cwd c h d = (if \<not> valid_hash h then Inl CasInvalidHash else Inr (objects cwd c d h \<noteq> None))"
  using Stat_object [OF assms(3), of h]
  by (auto simp: Get_def Has_def pathFor_spec(1) [OF assms(1,2)] split: option.splits)

section \<open>Concurrent use\<close>

text \<open>
  Several callers at once: an upload writes its temporary file in one step and moves it in a later one, and any other steps may come
  between. The names of temporary files are fresh, as \<open>os.CreateTemp\<close> promises. The contents still being uploaded are kept under
  the random part of their names.
\<close>

inductive cas_run :: "string \<Rightarrow> CAS \<Rightarrow> fs \<Rightarrow> fs \<Rightarrow> (string \<rightharpoonup> string) \<Rightarrow> bool" for cwd c d0 where
  init: "cas_run cwd c d0 d0 Map.empty"
| writes: "\<lbrakk>cas_run cwd c d0 d pend; map_of d (temp_path cwd c rnd) = None; put_write cwd c rnd r d = (Inr (h, n), d')\<rbrakk> \<Longrightarrow>
    cas_run cwd c d0 d' (pend(rnd \<mapsto> rd_data r))"
| write_fails: "\<lbrakk>cas_run cwd c d0 d pend; map_of d (temp_path cwd c rnd) = None; put_write cwd c rnd r d = (Inl e, d')\<rbrakk> \<Longrightarrow>
    cas_run cwd c d0 d' pend"
| moves: "\<lbrakk>cas_run cwd c d0 d pend; pend rnd = Some x; put_move cwd c rnd (sha256_hex x) (length x) d = (res, d')\<rbrakk> \<Longrightarrow>
    cas_run cwd c d0 d' (pend(rnd := None))"
| deletes: "cas_run cwd c d0 d pend \<Longrightarrow> cas_run cwd c d0 (snd (CasDelete cwd c h d)) pend"

text \<open>The abstract store: contents appear under their own digest, and disappear.\<close>

inductive content_step :: "(string \<rightharpoonup> string) \<Rightarrow> (string \<rightharpoonup> string) \<Rightarrow> bool" where
  stored: "m (sha256_hex x) = None \<Longrightarrow> content_step m (m(sha256_hex x \<mapsto> x))"
| dropped: "content_step m (m(h := None))"

definition cas_sim :: "string \<Rightarrow> CAS \<Rightarrow> fs \<Rightarrow> fs \<Rightarrow> (string \<rightharpoonup> string) \<Rightarrow> bool" where
  "cas_sim cwd c d0 d pend \<longleftrightarrow> layout_ok cwd c d \<and> content_step\<^sup>*\<^sup>* (objects cwd c d0) (objects cwd c d) \<and>
     (\<forall>rnd x. pend rnd = Some x \<longrightarrow> map_of d (temp_path cwd c rnd) = Some (File x))"

lemma content_step_sound: "content_step m m' \<Longrightarrow> \<forall>h x. m h = Some x \<longrightarrow> sha256_hex x = h \<Longrightarrow> \<forall>h x. m' h = Some x \<longrightarrow> sha256_hex x = h"
  by (induction rule: content_step.induct) (auto split: if_splits)

lemma content_steps_sound: "content_step\<^sup>*\<^sup>* m m' \<Longrightarrow> \<forall>h x. m h = Some x \<longrightarrow> sha256_hex x = h \<Longrightarrow> \<forall>h x. m' h = Some x \<longrightarrow> sha256_hex x = h"
  by (induction rule: rtranclp_induct) (blast dest: content_step_sound)+

lemma temp_path_inj: "IsAbs cwd \<Longrightarrow> cas_root c \<noteq> [] \<Longrightarrow> temp_path cwd c a = temp_path cwd c b \<longleftrightarrow> a = b"
  by (simp add: pathFor_spec(2))

lemma cas_run_sim:
  assumes "IsAbs cwd" and "cas_root c \<noteq> []" and "layout_ok cwd c d0" and "cas_run cwd c d0 d pend"
  shows "cas_sim cwd c d0 d pend"
  using assms(4)
proof induction
  case init
  then show ?case using assms(3) by (simp add: cas_sim_def)
next
  case (writes d pend rnd r h n d')
  then have l: "layout_ok cwd c d" by (simp add: cas_sim_def)
  note w = put_write_spec [OF assms(1,2) l writes.hyps(2,3)]
  have "\<not> rd_fails r" using w(3) by auto
  with w writes.IH show ?case by (auto simp: cas_sim_def temp_path_inj [OF assms(1,2)])
next
  case (write_fails d pend rnd r e d')
  then have l: "layout_ok cwd c d" by (simp add: cas_sim_def)
  note w = put_write_spec [OF assms(1,2) l write_fails.hyps(2,3)]
  have "rd_fails r" using w(4) by auto
  with w write_fails.IH show ?case by (simp add: cas_sim_def)
next
  case (moves d pend rnd x res d')
  then have l: "layout_ok cwd c d" and t: "map_of d (temp_path cwd c rnd) = Some (File x)" by (simp_all add: cas_sim_def)
  note m = put_move_spec [OF assms(1,2) l t moves.hyps(3)]
  have "content_step\<^sup>*\<^sup>* (objects cwd c d) (objects cwd c d')"
    using content_step.stored [of "objects cwd c d" x] r_into_rtranclp [of content_step] by (simp add: m(3))
  with m(2,5) moves.IH show ?case by (auto simp: cas_sim_def intro: rtranclp_trans)
next
  case (deletes d pend h)
  then have l: "layout_ok cwd c d" by (simp add: cas_sim_def)
  note m = CasDelete_spec [OF assms(1,2) l, of h]
  have "content_step (objects cwd c d) (objects cwd c (snd (CasDelete cwd c h d)))" unfolding m(3) by (rule content_step.dropped)
  with m deletes.IH show ?case by (auto simp: cas_sim_def intro: rtranclp.rtrancl_into_rtrancl)
qed

text \<open>
  C36. The files implement a map from digests to contents, also under concurrent uploads and deletions: every interleaving of their
  steps corresponds to a sequence of steps of the map, in which a content is stored under its own digest when there is none yet, or
  a digest is dropped. So every object that is read hashes to the digest it was asked for; reads and tests see exactly the map; an
  upload in progress, whatever happens in between, finishes with the digest and the size of its bytes, and the object is there.
\<close>

theorem cas_refines:
  assumes "IsAbs cwd" and "cas_root c \<noteq> []" and "cas_ok cwd c d0" and "cas_run cwd c d0 d pend"
  shows "content_step\<^sup>*\<^sup>* (objects cwd c d0) (objects cwd c d)
    \<and> (\<forall>h. Has cwd c h d = (if valid_hash h then Inr (objects cwd c d h \<noteq> None) else Inl CasInvalidHash))
    \<and> (\<forall>h x n. Get cwd c h d = Inr (x, n) \<longleftrightarrow> objects cwd c d h = Some x \<and> n = length x)
    \<and> (\<forall>h x n. Get cwd c h d = Inr (x, n) \<longrightarrow> sha256_hex x = h)
    \<and> (\<forall>rnd x. pend rnd = Some x \<longrightarrow> fst (put_move cwd c rnd (sha256_hex x) (length x) d) = Inr (sha256_hex x, length x)
        \<and> objects cwd c (snd (put_move cwd c rnd (sha256_hex x) (length x) d)) (sha256_hex x) \<noteq> None)
    \<and> (\<forall>rnd r. map_of d (temp_path cwd c rnd) = None \<longrightarrow> \<not> rd_fails r \<longrightarrow>
        (case Put cwd c rnd r d of (res, d') \<Rightarrow> res = Inr (sha256_hex (rd_data r), length (rd_data r)) \<and>
          objects cwd c d' = (if objects cwd c d (sha256_hex (rd_data r)) = None then (objects cwd c d)(sha256_hex (rd_data r) \<mapsto> rd_data r)
            else objects cwd c d)))"
proof -
  have sim: "cas_sim cwd c d0 d pend" using cas_run_sim [OF assms(1,2) _ assms(4)] assms(3) by (simp add: cas_ok_def)
  then have l: "layout_ok cwd c d" and st: "content_step\<^sup>*\<^sup>* (objects cwd c d0) (objects cwd c d)" by (simp_all add: cas_sim_def)
  note rd = reads_spec [OF assms(1,2) l]
  have v: "valid_hash h" if "objects cwd c d h = Some x" for h x using that by (simp add: objects_def split: if_splits)
  have g: "Get cwd c h d = Inr (x, n) \<longleftrightarrow> objects cwd c d h = Some x \<and> n = length x" for h x n
    using v [of h x] by (auto simp: rd(1) split: option.splits)
  have s: "sha256_hex x = h" if "objects cwd c d h = Some x" for h x
  proof -
    have "\<forall>h x. objects cwd c d0 h = Some x \<longrightarrow> sha256_hex x = h" using assms(3) by (simp add: cas_ok_def)
    from content_steps_sound [OF st this] that show ?thesis by blast
  qed
  have m: "fst (put_move cwd c rnd (sha256_hex x) (length x) d) = Inr (sha256_hex x, length x)
      \<and> objects cwd c (snd (put_move cwd c rnd (sha256_hex x) (length x) d)) (sha256_hex x) \<noteq> None" if "pend rnd = Some x" for rnd x
  proof -
    have "map_of d (temp_path cwd c rnd) = Some (File x)" using sim that by (simp add: cas_sim_def)
    from put_move_spec(1,3) [OF assms(1,2) l this prod.collapse [symmetric]] show ?thesis by simp
  qed
  have p: "case Put cwd c rnd r d of (res, d') \<Rightarrow> res = Inr (sha256_hex (rd_data r), length (rd_data r)) \<and>
      objects cwd c d' = (if objects cwd c d (sha256_hex (rd_data r)) = None then (objects cwd c d)(sha256_hex (rd_data r) \<mapsto> rd_data r)
        else objects cwd c d)" if fr: "map_of d (temp_path cwd c rnd) = None" and "\<not> rd_fails r" for rnd r
  proof -
    obtain res d1 where w: "put_write cwd c rnd r d = (res, d1)" by (cases "put_write cwd c rnd r d")
    note ws = put_write_spec [OF assms(1,2) l fr w]
    from ws(4) that(2) have t: "map_of d1 (temp_path cwd c rnd) = Some (File (rd_data r))" by simp
    from put_move_spec(1,3) [OF assms(1,2) ws(1) t prod.collapse [symmetric]] show ?thesis
      using ws(2,4) that(2) by (simp add: Put_def w split_beta)
  qed
  have hs: "\<forall>h. Has cwd c h d = (if valid_hash h then Inr (objects cwd c d h \<noteq> None) else Inl CasInvalidHash)" using rd(2) by simp
  have gs: "\<forall>h x n. Get cwd c h d = Inr (x, n) \<longrightarrow> sha256_hex x = h" using g s by blast
  show ?thesis by (rule conjI [OF st conjI [OF hs conjI [OF _ conjI [OF gs conjI]]]]) (use g m p in \<open>blast+\<close>)
qed

definition sample_cas :: CAS where
  "sample_cas = \<lparr>cas_root = ''datasets''\<rparr>"

definition empty_cas_fs :: fs where
  "empty_cas_fs = snd (NewFilesystemCAS ''/srv'' ''datasets'' [([], Dir)])"

lemma empty_cas_ok: "cas_ok ''/srv'' sample_cas empty_cas_fs"
proof -
  have e: "empty_cas_fs = [([], Dir), ([''srv''], Dir), ([''srv'', ''datasets''], Dir)]" and r: "croot ''/srv'' sample_cas = [''srv'', ''datasets'']"
    by code_simp+
  have "fs_ok empty_cas_fs" unfolding e by (simp add: fs_ok_def)
  moreover have "objects ''/srv'' sample_cas empty_cas_fs h = None" for h by (simp add: objects_def object_path_def e r)
  ultimately show ?thesis by (auto simp: cas_ok_def layout_ok_def object_path_def e r)
qed

theorem cas_refines_witness:
  "fst (Put ''/srv'' sample_cas ''1'' \<lparr>rd_data = ''abc'', rd_fails = False\<rparr> empty_cas_fs) = Inr (sha256_hex ''abc'', 3)"
proof -
  have h: "IsAbs ''/srv''" "cas_root sample_cas \<noteq> []" by code_simp+
  have t: "map_of empty_cas_fs (temp_path ''/srv'' sample_cas ''1'') = None" by code_simp
  have "case Put ''/srv'' sample_cas ''1'' \<lparr>rd_data = ''abc'', rd_fails = False\<rparr> empty_cas_fs of (res, d') \<Rightarrow> res = Inr (sha256_hex ''abc'', 3)"
    using cas_refines [OF h empty_cas_ok cas_run.init, THEN conjunct2, THEN conjunct2, THEN conjunct2, THEN conjunct2, THEN conjunct2,
        THEN spec [where x = "''1''"], THEN spec [where x = "\<lparr>rd_data = ''abc'', rd_fails = False\<rparr>"], THEN mp, OF t]
    by (simp add: split_beta)
  then show ?thesis by (simp add: split_beta)
qed

end
