(* ===== verification/Dispatch.thy ===== *)
theory Dispatch
  imports Peers Federation
begin

text \<open>
  Delivery of webhooks (\<open>internal/webhooks/dispatcher.go\<close>, \<open>sync.go\<close>, \<open>echo.go\<close>): API handlers put jobs into a bounded queue, workers take
  them out and post them, at most three times. The encoder of payloads and the servers that receive them are parameters. The state
  of this package extends the database by the queue, the counter of dropped jobs, the log of the echo target and the requests sent.
\<close>

section \<open>Events and the echo log\<close>

definition EventRunStarted :: string where "EventRunStarted = ''run_started''"
definition EventRunFinished :: string where "EventRunFinished = ''run_finished''"
definition EventRunFailed :: string where "EventRunFailed = ''run_failed''"
definition EventRunKilled :: string where "EventRunKilled = ''run_killed''"

definition StatusToEvent :: "string \<Rightarrow> string" where
  "StatusToEvent status =
     (if status = StatusRunning then EventRunStarted
      else if status = StatusFinished then EventRunFinished
      else if status = StatusFailed then EventRunFailed
      else if status = StatusKilled then EventRunKilled
      else [])"

definition matchesEvent :: "string \<Rightarrow> string \<Rightarrow> bool" where
  "matchesEvent evs event \<longleftrightarrow> evs \<noteq> [] \<and> list_ex (\<lambda>e. TrimSpace e = event) (split_on (CHR '','') evs)"

definition EchoSchemePrefix :: string where
  "EchoSchemePrefix = ''lmf://echo''"

definition IsEchoURL :: "string \<Rightarrow> bool" where
  "IsEchoURL url \<longleftrightarrow> url = EchoSchemePrefix \<or> HasPrefix url (EchoSchemePrefix @ ''/'')"

record EchoEntry =
  ec_Timestamp :: int
  ec_Event :: string
  ec_WebhookID :: int
  ec_Body :: string
  ec_RunID :: string

record EchoLog =
  ech_entries :: "EchoEntry list"
  ech_cap :: nat

definition NewEchoLog :: "int \<Rightarrow> EchoLog" where
  "NewEchoLog capacity = \<lparr>ech_entries = [], ech_cap = (if capacity \<le> 0 then 100 else nat capacity)\<rparr>"

definition maxBody :: nat where
  "maxBody = 4096"

definition truncation_mark :: string where
  "truncation_mark = [CHR 0xE2, CHR 0x80, CHR 0xA6] @ ''(truncated)''"

definition Record :: "int \<Rightarrow> EchoEntry \<Rightarrow> EchoLog \<Rightarrow> EchoLog" where
  "Record n e l =
     (let e = (if ec_Timestamp e = 0 then e\<lparr>ec_Timestamp := n\<rparr> else e);
          e = (if maxBody < length (ec_Body e) then e\<lparr>ec_Body := take maxBody (ec_Body e) @ truncation_mark\<rparr> else e);
          es = ech_entries l @ [e]
      in l\<lparr>ech_entries := (if ech_cap l < length es then drop (length es - ech_cap l) es else es)\<rparr>)"

definition echo_List :: "int \<Rightarrow> EchoLog \<Rightarrow> EchoEntry list" where
  "echo_List mx l =
     (let n = length (ech_entries l); n = (if 0 < mx \<and> mx < int n then nat mx else n)
      in take n (rev (ech_entries l)))"

section \<open>Signatures\<close>

definition hmacSHA256 :: "string \<Rightarrow> string \<Rightarrow> string" where
  "hmacSHA256 secret body = EncodeToString (hmac (bytes_of secret) (bytes_of body))"

definition VerifySignature :: "string \<Rightarrow> string \<Rightarrow> string \<Rightarrow> bool" where
  "VerifySignature secret body header \<longleftrightarrow> header = ''sha256='' @ hmacSHA256 secret body"

section \<open>The dispatcher\<close>

record job =
  j_wh :: Webhook
  j_event :: string
  j_run :: Run

record Payload =
  pl_Event :: string
  pl_Run :: Run
  pl_Timestamp :: int

record post_request =
  pq_URL :: string
  pq_Event :: string
  pq_Signature :: "string option"
  pq_Body :: string

record hooks =
  hk_db :: db
  hk_queue :: "job list"
  hk_dropped :: nat
  hk_stopped :: bool
  hk_echo :: "EchoLog option"
  hk_sent :: "post_request list"

text \<open>
  What is outside: \<open>json.Marshal\<close>, and what the server at the other end answers to the \<open>k\<close>-th request, a status code or a failure of
  the connection.
\<close>

record delivery_env =
  de_marshal :: "Payload \<Rightarrow> string option"
  de_respond :: "nat \<Rightarrow> post_request \<Rightarrow> int option"

definition queueCapacity :: nat where
  "queueCapacity = 1024"

definition maxRetries :: nat where
  "maxRetries = 3"

definition on_db :: "'a op \<Rightarrow> 'z hooks_scheme \<Rightarrow> (err + 'a) \<times> 'z hooks_scheme" where
  "on_db m h = (case m (hk_db h) of (r, s) \<Rightarrow> (r, h\<lparr>hk_db := s\<rparr>))"

definition read_clock :: "'z hooks_scheme \<Rightarrow> int \<times> 'z hooks_scheme" where
  "read_clock h = (case on_db now h of (Inr n, h') \<Rightarrow> (n, h') | (Inl _, h') \<Rightarrow> (0, h'))"

text \<open>\<open>_ = d.store.RecordWebhookAttempt(ctx, id, status, time.Now().UnixMilli())\<close>\<close>

definition record_attempt :: "int \<Rightarrow> int \<Rightarrow> 'z hooks_scheme \<Rightarrow> 'z hooks_scheme" where
  "record_attempt i status h = (case read_clock h of (n, h') \<Rightarrow> snd (on_db (RecordWebhookAttempt i status n) h'))"

definition request_of :: "Webhook \<Rightarrow> string \<Rightarrow> string \<Rightarrow> post_request" where
  "request_of wh event body = \<lparr>pq_URL = hook_URL wh, pq_Event = event,
     pq_Signature = (if hook_Secret wh \<noteq> [] then Some (''sha256='' @ hmacSHA256 (hook_Secret wh) body) else None), pq_Body = body\<rparr>"

definition post :: "delivery_env \<Rightarrow> Webhook \<Rightarrow> string \<Rightarrow> string \<Rightarrow> 'z hooks_scheme \<Rightarrow> int option \<times> 'z hooks_scheme" where
  "post env wh event body h =
     (let req = request_of wh event body
      in (de_respond env (length (hk_sent h)) req, h\<lparr>hk_sent := hk_sent h @ [req]\<rparr>))"

datatype delivery = Unencodable | Echoed | Delivered int | GaveUp int | Aborted

text \<open>
  The attempts. Before each one but the first the worker waits, and returns at once when it is told to stop; \<open>intr k\<close> says whether that
  happens before attempt \<open>k\<close>.
\<close>

fun attempts_loop :: "delivery_env \<Rightarrow> (nat \<Rightarrow> bool) \<Rightarrow> job \<Rightarrow> string \<Rightarrow> nat \<Rightarrow> nat \<Rightarrow> int \<Rightarrow> 'z hooks_scheme \<Rightarrow> delivery \<times> 'z hooks_scheme" where
  "attempts_loop env intr j body 0 k lastStatus h = (GaveUp lastStatus, record_attempt (hook_ID (j_wh j)) lastStatus h)"
| "attempts_loop env intr j body (Suc n) k lastStatus h =
     (if 0 < k \<and> intr k then (Aborted, h)
      else case post env (j_wh j) (j_event j) body h of (res, h') \<Rightarrow>
        let status = (case res of None \<Rightarrow> 0 | Some st \<Rightarrow> st) in
        if res \<noteq> None \<and> 200 \<le> status \<and> status < 300
        then (Delivered status, record_attempt (hook_ID (j_wh j)) status h')
        else attempts_loop env intr j body n (Suc k) status h')"

definition deliver :: "delivery_env \<Rightarrow> (nat \<Rightarrow> bool) \<Rightarrow> job \<Rightarrow> 'z hooks_scheme \<Rightarrow> delivery \<times> 'z hooks_scheme" where
  "deliver env intr j h =
     (case read_clock h of (n, h1) \<Rightarrow>
      case de_marshal env \<lparr>pl_Event = j_event j, pl_Run = j_run j, pl_Timestamp = n\<rparr> of
        None \<Rightarrow> (Unencodable, h1)
      | Some body \<Rightarrow>
          if IsEchoURL (hook_URL (j_wh j)) then
            let h2 = (case hk_echo h1 of None \<Rightarrow> h1
                | Some l \<Rightarrow> (case read_clock h1 of (n2, h2) \<Rightarrow> h2\<lparr>hk_echo := Some (Record n2
                    \<lparr>ec_Timestamp = 0, ec_Event = j_event j, ec_WebhookID = hook_ID (j_wh j), ec_Body = body, ec_RunID = run_ID (j_run j)\<rparr> l)\<rparr>))
            in (Echoed, record_attempt (hook_ID (j_wh j)) 200 h2)
          else attempts_loop env intr j body maxRetries 0 0 h1)"

definition jobs_for :: "string \<Rightarrow> string \<Rightarrow> Run \<Rightarrow> db \<Rightarrow> job list" where
  "jobs_for ws event run s =
     map (\<lambda>wh. \<lparr>j_wh = wh, j_event = event, j_run = run\<rparr>)
       (filter (\<lambda>wh. hook_Enabled wh \<and> matchesEvent (hook_Events wh) event) (ListWebhooks ws (Some (run_ExperimentID run)) s))"

text \<open>One job is offered to the queue; the result says whether \<open>Notify\<close> goes on with the next.\<close>

definition offer :: "job \<Rightarrow> 'z hooks_scheme \<Rightarrow> bool \<times> 'z hooks_scheme" where
  "offer j h =
     (if hk_stopped h then (False, h\<lparr>hk_dropped := hk_dropped h + 1\<rparr>)
      else if length (hk_queue h) < queueCapacity then (True, h\<lparr>hk_queue := hk_queue h @ [j]\<rparr>)
      else (True, h\<lparr>hk_dropped := hk_dropped h + 1\<rparr>))"

fun offer_all :: "job list \<Rightarrow> 'z hooks_scheme \<Rightarrow> 'z hooks_scheme" where
  "offer_all [] h = h"
| "offer_all (j # js) h = (case offer j h of (True, h') \<Rightarrow> offer_all js h' | (False, h') \<Rightarrow> h')"

definition Notify :: "string \<Rightarrow> string \<Rightarrow> Run \<Rightarrow> 'z hooks_scheme \<Rightarrow> 'z hooks_scheme" where
  "Notify ws event run h =
     (if event = [] then h
      else if hk_stopped h then h
      else offer_all (jobs_for ws event run (hk_db h)) h)"

definition DroppedCount :: "'z hooks_scheme \<Rightarrow> nat" where
  "DroppedCount h = hk_dropped h"

text \<open>One job taken by a worker.\<close>

definition work :: "delivery_env \<Rightarrow> (nat \<Rightarrow> bool) \<Rightarrow> 'z hooks_scheme \<Rightarrow> 'z hooks_scheme" where
  "work env intr h = (case hk_queue h of [] \<Rightarrow> h | j # q \<Rightarrow> snd (deliver env intr j (h\<lparr>hk_queue := q\<rparr>)))"

text \<open>The last part of \<open>Stop\<close>: what is still in the queue after the workers have gone is delivered.\<close>

fun sweep_queue :: "delivery_env \<Rightarrow> (nat \<Rightarrow> bool) \<Rightarrow> job list \<Rightarrow> 'z hooks_scheme \<Rightarrow> 'z hooks_scheme" where
  "sweep_queue env intr [] h = h"
| "sweep_queue env intr (j # js) h = sweep_queue env intr js (work env intr h)"

definition Stop :: "delivery_env \<Rightarrow> (nat \<Rightarrow> bool) \<Rightarrow> bool \<Rightarrow> 'z hooks_scheme \<Rightarrow> 'z hooks_scheme" where
  "Stop env intr timedOut h =
     (let h1 = h\<lparr>hk_stopped := True\<rparr> in if timedOut then h1 else sweep_queue env intr (hk_queue h1) h1)"

text \<open>\<open>SyncDelivery.Deliver\<close>: one attempt, for the test of a webhook; the status is 0 when the connection fails.\<close>

definition Deliver :: "delivery_env \<Rightarrow> Webhook \<Rightarrow> string \<Rightarrow> Run \<Rightarrow> 'z hooks_scheme \<Rightarrow> (int \<times> bool) \<times> 'z hooks_scheme" where
  "Deliver env wh event run h =
     (case read_clock h of (n, h1) \<Rightarrow>
      case de_marshal env \<lparr>pl_Event = event, pl_Run = run, pl_Timestamp = n\<rparr> of
        None \<Rightarrow> ((0, False), h1)
      | Some body \<Rightarrow>
          if IsEchoURL (hook_URL wh) then
            ((200, True), case hk_echo h1 of None \<Rightarrow> h1
                | Some l \<Rightarrow> (case read_clock h1 of (n2, h2) \<Rightarrow> h2\<lparr>hk_echo := Some (Record n2
                    \<lparr>ec_Timestamp = 0, ec_Event = event, ec_WebhookID = hook_ID wh, ec_Body = body, ec_RunID = run_ID run\<rparr> l)\<rparr>))
          else case post env wh event body h1 of
            (None, h2) \<Rightarrow> ((0, False), h2) | (Some st, h2) \<Rightarrow> ((st, True), h2))"

section \<open>One delivery\<close>

lemma read_clock_frame [simp]:
  "hk_queue (snd (read_clock h)) = hk_queue h" "hk_dropped (snd (read_clock h)) = hk_dropped h"
  "hk_stopped (snd (read_clock h)) = hk_stopped h" "hk_echo (snd (read_clock h)) = hk_echo h" "hk_sent (snd (read_clock h)) = hk_sent h"
  by (simp_all add: read_clock_def on_db_def now_def)

lemma record_attempt_frame [simp]:
  "hk_queue (record_attempt i st h) = hk_queue h" "hk_dropped (record_attempt i st h) = hk_dropped h"
  "hk_stopped (record_attempt i st h) = hk_stopped h" "hk_echo (record_attempt i st h) = hk_echo h" "hk_sent (record_attempt i st h) = hk_sent h"
  by (simp_all add: record_attempt_def split_beta on_db_def)

text \<open>The status that a webhook shows after a recorded attempt.\<close>

definition last_status :: "int \<Rightarrow> 'z hooks_scheme \<Rightarrow> int option" where
  "last_status i h = (case first_row (\<lambda>w. wh_id w = i) (webhooks (hk_db h)) of None \<Rightarrow> None | Some w \<Rightarrow> wh_last_status w)"

definition hook_known :: "int \<Rightarrow> 'z hooks_scheme \<Rightarrow> bool" where
  "hook_known i h \<longleftrightarrow> list_ex (\<lambda>w. wh_id w = i) (webhooks (hk_db h))"

lemma first_row_updated:
  assumes "list_ex (\<lambda>w. wh_id w = i) ws" and "\<And>w. wh_id w = i \<Longrightarrow> wh_id (f w) = i \<and> wh_last_status (f w) = Some st"
  shows "\<exists>w. first_row (\<lambda>w. wh_id w = i) (update_where (\<lambda>w. wh_id w = i) f ws) = Some w \<and> wh_last_status w = Some st"
  using assms(1)
proof (induction ws)
  case (Cons w ws)
  then show ?case using assms(2) [of w] by (cases "wh_id w = i") (simp_all add: update_where_def first_row_Cons)
qed simp

lemma record_attempt_status:
  assumes "hook_known i h"
  shows "last_status i (record_attempt i st h) = Some st"
proof -
  have "list_ex (\<lambda>w. wh_id w = i) (webhooks (hk_db (snd (read_clock h))))"
    using assms by (simp add: hook_known_def read_clock_def on_db_def now_def)
  from first_row_updated [OF this, of "\<lambda>w. w\<lparr>wh_last_status := Some st, wh_last_attempt := Some (fst (read_clock h)), wh_id := i\<rparr>" st] show ?thesis
    by (auto simp: last_status_def record_attempt_def split_beta on_db_def RecordWebhookAttempt_def update_webhooks_def sem_simps stmt_def)
qed

definition accepted_status :: "int \<Rightarrow> bool" where
  "accepted_status st \<longleftrightarrow> 200 \<le> st \<and> st < 300"

lemma attempts_loop_spec:
  assumes "attempts_loop env intr j body n k ls h = (out, h')" and "n = 0 \<longrightarrow> 0 < k"
  shows "hk_queue h' = hk_queue h \<and> hk_dropped h' = hk_dropped h \<and> hk_stopped h' = hk_stopped h \<and> hk_echo h' = hk_echo h
    \<and> (\<exists>m \<le> n. (k = 0 \<longrightarrow> 0 < m) \<and> hk_sent h' = hk_sent h @ replicate m (request_of (j_wh j) (j_event j) body)
      \<and> (case out of Delivered st \<Rightarrow> accepted_status st \<and> (hook_known (hook_ID (j_wh j)) h \<longrightarrow> last_status (hook_ID (j_wh j)) h' = Some st)
           \<and> de_respond env (length (hk_sent h) + m - 1) (request_of (j_wh j) (j_event j) body) = Some st
         | GaveUp st \<Rightarrow> m = n \<and> (hook_known (hook_ID (j_wh j)) h \<longrightarrow> last_status (hook_ID (j_wh j)) h' = Some st)
         | Aborted \<Rightarrow> m < n \<and> intr (k + m) | _ \<Rightarrow> False))"
  using assms
proof (induction env intr j body n k ls h rule: attempts_loop.induct)
  case (1 env intr j body k lastStatus h)
  then show ?case by (auto simp: record_attempt_status intro!: exI [of _ 0])
next
  case (2 env intr j body n k lastStatus h)
  let ?i = "hook_ID (j_wh j)" and ?q = "request_of (j_wh j) (j_event j) body"
  let ?r = "de_respond env (length (hk_sent h)) ?q" and ?h = "h\<lparr>hk_sent := hk_sent h @ [?q]\<rparr>"
  let ?st = "case ?r of None \<Rightarrow> 0 | Some st \<Rightarrow> st"
  have kn: "hook_known ?i ?h = hook_known ?i h" by (simp add: hook_known_def)
  show ?case
  proof (cases "0 < k \<and> intr k")
    case True
    with 2(2) show ?thesis by (auto intro!: exI [of _ 0])
  next
    case False
    show ?thesis
    proof (cases "?r \<noteq> None \<and> 200 \<le> ?st \<and> ?st < 300")
      case True
      with 2(2) False have "out = Delivered ?st" "h' = record_attempt ?i ?st ?h"
        by (auto simp: post_def Let_def)
      then show ?thesis using True record_attempt_status [of ?i ?h ?st] kn by (auto simp: accepted_status_def intro!: exI [of _ 1])
    next
      case ng: False
      with 2(2) False have "attempts_loop env intr j body n (Suc k) ?st ?h = (out, h')" by (auto simp: post_def Let_def)
      from 2(1) [OF False _ _ ng this] obtain m where m: "m \<le> n" "hk_sent h' = hk_sent ?h @ replicate m ?q"
          "case out of Delivered st \<Rightarrow> accepted_status st \<and> (hook_known ?i ?h \<longrightarrow> last_status ?i h' = Some st)
             \<and> de_respond env (length (hk_sent ?h) + m - 1) ?q = Some st
           | GaveUp st \<Rightarrow> m = n \<and> (hook_known ?i ?h \<longrightarrow> last_status ?i h' = Some st)
           | Aborted \<Rightarrow> m < n \<and> intr (Suc k + m) | _ \<Rightarrow> False"
        and fr: "hk_queue h' = hk_queue ?h \<and> hk_dropped h' = hk_dropped ?h \<and> hk_stopped h' = hk_stopped ?h \<and> hk_echo h' = hk_echo ?h"
        by (auto simp: post_def Let_def)
      from m have "hk_sent h' = hk_sent h @ replicate (Suc m) ?q" by simp
      with m fr kn show ?thesis by (intro conjI exI [of _ "Suc m"]) (auto split: delivery.splits)
    qed
  qed
qed

lemma deliver_frame:
  "hk_queue (snd (deliver env intr j h)) = hk_queue h" "hk_dropped (snd (deliver env intr j h)) = hk_dropped h"
  "hk_stopped (snd (deliver env intr j h)) = hk_stopped h"
  "\<exists>m body. m \<le> maxRetries \<and> hk_sent (snd (deliver env intr j h)) = hk_sent h @ replicate m (request_of (j_wh j) (j_event j) body)"
proof -
  let ?h = "snd (read_clock h)" and ?d = "snd (deliver env intr j h)"
  have "hk_queue ?d = hk_queue h \<and> hk_dropped ?d = hk_dropped h \<and> hk_stopped ?d = hk_stopped h \<and>
    (\<exists>m body. m \<le> maxRetries \<and> hk_sent ?d = hk_sent h @ replicate m (request_of (j_wh j) (j_event j) body))"
  proof (cases "de_marshal env \<lparr>pl_Event = j_event j, pl_Run = j_run j, pl_Timestamp = fst (read_clock h)\<rparr>")
    case None
    then show ?thesis by (auto simp: deliver_def split_beta)
  next
    case (Some body)
    show ?thesis
    proof (cases "IsEchoURL (hook_URL (j_wh j))")
      case True
      with Some show ?thesis by (auto simp: deliver_def split_beta Let_def split: option.splits)
    next
      case False
      then have e: "deliver env intr j h = attempts_loop env intr j body maxRetries 0 0 ?h" using Some by (simp add: deliver_def split_beta)
      have "maxRetries = 0 \<longrightarrow> 0 < (0::nat)" by (simp add: maxRetries_def)
      from attempts_loop_spec [OF prod.collapse [symmetric] this, of env intr j body 0 ?h] show ?thesis unfolding e by auto
    qed
  qed
  then show "hk_queue ?d = hk_queue h" "hk_dropped ?d = hk_dropped h" "hk_stopped ?d = hk_stopped h"
    "\<exists>m body. m \<le> maxRetries \<and> hk_sent ?d = hk_sent h @ replicate m (request_of (j_wh j) (j_event j) body)" by blast+
qed

section \<open>Notifications, workers and shutdown at once\<close>

text \<open>
  The state of the system: the dispatcher, the batches of jobs that calls of \<open>Notify\<close> still have to offer, and, for the accounts, the jobs
  that were notified, accepted and taken by a worker so far. The API may change the database at any time.
\<close>

record dispatch_state =
  ds_hooks :: hooks
  ds_batches :: "job list list"
  ds_notified :: "job list"
  ds_accepted :: "job list"
  ds_taken :: "job list"

inductive dispatch_step :: "delivery_env \<Rightarrow> dispatch_state \<Rightarrow> dispatch_state \<Rightarrow> bool" for env where
  notify: "\<lbrakk>\<not> hk_stopped (ds_hooks d); event \<noteq> []; js = jobs_for ws event run (hk_db (ds_hooks d))\<rbrakk> \<Longrightarrow>
    dispatch_step env d (d\<lparr>ds_batches := js # ds_batches d, ds_notified := ds_notified d @ js\<rparr>)"
| offers: "\<lbrakk>ds_batches d = bs @ (j # js) # cs; offer j (ds_hooks d) = (True, h)\<rbrakk> \<Longrightarrow>
    dispatch_step env d (d\<lparr>ds_hooks := h, ds_batches := bs @ js # cs,
      ds_accepted := ds_accepted d @ (if length (hk_queue (ds_hooks d)) < queueCapacity then [j] else [])\<rparr>)"
| gives_up: "\<lbrakk>ds_batches d = bs @ (j # js) # cs; offer j (ds_hooks d) = (False, h)\<rbrakk> \<Longrightarrow>
    dispatch_step env d (d\<lparr>ds_hooks := h, ds_batches := bs @ cs\<rparr>)"
| works: "hk_queue (ds_hooks d) = j # q \<Longrightarrow>
    dispatch_step env d (d\<lparr>ds_hooks := work env intr (ds_hooks d), ds_taken := ds_taken d @ [j]\<rparr>)"
| stops: "dispatch_step env d (d\<lparr>ds_hooks := ds_hooks d\<lparr>hk_stopped := True\<rparr>\<rparr>)"
| store: "dispatch_step env d (d\<lparr>ds_hooks := ds_hooks d\<lparr>hk_db := s\<rparr>\<rparr>)"

definition started :: "hooks \<Rightarrow> dispatch_state" where
  "started h = \<lparr>ds_hooks = h, ds_batches = [], ds_notified = [], ds_accepted = [], ds_taken = []\<rparr>"

definition fresh_hooks :: "hooks \<Rightarrow> bool" where
  "fresh_hooks h \<longleftrightarrow> hk_queue h = [] \<and> hk_dropped h = 0 \<and> hk_sent h = [] \<and> \<not> hk_stopped h"

definition of_job :: "job \<Rightarrow> post_request \<Rightarrow> bool" where
  "of_job j q \<longleftrightarrow> (\<exists>body. q = request_of (j_wh j) (j_event j) body)"

definition dispatch_inv :: "dispatch_state \<Rightarrow> bool" where
  "dispatch_inv d \<longleftrightarrow>
     length (hk_queue (ds_hooks d)) \<le> queueCapacity \<and> ds_accepted d = ds_taken d @ hk_queue (ds_hooks d) \<and>
     set (ds_accepted d) \<subseteq> set (ds_notified d) \<and> (\<forall>b\<in>set (ds_batches d). set b \<subseteq> set (ds_notified d)) \<and>
     length (ds_accepted d) + hk_dropped (ds_hooks d) + length (concat (ds_batches d)) \<le> length (ds_notified d) \<and>
     (\<not> hk_stopped (ds_hooks d) \<longrightarrow>
       length (ds_accepted d) + hk_dropped (ds_hooks d) + length (concat (ds_batches d)) = length (ds_notified d)) \<and>
     length (hk_sent (ds_hooks d)) \<le> maxRetries * length (ds_taken d) \<and>
     (\<forall>q\<in>set (hk_sent (ds_hooks d)). \<exists>j\<in>set (ds_taken d). of_job j q)"

lemma work_frame:
  assumes "hk_queue h = j # q"
  shows "hk_queue (work env intr h) = q" "hk_dropped (work env intr h) = hk_dropped h" "hk_stopped (work env intr h) = hk_stopped h"
    "\<exists>m body. m \<le> maxRetries \<and> hk_sent (work env intr h) = hk_sent h @ replicate m (request_of (j_wh j) (j_event j) body)"
  using deliver_frame [of env intr j "h\<lparr>hk_queue := q\<rparr>"] assms by (simp_all add: work_def)

lemma dispatch_inv_step:
  assumes "dispatch_inv d" and "dispatch_step env d e"
  shows "dispatch_inv e"
  using assms(2,1)
proof (cases rule: dispatch_step.cases)
  case (offers bs j js cs h)
  then show ?thesis using assms(1) by (auto simp: dispatch_inv_def offer_def queueCapacity_def split: if_splits)
next
  case (gives_up bs j js cs h)
  then show ?thesis using assms(1) by (auto simp: dispatch_inv_def offer_def split: if_splits)
next
  case (works j q intr)
  obtain m body where m: "m \<le> maxRetries" "hk_sent (work env intr (ds_hooks d)) = hk_sent (ds_hooks d) @ replicate m (request_of (j_wh j) (j_event j) body)"
    using work_frame(4) [OF works(2)] by blast
  have "of_job j x" if "x \<in> set (replicate m (request_of (j_wh j) (j_event j) body))" for x
    using that by (auto simp: of_job_def)
  with works m assms(1) work_frame [OF works(2), of env intr] show ?thesis by (auto simp: dispatch_inv_def)
qed (use assms(1) in \<open>auto simp: dispatch_inv_def\<close>)

lemma dispatch_inv_started: "fresh_hooks h \<Longrightarrow> dispatch_inv (started h)"
  by (simp add: dispatch_inv_def started_def fresh_hooks_def)

text \<open>\<open>Notify\<close> without interruption is a batch offered to the end.\<close>

lemma offer_all_steps:
  assumes "\<not> hk_stopped (ds_hooks d)" and "ds_batches d = js # cs"
  shows "\<exists>e. (dispatch_step env)\<^sup>*\<^sup>* d e \<and> ds_hooks e = offer_all js (ds_hooks d) \<and> ds_batches e = [] # cs \<and> ds_notified e = ds_notified d"
  using assms
proof (induction js arbitrary: d)
  case (Cons j js)
  obtain h where o: "offer j (ds_hooks d) = (True, h)" "\<not> hk_stopped h"
    using Cons.prems(1) by (cases "length (hk_queue (ds_hooks d)) < queueCapacity") (simp_all add: offer_def)
  let ?e = "d\<lparr>ds_hooks := h, ds_batches := [] @ js # cs,
      ds_accepted := ds_accepted d @ (if length (hk_queue (ds_hooks d)) < queueCapacity then [j] else [])\<rparr>"
  have "dispatch_step env d ?e" by (rule dispatch_step.offers) (use Cons.prems(2) o in simp_all)
  moreover obtain e where "(dispatch_step env)\<^sup>*\<^sup>* ?e e" "ds_hooks e = offer_all js h" "ds_batches e = [] # cs" "ds_notified e = ds_notified d"
    using Cons.IH [of ?e] o(2) by auto
  ultimately show ?case using o(1) by (intro exI [of _ e]) (auto intro: converse_rtranclp_into_rtranclp)
qed auto

lemma Notify_steps:
  assumes "\<not> hk_stopped (ds_hooks d)" and "event \<noteq> []" and "ds_batches d = cs"
  shows "\<exists>e. (dispatch_step env)\<^sup>*\<^sup>* d e \<and> ds_hooks e = Notify ws event run (ds_hooks d)
    \<and> ds_notified e = ds_notified d @ jobs_for ws event run (hk_db (ds_hooks d)) \<and> ds_batches e = [] # cs"
proof -
  let ?js = "jobs_for ws event run (hk_db (ds_hooks d))"
  let ?d = "d\<lparr>ds_batches := ?js # ds_batches d, ds_notified := ds_notified d @ ?js\<rparr>"
  have "dispatch_step env d ?d" by (rule dispatch_step.notify [OF assms(1,2) refl])
  moreover obtain e where "(dispatch_step env)\<^sup>*\<^sup>* ?d e" "ds_hooks e = offer_all ?js (ds_hooks d)" "ds_batches e = [] # cs" "ds_notified e = ds_notified ?d"
    using offer_all_steps [of ?d ?js cs env] assms by auto
  ultimately show ?thesis using assms by (intro exI [of _ e]) (auto simp: Notify_def intro: converse_rtranclp_into_rtranclp)
qed

text \<open>A notification after \<open>Stop\<close> is lost without being counted.\<close>

lemma Notify_stopped: "hk_stopped h \<Longrightarrow> Notify ws event run h = h"
  by (simp add: Notify_def)


definition sample_hooks :: hooks where
  "sample_hooks = \<lparr>hk_db = fresh_db (\<lambda>_. 7) 7, hk_queue = [], hk_dropped = 0, hk_stopped = False, hk_echo = None, hk_sent = []\<rparr>"


text \<open>
  One delivery to a web address: a status in the 200s ends it and is recorded; otherwise it gives up after three requests and records
  the last status; only a shutdown ends it earlier.
\<close>

theorem deliver_outcome:
  assumes "\<not> IsEchoURL (hook_URL (j_wh j))" and "\<And>p. de_marshal env p \<noteq> None" and "hook_known (hook_ID (j_wh j)) h"
    and "deliver env intr j h = (out, h')"
  shows "\<exists>m body. 1 \<le> m \<and> m \<le> 3 \<and> hk_sent h' = hk_sent h @ replicate m (request_of (j_wh j) (j_event j) body)
    \<and> (case out of Delivered st \<Rightarrow> accepted_status st \<and> last_status (hook_ID (j_wh j)) h' = Some st
       | GaveUp st \<Rightarrow> m = 3 \<and> last_status (hook_ID (j_wh j)) h' = Some st
       | Aborted \<Rightarrow> m < 3 \<and> intr m | _ \<Rightarrow> False)"
proof -
  let ?h = "snd (read_clock h)"
  obtain body where "de_marshal env \<lparr>pl_Event = j_event j, pl_Run = j_run j, pl_Timestamp = fst (read_clock h)\<rparr> = Some body"
    using assms(2) by blast
  with assms(1,4) have e: "attempts_loop env intr j body maxRetries 0 0 ?h = (out, h')" by (simp add: deliver_def split_beta)
  have "hook_known (hook_ID (j_wh j)) ?h" using assms(3) by (simp add: hook_known_def read_clock_def on_db_def now_def)
  with attempts_loop_spec [OF e] show ?thesis by (auto simp: maxRetries_def Suc_le_eq split: delivery.splits)
qed

end
