(* ===== verification/MlflowApi.thy ===== *)
theory MlflowApi
  imports Dispatch Artifact RunSearch Downsample TimeTravel Inputs RunData
begin

text \<open>
  The handlers of the MLflow REST API (\<open>internal/api/mlflow/handlers.go\<close>, \<open>dto.go\<close>) behind the middlewares. A handler gets the workspace the
  middleware has resolved, the query parameters and the decoded body (\<open>None\<close> when \<open>encoding/json\<close> refuses it), runs store calls, and
  answers with a value or with a status and an error code. The texts of error messages and the JSON encoding of answers are left
  out; page tokens are the opaque values of \<open>Keyset\<close>.
\<close>

section \<open>Answers\<close>

datatype http_error = HttpError nat string

record api = hooks +
  api_fs :: fs

type_synonym 'a handler = "(api, http_error, 'a) sem"

definition bad_request :: http_error where
  "bad_request = HttpError 400 ''INVALID_PARAMETER_VALUE''"

definition writeStoreErr :: "err \<Rightarrow> http_error" where
  "writeStoreErr e = (case e of
     err.ErrNotFound \<Rightarrow> HttpError 404 ''RESOURCE_DOES_NOT_EXIST''
   | err.ErrAlreadyExists \<Rightarrow> HttpError 400 ''RESOURCE_ALREADY_EXISTS''
   | err.ErrConflict \<Rightarrow> HttpError 409 ''RESOURCE_CONFLICT''
   | err.ErrInvalidFilter \<Rightarrow> bad_request
   | err.ErrInvalidStage \<Rightarrow> bad_request
   | err.ErrInvalidValue \<Rightarrow> bad_request
   | _ \<Rightarrow> HttpError 500 ''INTERNAL_ERROR'')"

definition writeArtifactErr :: "art_error \<Rightarrow> http_error" where
  "writeArtifactErr e = (case e of
     art_error.ErrNotFound \<Rightarrow> HttpError 404 ''RESOURCE_DOES_NOT_EXIST''
   | art_error.ErrInvalidPath \<Rightarrow> bad_request
   | art_error.ErrPayloadTooBig \<Rightarrow> HttpError 413 ''INVALID_PARAMETER_VALUE''
   | _ \<Rightarrow> HttpError 500 ''INTERNAL_ERROR'')"

text \<open>A store call whose error is answered by \<open>writeStoreErr\<close>; one that only reads; one whose error is ignored.\<close>

definition call :: "'a op \<Rightarrow> 'a handler" where
  "call m a = (case on_db m a of (Inl e, b) \<Rightarrow> (Inl (writeStoreErr e), b) | (Inr x, b) \<Rightarrow> (Inr x, b))"

definition query_db :: "(db \<Rightarrow> err + 'a) \<Rightarrow> 'a handler" where
  "query_db f a = (map_sum writeStoreErr (\<lambda>x. x) (f (hk_db a)), a)"

definition ignoring :: "'a op \<Rightarrow> unit handler" where
  "ignoring m a = (Inr (), snd (on_db m a))"

definition decodeJSON :: "'r option \<Rightarrow> 'r handler" where
  "decodeJSON body = (case body of None \<Rightarrow> throw bad_request | Some r \<Rightarrow> ret r)"

definition parse_id :: "string \<Rightarrow> int handler" where
  "parse_id s = (case ParseInt s of None \<Rightarrow> throw bad_request | Some i \<Rightarrow> ret i)"

definition currentWorkspace :: "(string \<Rightarrow> string) \<Rightarrow> string" where
  "currentWorkspace header = (if header ''X-LiteMLflow-Workspace'' \<noteq> [] then header ''X-LiteMLflow-Workspace'' else ''default'')"

definition ensureRunInWorkspace :: "string \<Rightarrow> string \<Rightarrow> unit handler" where
  "ensureRunInWorkspace ws runID = bnd (call (GetRunInWorkspace runID ws)) (\<lambda>_. ret ())"

definition getExperimentInWorkspace :: "string \<Rightarrow> int \<Rightarrow> Experiment op" where
  "getExperimentInWorkspace ws i =
     bnd (GetExperiment i) (\<lambda>e.
     bnd (require (or_default [] ''default'' (exp_WorkspaceID e) = ws) err.ErrNotFound) (\<lambda>_. ret e))"

text \<open>
  The \<open>Handler\<close> struct: the artifact store with the working directory of the server, whether there is a dispatcher, and the bound on
  uploads; and what the store's queries need of the database engine. \<open>ha_v03\<close> says that the tables of version 0.3 are still there.
\<close>

record Handler =
  ha_Artifacts :: FilesystemStore
  ha_cwd :: string
  ha_Dispatcher :: bool
  ha_MaxArtifactSize :: int
  ha_engine :: engine
  ha_v03 :: bool

text \<open>A call whose \<open>ErrNotFound\<close> is skipped over by \<open>continue\<close>, and a call of the dispatcher.\<close>

definition call_found :: "'a op \<Rightarrow> 'a option handler" where
  "call_found m a = (case on_db m a of
     (Inl e, b) \<Rightarrow> (if e = err.ErrNotFound then Inr None else Inl (writeStoreErr e), b)
   | (Inr x, b) \<Rightarrow> (Inr (Some x), b))"

definition notify :: "Handler \<Rightarrow> string \<Rightarrow> string \<Rightarrow> Run \<Rightarrow> unit handler" where
  "notify h ws event run = (if ha_Dispatcher h then modify (Notify ws event run) else ret ())"

definition read_db :: "(db \<Rightarrow> 'a) \<Rightarrow> 'a handler" where
  "read_db f = gets (\<lambda>a. f (hk_db a))"

section \<open>Wire formats\<close>

record experimentDTO =
  xd_ExperimentID :: string
  xd_Name :: string
  xd_ArtifactLocation :: string
  xd_LifecycleStage :: string
  xd_CreationTime :: int
  xd_LastUpdateTime :: int
  xd_Tags :: "KV list"

record runInfoDTO =
  ri_RunID :: string
  ri_RunUUID :: string
  ri_RunName :: string
  ri_ExperimentID :: string
  ri_UserID :: string
  ri_Status :: string
  ri_StartTime :: int
  ri_EndTime :: int
  ri_ArtifactURI :: string
  ri_LifecycleStage :: string

record runDataDTO =
  rd_Metrics :: "Metric list"
  rd_Params :: "Param list"
  rd_Tags :: "KV list"

record runDTO =
  rn_Info :: runInfoDTO
  rn_Data :: runDataDTO
  rn_Inputs :: "DatasetInput list option"

definition experimentToDTO :: "Experiment \<Rightarrow> experimentDTO" where
  "experimentToDTO e = \<lparr>
     xd_ExperimentID = FormatInt (exp_ID e), xd_Name = exp_Name e, xd_ArtifactLocation = exp_ArtifactLocation e,
     xd_LifecycleStage = exp_LifecycleStage e, xd_CreationTime = exp_CreationTime e, xd_LastUpdateTime = exp_LastUpdateTime e,
     xd_Tags = exp_Tags e\<rparr>"

definition runInfoToDTO :: "Run \<Rightarrow> runInfoDTO" where
  "runInfoToDTO r = \<lparr>
     ri_RunID = run_ID r, ri_RunUUID = run_ID r, ri_RunName = run_Name r, ri_ExperimentID = FormatInt (run_ExperimentID r),
     ri_UserID = run_UserID r, ri_Status = run_Status r, ri_StartTime = run_StartTime r,
     ri_EndTime = (case run_EndTime r of None \<Rightarrow> 0 | Some t \<Rightarrow> t), ri_ArtifactURI = run_ArtifactURI r,
     ri_LifecycleStage = run_LifecycleStage r\<rparr>"

definition datasetInputsToDTO :: "DatasetInput list \<Rightarrow> DatasetInput list option" where
  "datasetInputsToDTO inputs = (if inputs = [] then None else Some inputs)"

section \<open>Experiments\<close>

record createExperimentReq =
  ce_Name :: string
  ce_ArtifactLocation :: string
  ce_Tags :: "KV list"

definition CreateExperiment_h :: "string \<Rightarrow> createExperimentReq option \<Rightarrow> string handler" where
  "CreateExperiment_h ws body =
     bnd (decodeJSON body) (\<lambda>req.
     bnd (require (ce_Name req \<noteq> []) bad_request) (\<lambda>_.
     bnd (call (CreateExperiment \<lparr>exp_ID = 0, exp_Name = ce_Name req, exp_ArtifactLocation = ce_ArtifactLocation req,
            exp_LifecycleStage = [], exp_CreationTime = 0, exp_LastUpdateTime = 0, exp_WorkspaceID = ws, exp_Tags = ce_Tags req\<rparr>)) (\<lambda>i.
     ret (FormatInt i))))"

definition GetExperiment_h :: "string \<Rightarrow> (string \<Rightarrow> string) \<Rightarrow> experimentDTO handler" where
  "GetExperiment_h ws q =
     bnd (parse_id (q ''experiment_id'')) (\<lambda>i.
     bnd (call (getExperimentInWorkspace ws i)) (\<lambda>e. ret (experimentToDTO e)))"

definition GetExperimentByName_h :: "string \<Rightarrow> (string \<Rightarrow> string) \<Rightarrow> experimentDTO handler" where
  "GetExperimentByName_h ws q =
     bnd (require (q ''experiment_name'' \<noteq> []) bad_request) (\<lambda>_.
     bnd (call (GetExperimentByNameInWorkspace ws (q ''experiment_name''))) (\<lambda>e. ret (experimentToDTO e)))"

record searchExperimentsReq =
  se_MaxResults :: int
  se_PageToken :: token
  se_Filter :: string
  se_ViewType :: string

definition mapViewType :: "(nat \<Rightarrow> nat) \<Rightarrow> string \<Rightarrow> string" where
  "mapViewType up v =
     (let u = ToUpper up v in
      if u = ''DELETED_ONLY'' then LifecycleDeleted else if u = ''ALL'' then ''all'' else LifecycleActive)"

text \<open>The body may be missing or refused: its fields are then empty. Empty fields are taken from the query.\<close>

definition SearchExperiments_h ::
    "(nat \<Rightarrow> nat) \<Rightarrow> string \<Rightarrow> (string \<Rightarrow> string) \<Rightarrow> token \<Rightarrow> searchExperimentsReq option \<Rightarrow> (experimentDTO list \<times> token) handler" where
  "SearchExperiments_h up ws q qtoken body =
     (let req = (case body of None \<Rightarrow> \<lparr>se_MaxResults = 0, se_PageToken = NoToken, se_Filter = [], se_ViewType = []\<rparr> | Some r \<Rightarrow> r);
          mx = (if se_MaxResults req = 0 then (case ParseInt (q ''max_results'') of None \<Rightarrow> 0 | Some n \<Rightarrow> n) else se_MaxResults req);
          flt = or_default [] (q ''filter'') (se_Filter req);
          vt = or_default [] (q ''view_type'') (se_ViewType req);
          tok = (if se_PageToken req = NoToken then qtoken else se_PageToken req)
      in bnd (query_db (SearchExperiments up \<lparr>so_ExperimentIDs = [], so_LifecycleStage = mapViewType up vt, so_Filter = flt, so_OrderBy = [],
             so_MaxResults = mx, so_PageToken = tok, so_WorkspaceID = ws\<rparr>)) (\<lambda>(items, next_token).
         ret (map experimentToDTO items, next_token)))"

definition set_experiment_stage :: "string \<Rightarrow> string \<Rightarrow> string option \<Rightarrow> unit handler" where
  "set_experiment_stage ws stage body =
     bnd (decodeJSON body) (\<lambda>experimentID.
     bnd (parse_id experimentID) (\<lambda>i.
     bnd (call (getExperimentInWorkspace ws i)) (\<lambda>_.
     call (SetExperimentLifecycle i stage))))"

definition DeleteExperiment_h :: "string \<Rightarrow> string option \<Rightarrow> unit handler" where
  "DeleteExperiment_h ws body = set_experiment_stage ws LifecycleDeleted body"

definition RestoreExperiment_h :: "string \<Rightarrow> string option \<Rightarrow> unit handler" where
  "RestoreExperiment_h ws body = set_experiment_stage ws LifecycleActive body"

text \<open>The bodies of the next two are \<open>(experiment_id, new_name)\<close> and \<open>(experiment_id, key, value)\<close>.\<close>

definition UpdateExperiment_h :: "string \<Rightarrow> (string \<times> string) option \<Rightarrow> unit handler" where
  "UpdateExperiment_h ws body =
     bnd (decodeJSON body) (\<lambda>(experimentID, newName).
     bnd (parse_id experimentID) (\<lambda>i.
     bnd (require (newName \<noteq> []) bad_request) (\<lambda>_.
     bnd (call (getExperimentInWorkspace ws i)) (\<lambda>_.
     call (UpdateExperiment i (Some newName))))))"

definition SetExperimentTag_h :: "string \<Rightarrow> (string \<times> KV) option \<Rightarrow> unit handler" where
  "SetExperimentTag_h ws body =
     bnd (decodeJSON body) (\<lambda>(experimentID, kv).
     bnd (parse_id experimentID) (\<lambda>i.
     bnd (call (getExperimentInWorkspace ws i)) (\<lambda>_.
     call (SetExperimentTag i (kv_Key kv) (kv_Value kv)))))"

section \<open>Runs\<close>

record createRunReq =
  cr_ExperimentID :: string
  cr_UserID :: string
  cr_StartTime :: int
  cr_Tags :: "KV list"
  cr_RunName :: string

definition parent_of_tags :: "KV list \<Rightarrow> string" where
  "parent_of_tags ts = (case find (\<lambda>t. kv_Key t = ''mlflow.parentRunId'') ts of None \<Rightarrow> [] | Some t \<Rightarrow> kv_Value t)"

definition CreateRun_h :: "Handler \<Rightarrow> string \<Rightarrow> string \<Rightarrow> createRunReq option \<Rightarrow> runDTO handler" where
  "CreateRun_h h newID ws body =
     bnd (decodeJSON body) (\<lambda>req.
     bnd (parse_id (cr_ExperimentID req)) (\<lambda>expID.
     bnd (call (getExperimentInWorkspace ws expID)) (\<lambda>_.
     bnd (call (CreateRun newID \<lparr>run_ID = [], run_ExperimentID = expID, run_Name = cr_RunName req, run_Status = [],
            run_StartTime = cr_StartTime req, run_EndTime = None, run_ArtifactURI = [], run_LifecycleStage = [],
            run_UserID = cr_UserID req, run_SourceType = [], run_SourceName = [], run_Kind = [],
            run_ParentRunID = parent_of_tags (cr_Tags req)\<rparr>)) (\<lambda>run.
     bnd (for_each (\<lambda>t. ignoring (SetTag (run_ID run) t)) (cr_Tags req)) (\<lambda>_.
     bnd (notify h ws ''run_started'' run) (\<lambda>_.
     ret \<lparr>rn_Info = runInfoToDTO run, rn_Data = \<lparr>rd_Metrics = [], rd_Params = [], rd_Tags = cr_Tags req\<rparr>, rn_Inputs = None\<rparr>))))))"

definition parseAsOf :: "(string \<Rightarrow> string) \<Rightarrow> int handler" where
  "parseAsOf q =
     (if q ''as_of'' = [] then ret 0 else
      bnd (parse_id (q ''as_of'')) (\<lambda>ts.
      bnd (require (0 < ts) bad_request) (\<lambda>_.
      bnd (call now) (\<lambda>n.
      bnd (require (ts \<le> n + 60 * 1000) bad_request) (\<lambda>_. ret ts)))))"

definition collectRunData :: "string \<Rightarrow> int \<Rightarrow> KV list \<Rightarrow> runDataDTO handler" where
  "collectRunData runID asOf asOfTags =
     bnd (read_db (if 0 < asOf then GetLatestMetricsAsOf runID asOf else GetLatestMetrics runID)) (\<lambda>ms.
     bnd (read_db (GetParams runID)) (\<lambda>ps.
     bnd (if 0 < asOf then ret asOfTags else read_db (GetTags runID)) (\<lambda>ts.
     ret \<lparr>rd_Metrics = ms, rd_Params = ps, rd_Tags = ts\<rparr>)))"

definition collectRunInputs :: "string \<Rightarrow> DatasetInput list option handler" where
  "collectRunInputs runID = bnd (read_db (GetRunDatasets runID)) (\<lambda>ds. ret (datasetInputsToDTO ds))"

definition run_id_of :: "(string \<Rightarrow> string) \<Rightarrow> string" where
  "run_id_of q = or_default [] (q ''run_uuid'') (q ''run_id'')"

definition GetRun_h :: "string \<Rightarrow> (string \<Rightarrow> string) \<Rightarrow> runDTO handler" where
  "GetRun_h ws q =
     (let runID = run_id_of q in
     bnd (require (runID \<noteq> []) bad_request) (\<lambda>_.
     bnd (parseAsOf q) (\<lambda>asOf.
     bnd (if 0 < asOf then call (GetRunAsOfInWorkspace runID ws asOf)
          else bnd (call (GetRunInWorkspace runID ws)) (\<lambda>run. ret (run, []))) (\<lambda>(run, ts).
     bnd (collectRunData runID asOf ts) (\<lambda>d.
     bnd (collectRunInputs runID) (\<lambda>inputs.
     ret \<lparr>rn_Info = runInfoToDTO run, rn_Data = d, rn_Inputs = inputs\<rparr>))))))"

record updateRunReq =
  ur_RunID :: string
  ur_RunUUID :: string
  ur_Status :: string
  ur_EndTime :: int
  ur_RunName :: string

definition statusToWebhookEvent :: "string \<Rightarrow> string" where
  "statusToWebhookEvent status =
     (if status = StatusFinished then ''run_finished''
      else if status = StatusFailed then ''run_failed''
      else if status = StatusKilled then ''run_killed''
      else [])"

definition unless_zero :: "'a \<Rightarrow> 'a \<Rightarrow> 'a option" where
  "unless_zero z x = (if x = z then None else Some x)"

definition UpdateRun_h :: "Handler \<Rightarrow> string \<Rightarrow> updateRunReq option \<Rightarrow> runInfoDTO handler" where
  "UpdateRun_h h ws body =
     bnd (decodeJSON body) (\<lambda>req.
     let runID = or_default [] (ur_RunUUID req) (ur_RunID req); status = unless_zero [] (ur_Status req) in
     bnd (require (runID \<noteq> []) bad_request) (\<lambda>_.
     bnd (ensureRunInWorkspace ws runID) (\<lambda>_.
     bnd (call (UpdateRun runID status (unless_zero 0 (ur_EndTime req)) (unless_zero [] (ur_RunName req)))) (\<lambda>_.
     bnd (call (GetRun runID)) (\<lambda>run.
     bnd (case status of None \<Rightarrow> ret ()
          | Some st \<Rightarrow> if statusToWebhookEvent st \<noteq> [] then notify h ws (statusToWebhookEvent st) run else ret ()) (\<lambda>_.
     ret (runInfoToDTO run)))))))"

definition set_run_stage :: "string \<Rightarrow> string \<Rightarrow> string option \<Rightarrow> unit handler" where
  "set_run_stage ws stage body =
     bnd (decodeJSON body) (\<lambda>runID.
     bnd (ensureRunInWorkspace ws runID) (\<lambda>_.
     call (SetRunLifecycle runID stage)))"

definition DeleteRun_h :: "string \<Rightarrow> string option \<Rightarrow> unit handler" where
  "DeleteRun_h ws body = set_run_stage ws LifecycleDeleted body"

definition RestoreRun_h :: "string \<Rightarrow> string option \<Rightarrow> unit handler" where
  "RestoreRun_h ws body = set_run_stage ws LifecycleActive body"

record searchRunsReq =
  sr_ExperimentIDs :: "string list"
  sr_Filter :: string
  sr_ViewType :: string
  sr_MaxResults :: int
  sr_OrderBy :: "string list"
  sr_PageToken :: token

fun scoped_ids :: "string \<Rightarrow> string list \<Rightarrow> int list handler" where
  "scoped_ids ws [] = ret []"
| "scoped_ids ws (s # ss) =
     bnd (parse_id s) (\<lambda>n.
     bnd (call_found (getExperimentInWorkspace ws n)) (\<lambda>found.
     bnd (scoped_ids ws ss) (\<lambda>ns.
     ret (if found = None then ns else n # ns))))"

definition found_run :: "string \<Rightarrow> int \<Rightarrow> Run \<Rightarrow> (Run \<times> KV list) option handler" where
  "found_run ws asOf run =
     (if 0 < asOf then
        if asOf < run_StartTime run then ret None else call_found (GetRunAsOfInWorkspace (run_ID run) ws asOf)
      else ret (Some (run, [])))"

fun run_dtos :: "string \<Rightarrow> int \<Rightarrow> Run list \<Rightarrow> runDTO list handler" where
  "run_dtos ws asOf [] = ret []"
| "run_dtos ws asOf (run # rs) =
     bnd (found_run ws asOf run) (\<lambda>found.
     case found of None \<Rightarrow> run_dtos ws asOf rs
     | Some (run', ts) \<Rightarrow>
         bnd (collectRunData (run_ID run) asOf ts) (\<lambda>d.
         bnd (collectRunInputs (run_ID run)) (\<lambda>inputs.
         bnd (run_dtos ws asOf rs) (\<lambda>ds.
         ret (\<lparr>rn_Info = runInfoToDTO run', rn_Data = d, rn_Inputs = inputs\<rparr> # ds)))))"

definition SearchRuns_h :: "Handler \<Rightarrow> string \<Rightarrow> (string \<Rightarrow> string) \<Rightarrow> searchRunsReq option \<Rightarrow> (runDTO list \<times> token) handler" where
  "SearchRuns_h h ws q body =
     (let req = (case body of None \<Rightarrow> \<lparr>sr_ExperimentIDs = [], sr_Filter = [], sr_ViewType = [], sr_MaxResults = 0, sr_OrderBy = [],
                   sr_PageToken = NoToken\<rparr> | Some r \<Rightarrow> r) in
     bnd (scoped_ids ws (sr_ExperimentIDs req)) (\<lambda>expIDs.
     bnd (parseAsOf q) (\<lambda>asOf.
     bnd (require (0 < asOf \<longrightarrow> sr_Filter req = [] \<and> sr_OrderBy req = []) bad_request) (\<lambda>_.
     bnd (query_db (SearchRuns (ha_engine h) \<lparr>
            so_ExperimentIDs = (if expIDs = [] then [- 1] else expIDs),
            so_LifecycleStage = (if 0 < asOf then ''all'' else mapViewType (en_up (ha_engine h)) (sr_ViewType req)),
            so_Filter = sr_Filter req, so_OrderBy = sr_OrderBy req, so_MaxResults = sr_MaxResults req,
            so_PageToken = sr_PageToken req, so_WorkspaceID = ws\<rparr>)) (\<lambda>(items, next_token).
     bnd (run_dtos ws asOf items) (\<lambda>ds.
     ret (ds, next_token)))))))"

section \<open>Run data\<close>

text \<open>The bodies are the run id, the alternative run id where there is one, and what is logged.\<close>

definition LogMetric_h :: "string \<Rightarrow> (string \<times> string \<times> Metric) option \<Rightarrow> unit handler" where
  "LogMetric_h ws body =
     bnd (decodeJSON body) (\<lambda>(rid, uuid, m).
     let runID = or_default [] uuid rid in
     bnd (require (runID \<noteq> []) bad_request) (\<lambda>_.
     bnd (ensureRunInWorkspace ws runID) (\<lambda>_.
     call (LogMetric runID m))))"

definition LogParameter_h :: "string \<Rightarrow> (string \<times> string \<times> Param) option \<Rightarrow> unit handler" where
  "LogParameter_h ws body =
     bnd (decodeJSON body) (\<lambda>(rid, uuid, p).
     let runID = or_default [] uuid rid in
     bnd (ensureRunInWorkspace ws runID) (\<lambda>_.
     call (LogParam runID p)))"

record logBatchReq =
  lb_RunID :: string
  lb_Metrics :: "Metric list"
  lb_Params :: "Param list"
  lb_Tags :: "KV list"

definition LogBatch_h :: "string \<Rightarrow> logBatchReq option \<Rightarrow> unit handler" where
  "LogBatch_h ws body =
     bnd (decodeJSON body) (\<lambda>req.
     bnd (require (lb_RunID req \<noteq> []) bad_request) (\<lambda>_.
     bnd (ensureRunInWorkspace ws (lb_RunID req)) (\<lambda>_.
     bnd (require (length (lb_Metrics req) \<le> 1000 \<and> length (lb_Params req) \<le> 100 \<and> length (lb_Tags req) \<le> 100) bad_request) (\<lambda>_.
     bnd (call (LogMetrics (lb_RunID req) (lb_Metrics req))) (\<lambda>_.
     bnd (for_each (\<lambda>p. call (LogParam (lb_RunID req) p)) (lb_Params req)) (\<lambda>_.
     call (SetTags (lb_RunID req) (lb_Tags req))))))))"

definition SetTag_h :: "string \<Rightarrow> (string \<times> string \<times> KV) option \<Rightarrow> unit handler" where
  "SetTag_h ws body =
     bnd (decodeJSON body) (\<lambda>(rid, uuid, t).
     let runID = or_default [] uuid rid in
     bnd (ensureRunInWorkspace ws runID) (\<lambda>_.
     call (SetTag runID t)))"

definition DeleteTag_h :: "string \<Rightarrow> (string \<times> string) option \<Rightarrow> unit handler" where
  "DeleteTag_h ws body =
     bnd (decodeJSON body) (\<lambda>(runID, k).
     bnd (require (runID \<noteq> [] \<and> k \<noteq> []) bad_request) (\<lambda>_.
     bnd (ensureRunInWorkspace ws runID) (\<lambda>_.
     call (DeleteTag runID k))))"

definition LogInputs_h :: "Handler \<Rightarrow> string \<Rightarrow> (string \<times> DatasetInput list) option \<Rightarrow> unit handler" where
  "LogInputs_h h ws body =
     bnd (decodeJSON body) (\<lambda>(runID, inputs).
     bnd (require (runID \<noteq> []) bad_request) (\<lambda>_.
     bnd (ensureRunInWorkspace ws runID) (\<lambda>_.
     call (LogInputs (ha_v03 h) runID inputs))))"

text \<open>\<open>strconv.Atoi\<close> of a query parameter that must not be negative.\<close>

definition parse_count :: "string \<Rightarrow> int handler" where
  "parse_count s = bnd (parse_id s) (\<lambda>n. bnd (require (0 \<le> n) bad_request) (\<lambda>_. ret n))"

record getMetricHistoryResp =
  gh_Metrics :: "Metric list"
  gh_NextPageToken :: string
  gh_DownsampledFrom :: "int option"

definition GetMetricHistory_h :: "string \<Rightarrow> (string \<Rightarrow> string) \<Rightarrow> getMetricHistoryResp handler" where
  "GetMetricHistory_h ws q =
     (let runID = run_id_of q; k = q ''metric_key'' in
     bnd (require (runID \<noteq> [] \<and> k \<noteq> []) bad_request) (\<lambda>_.
     bnd (ensureRunInWorkspace ws runID) (\<lambda>_.
     if q ''downsample'' \<noteq> [] then
       bnd (parse_count (q ''downsample'')) (\<lambda>target.
       bnd (query_db (GetMetricHistoryDownsampled runID k target)) (\<lambda>(pts, n).
       ret \<lparr>gh_Metrics = pts, gh_NextPageToken = [], gh_DownsampledFrom = Some n\<rparr>))
     else
       bnd (if q ''max_results'' \<noteq> [] then parse_count (q ''max_results'') else ret 0) (\<lambda>mx.
       bnd (query_db (GetMetricHistory runID k \<lparr>mh_MaxResults = mx, mh_PageToken = q ''page_token''\<rparr>)) (\<lambda>(hist, next_token).
       bnd (parseAsOf q) (\<lambda>asOf.
       ret \<lparr>gh_Metrics = (if 0 < asOf then filter (\<lambda>m. met_Timestamp m \<le> asOf) hist else hist),
             gh_NextPageToken = next_token, gh_DownsampledFrom = None\<rparr>))))))"

section \<open>Artifacts\<close>

definition artifact_call :: "(fs \<Rightarrow> (art_error + 'a) \<times> fs) \<Rightarrow> 'a handler" where
  "artifact_call m a = (case m (api_fs a) of (r, d) \<Rightarrow> (map_sum writeArtifactErr (\<lambda>x. x) r, a\<lparr>api_fs := d\<rparr>))"

record artifactFile =
  af_Path :: string
  af_IsDir :: bool
  af_FileSize :: nat

definition artifact_file :: "ListEntry \<Rightarrow> artifactFile" where
  "artifact_file e = \<lparr>af_Path = le_Path e, af_IsDir = le_IsDir e, af_FileSize = (if le_IsDir e then 0 else le_Size e)\<rparr>"

definition list_artifacts :: "Handler \<Rightarrow> string \<Rightarrow> string \<Rightarrow> artifactFile list handler" where
  "list_artifacts h runID dir =
     bnd (artifact_call (\<lambda>d. (List (ha_cwd h) (ha_Artifacts h) runID dir d, d))) (\<lambda>es. ret (map artifact_file es))"

definition ListArtifacts_h :: "Handler \<Rightarrow> string \<Rightarrow> (string \<Rightarrow> string) \<Rightarrow> (string \<times> artifactFile list) handler" where
  "ListArtifacts_h h ws q =
     (let runID = run_id_of q in
     bnd (require (runID \<noteq> []) bad_request) (\<lambda>_.
     bnd (call (GetRunInWorkspace runID ws)) (\<lambda>run.
     bnd (list_artifacts h runID (q ''path'')) (\<lambda>files.
     ret (run_ArtifactURI run, files)))))"

definition maxArtifactSize :: "Handler \<Rightarrow> int" where
  "maxArtifactSize h = (if 0 < ha_MaxArtifactSize h then ha_MaxArtifactSize h else 5 * 2 ^ 30)"

text \<open>\<open>strings.SplitN(s, "/", 2)\<close> with an empty second part when there is no slash.\<close>

definition split_first :: "string \<Rightarrow> string \<times> string" where
  "split_first s = (case Index s ''/'' of None \<Rightarrow> (s, []) | Some i \<Rightarrow> (take i s, drop (i + 1) s))"

definition splitArtifactPath :: "string \<Rightarrow> (string \<times> string) option" where
  "splitArtifactPath p = (let rest = TrimPrefix p ''/'' in if rest = [] then None else Some (split_first rest))"

definition splitQueryPath :: "string \<Rightarrow> string \<times> string" where
  "splitQueryPath p = (let p = TrimPrefix p ''/'' in if p = [] then ([], []) else split_first p)"

datatype artifact_answer = ArtifactFiles "artifactFile list" | ArtifactBytes string nat | ArtifactDone

text \<open>\<open>http.MaxBytesReader\<close>: the reader fails after \<open>n\<close> bytes when there are more. \<open>Upload\<close> wraps that failure, so the handler finds it.\<close>

definition MaxBytesReader :: "int \<Rightarrow> reader \<Rightarrow> reader" where
  "MaxBytesReader n r = (if n < int (length (rd_data r)) then \<lparr>rd_data = take (nat n) (rd_data r), rd_fails = True\<rparr> else r)"

definition put_artifact :: "Handler \<Rightarrow> string \<Rightarrow> string \<Rightarrow> reader \<Rightarrow> fs \<Rightarrow> (art_error + unit) \<times> fs" where
  "put_artifact h runID rel body d =
     (let n = maxArtifactSize h in
      case Upload (ha_cwd h) (ha_Artifacts h) runID rel (MaxBytesReader n body) n d of
        (Inl e, d') \<Rightarrow> (Inl (if e = ErrIO EREAD \<and> n < int (length (rd_data body)) then ErrPayloadTooBig else e), d')
      | (Inr x, d') \<Rightarrow> (Inr x, d'))"

text \<open>\<open>p\<close> is the wildcard part of the path. The headers of a download are left out.\<close>

definition artifactsRouter :: "Handler \<Rightarrow> string \<Rightarrow> string \<Rightarrow> string \<Rightarrow> (string \<Rightarrow> string) \<Rightarrow> reader \<Rightarrow> artifact_answer handler" where
  "artifactsRouter h ws meth p q body =
     (if meth = ''GET'' \<and> TrimPrefix p ''/'' = [] then
        (case splitQueryPath (q ''path'') of (runID, rel) \<Rightarrow>
         bnd (require (runID \<noteq> []) bad_request) (\<lambda>_.
         bnd (call (GetRunInWorkspace runID ws)) (\<lambda>_.
         bnd (list_artifacts h runID rel) (\<lambda>files. ret (ArtifactFiles files)))))
      else case splitArtifactPath p of None \<Rightarrow> throw bad_request
      | Some (runID, rel) \<Rightarrow>
        bnd (call (GetRunInWorkspace runID ws)) (\<lambda>_.
        if meth = ''GET'' then
          bnd (artifact_call (\<lambda>d. (Open (ha_cwd h) (ha_Artifacts h) runID rel d, d))) (\<lambda>(c, n). ret (ArtifactBytes c n))
        else if meth = ''PUT'' then bnd (artifact_call (put_artifact h runID rel body)) (\<lambda>_. ret ArtifactDone)
        else if meth = ''DELETE'' then
          bnd (artifact_call (Delete (ha_cwd h) (ha_Artifacts h) runID rel)) (\<lambda>_. ret ArtifactDone)
        else throw (HttpError 405 ''INVALID_PARAMETER_VALUE'')))"

end
