(* ===== verification/RegistryApi.thy ===== *)
theory RegistryApi
  imports MlflowApi
begin

text \<open>
  The handlers of the model registry (\<open>internal/api/mlflow/registry.go\<close>, \<open>registry_dto.go\<close>), in the same style as \<open>MlflowApi\<close>: the arguments
  are the workspace of the request, its query and its decoded body.
\<close>

section \<open>Wire formats\<close>

record mvDTO =
  md_Name :: string
  md_Version :: string
  md_CreationTime :: int
  md_LastUpdateTime :: int
  md_Description :: string
  md_UserID :: string
  md_CurrentStage :: string
  md_Source :: string
  md_RunID :: string
  md_Status :: string
  md_StatusMessage :: string
  md_Tags :: "KV list"
  md_Aliases :: "string list"

text \<open>No method of the store fills \<open>LatestVersions\<close>, so that field is left out.\<close>

record registeredModelDTO =
  rmd_Name :: string
  rmd_CreationTime :: int
  rmd_LastUpdateTime :: int
  rmd_Description :: string
  rmd_Tags :: "KV list"
  rmd_Aliases :: "(string \<times> string) list"

definition modelVersionToDTO :: "ModelVersion \<Rightarrow> mvDTO" where
  "modelVersionToDTO mv = \<lparr>
     md_Name = mv_Name mv, md_Version = FormatInt (mv_Version mv), md_CreationTime = mv_CreationTime mv,
     md_LastUpdateTime = mv_LastUpdateTime mv, md_Description = mv_Description mv, md_UserID = mv_UserID mv,
     md_CurrentStage = mv_CurrentStage mv, md_Source = mv_Source mv, md_RunID = mv_RunID mv, md_Status = mv_Status mv,
     md_StatusMessage = mv_StatusMessage mv, md_Tags = mv_Tags mv, md_Aliases = mv_Aliases mv\<rparr>"

definition registeredModelToDTO :: "RegisteredModel \<Rightarrow> registeredModelDTO" where
  "registeredModelToDTO m = \<lparr>
     rmd_Name = rm_Name m, rmd_CreationTime = rm_CreationTime m, rmd_LastUpdateTime = rm_LastUpdateTime m,
     rmd_Description = rm_Description m, rmd_Tags = rm_Tags m,
     rmd_Aliases = map (\<lambda>al. (ma_Alias al, FormatInt (ma_Version al))) (rm_Aliases m)\<rparr>"

text \<open>An empty field of the body is taken from the query.\<close>

definition or_query :: "(string \<Rightarrow> string) \<Rightarrow> string \<Rightarrow> string \<Rightarrow> string" where
  "or_query q k x = or_default [] (q k) x"

section \<open>Registered models\<close>

record createRegisteredModelReq =
  cm_Name :: string
  cm_Tags :: "KV list"
  cm_Description :: string

definition CreateRegisteredModel_h :: "string \<Rightarrow> createRegisteredModelReq option \<Rightarrow> registeredModelDTO handler" where
  "CreateRegisteredModel_h ws body =
     bnd (decodeJSON body) (\<lambda>req.
     bnd (require (cm_Name req \<noteq> []) bad_request) (\<lambda>_.
     bnd (call (CreateRegisteredModel ws \<lparr>rm_WorkspaceID = [], rm_Name = cm_Name req, rm_Description = cm_Description req,
            rm_CreationTime = 0, rm_LastUpdateTime = 0, rm_Tags = [], rm_Aliases = []\<rparr>)) (\<lambda>_.
     bnd (for_each (\<lambda>t. call (SetRegisteredModelTag ws (cm_Name req) (kv_Key t) (kv_Value t))) (cm_Tags req)) (\<lambda>_.
     bnd (call (GetRegisteredModel ws (cm_Name req))) (\<lambda>got.
     ret (registeredModelToDTO got))))))"

definition GetRegisteredModel_h :: "string \<Rightarrow> (string \<Rightarrow> string) \<Rightarrow> registeredModelDTO handler" where
  "GetRegisteredModel_h ws q =
     bnd (require (q ''name'' \<noteq> []) bad_request) (\<lambda>_.
     bnd (call (GetRegisteredModel ws (q ''name''))) (\<lambda>m. ret (registeredModelToDTO m)))"

text \<open>The body is \<open>(name, new_name)\<close>.\<close>

definition RenameRegisteredModel_h :: "string \<Rightarrow> (string \<times> string) option \<Rightarrow> registeredModelDTO handler" where
  "RenameRegisteredModel_h ws body =
     bnd (decodeJSON body) (\<lambda>(nm, newName).
     bnd (require (nm \<noteq> [] \<and> newName \<noteq> []) bad_request) (\<lambda>_.
     bnd (call (RenameRegisteredModel ws nm newName)) (\<lambda>m. ret (registeredModelToDTO m))))"

text \<open>The body is \<open>(name, description)\<close>; the description may be absent.\<close>

definition UpdateRegisteredModel_h :: "string \<Rightarrow> (string \<times> string option) option \<Rightarrow> registeredModelDTO handler" where
  "UpdateRegisteredModel_h ws body =
     bnd (decodeJSON body) (\<lambda>(nm, description).
     bnd (require (nm \<noteq> []) bad_request) (\<lambda>_.
     bnd (call (UpdateRegisteredModel ws nm description)) (\<lambda>m. ret (registeredModelToDTO m))))"

text \<open>Errors of the decoder are ignored here: the body is what was decoded, empty fields where nothing was.\<close>

definition DeleteRegisteredModel_h :: "string \<Rightarrow> (string \<Rightarrow> string) \<Rightarrow> string \<Rightarrow> unit handler" where
  "DeleteRegisteredModel_h ws q body =
     (let nm = or_query q ''name'' body in
     bnd (require (nm \<noteq> []) bad_request) (\<lambda>_.
     call (DeleteRegisteredModel ws nm)))"

record searchRegistryReq =
  sq_Filter :: string
  sq_MaxResults :: int
  sq_PageToken :: string

definition search_args :: "(string \<Rightarrow> string) \<Rightarrow> searchRegistryReq \<Rightarrow> searchRegistryReq" where
  "search_args q req = \<lparr>
     sq_Filter = or_query q ''filter'' (sq_Filter req),
     sq_MaxResults = (if sq_MaxResults req = 0 then (case ParseInt (q ''max_results'') of None \<Rightarrow> 0 | Some n \<Rightarrow> n) else sq_MaxResults req),
     sq_PageToken = or_query q ''page_token'' (sq_PageToken req)\<rparr>"

definition SearchRegisteredModels_h ::
    "(nat \<Rightarrow> nat) \<Rightarrow> (nat \<Rightarrow> nat) \<Rightarrow> string \<Rightarrow> (string \<Rightarrow> string) \<Rightarrow> searchRegistryReq \<Rightarrow> (registeredModelDTO list \<times> string) handler" where
  "SearchRegisteredModels_h up low ws q body =
     (let req = search_args q body in
     bnd (query_db (SearchRegisteredModels up low ws (sq_Filter req) (sq_MaxResults req) (sq_PageToken req))) (\<lambda>(items, next_token).
     ret (map registeredModelToDTO items, next_token)))"

definition GetLatestModelVersions_h :: "string \<Rightarrow> (string \<Rightarrow> string) \<Rightarrow> string \<times> string list \<Rightarrow> mvDTO list handler" where
  "GetLatestModelVersions_h ws q body =
     (let nm = or_query q ''name'' (fst body) in
     bnd (require (nm \<noteq> []) bad_request) (\<lambda>_.
     bnd (call (GetLatestModelVersions ws nm (snd body))) (\<lambda>versions.
     ret (map modelVersionToDTO versions))))"

definition SetRegisteredModelTag_h :: "string \<Rightarrow> (string \<times> string \<times> string) option \<Rightarrow> unit handler" where
  "SetRegisteredModelTag_h ws body =
     bnd (decodeJSON body) (\<lambda>(nm, k, v).
     bnd (require (nm \<noteq> [] \<and> k \<noteq> []) bad_request) (\<lambda>_.
     call (SetRegisteredModelTag ws nm k v)))"

definition DeleteRegisteredModelTag_h :: "string \<Rightarrow> (string \<times> string) option \<Rightarrow> unit handler" where
  "DeleteRegisteredModelTag_h ws body =
     bnd (decodeJSON body) (\<lambda>(nm, k).
     bnd (require (nm \<noteq> [] \<and> k \<noteq> []) bad_request) (\<lambda>_.
     call (DeleteRegisteredModelTag ws nm k)))"

text \<open>The body is \<open>(name, alias, version)\<close>, the version as text.\<close>

definition SetModelAlias_h :: "string \<Rightarrow> (string \<times> string \<times> string) option \<Rightarrow> unit handler" where
  "SetModelAlias_h ws body =
     bnd (decodeJSON body) (\<lambda>(nm, al, version).
     bnd (require (nm \<noteq> [] \<and> al \<noteq> [] \<and> version \<noteq> []) bad_request) (\<lambda>_.
     bnd (parse_id version) (\<lambda>ver.
     call (SetModelAlias ws nm al ver))))"

definition DeleteModelAlias_h :: "string \<Rightarrow> (string \<Rightarrow> string) \<Rightarrow> string \<times> string \<Rightarrow> unit handler" where
  "DeleteModelAlias_h ws q body =
     (let nm = or_query q ''name'' (fst body); al = or_query q ''alias'' (snd body) in
     bnd (require (nm \<noteq> [] \<and> al \<noteq> []) bad_request) (\<lambda>_.
     call (DeleteModelAlias ws nm al)))"

definition GetModelByAlias_h :: "string \<Rightarrow> (string \<Rightarrow> string) \<Rightarrow> mvDTO handler" where
  "GetModelByAlias_h ws q =
     bnd (require (q ''name'' \<noteq> [] \<and> q ''alias'' \<noteq> []) bad_request) (\<lambda>_.
     bnd (call (GetModelByAlias ws (q ''name'') (q ''alias''))) (\<lambda>mv. ret (modelVersionToDTO mv)))"

section \<open>Model versions\<close>

record createModelVersionReq =
  cv_Name :: string
  cv_Source :: string
  cv_RunID :: string
  cv_Tags :: "KV list"
  cv_Description :: string

definition CreateModelVersion_h :: "string \<Rightarrow> createModelVersionReq option \<Rightarrow> mvDTO handler" where
  "CreateModelVersion_h ws body =
     bnd (decodeJSON body) (\<lambda>req.
     bnd (require (cv_Name req \<noteq> []) bad_request) (\<lambda>_.
     bnd (require (cv_Source req \<noteq> []) bad_request) (\<lambda>_.
     bnd (if cv_RunID req \<noteq> [] then ensureRunInWorkspace ws (cv_RunID req) else ret ()) (\<lambda>_.
     bnd (call (CreateModelVersion ws \<lparr>mv_WorkspaceID = [], mv_Name = cv_Name req, mv_Version = 0, mv_Description = cv_Description req,
            mv_UserID = [], mv_CurrentStage = [], mv_Source = cv_Source req, mv_RunID = cv_RunID req, mv_Status = [],
            mv_StatusMessage = [], mv_CreationTime = 0, mv_LastUpdateTime = 0, mv_Tags = [], mv_Aliases = []\<rparr>)) (\<lambda>mv.
     bnd (for_each (\<lambda>t. call (SetModelVersionTag ws (mv_Name mv) (mv_Version mv) (kv_Key t) (kv_Value t))) (cv_Tags req)) (\<lambda>_.
     bnd (call (GetModelVersion ws (mv_Name mv) (mv_Version mv))) (\<lambda>mv'.
     ret (modelVersionToDTO mv'))))))))"

definition version_args :: "string \<Rightarrow> string \<Rightarrow> int handler" where
  "version_args nm version = bnd (require (nm \<noteq> [] \<and> version \<noteq> []) bad_request) (\<lambda>_. parse_id version)"

definition GetModelVersion_h :: "string \<Rightarrow> (string \<Rightarrow> string) \<Rightarrow> mvDTO handler" where
  "GetModelVersion_h ws q =
     bnd (version_args (q ''name'') (q ''version'')) (\<lambda>ver.
     bnd (call (GetModelVersion ws (q ''name'') ver)) (\<lambda>mv. ret (modelVersionToDTO mv)))"

definition UpdateModelVersion_h :: "string \<Rightarrow> (string \<times> string \<times> string option) option \<Rightarrow> mvDTO handler" where
  "UpdateModelVersion_h ws body =
     bnd (decodeJSON body) (\<lambda>(nm, version, description).
     bnd (version_args nm version) (\<lambda>ver.
     bnd (call (UpdateModelVersion ws nm ver description)) (\<lambda>mv. ret (modelVersionToDTO mv))))"

definition DeleteModelVersion_h :: "string \<Rightarrow> (string \<Rightarrow> string) \<Rightarrow> string \<times> string \<Rightarrow> unit handler" where
  "DeleteModelVersion_h ws q body =
     (let nm = or_query q ''name'' (fst body); version = or_query q ''version'' (snd body) in
     bnd (version_args nm version) (\<lambda>ver.
     call (DeleteModelVersion ws nm ver)))"

definition SearchModelVersions_h ::
    "(nat \<Rightarrow> nat) \<Rightarrow> (nat \<Rightarrow> nat) \<Rightarrow> string \<Rightarrow> (string \<Rightarrow> string) \<Rightarrow> searchRegistryReq \<Rightarrow> (mvDTO list \<times> string) handler" where
  "SearchModelVersions_h up low ws q body =
     (let req = search_args q body in
     bnd (query_db (SearchModelVersions up low ws (sq_Filter req) (sq_MaxResults req) (sq_PageToken req))) (\<lambda>(items, next_token).
     ret (map modelVersionToDTO items, next_token)))"

definition GetModelVersionDownloadURI_h :: "string \<Rightarrow> (string \<Rightarrow> string) \<Rightarrow> string handler" where
  "GetModelVersionDownloadURI_h ws q =
     bnd (version_args (q ''name'') (q ''version'')) (\<lambda>ver.
     bnd (call (GetModelVersion ws (q ''name'') ver)) (\<lambda>mv. ret (mv_Source mv)))"

record transitionStageReq =
  ts_Name :: string
  ts_Version :: string
  ts_Stage :: string
  ts_ArchiveExistingVersions :: bool

definition TransitionModelStage_h :: "string \<Rightarrow> transitionStageReq option \<Rightarrow> mvDTO handler" where
  "TransitionModelStage_h ws body =
     bnd (decodeJSON body) (\<lambda>req.
     bnd (require (ts_Name req \<noteq> [] \<and> ts_Version req \<noteq> [] \<and> ts_Stage req \<noteq> []) bad_request) (\<lambda>_.
     bnd (parse_id (ts_Version req)) (\<lambda>ver.
     bnd (call (TransitionModelStage ws (ts_Name req) ver (ts_Stage req) (ts_ArchiveExistingVersions req))) (\<lambda>mv.
     ret (modelVersionToDTO mv)))))"

definition SetModelVersionTag_h :: "string \<Rightarrow> (string \<times> string \<times> string \<times> string) option \<Rightarrow> unit handler" where
  "SetModelVersionTag_h ws body =
     bnd (decodeJSON body) (\<lambda>(nm, version, k, v).
     bnd (require (nm \<noteq> [] \<and> version \<noteq> [] \<and> k \<noteq> []) bad_request) (\<lambda>_.
     bnd (parse_id version) (\<lambda>ver.
     call (SetModelVersionTag ws nm ver k v))))"

definition DeleteModelVersionTag_h :: "string \<Rightarrow> (string \<times> string \<times> string) option \<Rightarrow> unit handler" where
  "DeleteModelVersionTag_h ws body =
     bnd (decodeJSON body) (\<lambda>(nm, version, k).
     bnd (require (nm \<noteq> [] \<and> version \<noteq> [] \<and> k \<noteq> []) bad_request) (\<lambda>_.
     bnd (parse_id version) (\<lambda>ver.
     call (DeleteModelVersionTag ws nm ver k))))"

end
