(* ===== verification/Tenancy.thy ===== *)
theory Tenancy
  imports RegistryApi
begin

text \<open>
  Separation of workspaces at the MLflow REST API. \<open>elsewhere ws\<close> is the part of the database that does not belong to the workspace
  \<open>ws\<close>: the experiments, runs, run data, models and datasets of the other workspaces, and every table that is not of this API. A request
  made in \<open>ws\<close> leaves it as it is. The proofs carry \<open>safe\<close>, the integrity of the database together with a fixed \<open>elsewhere\<close>, through the
  statements of each store method and then through the handlers, where a guard makes sure that the run or experiment is of \<open>ws\<close>.
\<close>

named_theorems safe_intros "statements and methods that leave the other workspaces alone"

section \<open>What does not belong to a workspace\<close>

definition fexp :: "string \<Rightarrow> db \<Rightarrow> experiment_row list" where
  "fexp ws s = filter (\<lambda>e. default_ws (e_workspace_id e) \<noteq> ws) (experiments s)"

definition fruns :: "string \<Rightarrow> db \<Rightarrow> run_row list" where
  "fruns ws s = filter (\<lambda>r. r_experiment_id r \<in> e_id ` set (fexp ws s)) (runs s)"

text \<open>
  The positions of the clock and of the id counters are left out, and so is the metadata of datasets by name and digest, which all
  workspaces share.
\<close>

definition elsewhere :: "string \<Rightarrow> db \<Rightarrow> db" where
  "elsewhere ws s = s\<lparr>
     clock_pos := 0, experiments_seq := 0, events_seq := 0, datasets_v2_seq := 0, dataset_inputs_v2_seq := 0, datasets := [],
     experiments := fexp ws s,
     experiment_tags := filter (\<lambda>t. et_experiment_id t \<in> e_id ` set (fexp ws s)) (experiment_tags s),
     runs := fruns ws s,
     metrics := filter (\<lambda>m. m_run_id m \<in> r_id ` set (fruns ws s)) (metrics s),
     metrics_latest := filter (\<lambda>m. m_run_id m \<in> r_id ` set (fruns ws s)) (metrics_latest s),
     params := filter (\<lambda>p. p_run_id p \<in> r_id ` set (fruns ws s)) (params s),
     tags := filter (\<lambda>t. t_run_id t \<in> r_id ` set (fruns ws s)) (tags s),
     events := filter (\<lambda>e. ev_entity_id e \<in> r_id ` set (fruns ws s)) (events s),
     dataset_inputs_v2 := filter (\<lambda>r. d2_run_id r \<in> r_id ` set (fruns ws s)) (dataset_inputs_v2 s),
     datasets_v2 := filter (\<lambda>d. d_workspace_id d \<noteq> ws) (datasets_v2 s),
     registered_models := filter (\<lambda>m. rg_workspace_id m \<noteq> ws) (registered_models s),
     model_versions := filter (\<lambda>v. v_workspace_id v \<noteq> ws) (model_versions s),
     registered_model_tags := filter (\<lambda>t. gt_workspace_id t \<noteq> ws) (registered_model_tags s),
     model_version_tags := filter (\<lambda>t. vt_workspace_id t \<noteq> ws) (model_version_tags s),
     model_aliases := filter (\<lambda>a. al_workspace_id a \<noteq> ws) (model_aliases s)\<rparr>"

definition safe :: "string \<Rightarrow> db \<Rightarrow> db \<Rightarrow> bool" where
  "safe ws X s \<longleftrightarrow> db_ok s \<and> elsewhere ws s = X"

definition foreign_run :: "db \<Rightarrow> string \<Rightarrow> bool" where
  "foreign_run X rid \<longleftrightarrow> rid \<in> r_id ` set (runs X)"

definition foreign_experiment :: "db \<Rightarrow> int \<Rightarrow> bool" where
  "foreign_experiment X i \<longleftrightarrow> i \<in> e_id ` set (experiments X)"

lemma elsewhere_rows [simp]: "runs (elsewhere ws s) = fruns ws s" "experiments (elsewhere ws s) = fexp ws s"
  by (simp_all add: elsewhere_def)

lemma safeD: "safe ws X s \<Longrightarrow> db_ok s" "safe ws X s \<Longrightarrow> runs X = fruns ws s" "safe ws X s \<Longrightarrow> experiments X = fexp ws s"
  by (auto simp: safe_def)

lemma clockless_safe: "clockless (safe ws X)"
  by (simp add: clockless_def safe_def elsewhere_def fexp_def fruns_def db_ok_def cong: filter_cong)

lemmas safe_now [safe_intros] = keeps_now [OF clockless_safe]
lemmas safe_tx [safe_intros] = keeps_tx [OF clockless_safe]

text \<open>A statement keeps the rest when its effect does.\<close>

lemma safe_stmt:
  assumes "keeps db_ok (stmt ck eff)" and "\<And>s. safe ws X s \<Longrightarrow> ck s = None \<Longrightarrow> elsewhere ws (snd (eff s)) = elsewhere ws s"
  shows "keeps (safe ws X) (stmt ck eff)"
proof (rule keepsI)
  fix s assume s: "safe ws X s"
  have "db_ok (snd (stmt ck eff s))" using assms(1) s by (auto simp: safe_def keeps_def)
  moreover have "elsewhere ws (snd (stmt ck eff s)) = X"
    using assms(2) [OF s] s by (cases "ck s") (simp_all add: stmt_def safe_def)
  ultimately show "safe ws X (snd (stmt ck eff s))" by (simp add: safe_def)
qed

text \<open>Writing statements on rows that a filter does not select.\<close>

lemma filter_update_where: "(\<And>r. q r \<Longrightarrow> r \<in> set rs \<Longrightarrow> \<not> P r \<and> \<not> P (f r)) \<Longrightarrow> filter P (update_where q f rs) = filter P rs"
  by (induction rs) (auto simp: update_where_def)

lemma filter_delete_where: "(\<And>r. q r \<Longrightarrow> r \<in> set rs \<Longrightarrow> \<not> P r) \<Longrightarrow> filter P (delete_where q rs) = filter P rs"
  by (induction rs) (auto simp: delete_where_def)

lemma filter_upsert:
  assumes "\<not> P r" and "\<And>y. key y = key r \<Longrightarrow> \<not> P y \<and> \<not> P (upd y r)"
  shows "filter P (upsert key upd r rs) = filter P rs"
proof -
  have "filter P (map (\<lambda>y. if key y = key r then upd y r else y) rs) = filter P rs" using assms(2) by (induction rs) auto
  then show ?thesis using assms(1) by (simp add: upsert_def)
qed

section \<open>Statements\<close>

text \<open>Tables that do not decide about belonging.\<close>

lemma belonging_frame [simp]:
  "fexp ws (s\<lparr>tags := x1\<rparr>) = fexp ws s" "fruns ws (s\<lparr>tags := x1\<rparr>) = fruns ws s"
  "fexp ws (s\<lparr>experiment_tags := x2\<rparr>) = fexp ws s" "fruns ws (s\<lparr>experiment_tags := x2\<rparr>) = fruns ws s"
  "fexp ws (s\<lparr>metrics := x3, metrics_latest := x4\<rparr>) = fexp ws s" "fruns ws (s\<lparr>metrics := x3, metrics_latest := x4\<rparr>) = fruns ws s"
  "fexp ws (s\<lparr>params := x5\<rparr>) = fexp ws s" "fruns ws (s\<lparr>params := x5\<rparr>) = fruns ws s"
  "fexp ws (s\<lparr>events_seq := n, events := x6\<rparr>) = fexp ws s" "fruns ws (s\<lparr>events_seq := n, events := x6\<rparr>) = fruns ws s"
  "fexp ws (s\<lparr>runs := x7\<rparr>) = fexp ws s"
  "fexp ws (s\<lparr>datasets_v2_seq := n, datasets_v2 := x8\<rparr>) = fexp ws s" "fruns ws (s\<lparr>datasets_v2_seq := n, datasets_v2 := x8\<rparr>) = fruns ws s"
  "fexp ws (s\<lparr>dataset_inputs_v2_seq := n, dataset_inputs_v2 := x9\<rparr>) = fexp ws s"
  "fruns ws (s\<lparr>dataset_inputs_v2_seq := n, dataset_inputs_v2 := x9\<rparr>) = fruns ws s"
  "fexp ws (s\<lparr>datasets := x10\<rparr>) = fexp ws s" "fruns ws (s\<lparr>datasets := x10\<rparr>) = fruns ws s"
  "fexp ws (s\<lparr>registered_models := y1\<rparr>) = fexp ws s" "fruns ws (s\<lparr>registered_models := y1\<rparr>) = fruns ws s"
  "fexp ws (s\<lparr>registered_model_tags := y2\<rparr>) = fexp ws s" "fruns ws (s\<lparr>registered_model_tags := y2\<rparr>) = fruns ws s"
  "fexp ws (s\<lparr>model_versions := y3\<rparr>) = fexp ws s" "fruns ws (s\<lparr>model_versions := y3\<rparr>) = fruns ws s"
  "fexp ws (s\<lparr>model_version_tags := y4\<rparr>) = fexp ws s" "fruns ws (s\<lparr>model_version_tags := y4\<rparr>) = fruns ws s"
  "fexp ws (s\<lparr>model_aliases := y5\<rparr>) = fexp ws s" "fruns ws (s\<lparr>model_aliases := y5\<rparr>) = fruns ws s"
  by (simp_all add: fexp_def fruns_def)

text \<open>The rows a statement writes, seen through the filters.\<close>

lemma run_rows_elsewhere:
  assumes "rid \<notin> F"
  shows "filter (\<lambda>t. t_run_id t \<in> F) (upsert t_pk t_upd \<lparr>t_run_id = rid, t_key = k, t_value = v\<rparr> ts) = filter (\<lambda>t. t_run_id t \<in> F) ts"
    and "filter (\<lambda>t. t_run_id t \<in> F) (delete_where (\<lambda>t. t_run_id t = rid \<and> t_key t = k) ts) = filter (\<lambda>t. t_run_id t \<in> F) ts"
    and "m_run_id m = rid \<Longrightarrow> filter (\<lambda>m. m_run_id m \<in> F) (upsert ml_pk ml_upd m ms) = filter (\<lambda>m. m_run_id m \<in> F) ms"
  using assms by (auto simp: t_upd_def ml_upd_def intro!: filter_upsert filter_delete_where split: if_splits)

lemma safe_upsert_tags [safe_intros]: "\<not> foreign_run X rid \<Longrightarrow> keeps (safe ws X) (upsert_tags rid k v)"
  unfolding upsert_tags_def by (intro safe_stmt keeps_upsert_tags [unfolded upsert_tags_def])
    (simp add: elsewhere_def foreign_run_def safeD run_rows_elsewhere)

lemma safe_delete_tags [safe_intros]: "\<not> foreign_run X rid \<Longrightarrow> keeps (safe ws X) (delete_tags rid k)"
  unfolding delete_tags_def by (intro safe_stmt keeps_delete_tags [unfolded delete_tags_def])
    (simp add: elsewhere_def foreign_run_def safeD run_rows_elsewhere)

lemma safe_insert_events [safe_intros]: "\<not> foreign_run X rid \<Longrightarrow> keeps (safe ws X) (insert_events ts kind rid payload)"
  unfolding insert_events_def by (intro safe_stmt keeps_insert_events [unfolded insert_events_def])
    (simp add: elsewhere_def foreign_run_def safeD)

lemma safe_insert_params [safe_intros]: "\<not> foreign_run X (p_run_id p) \<Longrightarrow> keeps (safe ws X) (insert_params p)"
  unfolding insert_params_def by (intro safe_stmt keeps_insert_params [unfolded insert_params_def])
    (simp add: elsewhere_def foreign_run_def safeD)

lemma safe_insert_metrics [safe_intros]: "\<not> foreign_run X (m_run_id m) \<Longrightarrow> keeps (safe ws X) (insert_metrics m)"
  unfolding insert_metrics_def by (intro safe_stmt keeps_insert_metrics [unfolded insert_metrics_def])
    (simp add: elsewhere_def foreign_run_def safeD run_rows_elsewhere)

lemma safe_update_runs [safe_intros]: "\<not> foreign_run X rid \<Longrightarrow> keeps (safe ws X) (update_runs (\<lambda>r. r_id r = rid) u)"
proof -
  assume new: "\<not> foreign_run X rid"
  have same: "fruns ws (s\<lparr>runs := update_where (\<lambda>r. r_id r = rid) (apply_run_set u) (runs s)\<rparr>) = fruns ws s" if "safe ws X s" for s
  proof -
    have "rid \<notin> r_id ` set (fruns ws s)" using new that by (simp add: foreign_run_def safeD)
    then show ?thesis unfolding fruns_def by (auto simp: apply_run_set_def fexp_def intro!: filter_update_where)
  qed
  show ?thesis
    unfolding update_runs_def by (intro safe_stmt keeps_update_runs [unfolded update_runs_def]) (simp add: elsewhere_def same)
qed

lemma safe_insert_runs [safe_intros]: "\<not> foreign_experiment X (r_experiment_id r) \<Longrightarrow> keeps (safe ws X) (insert_runs r)"
proof -
  assume new: "\<not> foreign_experiment X (r_experiment_id r)"
  have same: "fruns ws (s\<lparr>runs := runs s @ [r\<lparr>r_parent_run_id := None\<rparr>]\<rparr>) = fruns ws s" if "safe ws X s" for s
    using new that by (simp add: fruns_def fexp_def foreign_experiment_def safeD)
  show ?thesis
    unfolding insert_runs_def by (intro safe_stmt keeps_insert_runs [unfolded insert_runs_def]) (simp add: elsewhere_def same)
qed

text \<open>Experiments.\<close>

lemma fruns_experiments: "fexp ws t = fexp ws s \<Longrightarrow> runs t = runs s \<Longrightarrow> fruns ws t = fruns ws s"
  by (simp add: fruns_def)

lemma safe_update_experiments [safe_intros]: "\<not> foreign_experiment X i \<Longrightarrow> keeps (safe ws X) (update_experiments i u)"
proof -
  assume new: "\<not> foreign_experiment X i"
  have same: "fexp ws (s\<lparr>experiments := update_where (\<lambda>e. e_id e = i) (apply_experiment_set u) (experiments s)\<rparr>) = fexp ws s"
    if "safe ws X s" for s
  proof -
    have "i \<notin> e_id ` set (fexp ws s)" using new that by (simp add: foreign_experiment_def safeD)
    then show ?thesis unfolding fexp_def by (auto simp: apply_experiment_set_def intro!: filter_update_where)
  qed
  show ?thesis
    unfolding update_experiments_def by (intro safe_stmt keeps_update_experiments [unfolded update_experiments_def])
      (simp add: elsewhere_def same fruns_experiments [OF same])
qed

lemma safe_upsert_experiment_tags [safe_intros]:
  "\<not> foreign_experiment X (et_experiment_id t) \<Longrightarrow> keeps (safe ws X) (upsert_experiment_tags t)"
proof -
  assume new: "\<not> foreign_experiment X (et_experiment_id t)"
  have same: "filter (\<lambda>t. et_experiment_id t \<in> F) (upsert et_pk et_upd t ts) = filter (\<lambda>t. et_experiment_id t \<in> F) ts"
    if "et_experiment_id t \<notin> F" for F ts
    using that by (auto simp: et_upd_def intro!: filter_upsert)
  show ?thesis
    unfolding upsert_experiment_tags_def using new
    by (intro safe_stmt keeps_upsert_experiment_tags [unfolded upsert_experiment_tags_def])
      (simp add: elsewhere_def same foreign_experiment_def safeD)
qed

lemma safe_insert_experiments: "(\<And>i. default_ws (e_workspace_id (mk i)) = ws) \<Longrightarrow> keeps (safe ws X) (insert_experiments mk)"
proof -
  assume new: "\<And>i. default_ws (e_workspace_id (mk i)) = ws"
  have same: "fexp ws (s\<lparr>experiments_seq := i, experiments := experiments s @ [(mk i)\<lparr>e_id := i\<rparr>]\<rparr>) = fexp ws s" for s i
    by (simp add: fexp_def new)
  show ?thesis
    unfolding insert_experiments_def by (intro safe_stmt keeps_insert_experiments [unfolded insert_experiments_def])
      (simp add: elsewhere_def Let_def same fruns_experiments [OF same])
qed

text \<open>Datasets and the inputs of runs.\<close>

lemma safe_insert_datasets_v2: "(\<And>i. d_workspace_id (mk i) = ws) \<Longrightarrow> keeps (safe ws X) (insert_datasets_v2 mk)"
  unfolding insert_datasets_v2_def by (intro safe_stmt keeps_insert_datasets_v2 [unfolded insert_datasets_v2_def])
    (simp add: elsewhere_def Let_def)

lemma safe_insert_dataset_inputs_v2 [safe_intros]: "\<not> foreign_run X rid \<Longrightarrow> keeps (safe ws X) (insert_dataset_inputs_v2 rid did ts)"
  unfolding insert_dataset_inputs_v2_def by (intro safe_stmt keeps_insert_dataset_inputs_v2 [unfolded insert_dataset_inputs_v2_def])
    (simp add: elsewhere_def Let_def foreign_run_def safeD)

lemma safe_upsert_datasets [safe_intros]: "keeps (safe ws X) (upsert_datasets m)"
  unfolding upsert_datasets_def by (intro safe_stmt keeps_upsert_datasets [unfolded upsert_datasets_def]) (simp add: elsewhere_def)

text \<open>The model registry, whose rows carry their workspace.\<close>

lemma registry_rows_elsewhere:
  "gt_workspace_id gt = ws \<Longrightarrow> filter (\<lambda>t. gt_workspace_id t \<noteq> ws) (upsert gt_pk gt_upd gt gts) = filter (\<lambda>t. gt_workspace_id t \<noteq> ws) gts"
  "vt_workspace_id vt = ws \<Longrightarrow> filter (\<lambda>t. vt_workspace_id t \<noteq> ws) (upsert vt_pk vt_upd vt vts) = filter (\<lambda>t. vt_workspace_id t \<noteq> ws) vts"
  "al_workspace_id al = ws \<Longrightarrow> filter (\<lambda>a. al_workspace_id a \<noteq> ws) (upsert al_pk al_upd al als) = filter (\<lambda>a. al_workspace_id a \<noteq> ws) als"
  by (auto simp: gt_upd_def vt_upd_def al_upd_def intro!: filter_upsert)

text \<open>Updates and deletions inside a workspace; \<open>w\<close> is the column with the workspace.\<close>

lemma update_in_ws: "(\<And>r. q r \<Longrightarrow> w r = ws \<and> w (f r) = ws) \<Longrightarrow> filter (\<lambda>r. w r \<noteq> ws) (update_where q f rs) = filter (\<lambda>r. w r \<noteq> ws) rs"
  by (rule filter_update_where) auto

lemma delete_in_ws: "(\<And>r. q r \<Longrightarrow> w r = ws) \<Longrightarrow> filter (\<lambda>r. w r \<noteq> ws) (delete_where q rs) = filter (\<lambda>r. w r \<noteq> ws) rs"
  by (rule filter_delete_where) auto

lemma safe_insert_registered_models: "rg_workspace_id m = ws \<Longrightarrow> keeps (safe ws X) (insert_registered_models m)"
  unfolding insert_registered_models_def by (intro safe_stmt keeps_insert_registered_models [unfolded insert_registered_models_def])
    (simp add: elsewhere_def)

lemma registry_elsewhere:
  "filter (\<lambda>m. rg_workspace_id m \<noteq> ws) ms = filter (\<lambda>m. rg_workspace_id m \<noteq> ws) (registered_models s) \<Longrightarrow>
     elsewhere ws (s\<lparr>registered_models := ms\<rparr>) = elsewhere ws s"
  "filter (\<lambda>t. gt_workspace_id t \<noteq> ws) gts = filter (\<lambda>t. gt_workspace_id t \<noteq> ws) (registered_model_tags s) \<Longrightarrow>
     elsewhere ws (s\<lparr>registered_model_tags := gts\<rparr>) = elsewhere ws s"
  "filter (\<lambda>v. v_workspace_id v \<noteq> ws) vs = filter (\<lambda>v. v_workspace_id v \<noteq> ws) (model_versions s) \<Longrightarrow>
     elsewhere ws (s\<lparr>model_versions := vs\<rparr>) = elsewhere ws s"
  "filter (\<lambda>t. vt_workspace_id t \<noteq> ws) vts = filter (\<lambda>t. vt_workspace_id t \<noteq> ws) (model_version_tags s) \<Longrightarrow>
     elsewhere ws (s\<lparr>model_version_tags := vts\<rparr>) = elsewhere ws s"
  "filter (\<lambda>a. al_workspace_id a \<noteq> ws) als = filter (\<lambda>a. al_workspace_id a \<noteq> ws) (model_aliases s) \<Longrightarrow>
     elsewhere ws (s\<lparr>model_aliases := als\<rparr>) = elsewhere ws s"
  by (simp_all add: elsewhere_def)

text \<open>The cascades of a deletion touch several tables.\<close>

lemma registry_elsewhere_cascade:
  assumes "filter (\<lambda>v. v_workspace_id v \<noteq> ws) vs = filter (\<lambda>v. v_workspace_id v \<noteq> ws) (model_versions s)"
    and "filter (\<lambda>t. vt_workspace_id t \<noteq> ws) vts = filter (\<lambda>t. vt_workspace_id t \<noteq> ws) (model_version_tags s)"
    and "filter (\<lambda>a. al_workspace_id a \<noteq> ws) als = filter (\<lambda>a. al_workspace_id a \<noteq> ws) (model_aliases s)"
  shows "elsewhere ws (s\<lparr>model_versions := vs, model_version_tags := vts, model_aliases := als\<rparr>) = elsewhere ws s"
    and "filter (\<lambda>m. rg_workspace_id m \<noteq> ws) ms = filter (\<lambda>m. rg_workspace_id m \<noteq> ws) (registered_models s) \<Longrightarrow>
      filter (\<lambda>t. gt_workspace_id t \<noteq> ws) gts = filter (\<lambda>t. gt_workspace_id t \<noteq> ws) (registered_model_tags s) \<Longrightarrow>
      elsewhere ws (s\<lparr>registered_models := ms, registered_model_tags := gts, model_versions := vs, model_version_tags := vts,
        model_aliases := als\<rparr>) = elsewhere ws s"
  using assms by (simp_all add: elsewhere_def fruns_def fexp_def)

lemma has_key_in_ws:
  "has_key rg_pk (w, k) (filter (\<lambda>m. rg_pk m = (ws, nm)) ms) \<Longrightarrow> w = ws"
  "has_key v_pk (w, kk) (filter (\<lambda>v. v_pk v = (ws, kk')) vs) \<Longrightarrow> w = ws"
  "has_key v_pk (w, kk) (filter (\<lambda>v. has_key rg_pk (v_ref v) (filter (\<lambda>m. rg_pk m = (ws, nm)) ms)) vs) \<Longrightarrow> w = ws"
  by (auto simp: has_key_def list_ex_iff)

lemma safe_update_model_description [safe_intros]: "keeps (safe ws X) (update_model_description ws nm d n)"
  unfolding update_model_description_def
  by (intro safe_stmt keeps_update_model_description [unfolded update_model_description_def])
    (unfold snd_conv, intro registry_elsewhere update_in_ws, simp)

lemma safe_delete_registered_models [safe_intros]: "keeps (safe ws X) (delete_registered_models ws nm)"
  unfolding delete_registered_models_def
  by (intro safe_stmt keeps_delete_registered_models [unfolded delete_registered_models_def])
    (unfold Let_def snd_conv, intro registry_elsewhere_cascade delete_in_ws, (erule has_key_in_ws | simp)+)

lemma safe_delete_model_versions: "keeps (safe ws X) (delete_model_versions (ws, k))"
  unfolding delete_model_versions_def
  by (intro safe_stmt keeps_delete_model_versions [unfolded delete_model_versions_def])
    (unfold Let_def snd_conv, intro registry_elsewhere_cascade delete_in_ws, (erule has_key_in_ws | simp)+)

lemma safe_upsert_registered_model_tags: "gt_workspace_id t = ws \<Longrightarrow> keeps (safe ws X) (upsert_registered_model_tags t)"
  unfolding upsert_registered_model_tags_def
  by (intro safe_stmt keeps_upsert_registered_model_tags [unfolded upsert_registered_model_tags_def])
    (unfold snd_conv, intro registry_elsewhere registry_rows_elsewhere)

lemma safe_delete_registered_model_tags [safe_intros]: "keeps (safe ws X) (delete_registered_model_tags ws nm k)"
  unfolding delete_registered_model_tags_def
  by (intro safe_stmt keeps_delete_registered_model_tags [unfolded delete_registered_model_tags_def])
    (unfold snd_conv, intro registry_elsewhere delete_in_ws, simp)

lemma safe_insert_model_versions: "v_workspace_id v = ws \<Longrightarrow> keeps (safe ws X) (insert_model_versions v)"
  unfolding insert_model_versions_def by (intro safe_stmt keeps_insert_model_versions [unfolded insert_model_versions_def])
    (simp add: elsewhere_def)

lemma safe_update_model_versions: "(\<And>v. p v \<Longrightarrow> v_workspace_id v = ws) \<Longrightarrow> keeps (safe ws X) (update_model_versions p u)"
  unfolding update_model_versions_def
  by (intro safe_stmt keeps_update_model_versions [unfolded update_model_versions_def])
    (unfold snd_conv, intro registry_elsewhere update_in_ws, simp add: apply_version_set_def)

lemma safe_upsert_model_version_tags: "vt_workspace_id t = ws \<Longrightarrow> keeps (safe ws X) (upsert_model_version_tags t)"
  unfolding upsert_model_version_tags_def
  by (intro safe_stmt keeps_upsert_model_version_tags [unfolded upsert_model_version_tags_def])
    (unfold snd_conv, intro registry_elsewhere registry_rows_elsewhere)

lemma safe_delete_model_version_tags: "keeps (safe ws X) (delete_model_version_tags (ws, nm, ver) k)"
  unfolding delete_model_version_tags_def
  by (intro safe_stmt keeps_delete_model_version_tags [unfolded delete_model_version_tags_def])
    (unfold snd_conv, intro registry_elsewhere delete_in_ws, simp)

lemma safe_upsert_model_aliases: "al_workspace_id a = ws \<Longrightarrow> keeps (safe ws X) (upsert_model_aliases a)"
  unfolding upsert_model_aliases_def
  by (intro safe_stmt keeps_upsert_model_aliases [unfolded upsert_model_aliases_def])
    (unfold snd_conv, intro registry_elsewhere registry_rows_elsewhere)

lemma safe_delete_model_aliases [safe_intros]: "keeps (safe ws X) (delete_model_aliases ws nm al)"
  unfolding delete_model_aliases_def
  by (intro safe_stmt keeps_delete_model_aliases [unfolded delete_model_aliases_def])
    (unfold snd_conv, intro registry_elsewhere delete_in_ws, simp)

text \<open>The statements of a rename run with foreign keys off, so only the whole method keeps the integrity.\<close>

lemma safe_both: "keeps db_ok m \<Longrightarrow> keeps (\<lambda>s. elsewhere ws s = X) m \<Longrightarrow> keeps (safe ws X) m"
  by (simp add: keeps_def safe_def)

lemma elsewhere_rename_rows: "keeps (\<lambda>s. elsewhere ws s = X) (rename_rows ws nm nw n)"
  unfolding rename_rows_def rename_versions_def rename_version_tags_def rename_model_tags_def rename_aliases_def rename_model_def
  by (intro keeps_bnd keeps_map_err keeps_stmt; unfold snd_conv; erule trans [rotated]; intro registry_elsewhere update_in_ws; simp)

section \<open>Store methods\<close>

lemma safe_invalidValue [safe_intros]: "keeps P (invalidValue e)"
  by (simp add: invalidValue_def keeps_require)

text \<open>A loop body or a continuation may use what is known of the result.\<close>

lemma keeps_bnd_result:
  assumes "keeps P m" and "\<And>s x t. P s \<Longrightarrow> m s = (Inr x, t) \<Longrightarrow> R x" and "\<And>x. R x \<Longrightarrow> keeps P (f x)"
  shows "keeps P (bnd m f)"
proof (rule keepsI)
  fix s assume s: "P s"
  show "P (snd (bnd m f s))"
  proof (cases "m s")
    case (Pair r t)
    have t: "P t" by (rule keepsD2 [OF assms(1) s Pair])
    show ?thesis
    proof (cases r)
      case (Inl e)
      with Pair t show ?thesis by (simp add: bnd_def)
    next
      case (Inr x)
      have "keeps P (f x)" by (rule assms(3), rule assms(2) [OF s]) (simp add: Pair Inr)
      with Pair Inr t show ?thesis by (simp add: bnd_def keepsD)
    qed
  qed
qed

lemma safe_SetExperimentTag [safe_intros]: "\<not> foreign_experiment X i \<Longrightarrow> keeps (safe ws X) (SetExperimentTag i k v)"
  unfolding SetExperimentTag_def by (intro keeps_bnd safe_intros) simp

lemma new_experiment_id:
  assumes "safe ws X s" and "insert_experiments mk s = (Inr i, t)"
  shows "\<not> foreign_experiment X i"
proof -
  have "Schema.below e_id (experiments_seq s) (experiments s)" using db_okD(3) [OF safeD(1) [OF assms(1)]] by (simp add: experiments_ok_def)
  moreover have "i = experiments_seq s + 1"
    using assms(2) by (auto simp: insert_experiments_def stmt_def Let_def split: option.splits if_splits)
  ultimately show ?thesis
    by (force simp: foreign_experiment_def safeD(3) [OF assms(1)] fexp_def Schema.below_def)
qed

lemma safe_CreateExperiment: "keeps (safe (default_ws (exp_WorkspaceID e)) X) (CreateExperiment e)"
  unfolding CreateExperiment_def
proof (rule keeps_bnd [OF safe_invalidValue], rule keeps_bnd [OF safe_now], rule keeps_bnd_result)
  fix n
  let ?ins = "\<lambda>n. map_err (\<lambda>er. if isUniqueViolation er then ErrAlreadyExists else er) (insert_experiments (\<lambda>i. \<lparr>
     e_id = i, e_name = exp_Name e, e_artifact_location = exp_ArtifactLocation e,
     e_lifecycle_stage = or_default [] LifecycleActive (exp_LifecycleStage e), e_creation_time = or_default 0 n (exp_CreationTime e),
     e_last_update_time = or_default 0 n (exp_LastUpdateTime e), e_workspace_id = default_ws (exp_WorkspaceID e)\<rparr>))"
  show "keeps (safe (default_ws (exp_WorkspaceID e)) X) (?ins n)" by (intro keeps_map_err safe_insert_experiments) simp
  fix s i t assume "safe (default_ws (exp_WorkspaceID e)) X s" and "?ins n s = (Inr i, t)"
  then show "\<not> foreign_experiment X i" by (auto simp: map_err_apply elim!: new_experiment_id split: prod.splits sum.splits)
next
  fix i assume "\<not> foreign_experiment X i"
  then show "keeps (safe (default_ws (exp_WorkspaceID e)) X) (bnd (if exp_ArtifactLocation e = []
      then bnd (update_experiments i (no_set\<lparr>es_artifact_location := Some (''mlflow-artifacts:/'' @ FormatInt i)\<rparr>)) (\<lambda>_. ret ()) else ret ())
      (\<lambda>_. bnd (for_each (\<lambda>t. SetExperimentTag i (kv_Key t) (kv_Value t)) (exp_Tags e)) (\<lambda>_. ret i)))"
    by (intro keeps_bnd keeps_if keeps_for_each keeps_ret safe_intros)
qed

lemma safe_UpdateExperiment [safe_intros]: "\<not> foreign_experiment X i \<Longrightarrow> keeps (safe ws X) (UpdateExperiment i nm)"
  unfolding UpdateExperiment_def by (intro keeps_intros safe_intros)

lemma safe_SetExperimentLifecycle [safe_intros]: "\<not> foreign_experiment X i \<Longrightarrow> keeps (safe ws X) (SetExperimentLifecycle i st)"
  unfolding SetExperimentLifecycle_def by (intro keeps_bnd keeps_require safe_intros)

lemma safe_writeRunEvent [safe_intros]: "\<not> foreign_run X rid \<Longrightarrow> keeps (safe ws X) (writeRunEvent kind rid pl)"
  unfolding writeRunEvent_def by (intro keeps_bnd safe_intros)

lemma safe_write_before [safe_intros]: "\<not> foreign_run X rid \<Longrightarrow> keeps (safe ws X) (write_before kind rid b)"
  unfolding write_before_def by (intro keeps_case_option keeps_ret safe_intros)

lemma safe_assertRunExists [safe_intros]: "keeps P (assertRunExists rid)"
  unfolding assertRunExists_def by (intro keeps_bnd keeps_gets keeps_require)

lemma safe_setParentRunID [safe_intros]: "\<not> foreign_run X rid \<Longrightarrow> keeps (safe ws X) (setParentRunID rid p)"
  unfolding setParentRunID_def by (intro keeps_if keeps_bnd keeps_gets keeps_ret safe_intros)

lemma safe_syncParentRunIDFromTag [safe_intros]: "\<not> foreign_run X rid \<Longrightarrow> keeps (safe ws X) (syncParentRunIDFromTag rid v)"
  unfolding syncParentRunIDFromTag_def by (intro keeps_bnd keeps_gets safe_intros)

lemma safe_UpdateRun [safe_intros]: "\<not> foreign_run X rid \<Longrightarrow> keeps (safe ws X) (UpdateRun rid st en nm)"
  unfolding UpdateRun_def by (intro keeps_if keeps_bnd keeps_gets keeps_ret keeps_require safe_intros)

lemma safe_SetRunLifecycle [safe_intros]: "\<not> foreign_run X rid \<Longrightarrow> keeps (safe ws X) (SetRunLifecycle rid st)"
  unfolding SetRunLifecycle_def by (intro keeps_bnd keeps_gets keeps_require safe_intros)

lemma safe_SetTag [safe_intros]: "\<not> foreign_run X rid \<Longrightarrow> keeps (safe ws X) (SetTag rid t)"
  unfolding SetTag_def by (intro keeps_if keeps_bnd keeps_gets keeps_ret keeps_map_err safe_intros)

lemma safe_SetTags [safe_intros]: "\<not> foreign_run X rid \<Longrightarrow> keeps (safe ws X) (SetTags rid ts)"
  unfolding SetTags_def by (intro keeps_if keeps_bnd keeps_gets keeps_ret keeps_map_err keeps_for_each safe_intros)

lemma safe_DeleteTag [safe_intros]: "\<not> foreign_run X rid \<Longrightarrow> keeps (safe ws X) (DeleteTag rid k)"
  unfolding DeleteTag_def by (intro keeps_case_option keeps_bnd keeps_gets keeps_ret keeps_require safe_intros)

lemma safe_LogMetrics [safe_intros]: "\<not> foreign_run X rid \<Longrightarrow> keeps (safe ws X) (LogMetrics rid ms)"
  unfolding LogMetrics_def log_one_def
  by (intro keeps_if keeps_bnd keeps_ret keeps_require keeps_for_each safe_intros) simp_all

lemma safe_LogParam [safe_intros]: "\<not> foreign_run X rid \<Longrightarrow> keeps (safe ws X) (LogParam rid p)"
  unfolding LogParam_def
  by (intro keeps_if keeps_bnd keeps_gets keeps_throw keeps_require keeps_catch keeps_case_option safe_intros) simp_all

text \<open>The id of a new run is not one of another workspace, because it is not in the table yet.\<close>

lemma new_run_id:
  assumes "safe ws X s" and "map_err mapInsertErr (insert_runs r) s = (Inr u, t)"
  shows "\<not> foreign_run X (r_id r)"
proof -
  have "\<not> has_key r_id (r_id r) (runs s)"
    using assms(2) by (auto simp: insert_runs_def stmt_def map_err_apply split: option.splits if_splits)
  then show ?thesis by (auto simp: foreign_run_def safeD(2) [OF assms(1)] fruns_def has_key_iff keys_def)
qed

lemma safe_CreateRun:
  assumes "\<not> foreign_experiment X (run_ExperimentID r0)"
  shows "keeps (safe ws X) (CreateRun newID r0)"
proof -
  have fill: "run_ExperimentID r = run_ExperimentID r0" if "fill_run newID r0 s = (Inr r, t)" for r s t
    using that by (auto simp: fill_run_def Let_def sem_simps split: if_splits)
  have ins: "keeps (safe ws X) (map_err mapInsertErr (insert_runs (row_of_run r)))" if "run_ExperimentID r = run_ExperimentID r0" for r
    using assms that by (intro keeps_map_err safe_intros) (simp add: row_of_run_def)
  show ?thesis unfolding CreateRun_def
  proof (rule keeps_bnd_result [where R = "\<lambda>r. run_ExperimentID r = run_ExperimentID r0"])
    show "keeps (safe ws X) (fill_run newID r0)" unfolding fill_run_def by (intro keeps_Let keeps_bnd keeps_if keeps_ret safe_intros)
    show "run_ExperimentID r = run_ExperimentID r0" if "fill_run newID r0 s = (Inr r, t)" for s r t by (rule fill [OF that])
  next
    fix r :: Run assume r: "run_ExperimentID r = run_ExperimentID r0"
    have "keeps (safe ws X) (bnd (map_err mapInsertErr (insert_runs (row_of_run r)))
        (\<lambda>_. bnd (map_err mapInsertErr (setParentRunID (run_ID r) (run_ParentRunID r))) (\<lambda>_. ret r)))"
    proof (rule keeps_bnd_result [OF ins [OF r]])
      show "\<not> foreign_run X (r_id (row_of_run r))" if "safe ws X s" and "map_err mapInsertErr (insert_runs (row_of_run r)) s = (Inr x, t)" for s x t
        by (rule new_run_id [OF that])
      show "keeps (safe ws X) (bnd (map_err mapInsertErr (setParentRunID (run_ID r) (run_ParentRunID r))) (\<lambda>_. ret r))"
        if "\<not> foreign_run X (r_id (row_of_run r))"
        using that by (intro keeps_bnd keeps_map_err keeps_ret safe_intros) (simp add: row_of_run_def)
    qed
    then show "keeps (safe ws X) (if run_ParentRunID r = [] then bnd (map_err mapInsertErr (insert_runs (row_of_run r))) (\<lambda>_. ret r)
        else tx (bnd (map_err mapInsertErr (insert_runs (row_of_run r)))
          (\<lambda>_. bnd (map_err mapInsertErr (setParentRunID (run_ID r) (run_ParentRunID r))) (\<lambda>_. ret r))))"
      by (intro keeps_if) (rule keeps_bnd [OF ins [OF r] keeps_ret], rule safe_tx)
  qed
qed

text \<open>The inputs of a run: the mirror of a dataset goes to the workspace of the run.\<close>

definition own_run :: "string \<Rightarrow> db \<Rightarrow> string \<Rightarrow> db \<Rightarrow> bool" where
  "own_run ws X rid s \<longleftrightarrow> safe ws X s \<and> run_workspace rid s = Some ws"

lemma own_runI: "keeps (safe ws X) m \<Longrightarrow> keeps (\<lambda>s. run_workspace rid s = w) m \<Longrightarrow> w = Some ws \<Longrightarrow> keeps (own_run ws X rid) m"
  by (simp add: keeps_def own_run_def)

lemma run_workspace_frame:
  "keeps (\<lambda>s. run_workspace rid s = w) now" "keeps (\<lambda>s. run_workspace rid s = w) (insert_datasets_v2 mk)"
  "keeps (\<lambda>s. run_workspace rid s = w) (insert_dataset_inputs_v2 r did ts)" "keeps (\<lambda>s. run_workspace rid s = w) (upsert_datasets m)"
  by (auto simp: keeps_def now_def insert_datasets_v2_def insert_dataset_inputs_v2_def upsert_datasets_def stmt_def Let_def run_workspace_def
    split: option.splits)

lemma clockless_own_run: "clockless (own_run ws X rid)"
proof -
  have "run_workspace rid (s\<lparr>clock_pos := n\<rparr>) = run_workspace rid s" for s n by (simp add: run_workspace_def split: option.split)
  then show ?thesis using clockless_safe by (simp add: clockless_def own_run_def)
qed

lemma own_insert_mirror: "keeps (own_run ws X rid) (insert_mirror ws nm dig)"
  unfolding insert_mirror_def
  by (intro keeps_bnd keeps_gets own_runI [OF safe_now run_workspace_frame(1)] own_runI [OF safe_insert_datasets_v2 run_workspace_frame(2)]) simp_all

lemma own_mirror_loop: "keeps (own_run ws X rid) (mirror_loop n ws nm dig)"
  by (induction n) (auto intro!: keeps_intros own_insert_mirror)

lemma own_link_input:
  assumes "\<not> foreign_run X rid"
  shows "keeps (own_run (default_ws ws) X rid) (link_input rid inp)"
proof -
  have "keeps (own_run (default_ws ws) X rid) (mirrorIntoDatasetsV2Returning rid nm dig)" for nm dig
    unfolding mirrorIntoDatasetsV2Returning_def
  proof (rule keeps_bnd_result [where R = "\<lambda>row. row = Some (default_ws ws)"])
    show "row = Some (default_ws ws)" if "own_run (default_ws ws) X rid s" and "gets (run_workspace rid) s = (Inr row, t)" for s row t
      using that by (simp add: own_run_def gets_def)
  qed (auto intro!: keeps_intros own_mirror_loop)
  then show ?thesis unfolding link_input_def using assms
    by (intro keeps_Let keeps_bnd own_runI [OF safe_insert_dataset_inputs_v2 run_workspace_frame(3)]
      own_runI [OF safe_upsert_datasets run_workspace_frame(4)]) simp_all
qed

lemma own_LogInputs: "\<not> foreign_run X rid \<Longrightarrow> keeps (own_run (default_ws ws) X rid) (LogInputs False rid inputs)"
  unfolding LogInputs_def logInputsOnce_def log_input_def
  by (intro keeps_if keeps_ret keeps_bnd keeps_log_inputs_loop keeps_tx [OF clockless_own_run] keeps_for_each own_link_input safe_assertRunExists) simp_all

text \<open>The model registry.\<close>

lemma safe_GetRegisteredModel [safe_intros]: "keeps P (GetRegisteredModel ws nm)"
  unfolding GetRegisteredModel_def by (intro keeps_Let keeps_bnd keeps_gets keeps_throw keeps_case_option)

lemma safe_GetModelVersion [safe_intros]: "keeps P (GetModelVersion ws nm ver)"
  unfolding GetModelVersion_def by (intro keeps_Let keeps_bnd keeps_gets keeps_throw keeps_case_option)

lemma safe_CreateRegisteredModel [safe_intros]: "keeps (safe (default_ws ws) X) (CreateRegisteredModel ws m)"
  unfolding CreateRegisteredModel_def by (intro keeps_bnd keeps_map_err safe_insert_registered_models safe_intros) simp

lemma safe_UpdateRegisteredModel [safe_intros]: "keeps (safe (default_ws ws) X) (UpdateRegisteredModel ws nm d)"
  unfolding UpdateRegisteredModel_def by (intro keeps_bnd keeps_case_option keeps_require safe_intros)

lemma safe_DeleteRegisteredModel [safe_intros]: "keeps (safe (default_ws ws) X) (DeleteRegisteredModel ws nm)"
  unfolding DeleteRegisteredModel_def by (intro keeps_bnd keeps_require safe_intros)

lemma safe_RenameRegisteredModel [safe_intros]: "keeps (safe (default_ws ws) X) (RenameRegisteredModel ws nm nw)"
proof (rule safe_both [OF keeps_RenameRegisteredModel])
  have clk: "clockless (\<lambda>s. elsewhere ws s = X)" for ws by (simp add: clockless_def elsewhere_def fexp_def fruns_def)
  show "keeps (\<lambda>s. elsewhere (default_ws ws) s = X) (RenameRegisteredModel ws nm nw)"
    unfolding RenameRegisteredModel_def
    by (intro keeps_Let) (auto intro!: keeps_bnd keeps_gets keeps_require safe_invalidValue keeps_now [OF clk] keeps_tx [OF clk]
      elsewhere_rename_rows safe_GetRegisteredModel)
qed

lemma safe_SetRegisteredModelTag [safe_intros]: "keeps (safe (default_ws ws) X) (SetRegisteredModelTag ws nm k v)"
  unfolding SetRegisteredModelTag_def by (intro keeps_bnd safe_upsert_registered_model_tags safe_intros) simp

lemma safe_DeleteRegisteredModelTag [safe_intros]: "keeps (safe (default_ws ws) X) (DeleteRegisteredModelTag ws nm k)"
  unfolding DeleteRegisteredModelTag_def by (intro keeps_bnd keeps_require safe_intros)

lemma safe_CreateModelVersion [safe_intros]: "keeps (safe (default_ws ws) X) (CreateModelVersion ws mv)"
  unfolding CreateModelVersion_def
  by (intro keeps_Let keeps_bnd keeps_gets keeps_ret keeps_retryWriteRace safe_insert_model_versions safe_intros) simp

lemma safe_UpdateModelVersion [safe_intros]: "keeps (safe (default_ws ws) X) (UpdateModelVersion ws nm ver d)"
  unfolding UpdateModelVersion_def by (intro keeps_bnd keeps_case_option keeps_require safe_update_model_versions safe_intros) simp

lemma safe_DeleteModelVersion [safe_intros]: "keeps (safe (default_ws ws) X) (DeleteModelVersion ws nm ver)"
  unfolding DeleteModelVersion_def by (intro keeps_bnd keeps_require safe_delete_model_versions)

lemma safe_TransitionModelStage [safe_intros]: "keeps (safe (default_ws ws) X) (TransitionModelStage ws nm ver st ar)"
  unfolding TransitionModelStage_def
  by (intro keeps_Let keeps_bnd keeps_if keeps_ret keeps_require safe_update_model_versions safe_intros) simp_all

lemma safe_SetModelVersionTag [safe_intros]: "keeps (safe (default_ws ws) X) (SetModelVersionTag ws nm ver k v)"
  unfolding SetModelVersionTag_def by (intro keeps_bnd safe_upsert_model_version_tags safe_intros) simp

lemma safe_DeleteModelVersionTag [safe_intros]: "keeps (safe (default_ws ws) X) (DeleteModelVersionTag ws nm ver k)"
  unfolding DeleteModelVersionTag_def by (intro keeps_bnd keeps_require safe_delete_model_version_tags)

lemma safe_SetModelAlias [safe_intros]: "keeps (safe (default_ws ws) X) (SetModelAlias ws nm al ver)"
  unfolding SetModelAlias_def by (intro keeps_bnd safe_upsert_model_aliases safe_intros) simp

lemma safe_DeleteModelAlias [safe_intros]: "keeps (safe (default_ws ws) X) (DeleteModelAlias ws nm al)"
  unfolding DeleteModelAlias_def by (intro keeps_bnd keeps_require safe_intros)

end
