(* ===== verification/Api.thy ===== *)
theory Api
  imports Tenancy
begin

text \<open>
  The MLflow REST API as one transition: \<open>serve\<close> runs the handler of a request in the workspace of the request. Its main property is
  that workspaces are separate: whatever a request does, what belongs to other workspaces stays as it is, the webhooks it fires
  are of its own workspace, and the artifacts of foreign runs are not touched.
\<close>

section \<open>Requests\<close>

text \<open>
  One constructor for each endpoint, with its query, its body and, for a new run, the id that \<open>NewRunID\<close> draws. The legacy aliases of
  the routes have the same handlers.
\<close>

datatype run_request =
    ReqCreateExperiment "createExperimentReq option"
  | ReqGetExperiment "string \<Rightarrow> string"
  | ReqGetExperimentByName "string \<Rightarrow> string"
  | ReqSearchExperiments "string \<Rightarrow> string" token "searchExperimentsReq option"
  | ReqDeleteExperiment "string option"
  | ReqRestoreExperiment "string option"
  | ReqUpdateExperiment "(string \<times> string) option"
  | ReqSetExperimentTag "(string \<times> KV) option"
  | ReqCreateRun string "createRunReq option"
  | ReqGetRun "string \<Rightarrow> string"
  | ReqUpdateRun "updateRunReq option"
  | ReqDeleteRun "string option"
  | ReqRestoreRun "string option"
  | ReqSearchRuns "string \<Rightarrow> string" "searchRunsReq option"
  | ReqLogMetric "(string \<times> string \<times> Metric) option"
  | ReqLogParameter "(string \<times> string \<times> Param) option"
  | ReqLogBatch "logBatchReq option"
  | ReqSetTag "(string \<times> string \<times> KV) option"
  | ReqDeleteTag "(string \<times> string) option"
  | ReqLogInputs "(string \<times> DatasetInput list) option"
  | ReqGetMetricHistory "string \<Rightarrow> string"
  | ReqListArtifacts "string \<Rightarrow> string"
  | ReqArtifact string string "string \<Rightarrow> string" reader

datatype registry_request =
    ReqCreateModel "createRegisteredModelReq option"
  | ReqGetModel "string \<Rightarrow> string"
  | ReqRenameModel "(string \<times> string) option"
  | ReqUpdateModel "(string \<times> string option) option"
  | ReqDeleteModel "string \<Rightarrow> string" string
  | ReqSearchModels "string \<Rightarrow> string" searchRegistryReq
  | ReqLatestVersions "string \<Rightarrow> string" "string \<times> string list"
  | ReqSetModelTag "(string \<times> string \<times> string) option"
  | ReqDeleteModelTag "(string \<times> string) option"
  | ReqSetAlias "(string \<times> string \<times> string) option"
  | ReqDeleteAlias "string \<Rightarrow> string" "string \<times> string"
  | ReqGetByAlias "string \<Rightarrow> string"
  | ReqCreateVersion "createModelVersionReq option"
  | ReqGetVersion "string \<Rightarrow> string"
  | ReqUpdateVersion "(string \<times> string \<times> string option) option"
  | ReqDeleteVersion "string \<Rightarrow> string" "string \<times> string"
  | ReqSearchVersions "string \<Rightarrow> string" searchRegistryReq
  | ReqDownloadURI "string \<Rightarrow> string"
  | ReqTransition "transitionStageReq option"
  | ReqSetVersionTag "(string \<times> string \<times> string \<times> string) option"
  | ReqDeleteVersionTag "(string \<times> string \<times> string) option"

datatype answer =
    Done
  | AnsID string
  | AnsExperiment experimentDTO
  | AnsExperiments "experimentDTO list" token
  | AnsRun runDTO
  | AnsRunInfo runInfoDTO
  | AnsRuns "runDTO list" token
  | AnsHistory getMetricHistoryResp
  | AnsFiles string "artifactFile list"
  | AnsArtifact artifact_answer
  | AnsModel registeredModelDTO
  | AnsModels "registeredModelDTO list" string
  | AnsVersion mvDTO
  | AnsVersions "mvDTO list" string

definition answering :: "('a \<Rightarrow> answer) \<Rightarrow> 'a handler \<Rightarrow> answer handler" where
  "answering f m = bnd m (\<lambda>x. ret (f x))"

primrec serve_run :: "Handler \<Rightarrow> string \<Rightarrow> run_request \<Rightarrow> answer handler" where
  "serve_run h ws (ReqCreateExperiment body) = answering AnsID (CreateExperiment_h ws body)"
| "serve_run h ws (ReqGetExperiment q) = answering AnsExperiment (GetExperiment_h ws q)"
| "serve_run h ws (ReqGetExperimentByName q) = answering AnsExperiment (GetExperimentByName_h ws q)"
| "serve_run h ws (ReqSearchExperiments q tok body) =
     answering (\<lambda>(es, t). AnsExperiments es t) (SearchExperiments_h (en_up (ha_engine h)) ws q tok body)"
| "serve_run h ws (ReqDeleteExperiment body) = answering (\<lambda>_. Done) (DeleteExperiment_h ws body)"
| "serve_run h ws (ReqRestoreExperiment body) = answering (\<lambda>_. Done) (RestoreExperiment_h ws body)"
| "serve_run h ws (ReqUpdateExperiment body) = answering (\<lambda>_. Done) (UpdateExperiment_h ws body)"
| "serve_run h ws (ReqSetExperimentTag body) = answering (\<lambda>_. Done) (SetExperimentTag_h ws body)"
| "serve_run h ws (ReqCreateRun newID body) = answering AnsRun (CreateRun_h h newID ws body)"
| "serve_run h ws (ReqGetRun q) = answering AnsRun (GetRun_h ws q)"
| "serve_run h ws (ReqUpdateRun body) = answering AnsRunInfo (UpdateRun_h h ws body)"
| "serve_run h ws (ReqDeleteRun body) = answering (\<lambda>_. Done) (DeleteRun_h ws body)"
| "serve_run h ws (ReqRestoreRun body) = answering (\<lambda>_. Done) (RestoreRun_h ws body)"
| "serve_run h ws (ReqSearchRuns q body) = answering (\<lambda>(rs, t). AnsRuns rs t) (SearchRuns_h h ws q body)"
| "serve_run h ws (ReqLogMetric body) = answering (\<lambda>_. Done) (LogMetric_h ws body)"
| "serve_run h ws (ReqLogParameter body) = answering (\<lambda>_. Done) (LogParameter_h ws body)"
| "serve_run h ws (ReqLogBatch body) = answering (\<lambda>_. Done) (LogBatch_h ws body)"
| "serve_run h ws (ReqSetTag body) = answering (\<lambda>_. Done) (SetTag_h ws body)"
| "serve_run h ws (ReqDeleteTag body) = answering (\<lambda>_. Done) (DeleteTag_h ws body)"
| "serve_run h ws (ReqLogInputs body) = answering (\<lambda>_. Done) (LogInputs_h h ws body)"
| "serve_run h ws (ReqGetMetricHistory q) = answering AnsHistory (GetMetricHistory_h ws q)"
| "serve_run h ws (ReqListArtifacts q) = answering (\<lambda>(uri, fs). AnsFiles uri fs) (ListArtifacts_h h ws q)"
| "serve_run h ws (ReqArtifact meth p q body) = answering AnsArtifact (artifactsRouter h ws meth p q body)"

primrec serve_registry :: "(nat \<Rightarrow> nat) \<Rightarrow> (nat \<Rightarrow> nat) \<Rightarrow> string \<Rightarrow> registry_request \<Rightarrow> answer handler" where
  "serve_registry up low ws (ReqCreateModel body) = answering AnsModel (CreateRegisteredModel_h ws body)"
| "serve_registry up low ws (ReqGetModel q) = answering AnsModel (GetRegisteredModel_h ws q)"
| "serve_registry up low ws (ReqRenameModel body) = answering AnsModel (RenameRegisteredModel_h ws body)"
| "serve_registry up low ws (ReqUpdateModel body) = answering AnsModel (UpdateRegisteredModel_h ws body)"
| "serve_registry up low ws (ReqDeleteModel q body) = answering (\<lambda>_. Done) (DeleteRegisteredModel_h ws q body)"
| "serve_registry up low ws (ReqSearchModels q body) = answering (\<lambda>(ms, t). AnsModels ms t) (SearchRegisteredModels_h up low ws q body)"
| "serve_registry up low ws (ReqLatestVersions q body) = answering (\<lambda>vs. AnsVersions vs []) (GetLatestModelVersions_h ws q body)"
| "serve_registry up low ws (ReqSetModelTag body) = answering (\<lambda>_. Done) (SetRegisteredModelTag_h ws body)"
| "serve_registry up low ws (ReqDeleteModelTag body) = answering (\<lambda>_. Done) (DeleteRegisteredModelTag_h ws body)"
| "serve_registry up low ws (ReqSetAlias body) = answering (\<lambda>_. Done) (SetModelAlias_h ws body)"
| "serve_registry up low ws (ReqDeleteAlias q body) = answering (\<lambda>_. Done) (DeleteModelAlias_h ws q body)"
| "serve_registry up low ws (ReqGetByAlias q) = answering AnsVersion (GetModelByAlias_h ws q)"
| "serve_registry up low ws (ReqCreateVersion body) = answering AnsVersion (CreateModelVersion_h ws body)"
| "serve_registry up low ws (ReqGetVersion q) = answering AnsVersion (GetModelVersion_h ws q)"
| "serve_registry up low ws (ReqUpdateVersion body) = answering AnsVersion (UpdateModelVersion_h ws body)"
| "serve_registry up low ws (ReqDeleteVersion q body) = answering (\<lambda>_. Done) (DeleteModelVersion_h ws q body)"
| "serve_registry up low ws (ReqSearchVersions q body) = answering (\<lambda>(vs, t). AnsVersions vs t) (SearchModelVersions_h up low ws q body)"
| "serve_registry up low ws (ReqDownloadURI q) = answering AnsID (GetModelVersionDownloadURI_h ws q)"
| "serve_registry up low ws (ReqTransition body) = answering AnsVersion (TransitionModelStage_h ws body)"
| "serve_registry up low ws (ReqSetVersionTag body) = answering (\<lambda>_. Done) (SetModelVersionTag_h ws body)"
| "serve_registry up low ws (ReqDeleteVersionTag body) = answering (\<lambda>_. Done) (DeleteModelVersionTag_h ws body)"

datatype request = RunRequest run_request | RegistryRequest registry_request

text \<open>\<open>low\<close> is the table of \<open>strings.ToLower\<close>, which the filters of the registry use.\<close>

fun serve :: "Handler \<Rightarrow> (nat \<Rightarrow> nat) \<Rightarrow> (string \<Rightarrow> string) \<Rightarrow> request \<Rightarrow> answer handler" where
  "serve h low header (RunRequest r) = serve_run h (currentWorkspace header) r"
| "serve h low header (RegistryRequest r) = serve_registry (en_up (ha_engine h)) low (currentWorkspace header) r"

section \<open>Separation of workspaces\<close>

named_theorems sep_intros "parts of handlers that stay inside the workspace"

text \<open>What the state \<open>a\<close> has to do with the state \<open>a0\<close> before the request.\<close>

definition sep :: "Handler \<Rightarrow> string \<Rightarrow> api \<Rightarrow> api \<Rightarrow> bool" where
  "sep h ws a0 a \<longleftrightarrow> safe ws (elsewhere ws (hk_db a0)) (hk_db a)
     \<and> (\<exists>js. hk_queue a = hk_queue a0 @ js \<and> (\<forall>j\<in>set js. hook_WorkspaceID (j_wh j) = ws))
     \<and> fs_ok (api_fs a)
     \<and> (\<forall>rid q. foreign_run (elsewhere ws (hk_db a0)) rid \<longrightarrow> prefix (run_dir (ha_cwd h) (ha_Artifacts h) rid) q \<longrightarrow>
          map_of (api_fs a) q = map_of (api_fs a0) q)"

lemma sep_refl: "db_ok (hk_db a) \<Longrightarrow> fs_ok (api_fs a) \<Longrightarrow> sep h ws a a"
  by (simp add: sep_def safe_def)

lemma sep_db: "sep h ws a0 a \<Longrightarrow> safe ws (elsewhere ws (hk_db a0)) s \<Longrightarrow> sep h ws a0 (a\<lparr>hk_db := s\<rparr>)"
  by (simp add: sep_def)

lemma sep_safe: "sep h ws a0 a \<Longrightarrow> safe ws (elsewhere ws (hk_db a0)) (hk_db a)"
  by (simp add: sep_def)

lemma on_db_snd: "snd (on_db m a) = a\<lparr>hk_db := snd (m (hk_db a))\<rparr>"
  by (simp add: on_db_def split: prod.split)

lemma on_db_sep:
  assumes "keeps (safe ws (elsewhere ws (hk_db a0))) m" and "sep h ws a0 a"
  shows "sep h ws a0 (snd (on_db m a))"
  using sep_db [OF assms(2) keepsD [OF assms(1) sep_safe [OF assms(2)]]] by (simp add: on_db_snd)

text \<open>Calls of the store.\<close>

lemma call_snd: "snd (call m a) = snd (on_db m a)" "snd (call_found m a) = snd (on_db m a)" "snd (ignoring m a) = snd (on_db m a)"
  by (auto simp: call_def call_found_def ignoring_def split: prod.split sum.split)

lemma sep_call:
  assumes "keeps (safe ws (elsewhere ws (hk_db a0))) m"
  shows "keeps (sep h ws a0) (call m)" and "keeps (sep h ws a0) (call_found m)" and "keeps (sep h ws a0) (ignoring m)"
  using on_db_sep [OF assms] by (simp_all add: keeps_def call_snd)

lemma sep_reads [sep_intros]:
  "keeps P (query_db f)" "keeps P (read_db g)" "keeps P (decodeJSON body)" "keeps P (parse_id x)"
  by (simp_all add: keeps_def query_db_def read_db_def gets_def decodeJSON_def parse_id_def ret_def throw_def split: option.split)

lemma keeps_pair [sep_intros]: "(\<And>x y. keeps P (f x y)) \<Longrightarrow> keeps P (case z of (x, y) \<Rightarrow> f x y)"
  by (cases z) simp

lemma keeps_choice [sep_intros]: "keeps P m \<Longrightarrow> (\<And>y. keeps P (f y)) \<Longrightarrow> keeps P (case x of None \<Rightarrow> m | Some y \<Rightarrow> f y)"
  by (cases x) simp_all

lemma call_ok: "call m a = (Inr x, b) \<longleftrightarrow> (\<exists>s. m (hk_db a) = (Inr x, s) \<and> b = a\<lparr>hk_db := s\<rparr>)"
  by (auto simp: call_def on_db_def split: prod.splits sum.splits)

text \<open>The guards.\<close>

lemma run_guard:
  assumes "safe ws X s" and "ws \<noteq> []" and "GetRunInWorkspace rid ws s = (Inr run, t)"
  shows "\<not> foreign_run X rid" and "run_workspace rid s = Some ws"
proof -
  have ex: "pk e_id (experiments s)" and ru: "pk r_id (runs s)"
    using db_okD(3,5) [OF safeD(1) [OF assms(1)]] by (simp_all add: experiments_ok_def runs_ok_def)
  obtain r e where r: "r \<in> set (runs s)" "r_id r = rid" and e: "e \<in> set (experiments s)" "e_id e = r_experiment_id r" "e_workspace_id e = ws"
    using assms(2,3) by (auto simp: GetRunInWorkspace_def getRunInWorkspace_def default_ws_def sem_simps first_row_def in_workspace_def list_ex_iff
      find_Some_iff set_conv_nth split: option.splits)
  have d: "default_ws (e_workspace_id e) = ws" using e(3) assms(2) by (simp add: default_ws_def)
  have "x = e" if "x \<in> set (experiments s)" and "e_id x = e_id e" for x using ex that e(1) by (auto simp: pk_def distinct_map inj_on_def)
  then have "r_experiment_id r \<notin> e_id ` set (fexp ws s)" using d e(2) by (auto simp: fexp_def)
  moreover have "y = r" if "y \<in> set (runs s)" and "r_id y = rid" for y using ru that r by (auto simp: pk_def distinct_map inj_on_def)
  ultimately show "\<not> foreign_run X rid" by (auto simp: foreign_run_def safeD(2) [OF assms(1)] fruns_def)
  have "first_row (\<lambda>r. r_id r = rid) (runs s) = Some r" using ru r by (intro first_row_unique [where k = r_id]) (auto simp: pk_def)
  moreover have "first_row (\<lambda>e. e_id e = r_experiment_id r) (experiments s) = Some e" using ex e by (intro first_row_unique [where k = e_id]) (auto simp: pk_def)
  ultimately show "run_workspace rid s = Some ws" using e(3) by (simp add: run_workspace_def)
qed


lemma experiment_guard:
  assumes "safe ws X s" and "getExperimentInWorkspace ws i s = (Inr e, t)"
  shows "\<not> foreign_experiment X i"
proof -
  have ex: "pk e_id (experiments s)" using db_okD(3) [OF safeD(1) [OF assms(1)]] by (simp add: experiments_ok_def)
  obtain e where e: "first_row (\<lambda>e. e_id e = i) (experiments s) = Some e" "default_ws (e_workspace_id e) = ws"
    using assms(2) by (auto simp: getExperimentInWorkspace_def GetExperiment_def scanExperiment_def or_default_def default_ws_def sem_simps
      split: option.splits if_splits)
  then show ?thesis using ex first_row_Some [OF e(1)]
    by (auto simp: foreign_experiment_def safeD(3) [OF assms(1)] fexp_def pk_def distinct_map inj_on_def)
qed

lemma sep_read_call [sep_intros]: "keeps (sep h ws a0) (call (GetRunInWorkspace rid w))" "keeps (sep h ws a0) (call (GetRun rid))"
  "keeps (sep h ws a0) (call (getExperimentInWorkspace w i))" "keeps (sep h ws a0) (call_found (getExperimentInWorkspace w i))"
  "keeps (sep h ws a0) (call (GetRunAsOfInWorkspace rid w t))" "keeps (sep h ws a0) (call_found (GetRunAsOfInWorkspace rid w t))"
  "keeps (sep h ws a0) (call (GetExperimentByNameInWorkspace w nm))" "keeps (sep h ws a0) (call now)"
  unfolding GetRunInWorkspace_def getRunInWorkspace_def GetRun_def getExperimentInWorkspace_def GetExperiment_def scanExperiment_def
    GetRunAsOfInWorkspace_def getRunAsOfImpl_def GetExperimentByNameInWorkspace_def Let_def
  by (intro sep_call keeps_intros keeps_pair safe_now)+

lemma guarded_run:
  assumes "ws \<noteq> []" and "\<not> foreign_run (elsewhere ws (hk_db a0)) rid \<Longrightarrow> keeps (sep h ws a0) (f ())"
  shows "keeps (sep h ws a0) (bnd (ensureRunInWorkspace ws rid) f)"
proof (rule keeps_bnd_result [where R = "\<lambda>_. \<not> foreign_run (elsewhere ws (hk_db a0)) rid"])
  show "keeps (sep h ws a0) (ensureRunInWorkspace ws rid)" unfolding ensureRunInWorkspace_def by (intro keeps_bnd keeps_ret sep_intros)
  show "\<not> foreign_run (elsewhere ws (hk_db a0)) rid" if "sep h ws a0 a" and "ensureRunInWorkspace ws rid a = (Inr x, b)" for a x b
    using that(2) run_guard(1) [OF sep_safe [OF that(1)] assms(1)] by (auto simp: ensureRunInWorkspace_def call_ok elim!: bnd_okE)
qed (use assms(2) in simp)

lemma guarded_experiment:
  assumes "\<And>e. \<not> foreign_experiment (elsewhere ws (hk_db a0)) i \<Longrightarrow> keeps (sep h ws a0) (f e)"
  shows "keeps (sep h ws a0) (bnd (call (getExperimentInWorkspace ws i)) f)"
proof (rule keeps_bnd_result [where R = "\<lambda>_. \<not> foreign_experiment (elsewhere ws (hk_db a0)) i"])
  show "\<not> foreign_experiment (elsewhere ws (hk_db a0)) i" if "sep h ws a0 a" and "call (getExperimentInWorkspace ws i) a = (Inr x, b)" for a x b
    using that(2) experiment_guard [OF sep_safe [OF that(1)]] by (auto simp: call_ok)
qed (use assms in \<open>auto intro: sep_intros\<close>)

text \<open>The webhooks of a notification.\<close>

lemma offer_all_queue: "\<exists>js'. hk_queue (offer_all js a) = hk_queue a @ js' \<and> set js' \<subseteq> set js"
  and offer_all_rest: "hk_db (offer_all js a) = hk_db a" "api_fs (offer_all js a) = api_fs a" for a :: api
proof (induction js arbitrary: a)
  case (Cons j js)
  { case 1
    obtain js' where "hk_queue (offer_all js (snd (offer j a))) = hk_queue (snd (offer j a)) @ js'" "set js' \<subseteq> set js" using Cons.IH(1) by blast
    then show ?case by (cases "hk_stopped a") (auto simp: offer_def)
  next
    case 2 then show ?case using Cons.IH(2) by (simp add: offer_def)
  next
    case 3 then show ?case using Cons.IH(3) by (simp add: offer_def) }
qed simp_all

lemma jobs_in_workspace: "j \<in> set (jobs_for ws ev run s) \<Longrightarrow> hook_WorkspaceID (j_wh j) = default_ws ws"
  by (auto simp: jobs_for_def ListWebhooks_def scanWebhooks_def webhook_of_row_def)

lemma sep_notify [sep_intros]: "ws \<noteq> [] \<Longrightarrow> keeps (sep h ws a0) (notify h' ws ev run)"
proof (rule keepsI)
  fix a assume ws: "ws \<noteq> []" and s: "sep h ws a0 a"
  have "sep h ws a0 (offer_all (jobs_for ws ev run (hk_db a)) a)"
  proof -
    obtain js' where js': "hk_queue (offer_all (jobs_for ws ev run (hk_db a)) a) = hk_queue a @ js'" "set js' \<subseteq> set (jobs_for ws ev run (hk_db a))"
      using offer_all_queue by blast
    have "hook_WorkspaceID (j_wh j) = ws" if "j \<in> set js'" for j using jobs_in_workspace [of j ws ev run "hk_db a"] that js'(2) ws by (auto simp: default_ws_def)
    moreover obtain js where "hk_queue a = hk_queue a0 @ js" "\<forall>j\<in>set js. hook_WorkspaceID (j_wh j) = ws" using s by (auto simp: sep_def)
    ultimately have "hk_queue (offer_all (jobs_for ws ev run (hk_db a)) a) = hk_queue a0 @ (js @ js') \<and> (\<forall>j\<in>set (js @ js'). hook_WorkspaceID (j_wh j) = ws)"
      using js'(1) by auto
    then show ?thesis using s unfolding sep_def offer_all_rest by blast
  qed
  then show "sep h ws a0 (snd (notify h' ws ev run a))" using s by (simp add: notify_def Notify_def modify_def ret_def)
qed

section \<open>The handlers\<close>

lemma sep_experiments:
  assumes "ws \<noteq> []"
  shows "keeps (sep h ws a0) (CreateExperiment_h ws b1)" "keeps (sep h ws a0) (GetExperiment_h ws q)" "keeps (sep h ws a0) (GetExperimentByName_h ws q)"
    "keeps (sep h ws a0) (SearchExperiments_h up ws q tok b2)" "keeps (sep h ws a0) (set_experiment_stage ws st b3)"
    "keeps (sep h ws a0) (UpdateExperiment_h ws b4)" "keeps (sep h ws a0) (SetExperimentTag_h ws b5)"
proof -
  have "keeps (safe ws X) (CreateExperiment e)" if "exp_WorkspaceID e = ws" for e X
    using safe_CreateExperiment [of e X] assms by (simp add: that default_ws_def)
  then show "keeps (sep h ws a0) (CreateExperiment_h ws b1)"
    unfolding CreateExperiment_h_def by (intro keeps_bnd keeps_require keeps_ret sep_call sep_intros) simp
  show "keeps (sep h ws a0) (GetExperiment_h ws q)" "keeps (sep h ws a0) (GetExperimentByName_h ws q)"
      "keeps (sep h ws a0) (SearchExperiments_h up ws q tok b2)"
    unfolding GetExperiment_h_def GetExperimentByName_h_def SearchExperiments_h_def Let_def by (intro keeps_bnd keeps_require keeps_ret sep_intros)+
  show "keeps (sep h ws a0) (set_experiment_stage ws st b3)" "keeps (sep h ws a0) (UpdateExperiment_h ws b4)" "keeps (sep h ws a0) (SetExperimentTag_h ws b5)"
    unfolding set_experiment_stage_def UpdateExperiment_h_def SetExperimentTag_h_def
    by (rule guarded_experiment keeps_bnd keeps_require sep_intros sep_call safe_intros | assumption)+
qed

lemma sep_parseAsOf [sep_intros]: "keeps (sep h ws a0) (parseAsOf q)"
  unfolding parseAsOf_def by (intro keeps_if keeps_bnd keeps_ret keeps_require sep_intros)

lemma sep_collect [sep_intros]: "keeps (sep h ws a0) (collectRunData rid t ts)" "keeps (sep h ws a0) (collectRunInputs rid)"
  unfolding collectRunData_def collectRunInputs_def by (intro keeps_if keeps_bnd keeps_ret sep_intros)+

lemma sep_scoped_ids [sep_intros]: "keeps (sep h ws a0) (scoped_ids w ss)"
  by (induction ss) (auto intro!: keeps_bnd keeps_ret sep_intros)

lemma sep_run_dtos [sep_intros]: "keeps (sep h ws a0) (run_dtos w t rs)"
  by (induction rs) (auto simp: found_run_def intro!: keeps_bnd keeps_ret keeps_if sep_intros)

lemma sep_run_reads:
  "keeps (sep h ws a0) (GetRun_h w q)" "keeps (sep h ws a0) (SearchRuns_h h' w q b)" "keeps (sep h ws a0) (GetMetricHistory_h w q')"
  unfolding GetRun_h_def SearchRuns_h_def GetMetricHistory_h_def ensureRunInWorkspace_def parse_count_def Let_def
  by (intro keeps_if keeps_bnd keeps_ret keeps_require sep_intros)+

lemma created_run:
  assumes "safe ws X s" and "CreateRun newID r0 s = (Inr run, t)"
  shows "\<not> foreign_run X (run_ID run)"
proof -
  obtain r s1 where f: "fill_run newID r0 s = (Inr r, s1)"
    and rest: "(if run_ParentRunID r = [] then bnd (map_err mapInsertErr (insert_runs (row_of_run r))) (\<lambda>_. ret r)
      else tx (bnd (map_err mapInsertErr (insert_runs (row_of_run r)))
        (\<lambda>_. bnd (map_err mapInsertErr (setParentRunID (run_ID r) (run_ParentRunID r))) (\<lambda>_. ret r)))) s1 = (Inr run, t)"
    using assms(2) unfolding CreateRun_def by (rule bnd_okE)
  have "keeps (safe ws X) (fill_run newID r0)" unfolding fill_run_def by (intro keeps_Let keeps_bnd keeps_if keeps_ret safe_intros)
  then have s1: "safe ws X s1" using assms(1) f by (rule keepsD2)
  have "run = r \<and> (\<exists>u v. map_err mapInsertErr (insert_runs (row_of_run r)) s1 = (Inr u, v))"
    using rest by (auto simp: sem_simps split: if_splits prod.splits sum.splits)
  then obtain u v where "run = r" and "map_err mapInsertErr (insert_runs (row_of_run r)) s1 = (Inr u, v)" by blast
  with new_run_id [OF s1, of "row_of_run r"] show ?thesis by (simp add: row_of_run_def)
qed

lemma sep_CreateRun_h:
  assumes "ws \<noteq> []" shows "keeps (sep h ws a0) (CreateRun_h h' newID ws body)"
proof -
  have rest: "keeps (sep h ws a0) (bnd (call (CreateRun newID r)) f)"
    if "\<not> foreign_experiment (elsewhere ws (hk_db a0)) (run_ExperimentID r)"
      and "\<And>run. \<not> foreign_run (elsewhere ws (hk_db a0)) (run_ID run) \<Longrightarrow> keeps (sep h ws a0) (f run)" for r f
  proof (rule keeps_bnd_result [where R = "\<lambda>run. \<not> foreign_run (elsewhere ws (hk_db a0)) (run_ID run)"])
    show "keeps (sep h ws a0) (call (CreateRun newID r))" by (intro sep_call safe_CreateRun that(1))
    show "\<not> foreign_run (elsewhere ws (hk_db a0)) (run_ID run)" if "sep h ws a0 a" and "call (CreateRun newID r) a = (Inr run, b)" for a run b
      using that(2) created_run [OF sep_safe [OF that(1)]] by (auto simp: call_ok)
  qed (rule that(2))
  show ?thesis unfolding CreateRun_h_def
    by (rule guarded_experiment rest keeps_bnd keeps_require keeps_ret keeps_for_each sep_intros sep_call safe_intros assms | assumption | simp)+
qed

lemma sep_run_writes:
  assumes "ws \<noteq> []"
  shows "keeps (sep h ws a0) (UpdateRun_h h' ws b1)" "keeps (sep h ws a0) (set_run_stage ws st b2)" "keeps (sep h ws a0) (LogMetric_h ws b3)"
    "keeps (sep h ws a0) (LogParameter_h ws b4)" "keeps (sep h ws a0) (LogBatch_h ws b5)" "keeps (sep h ws a0) (SetTag_h ws b6)"
    "keeps (sep h ws a0) (DeleteTag_h ws b7)"
  unfolding UpdateRun_h_def set_run_stage_def LogMetric_h_def LogParameter_h_def LogBatch_h_def SetTag_h_def DeleteTag_h_def LogMetric_def Let_def
  by (rule guarded_run [OF assms] keeps_if keeps_bnd keeps_require keeps_ret keeps_for_each sep_intros sep_call safe_intros assms | assumption)+

lemma ensure_unchanged: "ensureRunInWorkspace ws rid a = (r, b) \<Longrightarrow> b = a"
  by (auto simp: ensureRunInWorkspace_def call_def on_db_def GetRunInWorkspace_def getRunInWorkspace_def sem_simps split: option.splits)

lemma sep_LogInputs_h:
  assumes "ws \<noteq> []" and "\<not> ha_v03 h'" shows "keeps (sep h ws a0) (LogInputs_h h' ws body)"
proof -
  have "keeps (sep h ws a0) (bnd (ensureRunInWorkspace ws rid) (\<lambda>_. call (LogInputs False rid inputs)))" for rid inputs
  proof (rule keepsI)
    fix a assume s: "sep h ws a0 a"
    show "sep h ws a0 (snd (bnd (ensureRunInWorkspace ws rid) (\<lambda>_. call (LogInputs False rid inputs)) a))"
    proof (cases "ensureRunInWorkspace ws rid a")
      case (Pair r b)
      note b = ensure_unchanged [OF Pair]
      show ?thesis
      proof (cases r)
        case (Inl e)
        with Pair b s show ?thesis by (simp add: bnd_def)
      next
        case (Inr x)
        obtain run t where g: "GetRunInWorkspace rid ws (hk_db a) = (Inr run, t)"
          using Pair Inr by (auto simp: ensureRunInWorkspace_def call_ok elim!: bnd_okE)
        note guard = run_guard [OF sep_safe [OF s] assms(1) g]
        have ws: "default_ws ws = ws" using assms(1) by (simp add: default_ws_def)
        have "own_run ws (elsewhere ws (hk_db a0)) rid (snd (LogInputs False rid inputs (hk_db a)))"
          using keepsD [OF own_LogInputs [OF guard(1), of ws]] guard(2) sep_safe [OF s] by (simp add: ws own_run_def)
        then have "safe ws (elsewhere ws (hk_db a0)) (snd (LogInputs False rid inputs (hk_db a)))" by (simp add: own_run_def)
        from sep_db [OF s this] have "sep h ws a0 (snd (on_db (LogInputs False rid inputs) a))" by (simp add: on_db_snd)
        then show ?thesis using Pair Inr b by (simp add: bnd_def call_snd)
      qed
    qed
  qed
  then show ?thesis unfolding LogInputs_h_def using assms(2) by (intro keeps_bnd [OF sep_reads(3)] keeps_pair keeps_bnd [OF keeps_require]) simp
qed

lemma sep_registry:
  assumes "ws \<noteq> []"
  shows "keeps (sep h ws a0) (serve_registry up low ws rq)"
proof -
  have ws: "default_ws ws = ws" using assms by (simp add: default_ws_def)
  note writes = safe_CreateRegisteredModel safe_UpdateRegisteredModel safe_DeleteRegisteredModel safe_RenameRegisteredModel
    safe_SetRegisteredModelTag safe_DeleteRegisteredModelTag safe_CreateModelVersion safe_UpdateModelVersion safe_DeleteModelVersion
    safe_TransitionModelStage safe_SetModelVersionTag safe_DeleteModelVersionTag safe_SetModelAlias safe_DeleteModelAlias
  note writes = writes [of ws, unfolded ws]
  have reads: "keeps P (GetModelByAlias ws nm al)" "keeps P (GetLatestModelVersions ws nm sts)" for P nm al sts
    unfolding GetModelByAlias_def GetLatestModelVersions_def Let_def by (intro keeps_intros safe_intros)+
  show ?thesis
    by (cases rq; simp only: serve_registry.simps answering_def CreateRegisteredModel_h_def GetRegisteredModel_h_def RenameRegisteredModel_h_def
        UpdateRegisteredModel_h_def DeleteRegisteredModel_h_def SearchRegisteredModels_h_def GetLatestModelVersions_h_def SetRegisteredModelTag_h_def
        DeleteRegisteredModelTag_h_def SetModelAlias_h_def DeleteModelAlias_h_def GetModelByAlias_h_def CreateModelVersion_h_def GetModelVersion_h_def
        UpdateModelVersion_h_def DeleteModelVersion_h_def SearchModelVersions_h_def GetModelVersionDownloadURI_h_def TransitionModelStage_h_def
        SetModelVersionTag_h_def DeleteModelVersionTag_h_def version_args_def ensureRunInWorkspace_def Let_def)
      (intro keeps_bnd keeps_ret keeps_require keeps_if keeps_for_each sep_intros sep_call writes reads safe_GetRegisteredModel safe_GetModelVersion)+
qed

text \<open>Artifacts: an operation on one run does not reach the directory of another.\<close>

lemma other_run_dir:
  assumes "rid \<noteq> runID" and "prefix (run_dir cwd f rid) q"
  shows "\<not> prefix (run_dir cwd f runID) q" and "\<not> strict_prefix q (run_dir cwd f runID @ ys)"
proof -
  have "\<not> prefix (run_dir cwd f rid) (run_dir cwd f runID @ ys)" for ys using assms(1) by (auto simp: run_dir_def prefix_def)
  then show "\<not> strict_prefix q (run_dir cwd f runID @ ys)" using assms(2) by (meson prefix_order.trans strict_prefix_def)
  show "\<not> prefix (run_dir cwd f runID) q" using assms by (auto simp: run_dir_def prefix_def)
qed

lemma Upload_other:
  assumes "IsAbs cwd" and "fss_Root f \<noteq> []" and "run_id_ok runID" and "fs_ok d" and "Upload cwd f runID rel r n d = (res, d')"
    and "rid \<noteq> runID" and "prefix (run_dir cwd f rid) q"
  shows "fs_ok d'" and "map_of d' q = map_of d q"
proof -
  have "fs_ok d' \<and> map_of d' q = map_of d q"
  proof (cases "below rel = []")
    case True
    with assms(4,5) show ?thesis by (simp add: Upload_at [OF assms(1,2,3)])
  next
    case False
    let ?p = "artifact cwd f runID rel"
    have u: "upload_at ?p r n d = (res, d')" using assms(5) False by (simp add: Upload_at [OF assms(1,2,3)])
    note out = upload_at_outcome [OF assms(4) artifact_props(2) [OF assms(3)] u]
    have "q \<noteq> part_file ?p" "q \<noteq> ?p" "\<not> new_dir ?p d d' q"
      using other_run_dir [OF assms(6,7)] part_file_below [OF False] by (auto simp: artifact_def new_dir_def)
    with out(1) out(3) [of q] show ?thesis by blast
  qed
  then show "fs_ok d'" and "map_of d' q = map_of d q" by simp_all
qed

lemma Delete_other:
  assumes "IsAbs cwd" and "fss_Root f \<noteq> []" and "run_id_ok runID" and "fs_ok d" and "Delete cwd f runID rel d = (res, d')"
    and "rid \<noteq> runID" and "prefix (run_dir cwd f rid) q"
  shows "map_of d' q = map_of d q"
proof -
  have "\<not> prefix (artifact cwd f runID rel) q"
    using other_run_dir(1) [OF assms(6,7)] by (auto simp: artifact_def dest: append_prefixD)
  then show ?thesis using Delete_spec [OF assms(1,2,3), of rel d q] assms(5) by simp
qed

lemma fs_ok_RemoveAll:
  assumes "fs_ok d" and "p \<noteq> []" shows "fs_ok (RemoveAll p d)"
proof (rule fs_okI)
  show "distinct (map fst (RemoveAll p d))" using fs_okD(1) [OF assms(1)] by (auto simp: RemoveAll_def distinct_map intro: inj_on_subset)
  show "map_of (RemoveAll p d) [] = Some Dir" using fs_okD(2) [OF assms(1)] assms(2) by (simp add: map_of_RemoveAll)
  show "map_of (RemoveAll p d) (butlast q) = Some Dir" if "q \<noteq> []" "map_of (RemoveAll p d) q \<noteq> None" for q
  proof -
    have "\<not> prefix p q" "map_of d q \<noteq> None" using that(2) by (auto simp: map_of_RemoveAll split: if_splits)
    then show ?thesis using fs_okD(3) [OF assms(1) that(1)] by (auto simp: map_of_RemoveAll dest: prefix_order.trans [OF _ prefixeq_butlast])
  qed
qed

definition confined :: "Handler \<Rightarrow> string \<Rightarrow> (fs \<Rightarrow> (art_error + 'a) \<times> fs) \<Rightarrow> bool" where
  "confined h runID m \<longleftrightarrow> (\<forall>d r d'. fs_ok d \<longrightarrow> m d = (r, d') \<longrightarrow> fs_ok d' \<and>
     (\<forall>rid q. rid \<noteq> runID \<longrightarrow> prefix (run_dir (ha_cwd h) (ha_Artifacts h) rid) q \<longrightarrow> map_of d' q = map_of d q))"

lemma sep_artifact_call:
  assumes "confined h runID m" and "\<not> foreign_run (elsewhere ws (hk_db a0)) runID"
  shows "keeps (sep h ws a0) (artifact_call m)"
proof (rule keepsI)
  fix a assume s: "sep h ws a0 a"
  obtain r d where m: "m (api_fs a) = (r, d)" by (cases "m (api_fs a)")
  have ok: "fs_ok (api_fs a)" using s by (simp add: sep_def)
  have d: "fs_ok d" "\<And>rid q. rid \<noteq> runID \<Longrightarrow> prefix (run_dir (ha_cwd h) (ha_Artifacts h) rid) q \<Longrightarrow> map_of d q = map_of (api_fs a) q"
    using assms(1) ok m unfolding confined_def by blast+
  have "map_of d q = map_of (api_fs a0) q"
    if "foreign_run (elsewhere ws (hk_db a0)) rid" and "prefix (run_dir (ha_cwd h) (ha_Artifacts h) rid) q" for rid q
    using d(2) [of rid q] that assms(2) s unfolding sep_def by metis
  then have "sep h ws a0 (a\<lparr>api_fs := d\<rparr>)" using s d(1) by (simp add: sep_def)
  then show "sep h ws a0 (snd (artifact_call m a))" by (simp add: artifact_call_def m)
qed

lemma confined_reads: "confined h runID (\<lambda>d. (g d, d))"
  by (simp add: confined_def)

lemma confined_put:
  assumes "IsAbs (ha_cwd h)" and "fss_Root (ha_Artifacts h) \<noteq> []" and "run_id_ok runID"
  shows "confined h runID (put_artifact h runID rel body)"
  unfolding confined_def
proof (intro allI impI)
  fix d r d' assume d: "fs_ok d" and "put_artifact h runID rel body d = (r, d')"
  then obtain r' where u: "Upload (ha_cwd h) (ha_Artifacts h) runID rel (MaxBytesReader (maxArtifactSize h) body) (maxArtifactSize h) d = (r', d')"
    by (auto simp: put_artifact_def Let_def split: prod.splits sum.splits)
  note other = Upload_other [OF assms d u]
  have "(runID @ ''x'') \<noteq> runID" by simp
  from other(1) [OF this, of "run_dir (ha_cwd h) (ha_Artifacts h) (runID @ ''x'')"] other(2)
  show "fs_ok d' \<and> (\<forall>rid q. rid \<noteq> runID \<longrightarrow> prefix (run_dir (ha_cwd h) (ha_Artifacts h) rid) q \<longrightarrow> map_of d' q = map_of d q)" by simp
qed

lemma confined_delete:
  assumes "IsAbs (ha_cwd h)" and "fss_Root (ha_Artifacts h) \<noteq> []" and "run_id_ok runID"
  shows "confined h runID (Delete (ha_cwd h) (ha_Artifacts h) runID rel)"
  unfolding confined_def
proof (intro allI impI)
  fix d r d' assume d: "fs_ok d" and u: "Delete (ha_cwd h) (ha_Artifacts h) runID rel d = (r, d')"
  have "d' = d \<or> (\<exists>p. p \<noteq> [] \<and> d' = RemoveAll p d)"
    using u artifact_props [OF assms(3), of "ha_cwd h" "ha_Artifacts h" rel] parts_path_of [of "rev (artifact (ha_cwd h) (ha_Artifacts h) runID rel)"]
    by (auto simp: Delete_def absoluteFor_spec [OF assms] list_all_rev simp flip: artifact_def split: sum.splits)
  then have "fs_ok d'" using d fs_ok_RemoveAll by blast
  with Delete_other [OF assms d u]
  show "fs_ok d' \<and> (\<forall>rid q. rid \<noteq> runID \<longrightarrow> prefix (run_dir (ha_cwd h) (ha_Artifacts h) rid) q \<longrightarrow> map_of d' q = map_of d q)" by simp
qed

lemma sep_list_artifacts:
  "\<not> foreign_run (elsewhere ws (hk_db a0)) runID \<Longrightarrow> keeps (sep h ws a0) (list_artifacts h runID dir)"
  unfolding list_artifacts_def by (intro keeps_bnd keeps_ret sep_artifact_call [OF confined_reads])

lemma guarded_get:
  assumes "sep h ws a0 a0" and "ws \<noteq> []" and "\<forall>r\<in>set (runs (hk_db a0)). run_id_ok (r_id r)"
    and "\<And>run. run_id_ok rid \<Longrightarrow> \<not> foreign_run (elsewhere ws (hk_db a0)) rid \<Longrightarrow> keeps (sep h ws a0) (f run)"
  shows "sep h ws a0 (snd (bnd (call (GetRunInWorkspace rid ws)) f a0))"
proof (cases "GetRunInWorkspace rid ws (hk_db a0)")
  case (Pair r t)
  have t: "t = hk_db a0" using Pair by (auto simp: GetRunInWorkspace_def getRunInWorkspace_def sem_simps split: option.splits)
  show ?thesis
  proof (cases r)
    case (Inl e)
    with Pair t assms(1) show ?thesis by (simp add: bnd_def call_def on_db_def)
  next
    case (Inr run)
    have "rid \<in> r_id ` set (runs (hk_db a0))"
      using Pair Inr by (auto simp: GetRunInWorkspace_def getRunInWorkspace_def sem_simps dest: first_row_Some split: option.splits)
    then have "run_id_ok rid" using assms(3) by auto
    moreover have "\<not> foreign_run (elsewhere ws (hk_db a0)) rid" using Pair Inr by (intro run_guard(1) [OF sep_safe [OF assms(1)] assms(2)]) simp
    ultimately show ?thesis using assms(1,4) Pair Inr t by (simp add: bnd_def call_def on_db_def keepsD)
  qed
qed

lemma sep_artifacts:
  assumes "sep h ws a0 a0" and "ws \<noteq> []" and "\<forall>r\<in>set (runs (hk_db a0)). run_id_ok (r_id r)"
    and "IsAbs (ha_cwd h)" and "fss_Root (ha_Artifacts h) \<noteq> []"
  shows "sep h ws a0 (snd (ListArtifacts_h h ws q a0))" and "sep h ws a0 (snd (artifactsRouter h ws meth p q body a0))"
proof -
  note get = guarded_get [OF assms(1,2,3)]
  have req: "sep h ws a0 (snd (bnd (require c e) f a0))" if "sep h ws a0 (snd (f () a0))" for c e and f :: "unit \<Rightarrow> 'x handler"
    using that assms(1) by (simp add: sem_simps)
  show "sep h ws a0 (snd (ListArtifacts_h h ws q a0))"
    unfolding ListArtifacts_h_def Let_def by (intro req get keeps_bnd keeps_ret sep_list_artifacts)
  have proxied: "sep h ws a0 (snd (bnd (require (runID \<noteq> []) bad_request) (\<lambda>_. bnd (call (GetRunInWorkspace runID ws)) (\<lambda>_.
      bnd (list_artifacts h runID rel) (\<lambda>files. ret (ArtifactFiles files)))) a0))" for runID rel
    by (intro req get keeps_bnd keeps_ret sep_list_artifacts)
  have direct: "sep h ws a0 (snd (bnd (call (GetRunInWorkspace runID ws)) (\<lambda>_.
        if meth = ''GET'' then
          bnd (artifact_call (\<lambda>d. (Open (ha_cwd h) (ha_Artifacts h) runID rel d, d))) (\<lambda>(c, n). ret (ArtifactBytes c n))
        else if meth = ''PUT'' then bnd (artifact_call (put_artifact h runID rel body)) (\<lambda>_. ret ArtifactDone)
        else if meth = ''DELETE'' then
          bnd (artifact_call (Delete (ha_cwd h) (ha_Artifacts h) runID rel)) (\<lambda>_. ret ArtifactDone)
        else throw (HttpError 405 ''INVALID_PARAMETER_VALUE'')) a0))" for runID rel
    by (intro get keeps_if keeps_bnd keeps_ret keeps_throw keeps_pair sep_artifact_call confined_reads)
      (auto intro: confined_put [OF assms(4,5)] confined_delete [OF assms(4,5)])
  show "sep h ws a0 (snd (artifactsRouter h ws meth p q body a0))"
    using proxied direct assms(1) by (auto simp: artifactsRouter_def throw_def split: prod.split option.split)
qed

lemma answering_snd: "snd (answering f m a) = snd (m a)"
  by (simp add: answering_def bnd_def ret_def split: prod.split sum.split)

lemma sep_after: "keeps (sep h ws a0) m \<Longrightarrow> sep h ws a0 a0 \<Longrightarrow> sep h ws a0 (snd (m a0))"
  by (rule keepsD)

lemma sep_serve_run:
  assumes "sep h ws a0 a0" and "ws \<noteq> []" and "\<forall>r\<in>set (runs (hk_db a0)). run_id_ok (r_id r)"
    and "IsAbs (ha_cwd h)" and "fss_Root (ha_Artifacts h) \<noteq> []" and "\<not> ha_v03 h"
  shows "sep h ws a0 (snd (serve_run h ws rq a0))"
  by (cases rq; simp only: serve_run.simps answering_snd DeleteExperiment_h_def RestoreExperiment_h_def DeleteRun_h_def RestoreRun_h_def;
      intro sep_artifacts [OF assms(1-5)] sep_after [OF _ assms(1)] sep_experiments [OF assms(2)] sep_run_reads sep_CreateRun_h [OF assms(2)]
        sep_run_writes [OF assms(2)] sep_LogInputs_h [OF assms(2,6)])

lemma currentWorkspace_nonempty: "currentWorkspace header \<noteq> []"
  by (simp add: currentWorkspace_def)


text \<open>Two tenants: the runs "r1" and "r2" of the workspace "default" and the run "rb" of the workspace "team-b".\<close>

definition two_tenants :: db where
  "two_tenants = sample_db\<lparr>
     workspaces := workspaces sample_db @ [\<lparr>w_id = ''team-b'', w_name = ''B'', w_description = None, w_creation_time = 50, w_last_update_time = 50\<rparr>],
     experiments := experiments sample_db @ [\<lparr>e_id = 2, e_name = ''exp'', e_artifact_location = ''mlflow-artifacts:/2'',
       e_lifecycle_stage = ''active'', e_creation_time = 60, e_last_update_time = 60, e_workspace_id = ''team-b''\<rparr>],
     experiments_seq := 2,
     runs := runs sample_db @ [(sample_run ''rb'' None)\<lparr>r_experiment_id := 2\<rparr>]\<rparr>"

definition two_tenants_api :: api where
  "two_tenants_api = \<lparr>hk_db = two_tenants, hk_queue = [], hk_dropped = 0, hk_stopped = False, hk_echo = None, hk_sent = [], api_fs = [([], Dir)]\<rparr>"

definition sample_handler :: Handler where
  "sample_handler = \<lparr>ha_Artifacts = sample_store, ha_cwd = ''/srv'', ha_Dispatcher = True, ha_MaxArtifactSize = 0, ha_engine = plain_engine, ha_v03 = False\<rparr>"

definition team_b :: "string \<Rightarrow> string" where
  "team_b k = (if k = ''X-LiteMLflow-Workspace'' then ''team-b'' else [])"

lemma db_ok_two_tenants: "db_ok two_tenants"
  by (simp add: two_tenants_def db_ok_def table_ok_defs sample_defs pk_def fk_def fk_null_def Schema.below_def chk_def keys_def
      run_check_def run_statuses_def run_stages_def run_kinds_def status_defs lifecycle_defs kind_defs)

definition tag_own_run :: request where
  "tag_own_run = RunRequest (ReqSetTag (Some (''rb'', [], \<lparr>kv_Key = ''team'', kv_Value = ''b''\<rparr>)))"


section \<open>Foreign runs look like missing ones\<close>

text \<open>The run that a request is about. A body that is refused names none; the listing and the artifact routes have it in their paths.\<close>

definition addressed :: "run_request \<Rightarrow> string option" where
  "addressed rq = (case rq of
     ReqGetRun q \<Rightarrow> Some (run_id_of q)
   | ReqUpdateRun (Some b) \<Rightarrow> Some (or_default [] (ur_RunUUID b) (ur_RunID b))
   | ReqDeleteRun (Some rid) \<Rightarrow> Some rid
   | ReqRestoreRun (Some rid) \<Rightarrow> Some rid
   | ReqLogMetric (Some (rid, uuid, m)) \<Rightarrow> Some (or_default [] uuid rid)
   | ReqLogParameter (Some (rid, uuid, p)) \<Rightarrow> Some (or_default [] uuid rid)
   | ReqLogBatch (Some b) \<Rightarrow> Some (lb_RunID b)
   | ReqSetTag (Some (rid, uuid, t)) \<Rightarrow> Some (or_default [] uuid rid)
   | ReqDeleteTag (Some (rid, k)) \<Rightarrow> Some rid
   | ReqLogInputs (Some (rid, ds)) \<Rightarrow> Some rid
   | ReqGetMetricHistory q \<Rightarrow> Some (run_id_of q)
   | ReqListArtifacts q \<Rightarrow> Some (run_id_of q)
   | ReqArtifact meth p q body \<Rightarrow>
       if meth = ''GET'' \<and> TrimPrefix p ''/'' = [] then Some (fst (splitQueryPath (q ''path'')))
       else map_option fst (splitArtifactPath p)
   | _ \<Rightarrow> None)"

definition not_found :: http_error where
  "not_found = HttpError 404 ''RESOURCE_DOES_NOT_EXIST''"

text \<open>The state apart from the position of the clock.\<close>

definition unclocked :: "api \<Rightarrow> api" where
  "unclocked a = a\<lparr>hk_db := (hk_db a)\<lparr>clock_pos := 0\<rparr>\<rparr>"

definition refused :: "'a handler \<Rightarrow> api \<Rightarrow> bool" where
  "refused m a \<longleftrightarrow> fst (m a) \<in> {Inl bad_request, Inl not_found} \<and> unclocked (snd (m a)) = unclocked a"

definition no_run_in :: "string \<Rightarrow> string \<Rightarrow> db \<Rightarrow> bool" where
  "no_run_in ws rid s \<longleftrightarrow> (\<forall>r\<in>set (runs s). r_id r = rid \<longrightarrow> \<not> in_workspace ws s r)"

lemma no_run_unclocked: "no_run_in ws rid (s\<lparr>clock_pos := n\<rparr>) = no_run_in ws rid s"
  by (simp add: no_run_in_def in_workspace_def)

lemma GetRun_hidden: "no_run_in ws rid s \<Longrightarrow> getRunInWorkspace rid ws s = (Inl err.ErrNotFound, s)"
  by (auto simp: getRunInWorkspace_def no_run_in_def sem_simps first_row_None split: option.split dest: first_row_Some)

lemma refused_get:
  assumes "ws \<noteq> []" and "no_run_in ws rid (hk_db a)"
  shows "refused (bnd (call (GetRunInWorkspace rid ws)) f) a" and "refused (bnd (ensureRunInWorkspace ws rid) g) a"
    and "refused (bnd (call (GetRunAsOfInWorkspace rid ws t)) k) a"
proof -
  have ws: "default_ws ws = ws" using assms(1) by (simp add: default_ws_def)
  note hidden = GetRun_hidden [OF assms(2)]
  show "refused (bnd (call (GetRunInWorkspace rid ws)) f) a" and "refused (bnd (ensureRunInWorkspace ws rid) g) a"
    and "refused (bnd (call (GetRunAsOfInWorkspace rid ws t)) k) a"
    using assms(1) by (simp_all add: refused_def ensureRunInWorkspace_def GetRunInWorkspace_def GetRunAsOfInWorkspace_def getRunAsOfImpl_def ws hidden
      bnd_def call_def on_db_def writeStoreErr_def not_found_def)
qed

lemma refused_steps:
  "refused (f r) a \<Longrightarrow> refused (bnd (decodeJSON (Some r)) f) a"
  "refused (g ()) a \<Longrightarrow> refused (bnd (require c bad_request) g) a"
  "refused m a \<Longrightarrow> refused (answering k m) a"
  by (auto simp: refused_def decodeJSON_def answering_def sem_simps split: prod.splits sum.splits)

lemma refused_asOf:
  assumes "\<And>t b. unclocked b = unclocked a \<Longrightarrow> refused (f t) b"
  shows "refused (bnd (parseAsOf q) f) a"
proof -
  have "unclocked (a\<lparr>hk_db := (hk_db a)\<lparr>clock_pos := n\<rparr>\<rparr>) = unclocked a" for n by (simp add: unclocked_def)
  note step = assms [OF this] assms [OF refl]
  show ?thesis using step unfolding refused_def
    by (auto simp: parseAsOf_def parse_id_def sem_simps call_def on_db_def unclocked_def split: option.splits prod.splits sum.splits)
qed

lemma refused_bnd: "refused m a \<Longrightarrow> refused (bnd m f) a"
  by (auto simp: refused_def bnd_def split: prod.splits sum.splits)

lemma refused_GetRun:
  assumes "ws \<noteq> []" and "no_run_in ws (run_id_of q) (hk_db a)"
  shows "refused (GetRun_h ws q) a"
  unfolding GetRun_h_def Let_def
proof (intro refused_steps refused_asOf)
  fix t b assume b: "unclocked b = unclocked a"
  have "runs (hk_db b) = runs (hk_db a)" "experiments (hk_db b) = experiments (hk_db a)"
    using arg_cong [OF b, of "\<lambda>a. runs (hk_db a)"] arg_cong [OF b, of "\<lambda>a. experiments (hk_db a)"] by (simp_all add: unclocked_def)
  then have "no_run_in ws (run_id_of q) (hk_db b)" using assms(2) by (simp add: no_run_in_def in_workspace_def)
  note get = refused_get [OF assms(1) this]
  have "refused (call (GetRunAsOfInWorkspace (run_id_of q) ws t)) b" using get(3) [of t ret] by (auto simp: refused_def bnd_def ret_def split: prod.splits sum.splits)
  then show "refused (bnd (if 0 < t then call (GetRunAsOfInWorkspace (run_id_of q) ws t)
      else bnd (call (GetRunInWorkspace (run_id_of q) ws)) (\<lambda>run. ret (run, []))) (\<lambda>(run, ts). bnd (collectRunData (run_id_of q) t ts)
      (\<lambda>d. bnd (collectRunInputs (run_id_of q)) (\<lambda>inputs. ret \<lparr>rn_Info = runInfoToDTO run, rn_Data = d, rn_Inputs = inputs\<rparr>)))) b"
    by (cases "0 < t") (auto intro!: refused_bnd get(1))
qed

lemma refused_router:
  assumes "ws \<noteq> []" and "no_run_in ws rid (hk_db a)" and "addressed (ReqArtifact meth p q body) = Some rid"
  shows "refused (artifactsRouter h ws meth p q body) a"
proof (cases "meth = ''GET'' \<and> TrimPrefix p ''/'' = []")
  case True
  obtain rel where "splitQueryPath (q ''path'') = (rid, rel)" using assms(3) True by (cases "splitQueryPath (q ''path'')") (simp add: addressed_def)
  then show ?thesis using True by (auto simp: artifactsRouter_def intro!: refused_steps(2) refused_get(1) [OF assms(1,2)])
next
  case False
  obtain rel where "splitArtifactPath p = Some (rid, rel)" using assms(3) False by (auto simp: addressed_def)
  then show ?thesis using False by (simp only: artifactsRouter_def if_False option.case prod.case) (rule refused_get(1) [OF assms(1,2)])
qed

text \<open>
  C3. A run of another workspace looks like a run that does not exist. A request about a run id that has no run in the workspace of the
  request is refused with status 404, or with 400 when its other arguments are malformed, and changes nothing; the answer is an
  error in both cases, whether some other workspace has a run of that id or not.
\<close>

theorem foreign_run_refused:
  assumes "addressed rq = Some rid" and "no_run_in (currentWorkspace header) rid (hk_db a)"
  shows "refused (serve h low header (RunRequest rq)) a"
proof -
  note ws = currentWorkspace_nonempty [of header]
  show ?thesis
  proof (cases "\<exists>meth p q body. rq = ReqArtifact meth p q body")
    case True
    then show ?thesis using assms refused_router [OF ws assms(2)] by (auto intro!: refused_steps(3))
  next
    case False
    with assms show ?thesis
      by (cases rq) (auto simp: addressed_def UpdateRun_h_def DeleteRun_h_def RestoreRun_h_def set_run_stage_def LogMetric_h_def LogParameter_h_def
        LogBatch_h_def SetTag_h_def DeleteTag_h_def LogInputs_h_def GetMetricHistory_h_def ListArtifacts_h_def Let_def
        intro!: refused_steps refused_GetRun [OF ws] refused_get [OF ws] split: option.splits)
  qed
qed

theorem foreign_run_refused_witness:
  "refused (serve sample_handler (\<lambda>r. r) team_b (RunRequest (ReqDeleteRun (Some ''r1'')))) two_tenants_api"
proof -
  have "no_run_in (currentWorkspace team_b) ''r1'' (hk_db two_tenants_api)" by code_simp
  then show ?thesis by (intro foreign_run_refused) (simp_all add: addressed_def)
qed

section \<open>Where workspaces do touch\<close>

text \<open>
  A parent tag is checked against all runs, so the answer tells whether a run id exists in some other workspace; and when it does, the
  own run becomes its child.
\<close>

definition parent_tag :: "string \<Rightarrow> (string \<times> string \<times> KV) option" where
  "parent_tag p = Some (''rb'', [], \<lparr>kv_Key = ''mlflow.parentRunId'', kv_Value = p\<rparr>)"

lemma parent_tag_tells:
  "fst (SetTag_h ''team-b'' (parent_tag ''r1'') two_tenants_api) = Inr ()"
  "fst (SetTag_h ''team-b'' (parent_tag ''missing'') two_tenants_api) = Inl not_found"
  by code_simp+

text \<open>
  The metadata of a dataset is shared by name and digest: once some run, of whatever workspace, has logged an input with a source, every
  run that has an input of that name and digest shows this source.
\<close>

interpretation dataset_meta: keyed dm_pk dm_upd
  by unfold_locales (simp add: dm_upd_def)

lemma dataset_source_shared:
  assumes "db_ok s" and "has_key r_id rid (runs s)" and "ds_Source (dsi_Dataset inp) \<noteq> []"
  shows "\<exists>t. LogInputs False rid [inp] s = (Inr (), t) \<and>
    (\<forall>ts. ds_Source (dsi_Dataset (input_of t (ds_Name (dsi_Dataset inp)) (ds_Digest (dsi_Dataset inp)) ts)) = ds_Source (dsi_Dataset inp))"
proof -
  obtain i n q es where l: "link_input rid inp s = (Inr (), after_link rid inp i n q es s)" using link_input_ok [OF assms(1,2)] by blast
  let ?t = "after_link rid inp i n q es s"
  let ?m = "\<lparr>dm_name = ds_Name (dsi_Dataset inp), dm_digest = ds_Digest (dsi_Dataset inp), dm_source_type = nilIfEmpty (ds_SourceType (dsi_Dataset inp)),
    dm_source = nilIfEmpty (ds_Source (dsi_Dataset inp)), dm_schema = nilIfEmpty (ds_Schema (dsi_Dataset inp)),
    dm_profile = nilIfEmpty (ds_Profile (dsi_Dataset inp))\<rparr>"
  have "LogInputs False rid [inp] s = (Inr (), ?t)" by (intro LogInputs_run assms(2)) (simp add: log_input_def l sem_simps)
  moreover obtain m where "dataset_meta.look (dm_pk ?m) (datasets ?t) = Some m" and "dm_source m = Some (ds_Source (dsi_Dataset inp))"
    using dataset_meta.look_upsert_same [of ?m "datasets s"] assms(3) by (auto simp: after_link_def dm_upd_def nilIfEmpty_def split: option.splits)
  ultimately show ?thesis by (auto simp: input_of_def dataset_meta.look_def)
qed

end
