(* ===== verification/NativeApi.thy ===== *)
theory NativeApi
  imports MlflowApi Workspaces Sessions Prompts Traces Cas Analytics Access
begin

text \<open>
  The handlers of the native REST API for notes, traces, OpenTelemetry spans, prompts, evals, analytics and sign-in
  (\<open>internal/api/native/handlers.go\<close>), behind the middlewares and in the style of \<open>MlflowApi\<close>: a handler gets the workspace of the
  request, its path and query parameters and its decoded body. The JSON codec for attributes and events, the identity provider and
  the random ids are arguments. Workspaces, webhooks, lineage, dashboards and datasets are in \<open>NativeResources\<close>, search and federation
  in \<open>NativeFederation\<close>.
\<close>

section \<open>The handler and its helpers\<close>

text \<open>The \<open>Handler\<close> struct: the configuration, whether there is a session store, and the content-addressed store of datasets.\<close>

record NativeHandler =
  nh_Cfg :: config
  nh_SessionTTL :: int
  nh_FederationName :: string
  nh_SessionStore :: bool
  nh_Datasets :: "CAS option"
  nh_cwd :: string
  nh_bcrypt :: "string \<Rightarrow> string \<Rightarrow> bool"
  nh_up :: "nat \<Rightarrow> nat"
  nh_low :: "nat \<Rightarrow> nat"

definition missing_field :: http_error where
  "missing_field = HttpError 400 ''MISSING_REQUIRED_FIELD''"

definition internal_error :: http_error where
  "internal_error = HttpError 500 ''INTERNAL_ERROR''"

definition too_large :: http_error where
  "too_large = HttpError 413 ''PAYLOAD_TOO_LARGE''"

text \<open>A store call whose errors are all answered in one way.\<close>

definition call_as :: "http_error \<Rightarrow> 'a op \<Rightarrow> 'a handler" where
  "call_as e m a = (case on_db m a of (Inl _, b) \<Rightarrow> (Inl e, b) | (Inr x, b) \<Rightarrow> (Inr x, b))"

text \<open>A store call whose error leaves a default behind.\<close>

definition call_or :: "'a \<Rightarrow> 'a op \<Rightarrow> 'a handler" where
  "call_or d m a = (case on_db m a of (Inl _, b) \<Rightarrow> (Inr d, b) | (Inr x, b) \<Rightarrow> (Inr x, b))"

text \<open>\<open>jsonOrEmpty\<close> on what \<open>json.Marshal\<close> returned.\<close>

definition jsonOrEmpty :: "string option \<Rightarrow> string" where
  "jsonOrEmpty b = (case b of None \<Rightarrow> [] | Some s \<Rightarrow> if s = ''null'' \<or> s = ''{}'' \<or> s = ''[]'' then [] else s)"

definition nameParam :: "string \<Rightarrow> string \<Rightarrow> string" where
  "nameParam rawPath name =
     (if rawPath = [] then name else case PathUnescape name of Some d \<Rightarrow> d | None \<Rightarrow> name)"

definition sameWorkspace :: "string \<Rightarrow> string \<Rightarrow> bool" where
  "sameWorkspace stored current \<longleftrightarrow> (if stored = [] then ''default'' else stored) = current"

text \<open>What the next call of \<open>time.Now\<close> will return.\<close>

definition peek_clock :: "int handler" where
  "peek_clock = read_db (\<lambda>s. clock s (clock_pos s))"

section \<open>Projects, analytics and notes\<close>

definition ListProjects_n :: "string \<Rightarrow> (string \<times> nat) list handler" where
  "ListProjects_n ws = read_db (ListProjects ws)"

text \<open>The workspace in the body is overwritten; errors of the validation are answered with 400.\<close>

definition AnalyticsQuery_n :: "string \<Rightarrow> AnalyticsQuery option \<Rightarrow> (AnalyticsRow list \<times> nat) handler" where
  "AnalyticsQuery_n ws body =
     bnd (decodeJSON body) (\<lambda>q a.
       (case AnalyticsQuery_exec (q\<lparr>aq_WorkspaceID := ws\<rparr>) (hk_db a) of
          Inl e \<Rightarrow> (Inl (if e = ErrOther ''validate'' then bad_request else writeStoreErr e), a)
        | Inr res \<Rightarrow> (Inr res, a)))"

datatype note_answer = Note string string int | NoteDeleted | NoteSaved

definition GetRunNote_n :: "string \<Rightarrow> string \<Rightarrow> note_answer handler" where
  "GetRunNote_n ws runID =
     bnd (ensureRunInWorkspace ws runID) (\<lambda>_.
     bnd (call (GetRunNote runID)) (\<lambda>(content, by_user, t). ret (Note content by_user t)))"

definition SetRunNote_n :: "string \<Rightarrow> string \<Rightarrow> string \<Rightarrow> string option \<Rightarrow> note_answer handler" where
  "SetRunNote_n ws user runID body =
     bnd (ensureRunInWorkspace ws runID) (\<lambda>_.
     bnd (decodeJSON body) (\<lambda>content.
     bnd (call (SetRunNote runID content user)) (\<lambda>_.
     if content = [] then ret NoteDeleted
     else bnd (call_or None (bnd (GetRunNote runID) (\<lambda>x. ret (Some x)))) (\<lambda>r.
       case r of None \<Rightarrow> ret NoteSaved | Some (c, by_user, t) \<Rightarrow> ret (Note c by_user t)))))"

section \<open>Traces\<close>

record ('a, 'e) spanDTO =
  sd_ID :: string
  sd_TraceID :: string
  sd_ParentID :: string
  sd_RunID :: string
  sd_Name :: string
  sd_Kind :: string
  sd_StartTimeNS :: int
  sd_EndTimeNS :: "int option"
  sd_Attributes :: 'a
  sd_Events :: 'e
  sd_StatusCode :: string
  sd_StatusMessage :: string

text \<open>The codec: \<open>json.Marshal\<close> and \<open>json.Unmarshal\<close> for attributes and events; empty text decodes to the missing value.\<close>

record ('a, 'e) span_codec =
  sc_attr :: "'a \<Rightarrow> string option"
  sc_events :: "'e \<Rightarrow> string option"
  sc_un_attr :: "string \<Rightarrow> 'a"
  sc_un_events :: "string \<Rightarrow> 'e"

fun ensureSpanRuns :: "string \<Rightarrow> string set \<Rightarrow> Span list \<Rightarrow> unit handler" where
  "ensureSpanRuns ws seen [] = ret ()"
| "ensureSpanRuns ws seen (sp # spans) =
     (if sp_RunID sp = [] \<or> sp_RunID sp \<in> seen then ensureSpanRuns ws seen spans
      else bnd (ensureRunInWorkspace ws (sp_RunID sp)) (\<lambda>_. ensureSpanRuns ws (insert (sp_RunID sp) seen) spans))"

definition ensureSpanRunsInWorkspace :: "string \<Rightarrow> Span list \<Rightarrow> unit handler" where
  "ensureSpanRunsInWorkspace ws spans = ensureSpanRuns ws {} spans"

definition span_of_dto :: "('a, 'e) span_codec \<Rightarrow> string \<Rightarrow> ('a, 'e) spanDTO \<Rightarrow> Span" where
  "span_of_dto cd reqTrace s = \<lparr>
     sp_ID = sd_ID s, sp_TraceID = (if sd_TraceID s = [] then reqTrace else sd_TraceID s), sp_ParentID = sd_ParentID s,
     sp_RunID = sd_RunID s, sp_Name = sd_Name s, sp_Kind = sd_Kind s, sp_StartTimeNS = sd_StartTimeNS s, sp_EndTimeNS = sd_EndTimeNS s,
     sp_AttributesJSON = jsonOrEmpty (sc_attr cd (sd_Attributes s)), sp_EventsJSON = jsonOrEmpty (sc_events cd (sd_Events s)),
     sp_StatusCode = sd_StatusCode s, sp_StatusMessage = sd_StatusMessage s\<rparr>"

text \<open>\<open>newTrace\<close> is the id that \<open>NewTraceID\<close> draws, \<open>rnd\<close> the random material for missing span ids.\<close>

definition IngestTraces_n ::
    "('a, 'e) span_codec \<Rightarrow> (nat \<Rightarrow> 8 word list option \<times> 64 word) \<Rightarrow> string \<Rightarrow> string \<Rightarrow> (string \<times> ('a, 'e) spanDTO list) option \<Rightarrow>
      (string \<times> nat) handler" where
  "IngestTraces_n cd rnd newTrace ws body =
     bnd (decodeJSON body) (\<lambda>(traceID, dtos).
     bnd (require (dtos \<noteq> []) missing_field) (\<lambda>_.
     let trace = (if traceID = [] then newTrace else traceID);
         spans = map (span_of_dto cd trace) dtos
     in bnd (ensureSpanRunsInWorkspace ws spans) (\<lambda>_.
        bnd (call (InsertSpans rnd spans)) (\<lambda>_. ret (trace, length spans)))))"

definition spanToDTO :: "('a, 'e) span_codec \<Rightarrow> Span \<Rightarrow> ('a, 'e) spanDTO" where
  "spanToDTO cd s = \<lparr>
     sd_ID = sp_ID s, sd_TraceID = sp_TraceID s, sd_ParentID = sp_ParentID s, sd_RunID = sp_RunID s, sd_Name = sp_Name s,
     sd_Kind = sp_Kind s, sd_StartTimeNS = sp_StartTimeNS s, sd_EndTimeNS = sp_EndTimeNS s,
     sd_Attributes = sc_un_attr cd (sp_AttributesJSON s), sd_Events = sc_un_events cd (sp_EventsJSON s),
     sd_StatusCode = sp_StatusCode s, sd_StatusMessage = sp_StatusMessage s\<rparr>"

definition spansSlice :: "('a, 'e) span_codec \<Rightarrow> Span list \<Rightarrow> ('a, 'e) spanDTO list" where
  "spansSlice cd spans = map (spanToDTO cd) spans"

definition GetRunTraces_n :: "('a, 'e) span_codec \<Rightarrow> string \<Rightarrow> string \<Rightarrow> ('a, 'e) spanDTO list handler" where
  "GetRunTraces_n cd ws runID =
     bnd (ensureRunInWorkspace ws runID) (\<lambda>_.
     bnd (read_db (GetSpansByRun runID)) (\<lambda>spans. ret (spansSlice cd spans)))"

record ('a, 'e) run_bundle =
  rb_Run :: Run
  rb_Metrics :: "Metric list"
  rb_Params :: "Param list"
  rb_Tags :: "KV list"
  rb_Spans :: "('a, 'e) spanDTO list"

text \<open>The time of \<open>as_of\<close> has to be positive; unlike in the MLflow API it may lie in the future.\<close>

definition GetRunData_n :: "('a, 'e) span_codec \<Rightarrow> string \<Rightarrow> string \<Rightarrow> (string \<Rightarrow> string) \<Rightarrow> ('a, 'e) run_bundle handler" where
  "GetRunData_n cd ws runID q =
     bnd (if q ''as_of'' = [] then ret 0
          else bnd (parse_id (q ''as_of'')) (\<lambda>ts. bnd (require (0 < ts) bad_request) (\<lambda>_. ret ts))) (\<lambda>asOf.
     bnd (if 0 < asOf then call (GetRunAsOfInWorkspace runID ws asOf)
          else bnd (call (GetRunInWorkspace runID ws)) (\<lambda>run. ret (run, []))) (\<lambda>(run, asOfTags).
     bnd (collectRunData runID asOf asOfTags) (\<lambda>d.
     bnd (read_db (GetSpansByRun runID)) (\<lambda>spans.
     ret \<lparr>rb_Run = run, rb_Metrics = rd_Metrics d, rb_Params = rd_Params d, rb_Tags = rd_Tags d, rb_Spans = spansSlice cd spans\<rparr>))))"

section \<open>OpenTelemetry spans\<close>

text \<open>\<open>n, _ := strconv.ParseInt(s, 10, 64)\<close>: 0 on a syntax error, the nearest bound on a range error.\<close>

definition parseUnixNano :: "string \<Rightarrow> int" where
  "parseUnixNano s =
     (case ParseInt s of Some n \<Rightarrow> n
      | None \<Rightarrow>
          let (neg, ds) = (case s of [] \<Rightarrow> (False, [])
                | c # cs \<Rightarrow> if c = CHR ''-'' then (True, cs) else if c = CHR ''+'' then (False, cs) else (False, s))
          in if ds = [] \<or> \<not> list_all is_digit ds then 0 else if neg then - (2 ^ 63) else 2 ^ 63 - 1)"

definition parseUnixNanoPtr :: "string \<Rightarrow> int option" where
  "parseUnixNanoPtr s = (if s = [] \<or> s = ''0'' then None else Some (parseUnixNano s))"

record otlpKV =
  ok_Key :: string
  ok_StringValue :: string
  ok_IntValue :: string
  ok_DoubleValue :: f64
  ok_BoolValue :: "bool option"

datatype attr_value = AString string | AInt int | ABool bool | AFloat f64

definition otlp_value :: "otlpKV \<Rightarrow> attr_value" where
  "otlp_value kv =
     (if ok_StringValue kv \<noteq> [] then AString (ok_StringValue kv)
      else if ok_IntValue kv \<noteq> [] then AInt (parseUnixNano (ok_IntValue kv))
      else case ok_BoolValue kv of Some b \<Rightarrow> ABool b | None \<Rightarrow> AFloat (ok_DoubleValue kv))"

definition otlpAttrMap :: "otlpKV list \<Rightarrow> (string \<rightharpoonup> attr_value)" where
  "otlpAttrMap kvs = foldl (\<lambda>m kv. m(ok_Key kv \<mapsto> otlp_value kv)) Map.empty kvs"

definition otlpAttr :: "otlpKV list \<Rightarrow> string \<Rightarrow> string" where
  "otlpAttr kvs key =
     (case find (\<lambda>kv. ok_Key kv = key \<and> ok_StringValue kv \<noteq> []) kvs of None \<Rightarrow> [] | Some kv \<Rightarrow> ok_StringValue kv)"

definition otlpKindToString :: "int \<Rightarrow> string" where
  "otlpKindToString k =
     (if k = 1 then ''INTERNAL'' else if k = 2 then ''SERVER'' else if k = 3 then ''CLIENT''
      else if k = 4 then ''PRODUCER'' else if k = 5 then ''CONSUMER'' else [])"

definition otlpStatusToString :: "int \<Rightarrow> string" where
  "otlpStatusToString c = (if c = 1 then ''OK'' else if c = 2 then ''ERROR'' else ''UNSET'')"

record otlp_span =
  os_TraceID :: string
  os_SpanID :: string
  os_ParentSpanID :: string
  os_Name :: string
  os_Kind :: int
  os_StartTimeUnixNano :: string
  os_EndTimeUnixNano :: string
  os_Attributes :: "otlpKV list"
  os_StatusCode :: int
  os_StatusMessage :: string

record resource_spans =
  rsp_Attributes :: "otlpKV list"
  rsp_ScopeSpans :: "otlp_span list list"

definition span_of_otlp :: "((string \<rightharpoonup> attr_value) \<Rightarrow> string option) \<Rightarrow> string \<Rightarrow> otlp_span \<Rightarrow> Span" where
  "span_of_otlp marshal runID sp = \<lparr>
     sp_ID = os_SpanID sp, sp_TraceID = os_TraceID sp, sp_ParentID = os_ParentSpanID sp, sp_RunID = runID, sp_Name = os_Name sp,
     sp_Kind = otlpKindToString (os_Kind sp), sp_StartTimeNS = parseUnixNano (os_StartTimeUnixNano sp),
     sp_EndTimeNS = parseUnixNanoPtr (os_EndTimeUnixNano sp), sp_AttributesJSON = jsonOrEmpty (marshal (otlpAttrMap (os_Attributes sp))),
     sp_EventsJSON = [], sp_StatusCode = otlpStatusToString (os_StatusCode sp), sp_StatusMessage = os_StatusMessage sp\<rparr>"

definition otlp_spans :: "((string \<rightharpoonup> attr_value) \<Rightarrow> string option) \<Rightarrow> resource_spans list \<Rightarrow> Span list" where
  "otlp_spans marshal req =
     concat (map (\<lambda>rs. let runID = otlpAttr (rsp_Attributes rs) ''litemlflow.run_id''
        in map (span_of_otlp marshal runID) (concat (rsp_ScopeSpans rs))) req)"

definition IngestOTLP_n ::
    "((string \<rightharpoonup> attr_value) \<Rightarrow> string option) \<Rightarrow> (nat \<Rightarrow> 8 word list option \<times> 64 word) \<Rightarrow> string \<Rightarrow> resource_spans list option \<Rightarrow> unit handler" where
  "IngestOTLP_n marshal rnd ws body =
     bnd (decodeJSON body) (\<lambda>req.
     let spans = otlp_spans marshal req in
     bnd (ensureSpanRunsInWorkspace ws spans) (\<lambda>_.
     call (InsertSpans rnd spans)))"

section \<open>Prompts and evals\<close>

definition ListPrompts_n :: "string \<Rightarrow> Prompt list handler" where
  "ListPrompts_n ws = read_db (ListPrompts ws)"

record createPromptReq =
  cp_Name :: string
  cp_Content :: string
  cp_Description :: string
  cp_CreatedBy :: string

text \<open>The answer is the \<open>Prompt\<close> of the request with the fields that the store has filled in.\<close>

definition CreatePrompt_n :: "string \<Rightarrow> createPromptReq option \<Rightarrow> Prompt handler" where
  "CreatePrompt_n ws body =
     bnd (decodeJSON body) (\<lambda>req.
     bnd (require (cp_Name req \<noteq> [] \<and> cp_Content req \<noteq> []) missing_field) (\<lambda>_.
     let p = \<lparr>pr_WorkspaceID = [], pr_Name = cp_Name req, pr_Version = 0, pr_Content = cp_Content req, pr_ContentHash = [],
              pr_CreatedAt = 0, pr_CreatedBy = cp_CreatedBy req, pr_Description = cp_Description req\<rparr>
     in bnd peek_clock (\<lambda>created.
        bnd (call (CreatePrompt ws p)) (\<lambda>version.
        ret (p\<lparr>pr_WorkspaceID := default_ws ws, pr_ContentHash := sha256_hex (cp_Content req), pr_CreatedAt := created, pr_Version := version\<rparr>)))))"

definition GetLatestPrompt_n :: "string \<Rightarrow> string \<Rightarrow> string \<Rightarrow> Prompt handler" where
  "GetLatestPrompt_n ws rawPath name = call (GetLatestPrompt ws (nameParam rawPath name))"

definition ListPromptVersions_n :: "string \<Rightarrow> string \<Rightarrow> string \<Rightarrow> Prompt list handler" where
  "ListPromptVersions_n ws rawPath name = read_db (ListPromptVersions ws (nameParam rawPath name))"

definition GetPromptVersion_n :: "string \<Rightarrow> string \<Rightarrow> string \<Rightarrow> string \<Rightarrow> Prompt handler" where
  "GetPromptVersion_n ws rawPath name version =
     bnd (parse_id version) (\<lambda>v. call (GetPromptVersion ws (nameParam rawPath name) v))"

definition SetPromptAlias_n :: "string \<Rightarrow> string \<Rightarrow> string \<Rightarrow> (string \<times> int) option \<Rightarrow> unit handler" where
  "SetPromptAlias_n ws rawPath name body =
     bnd (decodeJSON body) (\<lambda>(al, version). call (SetPromptAlias ws (nameParam rawPath name) al version))"

definition GetPromptByAlias_n :: "string \<Rightarrow> string \<Rightarrow> string \<Rightarrow> string \<Rightarrow> Prompt handler" where
  "GetPromptByAlias_n ws rawPath name al = call (GetPromptByAlias ws (nameParam rawPath name) al)"

record 'm createEvalReq =
  cv_RunID :: string
  cv_TargetRunIDs :: "string list"
  cv_DatasetRef :: string
  cv_Score :: "f64 option"
  cv_Metrics :: 'm

definition CreateEval_n :: "('m \<Rightarrow> string option) \<Rightarrow> string \<Rightarrow> 'm createEvalReq option \<Rightarrow> Eval handler" where
  "CreateEval_n marshal ws body =
     bnd (decodeJSON body) (\<lambda>req.
     bnd (require (cv_RunID req \<noteq> []) missing_field) (\<lambda>_.
     bnd (ensureRunInWorkspace ws (cv_RunID req)) (\<lambda>_.
     let e = \<lparr>evl_RunID = cv_RunID req, evl_TargetRunIDs = cv_TargetRunIDs req, evl_DatasetRef = cv_DatasetRef req,
              evl_Score = cv_Score req, evl_MetricsJSON = jsonOrEmpty (marshal (cv_Metrics req))\<rparr>
     in bnd (call (CreateEval e)) (\<lambda>_. ret e))))"

definition GetEval_n :: "string \<Rightarrow> string \<Rightarrow> Eval handler" where
  "GetEval_n ws runID = bnd (ensureRunInWorkspace ws runID) (\<lambda>_. call (GetEval runID))"

section \<open>Signing in\<close>

definition safeReturnTo :: "string \<Rightarrow> string" where
  "safeReturnTo s =
     (let fallback = ''/ui/'' in
      if s = [] then fallback
      else if 2048 < length s then fallback
      else if \<not> HasPrefix s ''/'' then fallback
      else if HasPrefix s ''//'' \<or> HasPrefix s [CHR ''/'', CHR 0x5C] then fallback
      else if list_ex (\<lambda>r. r < 0x20 \<or> r = 0x7F) (runes s) then fallback
      else s)"

definition Whoami_n :: "(string \<Rightarrow> string) \<Rightarrow> string \<times> string" where
  "Whoami_n header =
     (or_default [] ''anonymous'' (header ''X-LiteMLflow-User''), or_default [] ''none'' (header ''X-LiteMLflow-Auth-Method''))"

text \<open>\<open>rnd\<close> is what \<open>rand.Read\<close> returns for the 32 bytes of a session id.\<close>

definition NewSessionID :: "8 word list option \<Rightarrow> string handler" where
  "NewSessionID rnd = (case rnd of None \<Rightarrow> throw internal_error | Some bs \<Rightarrow> ret (EncodeToString bs))"

definition mintSession :: "8 word list option \<Rightarrow> string \<Rightarrow> string \<Rightarrow> string \<Rightarrow> string \<Rightarrow> int \<Rightarrow> Session handler" where
  "mintSession rnd userID email name meth ttl =
     bnd (NewSessionID rnd) (\<lambda>i.
     bnd (call now) (\<lambda>n.
     let sess = \<lparr>ses_ID = i, ses_UserID = userID, ses_UserEmail = email, ses_UserName = name, ses_AuthMethod = meth,
                 ses_CreatedAt = n, ses_ExpiresAt = n + ttl, ses_LastSeen = n\<rparr>
     in bnd (call_as internal_error (CreateSession sess)) (\<lambda>_. ret sess)))"

definition verifyBasicCreds :: "NativeHandler \<Rightarrow> string \<Rightarrow> string \<Rightarrow> bool" where
  "verifyBasicCreds nh user pass =
     VerifyBasicCredentials (nh_bcrypt nh) (cf_BasicUser (nh_Cfg nh)) (cf_BasicPassHash (nh_Cfg nh)) user pass"

text \<open>The answer is the session whose id goes into the cookie.\<close>

definition Login_n :: "NativeHandler \<Rightarrow> 8 word list option \<Rightarrow> (string \<times> string) option \<Rightarrow> Session handler" where
  "Login_n nh rnd body =
     bnd (require (nh_SessionStore nh) internal_error) (\<lambda>_.
     if cf_Auth (nh_Cfg nh) = ''oidc'' then throw bad_request
     else if cf_Auth (nh_Cfg nh) = ''basic'' then
       bnd (decodeJSON body) (\<lambda>(user, pass).
       bnd (require (verifyBasicCreds nh user pass) (HttpError 401 ''UNAUTHENTICATED'')) (\<lambda>_.
       mintSession rnd user user [] ''basic'' (nh_SessionTTL nh)))
     else if cf_Auth (nh_Cfg nh) = ''none'' then mintSession rnd ''anonymous'' ''anonymous'' [] ''none'' (nh_SessionTTL nh)
     else throw internal_error)"

definition Logout_n :: "NativeHandler \<Rightarrow> Access.request \<Rightarrow> unit handler" where
  "Logout_n nh r = (case GetSessionID r of
     Some i \<Rightarrow> if nh_SessionStore nh then ignoring (DeleteSession i) else ret ()
   | None \<Rightarrow> ret ())"

record PKCEState =
  pk_State :: string
  pk_CodeVerifier :: string
  pk_Nonce :: string
  pk_ReturnTo :: string

text \<open>
  The interface \<open>OIDCProvider\<close>: the URL of the login page for a state, a verifier and a nonce, and the claims "sub", "email" and "name"
  that the exchange of a code yields.
\<close>

record OIDCProvider =
  op_BeginPKCE :: "string \<Rightarrow> string \<Rightarrow> string \<Rightarrow> string option"
  op_Exchange :: "string \<Rightarrow> string \<Rightarrow> string \<Rightarrow> (string \<times> string \<times> string) option"

text \<open>\<open>fresh\<close> are the state, the verifier and the nonce, or \<open>None\<close> when there is no randomness. The answer is the cookie and the redirect.\<close>

definition OIDCStart_n :: "OIDCProvider option \<Rightarrow> (string \<times> string \<times> string) option \<Rightarrow> (string \<Rightarrow> string) \<Rightarrow> (PKCEState \<times> string) handler" where
  "OIDCStart_n provider fresh q = (case provider of
     None \<Rightarrow> throw bad_request
   | Some p \<Rightarrow> (case fresh of
       None \<Rightarrow> throw internal_error
     | Some (st, verifier, nonce) \<Rightarrow> (case op_BeginPKCE p st verifier nonce of
         None \<Rightarrow> throw internal_error
       | Some url \<Rightarrow> ret (\<lparr>pk_State = st, pk_CodeVerifier = verifier, pk_Nonce = nonce, pk_ReturnTo = q ''return_to''\<rparr>, url))))"

definition oidc_error :: http_error where
  "oidc_error = HttpError 400 ''OIDC_ERROR''"

definition OIDCCallback_n ::
    "NativeHandler \<Rightarrow> OIDCProvider option \<Rightarrow> 8 word list option \<Rightarrow> (string \<Rightarrow> string) \<Rightarrow> PKCEState option \<Rightarrow> (Session \<times> string) handler" where
  "OIDCCallback_n nh provider rnd q cookie = (case provider of
     None \<Rightarrow> throw bad_request
   | Some p \<Rightarrow>
       bnd (require (nh_SessionStore nh) bad_request) (\<lambda>_.
       bnd (require (q ''error'' = []) oidc_error) (\<lambda>_.
       (case cookie of
          None \<Rightarrow> throw bad_request
        | Some pkce \<Rightarrow>
            bnd (require (q ''state'' = pk_State pkce) bad_request) (\<lambda>_.
            bnd (require (q ''code'' \<noteq> []) bad_request) (\<lambda>_.
            (case op_Exchange p (q ''code'') (pk_CodeVerifier pkce) (pk_Nonce pkce) of
               None \<Rightarrow> throw oidc_error
             | Some (sub, email, name) \<Rightarrow>
                 bnd (mintSession rnd (if sub = [] then email else sub) email name ''oidc'' (nh_SessionTTL nh)) (\<lambda>sess.
                 ret (sess, safeReturnTo (pk_ReturnTo pkce))))))))))"

section \<open>Who is signed in, and where the browser goes\<close>

lemma continuation_bytes: "cont c \<Longrightarrow> 0x80 \<le> byte c" "second_ok p c \<Longrightarrow> 0x80 \<le> byte c"
  by (auto simp: cont_def second_ok_def split: if_splits)

lemma decode_rune_width:
  assumes "0x80 \<le> byte c"
  shows "snd (decode_rune (c # cs)) = 1 \<or> (\<exists>c1 r. cs = c1 # r \<and> snd (decode_rune (c # cs)) = 2 \<and> 0x80 \<le> byte c1)
    \<or> (\<exists>c1 c2 r. cs = c1 # c2 # r \<and> snd (decode_rune (c # cs)) = 3 \<and> 0x80 \<le> byte c1 \<and> 0x80 \<le> byte c2)
    \<or> (\<exists>c1 c2 c3 r. cs = c1 # c2 # c3 # r \<and> snd (decode_rune (c # cs)) = 4 \<and> 0x80 \<le> byte c1 \<and> 0x80 \<le> byte c2 \<and> 0x80 \<le> byte c3)"
  using assms by (simp add: decode_rune_def Let_def continuation_bytes(1) split: list.split) (blast dest: continuation_bytes(2))

lemma decode_rune_ascii: "c \<in> set (take (snd (decode_rune s)) s) \<Longrightarrow> byte c < 0x80 \<Longrightarrow> fst (decode_rune s) = byte c"
proof (cases s)
  case (Cons c0 cs)
  assume c: "c \<in> set (take (snd (decode_rune s)) s)" "byte c < 0x80"
  show ?thesis
  proof (cases "byte c0 < 0x80")
    case True
    then have "decode_rune s = (byte c0, 1)" by (simp add: Cons decode_rune_def)
    then show ?thesis using c(1) by (simp add: Cons)
  next
    case False
    then show ?thesis using decode_rune_width [of c0 cs] c by (auto simp: Cons)
  qed
qed simp

lemma ascii_in_runes: "c \<in> set s \<Longrightarrow> byte c < 0x80 \<Longrightarrow> byte c \<in> set (runes s)"
proof (induction s rule: rune_chunks.induct)
  case (1 s)
  then have ne: "s \<noteq> []" by auto
  have "c \<in> set (take (snd (decode_rune s)) s) \<or> c \<in> set (drop (snd (decode_rune s)) s)"
    using 1(2) by (metis UnE append_take_drop_id set_append)
  then show ?case using 1(1) [OF ne] 1(3) ne decode_rune_ascii [of c s] by (auto simp: runes_def rune_chunks.simps [of s])
qed

text \<open>A path on the own server, as a browser reads it: one slash, then neither a slash nor a backslash, and no control characters.\<close>

definition local_path :: "string \<Rightarrow> bool" where
  "local_path t \<longleftrightarrow> (\<exists>s. t = CHR ''/'' # s \<and> (\<forall>c cs. s = c # cs \<longrightarrow> c \<noteq> CHR ''/'' \<and> c \<noteq> CHR 0x5C)
     \<and> (\<forall>c\<in>set t. 0x20 \<le> byte c \<and> byte c \<noteq> 0x7F))"

lemma safeReturnTo_cases:
  "safeReturnTo s = ''/ui/'' \<or> safeReturnTo s = s \<and> s \<noteq> [] \<and> HasPrefix s ''/'' \<and> \<not> HasPrefix s ''//'' \<and> \<not> HasPrefix s [CHR ''/'', CHR 0x5C]
     \<and> \<not> list_ex (\<lambda>r. r < 0x20 \<or> r = 0x7F) (runes s)"
  by (simp add: safeReturnTo_def Let_def)

lemma safeReturnTo_local: "local_path (safeReturnTo s)"
proof (cases "safeReturnTo s = ''/ui/''")
  case False
  with safeReturnTo_cases [of s] have e: "safeReturnTo s = s" and s: "s \<noteq> []" "HasPrefix s ''/''" "\<not> HasPrefix s ''//''"
      "\<not> HasPrefix s [CHR ''/'', CHR 0x5C]" "\<not> list_ex (\<lambda>r. r < 0x20 \<or> r = 0x7F) (runes s)"
    by blast+
  obtain u where u: "s = CHR ''/'' # u" using s(1,2) by (cases s) (simp_all add: HasPrefix_def)
  have "0x20 \<le> byte c \<and> byte c \<noteq> 0x7F" if "c \<in> set s" for c
  proof (rule ccontr)
    assume "\<not> ?thesis"
    then have "byte c < 0x80" "byte c < 0x20 \<or> byte c = 0x7F" by auto
    with ascii_in_runes [OF that] s(5) show False by (auto simp: list_ex_iff)
  qed
  moreover have "c \<noteq> CHR ''/'' \<and> c \<noteq> CHR 0x5C" if "u = c # cs" for c cs using s(3,4) by (simp add: u that HasPrefix_def)
  ultimately show ?thesis unfolding e local_path_def using u by blast
qed (simp add: local_path_def)

definition session_row_of :: "string \<Rightarrow> db \<Rightarrow> session_row option" where
  "session_row_of i s = first_row (\<lambda>r. se_id r = i) (sessions s)"

lemma mintSession_ok:
  assumes "mintSession rnd userID email name meth ttl a = (Inr sess, b)"
  shows "\<exists>bs r. rnd = Some bs \<and> ses_ID sess = EncodeToString bs \<and> ses_UserID sess = userID \<and>
    session_row_of (ses_ID sess) (hk_db b) = Some r \<and> se_user_id r = userID \<and> se_auth_method r = meth \<and> se_expires_at r = ses_ExpiresAt sess"
  using assms
  by (auto simp: mintSession_def NewSessionID_def sem_simps call_def call_as_def on_db_def now_def CreateSession_def insert_sessions_def session_row_of_def
      first_row_append first_row_Cons has_key_iff keys_def stmt_def Let_def split: option.splits prod.splits sum.splits if_splits dest!: first_row_Some) (metis imageI)+


definition sample_native :: NativeHandler where
  "sample_native = \<lparr>
     nh_Cfg = \<lparr>cf_Auth = ''none'', cf_BasicUser = [], cf_BasicPassHash = [], cf_Trusted = []\<rparr>, nh_SessionTTL = 3600000, nh_FederationName = ''a'',
     nh_SessionStore = True, nh_Datasets = Some sample_cas, nh_cwd = ''/srv'', nh_bcrypt = (\<lambda>_ _. False), nh_up = (\<lambda>r. r), nh_low = (\<lambda>r. r)\<rparr>"

definition native_state :: api where
  "native_state = \<lparr>hk_db = sample_db, hk_queue = [], hk_dropped = 0, hk_stopped = False, hk_echo = None, hk_sent = [], api_fs = empty_cas_fs\<rparr>"

definition sample_provider :: OIDCProvider where
  "sample_provider = \<lparr>op_BeginPKCE = (\<lambda>st v n. Some (''https://idp/'' @ st)),
     op_Exchange = (\<lambda>code v n. if code = ''c'' \<and> v = ''ver'' \<and> n = ''non'' then Some ([], ''ann@x'', ''Ann'') else None)\<rparr>"

definition callback_query :: "string \<Rightarrow> string" where
  "callback_query k = (if k = ''state'' then ''st'' else if k = ''code'' then ''c'' else [])"

definition evil_cookie :: PKCEState where
  "evil_cookie = \<lparr>pk_State = ''st'', pk_CodeVerifier = ''ver'', pk_Nonce = ''non'', pk_ReturnTo = ''//evil.example''\<rparr>"


end
