(* ===== verification/NativeResources.thy ===== *)
theory NativeResources
  imports NativeApi Lineage Egress
begin

text \<open>
  The handlers of the native REST API for workspaces, webhooks, run lineage, clones of experiments, dashboards and datasets
  (\<open>internal/api/native/workspaces.go\<close>, \<open>webhooks.go\<close>, \<open>datasets.go\<close>). The parser of URLs, the resolver and the servers that receive
  webhooks are arguments; a multipart upload comes as the parts that the parser found, and the name of a dataset as \<open>nameParam\<close>
  has decoded it.
\<close>

section \<open>Workspaces\<close>

definition ListWorkspaces_n :: "Workspace list handler" where
  "ListWorkspaces_n = read_db ListWorkspaces"

definition CreateWorkspace_n :: "(string \<times> string \<times> string) option \<Rightarrow> Workspace handler" where
  "CreateWorkspace_n body =
     bnd (decodeJSON body) (\<lambda>(i, name, description).
     bnd (require (i \<noteq> [] \<and> name \<noteq> []) bad_request) (\<lambda>_.
     bnd (call (CreateWorkspace \<lparr>ws_ID = i, ws_Name = name, ws_Description = description, ws_CreationTime = 0, ws_LastUpdateTime = 0\<rparr>)) (\<lambda>_.
     call (GetWorkspace i))))"

definition GetCurrentWorkspace_n :: "(string \<Rightarrow> string) \<Rightarrow> (Workspace \<times> string \<times> string) handler" where
  "GetCurrentWorkspace_n header =
     (let wsID = currentWorkspace header; user = header ''X-LiteMLflow-User'' in
      bnd (call (GetWorkspace wsID)) (\<lambda>ws.
      bnd (if user \<noteq> [] \<and> user \<noteq> ''anonymous'' then call_or [] (GetMemberRole wsID user) else ret []) (\<lambda>role.
      ret (ws, user, role))))"

definition GetWorkspace_n :: "string \<Rightarrow> Workspace handler" where
  "GetWorkspace_n i = call (GetWorkspace i)"

definition UpdateWorkspace_n :: "string \<Rightarrow> (string option \<times> string option) option \<Rightarrow> Workspace handler" where
  "UpdateWorkspace_n i body =
     bnd (decodeJSON body) (\<lambda>(name, description).
     bnd (call (UpdateWorkspace i name description)) (\<lambda>_. call (GetWorkspace i)))"

definition DeleteWorkspace_n :: "string \<Rightarrow> unit handler" where
  "DeleteWorkspace_n i = call (DeleteWorkspace i)"

definition ListMembers_n :: "string \<Rightarrow> WorkspaceMember list handler" where
  "ListMembers_n wsID = bnd (call (GetWorkspace wsID)) (\<lambda>_. read_db (ListMembers wsID))"

definition AddMember_n :: "string \<Rightarrow> string \<Rightarrow> string option \<Rightarrow> WorkspaceMember handler" where
  "AddMember_n wsID userID body =
     bnd (decodeJSON body) (\<lambda>role.
     bnd (require (role \<noteq> []) bad_request) (\<lambda>_.
     bnd (call (AddMember wsID userID role)) (\<lambda>_.
     ret \<lparr>mem_WorkspaceID = wsID, mem_UserID = userID, mem_Role = role\<rparr>)))"

definition RemoveMember_n :: "string \<Rightarrow> string \<Rightarrow> unit handler" where
  "RemoveMember_n wsID userID = call (RemoveMember wsID userID)"

section \<open>Webhooks\<close>

text \<open>
  What \<open>validateOutboundURL\<close> asks: \<open>url.Parse\<close> with the scheme and the host name, the resolver, and the switch
  \<open>LITEMLFLOW_WEBHOOK_ALLOW_PRIVATE\<close>.
\<close>

record outbound =
  ob_Parse :: "string \<Rightarrow> (string \<times> string) option"
  ob_LookupIPAddr :: "string \<Rightarrow> addr list option"
  ob_AllowPrivate :: bool

definition validateOutboundURL :: "outbound \<Rightarrow> string \<Rightarrow> bool" where
  "validateOutboundURL ob rawURL = (case ob_Parse ob rawURL of
     None \<Rightarrow> False
   | Some (scheme, host) \<Rightarrow>
       if scheme \<noteq> ''http'' \<and> scheme \<noteq> ''https'' then False
       else if host = [] then False
       else if ob_AllowPrivate ob then True
       else case ob_LookupIPAddr ob host of None \<Rightarrow> True | Some ips \<Rightarrow> \<not> list_ex IsBlockedIP ips)"

definition validateWebhookURL :: "outbound \<Rightarrow> string \<Rightarrow> bool" where
  "validateWebhookURL ob rawURL \<longleftrightarrow> IsEchoURL rawURL \<or> validateOutboundURL ob rawURL"

record webhookDTO =
  wd_ID :: int
  wd_Name :: string
  wd_URL :: string
  wd_Events :: string
  wd_ExperimentID :: "int option"
  wd_WorkspaceID :: string
  wd_HasSecret :: bool
  wd_CreatedAt :: int
  wd_LastStatus :: "int option"
  wd_LastAttempt :: "int option"
  wd_Enabled :: bool

definition webhookToDTO :: "Webhook \<Rightarrow> webhookDTO" where
  "webhookToDTO w = \<lparr>
     wd_ID = hook_ID w, wd_Name = hook_Name w, wd_URL = hook_URL w, wd_Events = hook_Events w, wd_ExperimentID = hook_ExperimentID w,
     wd_WorkspaceID = hook_WorkspaceID w, wd_HasSecret = (hook_Secret w \<noteq> []), wd_CreatedAt = hook_CreatedAt w,
     wd_LastStatus = hook_LastStatus w, wd_LastAttempt = hook_LastAttempt w, wd_Enabled = hook_Enabled w\<rparr>"

definition getWebhookInWorkspace :: "string \<Rightarrow> int \<Rightarrow> Webhook op" where
  "getWebhookInWorkspace ws i =
     bnd (GetWebhook i) (\<lambda>w.
     bnd (require (sameWorkspace (hook_WorkspaceID w) ws) err.ErrNotFound) (\<lambda>_. ret w))"

definition ListWebhooks_n :: "string \<Rightarrow> webhookDTO list handler" where
  "ListWebhooks_n ws = bnd (read_db (ListWebhooks ws None)) (\<lambda>whs. ret (map webhookToDTO whs))"

record createWebhookReq =
  cw_Name :: string
  cw_URL :: string
  cw_Events :: string
  cw_ExperimentID :: "int option"
  cw_Secret :: string
  cw_Enabled :: "bool option"

definition CreateWebhook_n :: "outbound \<Rightarrow> string \<Rightarrow> createWebhookReq option \<Rightarrow> webhookDTO handler" where
  "CreateWebhook_n ob ws body =
     bnd (decodeJSON body) (\<lambda>req.
     bnd (require (cw_Name req \<noteq> [] \<and> cw_URL req \<noteq> [] \<and> cw_Events req \<noteq> []) missing_field) (\<lambda>_.
     bnd (require (validateWebhookURL ob (cw_URL req)) bad_request) (\<lambda>_.
     bnd (call now) (\<lambda>n.
     let wh = \<lparr>hook_ID = 0, hook_Name = cw_Name req, hook_URL = cw_URL req, hook_Events = cw_Events req,
               hook_ExperimentID = cw_ExperimentID req, hook_WorkspaceID = ws, hook_Secret = cw_Secret req, hook_CreatedAt = n,
               hook_LastStatus = None, hook_LastAttempt = None,
               hook_Enabled = (case cw_Enabled req of None \<Rightarrow> True | Some b \<Rightarrow> b)\<rparr>
     in bnd (call (CreateWebhook wh)) (\<lambda>i. ret (webhookToDTO (wh\<lparr>hook_ID := i\<rparr>)))))))"

text \<open>The fields that the body has replace those of the stored webhook.\<close>

definition patch_webhook :: "createWebhookReq \<Rightarrow> Webhook \<Rightarrow> Webhook" where
  "patch_webhook req w = w\<lparr>
     hook_Name := or_default [] (hook_Name w) (cw_Name req), hook_URL := or_default [] (hook_URL w) (cw_URL req),
     hook_Events := or_default [] (hook_Events w) (cw_Events req),
     hook_ExperimentID := or_default None (hook_ExperimentID w) (cw_ExperimentID req),
     hook_Secret := or_default [] (hook_Secret w) (cw_Secret req),
     hook_Enabled := (case cw_Enabled req of None \<Rightarrow> hook_Enabled w | Some b \<Rightarrow> b)\<rparr>"

definition UpdateWebhook_n :: "outbound \<Rightarrow> string \<Rightarrow> string \<Rightarrow> createWebhookReq option \<Rightarrow> webhookDTO handler" where
  "UpdateWebhook_n ob ws i body =
     bnd (parse_id i) (\<lambda>i.
     bnd (call (getWebhookInWorkspace ws i)) (\<lambda>existing.
     bnd (decodeJSON body) (\<lambda>req.
     bnd (require (cw_URL req = [] \<or> validateWebhookURL ob (cw_URL req)) bad_request) (\<lambda>_.
     let wh = patch_webhook req existing in
     bnd (call (UpdateWebhook wh)) (\<lambda>_. ret (webhookToDTO wh))))))"

definition DeleteWebhook_n :: "string \<Rightarrow> string \<Rightarrow> unit handler" where
  "DeleteWebhook_n ws i =
     bnd (parse_id i) (\<lambda>i.
     bnd (call (getWebhookInWorkspace ws i)) (\<lambda>_.
     call (DeleteWebhook i)))"

definition syntheticRun :: "int \<Rightarrow> Webhook \<Rightarrow> Run" where
  "syntheticRun n wh = \<lparr>
     run_ID = ''test-synthetic-run'', run_ExperimentID = (case hook_ExperimentID wh of None \<Rightarrow> 0 | Some e \<Rightarrow> e),
     run_Name = ''synthetic test run'', run_Status = StatusFinished, run_StartTime = n - 1000, run_EndTime = Some n,
     run_ArtifactURI = ''mlflow-artifacts:/test'', run_LifecycleStage = LifecycleActive, run_UserID = [], run_SourceType = [],
     run_SourceName = [], run_Kind = KindClassic, run_ParentRunID = []\<rparr>"

text \<open>The delivery runs in the handler; the attempt is recorded with the status, or with 0 when it failed.\<close>

definition deliver_sync :: "delivery_env \<Rightarrow> Webhook \<Rightarrow> string \<Rightarrow> Run \<Rightarrow> (int \<times> bool) handler" where
  "deliver_sync env wh event run a = (case Deliver env wh event run a of (r, b) \<Rightarrow> (Inr r, b))"

definition TestWebhook_n :: "delivery_env \<Rightarrow> string \<Rightarrow> string \<Rightarrow> int handler" where
  "TestWebhook_n env ws i =
     bnd (parse_id i) (\<lambda>i.
     bnd (call (getWebhookInWorkspace ws i)) (\<lambda>wh.
     bnd (call now) (\<lambda>n.
     bnd (deliver_sync env wh ''run_finished'' (syntheticRun n wh)) (\<lambda>(status, ok).
     if \<not> ok then bnd (ignoring (RecordWebhookAttempt i 0 n)) (\<lambda>_. throw (HttpError 502 ''DELIVERY_FAILED''))
     else bnd (ignoring (RecordWebhookAttempt i status n)) (\<lambda>_. ret status)))))"

text \<open>The entries of the echo log are those of all workspaces.\<close>

definition ListEchoDeliveries_n :: "(string \<Rightarrow> string) \<Rightarrow> EchoEntry list handler" where
  "ListEchoDeliveries_n q =
     (let mx = (if q ''max'' = [] then 50
          else case ParseInt (q ''max'') of Some n \<Rightarrow> if 0 < n \<and> n \<le> 500 then n else 50 | None \<Rightarrow> 50)
      in gets (\<lambda>a. case hk_echo a of None \<Rightarrow> [] | Some l \<Rightarrow> echo_List mx l))"

section \<open>Lineage, clones and dashboards\<close>

text \<open>A bounded number in the query; absent is 0, which the store replaces by its default.\<close>

definition bounded_param :: "int \<Rightarrow> string \<Rightarrow> int handler" where
  "bounded_param hi v =
     (if v = [] then ret 0
      else bnd (parse_id v) (\<lambda>n. bnd (require (1 \<le> n \<and> n \<le> hi) bad_request) (\<lambda>_. ret n)))"

definition GetRunLineage_n :: "string \<Rightarrow> string \<Rightarrow> (string \<Rightarrow> string) \<Rightarrow> RunLineage handler" where
  "GetRunLineage_n ws runID q =
     bnd (ensureRunInWorkspace ws runID) (\<lambda>_.
     let d = q ''direction'' in
     bnd (require (d \<in> {''upstream'', ''downstream'', [], ''both''}) bad_request) (\<lambda>_.
     bnd (bounded_param 8 (q ''depth'')) (\<lambda>depth.
     bnd (bounded_param 200 (q ''fanout'')) (\<lambda>fanout.
     call (GetRunLineageWithOptions runID \<lparr>
       lo_Direction = (if d = ''upstream'' then LineageUpstream else if d = ''downstream'' then LineageDownstream else LineageBoth),
       lo_DescendantDepth = depth, lo_MaxNodesPerLevel = fanout\<rparr>)))))"

text \<open>The body is optional; without a name the clone is named after the source and the time in seconds.\<close>

definition CloneExperiment_n :: "string \<Rightarrow> string \<Rightarrow> string option \<Rightarrow> Experiment handler" where
  "CloneExperiment_n ws i body =
     bnd (parse_id i) (\<lambda>srcID.
     let name = (case body of None \<Rightarrow> [] | Some n \<Rightarrow> n) in
     bnd (call (GetExperiment srcID)) (\<lambda>src.
     bnd (require (sameWorkspace (exp_WorkspaceID src) ws) (writeStoreErr err.ErrNotFound)) (\<lambda>_.
     bnd (if name \<noteq> [] then ret name
          else bnd (call now) (\<lambda>n. ret (exp_Name src @ ''-clone-'' @ FormatInt (n div 1000)))) (\<lambda>newName.
     call (CloneExperiment srcID newName ws)))))"

definition GetDashboard_n :: "string \<Rightarrow> string \<Rightarrow> Dashboard handler" where
  "GetDashboard_n ws project =
     call_or \<lparr>dash_ID = 0, dash_WorkspaceID = ws, dash_Project = project, dash_Widgets = ''[]'', dash_CreatedAt = 0, dash_UpdatedAt = 0\<rparr>
       (GetDashboard ws project)"

definition maxWidgetsBytes :: nat where
  "maxWidgetsBytes = 64 * 1024"

text \<open>\<open>isArray\<close> is whether \<open>json.Unmarshal\<close> accepts a text as an array.\<close>

definition SaveDashboard_n :: "(string \<Rightarrow> bool) \<Rightarrow> string \<Rightarrow> string \<Rightarrow> string option \<Rightarrow> Dashboard handler" where
  "SaveDashboard_n isArray ws project body =
     bnd (decodeJSON body) (\<lambda>raw.
     let widgets = (if raw = [] \<or> raw = ''null'' then ''[]'' else raw) in
     bnd (require (length widgets \<le> maxWidgetsBytes) too_large) (\<lambda>_.
     bnd (require (isArray widgets) bad_request) (\<lambda>_.
     call (SaveDashboard ws project widgets))))"

section \<open>Datasets\<close>

record uploadMeta =
  um_Description :: string
  um_SchemaJSON :: string
  um_Parents :: "int list"

text \<open>The parts of a multipart form: the field "meta" as text, and the file if there is one.\<close>

record upload_form =
  uf_meta :: string
  uf_file :: "reader option"

definition datasets_disabled :: http_error where
  "datasets_disabled = HttpError 503 ''DATASETS_DISABLED''"

definition maxMetaBytes :: nat where
  "maxMetaBytes = 64 * 1024"

definition decode_meta :: "(string \<Rightarrow> uploadMeta option) \<Rightarrow> string \<Rightarrow> uploadMeta handler" where
  "decode_meta unmarshal s =
     (if s = [] then ret \<lparr>um_Description = [], um_SchemaJSON = [], um_Parents = []\<rparr>
      else bnd (require (length s \<le> maxMetaBytes) too_large) (\<lambda>_. decodeJSON (unmarshal s)))"

definition put_content :: "string \<Rightarrow> CAS \<Rightarrow> string \<Rightarrow> reader \<Rightarrow> (string \<times> nat) handler" where
  "put_content cwd c rnd r a = (case Put cwd c rnd r (api_fs a) of
     (Inl _, d) \<Rightarrow> (Inl (HttpError 500 ''STORAGE_ERROR''), a\<lparr>api_fs := d\<rparr>)
   | (Inr x, d) \<Rightarrow> (Inr x, a\<lparr>api_fs := d\<rparr>))"

definition uploaded :: "string \<Rightarrow> string \<Rightarrow> string \<Rightarrow> uploadMeta \<Rightarrow> string \<Rightarrow> nat \<Rightarrow> DatasetVersion" where
  "uploaded ws user name meta hash n = \<lparr>
     dv_ID = 0, dv_Name = name, dv_Version = 0, dv_ContentHash = hash, dv_SizeBytes = int n, dv_SchemaJSON = um_SchemaJSON meta,
     dv_Description = um_Description meta, dv_WorkspaceID = ws, dv_CreatedAt = 0, dv_CreatedBy = user, dv_LifecycleStage = [], dv_Parents = []\<rparr>"

text \<open>The form is \<open>None\<close> when \<open>ParseMultipartForm\<close> refuses the body; \<open>rnd\<close> is the random part of the temporary file's name.\<close>

definition CreateDatasetVersion_n ::
    "NativeHandler \<Rightarrow> (string \<Rightarrow> uploadMeta option) \<Rightarrow> string \<Rightarrow> string \<Rightarrow> string \<Rightarrow> string \<Rightarrow> upload_form option \<Rightarrow> DatasetVersion handler" where
  "CreateDatasetVersion_n nh unmarshal rnd ws user name form = (case nh_Datasets nh of
     None \<Rightarrow> throw datasets_disabled
   | Some c \<Rightarrow>
       bnd (require (name \<noteq> []) bad_request) (\<lambda>_.
       bnd (decodeJSON form) (\<lambda>f.
       bnd (decode_meta unmarshal (uf_meta f)) (\<lambda>meta.
       bnd (decodeJSON (uf_file f)) (\<lambda>file.
       bnd (put_content (nh_cwd nh) c rnd file) (\<lambda>(hash, n).
       call_as bad_request (CreateDatasetVersion (uploaded ws user name meta hash n) (um_Parents meta))))))))"

definition ListDatasets_n :: "string \<Rightarrow> DatasetVersion list handler" where
  "ListDatasets_n ws = read_db (ListDatasets ws)"

definition ListDatasetVersions_n :: "string \<Rightarrow> string \<Rightarrow> DatasetVersion list handler" where
  "ListDatasetVersions_n ws name = read_db (ListDatasetVersions ws name)"

definition GetDatasetVersion_n :: "string \<Rightarrow> string \<Rightarrow> string \<Rightarrow> DatasetVersion handler" where
  "GetDatasetVersion_n ws name version = bnd (parse_id version) (\<lambda>v. call (GetDatasetVersion ws name v))"

definition DeleteDatasetVersion_n :: "string \<Rightarrow> string \<Rightarrow> string \<Rightarrow> unit handler" where
  "DeleteDatasetVersion_n ws name version = bnd (parse_id version) (\<lambda>v. call (SoftDeleteDatasetVersion ws name v))"

definition sanitize_rune :: "nat \<Rightarrow> string" where
  "sanitize_rune r =
     (if r \<in> {34, 92, 47, 59, 13, 10, 0} then ''_''
      else if r < 0x20 \<or> 0x7F \<le> r then ''_'' else encode_rune r)"

definition sanitizeFilename :: "string \<Rightarrow> string" where
  "sanitizeFilename name = (let out = concat (map sanitize_rune (runes name)) in if out = [] then ''dataset'' else out)"

text \<open>The answer is the content with its length, the file name and the hash in the headers.\<close>

record content_answer =
  ct_Body :: string
  ct_Length :: nat
  ct_Filename :: string
  ct_Hash :: string

definition GetDatasetContent_n :: "NativeHandler \<Rightarrow> string \<Rightarrow> string \<Rightarrow> string \<Rightarrow> content_answer handler" where
  "GetDatasetContent_n nh ws name version = (case nh_Datasets nh of
     None \<Rightarrow> throw datasets_disabled
   | Some c \<Rightarrow>
       bnd (parse_id version) (\<lambda>v.
       bnd (call (GetDatasetVersion ws name v)) (\<lambda>d a.
         (case Get (nh_cwd nh) c (dv_ContentHash d) (api_fs a) of
            Inl _ \<Rightarrow> (Inl (HttpError 404 ''CONTENT_NOT_FOUND''), a)
          | Inr (x, n) \<Rightarrow> (Inr \<lparr>ct_Body = x, ct_Length = n, ct_Filename = sanitizeFilename name @ ''-v'' @ FormatInt v,
              ct_Hash = dv_ContentHash d\<rparr>, a)))))"

definition GetDatasetLineage_n :: "string \<Rightarrow> string \<Rightarrow> string \<Rightarrow> DatasetLineage handler" where
  "GetDatasetLineage_n ws name version = bnd (parse_id version) (\<lambda>v. call (GetDatasetLineage ws name v))"

section \<open>What was uploaded is what is downloaded\<close>

lemma call_as_ok: "call_as e m a = (Inr x, b) \<longleftrightarrow> (\<exists>s. m (hk_db a) = (Inr x, s) \<and> b = a\<lparr>hk_db := s\<rparr>)"
  by (auto simp: call_as_def on_db_def split: prod.splits sum.splits)

lemma decodeJSON_ok: "decodeJSON body a = (Inr x, b) \<longleftrightarrow> body = Some x \<and> b = a"
  by (auto simp: decodeJSON_def sem_simps split: option.split)

lemma decode_meta_state: "decode_meta unmarshal s a = (Inr x, b) \<Longrightarrow> b = a"
  by (auto simp: decode_meta_def sem_simps decodeJSON_def split: if_splits option.splits)

lemma GetDatasetVersion_state: "GetDatasetVersion ws nm v s = (fst (GetDatasetVersion ws nm v s), s)"
  by (simp add: GetDatasetVersion_def sem_simps split: option.split)

lemma Put_ok:
  assumes "IsAbs cwd" and "cas_root c \<noteq> []" and "cas_ok cwd c d" and "map_of d (temp_path cwd c rnd) = None" and "Put cwd c rnd r d = (Inr (h, n), d')"
  shows "h = sha256_hex (rd_data r) \<and> n = length (rd_data r) \<and> cas_ok cwd c d' \<and>
    (\<exists>x. objects cwd c d' h = Some x \<and> (objects cwd c d h = None \<longrightarrow> x = rd_data r))"
proof -
  have l: "layout_ok cwd c d" and named: "\<And>h x. objects cwd c d h = Some x \<Longrightarrow> sha256_hex x = h" using assms(3) by (auto simp: cas_ok_def)
  obtain res d1 where w: "put_write cwd c rnd r d = (res, d1)" by (cases "put_write cwd c rnd r d")
  note ws = put_write_spec [OF assms(1,2) l assms(4) w]
  have ok: "\<not> rd_fails r" using ws(3) assms(5) by (auto simp: Put_def w)
  with ws(4) have t: "map_of d1 (temp_path cwd c rnd) = Some (File (rd_data r))" and res: "res = Inr (sha256_hex (rd_data r), length (rd_data r))" by simp_all
  have m: "put_move cwd c rnd (sha256_hex (rd_data r)) (length (rd_data r)) d1 = (Inr (h, n), d')" using assms(5) by (simp add: Put_def w res)
  note mv = put_move_spec [OF assms(1,2) ws(1) t m]
  have "cas_ok cwd c d'" using mv(2,3) named ws(2) by (auto simp: cas_ok_def split: if_splits)
  then show ?thesis using mv(1,3) ws(2) by (auto split: if_splits)
qed

text \<open>
  C39. A dataset that was uploaded can be downloaded again, under the version that the upload answered: the download returns a content
  with the digest and the length that are recorded, and it is the uploaded content unless another content with the same digest was
  stored before. The files of the store stay consistent.
\<close>

theorem dataset_upload_download:
  assumes "db_ok (hk_db a)" and "nh_Datasets nh = Some c" and "IsAbs (nh_cwd nh)" and "cas_root c \<noteq> []" and "cas_ok (nh_cwd nh) c (api_fs a)"
    and "map_of (api_fs a) (temp_path (nh_cwd nh) c rnd) = None"
    and "CreateDatasetVersion_n nh unmarshal rnd ws user name (Some form) a = (Inr d, b)" and "int64_range (dv_Version d)"
  shows "\<exists>up ct. uf_file form = Some up \<and> GetDatasetContent_n nh ws name (FormatInt (dv_Version d)) b = (Inr ct, b)
    \<and> dv_ContentHash d = sha256_hex (rd_data up) \<and> dv_SizeBytes d = int (length (rd_data up))
    \<and> ct_Hash ct = dv_ContentHash d \<and> sha256_hex (ct_Body ct) = dv_ContentHash d \<and> ct_Length ct = length (ct_Body ct)
    \<and> (objects (nh_cwd nh) c (api_fs a) (dv_ContentHash d) = None \<longrightarrow> ct_Body ct = rd_data up)
    \<and> cas_ok (nh_cwd nh) c (api_fs b)"
proof -
  have "\<exists>up meta h n. uf_file form = Some up \<and> Put (nh_cwd nh) c rnd up (api_fs a) = (Inr (h, n), api_fs b) \<and>
      CreateDatasetVersion (uploaded ws user name meta h n) (um_Parents meta) (hk_db a) = (Inr d, hk_db b)"
    using assms(7) by (auto simp: CreateDatasetVersion_n_def assms(2) decodeJSON_ok call_as_ok put_content_def require_apply
      dest!: decode_meta_state elim!: bnd_okE split: prod.splits sum.splits if_splits) (rule exI, assumption)
  then obtain up meta h n where up: "uf_file form = Some up" and put: "Put (nh_cwd nh) c rnd up (api_fs a) = (Inr (h, n), api_fs b)"
    and cr: "CreateDatasetVersion (uploaded ws user name meta h n) (um_Parents meta) (hk_db a) = (Inr d, hk_db b)"
    by blast
  note put_ok = Put_ok [OF assms(3-6) put]
  then have x12: "h = sha256_hex (rd_data up)" "n = length (rd_data up)" "cas_ok (nh_cwd nh) c (api_fs b)" by simp_all
  from put_ok [THEN conjunct2, THEN conjunct2, THEN conjunct2]
  obtain x where "objects (nh_cwd nh) c (api_fs b) h = Some x \<and> (objects (nh_cwd nh) c (api_fs a) h = None \<longrightarrow> x = rd_data up)" by (rule exE)
  note x = x12 conjunct1 [OF this] conjunct2 [OF this]
  have l: "layout_ok (nh_cwd nh) c (api_fs b)" and sx: "sha256_hex x = h" using x(3,4) by (auto simp: cas_ok_def)
  have v: "valid_hash h" using x(4) by (simp add: objects_def split: if_splits)
  note rb = CreateDatasetVersion_GetDatasetVersion [OF assms(1) cr, unfolded uploaded_def, simplified]
  have dh: "dv_ContentHash d = h" "dv_SizeBytes d = int n" using rb by blast+
  define y where "y = d\<lparr>dv_Parents := rev (remdups (rev (um_Parents meta)))\<rparr>"
  have y: "GetDatasetVersion ws name (dv_Version d) (hk_db b) = (Inr y, hk_db b)"
    unfolding y_def by (subst GetDatasetVersion_state) (use rb in blast)
  have yh: "dv_ContentHash y = h" using dh(1) by (simp add: y_def)
  define ct where "ct = \<lparr>ct_Body = x, ct_Length = length x, ct_Filename = sanitizeFilename name @ ''-v'' @ FormatInt (dv_Version d), ct_Hash = h\<rparr>"
  have g: "Get (nh_cwd nh) c h (api_fs b) = Inr (x, length x)" by (simp add: reads_spec(1) [OF assms(3,4) l] v x(4))
  have p: "parse_id (FormatInt (dv_Version d)) b = (Inr (dv_Version d), b)" by (simp add: parse_id_def ParseInt_FormatInt [OF assms(8)] ret_def)
  have q: "call (GetDatasetVersion ws name (dv_Version d)) b = (Inr y, b)" by (simp add: call_def on_db_def y)
  have "GetDatasetContent_n nh ws name (FormatInt (dv_Version d)) b = (Inr ct, b)"
    by (simp add: GetDatasetContent_n_def assms(2) bnd_ok [where m = "parse_id _", OF p] bnd_ok [where m = "call _", OF q] yh g ct_def)
  then show ?thesis using up x(1,2,3,5) dh sx by (intro exI [of _ up] exI [of _ ct] conjI) (simp_all add: ct_def)
qed

definition sample_upload :: "string \<Rightarrow> upload_form" where
  "sample_upload x = \<lparr>uf_meta = [], uf_file = Some \<lparr>rd_data = x, rd_fails = False\<rparr>\<rparr>"

lemma Put_new:
  assumes "IsAbs cwd" and "cas_root c \<noteq> []" and "cas_ok cwd c d" and "map_of d (temp_path cwd c rnd) = None" and "\<not> rd_fails r"
  shows "fst (Put cwd c rnd r d) = Inr (sha256_hex (rd_data r), length (rd_data r))"
proof -
  have l: "layout_ok cwd c d" using assms(3) by (simp add: cas_ok_def)
  obtain res d1 where w: "put_write cwd c rnd r d = (res, d1)" by (cases "put_write cwd c rnd r d")
  note ws = put_write_spec [OF assms(1,2) l assms(4) w]
  with assms(5) have t: "map_of d1 (temp_path cwd c rnd) = Some (File (rd_data r))" and res: "res = Inr (sha256_hex (rd_data r), length (rd_data r))" by simp_all
  show ?thesis using put_move_spec(1) [OF assms(1,2) ws(1) t prod.collapse [symmetric]] by (simp add: Put_def w res)
qed

theorem dataset_upload_download_witness:
  "\<exists>d b ct. CreateDatasetVersion_n sample_native (\<lambda>_. None) ''1'' ''default'' ''ann'' ''iris'' (Some (sample_upload ''abc'')) native_state = (Inr d, b)
    \<and> GetDatasetContent_n sample_native ''default'' ''iris'' (FormatInt (dv_Version d)) b = (Inr ct, b) \<and> ct_Body ct = ''abc''"
proof -
  have h: "db_ok (hk_db native_state)" "nh_Datasets sample_native = Some sample_cas" "IsAbs (nh_cwd sample_native)" "cas_root sample_cas \<noteq> []"
      "cas_ok (nh_cwd sample_native) sample_cas (api_fs native_state)"
    using db_ok_sample empty_cas_ok by (simp_all add: native_state_def sample_native_def sample_cas_def IsAbs_def HasPrefix_def)
  have t: "map_of (api_fs native_state) (temp_path (nh_cwd sample_native) sample_cas ''1'') = None" by code_simp
  let ?r = "\<lparr>rd_data = ''abc'', rd_fails = False\<rparr>" and ?m = "\<lparr>um_Description = [], um_SchemaJSON = [], um_Parents = []\<rparr>"
  obtain d' where p: "Put ''/srv'' sample_cas ''1'' ?r empty_cas_fs = (Inr (sha256_hex ''abc'', 3), d')"
    using Put_new [OF h(3-5) t, of ?r] by (cases "Put ''/srv'' sample_cas ''1'' ?r empty_cas_fs") (simp add: native_state_def sample_native_def)
  have ne: "sha256_hex ''abc'' \<noteq> []" using sha256_hex_shape [of "''abc''"] by auto
  obtain d s where c: "CreateDatasetVersion (uploaded ''default'' ''ann'' ''iris'' ?m (sha256_hex ''abc'') 3) [] sample_db = (Inr d, s)" "dv_Version d = 1"
      "dv_ContentHash d = sha256_hex ''abc''"
    using ne by (simp add: uploaded_def dataset_eval sample_name_valid sample_defs nilIfEmpty_def)
  let ?b = "native_state\<lparr>api_fs := d', hk_db := s\<rparr>"
  have run: "CreateDatasetVersion_n sample_native (\<lambda>_. None) ''1'' ''default'' ''ann'' ''iris'' (Some (sample_upload ''abc'')) native_state = (Inr d, ?b)"
    using p c(1) by (simp add: CreateDatasetVersion_n_def h(2) sample_upload_def decodeJSON_def decode_meta_def put_content_def call_as_def on_db_def sem_simps)
      (simp add: native_state_def sample_native_def call_as_def on_db_def)
  have e: "empty_cas_fs = [([], Dir), ([''srv''], Dir), ([''srv'', ''datasets''], Dir)]" and r: "croot ''/srv'' sample_cas = [''srv'', ''datasets'']"
    by code_simp+
  have "objects (nh_cwd sample_native) sample_cas (api_fs native_state) (dv_ContentHash d) = None"
    by (simp add: objects_def object_path_def native_state_def sample_native_def e r)
  with dataset_upload_download [OF h t run] c(2) show ?thesis using run by (auto simp: sample_upload_def)
qed

end
