(* ===== verification/NativeFederation.thy ===== *)
theory NativeFederation
  imports NativeResources Federation
begin

text \<open>
  Search over the own server and over its peers (\<open>GlobalSearch\<close> in \<open>internal/api/native/handlers.go\<close>, and \<open>federation.go\<close>): the local
  search, the endpoints that peers call with signed requests, and the fan-out that asks every connected peer. The transport, the JSON
  encodings and the order in which the answers of the peers arrive are arguments; one peer is asked after the other, so the answers
  of two peers do not interleave in the cache.
\<close>

section \<open>Local search\<close>

record searchResultItem =
  sr_Kind :: string
  sr_ID :: string
  sr_Name :: string
  sr_Title :: string
  sr_SubTitle :: string
  sr_Status :: string
  sr_URL :: string
  sr_ExperimentID :: string
  sr_Instance :: string

definition blank_item :: searchResultItem where
  "blank_item = \<lparr>sr_Kind = [], sr_ID = [], sr_Name = [], sr_Title = [], sr_SubTitle = [], sr_Status = [], sr_URL = [], sr_ExperimentID = [], sr_Instance = []\<rparr>"

definition escapeLikeBangSafe :: "string \<Rightarrow> string" where
  "escapeLikeBangSafe q = concat (map (\<lambda>c. if c = CHR 0x27 then [CHR 0x27, CHR 0x27] else [c]) q)"

definition like_filter :: "string \<Rightarrow> string" where
  "like_filter q = ''name LIKE '' @ [CHR 0x27] @ ''%'' @ escapeLikeBangSafe q @ ''%'' @ [CHR 0x27]"

definition experiments_named :: "(nat \<Rightarrow> nat) \<Rightarrow> string \<Rightarrow> string \<Rightarrow> string \<Rightarrow> int \<Rightarrow> db \<Rightarrow> Experiment list" where
  "experiments_named up ws flt stage mx s =
     (case SearchExperiments up \<lparr>so_ExperimentIDs = [], so_LifecycleStage = stage, so_Filter = flt, so_OrderBy = [], so_MaxResults = mx,
        so_PageToken = NoToken, so_WorkspaceID = ws\<rparr> s of Inl _ \<Rightarrow> [] | Inr (es, _) \<Rightarrow> es)"

definition experiment_url :: "int \<Rightarrow> string" where
  "experiment_url i = ''#/experiments/'' @ FormatInt i"

definition experiment_hit :: "Experiment \<Rightarrow> searchResultItem" where
  "experiment_hit e = blank_item\<lparr>sr_Kind := ''experiment'', sr_ID := FormatInt (exp_ID e), sr_Name := exp_Name e, sr_URL := experiment_url (exp_ID e)\<rparr>"

definition run_hit :: "Run \<Rightarrow> searchResultItem" where
  "run_hit r = blank_item\<lparr>sr_Kind := ''run'', sr_ID := run_ID r, sr_Name := run_Name r, sr_SubTitle := ''exp '' @ FormatInt (run_ExperimentID r),
     sr_Status := run_Status r, sr_URL := experiment_url (run_ExperimentID r) @ ''/runs/'' @ run_ID r, sr_ExperimentID := FormatInt (run_ExperimentID r)\<rparr>"

text \<open>The loop over the names of prompts in the query; it stops after two hits.\<close>

fun prompt_hits :: "(nat \<Rightarrow> nat) \<Rightarrow> string \<Rightarrow> string \<Rightarrow> db \<Rightarrow> string list \<Rightarrow> searchResultItem list \<Rightarrow> searchResultItem list" where
  "prompt_hits low ws ql s [] items = items"
| "prompt_hits low ws ql s (name0 # names) items =
     (let name = TrimSpace name0 in
      if name = [] then prompt_hits low ws ql s names items
      else if ql \<noteq> [] \<and> \<not> Contains (ToLower low name) ql then prompt_hits low ws ql s names items
      else case fst (GetLatestPrompt ws name s) of
        Inl _ \<Rightarrow> prompt_hits low ws ql s names items
      | Inr p \<Rightarrow>
          let items' = items @ [blank_item\<lparr>sr_Kind := ''prompt'', sr_ID := name, sr_Name := pr_Name p, sr_URL := ''#/prompts/'' @ name\<rparr>]
          in if 2 \<le> length items' then items' else prompt_hits low ws ql s names items')"

definition local_hits :: "NativeHandler \<Rightarrow> string \<Rightarrow> string \<Rightarrow> string \<Rightarrow> string \<Rightarrow> db \<Rightarrow> searchResultItem list" where
  "local_hits nh ws q kind names s =
     (let exps = (if kind = ''all'' \<or> kind = ''experiments''
            then map experiment_hit (experiments_named (nh_up nh) ws (if q = [] then [] else like_filter q) ''active'' 4 s) else []);
          rs = (if kind = ''all'' \<or> kind = ''runs'' then map run_hit (SearchRunsByName ws q 4 s) else []);
          items = exps @ rs;
          items = (if kind = ''prompts'' then prompt_hits (nh_low nh) ws (ToLower (nh_low nh) q) s (split_on (CHR '','') names) items else items)
      in take 10 items)"

section \<open>Searches of peers\<close>

definition titled_run :: "Run \<Rightarrow> searchResultItem" where
  "titled_run r = blank_item\<lparr>sr_Kind := ''run'', sr_ID := run_ID r, sr_Title := run_Name r,
     sr_URL := experiment_url (run_ExperimentID r) @ ''/runs/'' @ run_ID r\<rparr>"

definition titled_experiment :: "Experiment \<Rightarrow> searchResultItem" where
  "titled_experiment e = blank_item\<lparr>sr_Kind := ''experiment'', sr_ID := FormatInt (exp_ID e), sr_Title := exp_Name e, sr_URL := experiment_url (exp_ID e)\<rparr>"

definition titled_prompt :: "Prompt \<Rightarrow> searchResultItem" where
  "titled_prompt p = blank_item\<lparr>sr_Kind := ''prompt'', sr_ID := pr_Name p, sr_Title := pr_Name p, sr_URL := ''#/prompts/'' @ pr_Name p\<rparr>"

definition runLocalSearch :: "NativeHandler \<Rightarrow> string \<Rightarrow> string \<Rightarrow> string \<Rightarrow> int \<Rightarrow> db \<Rightarrow> searchResultItem list" where
  "runLocalSearch nh ws q kind mx0 s =
     (let mx = (if mx0 \<le> 0 then 10 else mx0);
          wanted = (\<lambda>k. kind = [] \<or> kind = ''all'' \<or> kind = k);
          ql = ToLower (nh_low nh) q
      in (if wanted ''runs'' then map titled_run (SearchRunsByName ws q mx s) else [])
       @ (if wanted ''experiments'' then map titled_experiment (experiments_named (nh_up nh) ws (like_filter q) [] mx s) else [])
       @ (if wanted ''prompts'' then map titled_prompt (take (nat mx)
            (filter (\<lambda>p. ql = [] \<or> Contains (ToLower (nh_low nh) (pr_Name p)) ql) (ListPrompts ws s))) else []))"

definition federationOurName :: "NativeHandler \<Rightarrow> string" where
  "federationOurName nh = or_default [] ''lmf-self'' (nh_FederationName nh)"

definition HeaderSignature :: string where "HeaderSignature = ''X-LiteMLflow-Federate-Sig''"
definition HeaderPeer :: string where "HeaderPeer = ''X-LiteMLflow-Federate-Peer''"
definition HeaderTimestamp :: string where "HeaderTimestamp = ''X-LiteMLflow-Federate-Ts''"

definition maxFederationRequestBytes :: nat where
  "maxFederationRequestBytes = 2 ^ 20"

definition unauthenticated :: http_error where
  "unauthenticated = HttpError 401 ''UNAUTHENTICATED''"

text \<open>Every failure is answered with the same 401 (\<open>writeFederationAuthError\<close>).\<close>

definition validateFederationRequest :: "string \<Rightarrow> string \<Rightarrow> (string \<Rightarrow> string) \<Rightarrow> reader \<Rightarrow> string handler" where
  "validateFederationRequest meth path header r =
     bnd (require (header HeaderPeer \<noteq> [] \<and> header HeaderSignature \<noteq> [] \<and> header HeaderTimestamp \<noteq> []) unauthenticated) (\<lambda>_.
     case ParseInt (header HeaderTimestamp) of None \<Rightarrow> throw unauthenticated
     | Some ts \<Rightarrow>
       bnd (require (maxFederationRequestBytes < length (rd_data r) \<or> \<not> rd_fails r) unauthenticated) (\<lambda>_.
       bnd (require (length (rd_data r) \<le> maxFederationRequestBytes) unauthenticated) (\<lambda>_.
       bnd (call_as unauthenticated (GetPeerByName (currentWorkspace header) (header HeaderPeer))) (\<lambda>p.
       bnd (call now) (\<lambda>n.
       bnd (require (VerifyRequest n (peer_Secret p) meth path ts (rd_data r) (header HeaderSignature) = None) unauthenticated) (\<lambda>_.
       ret (rd_data r)))))))"

definition FederateEcho_n :: "string \<Rightarrow> string \<Rightarrow> (string \<Rightarrow> string) \<Rightarrow> reader \<Rightarrow> int handler" where
  "FederateEcho_n meth path header r = bnd (validateFederationRequest meth path header r) (\<lambda>_. call now)"

record federateSearchReq =
  fq_Q :: string
  fq_Kind :: string
  fq_Max :: int

definition FederateSearch_n ::
    "NativeHandler \<Rightarrow> (string \<Rightarrow> federateSearchReq option) \<Rightarrow> string \<Rightarrow> string \<Rightarrow> (string \<Rightarrow> string) \<Rightarrow> reader \<Rightarrow> (string \<times> searchResultItem list) handler" where
  "FederateSearch_n nh unmarshal meth path header r =
     bnd (validateFederationRequest meth path header r) (\<lambda>body.
     bnd (decodeJSON (unmarshal body)) (\<lambda>req.
     bnd (require (fq_Q req \<noteq> []) missing_field) (\<lambda>_.
     let mx = (if fq_Max req \<le> 0 then 10 else fq_Max req) in
     bnd (read_db (runLocalSearch nh (currentWorkspace header) (fq_Q req) (fq_Kind req) mx)) (\<lambda>results.
     ret (federationOurName nh, results)))))"

section \<open>Management of peers\<close>

record peerDTO =
  pd_ID :: int
  pd_Name :: string
  pd_URL :: string
  pd_WorkspaceID :: string
  pd_AddedAt :: int
  pd_LastSeen :: "int option"
  pd_Status :: string
  pd_LastError :: string
  pd_HasSecret :: bool

definition peerToDTO :: "Peer \<Rightarrow> peerDTO" where
  "peerToDTO p = \<lparr>pd_ID = peer_ID p, pd_Name = peer_Name p, pd_URL = peer_URL p, pd_WorkspaceID = peer_WorkspaceID p, pd_AddedAt = peer_AddedAt p,
     pd_LastSeen = peer_LastSeen p, pd_Status = peer_Status p, pd_LastError = peer_LastError p, pd_HasSecret = (peer_Secret p \<noteq> [])\<rparr>"

text \<open>
  A secret in the request has to be 64 bytes long; without one, 32 random bytes are drawn. The answer shows the time and the status
  that \<open>CreatePeer\<close> fills in.
\<close>

definition AddPeer_n :: "outbound \<Rightarrow> 8 word list option \<Rightarrow> string \<Rightarrow> (string \<times> string \<times> string) option \<Rightarrow> (peerDTO \<times> string) handler" where
  "AddPeer_n ob rnd ws body =
     bnd (decodeJSON body) (\<lambda>(name, url, given).
     bnd (require (name \<noteq> [] \<and> url \<noteq> []) missing_field) (\<lambda>_.
     bnd (require (validateOutboundURL ob url) bad_request) (\<lambda>_.
     bnd (if given = [] then (case rnd of None \<Rightarrow> throw internal_error | Some bs \<Rightarrow> ret (NewSecret bs))
          else bnd (require (length given = 64) bad_request) (\<lambda>_. ret given)) (\<lambda>secret.
     let p = \<lparr>peer_ID = 0, peer_Name = name, peer_URL = url, peer_Secret = secret, peer_WorkspaceID = ws, peer_AddedAt = 0,
              peer_LastSeen = None, peer_Status = [], peer_LastError = []\<rparr>
     in bnd peek_clock (\<lambda>added.
        bnd (call (CreatePeer p)) (\<lambda>i.
        ret (peerToDTO (p\<lparr>peer_ID := i, peer_AddedAt := added, peer_Status := ''pending''\<rparr>), secret)))))))"

definition ListPeers_n :: "string \<Rightarrow> peerDTO list handler" where
  "ListPeers_n ws = bnd (read_db (ListPeers ws)) (\<lambda>ps. ret (map peerToDTO ps))"

definition DeletePeer_n :: "string \<Rightarrow> string \<Rightarrow> unit handler" where
  "DeletePeer_n ws i = bnd (parse_id i) (\<lambda>i. call (DeletePeer ws i))"

text \<open>What is outside: the transport, which gives the status and the body of an answer, the encodings, and the order of the answers.\<close>

record fan_env =
  fe_http :: "fed_request \<Rightarrow> (int \<times> string) option"
  fe_echo :: "string \<Rightarrow> int \<Rightarrow> string"
  fe_encode :: "federateSearchReq \<Rightarrow> string"
  fe_query :: "string \<times> string \<times> int \<times> string \<Rightarrow> string"
  fe_decode :: "string \<Rightarrow> (string \<times> searchResultItem list) option"
  fe_order :: "Peer list \<Rightarrow> Peer list"
  fe_error :: "fed_error \<Rightarrow> string"

datatype echo_answer = EchoConnected int | EchoFailed string

definition EchoPeer_n :: "NativeHandler \<Rightarrow> fan_env \<Rightarrow> string \<Rightarrow> string \<Rightarrow> echo_answer handler" where
  "EchoPeer_n nh env ws i =
     bnd (parse_id i) (\<lambda>i.
     bnd (call (GetPeer ws i)) (\<lambda>p.
     case NewClient (peer_URL p) (federationOurName nh) (peer_Secret p) of
       Inl e \<Rightarrow> bnd (ignoring (UpdatePeerStatus i ''error'' (''client init: '' @ fe_error env e) 0)) (\<lambda>_. throw bad_request)
     | Inr c \<Rightarrow>
         bnd (call now) (\<lambda>n1.
         bnd (call now) (\<lambda>n2.
         case DoCtx (fe_http env) n2 c ''POST'' ''/api/v1/federate/echo'' (fe_echo env (federationOurName nh) n1) of
           Inl e \<Rightarrow> bnd (ignoring (UpdatePeerStatus i ''error'' (''echo: '' @ fe_error env e) 0)) (\<lambda>_. ret (EchoFailed (fe_error env e)))
         | Inr (status, _) \<Rightarrow>
             if status \<noteq> 200 then
               let msg = ''peer responded HTTP '' @ FormatInt status in
               bnd (ignoring (UpdatePeerStatus i ''error'' msg 0)) (\<lambda>_. ret (EchoFailed msg))
             else bnd (call now) (\<lambda>n. bnd (ignoring (UpdatePeerStatus i ''connected'' [] n)) (\<lambda>_. ret (EchoConnected n)))))))"

section \<open>The fan-out\<close>

record napi = api +
  na_cache :: "Cache option"

text \<open>The cache measures time in nanoseconds.\<close>

definition nanos :: "int \<Rightarrow> int" where
  "nanos ms = ms * 1000000"

definition cached_answer :: "fan_env \<Rightarrow> string \<Rightarrow> napi \<Rightarrow> (string \<times> searchResultItem list) option \<times> napi" where
  "cached_answer env k st = (case na_cache st of
     None \<Rightarrow> (None, st)
   | Some c \<Rightarrow> (case read_clock st of (n, st1) \<Rightarrow> (case cache_get k (nanos n) c of (hit, c') \<Rightarrow>
       (case hit of None \<Rightarrow> None | Some payload \<Rightarrow> fe_decode env payload, st1\<lparr>na_cache := Some c'\<rparr>))))"

definition fetch_answer :: "NativeHandler \<Rightarrow> fan_env \<Rightarrow> string \<Rightarrow> string \<Rightarrow> Peer \<Rightarrow> napi \<Rightarrow> (string \<times> searchResultItem list) option \<times> napi" where
  "fetch_answer nh env k body p st = (case NewClient (peer_URL p) (federationOurName nh) (peer_Secret p) of
     Inl _ \<Rightarrow> (None, st)
   | Inr c \<Rightarrow> (case read_clock st of (n, st1) \<Rightarrow>
       (case DoCtx (fe_http env) n c ''POST'' ''/api/v1/federate/search'' body of
          Inl _ \<Rightarrow> (None, st1)
        | Inr (status, payload) \<Rightarrow>
            if status \<noteq> 200 then (None, st1)
            else case fe_decode env payload of
              None \<Rightarrow> (None, st1)
            | Some got \<Rightarrow> (case na_cache st1 of
                None \<Rightarrow> (Some got, st1)
              | Some ca \<Rightarrow> (case read_clock st1 of (n2, st2) \<Rightarrow> (Some got, st2\<lparr>na_cache := Some (cache_put k payload (nanos n2) ca)\<rparr>))))))"

text \<open>One peer: the cache first, then the network. \<open>None\<close> is a failure.\<close>

definition ask_peer :: "NativeHandler \<Rightarrow> fan_env \<Rightarrow> string \<Rightarrow> string \<Rightarrow> Peer \<Rightarrow> napi \<Rightarrow> (string \<times> searchResultItem list) option \<times> napi" where
  "ask_peer nh env queryHash body p st =
     (let k = Key (peer_ID p) queryHash in
      case cached_answer env k st of
        (Some r, st1) \<Rightarrow> (Some r, st1)
      | (None, st1) \<Rightarrow> fetch_answer nh env k body p st1)"

fun merge_answers :: "(Peer \<Rightarrow> napi \<Rightarrow> (string \<times> searchResultItem list) option \<times> napi) \<Rightarrow> Peer list \<Rightarrow> napi \<Rightarrow>
    (searchResultItem list \<times> string list \<times> bool) \<times> napi" where
  "merge_answers ask [] st = (([], [], False), st)"
| "merge_answers ask (p # ps) st = (case ask p st of (r, st1) \<Rightarrow> (case merge_answers ask ps st1 of ((items, insts, part), st2) \<Rightarrow>
     (case r of None \<Rightarrow> (items, insts, True)
      | Some (inst, hits) \<Rightarrow> (map (\<lambda>i. i\<lparr>sr_Instance := inst\<rparr>) hits @ items, inst # insts, part), st2)))"

definition federatedFanOut :: "NativeHandler \<Rightarrow> fan_env \<Rightarrow> string \<Rightarrow> string \<Rightarrow> string \<Rightarrow> int \<Rightarrow> napi \<Rightarrow> (searchResultItem list \<times> string list \<times> bool) \<times> napi" where
  "federatedFanOut nh env ws q kind mx st =
     (let body = fe_encode env \<lparr>fq_Q = q, fq_Kind = kind, fq_Max = mx\<rparr>;
          queryHash = QueryHash (fe_query env) (q, kind, mx, ws)
      in merge_answers (ask_peer nh env queryHash body)
           (fe_order env (filter (\<lambda>p. peer_Status p = ''connected'') (ListPeers ws (hk_db st)))) st)"

record globalSearchResp =
  gs_Items :: "searchResultItem list"
  gs_Query :: string
  gs_Federated :: bool
  gs_Instances :: "string list"
  gs_Partial :: bool

definition GlobalSearch_n :: "NativeHandler \<Rightarrow> fan_env \<Rightarrow> string \<Rightarrow> (string \<Rightarrow> string) \<Rightarrow> napi \<Rightarrow> globalSearchResp \<times> napi" where
  "GlobalSearch_n nh env ws query st =
     (let q = TrimSpace (query ''q''); kind = or_default [] ''all'' (ToLower (nh_low nh) (query ''kind''));
          items = local_hits nh ws q kind (query ''names'') (hk_db st)
      in if query ''federated'' = ''1'' then
           (let ourName = federationOurName nh; own = map (\<lambda>i. i\<lparr>sr_Instance := ourName\<rparr>) items
            in case federatedFanOut nh env ws q kind 10 st of ((merged, instances, partial), st') \<Rightarrow>
              (\<lparr>gs_Items = take 50 (own @ merged), gs_Query = q, gs_Federated = True, gs_Instances = ourName # instances, gs_Partial = partial\<rparr>, st'))
         else (\<lparr>gs_Items = items, gs_Query = q, gs_Federated = False, gs_Instances = [], gs_Partial = False\<rparr>, st))"

definition Readyz_n :: "NativeHandler \<Rightarrow> unit handler" where
  "Readyz_n nh a = (case SearchExperiments (nh_up nh) \<lparr>so_ExperimentIDs = [], so_LifecycleStage = ''all'', so_Filter = [], so_OrderBy = [],
       so_MaxResults = 1, so_PageToken = NoToken, so_WorkspaceID = []\<rparr> (hk_db a) of
     Inl _ \<Rightarrow> (Inl (HttpError 503 []), a) | Inr _ \<Rightarrow> (Inr (), a))"

text \<open>
  The doubled apostrophe stays in the pattern, so an experiment with an apostrophe in its name is not found under its own name.
\<close>

lemma apostrophe_not_found:
  "like_filter [CHR ''a'', CHR 0x27, CHR ''b''] = ''name LIKE '' @ [CHR 0x27, CHR ''%'', CHR ''a'', CHR 0x27, CHR 0x27, CHR ''b'', CHR ''%'', CHR 0x27]"
  "name_clause up [''name'', ''LIKE'', [CHR 0x27, CHR ''%'', CHR ''a'', CHR 0x27, CHR 0x27, CHR ''b'', CHR ''%'', CHR 0x27]] = Inr (NameLike [CHR ''%'', CHR ''a'', CHR 0x27, CHR 0x27, CHR ''b'', CHR ''%''])"
  "\<not> name_meets (Some (NameLike [CHR ''%'', CHR ''a'', CHR 0x27, CHR 0x27, CHR ''b'', CHR ''%''])) [CHR ''a'', CHR 0x27, CHR ''b'']"
  by (simp add: like_filter_def escapeLikeBangSafe_def) code_simp+

section \<open>Two servers\<close>

text \<open>The headers that the federating client sets; there is none for the workspace.\<close>

definition headers_of :: "fed_request \<Rightarrow> string \<Rightarrow> string" where
  "headers_of r k = (if k = HeaderPeer then fr_Peer r else if k = HeaderTimestamp then fr_Timestamp r
     else if k = HeaderSignature then fr_Signature r else [])"

text \<open>A transport that delivers requests to the server with the handler \<open>nh\<close> in the state \<open>b\<close>, which is reached at \<open>addr_b\<close>.\<close>

definition wire :: "NativeHandler \<Rightarrow> (string \<Rightarrow> federateSearchReq option) \<Rightarrow> (string \<times> searchResultItem list \<Rightarrow> string) \<Rightarrow> string \<Rightarrow> api \<Rightarrow>
    fed_request \<Rightarrow> (int \<times> string) option" where
  "wire nh unmarshal marshal addr_b b r =
     (if HasPrefix (fr_URL r) addr_b then
        (case fst (FederateSearch_n nh unmarshal (fr_Method r) (TrimPrefix (fr_URL r) addr_b) (headers_of r) \<lparr>rd_data = fr_Body r, rd_fails = False\<rparr> b) of
           Inr ans \<Rightarrow> Some (200, marshal ans)
         | Inl (HttpError code e) \<Rightarrow> Some (int code, e))
      else None)"

text \<open>The clocks of two servers: sensible times, and never more than five minutes apart.\<close>

definition clocks_close :: "db \<Rightarrow> db \<Rightarrow> bool" where
  "clocks_close s t \<longleftrightarrow> (\<forall>i j. 0 \<le> clock s i \<and> clock s i < 2 ^ 62 \<and> 0 \<le> clock t j \<and> clock t j < 2 ^ 62 \<and> \<bar>clock t j - clock s i\<bar> \<le> DefaultClockSkewMS)"

definition base_url :: "string \<Rightarrow> string" where
  "base_url u = rev (dropWhile (\<lambda>c. c = CHR ''/'') (rev u))"

definition search_path :: string where
  "search_path = ''/api/v1/federate/search''"

definition signed_search :: "NativeHandler \<Rightarrow> string \<Rightarrow> 8 word list \<Rightarrow> int \<Rightarrow> string \<Rightarrow> fed_request" where
  "signed_search nh addr_b rnd n body = \<lparr>fr_Method = ''POST'', fr_URL = addr_b @ search_path, fr_Peer = federationOurName nh,
     fr_Timestamp = FormatInt n, fr_Signature = signRequest rnd ''POST'' search_path n body, fr_Body = body\<rparr>"

lemma headers_of_signed:
  "headers_of (signed_search nh addr_b rnd n body) HeaderPeer = federationOurName nh"
  "headers_of (signed_search nh addr_b rnd n body) HeaderTimestamp = FormatInt n"
  "headers_of (signed_search nh addr_b rnd n body) HeaderSignature = signRequest rnd ''POST'' search_path n body"
  "currentWorkspace (headers_of r) = ''default''"
  by (simp_all add: headers_of_def signed_search_def HeaderPeer_def HeaderTimestamp_def HeaderSignature_def currentWorkspace_def)

lemma names_nonempty: "federationOurName nh \<noteq> []" "signRequest rnd meth path n body \<noteq> []" "FormatInt n \<noteq> []"
  by (auto simp: federationOurName_def or_default_def signRequest_def FormatInt_def)

text \<open>What the peer answers.\<close>

lemma validate_signed:
  assumes "length rnd = 32" and "length body \<le> maxFederationRequestBytes" and "0 \<le> n" "n < 2 ^ 62"
    and "0 \<le> clock (hk_db b) (clock_pos (hk_db b))" "clock (hk_db b) (clock_pos (hk_db b)) < 2 ^ 62"
    and "\<bar>clock (hk_db b) (clock_pos (hk_db b)) - n\<bar> \<le> DefaultClockSkewMS"
    and "GetPeerByName ''default'' (federationOurName nh) (hk_db b) = (Inr pb, hk_db b)" and "peer_Secret pb = NewSecret rnd"
  shows "validateFederationRequest ''POST'' search_path (headers_of (signed_search nh addr_b rnd n body)) \<lparr>rd_data = body, rd_fails = False\<rparr> b =
    (Inr body, b\<lparr>hk_db := (hk_db b)\<lparr>clock_pos := Suc (clock_pos (hk_db b))\<rparr>\<rparr>)"
proof -
  have i: "int64_range n" using assms(3,4) by auto
  have "VerifyRequest (clock (hk_db b) (clock_pos (hk_db b))) (NewSecret rnd) ''POST'' search_path n body (signRequest rnd ''POST'' search_path n body) = None"
    unfolding VerifyRequest_accepts [OF assms(5,6) i] using assms(1,7) by (simp add: NewSecret_def)
  then show ?thesis using assms(2,8,9)
    by (simp add: validateFederationRequest_def headers_of_signed names_nonempty ParseInt_FormatInt [OF i] sem_simps call_as_def call_def on_db_def now_def)
qed

text \<open>Neither the clock nor the table of peers plays a part in the search.\<close>

lemma runLocalSearch_frame:
  "runLocalSearch nh ws q k mx (s\<lparr>clock_pos := i\<rparr>) = runLocalSearch nh ws q k mx s"
  "runLocalSearch nh ws q k mx (s\<lparr>peers := ps\<rparr>) = runLocalSearch nh ws q k mx s"
proof -
  have "ListPrompts ws (s\<lparr>clock_pos := i\<rparr>) = ListPrompts ws s" "ListPrompts ws (s\<lparr>peers := ps\<rparr>) = ListPrompts ws s"
    by (simp_all add: ListPrompts_def prompt_versions_def Let_def)
  moreover have "SearchRunsByName ws q m (s\<lparr>clock_pos := i\<rparr>) = SearchRunsByName ws q m s" "SearchRunsByName ws q m (s\<lparr>peers := ps\<rparr>) = SearchRunsByName ws q m s" for m
    by (simp_all add: SearchRunsByName_def in_workspace_def Let_def)
  moreover have "SearchExperiments up opt (s\<lparr>clock_pos := i\<rparr>) = SearchExperiments up opt s" "SearchExperiments up opt (s\<lparr>peers := ps\<rparr>) = SearchExperiments up opt s" for up opt
    by (simp_all add: SearchExperiments_def loadExperimentTags_def Let_def cong: sum.case_cong)
  ultimately show "runLocalSearch nh ws q k mx (s\<lparr>clock_pos := i\<rparr>) = runLocalSearch nh ws q k mx s"
    and "runLocalSearch nh ws q k mx (s\<lparr>peers := ps\<rparr>) = runLocalSearch nh ws q k mx s"
    by (simp_all add: runLocalSearch_def experiments_named_def Let_def)
qed

lemma wire_signed:
  assumes "length rnd = 32" and "length body \<le> maxFederationRequestBytes" and "0 \<le> n" "n < 2 ^ 62"
    and "0 \<le> clock (hk_db b) (clock_pos (hk_db b))" "clock (hk_db b) (clock_pos (hk_db b)) < 2 ^ 62"
    and "\<bar>clock (hk_db b) (clock_pos (hk_db b)) - n\<bar> \<le> DefaultClockSkewMS"
    and "GetPeerByName ''default'' (federationOurName nh) (hk_db b) = (Inr pb, hk_db b)" and "peer_Secret pb = NewSecret rnd"
    and "unmarshal body = Some req" and "fq_Q req \<noteq> []" and "0 < fq_Max req"
  shows "wire nhB unmarshal marshal addr_b b (signed_search nh addr_b rnd n body) =
    Some (200, marshal (federationOurName nhB, runLocalSearch nhB ''default'' (fq_Q req) (fq_Kind req) (fq_Max req) (hk_db b)))"
proof -
  have sel: "fr_URL (signed_search nh addr_b rnd n body) = addr_b @ search_path" "fr_Method (signed_search nh addr_b rnd n body) = ''POST''"
      "fr_Body (signed_search nh addr_b rnd n body) = body" by (simp_all add: signed_search_def)
  have "fst (FederateSearch_n nhB unmarshal ''POST'' search_path (headers_of (signed_search nh addr_b rnd n body)) \<lparr>rd_data = body, rd_fails = False\<rparr> b) =
      Inr (federationOurName nhB, runLocalSearch nhB ''default'' (fq_Q req) (fq_Kind req) (fq_Max req) (hk_db b))"
    using assms(10-12) by (simp add: FederateSearch_n_def validate_signed [OF assms(1-9), where addr_b = addr_b] decodeJSON_def
      sem_simps read_db_def headers_of_signed runLocalSearch_frame(1))
  then show ?thesis by (simp add: wire_def sel HasPrefix_def TrimPrefix_def)
qed

lemma wire_unknown:
  assumes "GetPeerByName ''default'' (federationOurName nh) (hk_db b) = (Inl e, hk_db b)"
  shows "wire nhB unmarshal marshal addr_b b (signed_search nh addr_b rnd n body) = Some (401, ''UNAUTHENTICATED'')"
proof -
  have sel: "fr_URL (signed_search nh addr_b rnd n body) = addr_b @ search_path" "fr_Method (signed_search nh addr_b rnd n body) = ''POST''"
      "fr_Body (signed_search nh addr_b rnd n body) = body" by (simp_all add: signed_search_def)
  have "fst (FederateSearch_n nhB unmarshal ''POST'' search_path (headers_of (signed_search nh addr_b rnd n body)) \<lparr>rd_data = body, rd_fails = False\<rparr> b) =
      Inl unauthenticated"
    using assms by (auto simp: FederateSearch_n_def validateFederationRequest_def headers_of_signed names_nonempty sem_simps call_as_def on_db_def
      split: option.splits)
  then show ?thesis by (simp add: wire_def sel HasPrefix_def TrimPrefix_def unauthenticated_def)
qed

text \<open>An empty cache, or none, sends the request out.\<close>

definition cache_empty :: "napi \<Rightarrow> bool" where
  "cache_empty st \<longleftrightarrow> (case na_cache st of None \<Rightarrow> True | Some c \<Rightarrow> ca_entries c = Map.empty)"

lemma cached_answer_empty:
  assumes "cache_empty st"
  shows "\<exists>i. fst (cached_answer env k st) = None \<and> hk_db (snd (cached_answer env k st)) = (hk_db st)\<lparr>clock_pos := i\<rparr>"
proof (cases "na_cache st")
  case None
  then show ?thesis by (intro exI [of _ "clock_pos (hk_db st)"]) (simp add: cached_answer_def)
next
  case (Some c)
  with assms show ?thesis by (auto simp: cache_empty_def cached_answer_def read_clock_def on_db_def now_def cache_get_def)
qed

lemma DoCtx_signed:
  assumes "length rnd = 32"
  shows "\<exists>c. NewClient url (federationOurName nh) (NewSecret rnd) = Inr c \<and>
    DoCtx http n c ''POST'' ''/api/v1/federate/search'' body = (case http (signed_search nh (base_url url) rnd n body) of
      None \<Rightarrow> Inl ErrTransport | Some (resp, respBody) \<Rightarrow> if MaxResponseBytes < length respBody then Inl ErrResponseTooLarge else Inr (resp, respBody))"
  using assms by (simp add: NewClient_def NewSecret_def DoCtx_def HasPrefix_def signed_search_def search_path_def base_url_def)

lemma fetch_answer_fst:
  assumes "length rnd = 32" and "peer_Secret p = NewSecret rnd"
  shows "fst (fetch_answer nh env k body p st) = (case fe_http env (signed_search nh (base_url (peer_URL p)) rnd (clock (hk_db st) (clock_pos (hk_db st))) body) of
      None \<Rightarrow> None
    | Some (status, payload) \<Rightarrow> if MaxResponseBytes < length payload \<or> status \<noteq> 200 then None else fe_decode env payload)"
proof -
  obtain c where "NewClient (peer_URL p) (federationOurName nh) (NewSecret rnd) = Inr c"
      "DoCtx (fe_http env) (clock (hk_db st) (clock_pos (hk_db st))) c ''POST'' ''/api/v1/federate/search'' body =
        (case fe_http env (signed_search nh (base_url (peer_URL p)) rnd (clock (hk_db st) (clock_pos (hk_db st))) body) of
      None \<Rightarrow> Inl ErrTransport | Some (resp, respBody) \<Rightarrow> if MaxResponseBytes < length respBody then Inl ErrResponseTooLarge else Inr (resp, respBody))"
    using DoCtx_signed [OF assms(1)] by blast
  then show ?thesis
    by (simp add: fetch_answer_def assms(2) read_clock_def on_db_def now_def split: option.split prod.split)
qed


text \<open>Two servers that know each other as "a" and "b", and the encodings of the one request and the one answer between them.\<close>

definition shared_secret :: "8 word list" where
  "shared_secret = replicate 32 7"

definition peer_called :: "string \<Rightarrow> string \<Rightarrow> peer_row" where
  "peer_called nm url = \<lparr>pe_id = 1, pe_name = nm, pe_url = url, pe_secret = NewSecret shared_secret, pe_workspace_id = ''default'', pe_added_at = 5,
     pe_last_seen = None, pe_status = ''connected'', pe_last_error = None\<rparr>"

definition server_a :: napi where
  "server_a = \<lparr>hk_db = sample_db\<lparr>peers := [peer_called ''b'' ''https://b/'']\<rparr>, hk_queue = [], hk_dropped = 0, hk_stopped = False, hk_echo = None,
     hk_sent = [], api_fs = [], na_cache = Some (NewCache 0 0)\<rparr>"

definition server_b :: api where
  "server_b = \<lparr>hk_db = sample_db\<lparr>peers := [peer_called ''a'' ''https://a'']\<rparr>, hk_queue = [], hk_dropped = 0, hk_stopped = False, hk_echo = None,
     hk_sent = [], api_fs = []\<rparr>"

definition native_b :: NativeHandler where
  "native_b = sample_native\<lparr>nh_FederationName := ''b''\<rparr>"

definition sample_req :: federateSearchReq where
  "sample_req = \<lparr>fq_Q = ''r2'', fq_Kind = ''runs'', fq_Max = 10\<rparr>"

definition hits_b :: "searchResultItem list" where
  "hits_b = runLocalSearch native_b ''default'' ''r2'' ''runs'' 10 (hk_db server_b)"

definition sample_fan :: fan_env where
  "sample_fan = \<lparr>fe_http = wire native_b (\<lambda>s. if s = ''q'' then Some sample_req else None) (\<lambda>_. ''ans'') ''https://b'' server_b,
     fe_echo = (\<lambda>_ _. []), fe_encode = (\<lambda>_. ''q''), fe_query = (\<lambda>_. ''q''), fe_decode = (\<lambda>s. if s = ''ans'' then Some (''b'', hits_b) else None),
     fe_order = (\<lambda>ps. ps), fe_error = (\<lambda>_. [])\<rparr>"


end
