(* ===== verification/NativeTenancy.thy ===== *)
theory NativeTenancy
  imports Api NativeFederation
begin

text \<open>
  Separation of workspaces at the native REST API. The part of the database that does not belong to a workspace now also leaves out
  the notes, evals and spans of its runs, its prompts, webhooks, dashboards and peers, and the lineage of its datasets. A request made in
  a workspace leaves the rest as it is. The endpoints that manage workspaces and sessions are not among these requests: they act on
  the workspace in their path, or on no workspace.
\<close>

named_theorems own_intros "statements and methods of the native API that leave the other workspaces alone"

section \<open>What does not belong to a workspace\<close>

definition fids :: "string \<Rightarrow> db \<Rightarrow> string set" where
  "fids ws s = r_id ` set (fruns ws s)"

definition fdatasets :: "string \<Rightarrow> db \<Rightarrow> int set" where
  "fdatasets ws s = d_id ` set (filter (\<lambda>d. d_workspace_id d \<noteq> ws) (datasets_v2 s))"

text \<open>The tables of the native API, with those of the MLflow API and the rest in \<open>fo_rest\<close>.\<close>

definition strip :: "db \<Rightarrow> db" where
  "strip s = s\<lparr>webhooks_seq := 0, dashboards_seq := 0, peers_seq := 0, run_notes := [], evals := [], traces := [], prompts := [], prompt_aliases := [],
     webhooks := [], dashboards := [], peers := [], dataset_lineage := []\<rparr>"

record foreign_rows =
  fo_rest :: db
  fo_notes :: "note_row list"
  fo_evals :: "eval_row list"
  fo_spans :: "span_row list"
  fo_prompts :: "prompt_row list"
  fo_aliases :: "prompt_alias_row list"
  fo_webhooks :: "webhook_row list"
  fo_dashboards :: "dashboard_row list"
  fo_peers :: "peer_row list"
  fo_lineage :: "(int \<times> int) list"

definition elsewhere_n :: "string \<Rightarrow> db \<Rightarrow> foreign_rows" where
  "elsewhere_n ws s = \<lparr>
     fo_rest = elsewhere ws (strip s),
     fo_notes = filter (\<lambda>n. n_run_id n \<in> fids ws s) (run_notes s),
     fo_evals = filter (\<lambda>e. el_run_id e \<in> fids ws s) (evals s),
     fo_spans = filter (\<lambda>r. s_run_id r \<in> Some ` fids ws s) (traces s),
     fo_prompts = filter (\<lambda>p. pt_workspace_id p \<noteq> ws) (prompts s),
     fo_aliases = filter (\<lambda>a. pa_workspace_id a \<noteq> ws) (prompt_aliases s),
     fo_webhooks = filter (\<lambda>w. default_ws (wh_workspace_id w) \<noteq> ws) (webhooks s),
     fo_dashboards = filter (\<lambda>d. da_workspace_id d \<noteq> ws) (dashboards s),
     fo_peers = filter (\<lambda>p. pe_workspace_id p \<noteq> ws) (peers s),
     fo_lineage = filter (\<lambda>(c, p). c \<in> fdatasets ws s) (dataset_lineage s)\<rparr>"

definition own :: "string \<Rightarrow> foreign_rows \<Rightarrow> db \<Rightarrow> bool" where
  "own ws X s \<longleftrightarrow> db_ok s \<and> elsewhere_n ws s = X"

abbreviation run_elsewhere :: "foreign_rows \<Rightarrow> string \<Rightarrow> bool" where
  "run_elsewhere X rid \<equiv> foreign_run (fo_rest X) rid"

lemma strip_belonging [simp]: "fexp ws (strip s) = fexp ws s" "fruns ws (strip s) = fruns ws s"
  by (simp_all add: strip_def fexp_def fruns_def)

lemma ownD: "own ws X s \<Longrightarrow> db_ok s" "own ws X s \<Longrightarrow> run_elsewhere X rid \<longleftrightarrow> rid \<in> fids ws s" "own ws X s \<Longrightarrow> safe ws (elsewhere ws s) s"
    "own ws X s \<Longrightarrow> fo_webhooks X = filter (\<lambda>w. default_ws (wh_workspace_id w) \<noteq> ws) (webhooks s)"
    "own ws X s \<Longrightarrow> fo_peers X = filter (\<lambda>p. pe_workspace_id p \<noteq> ws) (peers s)"
    "own ws X s \<Longrightarrow> foreign_experiment (fo_rest X) i \<longleftrightarrow> foreign_experiment (elsewhere ws s) i"
  by (auto simp: own_def elsewhere_n_def foreign_run_def foreign_experiment_def fids_def safe_def)

lemma fids_frame [simp]:
  "fids ws (s\<lparr>run_notes := a1\<rparr>) = fids ws s" "fids ws (s\<lparr>evals := a2\<rparr>) = fids ws s" "fids ws (s\<lparr>traces := a3\<rparr>) = fids ws s"
  "fids ws (s\<lparr>prompts := a4\<rparr>) = fids ws s" "fids ws (s\<lparr>prompt_aliases := a5\<rparr>) = fids ws s" "fids ws (s\<lparr>webhooks := a6\<rparr>) = fids ws s"
  "fids ws (s\<lparr>webhooks_seq := n6\<rparr>) = fids ws s" "fids ws (s\<lparr>dashboards := a7\<rparr>) = fids ws s" "fids ws (s\<lparr>dashboards_seq := n7\<rparr>) = fids ws s"
  "fids ws (s\<lparr>peers := a8\<rparr>) = fids ws s" "fids ws (s\<lparr>peers_seq := n8\<rparr>) = fids ws s"
  by (simp_all add: fids_def fruns_def fexp_def)

lemma fdatasets_frame [simp]:
  "fdatasets ws (s\<lparr>run_notes := a1\<rparr>) = fdatasets ws s" "fdatasets ws (s\<lparr>evals := a2\<rparr>) = fdatasets ws s" "fdatasets ws (s\<lparr>traces := a3\<rparr>) = fdatasets ws s"
  "fdatasets ws (s\<lparr>prompts := a4\<rparr>) = fdatasets ws s" "fdatasets ws (s\<lparr>prompt_aliases := a5\<rparr>) = fdatasets ws s" "fdatasets ws (s\<lparr>webhooks := a6\<rparr>) = fdatasets ws s"
  "fdatasets ws (s\<lparr>webhooks_seq := n6\<rparr>) = fdatasets ws s" "fdatasets ws (s\<lparr>dashboards := a7\<rparr>) = fdatasets ws s" "fdatasets ws (s\<lparr>dashboards_seq := n7\<rparr>) = fdatasets ws s"
  "fdatasets ws (s\<lparr>peers := a8\<rparr>) = fdatasets ws s" "fdatasets ws (s\<lparr>peers_seq := n8\<rparr>) = fdatasets ws s"
  by (simp_all add: fdatasets_def)

lemma strip_frame [simp]:
  "strip (s\<lparr>run_notes := a1\<rparr>) = strip s" "strip (s\<lparr>evals := a2\<rparr>) = strip s" "strip (s\<lparr>traces := a3\<rparr>) = strip s"
  "strip (s\<lparr>prompts := a4\<rparr>) = strip s" "strip (s\<lparr>prompt_aliases := a5\<rparr>) = strip s" "strip (s\<lparr>webhooks := a6\<rparr>) = strip s"
  "strip (s\<lparr>webhooks_seq := n6\<rparr>) = strip s" "strip (s\<lparr>dashboards := a7\<rparr>) = strip s" "strip (s\<lparr>dashboards_seq := n7\<rparr>) = strip s"
  "strip (s\<lparr>peers := a8\<rparr>) = strip s" "strip (s\<lparr>peers_seq := n8\<rparr>) = strip s"
  by (simp_all add: strip_def)

lemma clockless_own: "clockless (own ws X)"
proof -
  have "elsewhere_n ws (s\<lparr>clock_pos := n\<rparr>) = elsewhere_n ws s" for s n
  proof -
    have "elsewhere ws (strip (s\<lparr>clock_pos := n\<rparr>)) = elsewhere ws (strip s)"
      by (simp add: elsewhere_def strip_def fruns_def fexp_def)
    moreover have "fids ws (s\<lparr>clock_pos := n\<rparr>) = fids ws s" "fdatasets ws (s\<lparr>clock_pos := n\<rparr>) = fdatasets ws s"
      by (simp_all add: fids_def fdatasets_def fruns_def fexp_def)
    ultimately show ?thesis by (simp add: elsewhere_n_def)
  qed
  then show ?thesis using clockless_db_ok by (simp add: clockless_def own_def)
qed

lemmas own_now [own_intros] = keeps_now [OF clockless_own]
lemmas own_tx [own_intros] = keeps_tx [OF clockless_own]

lemma own_stmt:
  assumes "keeps db_ok (stmt ck eff)" and "\<And>s. own ws X s \<Longrightarrow> ck s = None \<Longrightarrow> elsewhere_n ws (snd (eff s)) = elsewhere_n ws s"
  shows "keeps (own ws X) (stmt ck eff)"
proof (rule keepsI)
  fix s assume s: "own ws X s"
  have "db_ok (snd (stmt ck eff s))" using assms(1) s by (auto simp: own_def keeps_def)
  moreover have "elsewhere_n ws (snd (stmt ck eff s)) = X"
    using assms(2) [OF s] s by (cases "ck s") (simp_all add: stmt_def own_def)
  ultimately show "own ws X (snd (stmt ck eff s))" by (simp add: own_def)
qed

section \<open>Statements\<close>

lemma own_upsert_run_notes [own_intros]: "\<not> run_elsewhere X (n_run_id n) \<Longrightarrow> keeps (own ws X) (upsert_run_notes n)"
  unfolding upsert_run_notes_def by (intro own_stmt keeps_upsert_run_notes [unfolded upsert_run_notes_def])
    (auto simp: elsewhere_n_def ownD n_upd_def intro!: filter_upsert)

lemma own_delete_run_notes [own_intros]: "\<not> run_elsewhere X rid \<Longrightarrow> keeps (own ws X) (delete_run_notes rid)"
  unfolding delete_run_notes_def by (intro own_stmt keeps_delete_run_notes [unfolded delete_run_notes_def])
    (auto simp: elsewhere_n_def ownD intro!: filter_delete_where)

lemma own_upsert_evals [own_intros]: "\<not> run_elsewhere X (el_run_id e) \<Longrightarrow> keeps (own ws X) (upsert_evals e)"
  unfolding upsert_evals_def by (intro own_stmt keeps_upsert_evals [unfolded upsert_evals_def])
    (auto simp: elsewhere_n_def ownD el_upd_def intro!: filter_upsert)

lemma own_upsert_traces: "(\<And>r. s_run_id n = Some r \<Longrightarrow> \<not> run_elsewhere X r) \<Longrightarrow> keeps (own ws X) (upsert_traces n)"
proof -
  assume new: "\<And>r. s_run_id n = Some r \<Longrightarrow> \<not> run_elsewhere X r"
  have same: "filter (\<lambda>r. s_run_id r \<in> Some ` fids ws s) (update_where (\<lambda>r. s_id r = s_id n) (\<lambda>r. span_upd r n) (traces s))
      = filter (\<lambda>r. s_run_id r \<in> Some ` fids ws s) (traces s)"
    if s: "own ws X s" and old: "first_row (\<lambda>r. s_id r = s_id n) (traces s) = Some old" and may: "span_may_update old n" for s old
  proof (rule filter_update_where)
    fix r assume r: "s_id r = s_id n" "r \<in> set (traces s)"
    have "pk s_id (traces s)" using ownD(1) [OF s] by (simp add: db_ok_def traces_ok_def)
    then have "r = old" using r first_row_Some [OF old] by (auto simp: pk_def distinct_map inj_on_def)
    then show "\<not> (s_run_id r \<in> Some ` fids ws s) \<and> \<not> (s_run_id (span_upd r n) \<in> Some ` fids ws s)"
      using may new by (auto simp: span_may_update_def span_upd_def ownD(2) [OF s] split: option.splits)
  qed
  have app: "s_run_id n \<notin> Some ` fids ws s" if "own ws X s" for s using new by (auto simp: ownD(2) [OF that])
  show ?thesis
    unfolding upsert_traces_def
  proof (intro own_stmt keeps_upsert_traces [unfolded upsert_traces_def])
    fix s assume s: "own ws X s"
    show "elsewhere_n ws (snd (case first_row (\<lambda>r. s_id r = s_id n) (traces s) of None \<Rightarrow> (1, s\<lparr>traces := traces s @ [n]\<rparr>)
        | Some old \<Rightarrow> if span_may_update old n then (1, s\<lparr>traces := update_where (\<lambda>r. s_id r = s_id n) (\<lambda>r. span_upd r n) (traces s)\<rparr>) else (0, s)))
      = elsewhere_n ws s"
      using same [OF s] app [OF s] by (auto simp: elsewhere_n_def split: option.split)
  qed
qed

lemma own_insert_prompts: "pt_workspace_id p = ws \<Longrightarrow> keeps (own ws X) (insert_prompts p)"
  unfolding insert_prompts_def by (intro own_stmt keeps_insert_prompts [unfolded insert_prompts_def]) (simp add: elsewhere_n_def)

lemma own_upsert_prompt_aliases: "pa_workspace_id a = ws \<Longrightarrow> keeps (own ws X) (upsert_prompt_aliases a)"
  unfolding upsert_prompt_aliases_def by (intro own_stmt keeps_upsert_prompt_aliases [unfolded upsert_prompt_aliases_def])
    (auto simp: elsewhere_n_def pa_upd_def intro!: filter_upsert)

lemma own_insert_webhooks: "(\<And>i. default_ws (wh_workspace_id (mk i)) = ws) \<Longrightarrow> keeps (own ws X) (insert_webhooks mk)"
  unfolding insert_webhooks_def by (intro own_stmt keeps_insert_webhooks [unfolded insert_webhooks_def]) (simp add: elsewhere_n_def Let_def)

lemma own_update_webhooks:
  assumes "i \<notin> wh_id ` set (fo_webhooks X)" and "\<And>w. wh_id w = i \<Longrightarrow> default_ws (wh_workspace_id w) = ws \<Longrightarrow> default_ws (wh_workspace_id (f w)) = ws"
  shows "keeps (own ws X) (update_webhooks i f)"
  unfolding update_webhooks_def
  by (intro own_stmt keeps_update_webhooks [unfolded update_webhooks_def])
    (use assms in \<open>auto simp: elsewhere_n_def ownD intro!: filter_update_where\<close>)

lemma own_delete_webhooks: "i \<notin> wh_id ` set (fo_webhooks X) \<Longrightarrow> keeps (own ws X) (delete_webhooks i)"
  unfolding delete_webhooks_def by (intro own_stmt keeps_delete_webhooks [unfolded delete_webhooks_def])
    (auto simp: elsewhere_n_def ownD intro!: filter_delete_where)

lemma own_upsert_dashboards: "da_workspace_id d = ws \<Longrightarrow> keeps (own ws X) (upsert_dashboards d)"
  unfolding upsert_dashboards_def by (intro own_stmt keeps_upsert_dashboards [unfolded upsert_dashboards_def])
    (auto simp: elsewhere_n_def da_upd_def intro!: filter_upsert)

lemma own_insert_peers: "(\<And>i. pe_workspace_id (mk i) = ws) \<Longrightarrow> keeps (own ws X) (insert_peers mk)"
  unfolding insert_peers_def by (intro own_stmt keeps_insert_peers [unfolded insert_peers_def]) (simp add: elsewhere_n_def Let_def)

lemma own_delete_peers [own_intros]: "keeps (own ws X) (delete_peers i ws)"
  unfolding delete_peers_def by (intro own_stmt keeps_delete_peers [unfolded delete_peers_def])
    (auto simp: elsewhere_n_def intro!: filter_delete_where)

lemma own_update_peers: "i \<notin> pe_id ` set (fo_peers X) \<Longrightarrow> keeps (own ws X) (update_peers i st e seen)"
  unfolding update_peers_def by (intro own_stmt keeps_update_peers [unfolded update_peers_def])
    (auto simp: elsewhere_n_def ownD intro!: filter_update_where)

section \<open>Store methods\<close>

text \<open>What leaves the rest alone in the sense of the MLflow API does so here: that notion fixes the tables of the native API as a whole.\<close>

lemma elsewhere_native [simp]:
  "run_notes (elsewhere ws s) = run_notes s" "evals (elsewhere ws s) = evals s" "traces (elsewhere ws s) = traces s" "prompts (elsewhere ws s) = prompts s"
  "prompt_aliases (elsewhere ws s) = prompt_aliases s" "webhooks (elsewhere ws s) = webhooks s" "dashboards (elsewhere ws s) = dashboards s"
  "peers (elsewhere ws s) = peers s" "dataset_lineage (elsewhere ws s) = dataset_lineage s"
  "datasets_v2 (elsewhere ws s) = filter (\<lambda>d. d_workspace_id d \<noteq> ws) (datasets_v2 s)"
  by (simp_all add: elsewhere_def)

lemma elsewhere_strip: "elsewhere ws (strip s) = strip (elsewhere ws s)"
  by (simp add: elsewhere_def) (simp add: strip_def)

lemma elsewhere_n_cong:
  assumes "elsewhere ws t = elsewhere ws s"
  shows "elsewhere_n ws t = elsewhere_n ws s"
proof -
  note eq = arg_cong [OF assms]
  have "fids ws t = fids ws s" using eq [of runs] by (simp add: fids_def)
  moreover have "fdatasets ws t = fdatasets ws s" using eq [of datasets_v2] by (simp add: fdatasets_def)
  moreover have "run_notes t = run_notes s" "evals t = evals s" "traces t = traces s" "prompts t = prompts s" "prompt_aliases t = prompt_aliases s"
      "webhooks t = webhooks s" "dashboards t = dashboards s" "peers t = peers s" "dataset_lineage t = dataset_lineage s"
    using eq [of run_notes] eq [of evals] eq [of traces] eq [of prompts] eq [of prompt_aliases] eq [of webhooks] eq [of dashboards] eq [of peers]
      eq [of dataset_lineage] by simp_all
  ultimately show ?thesis by (simp add: elsewhere_n_def elsewhere_strip assms)
qed

lemma own_of_safe:
  assumes "\<And>s. own ws X s \<Longrightarrow> keeps (safe ws (elsewhere ws s)) m"
  shows "keeps (own ws X) m"
proof (rule keepsI)
  fix s assume s: "own ws X s"
  have "safe ws (elsewhere ws s) (snd (m s))" by (rule keepsD [OF assms [OF s] ownD(3) [OF s]])
  then have "db_ok (snd (m s))" and "elsewhere ws (snd (m s)) = elsewhere ws s" by (simp_all add: safe_def)
  then show "own ws X (snd (m s))" using s elsewhere_n_cong [of ws "snd (m s)" s] by (simp add: own_def)
qed

lemma keeps_for_each_in: "(\<And>x. x \<in> set xs \<Longrightarrow> keeps P (f x)) \<Longrightarrow> keeps P (for_each f xs)"
  by (induction xs) (auto intro!: keeps_ret keeps_bnd)

lemma own_SetRunNote [own_intros]: "\<not> run_elsewhere X rid \<Longrightarrow> keeps (own ws X) (SetRunNote rid c u)"
  unfolding SetRunNote_def by (intro keeps_bnd keeps_if safe_assertRunExists own_intros) simp_all

lemma own_CreateEval [own_intros]: "\<not> run_elsewhere X (evl_RunID e) \<Longrightarrow> keeps (own ws X) (CreateEval e)"
  unfolding CreateEval_def by (intro keeps_bnd safe_assertRunExists own_intros) simp

lemma own_InsertSpans:
  assumes "\<And>sp. sp \<in> set spans \<Longrightarrow> sp_RunID sp \<noteq> [] \<Longrightarrow> \<not> run_elsewhere X (sp_RunID sp)"
  shows "keeps (own ws X) (InsertSpans rnd spans)"
proof -
  have run: "sp_RunID (fill_span i sp) = sp_RunID sp" for i sp by (simp add: fill_span_def Let_def)
  have "keeps (own ws X) (insert_span (span_row_of (fill_span i sp)))" if "sp \<in> set spans" for i sp
    unfolding insert_span_def using assms [OF that]
    by (intro keeps_bnd own_upsert_traces keeps_require) (auto simp: span_row_of_def run nilIfEmpty_def split: if_splits)
  then show ?thesis unfolding InsertSpans_def
    by (intro keeps_if keeps_ret own_intros keeps_for_each_in) (auto simp: in_set_enumerate_eq)
qed

lemma own_CreatePrompt [own_intros]: "ws \<noteq> [] \<Longrightarrow> keeps (own ws X) (CreatePrompt ws p)"
  unfolding CreatePrompt_def create_prompt_once_def
  by (intro keeps_bnd keeps_if keeps_ret keeps_gets keeps_retryWriteRace safe_invalidValue own_intros own_insert_prompts) (simp add: default_ws_def)

lemma own_SetPromptAlias [own_intros]: "ws \<noteq> [] \<Longrightarrow> keeps (own ws X) (SetPromptAlias ws nm al v)"
  unfolding SetPromptAlias_def by (intro keeps_bnd keeps_GetPromptVersion own_upsert_prompt_aliases) (simp add: default_ws_def)

lemma own_CreateWebhook: "default_ws (hook_WorkspaceID w) = ws \<Longrightarrow> keeps (own ws X) (CreateWebhook w)"
  unfolding CreateWebhook_def by (intro keeps_bnd keeps_if keeps_ret own_intros own_insert_webhooks) (auto simp: default_ws_def split: if_splits)

lemma own_UpdateWebhook:
  assumes "hook_ID w \<notin> wh_id ` set (fo_webhooks X)" and "default_ws (hook_WorkspaceID w) = ws"
  shows "keeps (own ws X) (UpdateWebhook w)"
  unfolding UpdateWebhook_def using assms by (intro keeps_bnd keeps_require own_update_webhooks) simp_all

lemma own_DeleteWebhook: "i \<notin> wh_id ` set (fo_webhooks X) \<Longrightarrow> keeps (own ws X) (DeleteWebhook i)"
  unfolding DeleteWebhook_def by (intro keeps_bnd keeps_require own_delete_webhooks)

lemma own_RecordWebhookAttempt: "i \<notin> wh_id ` set (fo_webhooks X) \<Longrightarrow> keeps (own ws X) (RecordWebhookAttempt i st n)"
  unfolding RecordWebhookAttempt_def by (intro keeps_bnd keeps_ret own_update_webhooks) simp_all

lemma own_SaveDashboard [own_intros]: "ws \<noteq> [] \<Longrightarrow> keeps (own ws X) (SaveDashboard ws p w)"
  unfolding SaveDashboard_def by (intro keeps_bnd keeps_GetDashboard own_intros own_upsert_dashboards) (simp add: default_ws_def)

lemma own_CreatePeer: "default_ws (peer_WorkspaceID p) = ws \<Longrightarrow> keeps (own ws X) (CreatePeer p)"
  unfolding CreatePeer_def by (intro keeps_bnd keeps_if keeps_ret keeps_require keeps_map_err own_intros own_insert_peers) simp

lemma own_DeletePeer [own_intros]: "ws \<noteq> [] \<Longrightarrow> keeps (own ws X) (DeletePeer ws i)"
  unfolding DeletePeer_def using own_delete_peers [of ws X i] by (intro keeps_bnd keeps_require) (simp add: default_ws_def)

lemma own_UpdatePeerStatus: "i \<notin> pe_id ` set (fo_peers X) \<Longrightarrow> keeps (own ws X) (UpdatePeerStatus i st e n)"
  unfolding UpdatePeerStatus_def by (intro keeps_bnd keeps_require own_update_peers)

lemma own_CloneExperiment [own_intros]: "ws \<noteq> [] \<Longrightarrow> keeps (own ws X) (CloneExperiment i nm ws)"
proof (rule own_of_safe)
  fix s assume ws: "ws \<noteq> []"
  have "keeps (safe ws (elsewhere ws s)) (CreateExperiment e)" if "exp_WorkspaceID e = ws" for e
    using safe_CreateExperiment [of e] ws by (simp add: that default_ws_def)
  then show "keeps (safe ws (elsewhere ws s)) (CloneExperiment i nm ws)"
    using ws unfolding CloneExperiment_def GetExperiment_def scanExperiment_def Let_def by (auto intro!: keeps_intros keeps_pair)
qed

text \<open>Datasets: the new edges start at the new version, and no dataset of another workspace has its id.\<close>

lemma add_edges_elsewhere: "i \<notin> F \<Longrightarrow> filter (\<lambda>(c, p). c \<in> F) (add_edges i ps ls) = filter (\<lambda>(c, p). c \<in> F) ls"
  unfolding add_edges_def by (induction ps arbitrary: ls) auto

lemma datasets_elsewhere:
  assumes "filter (\<lambda>d. d_workspace_id d \<noteq> ws) ds = filter (\<lambda>d. d_workspace_id d \<noteq> ws) (datasets_v2 s)"
    and "filter (\<lambda>(c, p). c \<in> fdatasets ws s) ls = filter (\<lambda>(c, p). c \<in> fdatasets ws s) (dataset_lineage s)"
  shows "elsewhere_n ws (s\<lparr>clock_pos := n, datasets_v2_seq := q, datasets_v2 := ds, dataset_lineage := ls\<rparr>) = elsewhere_n ws s"
proof -
  let ?t = "s\<lparr>clock_pos := n, datasets_v2_seq := q, datasets_v2 := ds, dataset_lineage := ls\<rparr>"
  have f: "fexp ws ?t = fexp ws s" "fruns ws ?t = fruns ws s" by (simp_all add: fexp_def fruns_def)
  have i: "fids ws ?t = fids ws s" "fdatasets ws ?t = fdatasets ws s" using assms(1) by (simp_all add: fids_def f fdatasets_def)
  have "elsewhere ws (strip ?t) = elsewhere ws (strip s)" unfolding elsewhere_def strip_belonging f by (simp add: strip_def assms(1))
  then show ?thesis using assms(2) by (simp add: elsewhere_n_def i)
qed

lemma own_CreateDatasetVersion:
  assumes "default_ws (dv_WorkspaceID d) = ws"
  shows "keeps (own ws X) (CreateDatasetVersion d parents)"
proof (rule keepsI)
  fix s assume s: "own ws X s"
  have ok: "db_ok (snd (CreateDatasetVersion d parents s))" by (rule keepsD [OF keeps_CreateDatasetVersion ownD(1) [OF s]])
  let ?i = "datasets_v2_seq s + 1"
  have fresh: "?i \<notin> fdatasets ws s"
    using db_okD(20) [OF ownD(1) [OF s]] by (force simp: datasets_ok_def fdatasets_def Schema.below_def)
  have "own ws X (s\<lparr>clock_pos := n\<rparr>)" for n using s clockless_own by (simp add: clockless_def)
  moreover have "elsewhere_n ws (s\<lparr>clock_pos := n, datasets_v2_seq := ?i, datasets_v2 := datasets_v2 s @ [new_dataset_row (dataset_defaults d c) v ?i],
      dataset_lineage := add_edges ?i parents (dataset_lineage s)\<rparr>) = elsewhere_n ws s" for n c v
    by (rule datasets_elsewhere) (simp_all add: new_dataset_row_def dataset_defaults_def assms add_edges_elsewhere [OF fresh])
  ultimately show "own ws X (snd (CreateDatasetVersion d parents s))"
    using CreateDatasetVersion_cases [OF ownD(1) [OF s], of d parents] ok s by (auto simp: Let_def own_def)
qed

lemma own_update_dataset_stage [own_intros]: "keeps (own ws X) (update_dataset_stage ws nm v)"
  unfolding update_dataset_stage_def
proof (intro own_stmt keeps_update_dataset_stage [unfolded update_dataset_stage_def], unfold snd_conv)
  fix s :: db
  let ?ds = "update_where (\<lambda>d. d_key d = (ws, nm, v)) (\<lambda>d. d\<lparr>d_lifecycle_stage := ''deleted''\<rparr>) (datasets_v2 s)"
  have "filter (\<lambda>d. d_workspace_id d \<noteq> ws) ?ds = filter (\<lambda>d. d_workspace_id d \<noteq> ws) (datasets_v2 s)" by (intro update_in_ws) auto
  from datasets_elsewhere [where ls = "dataset_lineage s" and n = "clock_pos s" and q = "datasets_v2_seq s", OF this refl] show "elsewhere_n ws (s\<lparr>datasets_v2 := ?ds\<rparr>) = elsewhere_n ws s" by simp
qed

lemma own_SoftDeleteDatasetVersion [own_intros]: "ws \<noteq> [] \<Longrightarrow> keeps (own ws X) (SoftDeleteDatasetVersion ws nm v)"
  unfolding SoftDeleteDatasetVersion_def using own_update_dataset_stage [of ws X nm v] by (intro keeps_bnd keeps_require) (simp add: default_ws_def)

section \<open>Calls and guards\<close>

definition sep_n :: "string \<Rightarrow> api \<Rightarrow> api \<Rightarrow> bool" where
  "sep_n ws a0 a \<longleftrightarrow> own ws (elsewhere_n ws (hk_db a0)) (hk_db a) \<and> hk_queue a = hk_queue a0"

named_theorems nsep_intros "parts of native handlers that stay inside the workspace"

lemma on_db_sep_n:
  assumes "keeps (own ws (elsewhere_n ws (hk_db a0))) m" and "sep_n ws a0 a"
  shows "sep_n ws a0 (snd (on_db m a))"
  using assms keepsD [OF assms(1), of "hk_db a"] by (simp add: sep_n_def on_db_snd)

lemma call_as_snd: "snd (call_as e m a) = snd (on_db m a)" "snd (call_or d m a) = snd (on_db m a)"
  by (auto simp: call_as_def call_or_def split: prod.split sum.split)

lemma nsep_call:
  assumes "keeps (own ws (elsewhere_n ws (hk_db a0))) m"
  shows "keeps (sep_n ws a0) (call m)" and "keeps (sep_n ws a0) (ignoring m)" and "keeps (sep_n ws a0) (call_as e m)" and "keeps (sep_n ws a0) (call_or d m)"
  using on_db_sep_n [OF assms] by (simp_all add: keeps_def call_snd call_as_snd)

lemma nsep_now [nsep_intros]: "keeps (sep_n ws a0) (call now)"
  by (intro nsep_call own_now)

text \<open>Calls that only read, or only read the clock.\<close>

lemma nsep_read_calls [nsep_intros]:
  "keeps (sep_n ws a0) (call (GetRunInWorkspace rid w))" "keeps (sep_n ws a0) (call (GetRunAsOfInWorkspace rid w t))"
  "keeps (sep_n ws a0) (call (GetRunNote rid))" "keeps (sep_n ws a0) (call_or d1 (bnd (GetRunNote rid) (\<lambda>x. ret (Some x))))"
  "keeps (sep_n ws a0) (call (GetEval rid))" "keeps (sep_n ws a0) (call (GetLatestPrompt w nm))" "keeps (sep_n ws a0) (call (GetPromptVersion w nm v))"
  "keeps (sep_n ws a0) (call (GetPromptByAlias w nm al))" "keeps (sep_n ws a0) (call (getWebhookInWorkspace w i))"
  "keeps (sep_n ws a0) (call (GetRunLineageWithOptions rid opt))" "keeps (sep_n ws a0) (call (GetExperiment i))"
  "keeps (sep_n ws a0) (call_or d2 (GetDashboard w pj))" "keeps (sep_n ws a0) (call (GetDatasetVersion w nm v))"
  "keeps (sep_n ws a0) (call (GetDatasetLineage w nm v))" "keeps (sep_n ws a0) (call (GetPeer w i))" "keeps (sep_n ws a0) (call_as e (GetPeerByName w nm))"
  unfolding GetRunInWorkspace_def getRunInWorkspace_def GetRunAsOfInWorkspace_def getRunAsOfImpl_def GetRunNote_def GetEval_def GetLatestPrompt_def
    GetPromptVersion_def GetPromptByAlias_def scanPrompt_def getWebhookInWorkspace_def GetWebhook_def GetRunLineageWithOptions_def GetRun_def GetExperiment_def
    scanExperiment_def GetDashboard_def GetDatasetVersion_def GetDatasetLineage_def GetPeer_def GetPeerByName_def scanPeerRow_def Let_def
  by (intro nsep_call keeps_intros keeps_pair own_now)+

text \<open>The guards.\<close>

lemma sep_nD: "sep_n ws a0 a \<Longrightarrow> own ws (elsewhere_n ws (hk_db a0)) (hk_db a)"
  by (simp add: sep_n_def)

lemma run_guard_n:
  assumes "sep_n ws a0 a" and "ws \<noteq> []" and "ensureRunInWorkspace ws rid a = (Inr u, b)"
  shows "\<not> run_elsewhere (elsewhere_n ws (hk_db a0)) rid"
proof -
  note o = sep_nD [OF assms(1)]
  obtain run t where "GetRunInWorkspace rid ws (hk_db a) = (Inr run, t)" using assms(3) by (auto simp: ensureRunInWorkspace_def call_ok elim!: bnd_okE)
  from run_guard(1) [OF ownD(3) [OF o] assms(2) this] show ?thesis unfolding ownD(2) [OF o] by (simp add: foreign_run_def fids_def)
qed

lemma nsep_ensure [nsep_intros]: "keeps (sep_n ws a0) (ensureRunInWorkspace w rid)"
  unfolding ensureRunInWorkspace_def by (intro keeps_bnd keeps_ret nsep_intros)

lemma nguarded_run:
  assumes "ws \<noteq> []" and "\<not> run_elsewhere (elsewhere_n ws (hk_db a0)) rid \<Longrightarrow> keeps (sep_n ws a0) (f ())"
  shows "keeps (sep_n ws a0) (bnd (ensureRunInWorkspace ws rid) f)"
proof (rule keeps_bnd_result [where R = "\<lambda>_. \<not> run_elsewhere (elsewhere_n ws (hk_db a0)) rid"])
  show "\<not> run_elsewhere (elsewhere_n ws (hk_db a0)) rid" if "sep_n ws a0 a" and "ensureRunInWorkspace ws rid a = (Inr x, b)" for a x b
    by (rule run_guard_n [OF that(1) assms(1) that(2)])
next
  fix x :: unit assume "\<not> run_elsewhere (elsewhere_n ws (hk_db a0)) rid"
  then show "keeps (sep_n ws a0) (f x)" using assms(2) by simp
qed (rule nsep_ensure)

lemma nsep_ensureSpanRuns: "keeps (sep_n ws a0) (ensureSpanRuns w seen spans)"
  by (induction spans arbitrary: seen) (auto intro!: keeps_ret keeps_bnd nsep_intros)

lemma span_guard:
  assumes "ws \<noteq> []"
  shows "sep_n ws a0 a \<Longrightarrow> ensureSpanRuns ws seen spans a = (Inr u, b) \<Longrightarrow> sp \<in> set spans \<Longrightarrow> sp_RunID sp \<noteq> [] \<Longrightarrow>
    sp_RunID sp \<in> seen \<or> \<not> run_elsewhere (elsewhere_n ws (hk_db a0)) (sp_RunID sp)"
proof (induction spans arbitrary: seen a)
  case (Cons x spans)
  show ?case
  proof (cases "sp_RunID x = [] \<or> sp_RunID x \<in> seen")
    case True
    with Cons show ?thesis by auto
  next
    case False
    then obtain v c where g: "ensureRunInWorkspace ws (sp_RunID x) a = (Inr v, c)" and r: "ensureSpanRuns ws (insert (sp_RunID x) seen) spans c = (Inr u, b)"
      using Cons.prems(2) by (auto elim!: bnd_okE)
    have c: "sep_n ws a0 c" by (rule keepsD2 [OF nsep_ensure Cons.prems(1) g])
    show ?thesis using Cons.IH [OF c r] Cons.prems(3,4) run_guard_n [OF Cons.prems(1) assms g] by auto
  qed
qed simp

lemma nguarded_spans:
  assumes "ws \<noteq> []" and "(\<And>sp. sp \<in> set spans \<Longrightarrow> sp_RunID sp \<noteq> [] \<Longrightarrow> \<not> run_elsewhere (elsewhere_n ws (hk_db a0)) (sp_RunID sp)) \<Longrightarrow> keeps (sep_n ws a0) (f ())"
  shows "keeps (sep_n ws a0) (bnd (ensureSpanRunsInWorkspace ws spans) f)"
  unfolding ensureSpanRunsInWorkspace_def
proof (rule keeps_bnd_result [where R = "\<lambda>_. \<forall>sp\<in>set spans. sp_RunID sp \<noteq> [] \<longrightarrow> \<not> run_elsewhere (elsewhere_n ws (hk_db a0)) (sp_RunID sp)"])
  show "\<forall>sp\<in>set spans. sp_RunID sp \<noteq> [] \<longrightarrow> \<not> run_elsewhere (elsewhere_n ws (hk_db a0)) (sp_RunID sp)"
    if "sep_n ws a0 a" and "ensureSpanRuns ws {} spans a = (Inr x, b)" for a x b
    using span_guard [OF assms(1) that] by blast
qed (use assms(2) nsep_ensureSpanRuns in auto)

lemma nguarded_webhook:
  assumes "\<And>w :: Webhook. hook_ID w = i \<Longrightarrow> i \<notin> wh_id ` set (fo_webhooks (elsewhere_n ws (hk_db a0))) \<Longrightarrow> default_ws (hook_WorkspaceID w) = ws \<Longrightarrow> keeps (sep_n ws a0) (f w)"
  shows "keeps (sep_n ws a0) (bnd (call (getWebhookInWorkspace ws i)) f)"
proof (rule keeps_bnd_result [where R = "\<lambda>w. hook_ID w = i \<and> i \<notin> wh_id ` set (fo_webhooks (elsewhere_n ws (hk_db a0))) \<and> default_ws (hook_WorkspaceID w) = ws"])
  fix a w b assume s: "sep_n ws a0 a" and g: "call (getWebhookInWorkspace ws i) a = (Inr w, b)"
  note o = sep_nD [OF s]
  have pk: "pk wh_id (webhooks (hk_db a))" using ownD(1) [OF o] by (simp add: db_ok_def webhooks_ok_def)
  obtain r rs where r: "filter (\<lambda>w. wh_id w = i) (webhooks (hk_db a)) = r # rs" and w: "w = webhook_of_row r" "sameWorkspace (hook_WorkspaceID w) ws"
    using g by (auto simp: call_ok getWebhookInWorkspace_def GetWebhook_def scanWebhooks_def sem_simps split: list.splits if_splits prod.splits sum.splits)
  have m: "r \<in> set (webhooks (hk_db a))" "wh_id r = i" using arg_cong [OF r, of set] by auto
  have d: "default_ws (wh_workspace_id r) = ws" using w by (simp add: sameWorkspace_def webhook_of_row_def default_ws_def)
  have "x = r" if "x \<in> set (webhooks (hk_db a))" "wh_id x = i" for x using pk m that by (auto simp: pk_def distinct_map inj_on_def)
  then have "i \<notin> wh_id ` set (fo_webhooks (elsewhere_n ws (hk_db a0)))" unfolding ownD(4) [OF o] using d by fastforce
  moreover have "hook_ID w = i" "default_ws (hook_WorkspaceID w) = ws" using m(2) d unfolding w(1) by (simp_all add: webhook_of_row_def)
  ultimately show "hook_ID w = i \<and> i \<notin> wh_id ` set (fo_webhooks (elsewhere_n ws (hk_db a0))) \<and> default_ws (hook_WorkspaceID w) = ws" by simp
next
  fix w :: Webhook assume "hook_ID w = i \<and> i \<notin> wh_id ` set (fo_webhooks (elsewhere_n ws (hk_db a0))) \<and> default_ws (hook_WorkspaceID w) = ws"
  then show "keeps (sep_n ws a0) (f w)" by (intro assms) simp_all
qed (rule nsep_read_calls)

lemma nguarded_peer:
  assumes "ws \<noteq> []" and "\<And>p. i \<notin> pe_id ` set (fo_peers (elsewhere_n ws (hk_db a0))) \<Longrightarrow> keeps (sep_n ws a0) (f p)"
  shows "keeps (sep_n ws a0) (bnd (call (GetPeer ws i)) f)"
proof (rule keeps_bnd_result [where R = "\<lambda>_. i \<notin> pe_id ` set (fo_peers (elsewhere_n ws (hk_db a0)))"])
  fix a p b assume s: "sep_n ws a0 a" and g: "call (GetPeer ws i) a = (Inr p, b)"
  note o = sep_nD [OF s]
  have pk: "pk pe_id (peers (hk_db a))" using ownD(1) [OF o] by (simp add: db_ok_def peers_ok_def)
  obtain r where "first_row (\<lambda>p. pe_id p = i \<and> pe_workspace_id p = default_ws ws) (peers (hk_db a)) = Some r"
    using g by (auto simp: call_ok GetPeer_def scanPeerRow_def sem_simps split: option.splits)
  from first_row_Some [OF this] have m: "r \<in> set (peers (hk_db a))" "pe_id r = i" "pe_workspace_id r = ws" using assms(1) by (auto simp: default_ws_def)
  have "x = r" if "x \<in> set (peers (hk_db a))" "pe_id x = i" for x using pk m that by (auto simp: pk_def distinct_map inj_on_def)
  then show "i \<notin> pe_id ` set (fo_peers (elsewhere_n ws (hk_db a0)))" unfolding ownD(5) [OF o] using m(3) by fastforce
qed (rule nsep_read_calls, rule assms(2))

section \<open>Handlers\<close>

lemma nsep_read_clock: "sep_n ws a0 a \<Longrightarrow> sep_n ws a0 (snd (read_clock a))"
  using on_db_sep_n [OF own_now] by (simp add: read_clock_def split: prod.split sum.split) (metis snd_conv)

lemma nsep_deliver_sync [nsep_intros]: "keeps (sep_n ws a0) (deliver_sync env wh ev run)"
proof (rule keepsI)
  fix a assume "sep_n ws a0 a"
  then have 1: "sep_n ws a0 (snd (read_clock a))" by (rule nsep_read_clock)
  then have 2: "sep_n ws a0 (snd (read_clock (snd (read_clock a))))" by (rule nsep_read_clock)
  have frame: "sep_n ws a0 (b\<lparr>hk_echo := e\<rparr>) = sep_n ws a0 b" "sep_n ws a0 (b\<lparr>hk_sent := q\<rparr>) = sep_n ws a0 b" for b e q by (simp_all add: sep_n_def)
  show "sep_n ws a0 (snd (deliver_sync env wh ev run a))"
    using 1 2 by (simp add: deliver_sync_def Deliver_def post_def Let_def frame split_beta split: option.split)
qed

lemma nsep_put_content [nsep_intros]: "keeps (sep_n ws a0) (put_content cwd c rnd r)"
  by (auto simp: keeps_def put_content_def sep_n_def split: prod.split sum.split)

lemma nsep_small [nsep_intros]:
  "keeps (sep_n ws a0) peek_clock" "keeps (sep_n ws a0) (collectRunData rid t ts)" "keeps (sep_n ws a0) (bounded_param hi v)"
  "keeps (sep_n ws a0) (decode_meta unmarshal m)" "keeps (sep_n ws a0) (validateFederationRequest meth path header r)"
  unfolding peek_clock_def collectRunData_def bounded_param_def decode_meta_def validateFederationRequest_def
  by (intro keeps_bnd keeps_if keeps_ret keeps_throw keeps_require keeps_choice sep_reads nsep_intros)+

lemmas nsep_walk = keeps_bnd keeps_if keeps_ret keeps_throw keeps_gets keeps_require keeps_choice keeps_pair sep_reads

text \<open>Runs: notes, spans, evaluations.\<close>

lemma nsep_runs:
  assumes "ws \<noteq> []"
  shows "keeps (sep_n ws a0) (SetRunNote_n ws user rid nbody)" and "keeps (sep_n ws a0) (IngestTraces_n cd rnd tr ws tbody)"
    and "keeps (sep_n ws a0) (IngestOTLP_n marshal rnd ws obody)" and "keeps (sep_n ws a0) (CreateEval_n mm ws ebody)"
proof -
  show "keeps (sep_n ws a0) (SetRunNote_n ws user rid nbody)" unfolding SetRunNote_n_def
    by (rule nguarded_run [OF assms]) (intro nsep_call(1) own_SetRunNote nsep_walk nsep_intros)
  show "keeps (sep_n ws a0) (IngestTraces_n cd rnd tr ws tbody)" unfolding IngestTraces_n_def Let_def
    by (intro keeps_bnd [OF sep_reads(3)] keeps_pair keeps_bnd [OF keeps_require] nguarded_spans [OF assms] keeps_bnd [OF nsep_call(1)] own_InsertSpans keeps_ret)
  show "keeps (sep_n ws a0) (IngestOTLP_n marshal rnd ws obody)" unfolding IngestOTLP_n_def Let_def
    by (intro keeps_bnd [OF sep_reads(3)] nguarded_spans [OF assms] nsep_call(1) own_InsertSpans)
  show "keeps (sep_n ws a0) (CreateEval_n mm ws ebody)" unfolding CreateEval_n_def Let_def
    by (intro keeps_bnd [OF sep_reads(3)] keeps_bnd [OF keeps_require] nguarded_run [OF assms] keeps_bnd [OF nsep_call(1)] own_CreateEval keeps_ret) simp
qed

text \<open>Prompts, dashboards, clones and datasets are made in the workspace.\<close>

lemma nsep_made_here:
  assumes "ws \<noteq> []"
  shows "keeps (sep_n ws a0) (CreatePrompt_n ws pbody)" and "keeps (sep_n ws a0) (SetPromptAlias_n ws raw nm abody)"
    and "keeps (sep_n ws a0) (SaveDashboard_n isArray ws pj dbody)" and "keeps (sep_n ws a0) (CloneExperiment_n ws i cbody)"
    and "keeps (sep_n ws a0) (DeleteDatasetVersion_n ws nm v)"
  unfolding CreatePrompt_n_def SetPromptAlias_n_def SaveDashboard_n_def CloneExperiment_n_def DeleteDatasetVersion_n_def Let_def
  by (intro nsep_walk nsep_intros nsep_call own_CreatePrompt own_SetPromptAlias own_SaveDashboard own_CloneExperiment own_SoftDeleteDatasetVersion assms)+

lemma nsep_upload:
  assumes "ws \<noteq> []"
  shows "keeps (sep_n ws a0) (CreateDatasetVersion_n nh unmarshal rnd ws user nm form)"
proof -
  have "default_ws (dv_WorkspaceID (uploaded ws user nm meta h n)) = ws" for meta h n using assms by (simp add: uploaded_def default_ws_def)
  from own_CreateDatasetVersion [OF this] show ?thesis
    unfolding CreateDatasetVersion_n_def by (intro nsep_walk nsep_intros nsep_call)
qed

text \<open>Webhooks and peers are looked up in the workspace before they are changed.\<close>

lemma nsep_webhooks:
  assumes "ws \<noteq> []"
  shows "keeps (sep_n ws a0) (CreateWebhook_n ob ws body)" and "keeps (sep_n ws a0) (UpdateWebhook_n ob ws i body)"
    and "keeps (sep_n ws a0) (DeleteWebhook_n ws i)" and "keeps (sep_n ws a0) (TestWebhook_n env ws i)"
proof -
  let ?X = "elsewhere_n ws (hk_db a0)"
  have dw: "default_ws ws = ws" using assms by (simp add: default_ws_def)
  show "keeps (sep_n ws a0) (CreateWebhook_n ob ws body)" unfolding CreateWebhook_n_def Let_def
    by (intro nsep_walk nsep_intros nsep_call own_CreateWebhook) (simp add: dw)
  have "keeps (own ws ?X) (UpdateWebhook (patch_webhook req w))"
    if "hook_ID w \<notin> wh_id ` set (fo_webhooks ?X)" "default_ws (hook_WorkspaceID w) = ws" for req w
    by (rule own_UpdateWebhook) (use that in \<open>simp_all add: patch_webhook_def\<close>)
  then show "keeps (sep_n ws a0) (UpdateWebhook_n ob ws i body)" unfolding UpdateWebhook_n_def Let_def
    by (intro keeps_bnd [OF sep_reads(4)] nguarded_webhook keeps_bnd [OF sep_reads(3)] keeps_bnd [OF keeps_require] keeps_bnd [OF nsep_call(1)] keeps_ret) blast
  show "keeps (sep_n ws a0) (DeleteWebhook_n ws i)" unfolding DeleteWebhook_n_def
    by (intro keeps_bnd [OF sep_reads(4)] nguarded_webhook nsep_call(1) own_DeleteWebhook)
  show "keeps (sep_n ws a0) (TestWebhook_n env ws i)" unfolding TestWebhook_n_def
    by (intro keeps_bnd [OF sep_reads(4)] nguarded_webhook keeps_bnd [OF nsep_now] keeps_bnd [OF nsep_deliver_sync] keeps_pair keeps_if
        keeps_bnd [OF nsep_call(2)] own_RecordWebhookAttempt keeps_throw keeps_ret)
qed

lemma nsep_peers:
  assumes "ws \<noteq> []"
  shows "keeps (sep_n ws a0) (AddPeer_n ob rnd ws body)" and "keeps (sep_n ws a0) (DeletePeer_n ws i)" and "keeps (sep_n ws a0) (EchoPeer_n nh env ws i)"
proof -
  have dw: "default_ws ws = ws" using assms by (simp add: default_ws_def)
  show "keeps (sep_n ws a0) (AddPeer_n ob rnd ws body)" unfolding AddPeer_n_def Let_def
    by (intro nsep_walk nsep_intros nsep_call own_CreatePeer) (simp add: dw)
  show "keeps (sep_n ws a0) (DeletePeer_n ws i)" unfolding DeletePeer_n_def by (intro nsep_walk nsep_call own_DeletePeer assms)
  have cl: "keeps P (case r of Inl e \<Rightarrow> m e | Inr x \<Rightarrow> f x)" if "\<And>e. keeps P (m e)" "\<And>x. keeps P (f x)" for P and r :: "'x + 'y" and m :: "'x \<Rightarrow> 'z handler" and f
    using that by (cases r) simp_all
  show "keeps (sep_n ws a0) (EchoPeer_n nh env ws i)" unfolding EchoPeer_n_def Let_def
    by (intro keeps_bnd [OF sep_reads(4)] nguarded_peer [OF assms] cl keeps_pair keeps_if keeps_bnd [OF nsep_now] keeps_bnd [OF nsep_call(2)]
        own_UpdatePeerStatus keeps_throw keeps_ret)
qed

section \<open>The endpoints as one transition\<close>

text \<open>What is outside of the native API: codecs, the receivers of webhooks, the transport to peers.\<close>

record ('a, 'e, 'm) native_env =
  ne_codec :: "('a, 'e) span_codec"
  ne_attributes :: "(string \<rightharpoonup> attr_value) \<Rightarrow> string option"
  ne_metrics :: "'m \<Rightarrow> string option"
  ne_outbound :: outbound
  ne_delivery :: delivery_env
  ne_isArray :: "string \<Rightarrow> bool"
  ne_meta :: "string \<Rightarrow> uploadMeta option"
  ne_fan :: fan_env
  ne_search :: "string \<Rightarrow> federateSearchReq option"

datatype ('a, 'e, 'm) core_request =
    ReqListProjects
  | ReqAnalytics "AnalyticsQuery option"
  | ReqGetNote string
  | ReqSetNote string string "string option"
  | ReqIngestTraces "nat \<Rightarrow> 8 word list option \<times> 64 word" string "(string \<times> ('a, 'e) spanDTO list) option"
  | ReqRunTraces string
  | ReqRunData string "string \<Rightarrow> string"
  | ReqIngestOTLP "nat \<Rightarrow> 8 word list option \<times> 64 word" "resource_spans list option"
  | ReqListPrompts
  | ReqCreatePrompt "createPromptReq option"
  | ReqLatestPrompt string string
  | ReqPromptVersions string string
  | ReqPromptVersion string string string
  | ReqSetPromptAlias string string "(string \<times> int) option"
  | ReqPromptByAlias string string string
  | ReqCreateEval "'m createEvalReq option"
  | ReqGetEval string

datatype resource_request =
    ReqListWebhooks
  | ReqCreateWebhook "createWebhookReq option"
  | ReqUpdateWebhook string "createWebhookReq option"
  | ReqDeleteWebhook string
  | ReqTestWebhook string
  | ReqListEcho "string \<Rightarrow> string"
  | ReqRunLineage string "string \<Rightarrow> string"
  | ReqClone string "string option"
  | ReqGetDashboard string
  | ReqSaveDashboard string "string option"
  | ReqUpload string string string "upload_form option"
  | ReqListDatasets
  | ReqDatasetVersions string
  | ReqGetDataset string string
  | ReqDeleteDataset string string
  | ReqContent string string
  | ReqDatasetLineage string string

datatype peer_request =
    ReqAddPeer "8 word list option" "(string \<times> string \<times> string) option"
  | ReqListPeers
  | ReqDeletePeer string
  | ReqEchoPeer string
  | ReqFederateEcho string string reader
  | ReqFederateSearch string string reader

datatype ('a, 'e, 'm) native_request = CoreRequest "('a, 'e, 'm) core_request" | ResourceRequest resource_request | PeerRequest peer_request

text \<open>Only the effect of a request matters here, so its answer is left out.\<close>

definition silent :: "'x handler \<Rightarrow> unit handler" where
  "silent m = bnd m (\<lambda>_. ret ())"

primrec serve_core :: "('a, 'e, 'm) native_env \<Rightarrow> string \<Rightarrow> ('a, 'e, 'm) core_request \<Rightarrow> unit handler" where
  "serve_core env ws ReqListProjects = silent (ListProjects_n ws)"
| "serve_core env ws (ReqAnalytics body) = silent (AnalyticsQuery_n ws body)"
| "serve_core env ws (ReqGetNote rid) = silent (GetRunNote_n ws rid)"
| "serve_core env ws (ReqSetNote user rid body) = silent (SetRunNote_n ws user rid body)"
| "serve_core env ws (ReqIngestTraces rnd tr body) = silent (IngestTraces_n (ne_codec env) rnd tr ws body)"
| "serve_core env ws (ReqRunTraces rid) = silent (GetRunTraces_n (ne_codec env) ws rid)"
| "serve_core env ws (ReqRunData rid q) = silent (GetRunData_n (ne_codec env) ws rid q)"
| "serve_core env ws (ReqIngestOTLP rnd body) = silent (IngestOTLP_n (ne_attributes env) rnd ws body)"
| "serve_core env ws ReqListPrompts = silent (ListPrompts_n ws)"
| "serve_core env ws (ReqCreatePrompt body) = silent (CreatePrompt_n ws body)"
| "serve_core env ws (ReqLatestPrompt raw nm) = silent (GetLatestPrompt_n ws raw nm)"
| "serve_core env ws (ReqPromptVersions raw nm) = silent (ListPromptVersions_n ws raw nm)"
| "serve_core env ws (ReqPromptVersion raw nm v) = silent (GetPromptVersion_n ws raw nm v)"
| "serve_core env ws (ReqSetPromptAlias raw nm body) = silent (SetPromptAlias_n ws raw nm body)"
| "serve_core env ws (ReqPromptByAlias raw nm al) = silent (GetPromptByAlias_n ws raw nm al)"
| "serve_core env ws (ReqCreateEval body) = silent (CreateEval_n (ne_metrics env) ws body)"
| "serve_core env ws (ReqGetEval rid) = silent (GetEval_n ws rid)"

primrec serve_resource :: "NativeHandler \<Rightarrow> ('a, 'e, 'm) native_env \<Rightarrow> string \<Rightarrow> resource_request \<Rightarrow> unit handler" where
  "serve_resource nh env ws ReqListWebhooks = silent (ListWebhooks_n ws)"
| "serve_resource nh env ws (ReqCreateWebhook body) = silent (CreateWebhook_n (ne_outbound env) ws body)"
| "serve_resource nh env ws (ReqUpdateWebhook i body) = silent (UpdateWebhook_n (ne_outbound env) ws i body)"
| "serve_resource nh env ws (ReqDeleteWebhook i) = silent (DeleteWebhook_n ws i)"
| "serve_resource nh env ws (ReqTestWebhook i) = silent (TestWebhook_n (ne_delivery env) ws i)"
| "serve_resource nh env ws (ReqListEcho q) = silent (ListEchoDeliveries_n q)"
| "serve_resource nh env ws (ReqRunLineage rid q) = silent (GetRunLineage_n ws rid q)"
| "serve_resource nh env ws (ReqClone i body) = silent (CloneExperiment_n ws i body)"
| "serve_resource nh env ws (ReqGetDashboard pj) = silent (GetDashboard_n ws pj)"
| "serve_resource nh env ws (ReqSaveDashboard pj body) = silent (SaveDashboard_n (ne_isArray env) ws pj body)"
| "serve_resource nh env ws (ReqUpload rnd user nm form) = silent (CreateDatasetVersion_n nh (ne_meta env) rnd ws user nm form)"
| "serve_resource nh env ws ReqListDatasets = silent (ListDatasets_n ws)"
| "serve_resource nh env ws (ReqDatasetVersions nm) = silent (ListDatasetVersions_n ws nm)"
| "serve_resource nh env ws (ReqGetDataset nm v) = silent (GetDatasetVersion_n ws nm v)"
| "serve_resource nh env ws (ReqDeleteDataset nm v) = silent (DeleteDatasetVersion_n ws nm v)"
| "serve_resource nh env ws (ReqContent nm v) = silent (GetDatasetContent_n nh ws nm v)"
| "serve_resource nh env ws (ReqDatasetLineage nm v) = silent (GetDatasetLineage_n ws nm v)"

primrec serve_peer :: "NativeHandler \<Rightarrow> ('a, 'e, 'm) native_env \<Rightarrow> (string \<Rightarrow> string) \<Rightarrow> peer_request \<Rightarrow> unit handler" where
  "serve_peer nh env header (ReqAddPeer rnd body) = silent (AddPeer_n (ne_outbound env) rnd (currentWorkspace header) body)"
| "serve_peer nh env header ReqListPeers = silent (ListPeers_n (currentWorkspace header))"
| "serve_peer nh env header (ReqDeletePeer i) = silent (DeletePeer_n (currentWorkspace header) i)"
| "serve_peer nh env header (ReqEchoPeer i) = silent (EchoPeer_n nh (ne_fan env) (currentWorkspace header) i)"
| "serve_peer nh env header (ReqFederateEcho meth path r) = silent (FederateEcho_n meth path header r)"
| "serve_peer nh env header (ReqFederateSearch meth path r) = silent (FederateSearch_n nh (ne_search env) meth path header r)"

fun serve_native :: "NativeHandler \<Rightarrow> ('a, 'e, 'm) native_env \<Rightarrow> (string \<Rightarrow> string) \<Rightarrow> ('a, 'e, 'm) native_request \<Rightarrow> unit handler" where
  "serve_native nh env header (CoreRequest r) = serve_core env (currentWorkspace header) r"
| "serve_native nh env header (ResourceRequest r) = serve_resource nh env (currentWorkspace header) r"
| "serve_native nh env header (PeerRequest r) = serve_peer nh env header r"

lemma nsep_silent: "keeps P m \<Longrightarrow> keeps P (silent m)"
  unfolding silent_def by (intro keeps_bnd keeps_ret)

lemma nsep_core_reads:
  "keeps (sep_n ws a0) (AnalyticsQuery_n w body)" "keeps (sep_n ws a0) (GetRunNote_n w rid)" "keeps (sep_n ws a0) (GetRunTraces_n cd w rid)"
  "keeps (sep_n ws a0) (GetRunData_n cd w rid q)" "keeps (sep_n ws a0) (GetLatestPrompt_n w raw nm)" "keeps (sep_n ws a0) (ListPromptVersions_n w raw nm)"
  "keeps (sep_n ws a0) (GetPromptVersion_n w raw nm v)" "keeps (sep_n ws a0) (GetPromptByAlias_n w raw nm al)" "keeps (sep_n ws a0) (GetEval_n w rid)"
  "keeps (sep_n ws a0) (ListProjects_n w)" "keeps (sep_n ws a0) (ListPrompts_n w)"
proof -
  have "keeps P (\<lambda>a. case f a of Inl e \<Rightarrow> (Inl (g e), a) | Inr x \<Rightarrow> (Inr x, a))" for P :: "api \<Rightarrow> bool" and f :: "api \<Rightarrow> err + 'x" and g :: "err \<Rightarrow> http_error"
    by (simp add: keeps_def split: sum.split)
  then show "keeps (sep_n ws a0) (AnalyticsQuery_n w body)" unfolding AnalyticsQuery_n_def by (intro keeps_bnd sep_reads)
qed (simp_all only: GetRunNote_n_def GetRunTraces_n_def GetRunData_n_def GetLatestPrompt_n_def ListPromptVersions_n_def GetPromptVersion_n_def
    GetPromptByAlias_n_def GetEval_n_def ListProjects_n_def ListPrompts_n_def, (intro nsep_walk nsep_intros)+)

lemma nsep_resource_reads:
  "keeps (sep_n ws a0) (ListWebhooks_n w)" "keeps (sep_n ws a0) (ListEchoDeliveries_n q)" "keeps (sep_n ws a0) (GetRunLineage_n w rid q)"
  "keeps (sep_n ws a0) (GetDashboard_n w pj)" "keeps (sep_n ws a0) (ListDatasets_n w)" "keeps (sep_n ws a0) (ListDatasetVersions_n w nm)"
  "keeps (sep_n ws a0) (GetDatasetVersion_n w nm v)" "keeps (sep_n ws a0) (GetDatasetLineage_n w nm v)" "keeps (sep_n ws a0) (GetDatasetContent_n nh w nm v)"
  "keeps (sep_n ws a0) (ListPeers_n w)" "keeps (sep_n ws a0) (FederateEcho_n meth path header r)" "keeps (sep_n ws a0) (FederateSearch_n nh un meth path header r)"
proof -
  have "keeps P (\<lambda>a. case f a of Inl e \<Rightarrow> (Inl (g e), a) | Inr (x, n) \<Rightarrow> (Inr (k x n), a))"
    for P :: "api \<Rightarrow> bool" and f :: "api \<Rightarrow> 'y + 'u \<times> 'v" and g :: "'y \<Rightarrow> http_error" and k :: "'u \<Rightarrow> 'v \<Rightarrow> 'x"
    by (simp add: keeps_def split: sum.split prod.split)
  then show "keeps (sep_n ws a0) (GetDatasetContent_n nh w nm v)" unfolding GetDatasetContent_n_def by (intro nsep_walk nsep_intros)
qed (simp_all only: ListWebhooks_n_def ListEchoDeliveries_n_def GetRunLineage_n_def GetDashboard_n_def ListDatasets_n_def ListDatasetVersions_n_def
    GetDatasetVersion_n_def GetDatasetLineage_n_def ListPeers_n_def FederateEcho_n_def FederateSearch_n_def Let_def, (intro nsep_walk nsep_intros)+)

lemma nsep_serve:
  assumes "ws = currentWorkspace header"
  shows "keeps (sep_n ws a0) (serve_native nh env header rq)"
proof -
  have ws: "ws \<noteq> []" using assms currentWorkspace_nonempty by simp
  have "keeps (sep_n ws a0) (serve_core env ws r)" for r
    by (cases r; simp only: serve_core.simps; intro nsep_silent nsep_core_reads nsep_runs [OF ws] nsep_made_here [OF ws])
  moreover have "keeps (sep_n ws a0) (serve_resource nh env ws r)" for r
    by (cases r; simp only: serve_resource.simps; intro nsep_silent nsep_resource_reads nsep_made_here [OF ws] nsep_upload [OF ws] nsep_webhooks [OF ws])
  moreover have "keeps (sep_n ws a0) (serve_peer nh env header r)" for r
    by (cases r; simp only: serve_peer.simps assms [symmetric]; intro nsep_silent nsep_resource_reads nsep_peers [OF ws])
  ultimately show ?thesis by (cases rq) (simp_all add: assms)
qed


text \<open>Two tenants with a webhook each: "team-b" can delete its own, and the one of "default" is not found.\<close>

definition tenant_webhook :: "int \<Rightarrow> string \<Rightarrow> webhook_row" where
  "tenant_webhook i ws = \<lparr>wh_id = i, wh_name = ''w'', wh_url = ''https://x'', wh_events = ''*'', wh_experiment_id = None, wh_workspace_id = ws,
     wh_secret = None, wh_created_at = 60, wh_last_status = None, wh_last_attempt = None, wh_enabled = True\<rparr>"

definition webhook_tenants :: api where
  "webhook_tenants = two_tenants_api\<lparr>hk_db := two_tenants\<lparr>webhooks_seq := 2, webhooks := [tenant_webhook 1 ''default'', tenant_webhook 2 ''team-b'']\<rparr>\<rparr>"

definition unreachable_env :: "(unit, unit, unit) native_env" where
  "unreachable_env = \<lparr>
     ne_codec = \<lparr>sc_attr = \<lambda>_. None, sc_events = \<lambda>_. None, sc_un_attr = \<lambda>_. (), sc_un_events = \<lambda>_. ()\<rparr>,
     ne_attributes = (\<lambda>_. None), ne_metrics = (\<lambda>_. None),
     ne_outbound = \<lparr>ob_Parse = \<lambda>_. None, ob_LookupIPAddr = \<lambda>_. None, ob_AllowPrivate = False\<rparr>,
     ne_delivery = \<lparr>de_marshal = \<lambda>_. None, de_respond = \<lambda>_ _. None\<rparr>, ne_isArray = (\<lambda>_. False), ne_meta = (\<lambda>_. None),
     ne_fan = \<lparr>fe_http = \<lambda>_. None, fe_echo = \<lambda>_ _. [], fe_encode = \<lambda>_. [], fe_query = \<lambda>_. [], fe_decode = \<lambda>_. None,
       fe_order = (\<lambda>ps. ps), fe_error = \<lambda>_. []\<rparr>,
     ne_search = (\<lambda>_. None)\<rparr>"

definition delete_webhook :: "string \<Rightarrow> (unit, unit, unit) native_request" where
  "delete_webhook i = ResourceRequest (ReqDeleteWebhook i)"

lemma db_ok_webhook_tenants: "db_ok (hk_db webhook_tenants)"
  using db_ok_two_tenants by (simp add: webhook_tenants_def db_ok_def webhooks_ok_def tenant_webhook_def pk_def Schema.below_def)


end
