(* ===== verification/Spec2Isabelle.thy ===== *)
theory Spec2Isabelle
  imports TimeTravel Janitor RunData RegistryBehaviour Workspaces Sessions Peers Prompts Traces Lineage RunSearch StoreCalls Analytics Downsample
    Egress Federation Artifact Cas Dispatch Api NativeTenancy
begin

text \<open>
  LiteMLflow is a single-binary MLflow-compatible tracking server written in Go. Its parts and how they work together:

  \<^item> The store (\<open>internal/store\<close>) keeps experiments, runs, metrics, parameters, tags, the event log, the model registry, prompts,
    traces, datasets, sessions, workspaces, webhooks, peers and dashboards in one SQLite database. Everything else reads and
    writes through its methods.
  \<^item> The server (\<open>internal/server\<close>, \<open>internal/auth\<close>) puts a chain of middlewares before the API handlers: rate limit, authentication,
    choice of workspace, role check, body limits.
  \<^item> The handlers of the MLflow REST API (\<open>internal/api/mlflow\<close>) turn a request in a workspace into store calls, artifact operations and
    webhook notifications; the native API (\<open>internal/api/native\<close>) serves the user interface.
  \<^item> Artifacts (\<open>internal/artifact\<close>) and dataset contents (\<open>internal/datasets\<close>) are files.
  \<^item> Webhooks (\<open>internal/webhooks\<close>) and federation (\<open>internal/federation\<close>) talk to other servers through a guarded client.

  \<^bold>\<open>Layout.\<close> \<open>Prelude\<close> has the state-and-error monad \<open>sem\<close> of store calls (\<open>bnd\<close>, \<open>throw\<close>, \<open>catch\<close>, \<open>for_each\<close>), the preservation calculus
  \<open>keeps\<close> with its collection \<open>keeps_intros\<close>, operations on rows, and the locales for keyed tables. \<open>GoStd\<close> models what the code uses of
  Go's \<open>strings\<close>, \<open>strconv\<close>, \<open>unicode/utf8\<close> and JSON numbers; \<open>Sha256\<close> is the hash; \<open>Files\<close> models \<open>path/filepath\<close> and a file system.
  \<open>Tables\<close> and \<open>Schema\<close> have one record of rows for each table of \<open>internal/migrations\<close>, the database \<open>db\<close> and its integrity constraints
  \<open>db_ok\<close>. A store method is a definition of type \<open>op\<close> with the name of the Go method, composed of statements (\<open>insert_\<dots>\<close>, \<open>update_\<dots>\<close>,
  \<open>upsert_\<dots>\<close>, \<open>delete_\<dots>\<close>) that check the constraints SQLite checks and fail as it does; \<open>tx\<close> is a transaction, \<open>now\<close> reads the clock.

  \<^bold>\<open>Components.\<close>

  \<^descr> [\<open>Model\<close>] entities and validation of \<open>internal/model\<close>.
  \<^descr> [\<open>Experiments\<close>, \<open>Runs\<close>, \<open>RunBehaviour\<close>, \<open>Janitor\<close>, \<open>RunData\<close>, \<open>BatchLoad\<close>] experiments, runs, tags, metrics, parameters, notes and evaluations
    of \<open>store/sqlite.go\<close> and \<open>sqlite_lineage.go\<close>: outcomes of each method, the materialised latest metrics, parameters written once,
    exactness of the archiving of stale runs.
  \<^descr> [\<open>Replay\<close>, \<open>RunHistory\<close>, \<open>TimeTravel\<close>] the event log of \<open>sqlite_events.go\<close>: reading a run as of a time gives what it was then, whatever
    calls followed.
  \<^descr> [\<open>Registry\<close>, \<open>RegistryFacts\<close>, \<open>RegistryBehaviour\<close>] \<open>store/registry.go\<close>: versions, stages, aliases, renames.
  \<^descr> [\<open>Workspaces\<close>, \<open>Sessions\<close>, \<open>Peers\<close>, \<open>Prompts\<close>, \<open>Traces\<close>, \<open>Walk\<close>, \<open>Datasets\<close>, \<open>Inputs\<close>, \<open>Lineage\<close>] the other tables, with the bounded walks over the
    lineage of datasets and runs.
  \<^descr> [\<open>Paging\<close>, \<open>Keyset\<close>, \<open>Search\<close>, \<open>RunFilter\<close>, \<open>RunSearch\<close>] filters, orders, cursors and page tokens: following the tokens ends and shows every
    match once. The locale \<open>keyset_search\<close> states what a search promises; each search interprets it.
  \<^descr> [\<open>Analytics\<close>, \<open>Downsample\<close>] \<open>store/analytics.go\<close> and \<open>store/downsample.go\<close>.
  \<^descr> [\<open>StoreCalls\<close>] any sequence of calls of the store keeps the invariant of the whole database.
  \<^descr> [\<open>RateLimit\<close>, \<open>Access\<close>] the middlewares: no request reaches a handler without the rights it needs.
  \<^descr> [\<open>Egress\<close>, \<open>Federation\<close>, \<open>Dispatch\<close>] outbound connections, signed requests between servers with their cache, delivery of webhooks.
  \<^descr> [\<open>MlflowApi\<close>, \<open>RegistryApi\<close>] the handlers of the MLflow REST API (\<open>internal/api/mlflow\<close>) over the store, the artifacts and the dispatcher: each
    is a definition with the name of the Go handler and the suffix \<open>_h\<close> that takes the workspace, the query and the decoded body.
  \<^descr> [\<open>Tenancy\<close>, \<open>Api\<close>] all endpoints as one transition \<open>serve\<close>: a request leaves everything of other workspaces as it is, and a run of
    another workspace is refused like one that does not exist.
  \<^descr> [\<open>NativeApi\<close>, \<open>NativeResources\<close>, \<open>NativeFederation\<close>] the handlers of the native REST API (\<open>internal/api/native\<close>), with the suffix \<open>_n\<close>: notes,
    traces in both formats, prompts, evaluations and sign-in of \<open>handlers.go\<close>; workspaces, webhooks, lineage, dashboards and datasets;
    search, peers and the signed endpoints between servers. Sign-in by an identity provider is bound to the browser that asked for it,
    an uploaded dataset is downloaded again, and a federated search returns what the peer finds.
  \<^descr> [\<open>NativeTenancy\<close>] the endpoints of the native API as one transition \<open>serve_native\<close>: a request leaves everything of other workspaces as it
    is, with the notes, spans, prompts, webhooks, dashboards, peers and dataset lineage that the notion of \<open>Api\<close> leaves out.
  \<^descr> [\<open>Artifact\<close>, \<open>Cas\<close>] artifacts stay below the directory of their run; the content-addressed files implement a map.

  \<^bold>\<open>Bounds and fuel.\<close> The walks over lineage take the limits of the code (256 nodes, depths and fan-outs) as their measure. The
  loops of \<open>retryWriteRace\<close>, of log inputs and of deliveries have the bound of the code as an argument. No definition runs out
  of fuel the code does not have.

  \<^bold>\<open>Parameters.\<close> Unicode case tables, regular JSON encoding, bcrypt, DNS, HTTP transports and random bytes are arguments of the
  definitions that use them.

  \<^bold>\<open>Not modelled.\<close> The S3 artifact store and the OpenID Connect client (protocols with remote services; what the handlers rely on is an
  argument), the OTLP receiver over gRPC (generated message types), the import from MLflow, the command line with configuration,
  metrics and assembly of the server, the SQL files themselves (their result is \<open>Tables\<close> and \<open>Schema\<close>), the test double of the
  store, the Kubernetes operator, the Terraform provider and the web interface. JSON syntax, response headers, cookies, logging and
  the texts of error messages are left out of the handlers, and concurrency is the interleaving of whole calls, except for the two phases
  of an upload of contents and the workers of the dispatcher.
\<close>

end
